(* ===== verification/JS_Prelude.thy ===== *)
theory JS_Prelude
  imports Main "HOL-Library.Word" "HOL-Library.AList" "HOL-Library.Sublist"
    "HOL-Library.Code_Target_Numeral"
begin

text \<open>
  What the TypeScript sources share with every component of the model.

  \<^item> A JavaScript string is a sequence of UTF-16 code units: \<open>js_string\<close> is a list of
    16-bit words; \<open>js_of\<close> turns an ASCII literal into one.
  \<^item> A JavaScript \<open>Map\<close> (and \<open>Set\<close>) iterates in insertion order, and \<open>set\<close> on a present key
    keeps its place: it is an association list with the \<open>update\<close> and \<open>delete\<close> of
    \<open>HOL-Library.AList\<close>. The locale \<open>js_map\<close> states the contract the components rely on and is
    interpreted on that representation.
  \<^item> The locale \<open>codec\<close> is the contract of an encoder with a decoder that may fail, and
    \<open>guarded_machine\<close> the contract of a component whose operations keep an invariant; the
    components interpret them.
\<close>

named_theorems js_eval \<open>rewrite rules that evaluate the model on concrete inputs\<close>
named_theorems client_simps \<open>projections of the client's operations\<close>

section \<open>Strings\<close>

type_synonym code_unit = "16 word"
type_synonym js_string = "code_unit list"
type_synonym byte = "8 word"
type_synonym bytes = "byte list"

definition js_of :: "string \<Rightarrow> js_string" where
  "js_of s = map (\<lambda>c. of_nat (of_char c)) s"

text \<open>\<open>s.includes(p)\<close>, and the test of a regular expression that is a plain literal.\<close>

definition js_includes :: "js_string \<Rightarrow> js_string \<Rightarrow> bool" where
  "js_includes s p \<longleftrightarrow> sublist p s"

text \<open>\<open>s.indexOf(x, from)\<close> for a single code unit; \<open>None\<close> stands for -1.\<close>

fun index_of :: "'a \<Rightarrow> 'a list \<Rightarrow> nat option" where
  "index_of x [] = None"
| "index_of x (y # ys) = (if y = x then Some 0 else map_option Suc (index_of x ys))"

lemma js_of_simps [simp, js_eval]:
  "js_of [] = []"
  "js_of (c # cs) = of_nat (of_char c) # js_of cs"
  by (simp_all add: js_of_def)

lemma js_of_append [simp]: "js_of (xs @ ys) = js_of xs @ js_of ys"
  by (simp add: js_of_def)

lemma length_js_of [simp]: "length (js_of s) = length s"
  by (simp add: js_of_def)

lemma index_of_None: "index_of x xs = None \<longleftrightarrow> x \<notin> set xs"
  by (induction xs) auto

lemma index_of_append_first [simp]:
  "x \<notin> set ys \<Longrightarrow> index_of x (ys @ x # zs) = Some (length ys)"
  by (induction ys) auto

lemma index_of_Some_iff:
  "index_of x xs = Some n \<longleftrightarrow> n < length xs \<and> xs ! n = x \<and> (\<forall>m < n. xs ! m \<noteq> x)"
proof (induction xs arbitrary: n)
  case Nil
  then show ?case by simp
next
  case (Cons y ys)
  show ?case
  proof (cases n)
    case 0
    then show ?thesis by (auto split: if_splits)
  next
    case (Suc k)
    then show ?thesis
      using Cons.IH [of k] by (auto simp: All_less_Suc2 split: if_splits)
  qed
qed

lemma index_of_Some_less: "index_of x xs = Some n \<Longrightarrow> n < length xs"
  by (simp add: index_of_Some_iff)

lemma take_index_of: "index_of x xs = Some n \<Longrightarrow> x \<notin> set (take n xs)"
  by (auto simp: index_of_Some_iff in_set_conv_nth)

text \<open>\<open>xs.slice(-n)\<close> for a positive \<open>n\<close>: the last elements, in order.\<close>

definition keep_last :: "nat \<Rightarrow> 'a list \<Rightarrow> 'a list" where
  "keep_last n xs = drop (length xs - n) xs"

lemma keep_last_snoc: "0 < n \<Longrightarrow> keep_last n (keep_last n xs @ [x]) = keep_last n (xs @ [x])"
  by (cases "length xs < n") (auto simp: keep_last_def Suc_diff_le)

lemma length_keep_last: "length (keep_last n xs) \<le> n"
  by (simp add: keep_last_def)

lemma set_keep_last: "set (keep_last n xs) \<subseteq> set xs"
  by (simp add: keep_last_def set_drop_subset)

section \<open>Insertion-ordered maps\<close>

type_synonym ('k, 'v) jmap = "('k \<times> 'v) list"

definition jget :: "('k, 'v) jmap \<Rightarrow> 'k \<Rightarrow> 'v option" where
  "jget m k = map_of m k"

definition jset :: "'k \<Rightarrow> 'v \<Rightarrow> ('k, 'v) jmap \<Rightarrow> ('k, 'v) jmap" where
  "jset k v m = AList.update k v m"

definition jdelete :: "'k \<Rightarrow> ('k, 'v) jmap \<Rightarrow> ('k, 'v) jmap" where
  "jdelete k m = AList.delete k m"

definition jkeys :: "('k, 'v) jmap \<Rightarrow> 'k list" where
  "jkeys m = map fst m"

definition jmap_ok :: "('k, 'v) jmap \<Rightarrow> bool" where
  "jmap_ok m \<longleftrightarrow> distinct (jkeys m)"

text \<open>A \<open>Set\<close> is a duplicate-free list in insertion order.\<close>

definition set_add :: "'a \<Rightarrow> 'a list \<Rightarrow> 'a list" where
  "set_add x xs = (if x \<in> set xs then xs else xs @ [x])"

definition set_remove :: "'a \<Rightarrow> 'a list \<Rightarrow> 'a list" where
  "set_remove x xs = filter (\<lambda>y. y \<noteq> x) xs"

text \<open>
  The contract of a \<open>Map\<close>: what \<open>get\<close> returns after \<open>set\<close> and \<open>delete\<close>, which keys the
  iteration visits, and that every operation keeps the keys distinct.
\<close>

locale js_map =
  fixes mget :: "'m \<Rightarrow> 'k \<Rightarrow> 'v option"
    and mset :: "'k \<Rightarrow> 'v \<Rightarrow> 'm \<Rightarrow> 'm"
    and mdel :: "'k \<Rightarrow> 'm \<Rightarrow> 'm"
    and mkeys :: "'m \<Rightarrow> 'k list"
    and mok :: "'m \<Rightarrow> bool"
  assumes get_set: "mget (mset k v m) k' = (if k' = k then Some v else mget m k')"
    and get_del: "mget (mdel k m) k' = (if k' = k then None else mget m k')"
    and key_iff: "k \<in> set (mkeys m) \<longleftrightarrow> mget m k \<noteq> None"
    and keys_set: "mkeys (mset k v m) = (if k \<in> set (mkeys m) then mkeys m else mkeys m @ [k])"
    and keys_del: "mkeys (mdel k m) = filter (\<lambda>k'. k' \<noteq> k) (mkeys m)"
    and ok_iff: "mok m \<longleftrightarrow> distinct (mkeys m)"
begin

lemma ok_set: "mok m \<Longrightarrow> mok (mset k v m)"
  by (simp add: ok_iff keys_set)

lemma ok_del: "mok m \<Longrightarrow> mok (mdel k m)"
  by (simp add: ok_iff keys_del)

lemma key_set_iff: "k' \<in> set (mkeys (mset k v m)) \<longleftrightarrow> k' = k \<or> k' \<in> set (mkeys m)"
  by (auto simp: keys_set)

lemma key_del_iff: "k' \<in> set (mkeys (mdel k m)) \<longleftrightarrow> k' \<noteq> k \<and> k' \<in> set (mkeys m)"
  by (auto simp: keys_del)

lemma size_set:
  "length (mkeys (mset k v m)) = length (mkeys m) + (if mget m k = None then 1 else 0)"
  by (simp add: keys_set key_iff)

lemma size_card: "mok m \<Longrightarrow> length (mkeys m) = card {k. mget m k \<noteq> None}"
proof -
  assume "mok m"
  then have "length (mkeys m) = card (set (mkeys m))"
    by (simp add: ok_iff distinct_card)
  also have "set (mkeys m) = {k. mget m k \<noteq> None}"
    by (auto simp: key_iff)
  finally show ?thesis .
qed

end

lemma jkeys_update:
  "map fst (AList.update k v m) = (if k \<in> fst ` set m then map fst m else map fst m @ [k])"
  by (simp add: update_keys)

interpretation jm: js_map jget jset jdelete jkeys jmap_ok
proof unfold_locales
  fix k k' :: 'a and v :: 'b and m :: "('a, 'b) jmap"
  show "jget (jset k v m) k' = (if k' = k then Some v else jget m k')"
    by (simp add: jget_def jset_def update_conv')
  show "jget (jdelete k m) k' = (if k' = k then None else jget m k')"
    by (simp add: jget_def jdelete_def delete_conv')
  show "k \<in> set (jkeys m) \<longleftrightarrow> jget m k \<noteq> None"
    by (simp add: jkeys_def jget_def map_of_eq_None_iff)
  show "jkeys (jset k v m) = (if k \<in> set (jkeys m) then jkeys m else jkeys m @ [k])"
    by (simp add: jkeys_def jset_def update_keys)
  show "jkeys (jdelete k m) = filter (\<lambda>k'. k' \<noteq> k) (jkeys m)"
    by (simp add: jkeys_def jdelete_def AList.delete_eq filter_map o_def case_prod_beta' eq_commute [of k])
  show "jmap_ok m \<longleftrightarrow> distinct (jkeys m)"
    by (simp add: jmap_ok_def)
qed

lemmas jmap_simps = jm.get_set jm.get_del jm.keys_set jm.keys_del
lemmas jmap_ok_intros = jm.ok_set jm.ok_del

lemma jget_Nil [simp]: "jget [] k = None"
  by (simp add: jget_def)

lemma jkeys_Nil [simp]: "jkeys [] = []"
  by (simp add: jkeys_def)

lemma jmap_ok_Nil [simp]: "jmap_ok []"
  by (simp add: jmap_ok_def)

lemma jget_in_set: "jmap_ok m \<Longrightarrow> (k, v) \<in> set m \<longleftrightarrow> jget m k = Some v"
  by (simp add: jmap_ok_def jkeys_def jget_def map_of_eq_Some_iff)

lemma jget_filter:
  "jmap_ok m \<Longrightarrow>
   jget (filter (\<lambda>(k, v). P k v) m) k =
     (case jget m k of None \<Rightarrow> None | Some v \<Rightarrow> if P k v then Some v else None)"
  by (induction m) (auto simp: jget_def jmap_ok_def jkeys_def map_of_eq_None_iff rev_image_eqI
    split: option.splits dest: map_of_SomeD)

lemma jmap_ok_filter: "jmap_ok m \<Longrightarrow> jmap_ok (filter P m)"
  by (simp add: jmap_ok_def jkeys_def distinct_map_filter)

lemma set_set_add [simp]: "set (set_add x xs) = insert x (set xs)"
  by (auto simp: set_add_def)

lemma distinct_set_add: "distinct xs \<Longrightarrow> distinct (set_add x xs)"
  by (simp add: set_add_def)

lemma set_set_remove [simp]: "set (set_remove x xs) = set xs - {x}"
  by (auto simp: set_remove_def)

lemma distinct_set_remove: "distinct xs \<Longrightarrow> distinct (set_remove x xs)"
  by (simp add: set_remove_def)

lemma set_add_not_Nil [simp]: "set_add x xs \<noteq> []"
  by (auto simp: set_add_def)

section \<open>Codecs\<close>

text \<open>
  An encoder and a decoder that may reject its input: on every value of the domain the decoder
  undoes the encoder. Encodings of distinct values are then distinct, and a stream decoded
  element by element gives back what was sent.
\<close>

locale codec =
  fixes enc :: "'a \<Rightarrow> 'b"
    and dec :: "'b \<Rightarrow> 'a option"
    and valid :: "'a \<Rightarrow> bool"
  assumes dec_enc: "valid a \<Longrightarrow> dec (enc a) = Some a"
begin

lemma enc_inject: "valid a \<Longrightarrow> valid b \<Longrightarrow> enc a = enc b \<longleftrightarrow> a = b"
  using dec_enc by (metis option.inject)

lemma dec_enc_stream: "(\<And>a. a \<in> set as \<Longrightarrow> valid a) \<Longrightarrow> List.map_filter (\<lambda>a. dec (enc a)) as = as"
  by (induction as) (simp_all add: List.map_filter_simps dec_enc)

end

section \<open>Machines that keep an invariant\<close>

text \<open>
  A component with a state, an initial state and a step function on its operations, together with
  an invariant that holds at the start and that each operation keeps. Every history of operations
  then keeps it.
\<close>

locale guarded_machine =
  fixes start :: "'s"
    and step :: "'op \<Rightarrow> 's \<Rightarrow> 's"
    and inv :: "'s \<Rightarrow> bool"
  assumes inv_start: "inv start"
    and inv_step: "inv s \<Longrightarrow> inv (step op s)"
begin

lemma inv_run_from: "inv s \<Longrightarrow> inv (fold step ops s)"
  by (induction ops arbitrary: s) (simp_all add: inv_step)

lemma inv_run: "inv (fold step ops start)"
  by (rule inv_run_from [OF inv_start])

end

section \<open>Step relations\<close>

text \<open>
  The same for a component whose environment chooses the next step: a step relation, its
  reachable states, and rule induction over them. A second invariant may use the first.
\<close>

locale transition_system =
  fixes init :: "'s \<Rightarrow> bool"
    and rel :: "'s \<Rightarrow> 's \<Rightarrow> bool"
    and reach :: "'s \<Rightarrow> bool"
  assumes reach_iff: "reach t \<longleftrightarrow> (\<exists>s. init s \<and> rel\<^sup>*\<^sup>* s t)"
begin

lemma reach_invariant:
  assumes start: "\<And>s. init s \<Longrightarrow> I s"
    and step: "\<And>s t. reach s \<Longrightarrow> I s \<Longrightarrow> rel s t \<Longrightarrow> I t"
    and "reach t"
  shows "I t"
proof -
  from \<open>reach t\<close> obtain s where s: "init s" and st: "rel\<^sup>*\<^sup>* s t"
    by (auto simp: reach_iff)
  from st have "I t \<and> reach t"
  proof (induction rule: rtranclp_induct)
    case base
    show ?case using start [OF s] s by (auto simp: reach_iff)
  next
    case (step u v)
    then have "reach v" by (auto simp: reach_iff intro: rtranclp.rtrancl_into_rtrancl)
    with step show ?case using assms(2) by blast
  qed
  then show ?thesis ..
qed

lemma reach_step: "reach s \<Longrightarrow> rel s t \<Longrightarrow> reach t"
  by (auto simp: reach_iff intro: rtranclp.rtrancl_into_rtrancl)

lemma reach_steps: "reach s \<Longrightarrow> rel\<^sup>*\<^sup>* s t \<Longrightarrow> reach t"
  by (auto simp: reach_iff intro: rtranclp_trans)

end

end
