(* ===== verification/JS_Text.thy ===== *)
theory JS_Text
  imports JS_Prelude
begin

text \<open>
  \<open>TextEncoder\<close> and \<open>TextDecoder\<close> of the host language, as \<open>protocol.ts\<close>, \<open>chunking.ts\<close> and
  \<open>protocolLimits.ts\<close> use them. A string is read as a sequence of Unicode scalar values
  (a surrogate pair is one supplementary scalar, a lone surrogate is replaced by U+FFFD), which is
  written in UTF-8. The decoder is the error-replacing UTF-8 decoder of the Encoding Standard with
  its leading byte order mark removed. The lemmas show that decoding an encoding gives the string
  back whenever it is well formed and does not start with a byte order mark, and how the
  encoded length behaves on prefixes and concatenations.
\<close>

section \<open>UTF-16\<close>

definition is_high :: "code_unit \<Rightarrow> bool" where
  "is_high u \<longleftrightarrow> 0xD800 \<le> unat u \<and> unat u < 0xDC00"

definition is_low :: "code_unit \<Rightarrow> bool" where
  "is_low u \<longleftrightarrow> 0xDC00 \<le> unat u \<and> unat u < 0xE000"

definition pair_scalar :: "code_unit \<Rightarrow> code_unit \<Rightarrow> nat" where
  "pair_scalar h l = 0x10000 + (unat h - 0xD800) * 0x400 + (unat l - 0xDC00)"

definition unit_scalar :: "code_unit \<Rightarrow> nat" where
  "unit_scalar u = (if is_high u \<or> is_low u then 0xFFFD else unat u)"

fun to_scalars :: "js_string \<Rightarrow> nat list" where
  "to_scalars [] = []"
| "to_scalars [u] = [unit_scalar u]"
| "to_scalars (u # v # us) =
     (if is_high u \<and> is_low v then pair_scalar u v # to_scalars us
      else unit_scalar u # to_scalars (v # us))"

definition of_scalar :: "nat \<Rightarrow> js_string" where
  "of_scalar c =
     (if c < 0x10000 then [of_nat c]
      else [of_nat (0xD800 + (c - 0x10000) div 0x400), of_nat (0xDC00 + (c - 0x10000) mod 0x400)])"

definition of_scalars :: "nat list \<Rightarrow> js_string" where
  "of_scalars cs = concat (map of_scalar cs)"

fun well_formed :: "js_string \<Rightarrow> bool" where
  "well_formed [] = True"
| "well_formed [u] = (\<not> is_high u \<and> \<not> is_low u)"
| "well_formed (u # v # us) =
     (if is_high u \<and> is_low v then well_formed us
      else \<not> is_high u \<and> \<not> is_low u \<and> well_formed (v # us))"

definition is_scalar :: "nat \<Rightarrow> bool" where
  "is_scalar c \<longleftrightarrow> c < 0xD800 \<or> (0xE000 \<le> c \<and> c < 0x110000)"

section \<open>UTF-8 encoding\<close>

definition utf8_scalar :: "nat \<Rightarrow> bytes" where
  "utf8_scalar c =
     (if c < 0x80 then [of_nat c]
      else if c < 0x800 then [of_nat (0xC0 + c div 0x40), of_nat (0x80 + c mod 0x40)]
      else if c < 0x10000 then
        [of_nat (0xE0 + c div 0x1000), of_nat (0x80 + c div 0x40 mod 0x40), of_nat (0x80 + c mod 0x40)]
      else
        [of_nat (0xF0 + c div 0x40000), of_nat (0x80 + c div 0x1000 mod 0x40),
         of_nat (0x80 + c div 0x40 mod 0x40), of_nat (0x80 + c mod 0x40)])"

text \<open>\<open>new TextEncoder().encode(s)\<close>\<close>

definition text_encode :: "js_string \<Rightarrow> bytes" where
  "text_encode s = concat (map utf8_scalar (to_scalars s))"

text \<open>
  \<open>encodeInto(s, dst)\<close>: whole scalar values are written as long as they fit; the first one that
  does not ends the conversion. The result is the bytes written.
\<close>

fun encode_into :: "nat \<Rightarrow> nat list \<Rightarrow> bytes" where
  "encode_into room [] = []"
| "encode_into room (c # cs) =
     (if length (utf8_scalar c) \<le> room
      then utf8_scalar c @ encode_into (room - length (utf8_scalar c)) cs else [])"

section \<open>UTF-8 decoding\<close>

text \<open>What the byte that starts a sequence says: a finished scalar value, or how many continuation
  bytes follow, in which range the first of them lies, and the bits seen so far.\<close>

datatype lead = Done nat | Need nat nat nat nat

definition utf8_lead :: "byte \<Rightarrow> lead" where
  "utf8_lead b = (let n = unat b in
     if n < 0x80 then Done n
     else if 0xC2 \<le> n \<and> n \<le> 0xDF then Need 1 0x80 0xBF (n mod 0x20)
     else if 0xE0 \<le> n \<and> n \<le> 0xEF then
       Need 2 (if n = 0xE0 then 0xA0 else 0x80) (if n = 0xED then 0x9F else 0xBF) (n mod 0x10)
     else if 0xF0 \<le> n \<and> n \<le> 0xF4 then
       Need 3 (if n = 0xF0 then 0x90 else 0x80) (if n = 0xF4 then 0x8F else 0xBF) (n mod 8)
     else Done 0xFFFD)"

text \<open>The decoder's loop: \<open>needed\<close>, \<open>lower\<close>, \<open>upper\<close> and \<open>cp\<close> are its state.\<close>

fun utf8_loop :: "nat \<Rightarrow> nat \<Rightarrow> nat \<Rightarrow> nat \<Rightarrow> bytes \<Rightarrow> nat list" where
  "utf8_loop needed lower upper cp [] = (if needed = 0 then [] else [0xFFFD])"
| "utf8_loop needed lower upper cp (b # bs) =
     (if needed \<noteq> 0 \<and> lower \<le> unat b \<and> unat b \<le> upper then
        (let cp' = cp * 0x40 + unat b mod 0x40 in
         if needed = 1 then cp' # utf8_loop 0 0x80 0xBF 0 bs
         else utf8_loop (needed - 1) 0x80 0xBF cp' bs)
      else (if needed = 0 then [] else [0xFFFD]) @
        (case utf8_lead b of
           Done c \<Rightarrow> c # utf8_loop 0 0x80 0xBF 0 bs
         | Need n lo hi c \<Rightarrow> utf8_loop n lo hi c bs))"

definition utf8_decode :: "bytes \<Rightarrow> nat list" where
  "utf8_decode bs = utf8_loop 0 0x80 0xBF 0 bs"

definition strip_bom :: "nat list \<Rightarrow> nat list" where
  "strip_bom cs = (case cs of c # r \<Rightarrow> if c = 0xFEFF then r else cs | [] \<Rightarrow> [])"

text \<open>\<open>new TextDecoder().decode(bs)\<close>\<close>

definition text_decode :: "bytes \<Rightarrow> js_string" where
  "text_decode bs = of_scalars (strip_bom (utf8_decode bs))"

section \<open>Facts about UTF-16\<close>

lemma unat_of_nat_unit: "n < 0x10000 \<Longrightarrow> unat (of_nat n :: code_unit) = n"
  by (simp add: unat_of_nat)

lemma unat_of_nat_byte: "n < 0x100 \<Longrightarrow> unat (of_nat n :: byte) = n"
  by (simp add: unat_of_nat)

lemma unat_unit_less: "unat (u :: code_unit) < 0x10000"
  using unsigned_less [of u] by simp

lemma unat_byte_less: "unat (b :: byte) < 0x100"
  using unsigned_less [of b] by simp

lemma high_low_disjoint: "is_high u \<Longrightarrow> \<not> is_low u"
  by (simp add: is_high_def is_low_def)

lemma pair_scalar_range:
  "is_high h \<Longrightarrow> is_low l \<Longrightarrow> 0x10000 \<le> pair_scalar h l \<and> pair_scalar h l < 0x110000"
  by (auto simp: is_high_def is_low_def pair_scalar_def)

lemma is_scalar_pair: "is_high h \<Longrightarrow> is_low l \<Longrightarrow> is_scalar (pair_scalar h l)"
  using pair_scalar_range by (fastforce simp: is_scalar_def)

lemma is_scalar_unit: "is_scalar (unit_scalar u)"
  using unat_unit_less [of u] by (auto simp: is_scalar_def unit_scalar_def is_high_def is_low_def)

lemma to_scalars_scalar: "c \<in> set (to_scalars s) \<Longrightarrow> is_scalar c"
  by (induction s rule: to_scalars.induct) (auto simp: is_scalar_unit is_scalar_pair split: if_splits)

lemma of_scalar_pair:
  assumes "is_high h" "is_low l"
  shows "of_scalar (pair_scalar h l) = [h, l]"
proof -
  define a b where ab: "a = unat h - 0xD800" "b = unat l - 0xDC00"
  from assms have b: "b < 0x400" and h: "unat h = 0xD800 + a" and l: "unat l = 0xDC00 + b"
    by (auto simp: ab is_high_def is_low_def)
  have p: "pair_scalar h l = 0x10000 + (a * 0x400 + b)" by (simp add: pair_scalar_def ab)
  have d: "(a * 0x400 + b) div 0x400 = a" and m: "(a * 0x400 + b) mod 0x400 = b"
    using b by simp_all
  have "of_scalar (pair_scalar h l) = [of_nat (unat h), of_nat (unat l)]"
    unfolding p of_scalar_def h l by (simp only: diff_add_inverse d m) simp
  then show ?thesis by simp
qed

lemma of_scalar_unit: "\<not> is_high u \<Longrightarrow> \<not> is_low u \<Longrightarrow> of_scalar (unit_scalar u) = [u]"
  using unat_unit_less [of u] by (simp add: of_scalar_def unit_scalar_def)

lemma of_scalars_to_scalars: "well_formed s \<Longrightarrow> of_scalars (to_scalars s) = s"
  by (induction s rule: to_scalars.induct)
    (auto simp: of_scalars_def of_scalar_pair of_scalar_unit split: if_splits)

lemma well_formed_of_scalar_append:
  assumes "is_scalar c" "well_formed s"
  shows "well_formed (of_scalar c @ s)"
proof (cases "c < 0x10000")
  case True
  have "\<not> is_high (of_nat c)" "\<not> is_low (of_nat c)"
    using assms(1) True by (auto simp: is_scalar_def is_high_def is_low_def unat_of_nat_unit)
  then show ?thesis using assms(2) True by (cases s) (auto simp: of_scalar_def)
next
  case False
  with assms(1) have "(c - 0x10000) div 0x400 < 0x400" by (auto simp: is_scalar_def)
  then have "is_high (of_nat (0xD800 + (c - 0x10000) div 0x400))"
    unfolding is_high_def by (subst (1 2) unat_of_nat_unit) simp_all
  moreover have "is_low (of_nat (0xDC00 + (c - 0x10000) mod 0x400))"
    unfolding is_low_def by (subst (1 2) unat_of_nat_unit) simp_all
  ultimately show ?thesis using assms(2) False by (simp add: of_scalar_def del: of_nat_add)
qed

lemma well_formed_of_scalars: "(\<And>c. c \<in> set cs \<Longrightarrow> is_scalar c) \<Longrightarrow> well_formed (of_scalars cs)"
  by (induction cs) (simp_all add: of_scalars_def well_formed_of_scalar_append)

text \<open>Splitting a string where no surrogate pair is cut splits its scalar values.\<close>

definition cuts_pair :: "js_string \<Rightarrow> js_string \<Rightarrow> bool" where
  "cuts_pair s t \<longleftrightarrow> s \<noteq> [] \<and> t \<noteq> [] \<and> is_high (last s) \<and> is_low (hd t)"

lemma to_scalars_append:
  "\<not> cuts_pair s t \<Longrightarrow> to_scalars (s @ t) = to_scalars s @ to_scalars t"
proof (induction s rule: to_scalars.induct)
  case 1
  then show ?case by simp
next
  case (2 u)
  then show ?case by (cases t) (auto simp: cuts_pair_def)
next
  case (3 u v us)
  show ?case
  proof (cases "is_high u \<and> is_low v")
    case True
    have "\<not> cuts_pair us t"
      using "3.prems" by (cases us) (auto simp: cuts_pair_def)
    with True "3.IH"(1) show ?thesis by simp
  next
    case False
    have "\<not> cuts_pair (v # us) t" using "3.prems" by (simp add: cuts_pair_def)
    with False "3.IH"(2) show ?thesis by auto
  qed
qed

lemma well_formed_no_cut: "well_formed s \<Longrightarrow> \<not> cuts_pair s t"
proof (induction s rule: well_formed.induct)
  case (3 u v us)
  show ?case
  proof (cases "is_high u \<and> is_low v")
    case True
    show ?thesis
    proof (cases us)
      case Nil
      with True show ?thesis by (auto simp: cuts_pair_def dest: high_low_disjoint)
    next
      case (Cons w ws)
      with True "3.IH"(1) "3.prems" show ?thesis by (simp add: cuts_pair_def)
    qed
  next
    case False
    with "3.IH"(2) "3.prems" show ?thesis by (auto simp: cuts_pair_def)
  qed
qed (auto simp: cuts_pair_def)

lemma well_formed_append: "well_formed s \<Longrightarrow> well_formed (s @ t) \<longleftrightarrow> well_formed t"
proof (induction s rule: well_formed.induct)
  case (2 u)
  then show ?case by (cases t) auto
next
  case (3 u v us)
  then show ?case by (cases "is_high u \<and> is_low v") auto
qed simp

lemma text_encode_append:
  "\<not> cuts_pair s t \<Longrightarrow> text_encode (s @ t) = text_encode s @ text_encode t"
  by (simp add: text_encode_def to_scalars_append)

section \<open>Facts about UTF-8\<close>

lemma length_utf8_scalar: "1 \<le> length (utf8_scalar c) \<and> length (utf8_scalar c) \<le> 4"
  by (simp add: utf8_scalar_def)

lemma length_utf8_unit: "length (utf8_scalar (unit_scalar u)) \<le> 3"
  using unat_unit_less [of u] by (simp add: utf8_scalar_def unit_scalar_def)

lemma length_utf8_pair: "is_high h \<Longrightarrow> is_low l \<Longrightarrow> length (utf8_scalar (pair_scalar h l)) = 4"
  using pair_scalar_range [of h l] by (simp add: utf8_scalar_def)

lemma length_utf8_surrogate: "is_high u \<or> is_low u \<Longrightarrow> length (utf8_scalar (unit_scalar u)) = 3"
  by (auto simp: utf8_scalar_def unit_scalar_def)

lemma utf8_loop_done:
  "unat b < 0x80 \<Longrightarrow> utf8_loop 0 lo hi cp (b # bs) = unat b # utf8_loop 0 0x80 0xBF 0 bs"
  by (simp add: utf8_lead_def)

lemma utf8_loop_cont:
  "lo \<le> unat b \<Longrightarrow> unat b \<le> hi \<Longrightarrow> utf8_loop (Suc (Suc n)) lo hi cp (b # bs) =
     utf8_loop (Suc n) 0x80 0xBF (cp * 0x40 + unat b mod 0x40) bs"
  by (simp add: Let_def)

lemma utf8_loop_last:
  "lo \<le> unat b \<Longrightarrow> unat b \<le> hi \<Longrightarrow> utf8_loop (Suc 0) lo hi cp (b # bs) =
     (cp * 0x40 + unat b mod 0x40) # utf8_loop 0 0x80 0xBF 0 bs"
  by (simp add: Let_def)

lemma cont_mod: "x < 0x40 \<Longrightarrow> (0x80 + x) mod 0x40 = (x :: nat)"
  by (simp add: mod_add_left_eq [symmetric])

lemma div_64_eq: "q div 0x40 = n \<Longrightarrow> q = n * 0x40 + q mod 0x40" for q :: nat
  using div_mult_mod_eq [of q "0x40"] by simp

text \<open>A multi-byte sequence, by its bit groups.\<close>

lemma utf8_group_2:
  assumes "2 \<le> a" "a < 0x20" "b < 0x40"
  shows "utf8_loop 0 lo hi cp (of_nat (0xC0 + a) # of_nat (0x80 + b) # bs) =
    (a * 0x40 + b) # utf8_loop 0 0x80 0xBF 0 bs"
proof -
  have "utf8_lead (of_nat (0xC0 + a)) = Need 1 0x80 0xBF a"
    using assms by (simp add: utf8_lead_def unat_of_nat_byte Let_def mod_add_left_eq [symmetric] del: of_nat_add)
  then show ?thesis using assms
    by (simp add: unat_of_nat_byte cont_mod Let_def del: of_nat_add)
qed

lemma utf8_group_3:
  assumes "a < 0x10" "a = 0 \<Longrightarrow> 0x20 \<le> b" "a = 0xD \<Longrightarrow> b \<le> 0x1F" "b < 0x40" "c < 0x40"
  shows "utf8_loop 0 lo hi cp (of_nat (0xE0 + a) # of_nat (0x80 + b) # of_nat (0x80 + c) # bs) =
    ((a * 0x40 + b) * 0x40 + c) # utf8_loop 0 0x80 0xBF 0 bs"
proof -
  have "utf8_lead (of_nat (0xE0 + a)) =
      Need 2 (if a = 0 then 0xA0 else 0x80) (if a = 0xD then 0x9F else 0xBF) a"
    using assms(1) by (simp add: utf8_lead_def unat_of_nat_byte Let_def mod_add_left_eq [symmetric] del: of_nat_add)
  then show ?thesis using assms
    by (simp add: unat_of_nat_byte cont_mod Let_def numeral_2_eq_2 del: of_nat_add)
qed

lemma utf8_group_4:
  assumes "a \<le> 4" "a = 0 \<Longrightarrow> 0x10 \<le> b" "a = 4 \<Longrightarrow> b \<le> 0xF" "b < 0x40" "c < 0x40" "d < 0x40"
  shows "utf8_loop 0 lo hi cp
      (of_nat (0xF0 + a) # of_nat (0x80 + b) # of_nat (0x80 + c) # of_nat (0x80 + d) # bs) =
    (((a * 0x40 + b) * 0x40 + c) * 0x40 + d) # utf8_loop 0 0x80 0xBF 0 bs"
proof -
  have "utf8_lead (of_nat (0xF0 + a)) =
      Need 3 (if a = 0 then 0x90 else 0x80) (if a = 4 then 0x8F else 0xBF) a"
    using assms(1) by (simp add: utf8_lead_def unat_of_nat_byte Let_def mod_add_left_eq [symmetric] del: of_nat_add)
  then show ?thesis using assms
    by (simp add: unat_of_nat_byte cont_mod Let_def numeral_3_eq_3 del: of_nat_add)
qed

text \<open>The bit groups of a scalar value satisfy the decoder's range conditions.\<close>

lemma utf8_decode_2:
  assumes "0x80 \<le> c" "c < 0x800"
  shows "utf8_loop 0 lo hi cp (of_nat (0xC0 + c div 0x40) # of_nat (0x80 + c mod 0x40) # bs) =
    c # utf8_loop 0 0x80 0xBF 0 bs"
  using assms by (subst utf8_group_2) auto

lemma utf8_decode_3:
  assumes "0x800 \<le> c" "c < 0x10000" "is_scalar c"
  shows "utf8_loop 0 lo hi cp (of_nat (0xE0 + c div 0x1000) # of_nat (0x80 + c div 0x40 mod 0x40) #
      of_nat (0x80 + c mod 0x40) # bs) = c # utf8_loop 0 0x80 0xBF 0 bs"
proof -
  define q where "q = c div 0x40"
  have a: "c div 0x1000 = q div 0x40" by (simp add: q_def div_mult2_eq [symmetric])
  have q: "0x20 \<le> q" "q < 0x400" "q < 0x360 \<or> 0x380 \<le> q"
    using assms by (auto simp: q_def is_scalar_def)
  have low: "q div 0x40 = 0 \<Longrightarrow> 0x20 \<le> q mod 0x40" using q(1) by auto
  have high: "q div 0x40 = 0xD \<Longrightarrow> q mod 0x40 \<le> 0x1F"
    using q(3) mod_less_divisor [of "0x40" q] by (auto dest: div_64_eq)
  have rejoin: "(q div 0x40 * 0x40 + q mod 0x40) * 0x40 + c mod 0x40 = c"
    by (simp only: div_mult_mod_eq) (simp only: q_def div_mult_mod_eq)
  have "q div 0x40 < 0x10" using q(2) by auto
  from utf8_group_3 [OF this low high mod_less_divisor mod_less_divisor, of lo hi cp c bs]
  show ?thesis by (simp only: a rejoin q_def [symmetric])
qed

lemma utf8_decode_4:
  assumes "0x10000 \<le> c" "c < 0x110000"
  shows "utf8_loop 0 lo hi cp (of_nat (0xF0 + c div 0x40000) # of_nat (0x80 + c div 0x1000 mod 0x40) #
      of_nat (0x80 + c div 0x40 mod 0x40) # of_nat (0x80 + c mod 0x40) # bs) =
    c # utf8_loop 0 0x80 0xBF 0 bs"
proof -
  define r q where "r = c div 0x40" and "q = r div 0x40"
  have a: "c div 0x40000 = q div 0x40" and b: "c div 0x1000 = q"
    by (simp_all add: q_def r_def div_mult2_eq [symmetric])
  have q: "0x10 \<le> q" "q < 0x110" using assms by (auto simp: b [symmetric])
  have low: "q div 0x40 = 0 \<Longrightarrow> 0x10 \<le> q mod 0x40" using q(1) by auto
  have high: "q div 0x40 = 4 \<Longrightarrow> q mod 0x40 \<le> 0xF" using q(2) by (auto dest: div_64_eq)
  have rejoin: "((q div 0x40 * 0x40 + q mod 0x40) * 0x40 + r mod 0x40) * 0x40 + c mod 0x40 = c"
    by (simp only: div_mult_mod_eq) (simp only: q_def r_def div_mult_mod_eq)
  have "q div 0x40 \<le> 4" using q(2) by auto
  from utf8_group_4 [OF this low high mod_less_divisor mod_less_divisor mod_less_divisor,
      of lo hi cp r c bs]
  show ?thesis by (simp only: a b rejoin r_def [symmetric])
qed

lemma utf8_loop_scalar:
  assumes "is_scalar c"
  shows "utf8_loop 0 0x80 0xBF 0 (utf8_scalar c @ bs) = c # utf8_loop 0 0x80 0xBF 0 bs"
proof -
  consider "c < 0x80" | "0x80 \<le> c" "c < 0x800" | "0x800 \<le> c" "c < 0x10000" | "0x10000 \<le> c"
    by linarith
  then show ?thesis
  proof cases
    case 1
    then show ?thesis by (simp add: utf8_scalar_def utf8_lead_def unat_of_nat_byte)
  next
    case 2
    then show ?thesis using utf8_decode_2 by (simp add: utf8_scalar_def del: of_nat_add utf8_loop.simps)
  next
    case 3
    then show ?thesis using utf8_decode_3 assms
      by (simp add: utf8_scalar_def del: of_nat_add utf8_loop.simps)
  next
    case 4
    then show ?thesis using utf8_decode_4 assms
      by (simp add: utf8_scalar_def is_scalar_def del: of_nat_add utf8_loop.simps)
  qed
qed

lemma utf8_decode_scalars:
  "(\<And>c. c \<in> set cs \<Longrightarrow> is_scalar c) \<Longrightarrow> utf8_decode (concat (map utf8_scalar cs)) = cs"
  unfolding utf8_decode_def by (induction cs) (simp_all add: utf8_loop_scalar del: utf8_loop.simps(2))

lemma utf8_decode_encode: "utf8_decode (text_encode s) = to_scalars s"
  unfolding text_encode_def by (rule utf8_decode_scalars) (rule to_scalars_scalar)

lemma unit_scalar_bom: "unit_scalar u = 0xFEFF \<longleftrightarrow> u = 0xFEFF"
proof -
  have "unat u = 0xFEFF \<longleftrightarrow> u = 0xFEFF"
    by (simp add: word_unat_eq_iff)
  then show ?thesis by (auto simp: unit_scalar_def is_high_def is_low_def)
qed

lemma hd_to_scalars_bom: "s \<noteq> [] \<Longrightarrow> hd (to_scalars s) = 0xFEFF \<longleftrightarrow> hd s = 0xFEFF"
proof (induction s rule: to_scalars.induct)
  case (3 u v us)
  have "is_high u \<Longrightarrow> u \<noteq> 0xFEFF" by (auto simp: is_high_def)
  moreover have "is_high u \<Longrightarrow> is_low v \<Longrightarrow> pair_scalar u v \<noteq> 0xFEFF"
    using pair_scalar_range [of u v] by auto
  ultimately show ?case by (auto simp: unit_scalar_bom)
qed (auto simp: unit_scalar_bom)

lemma to_scalars_Nil_iff [simp]: "to_scalars s = [] \<longleftrightarrow> s = []"
  by (induction s rule: to_scalars.induct) auto

definition no_bom :: "js_string \<Rightarrow> bool" where
  "no_bom s \<longleftrightarrow> (case s of u # _ \<Rightarrow> u \<noteq> 0xFEFF | [] \<Rightarrow> True)"

lemma strip_bom_id: "no_bom s \<Longrightarrow> strip_bom (to_scalars s) = to_scalars s"
  using hd_to_scalars_bom [of s]
  by (cases s; cases "to_scalars s") (auto simp: strip_bom_def no_bom_def)

lemma strip_bom_take: "strip_bom cs = cs \<Longrightarrow> strip_bom (take k cs) = take k cs"
  by (cases cs; cases k) (simp_all add: strip_bom_def split: if_splits)

theorem text_decode_encode: "well_formed s \<Longrightarrow> no_bom s \<Longrightarrow> text_decode (text_encode s) = s"
  by (simp add: text_decode_def utf8_decode_encode strip_bom_id of_scalars_to_scalars)

section \<open>Writing into a bounded field\<close>

lemma length_encode_into: "length (encode_into n cs) \<le> n"
  by (induction n cs rule: encode_into.induct) auto

text \<open>What is written is the longest prefix of whole scalar values that fits.\<close>

lemma encode_into_prefix:
  "\<exists>k \<le> length cs. encode_into n cs = concat (map utf8_scalar (take k cs)) \<and>
     (k < length cs \<longrightarrow> n < length (concat (map utf8_scalar (take (Suc k) cs))))"
proof (induction n cs rule: encode_into.induct)
  case (2 n c cs)
  show ?case
  proof (cases "length (utf8_scalar c) \<le> n")
    case True
    then obtain k where "k \<le> length cs"
      "encode_into (n - length (utf8_scalar c)) cs = concat (map utf8_scalar (take k cs))"
      "k < length cs \<longrightarrow> n - length (utf8_scalar c) < length (concat (map utf8_scalar (take (Suc k) cs)))"
      using "2.IH" by blast
    with True show ?thesis by (intro exI [of _ "Suc k"]) auto
  next
    case False
    then show ?thesis by (intro exI [of _ 0]) simp
  qed
qed simp

lemma encode_into_fits:
  "length (concat (map utf8_scalar cs)) \<le> n \<Longrightarrow> encode_into n cs = concat (map utf8_scalar cs)"
  by (induction cs arbitrary: n) auto

section \<open>NUL-free text\<close>

lemma utf8_scalar_no_zero: "is_scalar c \<Longrightarrow> c \<noteq> 0 \<Longrightarrow> 0 \<notin> set (utf8_scalar c)"
proof -
  assume c: "is_scalar c" "c \<noteq> 0"
  have nz: "(of_nat n :: byte) \<noteq> 0" if "0 < n" "n < 0x100" for n
    using that unat_of_nat_byte [of n] by auto
  have "c div 0x40000 \<le> 4" using c by (auto simp: is_scalar_def)
  then show ?thesis
    using c nz unfolding utf8_scalar_def
    by (auto simp del: of_nat_add dest!: sym [of 0] simp: is_scalar_def)
qed

lemma to_scalars_no_zero: "0 \<notin> set s \<Longrightarrow> 0 \<notin> set (to_scalars s)"
proof (induction s rule: to_scalars.induct)
  case (3 u v us)
  have "is_high u \<Longrightarrow> is_low v \<Longrightarrow> pair_scalar u v \<noteq> 0"
    using pair_scalar_range [of u v] by auto
  moreover have "unit_scalar u \<noteq> 0"
    using "3.prems" by (auto simp: unit_scalar_def unat_gt_0)
  ultimately show ?case using 3 by auto
qed (auto simp: unit_scalar_def unat_gt_0 split: if_splits)

lemma text_encode_no_zero: "0 \<notin> set s \<Longrightarrow> 0 \<notin> set (text_encode s)"
  using to_scalars_no_zero [of s] to_scalars_scalar [of _ s] utf8_scalar_no_zero
  by (fastforce simp: text_encode_def)

section \<open>The encoded length of prefixes\<close>

lemma cuts_pair_pair: "is_high h \<Longrightarrow> \<not> cuts_pair s (h # t)"
  by (auto simp: cuts_pair_def dest: high_low_disjoint)

lemma text_encode_snoc:
  "length (text_encode s) \<le> length (text_encode (s @ [u])) \<and>
   length (text_encode (s @ [u])) \<le> length (text_encode s) + 3"
proof (cases "cuts_pair s [u]")
  case False
  then show ?thesis using length_utf8_unit [of u]
    by (simp add: text_encode_append) (simp add: text_encode_def)
next
  case True
  then obtain s' h where s: "s = s' @ [h]" and h: "is_high h" "is_low u"
    by (cases s rule: rev_cases) (auto simp: cuts_pair_def)
  have "text_encode (s' @ [h, u]) = text_encode s' @ utf8_scalar (pair_scalar h u)"
    using text_encode_append [of s' "[h, u]"] cuts_pair_pair [OF h(1)] h
    by (simp add: text_encode_def)
  moreover have "text_encode (s' @ [h]) = text_encode s' @ utf8_scalar (unit_scalar h)"
    using text_encode_append [of s' "[h]"] cuts_pair_pair [OF h(1)] by (simp add: text_encode_def)
  ultimately show ?thesis
    using length_utf8_pair [OF h] length_utf8_surrogate [of h] h by (simp add: s)
qed

lemma text_encode_take_mono: "i \<le> j \<Longrightarrow> length (text_encode (take i s)) \<le> length (text_encode (take j s))"
proof (induction j)
  case (Suc j)
  show ?case
  proof (cases "i \<le> j")
    case True
    have "length (text_encode (take j s)) \<le> length (text_encode (take (Suc j) s))"
      using text_encode_snoc [of "take j s" "s ! j"]
      by (cases "j < length s") (simp_all add: take_Suc_conv_app_nth)
    with Suc.IH [OF True] show ?thesis by simp
  next
    case False
    with Suc.prems have "i = Suc j" by simp
    then show ?thesis by simp
  qed
qed simp

lemma length_text_encode_le: "length (text_encode s) \<le> 3 * length s"
proof (induction s rule: rev_induct)
  case Nil
  then show ?case by (simp add: text_encode_def)
next
  case (snoc u s)
  then show ?case using text_encode_snoc [of s u] by simp
qed

text \<open>Text without surrogates can be cut anywhere.\<close>

definition bmp_only :: "js_string \<Rightarrow> bool" where
  "bmp_only s \<longleftrightarrow> (\<forall>u \<in> set s. \<not> is_high u \<and> \<not> is_low u)"

lemma bmp_only_well_formed: "bmp_only s \<Longrightarrow> well_formed s"
  by (induction s rule: well_formed.induct) (auto simp: bmp_only_def)

lemma ascii_bmp_only: "(\<And>u. u \<in> set s \<Longrightarrow> unat u < 0x80) \<Longrightarrow> bmp_only s"
  by (force simp: bmp_only_def is_high_def is_low_def)

lemma length_text_encode_ascii:
  assumes "\<And>u. u \<in> set s \<Longrightarrow> unat u < 0x80"
  shows "length (text_encode s) = length s"
  using assms
proof (induction s)
  case Nil
  then show ?case by (simp add: text_encode_def)
next
  case (Cons u s)
  have "\<not> cuts_pair [u] s" using Cons.prems [of u] by (auto simp: cuts_pair_def is_high_def)
  then have "text_encode (u # s) = text_encode [u] @ text_encode s"
    using text_encode_append [of "[u]" s] by simp
  moreover have "length (text_encode [u]) = 1"
    using Cons.prems [of u] by (simp add: text_encode_def unit_scalar_def utf8_scalar_def is_high_def is_low_def)
  ultimately show ?case using Cons by simp
qed

lemma length_text_encode_ge: "length s \<le> length (text_encode s)"
proof (induction s rule: to_scalars.induct)
  case (2 u)
  then show ?case using length_utf8_scalar [of "unit_scalar u"] by (simp add: text_encode_def)
next
  case (3 u v s)
  then show ?case
    using length_utf8_scalar [of "unit_scalar u"] length_utf8_pair [of u v]
    by (cases "is_high u \<and> is_low v") (auto simp: text_encode_def)
qed (simp add: text_encode_def)

lemma ascii_no_cut: "(\<And>u. u \<in> set s \<Longrightarrow> unat u < 0x80) \<Longrightarrow> \<not> cuts_pair s t"
  by (rule well_formed_no_cut, rule bmp_only_well_formed, rule ascii_bmp_only)

lemma length_text_encode_ascii_append:
  assumes "\<And>u. u \<in> set s \<Longrightarrow> unat u < 0x80"
  shows "length (text_encode (s @ t)) = length s + length (text_encode t)"
  using length_text_encode_ascii [OF assms] text_encode_append [OF ascii_no_cut [OF assms]] by simp

end
