(* ===== verification/Crc16.thy ===== *)
theory Crc16
  imports JS_Text
begin

unbundle bit_operations_syntax

text \<open>
  The checksum of \<open>protocol.ts\<close> (\<open>crc16CcittFalse\<close>), on the 32-bit integers the source's bitwise
  operators work on. The lemmas relate it to a 16-bit shift register, show that the register is
  linear and injective, that appending a message's own checksum drives it to zero, and that no
  change confined to two adjacent bytes leaves it there.
\<close>

section \<open>The code\<close>

type_synonym int32 = "32 word"

text \<open>The body of the inner loop: one bit.\<close>

definition crc_bit :: "int32 \<Rightarrow> int32" where
  "crc_bit crc =
     (if crc AND 0x8000 \<noteq> 0 then (push_bit 1 crc XOR 0x1021) AND 0xFFFF
      else push_bit 1 crc AND 0xFFFF)"

text \<open>The body of the outer loop: one byte.\<close>

definition crc_byte :: "int32 \<Rightarrow> byte \<Rightarrow> int32" where
  "crc_byte crc b = (crc_bit ^^ 8) (crc XOR push_bit 8 (ucast b))"

definition crc16CcittFalse :: "bytes \<Rightarrow> int32" where
  "crc16CcittFalse bs = foldl crc_byte 0xFFFF bs AND 0xFFFF"

section \<open>A 16-bit shift register\<close>

definition reg_bit :: "16 word \<Rightarrow> 16 word" where
  "reg_bit c = (if bit c 15 then push_bit 1 c XOR 0x1021 else push_bit 1 c)"

definition reg_byte :: "16 word \<Rightarrow> byte \<Rightarrow> 16 word" where
  "reg_byte c b = (reg_bit ^^ 8) (c XOR push_bit 8 (ucast b))"

definition reg :: "16 word \<Rightarrow> bytes \<Rightarrow> 16 word" where
  "reg c bs = foldl reg_byte c bs"

definition hi_byte :: "16 word \<Rightarrow> byte" where
  "hi_byte c = ucast (drop_bit 8 c)"

definition lo_byte :: "16 word \<Rightarrow> byte" where
  "lo_byte c = ucast c"

lemma reg_simps [simp]:
  "reg c [] = c" "reg c (b # bs) = reg (reg_byte c b) bs" "reg c (xs @ ys) = reg (reg c xs) ys"
  by (simp_all add: reg_def)

subsection \<open>The code runs the register\<close>

lemma bit_length16: "bit (c :: 16 word) n \<Longrightarrow> n < 16"
  using bit_imp_le_length [of c n] by simp

lemma bit_length8: "bit (b :: byte) n \<Longrightarrow> n < 8"
  using bit_imp_le_length [of b n] by simp

lemma bit_shl1: "bit (push_bit 1 (c :: 'n::len word)) n \<longleftrightarrow> 0 < n \<and> n < LENGTH('n) \<and> bit c (n - 1)"
  by (auto simp only: bit_push_bit_iff possible_bit_word One_nat_def Suc_le_eq)

lemma bit_shl8: "bit (push_bit 8 (c :: 'n::len word)) n \<longleftrightarrow> 8 \<le> n \<and> n < LENGTH('n) \<and> bit c (n - 8)"
  by (auto simp only: bit_push_bit_iff possible_bit_word)

lemma xor_eq_zeroD: "x XOR y = 0 \<Longrightarrow> x = y" for x y :: "'n::len word"
proof (rule bit_word_eqI)
  fix n
  assume "x XOR y = 0"
  then have "bit (x XOR y) n = bit (0 :: 'n word) n" by (rule arg_cong)
  then show "bit x n = bit y n" by (simp add: bit_xor_iff)
qed

lemma xor_right_cancel: "x XOR z = y XOR z \<longleftrightarrow> x = y" for x y z :: "'n::len word"
proof
  assume "x XOR z = y XOR z"
  then have "bit (x XOR z) n = bit (y XOR z) n" for n by (rule arg_cong)
  then show "x = y" by (intro bit_word_eqI) (auto simp: bit_xor_iff)
qed simp

lemma xor_left_cancel: "z XOR x = z XOR y \<longleftrightarrow> x = y" for x y z :: "'n::len word"
  by (simp only: xor.commute [of z] xor_right_cancel)

lemma ucast_xor: "(ucast (x XOR y) :: 'm::len word) = ucast x XOR ucast (y :: 'n::len word)"
  by (rule bit_word_eqI) (auto simp: bit_ucast_iff bit_xor_iff)

lemma and_8000_bit: "ucast (c :: 16 word) AND (0x8000 :: int32) \<noteq> 0 \<longleftrightarrow> bit c 15"
proof -
  have m: "(0x8000 :: int32) = push_bit 15 1" by simp
  have "ucast c AND push_bit 15 1 = (if bit c 15 then push_bit 15 1 else (0 :: int32))"
    by (rule bit_word_eqI) (auto simp only: bit_and_iff bit_push_bit_iff possible_bit_word
      bit_ucast_iff bit_1_iff bit_0_eq bot_fun_def bot_bool_def split: if_splits, auto)
  then have "ucast c AND 0x8000 = (if bit c 15 then 0x8000 else (0 :: int32))" by (simp only: m)
  then show ?thesis by simp
qed

lemma and_FFFF_ucast: "(x :: int32) AND 0xFFFF = ucast (ucast x :: 16 word)"
proof -
  have m: "(0xFFFF :: int32) = mask 16" by (simp add: mask_eq_exp_minus_1)
  show ?thesis unfolding m
    by (rule bit_word_eqI) (auto simp: bit_and_iff bit_mask_iff bit_ucast_iff)
qed

lemma crc_bit_reg: "crc_bit (ucast c) = ucast (reg_bit c)"
proof -
  have s: "ucast (push_bit 1 (ucast c :: int32)) = push_bit 1 (c :: 16 word)"
    by (rule bit_word_eqI) (auto simp only: bit_shl1 bit_ucast_iff, auto)
  have x: "ucast (push_bit 1 (ucast c :: int32) XOR 0x1021) = push_bit 1 c XOR (0x1021 :: 16 word)"
    unfolding ucast_xor s by simp
  show ?thesis
    unfolding crc_bit_def reg_bit_def and_FFFF_ucast and_8000_bit s x by simp
qed

lemma crc_bits_reg: "(crc_bit ^^ n) (ucast c) = ucast ((reg_bit ^^ n) c)"
  by (induction n) (simp_all add: crc_bit_reg)

lemma crc_byte_reg: "crc_byte (ucast c) b = ucast (reg_byte c b)"
proof -
  have "push_bit 8 (ucast b) = (ucast (push_bit 8 (ucast b) :: 16 word) :: int32)"
    by (rule bit_word_eqI) (auto simp only: bit_shl8 bit_ucast_iff, auto dest: bit_length8)
  then have "ucast c XOR push_bit 8 (ucast b) = (ucast (c XOR push_bit 8 (ucast b) :: 16 word) :: int32)"
    by (simp only: ucast_xor)
  then show ?thesis by (simp only: crc_byte_def reg_byte_def crc_bits_reg)
qed

lemma foldl_crc_byte_reg: "foldl crc_byte (ucast c) bs = ucast (reg c bs)"
  by (induction bs arbitrary: c) (simp_all add: crc_byte_reg)

lemma crc16_reg: "crc16CcittFalse bs = ucast (reg 0xFFFF bs)"
proof -
  have "(0xFFFF :: int32) = ucast (0xFFFF :: 16 word)" by simp
  then have f: "foldl crc_byte 0xFFFF bs = ucast (reg 0xFFFF bs)"
    using foldl_crc_byte_reg [of "0xFFFF" bs] by simp
  have "ucast (ucast (ucast c :: int32) :: 16 word) = (ucast c :: int32)" for c :: "16 word"
    by (rule bit_word_eqI) (auto simp: bit_ucast_iff dest: bit_length16)
  then show ?thesis unfolding crc16CcittFalse_def and_FFFF_ucast f .
qed

section \<open>Linearity and injectivity\<close>

lemma reg_bit_xor: "reg_bit (x XOR y) = reg_bit x XOR reg_bit y"
  unfolding reg_bit_def push_bit_xor bit_xor_iff
  by (cases "bit x 15"; cases "bit y 15") (simp_all add: xor.assoc xor.left_commute xor.commute)

lemma reg_bits_xor: "(reg_bit ^^ n) (x XOR y) = (reg_bit ^^ n) x XOR (reg_bit ^^ n) y"
  by (induction n) (simp_all add: reg_bit_xor)

lemma reg_bit_zero [simp]: "reg_bit 0 = 0"
  by (simp add: reg_bit_def)

lemma reg_bits_zero [simp]: "(reg_bit ^^ n) 0 = 0"
  by (induction n) simp_all

lemma reg_bit_0: "bit (reg_bit c) 0 \<longleftrightarrow> bit c 15"
proof -
  have "bit (0x1021 :: 16 word) 0" "\<not> bit (push_bit 1 c) 0" by (simp, simp only: bit_shl1, simp)
  then show ?thesis by (simp only: reg_bit_def bit_xor_iff split: if_split) simp
qed

lemma reg_bit_zeroD: "reg_bit c = 0 \<Longrightarrow> c = 0"
proof (rule bit_word_eqI)
  fix n
  assume z: "reg_bit c = 0" and n: "n < LENGTH(16)"
  then have n15: "\<not> bit c 15" using reg_bit_0 [of c] by simp
  with z have "push_bit 1 c = 0" by (simp only: reg_bit_def if_False)
  then have "\<not> bit (push_bit 1 c) (Suc n)" by (simp only: bit_0_eq) simp
  then have "\<not> bit c n" if "n < 15" using that by (simp only: bit_shl1) simp
  with n n15 show "bit c n = bit 0 n" by (cases "n = 15") auto
qed

lemma reg_bits_zeroD: "(reg_bit ^^ n) c = 0 \<Longrightarrow> c = 0"
  by (induction n) (auto dest: reg_bit_zeroD)

lemma reg_bits_inject: "(reg_bit ^^ n) x = (reg_bit ^^ n) y \<longleftrightarrow> x = y"
proof
  assume "(reg_bit ^^ n) x = (reg_bit ^^ n) y"
  then have "(reg_bit ^^ n) (x XOR y) = 0" by (simp only: reg_bits_xor xor_self_eq)
  then show "x = y" by (rule xor_eq_zeroD [OF reg_bits_zeroD])
qed simp

lemma reg_byte_inject: "reg_byte c b = reg_byte d b \<longleftrightarrow> c = d"
  unfolding reg_byte_def reg_bits_inject by (rule xor_right_cancel)

lemma reg_inject: "reg c bs = reg d bs \<longleftrightarrow> c = d"
  by (induction bs arbitrary: c d) (simp_all add: reg_byte_inject)

text \<open>A value that fits in one byte is only shifted.\<close>

lemma reg_bits_small: "k \<le> 8 \<Longrightarrow> (reg_bit ^^ k) (ucast (e :: byte)) = push_bit k (ucast e)"
proof (induction k)
  case (Suc k)
  then have "bit (push_bit k (ucast e) :: 16 word) 15 \<longleftrightarrow> False"
    by (auto simp only: bit_push_bit_iff possible_bit_word bit_ucast_iff dest!: bit_length8)
  with Suc show ?case by (simp only: funpow.simps o_apply reg_bit_def if_False)
      (simp add: push_bit_push_bit del: push_bit_Suc)
qed simp

lemma reg_byte_small: "(reg_bit ^^ 8) (ucast (e :: byte)) = push_bit 8 (ucast e)"
  by (rule reg_bits_small) simp

section \<open>Appending the checksum\<close>

lemma word16_split: "c = push_bit 8 (ucast (hi_byte c)) XOR ucast (lo_byte c)"
  unfolding hi_byte_def lo_byte_def
  by (rule bit_word_eqI) (auto simp only: bit_xor_iff bit_shl8 bit_ucast_iff bit_drop_bit_eq o_apply, auto)

lemma hi_byte_pair: "hi_byte (push_bit 8 (ucast x) XOR ucast y) = x"
  and lo_byte_pair: "lo_byte (push_bit 8 (ucast x) XOR ucast y) = y"
  by (rule bit_word_eqI, auto simp only: hi_byte_def lo_byte_def bit_xor_iff bit_shl8 bit_ucast_iff
      bit_drop_bit_eq o_apply, auto dest: bit_length8)+

lemma ucast_16_32_16 [simp]: "ucast (ucast (c :: 16 word) :: int32) = c"
  by (rule bit_word_eqI) (auto simp: bit_ucast_iff)

lemma xor_hi_byte: "c XOR push_bit 8 (ucast (hi_byte c)) = ucast (lo_byte c)"
  by (subst (1) word16_split [of c]) (simp add: xor.assoc xor.left_commute xor.commute)

lemma reg_residue: "reg c [hi_byte c, lo_byte c] = 0"
  by (simp add: reg_byte_def xor_hi_byte reg_byte_small)

text \<open>Two bytes, taken together, are one injective step: a state is determined by what two bytes
  turn it into, and two bytes are determined by the states before and after.\<close>

lemma reg_two_bytes_inject: "reg c [a, b] = reg c [a', b'] \<longleftrightarrow> a = a' \<and> b = b'"
proof
  assume eq: "reg c [a, b] = reg c [a', b']"
  let ?S = "reg_bit ^^ 8" and ?h = "\<lambda>x :: byte. push_bit 8 (ucast x) :: 16 word"
  have "reg_byte c a XOR ?h b = reg_byte c a' XOR ?h b'"
    using eq by (simp add: reg_byte_def [of "reg_byte c _"] reg_bits_inject)
  then have "?S (?h a) XOR ?h b = ?S (?h a') XOR ?h b'"
    by (simp add: reg_byte_def reg_bits_xor xor.assoc xor_left_cancel)
  then have "?S (?h a) XOR ?S (ucast b) = ?S (?h a') XOR ?S (ucast b')"
    by (simp only: reg_byte_small)
  then have "?h a XOR ucast b = ?h a' XOR ucast b'"
    by (simp only: reg_bits_xor [symmetric] reg_bits_inject)
  then show "a = a' \<and> b = b'" by (metis hi_byte_pair lo_byte_pair)
qed simp

lemma reg_residue_iff: "reg c [a, b] = 0 \<longleftrightarrow> a = hi_byte c \<and> b = lo_byte c"
  using reg_two_bytes_inject [of c a b "hi_byte c" "lo_byte c"] reg_residue [of c] by simp

text \<open>No change confined to two adjacent bytes is invisible to the register.\<close>

lemma reg_burst:
  assumes "reg c (xs @ [a, b] @ ys) = reg c (xs @ [a', b'] @ ys)"
  shows "a = a' \<and> b = b'"
proof -
  have "reg (reg (reg c xs) [a, b]) ys = reg (reg (reg c xs) [a', b']) ys"
    using assms by simp
  then have "reg (reg c xs) [a, b] = reg (reg c xs) [a', b']" by (simp only: reg_inject)
  then show ?thesis by (simp only: reg_two_bytes_inject)
qed

lemma crc_byte_unroll:
  "crc_byte crc b =
     crc_bit (crc_bit (crc_bit (crc_bit (crc_bit (crc_bit (crc_bit (crc_bit (crc XOR push_bit 8 (ucast b)))))))))"
  by (simp add: crc_byte_def eval_nat_numeral del: push_bit_numeral)

text \<open>The standard check value of CRC16/CCITT-FALSE.\<close>

lemma crc16_check_value: "crc16CcittFalse [0x31, 0x32, 0x33, 0x34, 0x35, 0x36, 0x37, 0x38, 0x39] = 0x29B1"
    by (simp add: crc16CcittFalse_def crc_byte_unroll crc_bit_def)

end
