(* ===== verification/JS_Number.thy ===== *)
theory JS_Number
  imports JS_Prelude "HOL-Library.Log_Nat" "HOL-Library.Sublist"
begin

text \<open>
  Numbers written into and read out of strings: \<open>String(n)\<close> and \<open>`${n}`\<close> for a natural number, and
  the conversion \<open>Number(s)\<close> of an arbitrary string, which accepts blanks, signs, fractions,
  exponents, \<open>Infinity\<close> and the prefixes \<open>0x\<close>, \<open>0o\<close> and \<open>0b\<close>, gives 0 for a blank string and
  rounds to the nearest binary64 value. A number is kept as a fraction of naturals with a sign;
  the two zeros are not told apart, which no comparison of the sources does either. The main fact
  is that every natural number below \<open>2^53\<close> survives the round trip.
\<close>

section \<open>Printing\<close>

fun js_of_nat :: "nat \<Rightarrow> js_string" where
  "js_of_nat n = (if n < 10 then [of_nat (48 + n)] else js_of_nat (n div 10) @ [of_nat (48 + n mod 10)])"

declare js_of_nat.simps [simp del]

section \<open>Values\<close>

datatype js_number = NaN | Infinite bool | Fin bool nat nat

text \<open>The binary64 value nearest to \<open>n / d\<close>, ties to even; \<open>None\<close> on overflow.\<close>

definition round_half_even :: "nat \<Rightarrow> nat \<Rightarrow> nat" where
  "round_half_even n d =
     (let q = n div d; r = n mod d in if 2 * r < d \<or> (2 * r = d \<and> even q) then q else Suc q)"

definition binade :: "nat \<Rightarrow> nat \<Rightarrow> int" where
  "binade n d = (let k = int (floorlog 2 n) - int (floorlog 2 d) in
     if (if 0 \<le> k then d * 2 ^ nat k \<le> n else d \<le> n * 2 ^ nat (- k)) then k else k - 1)"

definition round64 :: "nat \<Rightarrow> nat \<Rightarrow> (nat \<times> nat) option" where
  "round64 n d =
     (if n = 0 then Some (0, 1)
      else (let e = max (- 1074) (binade n d - 52) in
        if 0 \<le> e then
          (let m = round_half_even n (d * 2 ^ nat e) * 2 ^ nat e in
           if 2 ^ 1024 \<le> m then None else Some (m, 1))
        else Some (round_half_even (n * 2 ^ nat (- e)) d, 2 ^ nat (- e))))"

definition js_finite :: "bool \<Rightarrow> nat \<Rightarrow> nat \<Rightarrow> js_number" where
  "js_finite neg n d = (case round64 n d of None \<Rightarrow> Infinite neg | Some (m, e) \<Rightarrow> Fin neg m e)"

text \<open>\<open>Number.isInteger(x)\<close>, with the integer.\<close>

fun js_integer :: "js_number \<Rightarrow> int option" where
  "js_integer (Fin neg n d) =
     (if d dvd n then Some (if neg then - int (n div d) else int (n div d)) else None)"
| "js_integer _ = None"

section \<open>Reading\<close>

definition is_digit :: "code_unit \<Rightarrow> bool" where
  "is_digit u \<longleftrightarrow> 48 \<le> unat u \<and> unat u < 58"

definition is_blank :: "code_unit \<Rightarrow> bool" where
  "is_blank u \<longleftrightarrow> (let n = unat u in
     n \<in> {9, 10, 11, 12, 13, 32, 0xA0, 0x1680, 0x2028, 0x2029, 0x202F, 0x205F, 0x3000, 0xFEFF}
     \<or> (0x2000 \<le> n \<and> n \<le> 0x200A))"

text \<open>\<open>s.trim()\<close>\<close>

definition js_trim :: "js_string \<Rightarrow> js_string" where
  "js_trim s = rev (dropWhile is_blank (rev (dropWhile is_blank s)))"

text \<open>The digit a code unit stands for in a radix up to 16, and the value of a digit sequence.\<close>

definition digit_val :: "code_unit \<Rightarrow> nat option" where
  "digit_val u = (let n = unat u in
     if 48 \<le> n \<and> n < 58 then Some (n - 48)
     else if 97 \<le> n \<and> n < 103 then Some (n - 87)
     else if 65 \<le> n \<and> n < 71 then Some (n - 55)
     else None)"

fun digits_val :: "nat \<Rightarrow> nat \<Rightarrow> js_string \<Rightarrow> nat option" where
  "digits_val radix acc [] = Some acc"
| "digits_val radix acc (u # us) =
     (case digit_val u of
        Some v \<Rightarrow> if v < radix then digits_val radix (radix * acc + v) us else None
      | None \<Rightarrow> None)"

definition scale10 :: "bool \<Rightarrow> nat \<Rightarrow> int \<Rightarrow> js_number" where
  "scale10 neg n e =
     (if 0 \<le> e then js_finite neg (n * 10 ^ nat e) 1 else js_finite neg n (10 ^ nat (- e)))"

text \<open>The exponent part: absent, or \<open>e\<close>, an optional sign and at least one digit up to the end.\<close>

definition read_exponent :: "js_string \<Rightarrow> int option" where
  "read_exponent s =
     (case s of
        [] \<Rightarrow> Some 0
      | u # t \<Rightarrow>
          if unat u \<noteq> 101 \<and> unat u \<noteq> 69 then None
          else (let (neg, ds) =
                  (case t of v # t' \<Rightarrow> if unat v = 45 then (True, t')
                                      else if unat v = 43 then (False, t') else (False, t)
                   | [] \<Rightarrow> (False, [])) in
                if ds = [] then None
                else map_option (\<lambda>n. if neg then - int n else int n) (digits_val 10 0 ds)))"

definition read_decimal :: "bool \<Rightarrow> js_string \<Rightarrow> js_number" where
  "read_decimal neg s =
     (let ip = takeWhile is_digit s; r = dropWhile is_digit s;
          (fp, r') = (case r of u # t \<Rightarrow> if unat u = 46 then (takeWhile is_digit t, dropWhile is_digit t)
                                        else ([], r)
                      | [] \<Rightarrow> ([], [])) in
      if ip = [] \<and> fp = [] then NaN
      else (case (digits_val 10 0 (ip @ fp), read_exponent r') of
              (Some n, Some e) \<Rightarrow> scale10 neg n (e - int (length fp))
            | _ \<Rightarrow> NaN))"

definition read_signed :: "js_string \<Rightarrow> js_number" where
  "read_signed s =
     (let (neg, t) = (case s of u # t \<Rightarrow> if unat u = 45 then (True, t)
                                       else if unat u = 43 then (False, t) else (False, s)
                      | [] \<Rightarrow> (False, [])) in
      if t = js_of ''Infinity'' then Infinite neg else read_decimal neg t)"

definition radix_of :: "code_unit \<Rightarrow> nat option" where
  "radix_of u = (let n = unat u in
     if n = 120 \<or> n = 88 then Some 16 else if n = 111 \<or> n = 79 then Some 8
     else if n = 98 \<or> n = 66 then Some 2 else None)"

text \<open>\<open>Number(s)\<close>\<close>

definition js_Number :: "js_string \<Rightarrow> js_number" where
  "js_Number s =
     (case js_trim s of
        [] \<Rightarrow> Fin False 0 1
      | [u] \<Rightarrow> read_signed [u]
      | u # v # ds \<Rightarrow>
          (case (if unat u = 48 then radix_of v else None) of
             Some radix \<Rightarrow>
               if ds = [] then NaN
               else (case digits_val radix 0 ds of Some n \<Rightarrow> js_finite False n 1 | None \<Rightarrow> NaN)
           | None \<Rightarrow> read_signed (u # v # ds)))"

section \<open>Natural numbers survive printing and reading\<close>

lemma unat_digit: "n < 10 \<Longrightarrow> unat (of_nat (48 + n) :: code_unit) = 48 + n"
  by (subst unat_of_nat) simp

lemma js_of_nat_digits: "u \<in> set (js_of_nat n) \<Longrightarrow> is_digit u"
proof (induction n rule: js_of_nat.induct)
  case (1 n)
  have d: "is_digit (of_nat (48 + k))" if "k < 10" for k
    using that unfolding is_digit_def by (subst (1 2) unat_digit) simp_all
  show ?case
  proof (cases "n < 10")
    case True
    with 1 d [of n] show ?thesis by (simp add: js_of_nat.simps [of n])
  next
    case False
    with 1 d [of "n mod 10"] show ?thesis by (auto simp: js_of_nat.simps [of n])
  qed
qed

lemma js_of_nat_not_Nil [simp]: "js_of_nat n \<noteq> []"
  by (simp add: js_of_nat.simps [of n])

lemma digit_val_digit: "n < 10 \<Longrightarrow> digit_val (of_nat (48 + n)) = Some n"
  by (simp add: digit_val_def unat_digit del: of_nat_add)

lemma digits_val_append:
  "digits_val r a (us @ vs) = Option.bind (digits_val r a us) (\<lambda>b. digits_val r b vs)"
  by (induction us arbitrary: a) (auto split: option.splits)

lemma digits_val_js_of_nat: "digits_val 10 0 (js_of_nat n) = Some n"
proof (induction n rule: js_of_nat.induct)
  case (1 n)
  show ?case
  proof (cases "n < 10")
    case True
    then show ?thesis by (simp add: js_of_nat.simps [of n] digit_val_digit del: of_nat_add)
  next
    case False
    with 1 show ?thesis
      by (simp add: js_of_nat.simps [of n] digits_val_append digit_val_digit del: of_nat_add)
  qed
qed

lemma length_js_of_nat: "n < 10 ^ k \<Longrightarrow> 0 < k \<Longrightarrow> length (js_of_nat n) \<le> k"
proof (induction n arbitrary: k rule: js_of_nat.induct)
  case (1 n)
  show ?case
  proof (cases "n < 10")
    case True
    with 1 show ?thesis by (simp add: js_of_nat.simps [of n])
  next
    case False
    then obtain j where k: "k = Suc j" "0 < j"
      using "1.prems" by (cases k; cases "k - 1") auto
    with "1.prems" have "n div 10 < 10 ^ j" by (auto simp: less_mult_imp_div_less mult.commute)
    with "1.IH" [OF False] k show ?thesis using False by (simp add: js_of_nat.simps [of n])
  qed
qed

lemma binade_nat: "0 < n \<Longrightarrow> binade n 1 = int (floorlog 2 n) - 1"
proof -
  assume "0 < n"
  then have L: "2 ^ (floorlog 2 n - 1) \<le> n" "0 < floorlog 2 n"
    using floorlog_bounds [of n 2] by (auto simp: floorlog_def)
  have one: "floorlog 2 1 = 1" by (simp add: floorlog_def)
  have "nat (int (floorlog 2 n) - 1) = floorlog 2 n - 1" by simp
  with L show ?thesis unfolding binade_def one Let_def by simp
qed

lemma round64_nat:
  assumes "n < 2 ^ 53"
  obtains e where "round64 n 1 = Some (n * 2 ^ e, 2 ^ e)"
proof (cases "n = 0")
  case True
  then show ?thesis using that [of 0] by (simp add: round64_def)
next
  case False
  have L: "floorlog 2 n \<le> 53" "0 < floorlog 2 n"
    using assms floorlog_le_iff [of 2 n 53] False by (simp_all add: floorlog_def)
  then have b: "max (- 1074) (binade n 1 - 52) = - int (53 - floorlog 2 n)"
    using binade_nat [of n] False by (simp del: One_nat_def)
  have r: "round_half_even m 1 = m" for m by (simp add: round_half_even_def)
  show ?thesis
  proof (cases "floorlog 2 n = 53")
    case True
    then have "round64 n 1 = Some (n, 1)"
      using False assms less_le_trans [OF assms, of "2 ^ 1024"] power_increasing [of 53 1024 "2 :: nat"]
      unfolding round64_def b by (simp add: round_half_even_def)
    then show ?thesis using that [of 0] by simp
  next
    case neq: False
    then have "round64 n 1 = Some (n * 2 ^ (53 - floorlog 2 n), 2 ^ (53 - floorlog 2 n))"
      using False L unfolding round64_def b Let_def minus_minus nat_int r by simp
    then show ?thesis by (rule that)
  qed
qed

lemma js_integer_nat: "n < 2 ^ 53 \<Longrightarrow> js_integer (js_finite False n 1) = Some (int n)"
  by (erule round64_nat) (simp add: js_finite_def)

lemma is_digit_not_blank: "is_digit u \<Longrightarrow> \<not> is_blank u"
  by (auto simp: is_digit_def is_blank_def Let_def)

lemma trim_ends:
  "js_trim s \<noteq> [] \<Longrightarrow> \<not> is_blank (hd (js_trim s))" "js_trim (js_trim s) = js_trim s" "sublist (js_trim s) s"
proof -
  let ?t = "dropWhile is_blank s"
  have pre: "prefix (js_trim s) ?t"
    unfolding js_trim_def by (metis rev_rev_ident suffix_dropWhile suffix_to_prefix)
  then show "sublist (js_trim s) s"
    by (meson prefix_imp_sublist sublist_order.order_trans suffix_dropWhile suffix_imp_sublist)
  show h: "\<not> is_blank (hd (js_trim s))" if ne: "js_trim s \<noteq> []" for s
  proof -
    have "prefix (js_trim s) (dropWhile is_blank s)"
      unfolding js_trim_def by (metis rev_rev_ident suffix_dropWhile suffix_to_prefix)
    then obtain zs where z: "dropWhile is_blank s = js_trim s @ zs" by (auto simp: prefix_def)
    then have "hd (dropWhile is_blank s) = hd (js_trim s)" "dropWhile is_blank s \<noteq> []" using ne by simp_all
    then show ?thesis using hd_dropWhile [of is_blank s] by metis
  qed
  have d: "dropWhile is_blank (js_trim s) = js_trim s"
  proof (cases "js_trim s = []")
    case False
    from h [OF this] show ?thesis by (cases "js_trim s") auto
  qed simp
  have "rev (js_trim s) = dropWhile is_blank (rev ?t)" by (simp add: js_trim_def)
  then show "js_trim (js_trim s) = js_trim s" using d by (simp add: js_trim_def [of "js_trim s"]) (simp add: js_trim_def)
qed

lemma js_trim_digits:
  assumes "\<And>u. u \<in> set s \<Longrightarrow> is_digit u"
  shows "js_trim s = s"
proof -
  have d: "dropWhile is_blank t = t" if "set t \<subseteq> set s" for t
    using that assms by (cases t) (auto dest: is_digit_not_blank)
  show ?thesis by (simp add: js_trim_def d)
qed

lemma radix_of_digit: "is_digit u \<Longrightarrow> radix_of u = None"
  by (auto simp: is_digit_def radix_of_def Let_def)

lemma read_signed_digits:
  assumes s: "s \<noteq> []" "\<And>u. u \<in> set s \<Longrightarrow> is_digit u" and "digits_val 10 0 s = Some n"
  shows "read_signed s = js_finite False n 1"
proof -
  obtain u t where u: "s = u # t" using s(1) by (cases s) auto
  then have d: "is_digit u" using s(2) by simp
  have tw: "takeWhile is_digit s = s" "dropWhile is_digit s = []" using s(2) by auto
  have dec: "read_decimal False s = js_finite False n 1"
    using assms(3) s(1) unfolding read_decimal_def tw by (simp add: read_exponent_def scale10_def)
  have "s \<noteq> js_of ''Infinity''" "unat u \<noteq> 45" "unat u \<noteq> 43"
    using d by (auto simp: u is_digit_def)
  with dec show ?thesis unfolding read_signed_def u by auto
qed

theorem js_Number_js_of_nat:
  assumes "n < 2 ^ 53"
  shows "js_integer (js_Number (js_of_nat n)) = Some (int n)"
proof -
  let ?s = "js_of_nat n"
  have d: "\<And>u. u \<in> set ?s \<Longrightarrow> is_digit u" by (rule js_of_nat_digits)
  have r: "read_signed ?s = js_finite False n 1"
    by (rule read_signed_digits [OF js_of_nat_not_Nil d digits_val_js_of_nat])
  have "js_Number ?s = read_signed ?s"
    using d js_trim_digits [OF d]
    by (auto simp: js_Number_def radix_of_digit split: list.splits)
  then show ?thesis using js_integer_nat [OF assms] r by simp
qed

end
