(* ===== verification/Protocol.thy ===== *)
theory Protocol
  imports Crc16 JS_Number
begin

text \<open>
  \<open>sdk-typescript/src/protocol.ts\<close>: the fixed 256-byte binary frame, its codec and the glob match
  used to route messages. A buffer is a byte list; writing at an offset is \<open>buf_set\<close>; a thrown
  \<open>ProtocolError\<close> is the left of a sum. The theorems are the layout of an encoded frame, the round
  trip, the rejection of damaged frames, and the meaning of a glob pattern.
\<close>

section \<open>Layout\<close>

definition FRAME_SIZE :: nat where "FRAME_SIZE = 256"
definition MAGIC :: "16 word" where "MAGIC = 0xAA01"
definition OFF_MAGIC :: nat where "OFF_MAGIC = 0"
definition OFF_OPCODE :: nat where "OFF_OPCODE = 2"
definition OFF_TENANT :: nat where "OFF_TENANT = 3"
definition LEN_TENANT :: nat where "LEN_TENANT = 16"
definition OFF_CHANNEL :: nat where "OFF_CHANNEL = OFF_TENANT + LEN_TENANT"
definition LEN_CHANNEL :: nat where "LEN_CHANNEL = 24"
definition OFF_PAYLOAD :: nat where "OFF_PAYLOAD = OFF_CHANNEL + LEN_CHANNEL"
definition LEN_PAYLOAD :: nat where "LEN_PAYLOAD = 211"
definition OFF_CRC :: nat where "OFF_CRC = OFF_PAYLOAD + LEN_PAYLOAD"
definition LEN_CRC :: nat where "LEN_CRC = 2"

lemmas layout_defs = FRAME_SIZE_def OFF_MAGIC_def OFF_OPCODE_def OFF_TENANT_def LEN_TENANT_def
  OFF_CHANNEL_def LEN_CHANNEL_def OFF_PAYLOAD_def LEN_PAYLOAD_def OFF_CRC_def LEN_CRC_def

datatype opcode = Subscribe | Publish | Message | Auth | Ping | Presence | Replay | Unicast | Unsub

fun opcode_byte :: "opcode \<Rightarrow> byte" where
  "opcode_byte Subscribe = 0x01"
| "opcode_byte Publish = 0x02"
| "opcode_byte Message = 0x03"
| "opcode_byte Auth = 0x04"
| "opcode_byte Ping = 0x05"
| "opcode_byte Presence = 0x06"
| "opcode_byte Replay = 0x07"
| "opcode_byte Unicast = 0x08"
| "opcode_byte Unsub = 0x09"

definition all_opcodes :: "opcode list" where
  "all_opcodes = [Subscribe, Publish, Message, Auth, Ping, Presence, Replay, Unicast, Unsub]"

text \<open>\<open>VALID_OPCODES.has(b)\<close>, with the enumeration member the cast then names.\<close>

definition VALID_OPCODES :: "byte \<Rightarrow> opcode option" where
  "VALID_OPCODES b = List.find (\<lambda>q. opcode_byte q = b) all_opcodes"

text \<open>\<open>ProtocolError\<close>, by the place that throws it (here and in \<open>chunking.ts\<close>).\<close>

datatype protocol_error =
    InvalidUuid js_string
  | InvalidLength nat
  | InvalidMagic "16 word"
  | UnknownOpcode byte
  | InvalidCrc "16 word" int32
  | MessageTooLarge nat nat
  | TooManyChunks nat

record decoded_frame =
  df_opcode :: opcode
  df_tenantId :: js_string
  df_channelId :: js_string
  df_payload :: js_string
  df_raw :: bytes

record frame_fields =
  ff_opcode :: opcode
  ff_tenantId :: js_string
  ff_channelId :: "js_string option"
  ff_payload :: "js_string option"

section \<open>Tenant identifiers\<close>

definition dash :: code_unit where "dash = 45"

text \<open>\<open>UUID_RE.test(s)\<close>: hexadecimal digits of either case, dashes at four places.\<close>

definition UUID_RE :: "js_string \<Rightarrow> bool" where
  "UUID_RE s \<longleftrightarrow> length s = 36 \<and>
     list_all (\<lambda>i. if i \<in> {8, 13, 18, 23} then s ! i = dash else digit_val (s ! i) \<noteq> None) [0..<36]"

text \<open>\<open>bytes[i] = parseInt(hex.substring(2 * i, 2 * i + 2), 16)\<close>; a \<open>NaN\<close> is stored as 0.\<close>

definition parse_hex :: "js_string \<Rightarrow> byte" where
  "parse_hex ds = (case digits_val 16 0 ds of Some n \<Rightarrow> of_nat n | None \<Rightarrow> 0)"

definition uuidToBytes :: "js_string \<Rightarrow> protocol_error + bytes" where
  "uuidToBytes uuid =
     (if \<not> UUID_RE uuid then Inl (InvalidUuid uuid)
      else (let hex = filter (\<lambda>u. u \<noteq> dash) uuid in
        Inr (map (\<lambda>i. parse_hex (take 2 (drop (i * 2) hex))) [0..<16])))"

definition hex_digit :: "nat \<Rightarrow> code_unit" where
  "hex_digit n = (if n < 10 then of_nat (48 + n) else of_nat (87 + n))"

text \<open>\<open>b.toString(16).padStart(2, "0")\<close>\<close>

definition byte_hex :: "byte \<Rightarrow> js_string" where
  "byte_hex b = [hex_digit (unat b div 16), hex_digit (unat b mod 16)]"

definition js_slice :: "nat \<Rightarrow> nat \<Rightarrow> 'a list \<Rightarrow> 'a list" where
  "js_slice i j s = take (j - i) (drop i s)"

definition bytesToUuid :: "bytes \<Rightarrow> js_string" where
  "bytesToUuid bs =
     (let hex = concat (map byte_hex bs) in
      js_slice 0 8 hex @ [dash] @ js_slice 8 12 hex @ [dash] @ js_slice 12 16 hex @ [dash] @
      js_slice 16 20 hex @ [dash] @ js_slice 20 32 hex)"

section \<open>Text fields\<close>

text \<open>The contents of a field of \<open>n\<close> bytes after \<open>dst.fill(0)\<close> and \<open>encodeInto(s, dst)\<close>.\<close>

definition writePadded :: "nat \<Rightarrow> js_string \<Rightarrow> bytes" where
  "writePadded n s =
     (let w = encode_into n (to_scalars s) in w @ replicate (n - length w) 0)"

definition readTrimmed :: "bytes \<Rightarrow> js_string" where
  "readTrimmed src =
     (let end_pos = (case index_of 0 src of Some i \<Rightarrow> i | None \<Rightarrow> length src) in
      text_decode (take end_pos src))"

section \<open>Frames\<close>

definition buf_set :: "nat \<Rightarrow> bytes \<Rightarrow> bytes \<Rightarrow> bytes" where
  "buf_set off bs buf = take off buf @ bs @ drop (off + length bs) buf"

definition setUint16 :: "nat \<Rightarrow> 16 word \<Rightarrow> bytes \<Rightarrow> bytes" where
  "setUint16 off v buf = buf_set off [hi_byte v, lo_byte v] buf"

definition getUint16 :: "nat \<Rightarrow> bytes \<Rightarrow> 16 word" where
  "getUint16 off buf = (push_bit 8 (ucast (buf ! off)) XOR ucast (buf ! (off + 1)))"

definition subarray :: "nat \<Rightarrow> nat \<Rightarrow> bytes \<Rightarrow> bytes" where
  "subarray i j buf = take (j - i) (drop i buf)"

definition or_empty :: "js_string option \<Rightarrow> js_string" where
  "or_empty s = (case s of Some t \<Rightarrow> t | None \<Rightarrow> [])"

definition encodeFrame :: "frame_fields \<Rightarrow> protocol_error + bytes" where
  "encodeFrame ff =
     (let buf0 = replicate FRAME_SIZE 0;
          buf1 = setUint16 OFF_MAGIC MAGIC buf0;
          buf2 = buf1[OFF_OPCODE := opcode_byte (ff_opcode ff)] in
      case uuidToBytes (ff_tenantId ff) of
        Inl e \<Rightarrow> Inl e
      | Inr t \<Rightarrow>
          (let buf3 = buf_set OFF_TENANT t buf2;
               buf4 = buf_set OFF_CHANNEL (writePadded LEN_CHANNEL (or_empty (ff_channelId ff))) buf3;
               buf5 = buf_set OFF_PAYLOAD (writePadded LEN_PAYLOAD (or_empty (ff_payload ff))) buf4;
               crc = crc16CcittFalse (subarray 0 OFF_CRC buf5) in
           Inr (setUint16 OFF_CRC (ucast crc) buf5)))"

definition decodeFrame :: "bytes \<Rightarrow> protocol_error + decoded_frame" where
  "decodeFrame buf =
     (if length buf \<noteq> FRAME_SIZE then Inl (InvalidLength (length buf))
      else (let magic = getUint16 OFF_MAGIC buf in
        if magic \<noteq> MAGIC then Inl (InvalidMagic magic)
        else (case VALID_OPCODES (buf ! OFF_OPCODE) of
            None \<Rightarrow> Inl (UnknownOpcode (buf ! OFF_OPCODE))
          | Some q \<Rightarrow>
              (let expectedCrc = getUint16 OFF_CRC buf;
                   actualCrc = crc16CcittFalse (subarray 0 OFF_CRC buf) in
               if ucast expectedCrc \<noteq> actualCrc then Inl (InvalidCrc expectedCrc actualCrc)
               else Inr \<lparr>df_opcode = q,
                  df_tenantId = bytesToUuid (subarray OFF_TENANT (OFF_TENANT + LEN_TENANT) buf),
                  df_channelId = readTrimmed (subarray OFF_CHANNEL (OFF_CHANNEL + LEN_CHANNEL) buf),
                  df_payload = readTrimmed (subarray OFF_PAYLOAD (OFF_PAYLOAD + LEN_PAYLOAD) buf),
                  df_raw = buf\<rparr>))))"

section \<open>Glob patterns\<close>

definition star :: code_unit where "star = 42"

text \<open>The inner \<open>helper\<close>: a star tries every suffix of the candidate.\<close>

fun glob_helper :: "js_string \<Rightarrow> js_string \<Rightarrow> bool" where
  "glob_helper [] c \<longleftrightarrow> c = []"
| "glob_helper (p # ps) c \<longleftrightarrow>
     (if p = star then list_ex (\<lambda>i. glob_helper ps (drop i c)) [0..<Suc (length c)]
      else (case c of [] \<Rightarrow> False | x # xs \<Rightarrow> x = p \<and> glob_helper ps xs))"

definition globMatch :: "js_string \<Rightarrow> js_string \<Rightarrow> bool" where
  "globMatch pattern candidate = glob_helper pattern candidate"

section \<open>Opcodes\<close>

lemma VALID_OPCODES_opcode_byte [simp]: "VALID_OPCODES (opcode_byte q) = Some q"
  by (cases q) (simp_all add: VALID_OPCODES_def all_opcodes_def)

lemma VALID_OPCODES_Some: "VALID_OPCODES b = Some q \<Longrightarrow> opcode_byte q = b"
  by (simp add: VALID_OPCODES_def find_Some_iff) blast

interpretation opc: codec opcode_byte VALID_OPCODES "\<lambda>_. True"
  by unfold_locales simp

section \<open>Tenant identifiers survive the trip\<close>

lemma unat_hex_digit: "n < 16 \<Longrightarrow> unat (hex_digit n) = (if n < 10 then 48 + n else 87 + n)"
  by (simp add: hex_digit_def unat_of_nat_unit del: of_nat_add)

lemma digit_val_hex_digit: "n < 16 \<Longrightarrow> digit_val (hex_digit n) = Some n"
  by (auto simp: digit_val_def unat_hex_digit Let_def)

lemma hex_digit_neq_dash: "n < 16 \<Longrightarrow> hex_digit n \<noteq> dash"
  using unat_hex_digit [of n] by (auto simp: dash_def split: if_splits)

lemma byte_nibbles: "unat (b :: byte) div 16 < 16" "unat b mod 16 < 16"
  using unat_byte_less [of b] by auto

lemma parse_byte_hex: "parse_hex (byte_hex b) = b"
  by (simp add: parse_hex_def byte_hex_def digit_val_hex_digit byte_nibbles
      del: of_nat_add of_nat_mult)

lemma length_16_cases:
  assumes "length xs = 16"
  obtains a b c d e f g h i j k l m n p q where "xs = [a, b, c, d, e, f, g, h, i, j, k, l, m, n, p, q]"
  using assms by (auto simp: numeral_eq_Suc length_Suc_conv)

lemma upt_16: "[0..<16] = [0, 1, 2, 3, 4, 5, 6, 7, 8, 9, 10, 11, 12, 13, 14, 15 :: nat]"
  by (simp add: upt_rec)

lemma upt_36: "[0..<36] = [0, 1, 2, 3, 4, 5, 6, 7, 8, 9, 10, 11, 12, 13, 14, 15, 16, 17, 18, 19, 20,
    21, 22, 23, 24, 25, 26, 27, 28, 29, 30, 31, 32, 33, 34, 35 :: nat]"
  by (simp add: upt_rec)

lemma uuidToBytes_bytesToUuid:
  assumes "length bs = 16"
  shows "uuidToBytes (bytesToUuid bs) = Inr bs"
proof -
  obtain a b c d e f g h i j k l m n p q where bs: "bs = [a, b, c, d, e, f, g, h, i, j, k, l, m, n, p, q]"
    by (rule length_16_cases [OF assms])
  note facts = digit_val_hex_digit hex_digit_neq_dash byte_nibbles
  have ok: "UUID_RE (bytesToUuid bs)"
    unfolding UUID_RE_def upt_36 bytesToUuid_def js_slice_def bs by (simp add: byte_hex_def facts)
  have hex: "filter (\<lambda>u. u \<noteq> dash) (bytesToUuid bs) = concat (map byte_hex bs)"
    unfolding bytesToUuid_def js_slice_def bs by (simp add: byte_hex_def facts)
  have "map (\<lambda>i. parse_hex (take 2 (drop (i * 2) (concat (map byte_hex bs))))) [0..<16] =
      map parse_hex (map byte_hex bs)"
    unfolding upt_16 bs by (simp add: byte_hex_def)
  also have "\<dots> = bs" by (simp add: parse_byte_hex comp_def)
  finally show ?thesis using ok hex by (simp add: uuidToBytes_def)
qed

text \<open>The canonical spelling of an identifier: lower case.\<close>

definition lower_unit :: "code_unit \<Rightarrow> code_unit" where
  "lower_unit u = (if 65 \<le> unat u \<and> unat u < 71 then u + 32 else u)"

definition js_lower_hex :: "js_string \<Rightarrow> js_string" where
  "js_lower_hex s = map lower_unit s"

lemma hex_digit_digit_val:
  "digit_val u = Some n \<Longrightarrow> n < 16 \<and> hex_digit n = lower_unit u"
proof -
  assume n: "digit_val u = Some n"
  then have "n < 16" by (auto simp: digit_val_def Let_def split: if_splits)
  moreover have "unat (hex_digit n) = (if 65 \<le> unat u \<and> unat u < 71 then unat u + 32 else unat u)"
    using n unat_hex_digit [OF \<open>n < 16\<close>] by (auto simp: digit_val_def Let_def split: if_splits)
  moreover have "unat (u + 32) = unat u + 32" if "unat u < 71"
    using that by (subst unat_add_lem [THEN iffD1]) simp_all
  ultimately show ?thesis by (auto simp: word_unat_eq_iff lower_unit_def)
qed

lemma byte_hex_parse_hex:
  assumes "digit_val u \<noteq> None" "digit_val v \<noteq> None"
  shows "byte_hex (parse_hex [u, v]) = js_lower_hex [u, v]"
proof -
  obtain m n where mn: "digit_val u = Some m" "digit_val v = Some n" using assms by auto
  then have lt: "m < 16" "n < 16" by (auto dest: hex_digit_digit_val)
  then have "parse_hex [u, v] = of_nat (16 * m + n)" by (simp add: parse_hex_def mn)
  moreover have "unat (of_nat (16 * m + n) :: byte) = 16 * m + n"
    using lt by (intro unat_of_nat_byte) simp
  ultimately show ?thesis using lt mn
    by (simp add: byte_hex_def js_lower_hex_def hex_digit_digit_val del: of_nat_add of_nat_mult)
qed

lemma length_uuidToBytes: "uuidToBytes s = Inr bs \<Longrightarrow> length bs = 16"
  by (auto simp: uuidToBytes_def Let_def split: if_splits)

lemma list_36: "length s = 36 \<Longrightarrow> s = map ((!) s) [0..<36]"
  using map_nth [of s] by simp

lemma bytesToUuid_uuidToBytes:
  assumes "uuidToBytes s = Inr bs"
  shows "bytesToUuid bs = js_lower_hex s"
proof -
  from assms have re: "UUID_RE s"
    and bs: "bs = map (\<lambda>i. parse_hex (take 2 (drop (i * 2) (filter (\<lambda>u. u \<noteq> dash) s)))) [0..<16]"
    by (auto simp: uuidToBytes_def Let_def split: if_splits)
  have nd: "digit_val u \<noteq> None \<Longrightarrow> u \<noteq> dash" for u
    by (auto simp: digit_val_def dash_def)
  have lower_dash: "lower_unit dash = dash" by (simp add: lower_unit_def dash_def)
  let ?ix = "[0, 1, 2, 3, 4, 5, 6, 7, 9, 10, 11, 12, 14, 15, 16, 17, 19, 20, 21, 22, 24, 25, 26, 27, 28, 29, 30, 31, 32, 33, 34, 35]"
  have s: "s = map ((!) s) [0..<36]" by (rule list_36) (use re in \<open>simp add: UUID_RE_def\<close>)
  have dv: "i \<in> set ?ix \<Longrightarrow> digit_val (s ! i) \<noteq> None" for i
    using re unfolding UUID_RE_def upt_36 by auto
  have ds: "s ! 8 = dash" "s ! 13 = dash" "s ! 18 = dash" "s ! 23 = dash"
    using re unfolding UUID_RE_def upt_36 by auto
  have hex: "filter (\<lambda>u. u \<noteq> dash) s = map ((!) s) ?ix"
    using dv [THEN nd] by (subst s) (simp add: upt_36 ds)
  have "concat (map byte_hex bs) = js_lower_hex (map ((!) s) ?ix)"
    unfolding bs hex upt_16 using dv by (simp add: byte_hex_parse_hex) (simp add: js_lower_hex_def)
  then show ?thesis unfolding bytesToUuid_def Let_def
    by (subst s) (simp add: upt_36 js_slice_def ds lower_dash js_lower_hex_def)
qed

section \<open>The layout of an encoded frame\<close>

lemma length_writePadded [simp]: "length (writePadded n s) = n"
  using length_encode_into [of n "to_scalars s"] by (simp add: writePadded_def Let_def)

definition frame_head :: "opcode \<Rightarrow> bytes \<Rightarrow> js_string \<Rightarrow> js_string \<Rightarrow> bytes" where
  "frame_head q t ch pl =
     [0xAA, 0x01, opcode_byte q] @ t @ writePadded LEN_CHANNEL ch @ writePadded LEN_PAYLOAD pl"

lemma length_frame_head: "length t = 16 \<Longrightarrow> length (frame_head q t ch pl) = 254"
  by (simp add: frame_head_def layout_defs)

lemma buf_set_append:
  "length xs = off \<Longrightarrow> length bs \<le> n \<Longrightarrow>
   buf_set off bs (xs @ replicate n 0) = xs @ bs @ replicate (n - length bs) 0"
  by (simp add: buf_set_def)

lemma encodeFrame_layout:
  assumes "uuidToBytes (ff_tenantId ff) = Inr t"
  defines "h \<equiv> frame_head (ff_opcode ff) t (or_empty (ff_channelId ff)) (or_empty (ff_payload ff))"
  shows "encodeFrame ff = Inr (h @ [hi_byte (reg 0xFFFF h), lo_byte (reg 0xFFFF h)])"
proof -
  let ?q = "opcode_byte (ff_opcode ff)"
  let ?c = "writePadded LEN_CHANNEL (or_empty (ff_channelId ff))"
  let ?p = "writePadded LEN_PAYLOAD (or_empty (ff_payload ff))"
  have lt: "length t = 16" using assms(1) by (rule length_uuidToBytes)
  have magic: "hi_byte MAGIC = 0xAA" "lo_byte MAGIC = 0x01"
    by (simp_all add: MAGIC_def hi_byte_def lo_byte_def)
  have b1: "setUint16 OFF_MAGIC MAGIC (replicate FRAME_SIZE 0) = [0xAA, 0x01] @ replicate 254 0"
    using buf_set_append [of "[]" OFF_MAGIC "[0xAA, 0x01]" FRAME_SIZE]
    by (simp add: setUint16_def magic layout_defs)
  have b2: "([0xAA, 0x01] @ replicate 254 0)[OFF_OPCODE := ?q] = [0xAA, 0x01, ?q] @ replicate 253 0"
    by (simp add: layout_defs numeral_eq_Suc)
  have b3: "buf_set OFF_TENANT t ([0xAA, 0x01, ?q] @ replicate 253 0) =
      ([0xAA, 0x01, ?q] @ t) @ replicate 237 0"
    using lt buf_set_append [of "[0xAA, 0x01, ?q]" OFF_TENANT t 253] by (simp add: layout_defs)
  have b4: "buf_set OFF_CHANNEL ?c (([0xAA, 0x01, ?q] @ t) @ replicate 237 0) =
      ([0xAA, 0x01, ?q] @ t @ ?c) @ replicate 213 0"
    using lt buf_set_append [of "[0xAA, 0x01, ?q] @ t" OFF_CHANNEL ?c 237] by (simp add: layout_defs)
  have b5: "buf_set OFF_PAYLOAD ?p (([0xAA, 0x01, ?q] @ t @ ?c) @ replicate 213 0) = h @ replicate 2 0"
    using lt buf_set_append [of "[0xAA, 0x01, ?q] @ t @ ?c" OFF_PAYLOAD ?p 213]
    by (simp add: layout_defs h_def frame_head_def)
  have lh: "length h = 254" using lt by (simp add: h_def length_frame_head)
  have sub: "subarray 0 OFF_CRC (h @ replicate 2 0) = h" using lh by (simp add: subarray_def layout_defs)
  have crc: "ucast (crc16CcittFalse h) = reg 0xFFFF h"
    unfolding crc16_reg by (rule bit_word_eqI) (auto simp: bit_ucast_iff)
  have b6: "setUint16 OFF_CRC v (h @ replicate 2 0) = h @ [hi_byte v, lo_byte v]" for v
    using lh buf_set_append [of h OFF_CRC "[hi_byte v, lo_byte v]" 2] by (simp add: setUint16_def layout_defs)
  show ?thesis
    unfolding encodeFrame_def Let_def assms(1) b1 b2 sum.case b3 b4 b5 sub crc b6 ..
qed

lemma encodeFrame_Inr:
  assumes "encodeFrame ff = Inr buf"
  obtains t where "uuidToBytes (ff_tenantId ff) = Inr t"
  using assms by (auto simp: encodeFrame_def Let_def split: sum.splits)

lemma encodeFrame_total: "(\<exists>buf. encodeFrame ff = Inr buf) \<longleftrightarrow> UUID_RE (ff_tenantId ff)"
  by (auto simp: encodeFrame_def uuidToBytes_def Let_def)

section \<open>Decoding\<close>

lemma getUint16_bytes: "getUint16 i buf = v \<longleftrightarrow> buf ! i = hi_byte v \<and> buf ! (i + 1) = lo_byte v"
proof
  assume "getUint16 i buf = v"
  then show "buf ! i = hi_byte v \<and> buf ! (i + 1) = lo_byte v"
    unfolding getUint16_def by (metis hi_byte_pair lo_byte_pair)
next
  assume "buf ! i = hi_byte v \<and> buf ! (i + 1) = lo_byte v"
  then show "getUint16 i buf = v" unfolding getUint16_def by (metis word16_split)
qed

text \<open>A frame is accepted exactly when its size, magic number and opcode are right and the register
  run over all of its bytes, checksum included, ends at zero.\<close>

lemma decodeFrame_accepts:
  "(\<exists>f. decodeFrame buf = Inr f) \<longleftrightarrow>
     length buf = 256 \<and> getUint16 0 buf = MAGIC \<and> VALID_OPCODES (buf ! 2) \<noteq> None \<and> reg 0xFFFF buf = 0"
proof (cases "length buf = 256")
  case len: True
  let ?c = "reg 0xFFFF (take 254 buf)"
  have "drop 254 buf = [buf ! 254, buf ! 255]"
    using len by (intro nth_equalityI) (auto simp: nth_Cons' less_Suc_eq numeral_2_eq_2)
  then have b: "buf = take 254 buf @ [buf ! 254, buf ! 255]" by (metis append_take_drop_id)
  have "reg 0xFFFF buf = reg ?c [buf ! 254, buf ! 255]" by (subst b) (simp only: reg_simps)
  then have r: "reg 0xFFFF buf = 0 \<longleftrightarrow> buf ! 254 = hi_byte ?c \<and> buf ! 255 = lo_byte ?c"
    by (simp only: reg_residue_iff)
  have sub: "subarray 0 OFF_CRC buf = take 254 buf" by (simp add: subarray_def layout_defs)
  have inj: "ucast (v :: 16 word) = (ucast w :: int32) \<longleftrightarrow> v = w" for v w
    by (metis ucast_16_32_16)
  have "ucast (getUint16 OFF_CRC buf) = crc16CcittFalse (take 254 buf) \<longleftrightarrow> getUint16 254 buf = ?c"
    by (simp add: crc16_reg inj layout_defs)
  also have "\<dots> \<longleftrightarrow> reg 0xFFFF buf = 0" by (simp add: getUint16_bytes r)
  finally have crc: "ucast (getUint16 OFF_CRC buf) = crc16CcittFalse (take 254 buf) \<longleftrightarrow> reg 0xFFFF buf = 0" .
  show ?thesis unfolding decodeFrame_def Let_def sub crc
    using len by (auto simp: layout_defs split: option.splits)
qed (simp add: decodeFrame_def layout_defs)

lemma decodeFrame_Inr:
  assumes "decodeFrame buf = Inr f"
  shows "VALID_OPCODES (buf ! 2) = Some (df_opcode f)"
    and "df_tenantId f = bytesToUuid (take 16 (drop 3 buf))"
    and "df_channelId f = readTrimmed (take 24 (drop 19 buf))"
    and "df_payload f = readTrimmed (take 211 (drop 43 buf))"
    and "df_raw f = buf"
  using assms
  by (auto simp: decodeFrame_def Let_def layout_defs subarray_def split: if_splits option.splits)

lemma readTrimmed_padded:
  assumes "0 \<notin> set w"
  shows "readTrimmed (w @ replicate n 0) = text_decode w"
proof (cases n)
  case 0
  then show ?thesis using assms index_of_None [of 0 w] by (simp add: readTrimmed_def)
next
  case (Suc m)
  then show ?thesis using assms by (simp add: readTrimmed_def)
qed

definition fits :: "nat \<Rightarrow> js_string \<Rightarrow> bool" where
  "fits n s \<longleftrightarrow> length (text_encode s) \<le> n \<and> 0 \<notin> set s \<and> well_formed s \<and> no_bom s"

lemma writePadded_fits:
  "length (text_encode s) \<le> n \<Longrightarrow> writePadded n s = text_encode s @ replicate (n - length (text_encode s)) 0"
  by (simp add: writePadded_def encode_into_fits text_encode_def Let_def)

lemma readTrimmed_writePadded: "fits n s \<Longrightarrow> readTrimmed (writePadded n s) = s"
  by (simp add: fits_def writePadded_fits readTrimmed_padded text_encode_no_zero text_decode_encode)

lemma decodeFrame_head:
  fixes q t ch pl
  assumes "length t = 16"
  defines "h \<equiv> frame_head q t ch pl"
  defines "buf \<equiv> h @ [hi_byte (reg 0xFFFF h), lo_byte (reg 0xFFFF h)]"
  shows "decodeFrame buf = Inr \<lparr>df_opcode = q, df_tenantId = bytesToUuid t,
    df_channelId = readTrimmed (writePadded 24 ch), df_payload = readTrimmed (writePadded 211 pl),
    df_raw = buf\<rparr>"
proof -
  have h: "h = [0xAA, 0x01, opcode_byte q] @ t @ writePadded 24 ch @ writePadded 211 pl"
    by (simp add: h_def frame_head_def layout_defs)
  have "reg 0xFFFF buf = reg (reg 0xFFFF h) [hi_byte (reg 0xFFFF h), lo_byte (reg 0xFFFF h)]"
    unfolding buf_def by (simp only: reg_simps)
  then have r: "reg 0xFFFF buf = 0" by (simp only: reg_residue)
  have len: "length buf = 256" using assms(1) by (simp add: buf_def h)
  have op: "VALID_OPCODES (buf ! 2) = Some q" by (simp add: buf_def h)
  have "getUint16 0 buf = MAGIC"
    unfolding getUint16_bytes by (simp add: buf_def h MAGIC_def hi_byte_def lo_byte_def)
  with r len op obtain f where f: "decodeFrame buf = Inr f" using decodeFrame_accepts [of buf] by auto
  note parts = decodeFrame_Inr [OF f]
  have "df_opcode f = q" using parts(1) op by simp
  moreover have "take 16 (drop 3 buf) = t" "take 24 (drop 19 buf) = writePadded 24 ch"
    "take 211 (drop 43 buf) = writePadded 211 pl"
    using assms(1) by (simp_all add: buf_def h)
  ultimately show ?thesis using f parts by simp
qed

lemma encodeFrame_accepted:
  assumes "encodeFrame ff = Inr buf"
  shows "\<exists>f. decodeFrame buf = Inr f \<and> length buf = 256"
proof -
  obtain t where t: "uuidToBytes (ff_tenantId ff) = Inr t" using assms by (rule encodeFrame_Inr)
  then have len: "length t = 16" by (rule length_uuidToBytes)
  then show ?thesis using encodeFrame_layout [OF t] assms decodeFrame_head [OF len]
    by (auto simp: length_frame_head)
qed

section \<open>Glob patterns as languages\<close>

text \<open>The strings a pattern stands for: each star is replaced by some string.\<close>

inductive glob_lang :: "js_string \<Rightarrow> js_string \<Rightarrow> bool" where
  glob_nil: "glob_lang [] []"
| glob_lit: "p \<noteq> star \<Longrightarrow> glob_lang ps xs \<Longrightarrow> glob_lang (p # ps) (p # xs)"
| glob_star: "glob_lang ps xs \<Longrightarrow> glob_lang (star # ps) (w @ xs)"

inductive_cases glob_lang_NilE: "glob_lang [] c"
inductive_cases glob_lang_ConsE: "glob_lang (p # ps) c"

lemma globMatch_lang: "globMatch p c \<longleftrightarrow> glob_lang p c"
proof -
  have "glob_helper p c \<longleftrightarrow> glob_lang p c"
  proof (induction p arbitrary: c)
    case Nil
    show ?case by (auto intro: glob_nil elim: glob_lang_NilE)
  next
    case (Cons p ps)
    show ?case
    proof (cases "p = star")
      case True
      have "glob_helper (p # ps) c \<longleftrightarrow> (\<exists>i \<le> length c. glob_lang ps (drop i c))"
        using True Cons.IH by (auto simp: list_ex_iff less_Suc_eq_le simp del: upt_Suc)
      also have "\<dots> \<longleftrightarrow> (\<exists>w xs. c = w @ xs \<and> glob_lang ps xs)"
        by (metis append_eq_conv_conj append_take_drop_id length_append le_add1)
      also have "\<dots> \<longleftrightarrow> glob_lang (p # ps) c"
        using True by (blast intro: glob_star elim: glob_lang_ConsE)
      finally show ?thesis .
    next
      case False
      then show ?thesis using Cons.IH
        by (cases c) (auto intro: glob_lit elim: glob_lang_ConsE)
    qed
  qed
  then show ?thesis by (simp add: globMatch_def)
qed

lemma glob_lang_literal: "star \<notin> set p \<Longrightarrow> glob_lang p c \<longleftrightarrow> c = p"
proof (induction p arbitrary: c)
  case Nil
  show ?case by (auto intro: glob_nil elim: glob_lang_NilE)
next
  case (Cons p ps)
  then show ?case by (cases c) (auto intro: glob_lit elim!: glob_lang_ConsE)
qed

lemma glob_lang_refl: "glob_lang p p"
proof (induction p)
  case Nil
  show ?case by (rule glob_nil)
next
  case (Cons x p)
  then show ?case using glob_star [of p p "[star]"] by (cases "x = star") (auto intro: glob_lit)
qed

lemma decode_encode_frame:
  assumes "encodeFrame ff = Inr buf"
    and "fits LEN_CHANNEL (or_empty (ff_channelId ff))" and "fits LEN_PAYLOAD (or_empty (ff_payload ff))"
  shows "length buf = FRAME_SIZE \<and>
    decodeFrame buf = Inr \<lparr>df_opcode = ff_opcode ff, df_tenantId = js_lower_hex (ff_tenantId ff),
      df_channelId = or_empty (ff_channelId ff), df_payload = or_empty (ff_payload ff), df_raw = buf\<rparr>"
proof -
  obtain t where t: "uuidToBytes (ff_tenantId ff) = Inr t" using assms(1) by (rule encodeFrame_Inr)
  then have len: "length t = 16" by (rule length_uuidToBytes)
  let ?h = "frame_head (ff_opcode ff) t (or_empty (ff_channelId ff)) (or_empty (ff_payload ff))"
  have buf: "buf = ?h @ [hi_byte (reg 0xFFFF ?h), lo_byte (reg 0xFFFF ?h)]"
    using encodeFrame_layout [OF t] assms(1) by simp
  from decodeFrame_head [OF len, of "ff_opcode ff" "or_empty (ff_channelId ff)" "or_empty (ff_payload ff)"]
  show ?thesis using assms(2,3) len
    by (simp add: buf [symmetric] bytesToUuid_uuidToBytes [OF t] LEN_CHANNEL_def LEN_PAYLOAD_def
        readTrimmed_writePadded) (simp add: buf length_frame_head FRAME_SIZE_def)
qed

section \<open>Properties\<close>

text \<open>C1. A frame that \<open>encodeFrame\<close> builds from a valid tenant identifier and from text fields that
  fit is 256 bytes long and is decoded by \<open>decodeFrame\<close> to the same opcode, channel and payload and
  to the lower-case spelling of the tenant identifier.\<close>

theorem frame_roundtrip:
  assumes "encodeFrame ff = Inr buf"
    and "fits LEN_CHANNEL (or_empty (ff_channelId ff))" and "fits LEN_PAYLOAD (or_empty (ff_payload ff))"
  shows "length buf = FRAME_SIZE \<and>
    decodeFrame buf = Inr \<lparr>df_opcode = ff_opcode ff, df_tenantId = js_lower_hex (ff_tenantId ff),
      df_channelId = or_empty (ff_channelId ff), df_payload = or_empty (ff_payload ff), df_raw = buf\<rparr>"
  using assms by (rule decode_encode_frame)

theorem frame_roundtrip_witness:
  "let ff = \<lparr>ff_opcode = Publish, ff_tenantId = js_of ''00000000-0000-0000-0000-00000000000A'',
      ff_channelId = Some (js_of ''orders:42''), ff_payload = Some [0x68, 0xE9, 0xD83D, 0xDE00]\<rparr> in
    \<exists>buf. encodeFrame ff = Inr buf \<and> length buf = FRAME_SIZE \<and>
      decodeFrame buf = Inr \<lparr>df_opcode = Publish,
        df_tenantId = js_of ''00000000-0000-0000-0000-00000000000a'',
        df_channelId = js_of ''orders:42'', df_payload = [0x68, 0xE9, 0xD83D, 0xDE00], df_raw = buf\<rparr>"
proof -
  let ?ff = "\<lparr>ff_opcode = Publish, ff_tenantId = js_of ''00000000-0000-0000-0000-00000000000A'',
      ff_channelId = Some (js_of ''orders:42''), ff_payload = Some [0x68, 0xE9, 0xD83D, 0xDE00]\<rparr>"
  have re: "UUID_RE (js_of ''00000000-0000-0000-0000-00000000000A'')"
    unfolding UUID_RE_def upt_36 by (simp add: digit_val_def dash_def)
  then obtain buf where buf: "encodeFrame ?ff = Inr buf"
    using encodeFrame_total [of ?ff] by auto
  have "fits LEN_CHANNEL (js_of ''orders:42'')" "fits LEN_PAYLOAD [0x68, 0xE9, 0xD83D, 0xDE00]"
    by (simp_all add: fits_def text_encode_def is_high_def is_low_def pair_scalar_def unit_scalar_def
        utf8_scalar_def no_bom_def layout_defs)
  then show ?thesis using frame_roundtrip [OF buf] buf
    by (simp add: or_empty_def Let_def js_lower_hex_def lower_unit_def)
qed

text \<open>C11. Damage confined to two adjacent bytes, anywhere in the frame and checksum included, never
  passes \<open>decodeFrame\<close>: a buffer that differs from an accepted one in at most the bytes \<open>i\<close> and
  \<open>i + 1\<close> is rejected with a protocol error.\<close>

theorem decodeFrame_rejects_burst:
  assumes ok: "decodeFrame buf = Inr f" and len: "length buf' = FRAME_SIZE" and i: "i + 1 < FRAME_SIZE"
    and same: "\<And>k. k < FRAME_SIZE \<Longrightarrow> k \<noteq> i \<Longrightarrow> k \<noteq> i + 1 \<Longrightarrow> buf' ! k = buf ! k" and "buf' \<noteq> buf"
  shows "\<exists>e. decodeFrame buf' = Inl e"
proof (rule ccontr)
  assume "\<nexists>e. decodeFrame buf' = Inl e"
  then obtain f' where "decodeFrame buf' = Inr f'" by (cases "decodeFrame buf'") auto
  with ok have r: "reg 0xFFFF buf = reg 0xFFFF buf'" and lb: "length buf = 256"
    using decodeFrame_accepts [of buf] decodeFrame_accepts [of buf'] by auto
  have split: "xs = take i xs @ [xs ! i, xs ! (i + 1)] @ drop (i + 2) xs" if "length xs = 256" for xs :: bytes
    using that i by (simp add: FRAME_SIZE_def Cons_nth_drop_Suc id_take_nth_drop)
  have t: "take i buf' = take i buf" and d: "drop (i + 2) buf' = drop (i + 2) buf"
    using same lb len i by (auto intro!: nth_equalityI simp: FRAME_SIZE_def)
  have "reg 0xFFFF (take i buf @ [buf ! i, buf ! (i + 1)] @ drop (i + 2) buf) =
      reg 0xFFFF (take i buf @ [buf' ! i, buf' ! (i + 1)] @ drop (i + 2) buf)"
    using r split [of buf] split [of buf'] lb len t d by (simp add: FRAME_SIZE_def del: reg_simps)
  then have "buf ! i = buf' ! i \<and> buf ! (i + 1) = buf' ! (i + 1)" by (rule reg_burst)
  then have "buf' = buf" using split [of buf] split [of buf'] lb len t d by (simp add: FRAME_SIZE_def)
  with \<open>buf' \<noteq> buf\<close> show False ..
qed

theorem decodeFrame_rejects_burst_witness:
  "let ff = \<lparr>ff_opcode = Ping, ff_tenantId = js_of ''00000000-0000-0000-0000-000000000001'',
      ff_channelId = None, ff_payload = None\<rparr> in
    \<exists>buf f e. encodeFrame ff = Inr buf \<and> decodeFrame buf = Inr f \<and>
      decodeFrame (buf[100 := buf ! 100 + 1, 101 := buf ! 101 + 7]) = Inl e"
proof -
  let ?ff = "\<lparr>ff_opcode = Ping, ff_tenantId = js_of ''00000000-0000-0000-0000-000000000001'',
      ff_channelId = None, ff_payload = None\<rparr>"
  have re: "UUID_RE (js_of ''00000000-0000-0000-0000-000000000001'')"
    unfolding UUID_RE_def upt_36 by (simp add: digit_val_def dash_def)
  then obtain buf where buf: "encodeFrame ?ff = Inr buf"
    using encodeFrame_total [of ?ff] by auto
  then obtain f where f: "decodeFrame buf = Inr f" and len: "length buf = 256"
    using encodeFrame_accepted by blast
  let ?b = "buf[100 := buf ! 100 + 1, 101 := buf ! 101 + 7]"
  have "?b ! 100 \<noteq> buf ! 100" using len by simp
  then have "?b \<noteq> buf" by metis
  then have "\<exists>e. decodeFrame ?b = Inl e"
    using len by (intro decodeFrame_rejects_burst [OF f, of ?b 100]) (auto simp: FRAME_SIZE_def)
  with buf f show ?thesis by (auto simp: Let_def)
qed

text \<open>\<open>decodeFrame\<close> accepts a buffer exactly when it has 256 bytes, the magic number, a known
  opcode, and the checksum register run over the whole frame, checksum field included, ends at
  zero.\<close>

theorem decodeFrame_accepts_iff:
  "(\<exists>f. decodeFrame buf = Inr f) \<longleftrightarrow>
     length buf = FRAME_SIZE \<and> getUint16 OFF_MAGIC buf = MAGIC \<and>
     VALID_OPCODES (buf ! OFF_OPCODE) \<noteq> None \<and> reg 0xFFFF buf = 0"
  using decodeFrame_accepts [of buf] by (simp add: layout_defs)

text \<open>\<open>crc16CcittFalse\<close>, computed on 32-bit integers, is the 16-bit CCITT shift register with
  initial value \<open>0xFFFF\<close>; in particular its result always fits the 16-bit checksum field.\<close>

theorem crc16_is_register:
  "crc16CcittFalse bs = ucast (reg 0xFFFF bs) \<and> unat (crc16CcittFalse bs) < 2 ^ 16"
proof -
  have "unat (ucast (reg 0xFFFF bs) :: int32) = unat (reg 0xFFFF bs)"
    by (simp add: unsigned_ucast_eq take_bit_nat_eq_self_iff order.strict_trans [OF unat_unit_less])
  then show ?thesis using unat_unit_less [of "reg 0xFFFF bs"] by (simp add: crc16_reg)
qed

text \<open>\<open>uuidToBytes\<close> and \<open>bytesToUuid\<close> are inverse: 16 bytes survive being printed and read, and
  an accepted identifier survives being read and printed, up to the case of its digits.\<close>

theorem uuid_roundtrip:
  "(length bs = 16 \<longrightarrow> uuidToBytes (bytesToUuid bs) = Inr bs) \<and>
   (uuidToBytes s = Inr bs \<longrightarrow> length bs = 16 \<and> bytesToUuid bs = js_lower_hex s)"
  using uuidToBytes_bytesToUuid [of bs] bytesToUuid_uuidToBytes [of s bs] length_uuidToBytes [of s bs]
  by blast

theorem uuid_roundtrip_witness:
  "uuidToBytes (bytesToUuid (replicate 16 0xAB)) = Inr (replicate 16 0xAB)"
  using uuid_roundtrip [of "replicate 16 0xAB" "[]"] by simp

text \<open>A text that does not fit its field is cut at a scalar value boundary, never inside a
  character: the field read back is the text's longest prefix of whole scalar values whose UTF-8
  encoding fits.\<close>

theorem writePadded_truncates:
  assumes "0 \<notin> set s" and "no_bom s"
  shows "\<exists>k \<le> length (to_scalars s).
    readTrimmed (writePadded n s) = of_scalars (take k (to_scalars s)) \<and>
    (k < length (to_scalars s) \<longrightarrow> n < length (concat (map utf8_scalar (take (Suc k) (to_scalars s)))))"
proof -
  let ?cs = "to_scalars s"
  obtain k where k: "k \<le> length ?cs" "encode_into n ?cs = concat (map utf8_scalar (take k ?cs))"
    "k < length ?cs \<longrightarrow> n < length (concat (map utf8_scalar (take (Suc k) ?cs)))"
    using encode_into_prefix by blast
  have sc: "\<And>c. c \<in> set (take k ?cs) \<Longrightarrow> is_scalar c \<and> c \<noteq> 0"
    using to_scalars_scalar [of _ s] to_scalars_no_zero [OF assms(1)] by (metis in_set_takeD)
  then have nz: "0 \<notin> set (concat (map utf8_scalar (take k ?cs)))"
    using utf8_scalar_no_zero by fastforce
  have "strip_bom (take k ?cs) = take k ?cs"
    by (rule strip_bom_take [OF strip_bom_id [OF assms(2)]])
  then have "text_decode (concat (map utf8_scalar (take k ?cs))) = of_scalars (take k ?cs)"
    using sc by (simp add: text_decode_def utf8_decode_scalars)
  then have "readTrimmed (writePadded n s) = of_scalars (take k ?cs)"
    using nz k(2) by (simp add: writePadded_def Let_def readTrimmed_padded)
  with k show ?thesis by blast
qed

theorem writePadded_truncates_witness:
  "let s = [0x61, 0x62, 0xD83D, 0xDE00, 0x63] in
   \<exists>k \<le> length (to_scalars s). readTrimmed (writePadded 5 s) = of_scalars (take k (to_scalars s)) \<and>
    (k < length (to_scalars s) \<longrightarrow> 5 < length (concat (map utf8_scalar (take (Suc k) (to_scalars s)))))"
  unfolding Let_def by (rule writePadded_truncates) (simp_all add: no_bom_def)

text \<open>\<open>globMatch\<close> decides the language of the pattern: the candidate is the pattern with each star
  replaced by some string; a pattern without a star matches itself only.\<close>

theorem globMatch_decides_lang:
  "(globMatch p c \<longleftrightarrow> glob_lang p c) \<and> (star \<notin> set p \<longrightarrow> (globMatch p c \<longleftrightarrow> c = p))"
  by (simp add: globMatch_lang glob_lang_literal)

theorem globMatch_decides_lang_witness:
  "globMatch (js_of ''orders:*'') (js_of ''orders:42'') \<and> \<not> globMatch (js_of ''orders'') (js_of ''order'')"
  using globMatch_decides_lang [of "js_of ''orders''" "js_of ''order''"]
  by (simp add: globMatch_def star_def)

end
