(* ===== verification/Chunking.thy ===== *)
theory Chunking
  imports Protocol Complex_Main
begin

text \<open>
  \<open>sdk-typescript/src/chunking.ts\<close>, the sending half: a payload longer than one frame is split by a
  binary search on the encoded length and each piece is prefixed with a small header; \<open>parseChunk\<close>
  recognises such a payload. \<open>Math.random()\<close> is a parameter that yields rationals in \<open>[0, 1)\<close>. The
  lemmas show that the search finds the longest piece within the budget, that the loop ends, that the
  pieces make up the payload again, that every chunk fits one frame and that its header is read back.
\<close>

section \<open>Constants\<close>

definition CHUNK_MARKER :: code_unit where "CHUNK_MARKER = 1"
definition MSG_ID_LEN :: nat where "MSG_ID_LEN = 4"
definition MSG_ID_CHARS :: js_string where
  "MSG_ID_CHARS = js_of ''abcdefghijklmnopqrstuvwxyz0123456789''"
definition HEADER_MAX_OVERHEAD :: nat where
  "HEADER_MAX_OVERHEAD = 1 + MSG_ID_LEN + 1 + 4 + 1 + 4 + 1"
definition DATA_BUDGET_PER_CHUNK :: nat where
  "DATA_BUDGET_PER_CHUNK = LEN_PAYLOAD - HEADER_MAX_OVERHEAD"
definition MAX_CHUNKS :: nat where "MAX_CHUNKS = 9999"
definition DEFAULT_MAX_MESSAGE_BYTES :: nat where "DEFAULT_MAX_MESSAGE_BYTES = 64 * 1024"
definition colon :: code_unit where "colon = 58"

lemmas chunk_consts = CHUNK_MARKER_def MSG_ID_LEN_def HEADER_MAX_OVERHEAD_def DATA_BUDGET_PER_CHUNK_def
  MAX_CHUNKS_def LEN_PAYLOAD_def colon_def

section \<open>Splitting\<close>

definition utf8ByteLength :: "js_string \<Rightarrow> nat" where
  "utf8ByteLength s = length (text_encode s)"

text \<open>Draw \<open>i\<close> of \<open>Math.random()\<close> is \<open>rnd i\<close>.\<close>

definition randomMsgId :: "(nat \<Rightarrow> rat) \<Rightarrow> js_string" where
  "randomMsgId rnd =
     map (\<lambda>i. MSG_ID_CHARS ! nat \<lfloor>rnd i * rat_of_nat (length MSG_ID_CHARS)\<rfloor>) [0..<MSG_ID_LEN]"

text \<open>The inner \<open>while\<close> of \<open>splitByByteBudget\<close>; its result is the last \<open>best\<close>.\<close>

function search_best :: "js_string \<Rightarrow> nat \<Rightarrow> int \<Rightarrow> int \<Rightarrow> int \<Rightarrow> int" where
  "search_best remaining budget lo hi best =
     (if lo \<le> hi then
        (let mid = (lo + hi) div 2 in
         if utf8ByteLength (take (nat mid) remaining) \<le> budget
         then search_best remaining budget (mid + 1) hi mid
         else search_best remaining budget lo (mid - 1) best)
      else best)"
  by pat_completeness auto
termination
  by (relation "measure (\<lambda>(_, _, lo, hi, _). nat (hi - lo + 1))") (auto simp: Let_def)

declare search_best.simps [simp del]

definition take_len :: "js_string \<Rightarrow> nat \<Rightarrow> nat" where
  "take_len remaining budget =
     (let best = search_best remaining budget 1 (int (length remaining)) 0 in
      if best = 0 then 1 else nat best)"

lemma search_best_nonneg:
  "0 \<le> best \<Longrightarrow> 1 \<le> lo \<Longrightarrow> 0 \<le> search_best r b lo hi best"
proof (induction r b lo hi best rule: search_best.induct)
  case (1 r b lo hi best)
  show ?case
  proof (cases "lo \<le> hi")
    case True
    with 1 show ?thesis
      by (subst search_best.simps) (auto simp: Let_def)
  next
    case False
    with 1 show ?thesis by (subst search_best.simps) simp
  qed
qed

lemma take_len_pos: "0 < take_len r b"
  using search_best_nonneg [of 0 1 r b "int (length r)"] by (auto simp: take_len_def Let_def)

text \<open>The outer \<open>while\<close>.\<close>

function splitByByteBudget :: "js_string \<Rightarrow> nat \<Rightarrow> js_string list" where
  "splitByByteBudget remaining budget =
     (if remaining = [] then []
      else take (take_len remaining budget) remaining #
           splitByByteBudget (drop (take_len remaining budget) remaining) budget)"
  by pat_completeness auto
termination
  by (relation "measure (\<lambda>(r, _). length r)") (auto simp: take_len_pos)

declare splitByByteBudget.simps [simp del]

section \<open>Encoding\<close>

text \<open>The template string of one chunk.\<close>

definition chunk_text :: "js_string \<Rightarrow> nat \<Rightarrow> nat \<Rightarrow> js_string \<Rightarrow> js_string" where
  "chunk_text msgId index tot piece =
     [CHUNK_MARKER] @ msgId @ [colon] @ js_of_nat index @ [colon] @ js_of_nat tot @ [colon] @ piece"

definition encodeChunks :: "(nat \<Rightarrow> rat) \<Rightarrow> js_string \<Rightarrow> nat \<Rightarrow> protocol_error + js_string list" where
  "encodeChunks rnd payload maxMessageBytes =
     (let totalBytes = utf8ByteLength payload in
      if totalBytes \<le> LEN_PAYLOAD then Inr [payload]
      else if totalBytes > maxMessageBytes then Inl (MessageTooLarge totalBytes maxMessageBytes)
      else (let pieces = splitByByteBudget payload DATA_BUDGET_PER_CHUNK in
        if length pieces > MAX_CHUNKS then Inl (TooManyChunks (length pieces))
        else (let msgId = randomMsgId rnd; tot = length pieces in
          Inr (map (\<lambda>(index, piece). chunk_text msgId index tot piece) (enumerate 0 pieces)))))"

section \<open>Parsing\<close>

record chunk_header =
  ch_msgId :: js_string
  ch_index :: nat
  ch_total :: nat
  ch_data :: js_string

definition parseChunk :: "js_string \<Rightarrow> chunk_header option" where
  "parseChunk payload =
     (if length payload < MSG_ID_LEN + 5 \<or> payload ! 0 \<noteq> CHUNK_MARKER then None
      else (let msgId = js_slice 1 (1 + MSG_ID_LEN) payload;
                rest = drop (1 + MSG_ID_LEN) payload in
        if rest ! 0 \<noteq> colon then None
        else (case index_of colon (drop 1 rest) of
            None \<Rightarrow> None
          | Some k \<Rightarrow>
              (let indexStr = take k (drop 1 rest); afterIndex = drop (k + 2) rest in
               case index_of colon afterIndex of
                 None \<Rightarrow> None
               | Some thirdColon \<Rightarrow>
                   (let totalStr = take thirdColon afterIndex;
                        data = drop (thirdColon + 1) afterIndex in
                    case (js_integer (js_Number indexStr), js_integer (js_Number totalStr)) of
                      (Some index, Some tot) \<Rightarrow>
                        if index < 0 \<or> tot \<le> 0 \<or> index \<ge> tot then None
                        else Some \<lparr>ch_msgId = msgId, ch_index = nat index, ch_total = nat tot,
                                   ch_data = data\<rparr>
                    | _ \<Rightarrow> None)))))"

section \<open>The binary search\<close>

lemma utf8ByteLength_mono: "i \<le> j \<Longrightarrow> utf8ByteLength (take i s) \<le> utf8ByteLength (take j s)"
  by (simp add: utf8ByteLength_def text_encode_take_mono)

text \<open>Invariant: everything up to \<open>best\<close> fits, nothing beyond \<open>hi\<close> does, and \<open>lo\<close> is next to try.\<close>

lemma search_best_spec:
  assumes "1 \<le> lo" "0 \<le> best" "best = lo - 1" "lo - 1 \<le> hi"
    and "utf8ByteLength (take (nat best) r) \<le> b"
    and "\<And>n. hi < int n \<Longrightarrow> n \<le> length r \<Longrightarrow> b < utf8ByteLength (take n r)"
    and "hi \<le> int (length r)"
  shows "let m = search_best r b lo hi best in
    0 \<le> m \<and> m \<le> int (length r) \<and> utf8ByteLength (take (nat m) r) \<le> b \<and>
    (\<forall>n. m < int n \<longrightarrow> n \<le> length r \<longrightarrow> b < utf8ByteLength (take n r))"
  using assms
proof (induction r b lo hi best rule: search_best.induct)
  case (1 r b lo hi best)
  show ?case
  proof (cases "lo \<le> hi")
    case False
    with "1.prems" show ?thesis by (subst search_best.simps) (auto simp: Let_def)
  next
    case True
    define mid where "mid = (lo + hi) div 2"
    have mid: "lo \<le> mid" "mid \<le> hi" using True by (auto simp: mid_def)
    show ?thesis
    proof (cases "utf8ByteLength (take (nat mid) r) \<le> b")
      case fit: True
      have eq: "search_best r b lo hi best = search_best r b (mid + 1) hi mid"
        using True fit by (subst search_best.simps) (simp add: Let_def mid_def)
      show ?thesis unfolding eq
        using "1.IH"(1) [OF True mid_def] fit mid "1.prems" by auto
    next
      case over: False
      have eq: "search_best r b lo hi best = search_best r b lo (mid - 1) best"
        using True over by (subst search_best.simps) (simp add: Let_def mid_def)
      have "b < utf8ByteLength (take n r)" if "mid - 1 < int n" for n
        using over utf8ByteLength_mono [of "nat mid" n r] that by linarith
      then show ?thesis unfolding eq
        using "1.IH"(2) [OF True mid_def] over mid "1.prems" by auto
    qed
  qed
qed

lemma utf8ByteLength_Nil [simp]: "utf8ByteLength [] = 0"
  by (simp add: utf8ByteLength_def text_encode_def)

lemma take_len_greedy:
  assumes "3 \<le> b" "r \<noteq> []"
  shows "take_len r b \<le> length r" "utf8ByteLength (take (take_len r b) r) \<le> b"
    "\<And>n. take_len r b < n \<Longrightarrow> n \<le> length r \<Longrightarrow> b < utf8ByteLength (take n r)"
proof -
  let ?m = "search_best r b 1 (int (length r)) 0"
  have spec: "0 \<le> ?m \<and> ?m \<le> int (length r) \<and> utf8ByteLength (take (nat ?m) r) \<le> b \<and>
    (\<forall>n. ?m < int n \<longrightarrow> n \<le> length r \<longrightarrow> b < utf8ByteLength (take n r))"
    using search_best_spec [of 1 0 "int (length r)" r b] by (simp add: Let_def)
  have "utf8ByteLength (take 1 r) \<le> b"
    using length_text_encode_le [of "take 1 r"] assms by (simp add: utf8ByteLength_def)
  then have "?m \<noteq> 0" using spec assms(2) by (metis One_nat_def Suc_leI leD length_greater_0_conv
        of_nat_1 zero_less_one)
  then have t: "take_len r b = nat ?m" by (simp add: take_len_def Let_def)
  from spec show "take_len r b \<le> length r" "utf8ByteLength (take (take_len r b) r) \<le> b"
    "\<And>n. take_len r b < n \<Longrightarrow> n \<le> length r \<Longrightarrow> b < utf8ByteLength (take n r)"
    unfolding t by auto
qed

section \<open>The pieces\<close>

lemma split_Nil [simp]: "splitByByteBudget [] b = []"
  by (subst splitByByteBudget.simps) simp

lemma concat_split: "concat (splitByByteBudget s b) = s"
proof (induction s b rule: splitByByteBudget.induct)
  case (1 r b)
  then show ?case by (cases "r = []") (simp_all add: splitByByteBudget.simps [of r b] del: concat_eq_Nil_conv)
qed

lemma split_nonempty: "p \<in> set (splitByByteBudget s b) \<Longrightarrow> p \<noteq> []"
proof (induction s b rule: splitByByteBudget.induct)
  case (1 r b)
  then show ?case using take_len_pos [of r b]
    by (cases "r = []") (auto simp: splitByByteBudget.simps [of r b])
qed

lemma split_budget: "3 \<le> b \<Longrightarrow> p \<in> set (splitByByteBudget s b) \<Longrightarrow> utf8ByteLength p \<le> b"
proof (induction s b rule: splitByByteBudget.induct)
  case (1 r b)
  then show ?case using take_len_greedy(2) [of b r]
    by (cases "r = []") (auto simp: splitByByteBudget.simps [of r b])
qed

lemma split_units: "p \<in> set (splitByByteBudget s b) \<Longrightarrow> set p \<subseteq> set s"
  using concat_split [of s b] by (metis UN_upper set_concat)

section \<open>Headers\<close>

lemma MSG_ID_CHARS_range: "u \<in> set MSG_ID_CHARS \<Longrightarrow> 48 \<le> unat u \<and> unat u < 123"
  by (auto simp: MSG_ID_CHARS_def)

lemma length_MSG_ID_CHARS [simp]: "length MSG_ID_CHARS = 36"
  by (simp add: MSG_ID_CHARS_def del: js_of_simps)

lemma length_randomMsgId [simp]: "length (randomMsgId rnd) = 4"
  by (simp add: randomMsgId_def MSG_ID_LEN_def)

definition random_unit :: "(nat \<Rightarrow> rat) \<Rightarrow> bool" where
  "random_unit rnd \<longleftrightarrow> (\<forall>i. 0 \<le> rnd i \<and> rnd i < 1)"

lemma randomMsgId_chars: "random_unit rnd \<Longrightarrow> set (randomMsgId rnd) \<subseteq> set MSG_ID_CHARS"
proof -
  assume "random_unit rnd"
  then have "nat \<lfloor>rnd i * 36\<rfloor> < 36" for i
    by (simp add: random_unit_def nat_less_iff floor_less_iff)
  then show ?thesis by (auto simp: randomMsgId_def intro!: nth_mem)
qed

lemma digit_not_colon: "is_digit u \<Longrightarrow> u \<noteq> colon"
  by (auto simp: is_digit_def colon_def)

lemma colon_not_in_js_of_nat: "colon \<notin> set (js_of_nat n)"
  using js_of_nat_digits digit_not_colon by blast

lemma parse_chunk_text:
  assumes "length m = 4" "i < n" "n < 2 ^ 53"
  shows "parseChunk (chunk_text m i n p) = Some \<lparr>ch_msgId = m, ch_index = i, ch_total = n, ch_data = p\<rparr>"
proof -
  let ?rest = "[colon] @ js_of_nat i @ [colon] @ js_of_nat n @ [colon] @ p"
  have "0 < length (js_of_nat i)" "0 < length (js_of_nat n)" by simp_all
  then have len: "\<not> length (chunk_text m i n p) < MSG_ID_LEN + 5"
    using assms(1) unfolding chunk_text_def MSG_ID_LEN_def by (simp del: length_greater_0_conv)
  have rest: "drop (1 + MSG_ID_LEN) (chunk_text m i n p) = ?rest"
    and slice: "js_slice 1 (1 + MSG_ID_LEN) (chunk_text m i n p) = m"
    and hd: "chunk_text m i n p ! 0 = CHUNK_MARKER"
    using assms(1) by (simp_all add: chunk_text_def MSG_ID_LEN_def js_slice_def)
  have k1: "index_of colon (drop 1 ?rest) = Some (length (js_of_nat i))"
    by (simp add: colon_not_in_js_of_nat)
  have after: "drop (length (js_of_nat i) + 2) ?rest = js_of_nat n @ [colon] @ p" by simp
  have k2: "index_of colon (js_of_nat n @ [colon] @ p) = Some (length (js_of_nat n))"
    by (simp add: colon_not_in_js_of_nat)
  have i: "js_integer (js_Number (js_of_nat i)) = Some (int i)"
    and n: "js_integer (js_Number (js_of_nat n)) = Some (int n)"
    using assms by (simp_all add: js_Number_js_of_nat)
  have ti: "take (length (js_of_nat i)) (drop 1 ?rest) = js_of_nat i" by simp
  show ?thesis
    unfolding parseChunk_def Let_def rest slice hd k1 option.case after k2
    using len i n assms(2) by (simp add: ti)
qed

lemma split_maximal:
  assumes "3 \<le> b" "splitByByteBudget s b = ps @ p # q # qs"
  shows "b < utf8ByteLength (p @ [hd q])"
  using assms
proof (induction s b arbitrary: ps rule: splitByByteBudget.induct)
  case (1 r b)
  have r: "r \<noteq> []" using "1.prems" by auto
  let ?n = "take_len r b" let ?t = "drop ?n r"
  have eq: "take ?n r # splitByByteBudget ?t b = ps @ p # q # qs"
    using "1.prems"(2) r by (simp add: splitByByteBudget.simps [of r b])
  show ?case
  proof (cases ps)
    case Nil
    with eq have p: "p = take ?n r" and rest: "splitByByteBudget ?t b = q # qs" by auto
    then have t: "?t \<noteq> []" by auto
    then have lt: "?n < length r" by simp
    have "q = take (take_len ?t b) ?t"
      using rest t splitByByteBudget.simps [of ?t b] by simp
    then have "hd q = hd ?t" using take_len_pos [of ?t b] by (simp add: hd_take)
    then have "p @ [hd q] = take (Suc ?n) r" using p lt by (simp add: hd_drop_conv_nth take_Suc_conv_app_nth)
    then show ?thesis using take_len_greedy(3) [of b r "Suc ?n"] "1.prems"(1) r lt by simp
  next
    case (Cons a as)
    then show ?thesis using eq "1.IH" [OF r "1.prems"(1), of as] by simp
  qed
qed

lemma split_long_pieces:
  assumes "3 \<le> b" "splitByByteBudget s b = ps @ p # q # qs"
  shows "b \<le> 3 * length p + 2"
proof -
  have "b < length (text_encode (p @ [hd q]))"
    using split_maximal [OF assms] by (simp add: utf8ByteLength_def)
  also have "\<dots> \<le> 3 * length (p @ [hd q])" by (rule length_text_encode_le)
  finally show ?thesis by simp
qed

text \<open>Every piece but the last holds at least \<open>k\<close> code units, so their number is bounded.\<close>

lemma length_concat_ge:
  assumes "\<And>us p q vs. ps = us @ p # q # vs \<Longrightarrow> k \<le> length p"
  shows "k * (length ps - 1) \<le> length (concat ps)"
  using assms
proof (induction ps)
  case (Cons p ps)
  show ?case
  proof (cases ps)
    case (Cons q qs)
    have "k * (length ps - 1) \<le> length (concat ps)"
      by (rule Cons.IH) (use Cons.prems in \<open>metis append_Cons\<close>)
    moreover have "k \<le> length p" using Cons.prems [of "[]" p q qs] Cons by simp
    ultimately show ?thesis using Cons by simp
  qed simp
qed simp

lemma split_count: "65 * (length (splitByByteBudget s DATA_BUDGET_PER_CHUNK) - 1) \<le> length s"
proof -
  have "65 * (length (splitByByteBudget s DATA_BUDGET_PER_CHUNK) - 1)
      \<le> length (concat (splitByByteBudget s DATA_BUDGET_PER_CHUNK))"
    by (rule length_concat_ge, drule split_long_pieces [rotated]) (simp_all add: chunk_consts)
  then show ?thesis by (simp add: concat_split)
qed

section \<open>The chunks\<close>

definition chunk_head :: "js_string \<Rightarrow> nat \<Rightarrow> nat \<Rightarrow> js_string" where
  "chunk_head m i n = [CHUNK_MARKER] @ m @ [colon] @ js_of_nat i @ [colon] @ js_of_nat n @ [colon]"

lemma chunk_text_head: "chunk_text m i n p = chunk_head m i n @ p"
  by (simp add: chunk_text_def chunk_head_def)

lemma digit_ascii: "is_digit u \<Longrightarrow> unat u < 0x80"
  by (simp add: is_digit_def word_le_nat_alt)

lemma chunk_head_ascii:
  "random_unit rnd \<Longrightarrow> u \<in> set (chunk_head (randomMsgId rnd) i n) \<Longrightarrow> unat u < 0x80"
  using randomMsgId_chars [of rnd] MSG_ID_CHARS_range [of u] js_of_nat_digits [of u i]
    js_of_nat_digits [of u n] digit_ascii [of u]
  by (auto simp: chunk_head_def CHUNK_MARKER_def colon_def)

lemma chunk_head_length: "i < 10000 \<Longrightarrow> n < 10000 \<Longrightarrow> length (chunk_head (randomMsgId rnd) i n) \<le> HEADER_MAX_OVERHEAD"
  using length_js_of_nat [of i 4] length_js_of_nat [of n 4]
  by (simp add: chunk_head_def chunk_consts)

lemma encodeChunks_cases:
  assumes "encodeChunks rnd payload mx = Inr cs"
  obtains (single) "utf8ByteLength payload \<le> LEN_PAYLOAD" "cs = [payload]"
  | (split) pieces where "LEN_PAYLOAD < utf8ByteLength payload" "utf8ByteLength payload \<le> mx"
      "pieces = splitByByteBudget payload DATA_BUDGET_PER_CHUNK" "length pieces \<le> MAX_CHUNKS"
      "length cs = length pieces"
      "\<And>i. i < length pieces \<Longrightarrow> cs ! i = chunk_text (randomMsgId rnd) i (length pieces) (pieces ! i)"
  using assms
  by (auto simp: encodeChunks_def Let_def nth_enumerate_eq not_le not_less split: if_splits)

section \<open>Concrete splits\<close>

text \<open>The search need not be replayed to know its result: the first piece is the longest that fits.\<close>

lemma split_step:
  assumes "3 \<le> b" "0 < n" "n \<le> length r" "utf8ByteLength (take n r) \<le> b"
    "n < length r \<Longrightarrow> b < utf8ByteLength (take (Suc n) r)"
  shows "splitByByteBudget r b = take n r # splitByByteBudget (drop n r) b"
proof -
  have r: "r \<noteq> []" using assms by auto
  note g = take_len_greedy [OF assms(1) r]
  have "\<not> take_len r b < n" using g(3) [of n] assms by auto
  moreover have "\<not> n < take_len r b"
    using assms(5) g(1,2) utf8ByteLength_mono [of "Suc n" "take_len r b" r] by force
  ultimately have "take_len r b = n" by simp
  then show ?thesis using r by (simp add: splitByByteBudget.simps [of r b])
qed

lemma split_whole:
  "3 \<le> b \<Longrightarrow> r \<noteq> [] \<Longrightarrow> utf8ByteLength r \<le> b \<Longrightarrow> splitByByteBudget r b = [r]"
  using split_step [of b "length r" r] by simp

lemma utf8ByteLength_replicate: "utf8ByteLength (replicate n 97) = n"
  using length_text_encode_ascii [of "replicate n 97"] by (auto simp: utf8ByteLength_def)

lemma utf8ByteLength_replicate_append: "utf8ByteLength (replicate n 97 @ s) = n + utf8ByteLength s"
  using length_text_encode_ascii_append [of "replicate n 97" s] by (auto simp: utf8ByteLength_def)

lemma encodeChunks_sample:
  obtains chunks where "encodeChunks (\<lambda>_. 0) (replicate 300 97) 1000 = Inr chunks" "length chunks = 2"
proof -
  have "splitByByteBudget (replicate 300 97) DATA_BUDGET_PER_CHUNK = [replicate 195 97, replicate 105 97]"
    using split_step [of 195 195 "replicate 300 97"] split_whole [of 195 "replicate 105 97"]
    by (simp add: chunk_consts utf8ByteLength_replicate min_def)
  then show ?thesis
    using that by (simp add: encodeChunks_def Let_def utf8ByteLength_replicate LEN_PAYLOAD_def MAX_CHUNKS_def)
qed

lemma chunk_within_frame:
  assumes "random_unit rnd" "encodeChunks rnd payload maxMessageBytes = Inr chunks" "c \<in> set chunks"
  shows "utf8ByteLength c \<le> LEN_PAYLOAD"
  using assms(2)
proof (cases rule: encodeChunks_cases)
  case single
  then show ?thesis using assms(3) by simp
next
  case (split pieces)
  from assms(3) split(5) obtain i where i: "i < length pieces" "c = chunks ! i"
    by (metis in_set_conv_nth)
  let ?h = "chunk_head (randomMsgId rnd) i (length pieces)"
  have "c = ?h @ pieces ! i" using i split(6) by (simp add: chunk_text_head)
  then have "utf8ByteLength c = length ?h + utf8ByteLength (pieces ! i)"
    using length_text_encode_ascii_append [of ?h "pieces ! i"] chunk_head_ascii [OF assms(1)]
    by (simp add: utf8ByteLength_def)
  moreover have "utf8ByteLength (pieces ! i) \<le> DATA_BUDGET_PER_CHUNK"
    using split_budget [of DATA_BUDGET_PER_CHUNK "pieces ! i" payload] i split(3) by (simp add: chunk_consts)
  moreover have "length ?h \<le> HEADER_MAX_OVERHEAD"
    using chunk_head_length i split(4) by (simp add: chunk_consts)
  ultimately show ?thesis by (simp add: chunk_consts)
qed

lemma parse_encoded_chunks:
  assumes "encodeChunks rnd payload maxMessageBytes = Inr chunks" "LEN_PAYLOAD < utf8ByteLength payload"
  shows "\<exists>pieces. concat pieces = payload \<and> length pieces = length chunks \<and>
    (\<forall>i < length chunks. parseChunk (chunks ! i) =
       Some \<lparr>ch_msgId = randomMsgId rnd, ch_index = i, ch_total = length chunks, ch_data = pieces ! i\<rparr>)"
  using assms(1)
proof (cases rule: encodeChunks_cases)
  case single
  then show ?thesis using assms(2) by simp
next
  case (split pieces)
  have "length pieces < 2 ^ 53" using split(4) by (simp add: chunk_consts)
  then have "parseChunk (chunks ! i) = Some \<lparr>ch_msgId = randomMsgId rnd, ch_index = i,
      ch_total = length chunks, ch_data = pieces ! i\<rparr>" if "i < length chunks" for i
    using parse_chunk_text [of "randomMsgId rnd" i "length pieces" "pieces ! i"] split that by simp
  moreover have "concat pieces = payload" using split(3) by (simp add: concat_split)
  ultimately show ?thesis using split(5) by auto
qed

section \<open>Properties\<close>

text \<open>
  C14. The splitter loses nothing and is greedy: the pieces concatenate to the text, none is empty, each
  encodes within the budget, and no piece can be extended by the next code unit without
  exceeding it. (The budget must hold one code unit, at most three bytes.)
\<close>

theorem splitByByteBudget_spec:
  assumes "3 \<le> budget"
  shows "concat (splitByByteBudget text budget) = text \<and>
    (\<forall>p \<in> set (splitByByteBudget text budget). p \<noteq> [] \<and> utf8ByteLength p \<le> budget) \<and>
    (\<forall>us p q vs. splitByByteBudget text budget = us @ p # q # vs \<longrightarrow> budget < utf8ByteLength (p @ [hd q]))"
  using concat_split split_nonempty split_budget [OF assms] split_maximal [OF assms] by blast

theorem splitByByteBudget_spec_witness:
  "splitByByteBudget (js_of ''abcdefg'') 3 = [js_of ''abc'', js_of ''def'', js_of ''g''] \<and>
   3 < utf8ByteLength (js_of ''def'' @ [hd (js_of ''g'')])"
proof -
  have eq: "splitByByteBudget (js_of ''abcdefg'') 3 = [js_of ''abc'', js_of ''def'', js_of ''g'']"
    by code_simp
  have "3 < utf8ByteLength (js_of ''def'' @ [hd (js_of ''g'')])"
    using splitByByteBudget_spec [of 3 "js_of ''abcdefg''"] eq
    by (metis append_Cons append_Nil order_refl)
  with eq show ?thesis by blast
qed

text \<open>
  C4. Every payload \<open>encodeChunks\<close> returns fits the 211 bytes of a frame's payload field, so that
  \<open>writePadded\<close> truncates none of them: the pessimistic header reservation is enough for all
  the chunk counts the function accepts.
\<close>

theorem encodeChunks_fit_frame:
  assumes "random_unit rnd" "encodeChunks rnd payload maxMessageBytes = Inr chunks" "c \<in> set chunks"
  shows "utf8ByteLength c \<le> LEN_PAYLOAD"
  using assms by (rule chunk_within_frame)

theorem encodeChunks_fit_frame_witness:
  "\<exists>chunks. encodeChunks (\<lambda>_. 0) (replicate 300 97) 1000 = Inr chunks \<and> length chunks = 2 \<and>
     utf8ByteLength (chunks ! 0) \<le> LEN_PAYLOAD"
proof -
  obtain chunks where c: "encodeChunks (\<lambda>_. 0) (replicate 300 97) 1000 = Inr chunks" "length chunks = 2"
    by (rule encodeChunks_sample)
  have "random_unit (\<lambda>_. 0)" by (simp add: random_unit_def)
  from encodeChunks_fit_frame [OF this c(1)] c show ?thesis by simp
qed

text \<open>
  Splitting never meets the chunk-count limit below 649,935 bytes, so with the default limit of
  64 KiB the only error is the size error: a message is accepted exactly when it fits one frame
  or the configured limit.
\<close>

theorem encodeChunks_accepts_iff:
  assumes "maxMessageBytes < 649935"
  shows "encodeChunks rnd payload maxMessageBytes =
      Inl (MessageTooLarge (utf8ByteLength payload) maxMessageBytes) \<and>
      max LEN_PAYLOAD maxMessageBytes < utf8ByteLength payload \<or>
    (\<exists>chunks. encodeChunks rnd payload maxMessageBytes = Inr chunks) \<and>
      utf8ByteLength payload \<le> max LEN_PAYLOAD maxMessageBytes"
proof -
  have "length (splitByByteBudget payload DATA_BUDGET_PER_CHUNK) \<le> MAX_CHUNKS"
    if "utf8ByteLength payload \<le> maxMessageBytes"
    using split_count [of payload] length_text_encode_ge [of payload] that assms
    by (simp add: chunk_consts utf8ByteLength_def)
  then show ?thesis by (auto simp: encodeChunks_def Let_def)
qed

theorem encodeChunks_accepts_iff_witness:
  "encodeChunks (\<lambda>_. 0) (replicate 300 97) 256 = Inl (MessageTooLarge 300 256)"
proof -
  have len: "utf8ByteLength (replicate 300 97) = 300"
    using length_text_encode_ascii [of "replicate 300 97"] by (simp add: utf8ByteLength_def)
  show ?thesis
    using encodeChunks_accepts_iff [of 256 "\<lambda>_. 0" "replicate 300 97"] by (simp add: len LEN_PAYLOAD_def)
qed

text \<open>
  The header round trip: each payload that \<open>encodeChunks\<close> makes of a long message is recognised
  by \<open>parseChunk\<close>, with the shared message id, its own index, the number of chunks and its piece of the
  message; together the pieces are the message.
\<close>

theorem parseChunk_encodeChunks:
  assumes "encodeChunks rnd payload maxMessageBytes = Inr chunks" "LEN_PAYLOAD < utf8ByteLength payload"
  shows "\<exists>pieces. concat pieces = payload \<and> length pieces = length chunks \<and>
    (\<forall>i < length chunks. parseChunk (chunks ! i) =
       Some \<lparr>ch_msgId = randomMsgId rnd, ch_index = i, ch_total = length chunks, ch_data = pieces ! i\<rparr>)"
  using assms by (rule parse_encoded_chunks)

theorem parseChunk_encodeChunks_witness:
  "\<exists>chunks. encodeChunks (\<lambda>_. 0) (replicate 300 97) 1000 = Inr chunks \<and>
     map_option ch_index (parseChunk (chunks ! 1)) = Some 1"
proof -
  obtain chunks where c: "encodeChunks (\<lambda>_. 0) (replicate 300 97) 1000 = Inr chunks" "length chunks = 2"
    by (rule encodeChunks_sample)
  have "LEN_PAYLOAD < utf8ByteLength (replicate 300 97)" by (simp add: LEN_PAYLOAD_def utf8ByteLength_replicate)
  from parseChunk_encodeChunks [OF c(1) this] c(2)
  have "map_option ch_index (parseChunk (chunks ! 1)) = Some 1" by fastforce
  with c(1) show ?thesis by blast
qed

lemma plain_letters:
  "well_formed (replicate n 97)" "to_scalars (replicate n 97 @ s) = replicate n 97 @ to_scalars s" "of_scalars (replicate n 97 @ cs) = replicate n 97 @ of_scalars cs"
proof -
  have l: "\<not> is_high (97 :: code_unit)" "\<not> is_low (97 :: code_unit)" "unit_scalar 97 = 97" "of_scalar 97 = [97]" by code_simp+
  show wf: "well_formed (replicate n 97)"
  proof (induction n)
    case (Suc n)
    then show ?case using l by (cases n) simp_all
  qed simp
  have "\<not> cuts_pair (replicate n 97) s" using l by (auto simp: cuts_pair_def)
  moreover have "to_scalars (replicate n (97 :: code_unit)) = replicate n 97"
  proof (induction n)
    case (Suc n)
    then show ?case using l by (cases n) simp_all
  qed simp
  ultimately show "to_scalars (replicate n 97 @ s) = replicate n 97 @ to_scalars s" by (simp add: to_scalars_append)
  show "of_scalars (replicate n 97 @ cs) = replicate n 97 @ of_scalars cs" by (induction n) (simp_all add: of_scalars_def l)
qed

text \<open>
  The comment on \<open>splitByByteBudget\<close> promises never to cut a code point. It does: an unpaired high
  surrogate encodes as three bytes, one less than the pair it begins, so a piece can end between
  the two halves of an emoji. Each half is then encoded as U+FFFD and the receiver cannot get the text back.
\<close>

theorem split_cuts_surrogate_pair:
  "let text = replicate 192 97 @ [0xD83D, 0xDE00] @ replicate 20 97;
       pieces = splitByByteBudget text DATA_BUDGET_PER_CHUNK in
   well_formed text \<and> cuts_pair (pieces ! 0) (pieces ! 1) \<and>
   text_decode (text_encode (pieces ! 0)) = replicate 192 97 @ [0xFFFD] \<and>
   text_decode (text_encode (pieces ! 1)) = [0xFFFD] @ replicate 20 97"
proof -
  let ?t = "replicate 192 97 @ [0xD83D, 0xDE00] @ replicate 20 97 :: js_string"
  let ?p = "replicate 192 97 @ [0xD83D] :: js_string" let ?q = "0xDE00 # replicate 20 97 :: js_string"
  have b: "DATA_BUDGET_PER_CHUNK = 195" by (simp add: chunk_consts)
  have h: "utf8ByteLength [0xD83D] = 3" "utf8ByteLength [0xD83D, 0xDE00] = 4" by code_simp+
  have tk: "take 193 ?t = ?p" "take (Suc 193) ?t = replicate 192 97 @ [0xD83D, 0xDE00]" "drop 193 ?t = ?q"
    by (simp_all add: take_append)
  have "splitByByteBudget ?t 195 = ?p # splitByByteBudget ?q 195"
    using split_step [of 195 193 ?t] unfolding tk by (simp add: utf8ByteLength_replicate_append h)
  also have "splitByByteBudget ?q 195 = [?q]"
    using length_text_encode_le [of ?q] by (intro split_whole) (simp_all add: utf8ByteLength_def)
  finally have pieces: "splitByByteBudget ?t DATA_BUDGET_PER_CHUNK = [?p, ?q]" by (simp only: b)
  have e: "is_high 0xD83D" "is_low 0xDE00" "\<not> is_high 0xDE00" "to_scalars [0xD83D] = [0xFFFD]" "of_scalars [0xFFFD] = [0xFFFD]" "well_formed [0xD83D, 0xDE00]" "of_scalar 0xFFFD = [0xFFFD]"
    "unit_scalar 0xDE00 = 0xFFFD"
    by code_simp+
  have w: "well_formed (replicate 192 97 @ [0xD83D, 0xDE00] @ replicate 20 97)" by (simp only: well_formed_append plain_letters(1) e)
  have k: "cuts_pair (replicate 192 97 @ [0xD83D]) (0xDE00 # replicate 20 97)" using e by (simp add: cuts_pair_def)
  have "0 < n \<Longrightarrow> strip_bom (replicate n 97 @ cs) = replicate n 97 @ cs" for n cs by (cases n) (simp_all add: strip_bom_def)
  then have sb: "strip_bom (replicate 192 97 @ cs) = replicate 192 97 @ cs" for cs by simp
  have d1: "text_decode (text_encode (replicate 192 97 @ [0xD83D])) = replicate 192 97 @ [0xFFFD]"
    unfolding text_decode_def utf8_decode_encode plain_letters(2) sb e(4) plain_letters(3) e(5) ..
  have "to_scalars (0xDE00 # replicate 20 97) = 0xFFFD # replicate 20 97"
    using plain_letters(2) [of 20 "[]"] to_scalars_append [of "[0xDE00]" "replicate 20 97"] e by (simp add: cuts_pair_def)
  then have d2: "text_decode (text_encode (0xDE00 # replicate 20 97)) = [0xFFFD] @ replicate 20 97"
    using plain_letters(3) [of 20 "[]"] e by (simp add: text_decode_def utf8_decode_encode strip_bom_def of_scalars_def)
  show ?thesis using w k d1 d2 unfolding Let_def pieces by simp
qed

end
