(* ===== verification/Reassembly.thy ===== *)
theory Reassembly
  imports Chunking
begin

text \<open>
  \<open>sdk-typescript/src/chunking.ts\<close>, the receiving half: \<open>ChunkReassembler\<close>. The state is the
  \<open>pending\<close> map from message ids to partial messages; \<open>feed\<close> sweeps the stale entries, files the
  chunk, and returns the text once as many parts as announced are there. The clock is an argument: \<open>feed\<close>
  reads \<open>Date.now()\<close> twice, once in \<open>sweepStale\<close> and once for a new entry.

  Shown: the invariant of the pending map, that the entry of a message depends on the chunks
  of that message only, and that the chunks of a message in any order, with duplicates, and
  interleaved with those of other messages give its text exactly when the last one arrives.
\<close>

section \<open>State and operations\<close>

record pending_reassembly =
  pd_total :: nat
  pd_parts :: "(nat, js_string) jmap"
  pd_firstSeenAt :: int

type_synonym reassembler = "(js_string, pending_reassembly) jmap"

definition REASSEMBLY_TTL_MS :: int where "REASSEMBLY_TTL_MS = 30000"

definition fresh :: "int \<Rightarrow> pending_reassembly \<Rightarrow> bool" where
  "fresh now entry \<longleftrightarrow> \<not> (now - pd_firstSeenAt entry > REASSEMBLY_TTL_MS)"

definition sweepStale :: "int \<Rightarrow> reassembler \<Rightarrow> reassembler" where
  "sweepStale now pending = filter (\<lambda>(id, entry). fresh now entry) pending"

text \<open>The \<open>for\<close> loop over the part numbers: a missing part counts as the empty string.\<close>

definition join_parts :: "nat \<Rightarrow> (nat, js_string) jmap \<Rightarrow> js_string" where
  "join_parts n parts =
     concat (map (\<lambda>i. case jget parts i of None \<Rightarrow> [] | Some s \<Rightarrow> s) [0..<n])"

definition feed :: "int \<Rightarrow> int \<Rightarrow> chunk_header \<Rightarrow> reassembler \<Rightarrow> reassembler \<times> js_string option" where
  "feed now now' header pending0 =
     (let pending = sweepStale now pending0;
          entry0 = (case jget pending (ch_msgId header) of
              None \<Rightarrow> \<lparr>pd_total = ch_total header, pd_parts = [], pd_firstSeenAt = now'\<rparr>
            | Some e \<Rightarrow> e);
          entry = entry0\<lparr>pd_parts := jset (ch_index header) (ch_data header) (pd_parts entry0)\<rparr>
      in if length (jkeys (pd_parts entry)) < pd_total entry
         then (jset (ch_msgId header) entry pending, None)
         else (jdelete (ch_msgId header) pending, Some (join_parts (pd_total entry) (pd_parts entry))))"

text \<open>A history of \<open>feed\<close> calls, each with its two clock readings.\<close>

type_synonym feed_call = "int \<times> int \<times> chunk_header"

fun feed_all :: "feed_call list \<Rightarrow> reassembler \<Rightarrow> js_string option list" where
  "feed_all [] st = []"
| "feed_all ((now, now', h) # calls) st =
     (let (st', out) = feed now now' h st in out # feed_all calls st')"

section \<open>The invariant\<close>

definition entry_ok :: "pending_reassembly \<Rightarrow> bool" where
  "entry_ok e \<longleftrightarrow> jmap_ok (pd_parts e) \<and> pd_parts e \<noteq> [] \<and> length (pd_parts e) < pd_total e"

definition reassembler_ok :: "reassembler \<Rightarrow> bool" where
  "reassembler_ok pending \<longleftrightarrow> jmap_ok pending \<and> (\<forall>k e. jget pending k = Some e \<longrightarrow> entry_ok e)"

lemma jget_sweepStale:
  "jmap_ok pending \<Longrightarrow> jget (sweepStale now pending) k =
     (case jget pending k of None \<Rightarrow> None | Some e \<Rightarrow> if fresh now e then Some e else None)"
  by (simp add: sweepStale_def jget_filter)

lemma jmap_ok_sweepStale: "jmap_ok pending \<Longrightarrow> jmap_ok (sweepStale now pending)"
  by (simp add: sweepStale_def jmap_ok_filter)

lemma length_jkeys [simp]: "length (jkeys m) = length m"
  by (simp add: jkeys_def)

lemma jset_not_Nil [simp]: "jset k v m \<noteq> []"
  using jm.key_set_iff [of k k v m] by auto

lemma sweepStale_ok: "reassembler_ok pending \<Longrightarrow> reassembler_ok (sweepStale now pending)"
  by (auto simp: reassembler_ok_def jget_sweepStale jmap_ok_sweepStale split: option.splits if_splits)

lemma feed_ok: "reassembler_ok st \<Longrightarrow> reassembler_ok (fst (feed now now' h st))"
  using sweepStale_ok [of st now]
  by (auto simp: feed_def Let_def reassembler_ok_def entry_ok_def jmap_simps jmap_ok_intros
      split: option.splits if_splits)

interpretation ra: guarded_machine "[] :: reassembler" "\<lambda>(now, now', h) st. fst (feed now now' h st)" reassembler_ok
  by unfold_locales (auto simp: feed_ok, simp add: reassembler_ok_def)

section \<open>Chunks of one message\<close>

text \<open>\<open>feed\<close> as seen by one message id: other ids only sweep its entry.\<close>

lemma jget_feed_other:
  "reassembler_ok st \<Longrightarrow> ch_msgId h \<noteq> m \<Longrightarrow>
   jget (fst (feed now now' h st)) m = jget (sweepStale now st) m"
  by (simp add: feed_def Let_def jmap_simps)

text \<open>What the entry of a message holds after the parts \<open>got\<close> of it have arrived.\<close>

definition holds_parts :: "(nat \<Rightarrow> js_string) \<Rightarrow> nat \<Rightarrow> int \<Rightarrow> nat set \<Rightarrow> pending_reassembly option \<Rightarrow> bool" where
  "holds_parts piece n t0 got eo \<longleftrightarrow>
     (case eo of None \<Rightarrow> got = {}
      | Some e \<Rightarrow> got \<noteq> {} \<and> pd_total e = n \<and> t0 \<le> pd_firstSeenAt e \<and> jmap_ok (pd_parts e) \<and>
          (\<forall>i. jget (pd_parts e) i = (if i \<in> got then Some (piece i) else None)))"

lemma holds_parts_size:
  assumes "holds_parts piece n t0 got (Some e)"
  shows "length (pd_parts e) = card got"
proof -
  have "{k. jget (pd_parts e) k \<noteq> None} = got"
    using assms by (auto simp: holds_parts_def split: if_splits)
  then show ?thesis using assms jm.size_card [of "pd_parts e"] by (simp add: holds_parts_def)
qed

lemma holds_parts_sweep:
  assumes "reassembler_ok st" "holds_parts piece n t0 got (jget st m)" "now \<le> t0 + REASSEMBLY_TTL_MS"
  shows "jget (sweepStale now st) m = jget st m"
  using assms by (auto simp: jget_sweepStale reassembler_ok_def holds_parts_def fresh_def split: option.splits)

lemma join_parts_all:
  assumes "\<And>i. i < n \<Longrightarrow> jget parts i = Some (piece i)"
  shows "join_parts n parts = concat (map piece [0..<n])"
  unfolding join_parts_def using assms by (intro arg_cong [of _ _ concat] map_cong) auto

lemma feed_own_part:
  assumes ok: "reassembler_ok st" and held: "holds_parts piece n t0 got (jget st m)"
    and time: "now \<le> t0 + REASSEMBLY_TTL_MS" "t0 \<le> now'" and got: "got \<subseteq> {..<n}" and i: "i < n"
    and h: "h = \<lparr>ch_msgId = m, ch_index = i, ch_total = n, ch_data = piece i\<rparr>"
  shows "if insert i got = {..<n} then snd (feed now now' h st) = Some (concat (map piece [0..<n]))
    else snd (feed now now' h st) = None \<and>
      holds_parts piece n t0 (insert i got) (jget (fst (feed now now' h st)) m)"
proof -
  define e0 where "e0 = (case jget (sweepStale now st) m of
      None \<Rightarrow> \<lparr>pd_total = n, pd_parts = [], pd_firstSeenAt = now'\<rparr> | Some e \<Rightarrow> e)"
  define e where "e = e0\<lparr>pd_parts := jset i (piece i) (pd_parts e0)\<rparr>"
  have feed: "feed now now' h st = (if length (pd_parts e) < n then (jset m e (sweepStale now st), None)
      else (jdelete m (sweepStale now st), Some (join_parts n (pd_parts e))))"
    using held holds_parts_sweep [OF ok held time(1)] unfolding e_def e0_def
    by (auto simp: feed_def h Let_def holds_parts_def split: option.splits)
  have e: "holds_parts piece n t0 (insert i got) (Some e)"
    using held holds_parts_sweep [OF ok held time(1)] time(2) unfolding e_def e0_def
    by (auto simp: holds_parts_def jmap_simps jmap_ok_intros split: option.splits)
  note len = holds_parts_size [OF e]
  have sub: "insert i got \<subseteq> {..<n}" using got i by auto
  show ?thesis
  proof (cases "insert i got = {..<n}")
    case True
    then have "join_parts n (pd_parts e) = concat (map piece [0..<n])"
      using e by (intro join_parts_all) (auto simp: holds_parts_def)
    then show ?thesis using True len by (simp add: feed)
  next
    case False
    then have "card (insert i got) < n" using sub psubset_card_mono [of "{..<n}" "insert i got"] by auto
    then show ?thesis using False len e by (simp add: feed jmap_simps)
  qed
qed

section \<open>Properties\<close>

text \<open>The results of those calls of a history that carry a chunk of message \<open>m\<close>.\<close>

definition results_for :: "js_string \<Rightarrow> feed_call list \<Rightarrow> reassembler \<Rightarrow> js_string option list" where
  "results_for m calls st =
     map snd (filter (\<lambda>((_, _, h), _). ch_msgId h = m) (zip calls (feed_all calls st)))"

definition headers_for :: "js_string \<Rightarrow> feed_call list \<Rightarrow> chunk_header list" where
  "headers_for m calls = filter (\<lambda>h. ch_msgId h = m) (map (snd \<circ> snd) calls)"

definition chunk_of :: "js_string \<Rightarrow> js_string list \<Rightarrow> nat \<Rightarrow> chunk_header" where
  "chunk_of m pieces i = \<lparr>ch_msgId = m, ch_index = i, ch_total = length pieces, ch_data = pieces ! i\<rparr>"

definition within_ttl :: "int \<Rightarrow> feed_call list \<Rightarrow> bool" where
  "within_ttl t0 calls \<longleftrightarrow> (\<forall>(now, now', h) \<in> set calls. t0 \<le> now' \<and> now \<le> t0 + REASSEMBLY_TTL_MS)"

lemma results_for_none: "headers_for m calls = [] \<Longrightarrow> results_for m calls st = []"
  by (induction calls arbitrary: st)
    (auto simp: results_for_def headers_for_def split: if_splits prod.splits)

lemma reassembly_from:
  assumes "reassembler_ok st" "holds_parts ((!) pieces) (length pieces) t0 got (jget st m)"
    "within_ttl t0 calls" "headers_for m calls = map (chunk_of m pieces) (js @ [i])"
    "got \<union> set js \<union> {i} = {..<length pieces}" "i \<notin> got \<union> set js"
  shows "results_for m calls st = replicate (length js) None @ [Some (concat pieces)]"
  using assms
proof (induction calls arbitrary: st got js)
  case Nil
  then show ?case by (simp add: headers_for_def)
next
  case (Cons call calls)
  obtain now now' h where call: "call = (now, now', h)" by (cases call)
  have ttl: "within_ttl t0 calls" "now \<le> t0 + REASSEMBLY_TTL_MS" "t0 \<le> now'"
    using Cons.prems(3) by (auto simp: within_ttl_def call)
  obtain st' out where fd: "feed now now' h st = (st', out)" by fastforce
  have ok': "reassembler_ok st'" using feed_ok [OF Cons.prems(1), of now now' h] fd by simp
  show ?case
  proof (cases "ch_msgId h = m")
    case False
    then have "jget st' m = jget st m"
      using jget_feed_other [OF Cons.prems(1) False, of now now'] fd
        holds_parts_sweep [OF Cons.prems(1,2) ttl(2)] by simp
    then show ?thesis
      using Cons.IH [of st' got js] Cons.prems ok' ttl False fd
      by (simp add: results_for_def headers_for_def call)
  next
    case True
    then obtain j rs where rs: "js @ [i] = j # rs" and h: "h = chunk_of m pieces j"
      and rest: "headers_for m calls = map (chunk_of m pieces) rs"
      using Cons.prems(4) by (cases "js @ [i]") (auto simp: headers_for_def call)
    have j: "j < length pieces" using rs Cons.prems(5) by (cases js) auto
    have sub: "got \<subseteq> {..<length pieces}" using Cons.prems(5) by blast
    have own: "if insert j got = {..<length pieces} then out = Some (concat pieces)
        else out = None \<and> holds_parts ((!) pieces) (length pieces) t0 (insert j got) (jget st' m)"
      using feed_own_part [OF Cons.prems(1,2) ttl(2,3) sub j h [unfolded chunk_of_def]]
      unfolding fd fst_conv snd_conv map_nth .
    have res: "results_for m (call # calls) st = out # results_for m calls st'"
      using True fd by (simp add: results_for_def call)
    show ?thesis
    proof (cases js)
      case Nil
      then have "results_for m calls st' = []"
        using rest rs by (simp add: results_for_none)
      moreover have "insert j got = {..<length pieces}" using Nil rs Cons.prems(5) by auto
      ultimately show ?thesis using own res Nil by simp
    next
      case inner: (Cons k ks)
      then have "rs = ks @ [i]" "j = k" "j \<noteq> i" using rs Cons.prems(6) by auto
      then have "i < length pieces" "i \<notin> insert j got" using Cons.prems(5,6) by auto
      then have "insert j got \<noteq> {..<length pieces}" by (metis lessThan_iff)
      then have own': "out = None"
        "holds_parts ((!) pieces) (length pieces) t0 (insert j got) (jget st' m)"
        using own by simp_all
      have "results_for m calls st' = replicate (length ks) None @ [Some (concat pieces)]"
      proof (rule Cons.IH [OF ok' own'(2) ttl(1)])
        show "headers_for m calls = map (chunk_of m pieces) (ks @ [i])" using rest \<open>rs = ks @ [i]\<close> by simp
        show "insert j got \<union> set ks \<union> {i} = {..<length pieces}" "i \<notin> insert j got \<union> set ks"
          using Cons.prems(5,6) inner \<open>j = k\<close> \<open>j \<noteq> i\<close> by auto
      qed
      then show ?thesis using res own'(1) inner by simp
    qed
  qed
qed

text \<open>
  C2. Reassembly is independent of order and interleaving: if the chunks of message \<open>m\<close> arrive in any
  order, possibly repeated and mixed with any chunks of other messages, on a clock that stays within
  the time-to-live, then every call but the one that brings the last missing part returns \<open>null\<close>,
  and that one returns the concatenation of the pieces.
\<close>

theorem reassembly_any_order:
  assumes "reassembler_ok st" "jget st m = None" "within_ttl t0 calls"
    and "headers_for m calls = map (chunk_of m pieces) (js @ [i])"
    and "set js \<union> {i} = {..<length pieces}" "i \<notin> set js"
  shows "results_for m calls st = replicate (length js) None @ [Some (concat pieces)]"
  using reassembly_from [of st pieces t0 "{}" m calls js i] assms by (simp add: holds_parts_def)

theorem reassembly_any_order_witness:
  "let m = js_of ''ab12''; x = chunk_of (js_of ''zzzz'') [js_of ''q'', js_of ''r''] 0;
       ps = [js_of ''foo'', js_of ''bar'', js_of ''baz'']; c = chunk_of m ps in
   results_for m [(5, 5, c 2), (6, 6, x), (7, 7, c 0), (8, 8, c 2), (9, 9, c 1)] [] =
     [None, None, None, Some (js_of ''foobarbaz'')]"
  unfolding Let_def
  by (subst reassembly_any_order [where ?t0.0 = 5 and pieces = "[js_of ''foo'', js_of ''bar'', js_of ''baz'']"
        and js = "[2, 0, 2]" and i = 1])
    (auto simp: reassembler_ok_def within_ttl_def REASSEMBLY_TTL_MS_def headers_for_def chunk_of_def)

text \<open>
  The pending map of a reassembler stays well formed under every history of calls: ids and part
  numbers are distinct, every entry holds at least one part and fewer than it waits for, and right
  after a call at time \<open>now\<close> every entry of another message is at most 30 seconds old.
\<close>

theorem reassembler_invariant:
  "reassembler_ok (fold (\<lambda>(now, now', h) st. fst (feed now now' h st)) calls []) \<and>
   (\<forall>now now' h k e. jget (fst (feed now now' h (fold (\<lambda>(now, now', h) st. fst (feed now now' h st)) calls []))) k = Some e
      \<longrightarrow> k = ch_msgId h \<or> now - pd_firstSeenAt e \<le> 30000)"
proof (intro conjI allI impI)
  let ?st = "fold (\<lambda>(now, now', h) st. fst (feed now now' h st)) calls []"
  show ok: "reassembler_ok ?st" by (rule ra.inv_run)
  fix now now' h k e
  assume e: "jget (fst (feed now now' h ?st)) k = Some e"
  show "k = ch_msgId h \<or> now - pd_firstSeenAt e \<le> 30000"
  proof (cases "k = ch_msgId h")
    case False
    then have "jget (sweepStale now ?st) k = Some e" using jget_feed_other [OF ok] e by metis
    then show ?thesis
      using ok by (auto simp: jget_sweepStale reassembler_ok_def fresh_def REASSEMBLY_TTL_MS_def
          split: option.splits if_splits)
  qed simp
qed

theorem reassembler_invariant_witness:
  "reassembler_ok (fold (\<lambda>(now, now', h) st. fst (feed now now' h st))
     [(1, 1, chunk_of (js_of ''ab12'') [js_of ''x'', js_of ''y''] 0)] [])"
  using reassembler_invariant [of "[(1, 1, chunk_of (js_of ''ab12'') [js_of ''x'', js_of ''y''] 0)]"] by blast

end
