(* ===== verification/Event_Emitter.thy ===== *)
theory Event_Emitter
  imports JS_Prelude
begin

text \<open>
  \<open>sdk-typescript/src/event-emitter.ts\<close>: \<open>TypedEmitter\<close>, the table of listeners per event. Listeners are
  application code; the model knows them by identity, and \<open>emit_calls\<close> takes what each does
  to the table when it runs. Shown: an emission reaches exactly the listeners registered when it
  started, in registration order and once each, whatever they do to the table meanwhile.
\<close>

section \<open>Operations\<close>

type_synonym ('e, 'l) listeners = "('e, 'l list) jmap"

definition on_event :: "'e \<Rightarrow> 'l \<Rightarrow> ('e, 'l) listeners \<Rightarrow> ('e, 'l) listeners" where
  "on_event event listener ls =
     (let st = (case jget ls event of Some s \<Rightarrow> s | None \<Rightarrow> []) in
      jset event (set_add listener st) ls)"

definition off_event :: "'e \<Rightarrow> 'l \<Rightarrow> ('e, 'l) listeners \<Rightarrow> ('e, 'l) listeners" where
  "off_event event listener ls =
     (case jget ls event of None \<Rightarrow> ls | Some s \<Rightarrow> jset event (set_remove listener s) ls)"

text \<open>\<open>Array.from(set)\<close>: the copy the loop of \<open>emit\<close> runs over.\<close>

definition emit_targets :: "'e \<Rightarrow> ('e, 'l) listeners \<Rightarrow> 'l list" where
  "emit_targets event ls = (case jget ls event of None \<Rightarrow> [] | Some s \<Rightarrow> s)"

text \<open>The loop: each listener runs and may change the table; the calls are collected.\<close>

fun emit_loop :: "('l \<Rightarrow> ('e, 'l) listeners \<Rightarrow> ('e, 'l) listeners) \<Rightarrow> 'l list \<Rightarrow>
    ('e, 'l) listeners \<Rightarrow> 'l list \<times> ('e, 'l) listeners" where
  "emit_loop act [] ls = ([], ls)"
| "emit_loop act (l # rest) ls = (let (calls, ls') = emit_loop act rest (act l ls) in (l # calls, ls'))"

definition emit_calls :: "('l \<Rightarrow> ('e, 'l) listeners \<Rightarrow> ('e, 'l) listeners) \<Rightarrow> 'e \<Rightarrow>
    ('e, 'l) listeners \<Rightarrow> 'l list \<times> ('e, 'l) listeners" where
  "emit_calls act event ls = emit_loop act (emit_targets event ls) ls"

section \<open>Lemmas\<close>

definition listeners_ok :: "('e, 'l) listeners \<Rightarrow> bool" where
  "listeners_ok ls \<longleftrightarrow> jmap_ok ls \<and> (\<forall>e s. jget ls e = Some s \<longrightarrow> distinct s)"

lemma on_event_ok: "listeners_ok ls \<Longrightarrow> listeners_ok (on_event e l ls)"
  by (auto simp: listeners_ok_def on_event_def Let_def jmap_simps jmap_ok_intros distinct_set_add
      split: option.splits if_splits)

lemma off_event_ok: "listeners_ok ls \<Longrightarrow> listeners_ok (off_event e l ls)"
  by (auto simp: listeners_ok_def off_event_def jmap_simps jmap_ok_intros distinct_set_remove
      split: option.splits if_splits)

datatype ('e, 'l) emitter_op = On 'e 'l | Off 'e 'l

fun emitter_step :: "('e, 'l) emitter_op \<Rightarrow> ('e, 'l) listeners \<Rightarrow> ('e, 'l) listeners" where
  "emitter_step (On e l) ls = on_event e l ls"
| "emitter_step (Off e l) ls = off_event e l ls"

interpretation em: guarded_machine "[]" emitter_step listeners_ok
proof
  show "listeners_ok []" by (simp add: listeners_ok_def)
  show "listeners_ok (emitter_step q ls)" if "listeners_ok ls" for q :: "('e, 'l) emitter_op" and ls
    using that by (cases q) (simp_all add: on_event_ok off_event_ok)
qed

lemma emit_targets_on: "emit_targets e' (on_event e l ls) =
    (if e' = e then set_add l (emit_targets e ls) else emit_targets e' ls)"
  by (simp add: emit_targets_def on_event_def Let_def jmap_simps split: option.splits)

lemma emit_targets_off: "emit_targets e' (off_event e l ls) =
    (if e' = e then set_remove l (emit_targets e ls) else emit_targets e' ls)"
  by (auto simp: emit_targets_def off_event_def jmap_simps set_remove_def split: option.splits)

lemma emit_loop_calls: "fst (emit_loop act targets ls) = targets"
  by (induction targets arbitrary: ls) (simp_all add: case_prod_beta' Let_def)

section \<open>Properties\<close>

text \<open>The listeners of \<open>e\<close> after a history of \<open>on\<close> and \<open>off\<close>: those added last and not removed since.\<close>

fun registered :: "'e \<Rightarrow> ('e, 'l) emitter_op list \<Rightarrow> 'l set" where
  "registered e [] = {}"
| "registered e (On e' l # later) =
     registered e later \<union> (if e' = e \<and> Off e l \<notin> set later then {l} else {})"
| "registered e (Off e' l # later) = registered e later"

lemma set_emit_targets_fold:
  "set (emit_targets e (fold emitter_step qs ls)) =
     registered e qs \<union> {l \<in> set (emit_targets e ls). Off e l \<notin> set qs}"
proof (induction qs arbitrary: ls)
  case (Cons q qs)
  show ?case
    by (cases q) (auto simp: Cons.IH emit_targets_on emit_targets_off)
qed simp

text \<open>
  An emission calls each listener that is registered for the event exactly once, even if listeners
  add or remove listeners while it runs: after any history of \<open>on\<close> and \<open>off\<close> calls, and for any
  effect \<open>act\<close> of the listeners on the table, the calls are a duplicate-free list of precisely the
  listeners added and not removed since.
\<close>

theorem emit_reaches_registered:
  fixes history :: "('e, 'l) emitter_op list"
  defines "ls \<equiv> fold emitter_step history []"
  shows "distinct (fst (emit_calls act event ls)) \<and>
    set (fst (emit_calls act event ls)) = registered event history"
proof -
  have calls: "fst (emit_calls act event ls) = emit_targets event ls"
    by (simp add: emit_calls_def emit_loop_calls)
  have "listeners_ok ls" unfolding ls_def by (rule em.inv_run)
  then have "distinct (emit_targets event ls)"
    by (auto simp: listeners_ok_def emit_targets_def split: option.splits)
  moreover have "set (emit_targets event ls) = registered event history"
    by (simp add: ls_def set_emit_targets_fold) (simp add: emit_targets_def)
  ultimately show ?thesis by (simp add: calls)
qed

theorem emit_reaches_registered_witness:
  "set (fst (emit_calls (\<lambda>l. off_event 0 (2 :: nat)) (0 :: nat)
     (fold emitter_step [On 0 1, On 0 2, On 0 3, Off 0 3, On 1 4] []))) = {1, 2}"
  using emit_reaches_registered [of "\<lambda>l. off_event 0 (2 :: nat)" "0 :: nat"
      "[On 0 1, On 0 2, On 0 3, Off 0 3, On 1 4]"] by auto

end
