(* ===== verification/Realtime_Client.thy ===== *)
theory Realtime_Client
  imports Reassembly Event_Emitter
begin

text \<open>
  \<open>sdk-typescript/src/client.ts\<close>: the class \<open>RealtimeClient\<close>.

  The state is the object's fields together with what its callbacks refer to: the sockets it has
  created (each with its \<open>readyState\<close> and the token its \<open>onopen\<close> closure captured), the live
  timers, and the \<open>openSocket\<close> calls suspended at an \<open>await\<close>. Every method is an operation
  \<open>client \<Rightarrow> client_error option \<times> client\<close>; \<open>Some e\<close> is an exception that leaves the method. What the
  outside sees (frames handed to a socket, events and messages handed to application callbacks, exceptions
  that nobody catches) is appended to a log.

  Application callbacks are known by identity and do not call back into the client while they run.
  Timer delays are exact rationals.
\<close>

section \<open>Data\<close>

datatype client_error =
    ProtocolErr protocol_error
  | NotOpen
  | NoWebSocketImpl
  | NoToken
  | UnexpectedFormat
  | SocketError
  | ApplicationError js_string

record realtime_message =
  rm_channelId :: js_string
  rm_payload :: js_string
  rm_tenantId :: js_string
  rm_receivedAt :: int

datatype event_name = EvOpen | EvClose | EvError | EvAuthenticated | EvAuthFailed | EvMessage

datatype realtime_event =
    Opened
  | Closed nat js_string
  | Failed client_error
  | Authenticated
  | AuthRejected nat js_string
  | Received realtime_message

fun event_of :: "realtime_event \<Rightarrow> event_name" where
  "event_of Opened = EvOpen"
| "event_of (Closed _ _) = EvClose"
| "event_of (Failed _) = EvError"
| "event_of Authenticated = EvAuthenticated"
| "event_of (AuthRejected _ _) = EvAuthFailed"
| "event_of (Received _) = EvMessage"

text \<open>\<open>RealtimeClientConfig\<close>: the optional fields as options; \<open>getToken\<close> and the injected
  \<open>webSocketImpl\<close> by their presence, since what they return is an input of the model.\<close>

record client_config =
  cc_wsUrl :: js_string
  cc_tenantId :: js_string
  cc_token :: "js_string option"
  cc_getToken :: bool
  cc_heartbeatIntervalMs :: "rat option"
  cc_reconnect :: "bool option"
  cc_reconnectBaseDelayMs :: "rat option"
  cc_reconnectMaxDelayMs :: "rat option"
  cc_maxMessageBytes :: "nat option"
  cc_webSocketImpl :: bool

record resolved_config =
  rf_url :: js_string
  rf_tenantId :: js_string
  rf_token :: "js_string option"
  rf_getToken :: bool
  rf_heartbeatIntervalMs :: rat
  rf_reconnect :: bool
  rf_reconnectBaseDelayMs :: rat
  rf_reconnectMaxDelayMs :: rat
  rf_maxMessageBytes :: nat
  rf_webSocketImpl :: bool

text \<open>The four values of \<open>readyState\<close>; \<open>WS_OPEN\<close> is \<open>Open\<close>.\<close>

datatype ready_state = Connecting | Open | Closing | Closed_State

record websocket =
  sk_readyState :: ready_state
  sk_url :: js_string
  sk_token :: js_string

definition WS_CLOSE_CODE_AUTH_FAILED :: nat where "WS_CLOSE_CODE_AUTH_FAILED = 4001"

datatype ws_impl = Explicit_Impl | Global_Impl | Ws_Package

text \<open>Where a suspended \<open>openSocket\<close> call waits.\<close>

datatype attempt = Await_Token | Await_Impl

type_synonym handler = nat
type_synonym send_args = "opcode \<times> js_string \<times> js_string"

datatype effect =
    Sent nat send_args bytes
  | Emitted realtime_event "nat list"
  | Handled handler realtime_message
  | Uncaught client_error

record client =
  rc_config :: resolved_config
  rc_ws :: "nat option"
  rc_heartbeatTimer :: "nat option"
  rc_reconnectTimer :: "nat option"
  rc_reconnectAttempt :: nat
  rc_closedByUser :: bool
  rc_wsImplPromise :: "(client_error + ws_impl) option"
  rc_subscriptions :: "(js_string, handler list) jmap"
  rc_reassembler :: reassembler
  rc_pendingSends :: "send_args list"
  rc_listeners :: "(event_name, nat) listeners"
  rc_sockets :: "websocket list"
  rc_intervals :: "nat list"
  rc_timeouts :: "(nat \<times> rat) list"
  rc_next_timer :: nat
  rc_attempts :: "(nat \<times> attempt) list"
  rc_next_attempt :: nat
  rc_log :: "effect list"

type_synonym operation = "client \<Rightarrow> client_error option \<times> client"

definition or_default :: "'a option \<Rightarrow> 'a \<Rightarrow> 'a" where
  "or_default v d = (case v of Some x \<Rightarrow> x | None \<Rightarrow> d)"

definition resolve_config :: "client_config \<Rightarrow> resolved_config" where
  "resolve_config config =
     \<lparr>rf_url = cc_wsUrl config, rf_tenantId = cc_tenantId config, rf_token = cc_token config,
      rf_getToken = cc_getToken config,
      rf_heartbeatIntervalMs = or_default (cc_heartbeatIntervalMs config) 15000,
      rf_reconnect = or_default (cc_reconnect config) True,
      rf_reconnectBaseDelayMs = or_default (cc_reconnectBaseDelayMs config) 500,
      rf_reconnectMaxDelayMs = or_default (cc_reconnectMaxDelayMs config) 15000,
      rf_maxMessageBytes = or_default (cc_maxMessageBytes config) DEFAULT_MAX_MESSAGE_BYTES,
      rf_webSocketImpl = cc_webSocketImpl config\<rparr>"

text \<open>The constructor; timer numbers start at 1, since the code tests them for truth.\<close>

definition new_client :: "client_config \<Rightarrow> client" where
  "new_client config =
     \<lparr>rc_config = resolve_config config, rc_ws = None, rc_heartbeatTimer = None, rc_reconnectTimer = None,
      rc_reconnectAttempt = 0, rc_closedByUser = True, rc_wsImplPromise = None, rc_subscriptions = [],
      rc_reassembler = [], rc_pendingSends = [], rc_listeners = [], rc_sockets = [], rc_intervals = [],
      rc_timeouts = [], rc_next_timer = 1, rc_attempts = [], rc_next_attempt = 0, rc_log = []\<rparr>"

section \<open>Sequencing\<close>

definition skip :: operation where
  "skip c = (None, c)"

definition throw :: "client_error \<Rightarrow> operation" where
  "throw e c = (Some e, c)"

definition and_then :: "operation \<Rightarrow> operation \<Rightarrow> operation" where
  "and_then p q c = (case p c of (None, c') \<Rightarrow> q c' | (Some e, c') \<Rightarrow> (Some e, c'))"

fun for_each :: "('a \<Rightarrow> operation) \<Rightarrow> 'a list \<Rightarrow> operation" where
  "for_each f [] = skip"
| "for_each f (x # xs) = and_then (f x) (for_each f xs)"

text \<open>A callback of the runtime: what it throws reaches nobody and is only logged.\<close>

definition as_callback :: "operation \<Rightarrow> client \<Rightarrow> client" where
  "as_callback p c =
     (case p c of (None, c') \<Rightarrow> c' | (Some e, c') \<Rightarrow> c'\<lparr>rc_log := rc_log c' @ [Uncaught e]\<rparr>)"

section \<open>Emitting and sending\<close>

definition emit :: "realtime_event \<Rightarrow> client \<Rightarrow> client" where
  "emit ev c = c\<lparr>rc_log := rc_log c @ [Emitted ev (emit_targets (event_of ev) (rc_listeners c))]\<rparr>"

text \<open>\<open>this.ws?.readyState === WS_OPEN\<close>\<close>

definition ws_open :: "client \<Rightarrow> bool" where
  "ws_open c = (case rc_ws c of None \<Rightarrow> False | Some s \<Rightarrow> sk_readyState (rc_sockets c ! s) = Open)"

definition frame_for :: "resolved_config \<Rightarrow> send_args \<Rightarrow> protocol_error + bytes" where
  "frame_for cfg = (\<lambda>(q, channelId, payload).
     encodeFrame \<lparr>ff_opcode = q, ff_tenantId = rf_tenantId cfg, ff_channelId = Some channelId,
                  ff_payload = Some payload\<rparr>)"

definition send :: "send_args \<Rightarrow> operation" where
  "send args c =
     (if \<not> ws_open c then (Some NotOpen, c)
      else (case frame_for (rc_config c) args of
          Inl e \<Rightarrow> (Some (ProtocolErr e), c)
        | Inr frame \<Rightarrow> (None, c\<lparr>rc_log := rc_log c @ [Sent (the (rc_ws c)) args frame]\<rparr>)))"

definition sendOrQueue :: "send_args \<Rightarrow> operation" where
  "sendOrQueue args c =
     (if ws_open c then send args c
      else (None, c\<lparr>rc_pendingSends := rc_pendingSends c @ [args]\<rparr>))"

definition flushPendingSends :: operation where
  "flushPendingSends c =
     (let pending = rc_pendingSends c in for_each send pending (c\<lparr>rc_pendingSends := []\<rparr>))"

definition resubscribeAll :: operation where
  "resubscribeAll c = for_each (\<lambda>ch. send (Subscribe, ch, [])) (jkeys (rc_subscriptions c)) c"

section \<open>Timers\<close>

definition stopHeartbeat :: "client \<Rightarrow> client" where
  "stopHeartbeat c =
     (case rc_heartbeatTimer c of None \<Rightarrow> c
      | Some t \<Rightarrow> c\<lparr>rc_intervals := filter (\<lambda>i. i \<noteq> t) (rc_intervals c), rc_heartbeatTimer := None\<rparr>)"

definition startHeartbeat :: "client \<Rightarrow> client" where
  "startHeartbeat c0 =
     (let c = stopHeartbeat c0; t = rc_next_timer c in
      c\<lparr>rc_intervals := rc_intervals c @ [t], rc_heartbeatTimer := Some t, rc_next_timer := t + 1\<rparr>)"

definition heartbeat_tick :: operation where
  "heartbeat_tick c = (if ws_open c then send (Ping, [], []) c else (None, c))"

definition backoff_delay :: "resolved_config \<Rightarrow> nat \<Rightarrow> rat" where
  "backoff_delay cfg n = min (rf_reconnectBaseDelayMs cfg * 2 ^ n) (rf_reconnectMaxDelayMs cfg)"

definition scheduleReconnect :: "rat \<Rightarrow> client \<Rightarrow> client" where
  "scheduleReconnect rnd c =
     (let delay = backoff_delay (rc_config c) (rc_reconnectAttempt c);
          jitter = delay * (4 / 5 + rnd * (2 / 5)); t = rc_next_timer c in
      c\<lparr>rc_reconnectAttempt := rc_reconnectAttempt c + 1, rc_reconnectTimer := Some t,
         rc_timeouts := rc_timeouts c @ [(t, jitter)], rc_next_timer := t + 1\<rparr>)"

section \<open>Opening a socket\<close>

text \<open>\<open>resolveWebSocketImpl\<close>: the injected constructor, the global one, or the optional package.\<close>

definition resolveWebSocketImpl :: "bool \<Rightarrow> bool \<Rightarrow> bool \<Rightarrow> client_error + ws_impl" where
  "resolveWebSocketImpl explicit globalImpl importable =
     (if explicit then Inr Explicit_Impl
      else if globalImpl then Inr Global_Impl
      else if importable then Inr Ws_Package
      else Inl NoWebSocketImpl)"

text \<open>The platform: whether \<open>globalThis.WebSocket\<close> exists and whether \<open>import("ws")\<close> succeeds.\<close>

record platform =
  pf_global :: bool
  pf_ws :: bool

text \<open>From the test of \<open>wsImplPromise\<close> to the \<open>await\<close> on it.\<close>

definition await_impl :: "platform \<Rightarrow> nat \<Rightarrow> client \<Rightarrow> client" where
  "await_impl pf a c =
     (let p = (case rc_wsImplPromise c of Some p \<Rightarrow> p
                | None \<Rightarrow> resolveWebSocketImpl (rf_webSocketImpl (rc_config c)) (pf_global pf) (pf_ws pf)) in
      c\<lparr>rc_wsImplPromise := Some p, rc_attempts := rc_attempts c @ [(a, Await_Impl)]\<rparr>)"

text \<open>\<open>openSocket\<close> up to its first \<open>await\<close>.\<close>

definition openSocket :: "platform \<Rightarrow> client \<Rightarrow> client" where
  "openSocket pf c0 =
     (let a = rc_next_attempt c0; c = c0\<lparr>rc_next_attempt := a + 1\<rparr> in
      if rf_getToken (rc_config c) then c\<lparr>rc_attempts := rc_attempts c @ [(a, Await_Token)]\<rparr>
      else await_impl pf a c)"

definition drop_attempt :: "nat \<Rightarrow> client \<Rightarrow> client" where
  "drop_attempt a c = c\<lparr>rc_attempts := filter (\<lambda>(b, _). b \<noteq> a) (rc_attempts c)\<rparr>"

text \<open>The application's \<open>getToken()\<close> resolves: the rest of the first \<open>try\<close> and the test after it.\<close>

definition token_resolved :: "platform \<Rightarrow> nat \<Rightarrow> js_string \<Rightarrow> js_string option \<Rightarrow> client \<Rightarrow> client" where
  "token_resolved pf a tok wsUrl c0 =
     (let cfg = rc_config c0;
          url = (case wsUrl of Some u \<Rightarrow> if u \<noteq> [] then u else rf_url cfg | None \<Rightarrow> rf_url cfg);
          c = (drop_attempt a c0)\<lparr>rc_config := cfg\<lparr>rf_token := Some tok, rf_url := url\<rparr>\<rparr> in
      if rc_closedByUser c then c else await_impl pf a c)"

text \<open>\<open>getToken()\<close> rejects: the first \<open>catch\<close>.\<close>

definition token_rejected :: "rat \<Rightarrow> nat \<Rightarrow> js_string \<Rightarrow> client \<Rightarrow> client" where
  "token_rejected rnd a reason c0 =
     (let c = emit (Failed (ApplicationError reason)) (drop_attempt a c0) in
      if \<not> rc_closedByUser c \<and> rf_reconnect (rc_config c) then scheduleReconnect rnd c else c)"

text \<open>The implementation promise settles: from the second \<open>try\<close> to the assignment of the socket.
  \<open>constructed\<close> tells whether \<open>new Impl(url)\<close> returns; if it throws, the rejection of
  \<open>openSocket\<close> is not handled.\<close>

definition impl_settled :: "bool \<Rightarrow> nat \<Rightarrow> client \<Rightarrow> client" where
  "impl_settled constructed a c0 =
     (let c = drop_attempt a c0 in
      case the (rc_wsImplPromise c) of
        Inl e \<Rightarrow> emit (Failed e) c
      | Inr impl \<Rightarrow>
          if rc_closedByUser c then c
          else (case rf_token (rc_config c) of
              None \<Rightarrow> emit (Failed NoToken) c
            | Some tok \<Rightarrow>
                if tok = [] then emit (Failed NoToken) c
                else if \<not> constructed then c\<lparr>rc_log := rc_log c @ [Uncaught SocketError]\<rparr>
                else c\<lparr>rc_ws := Some (length (rc_sockets c)),
                       rc_sockets := rc_sockets c @
                         [\<lparr>sk_readyState = Connecting, sk_url = rf_url (rc_config c), sk_token = tok\<rparr>]\<rparr>))"

section \<open>Socket callbacks\<close>

definition set_ready :: "ready_state \<Rightarrow> nat \<Rightarrow> client \<Rightarrow> client" where
  "set_ready r s c = c\<lparr>rc_sockets := (rc_sockets c)[s := (rc_sockets c ! s)\<lparr>sk_readyState := r\<rparr>]\<rparr>"

definition onopen :: "nat \<Rightarrow> operation" where
  "onopen s =
     and_then (\<lambda>c. send (Auth, [], sk_token (rc_sockets c ! s)) (c\<lparr>rc_reconnectAttempt := 0\<rparr>))
     (and_then resubscribeAll
     (and_then flushPendingSends
     (\<lambda>c. (None, emit Authenticated (emit Opened (startHeartbeat c))))))"

definition dispatch :: "int \<Rightarrow> int \<Rightarrow> int \<Rightarrow> decoded_frame \<Rightarrow> client \<Rightarrow> client" where
  "dispatch now1 now2 now3 frame c0 =
     (let (c, result) = (case parseChunk (df_payload frame) of
            None \<Rightarrow> (c0, Some (df_payload frame))
          | Some header \<Rightarrow>
              (let (r, out) = feed now1 now2 header (rc_reassembler c0) in (c0\<lparr>rc_reassembler := r\<rparr>, out))) in
      case result of
        None \<Rightarrow> c
      | Some payload \<Rightarrow>
          (let message = \<lparr>rm_channelId = df_channelId frame, rm_payload = payload,
                          rm_tenantId = df_tenantId frame, rm_receivedAt = now3\<rparr>;
               c1 = emit (Received message) c;
               exact = (case jget (rc_subscriptions c1) (df_channelId frame) of None \<Rightarrow> [] | Some hs \<Rightarrow> hs);
               globs = concat (map snd (filter (\<lambda>(key, _). star \<in> set key \<and> globMatch key (df_channelId frame))
                         (rc_subscriptions c1))) in
           c1\<lparr>rc_log := rc_log c1 @ map (\<lambda>h. Handled h message) (exact @ globs)\<rparr>))"

text \<open>\<open>event.data\<close>: a binary message in either of the accepted forms, or anything else.\<close>

datatype message_data = Array_Buffer bytes | Uint8_Array bytes | Other_Data

fun raw_bytes :: "message_data \<Rightarrow> bytes option" where
  "raw_bytes (Array_Buffer bs) = Some bs"
| "raw_bytes (Uint8_Array bs) = Some bs"
| "raw_bytes Other_Data = None"

definition onmessage :: "int \<Rightarrow> int \<Rightarrow> int \<Rightarrow> message_data \<Rightarrow> client \<Rightarrow> client" where
  "onmessage now1 now2 now3 data c =
     (case raw_bytes data of
        None \<Rightarrow> emit (Failed UnexpectedFormat) c
      | Some raw \<Rightarrow>
          (case decodeFrame raw of
             Inl e \<Rightarrow> emit (Failed (ProtocolErr e)) c
           | Inr frame \<Rightarrow> dispatch now1 now2 now3 frame c))"

definition onerror :: "client \<Rightarrow> client" where
  "onerror c = emit (Failed SocketError) c"

definition onclose :: "rat \<Rightarrow> nat \<Rightarrow> js_string \<Rightarrow> client \<Rightarrow> client" where
  "onclose rnd code reason c0 =
     (let c1 = emit (Closed code reason) ((stopHeartbeat c0)\<lparr>rc_ws := None\<rparr>);
          rejected = (code = WS_CLOSE_CODE_AUTH_FAILED);
          c2 = (if rejected then emit (AuthRejected code reason) c1 else c1) in
      if rejected \<and> \<not> rf_getToken (rc_config c2) then c2
      else if \<not> rc_closedByUser c2 \<and> rf_reconnect (rc_config c2) then scheduleReconnect rnd c2
      else c2)"

section \<open>Public methods\<close>

definition connect :: "platform \<Rightarrow> client \<Rightarrow> client" where
  "connect pf c = openSocket pf (c\<lparr>rc_closedByUser := False\<rparr>)"

text \<open>\<open>ws.close()\<close> starts the closing handshake of a socket that is not already closing.\<close>

definition ws_close :: "nat \<Rightarrow> client \<Rightarrow> client" where
  "ws_close s c =
     (if sk_readyState (rc_sockets c ! s) \<in> {Connecting, Open} then set_ready Closing s c else c)"

definition disconnect :: "client \<Rightarrow> client" where
  "disconnect c0 =
     (let c1 = c0\<lparr>rc_closedByUser := True\<rparr>;
          c2 = (case rc_reconnectTimer c1 of None \<Rightarrow> c1
                | Some t \<Rightarrow> c1\<lparr>rc_timeouts := filter (\<lambda>(u, _). u \<noteq> t) (rc_timeouts c1)\<rparr>);
          c3 = stopHeartbeat c2;
          c4 = (case rc_ws c3 of None \<Rightarrow> c3 | Some s \<Rightarrow> ws_close s c3) in
      c4\<lparr>rc_ws := None\<rparr>)"

definition send_chunks :: "(nat \<Rightarrow> rat) \<Rightarrow> opcode \<Rightarrow> js_string \<Rightarrow> js_string \<Rightarrow> operation" where
  "send_chunks rnd q target payload c =
     (case encodeChunks rnd payload (rf_maxMessageBytes (rc_config c)) of
        Inl e \<Rightarrow> (Some (ProtocolErr e), c)
      | Inr chunks \<Rightarrow> for_each (\<lambda>chunk. sendOrQueue (q, target, chunk)) chunks c)"

definition publish :: "(nat \<Rightarrow> rat) \<Rightarrow> js_string \<Rightarrow> js_string \<Rightarrow> operation" where
  "publish rnd channelId payload = send_chunks rnd Publish channelId payload"

definition unicast :: "(nat \<Rightarrow> rat) \<Rightarrow> js_string \<Rightarrow> js_string \<Rightarrow> operation" where
  "unicast rnd userId payload = send_chunks rnd Unicast userId payload"

definition replay :: "js_string \<Rightarrow> nat \<Rightarrow> operation" where
  "replay channelId sinceUnixSeconds = sendOrQueue (Replay, channelId, js_of_nat sinceUnixSeconds)"

definition subscribe :: "js_string \<Rightarrow> handler \<Rightarrow> operation" where
  "subscribe channelId h c =
     (let old = jget (rc_subscriptions c) channelId;
          hs = (case old of Some s \<Rightarrow> s | None \<Rightarrow> []);
          c' = c\<lparr>rc_subscriptions := jset channelId (set_add h hs) (rc_subscriptions c)\<rparr> in
      if old = None \<and> ws_open c' then send (Subscribe, channelId, []) c' else (None, c'))"

definition unsubscribeHandler :: "js_string \<Rightarrow> handler \<Rightarrow> operation" where
  "unsubscribeHandler channelId h c =
     (case jget (rc_subscriptions c) channelId of
        None \<Rightarrow> (None, c)
      | Some hs \<Rightarrow>
          (let hs' = set_remove h hs in
           if hs' \<noteq> [] then (None, c\<lparr>rc_subscriptions := jset channelId hs' (rc_subscriptions c)\<rparr>)
           else (let c' = c\<lparr>rc_subscriptions := jdelete channelId (rc_subscriptions c)\<rparr> in
             if ws_open c' then send (Unsub, channelId, []) c' else (None, c'))))"

text \<open>\<open>httpBaseUrl\<close>: a leading \<open>ws\<close> becomes \<open>http\<close>, a trailing \<open>/ws\<close> or \<open>/ws/\<close> goes.\<close>

definition starts_with :: "js_string \<Rightarrow> js_string \<Rightarrow> bool" where
  "starts_with p s \<longleftrightarrow> take (length p) s = p"

definition ends_with :: "js_string \<Rightarrow> js_string \<Rightarrow> bool" where
  "ends_with p s \<longleftrightarrow> length p \<le> length s \<and> drop (length s - length p) s = p"

definition httpBaseUrl :: "js_string \<Rightarrow> js_string" where
  "httpBaseUrl url =
     (let u = (if starts_with (js_of ''ws'') url then js_of ''http'' @ drop 2 url else url) in
      if ends_with (js_of ''/ws'') u then take (length u - 3) u
      else if ends_with (js_of ''/ws/'') u then take (length u - 4) u
      else u)"

text \<open>\<open>resolveHttpToken\<close>; the argument is what \<open>getToken\<close> yields when it is configured.\<close>

definition resolveHttpToken :: "(client_error + js_string) \<Rightarrow> resolved_config \<Rightarrow> client_error + js_string" where
  "resolveHttpToken fresh_token cfg =
     (if rf_getToken cfg then fresh_token
      else (case rf_token cfg of
          Some tok \<Rightarrow> if tok = [] then Inl NoToken else Inr tok
        | None \<Rightarrow> Inl NoToken))"

section \<open>Inputs\<close>

text \<open>Everything that can happen to a client: calls of the application, answers of its
  \<open>getToken\<close>, and what the runtime fires.\<close>

datatype input =
    In_Connect platform
  | In_Disconnect
  | In_Publish "nat \<Rightarrow> rat" js_string js_string
  | In_Unicast "nat \<Rightarrow> rat" js_string js_string
  | In_Replay js_string nat
  | In_Subscribe js_string handler
  | In_Unsubscribe js_string handler
  | In_On event_name nat
  | In_Off event_name nat
  | In_Token platform nat js_string "js_string option"
  | In_Token_Rejected rat nat js_string
  | In_Impl bool nat
  | In_Open nat
  | In_Message nat int int int message_data
  | In_Error nat
  | In_Close nat rat nat js_string
  | In_Tick nat
  | In_Timeout platform nat

fun enabled :: "input \<Rightarrow> client \<Rightarrow> bool" where
  "enabled (In_Token _ a _ _) c \<longleftrightarrow> (a, Await_Token) \<in> set (rc_attempts c)"
| "enabled (In_Token_Rejected _ a _) c \<longleftrightarrow> (a, Await_Token) \<in> set (rc_attempts c)"
| "enabled (In_Impl _ a) c \<longleftrightarrow> (a, Await_Impl) \<in> set (rc_attempts c)"
| "enabled (In_Open s) c \<longleftrightarrow> s < length (rc_sockets c) \<and> sk_readyState (rc_sockets c ! s) = Connecting"
| "enabled (In_Message s _ _ _ _) c \<longleftrightarrow> s < length (rc_sockets c) \<and> sk_readyState (rc_sockets c ! s) = Open"
| "enabled (In_Error s) c \<longleftrightarrow> s < length (rc_sockets c) \<and> sk_readyState (rc_sockets c ! s) \<noteq> Closed_State"
| "enabled (In_Close s _ _ _) c \<longleftrightarrow> s < length (rc_sockets c) \<and> sk_readyState (rc_sockets c ! s) \<noteq> Closed_State"
| "enabled (In_Tick t) c \<longleftrightarrow> t \<in> set (rc_intervals c)"
| "enabled (In_Timeout _ t) c \<longleftrightarrow> t \<in> fst ` set (rc_timeouts c)"
| "enabled _ c \<longleftrightarrow> True"

text \<open>The socket changes its \<open>readyState\<close> before it fires \<open>open\<close> or \<open>close\<close>; a timeout is spent when it fires.\<close>

fun handle :: "input \<Rightarrow> client \<Rightarrow> client_error option \<times> client" where
  "handle (In_Connect pf) c = (None, connect pf c)"
| "handle In_Disconnect c = (None, disconnect c)"
| "handle (In_Publish rnd ch pl) c = publish rnd ch pl c"
| "handle (In_Unicast rnd u pl) c = unicast rnd u pl c"
| "handle (In_Replay ch since) c = replay ch since c"
| "handle (In_Subscribe ch h) c = subscribe ch h c"
| "handle (In_Unsubscribe ch h) c = unsubscribeHandler ch h c"
| "handle (In_On e l) c = (None, c\<lparr>rc_listeners := on_event e l (rc_listeners c)\<rparr>)"
| "handle (In_Off e l) c = (None, c\<lparr>rc_listeners := off_event e l (rc_listeners c)\<rparr>)"
| "handle (In_Token pf a tok url) c = (None, token_resolved pf a tok url c)"
| "handle (In_Token_Rejected rnd a reason) c = (None, token_rejected rnd a reason c)"
| "handle (In_Impl ok a) c = (None, impl_settled ok a c)"
| "handle (In_Open s) c = (None, as_callback (onopen s) (set_ready Open s c))"
| "handle (In_Message s n1 n2 n3 data) c = (None, onmessage n1 n2 n3 data c)"
| "handle (In_Error s) c = (None, onerror c)"
| "handle (In_Close s rnd code reason) c = (None, onclose rnd code reason (set_ready Closed_State s c))"
| "handle (In_Tick t) c = (None, as_callback heartbeat_tick c)"
| "handle (In_Timeout pf t) c =
     (None, let c' = c\<lparr>rc_timeouts := filter (\<lambda>(u, _). u \<noteq> t) (rc_timeouts c)\<rparr> in
            if \<not> rc_closedByUser c' then openSocket pf c' else c')"

inductive client_step :: "client \<Rightarrow> client \<Rightarrow> bool" where
  step: "enabled i c \<Longrightarrow> client_step c (snd (handle i c))"

inductive_cases client_stepE: "client_step c c'"

text \<open>A run over a list of inputs; \<open>None\<close> if one of them cannot happen.\<close>

fun run :: "input list \<Rightarrow> client \<Rightarrow> client option" where
  "run [] c = Some c"
| "run (i # rest) c = (if enabled i c then run rest (snd (handle i c)) else None)"

definition reachable :: "client \<Rightarrow> bool" where
  "reachable c \<longleftrightarrow> (\<exists>config. client_step\<^sup>*\<^sup>* (new_client config) c)"

interpretation cl: transition_system "\<lambda>c. \<exists>config. c = new_client config" client_step reachable
  by unfold_locales (auto simp: reachable_def)

end
