(* ===== verification/Client_Properties.thy ===== *)
theory Client_Properties
  imports Realtime_Client
begin

text \<open>
  What holds of every run of the client of \<open>Realtime_Client\<close>: the invariant of its fields, the order of
  the frames on a socket, the queue of early sends, the server's view of the subscriptions, delivery
  to handlers, reconnection and its backoff. A state in which an old socket closes late shows
  where the code loses its connection.
\<close>

section \<open>Operations that only write the log\<close>

definition valid_tenant :: "client \<Rightarrow> bool" where
  "valid_tenant c \<longleftrightarrow> UUID_RE (rf_tenantId (rc_config c))"

text \<open>The log entry of a frame that is handed to the current socket.\<close>

definition sent_entry :: "client \<Rightarrow> send_args \<Rightarrow> effect" where
  "sent_entry c args = Sent (the (rc_ws c)) args (projr (frame_for (rc_config c) args))"

lemma frame_for_Inr: "valid_tenant c \<Longrightarrow> \<exists>f. frame_for (rc_config c) args = Inr f"
  by (cases args) (simp add: valid_tenant_def frame_for_def encodeFrame_total)

lemma frame_for_Inl: "\<not> valid_tenant c \<Longrightarrow> \<exists>e. frame_for (rc_config c) args = Inl e"
  using encodeFrame_total
  by (cases args) (simp add: valid_tenant_def frame_for_def, metis frame_fields.select_convs(2) old.sum.exhaust)

lemma send_open: "valid_tenant c \<Longrightarrow> ws_open c \<Longrightarrow>
    send args c = (None, c\<lparr>rc_log := rc_log c @ [sent_entry c args]\<rparr>)"
  using frame_for_Inr [of c args] by (auto simp: send_def sent_entry_def)

lemma send_not_open: "\<not> ws_open c \<Longrightarrow> send args c = (Some NotOpen, c)"
  by (simp add: send_def)

lemma send_invalid: "\<not> valid_tenant c \<Longrightarrow> \<exists>e. send args c = (Some e, c)"
  using frame_for_Inl [of c args] by (auto simp: send_def)

lemma ws_open_cong: "rc_ws c = rc_ws d \<Longrightarrow> rc_sockets c = rc_sockets d \<Longrightarrow> ws_open c = ws_open d"
  by (cases "rc_ws d") (simp_all add: ws_open_def)

lemma ws_open_simps [simp]:
  "ws_open (c\<lparr>rc_log := l\<rparr>) = ws_open c"
  "ws_open (c\<lparr>rc_pendingSends := p\<rparr>) = ws_open c"
  "ws_open (c\<lparr>rc_reconnectAttempt := n\<rparr>) = ws_open c"
  "ws_open (c\<lparr>rc_subscriptions := m\<rparr>) = ws_open c"
  by (rule ws_open_cong, simp_all)+

lemma valid_tenant_simps [simp]:
  "valid_tenant (c\<lparr>rc_log := l\<rparr>) = valid_tenant c"
  "valid_tenant (c\<lparr>rc_pendingSends := p\<rparr>) = valid_tenant c"
  "valid_tenant (c\<lparr>rc_reconnectAttempt := n\<rparr>) = valid_tenant c"
  "valid_tenant (c\<lparr>rc_subscriptions := m\<rparr>) = valid_tenant c"
  by (simp_all add: valid_tenant_def)

lemma sent_entry_simps [simp]:
  "sent_entry (c\<lparr>rc_log := l\<rparr>) = sent_entry c"
  "sent_entry (c\<lparr>rc_pendingSends := p\<rparr>) = sent_entry c"
  "sent_entry (c\<lparr>rc_reconnectAttempt := n\<rparr>) = sent_entry c"
  "sent_entry (c\<lparr>rc_subscriptions := m\<rparr>) = sent_entry c"
  by (simp_all add: sent_entry_def fun_eq_iff)

lemma for_each_send_open:
  "valid_tenant c \<Longrightarrow> ws_open c \<Longrightarrow>
   for_each (\<lambda>x. send (f x)) xs c = (None, c\<lparr>rc_log := rc_log c @ map (\<lambda>x. sent_entry c (f x)) xs\<rparr>)"
  by (induction xs arbitrary: c) (simp_all add: skip_def and_then_def send_open)

lemma for_each_queue:
  "\<not> ws_open c \<Longrightarrow>
   for_each (\<lambda>x. sendOrQueue (f x)) xs c = (None, c\<lparr>rc_pendingSends := rc_pendingSends c @ map f xs\<rparr>)"
  by (induction xs arbitrary: c) (simp_all add: skip_def and_then_def sendOrQueue_def)

lemma for_each_sendOrQueue_open:
  "valid_tenant c \<Longrightarrow> ws_open c \<Longrightarrow>
   for_each (\<lambda>x. sendOrQueue (f x)) xs c = (None, c\<lparr>rc_log := rc_log c @ map (\<lambda>x. sent_entry c (f x)) xs\<rparr>)"
  by (induction xs arbitrary: c) (simp_all add: skip_def and_then_def sendOrQueue_def send_open)

section \<open>The callback of an opened socket\<close>

definition resub_args :: "client \<Rightarrow> send_args list" where
  "resub_args c = map (\<lambda>ch. (Subscribe, ch, [])) (jkeys (rc_subscriptions c))"

definition open_frames :: "nat \<Rightarrow> client \<Rightarrow> send_args list" where
  "open_frames s c = (Auth, [], sk_token (rc_sockets c ! s)) # resub_args c @ rc_pendingSends c"

definition after_open :: "nat \<Rightarrow> client \<Rightarrow> client" where
  "after_open s c = emit Authenticated (emit Opened (startHeartbeat (c\<lparr>rc_reconnectAttempt := 0,
     rc_pendingSends := [], rc_log := rc_log c @ map (sent_entry c) (open_frames s c)\<rparr>)))"

lemma onopen_open:
  assumes "valid_tenant c" "ws_open c"
  shows "onopen s c = (None, after_open s c)"
proof -
  let ?c1 = "c\<lparr>rc_reconnectAttempt := 0\<rparr>"
  let ?c2 = "?c1\<lparr>rc_log := rc_log c @ [sent_entry c (Auth, [], sk_token (rc_sockets c ! s))]\<rparr>"
  let ?c3 = "?c2\<lparr>rc_log := rc_log ?c2 @ map (sent_entry c) (resub_args c)\<rparr>"
  let ?c4 = "?c3\<lparr>rc_pendingSends := [], rc_log := rc_log ?c3 @ map (sent_entry c) (rc_pendingSends c)\<rparr>"
  have s1: "send (Auth, [], sk_token (rc_sockets c ! s)) ?c1 = (None, ?c2)"
    by (subst send_open) (simp_all add: assms)
  have s2: "resubscribeAll ?c2 = (None, ?c3)"
    unfolding resubscribeAll_def by (subst for_each_send_open) (simp_all add: assms resub_args_def comp_def)
  have "for_each (\<lambda>x. send x) (rc_pendingSends c) (?c3\<lparr>rc_pendingSends := []\<rparr>) = (None, ?c4)"
    by (subst for_each_send_open) (simp_all add: assms)
  then have s3: "flushPendingSends ?c3 = (None, ?c4)" by (simp add: flushPendingSends_def Let_def)
  show ?thesis
    by (simp only: onopen_def and_then_def s1 s2 s3 prod.case option.case)
      (simp add: after_open_def open_frames_def)
qed

lemma onopen_not_open:
  "\<not> ws_open c \<Longrightarrow> onopen s c = (Some NotOpen, c\<lparr>rc_reconnectAttempt := 0\<rparr>)"
  by (simp add: onopen_def and_then_def send_not_open)

lemma onopen_invalid:
  assumes "\<not> valid_tenant c"
  shows "\<exists>e. onopen s c = (Some e, c\<lparr>rc_reconnectAttempt := 0\<rparr>)"
  using send_invalid [of "c\<lparr>rc_reconnectAttempt := 0\<rparr>" "(Auth, [], sk_token (rc_sockets c ! s))"] assms
  by (auto simp: onopen_def and_then_def)

section \<open>The invariant of the fields\<close>

definition subs_ok :: "(js_string, handler list) jmap \<Rightarrow> bool" where
  "subs_ok m \<longleftrightarrow> jmap_ok m \<and> (\<forall>k hs. jget m k = Some hs \<longrightarrow> hs \<noteq> [] \<and> distinct hs)"

definition attempts_ok :: "client \<Rightarrow> bool" where
  "attempts_ok c \<longleftrightarrow> distinct (map fst (rc_attempts c)) \<and> (\<forall>(a, _) \<in> set (rc_attempts c). a < rc_next_attempt c) \<and>
     (\<forall>a. (a, Await_Impl) \<in> set (rc_attempts c) \<longrightarrow> rc_wsImplPromise c \<noteq> None)"

definition client_ok :: "client \<Rightarrow> bool" where
  "client_ok c \<longleftrightarrow> subs_ok (rc_subscriptions c) \<and> (\<forall>s. rc_ws c = Some s \<longrightarrow> s < length (rc_sockets c)) \<and>
     rc_intervals c = (case rc_heartbeatTimer c of None \<Rightarrow> [] | Some t \<Rightarrow> [t]) \<and>
     reassembler_ok (rc_reassembler c) \<and> listeners_ok (rc_listeners c) \<and> attempts_ok c"

lemma attempts_ok_simps [simp]:
  "attempts_ok (c\<lparr>rc_log := l\<rparr>) = attempts_ok c"
  "attempts_ok (c\<lparr>rc_pendingSends := p\<rparr>) = attempts_ok c"
  "attempts_ok (c\<lparr>rc_reconnectAttempt := n\<rparr>) = attempts_ok c"
  "attempts_ok (c\<lparr>rc_subscriptions := m\<rparr>) = attempts_ok c"
  "attempts_ok (c\<lparr>rc_config := f\<rparr>) = attempts_ok c"
  "attempts_ok (c\<lparr>rc_ws := w\<rparr>) = attempts_ok c"
  "attempts_ok (c\<lparr>rc_sockets := ss\<rparr>) = attempts_ok c"
  "attempts_ok (c\<lparr>rc_closedByUser := b\<rparr>) = attempts_ok c"
  "attempts_ok (c\<lparr>rc_timeouts := ts\<rparr>) = attempts_ok c"
  "attempts_ok (c\<lparr>rc_reconnectTimer := rt\<rparr>) = attempts_ok c"
  "attempts_ok (c\<lparr>rc_next_timer := k\<rparr>) = attempts_ok c"
  "attempts_ok (c\<lparr>rc_heartbeatTimer := hb\<rparr>) = attempts_ok c"
  "attempts_ok (c\<lparr>rc_intervals := iv\<rparr>) = attempts_ok c"
  "attempts_ok (c\<lparr>rc_reassembler := ra\<rparr>) = attempts_ok c"
  "attempts_ok (c\<lparr>rc_listeners := ls\<rparr>) = attempts_ok c"
  by (simp_all add: attempts_ok_def)

lemma client_ok_log [simp]:
  "client_ok (c\<lparr>rc_log := l\<rparr>) = client_ok c"
  "client_ok (c\<lparr>rc_pendingSends := p\<rparr>) = client_ok c"
  "client_ok (c\<lparr>rc_reconnectAttempt := n\<rparr>) = client_ok c"
  "client_ok (c\<lparr>rc_config := f\<rparr>) = client_ok c"
  "client_ok (c\<lparr>rc_closedByUser := b\<rparr>) = client_ok c"
  "client_ok (c\<lparr>rc_timeouts := ts\<rparr>) = client_ok c"
  by (simp_all add: client_ok_def)

lemma client_ok_emit [simp]: "client_ok (emit ev c) = client_ok c"
  by (simp add: emit_def)

lemma client_ok_new: "client_ok (new_client config)"
  by (simp add: client_ok_def new_client_def subs_ok_def reassembler_ok_def listeners_ok_def attempts_ok_def)

lemma send_writes_log: "\<exists>l. snd (send a c) = c\<lparr>rc_log := l\<rparr>"
proof (cases "valid_tenant c \<and> ws_open c")
  case True
  then show ?thesis using send_open [of c a] by auto
next
  case False
  then have "snd (send a c) = c" using send_invalid [of c a] send_not_open [of c a] by fastforce
  then have "snd (send a c) = c\<lparr>rc_log := rc_log c\<rparr>" by simp
  then show ?thesis by blast
qed

lemma client_ok_send [simp]: "client_ok (snd (send a c)) = client_ok c"
  using send_writes_log [of a c] by auto

lemma for_each_keeps:
  assumes "\<And>x c. P c \<Longrightarrow> P (snd (f x c))" "P c"
  shows "P (snd (for_each f xs c))"
  using assms(2)
proof (induction xs arbitrary: c)
  case (Cons x xs)
  then show ?case using assms(1) [of c x] by (auto simp: and_then_def split: prod.splits option.splits)
qed (simp add: skip_def)

lemma client_ok_sendOrQueue: "client_ok c \<Longrightarrow> client_ok (snd (sendOrQueue a c))"
  by (simp add: sendOrQueue_def)

lemma client_ok_send_chunks: "client_ok c \<Longrightarrow> client_ok (snd (send_chunks rnd q t pl c))"
  by (simp add: send_chunks_def for_each_keeps [where P = client_ok] client_ok_sendOrQueue split: sum.split)

lemma client_ok_stopHeartbeat: "client_ok c \<Longrightarrow> client_ok (stopHeartbeat c)"
  by (auto simp: stopHeartbeat_def client_ok_def split: option.splits)

lemma client_ok_startHeartbeat: "client_ok c \<Longrightarrow> client_ok (startHeartbeat c)"
  by (auto simp: startHeartbeat_def stopHeartbeat_def client_ok_def Let_def split: option.splits)

lemma client_ok_after_open: "client_ok c \<Longrightarrow> client_ok (after_open s c)"
  by (simp add: after_open_def client_ok_startHeartbeat)

lemma client_ok_onopen: "client_ok c \<Longrightarrow> client_ok (snd (onopen s c))"
  using onopen_open [of c s] onopen_not_open [of c s] onopen_invalid [of c s]
  by (cases "valid_tenant c"; cases "ws_open c") (auto simp: client_ok_after_open)

lemma client_ok_as_callback: "client_ok (snd (p c)) \<Longrightarrow> client_ok (as_callback p c)"
  by (auto simp: as_callback_def split: prod.splits option.splits)

lemma client_ok_set_ready: "client_ok c \<Longrightarrow> client_ok (set_ready r s c)"
  by (simp add: client_ok_def set_ready_def)

lemma client_ok_scheduleReconnect: "client_ok c \<Longrightarrow> client_ok (scheduleReconnect rnd c)"
  by (simp add: client_ok_def scheduleReconnect_def Let_def)

lemma client_ok_drop_attempt: "client_ok c \<Longrightarrow> client_ok (drop_attempt a c)"
  by (auto simp: client_ok_def attempts_ok_def drop_attempt_def distinct_map_filter)

lemma drop_attempt_gone: "a \<notin> fst ` set (rc_attempts (drop_attempt a c))"
  by (auto simp: drop_attempt_def)

lemma client_ok_await_impl:
  "client_ok c \<Longrightarrow> a \<notin> fst ` set (rc_attempts c) \<Longrightarrow> a < rc_next_attempt c \<Longrightarrow> client_ok (await_impl pf a c)"
  by (auto simp: client_ok_def attempts_ok_def await_impl_def Let_def split: option.splits)

lemma client_ok_openSocket: "client_ok c \<Longrightarrow> client_ok (openSocket pf c)"
proof -
  assume c: "client_ok c"
  let ?a = "rc_next_attempt c" let ?c = "c\<lparr>rc_next_attempt := rc_next_attempt c + 1\<rparr>"
  have "client_ok ?c" "?a \<notin> fst ` set (rc_attempts ?c)"
    using c by (auto simp: client_ok_def attempts_ok_def)
  then show ?thesis using client_ok_await_impl [of ?c ?a pf] c
    by (auto simp: openSocket_def Let_def client_ok_def attempts_ok_def)
qed

lemma client_ok_token_resolved:
  assumes "client_ok c" "(a, Await_Token) \<in> set (rc_attempts c)"
  shows "client_ok (token_resolved pf a tok url c)"
proof -
  have "a < rc_next_attempt c" using assms by (auto simp: client_ok_def attempts_ok_def)
  then show ?thesis
    using client_ok_drop_attempt [OF assms(1), of a] drop_attempt_gone [of a c]
    by (auto simp: token_resolved_def Let_def intro!: client_ok_await_impl) (simp_all add: drop_attempt_def)
qed

lemma client_ok_impl_settled: "client_ok c \<Longrightarrow> client_ok (impl_settled ok a c)"
  using client_ok_drop_attempt [of c a]
  by (auto simp: impl_settled_def Let_def client_ok_def emit_def split: sum.splits option.splits)

lemma client_ok_dispatch: "client_ok c \<Longrightarrow> client_ok (dispatch n1 n2 n3 f c)"
proof -
  assume c: "client_ok c"
  show ?thesis
  proof (cases "parseChunk (df_payload f)")
    case None
    then show ?thesis using c by (simp add: dispatch_def Let_def emit_def client_ok_def)
  next
    case (Some h)
    obtain r out where fd: "feed n1 n2 h (rc_reassembler c) = (r, out)" by fastforce
    have "client_ok (c\<lparr>rc_reassembler := r\<rparr>)" using feed_ok [of "rc_reassembler c" n1 n2 h] c fd by (simp add: client_ok_def)
    then show ?thesis using Some fd by (cases out) (simp_all add: dispatch_def Let_def emit_def client_ok_def)
  qed
qed

lemma client_ok_onmessage: "client_ok c \<Longrightarrow> client_ok (onmessage n1 n2 n3 d c)"
  by (simp add: onmessage_def client_ok_dispatch split: option.split sum.split)

lemma client_ok_ws_None: "client_ok c \<Longrightarrow> client_ok (c\<lparr>rc_ws := None\<rparr>)"
  by (simp add: client_ok_def)

lemma client_ok_onclose: "client_ok c \<Longrightarrow> client_ok (onclose rnd code reason c)"
  by (simp add: onclose_def Let_def client_ok_scheduleReconnect client_ok_ws_None client_ok_stopHeartbeat)

lemma client_ok_disconnect: "client_ok c \<Longrightarrow> client_ok (disconnect c)"
  by (auto simp: disconnect_def Let_def ws_close_def client_ok_ws_None client_ok_stopHeartbeat client_ok_set_ready
      split: option.splits)

lemma subs_ok_add: "subs_ok m \<Longrightarrow> subs_ok (jset k (set_add h (case jget m k of Some s \<Rightarrow> s | None \<Rightarrow> [])) m)"
  by (auto simp: subs_ok_def jmap_simps jmap_ok_intros distinct_set_add split: option.splits if_splits)

lemma subs_ok_remove: "subs_ok m \<Longrightarrow> jget m k = Some hs \<Longrightarrow> set_remove h hs \<noteq> [] \<Longrightarrow>
    subs_ok (jset k (set_remove h hs) m)"
  by (auto simp: subs_ok_def jmap_simps jmap_ok_intros distinct_set_remove split: if_splits)

lemma subs_ok_delete: "subs_ok m \<Longrightarrow> subs_ok (jdelete k m)"
  by (auto simp: subs_ok_def jmap_simps jmap_ok_intros split: if_splits)

lemma client_ok_subs: "client_ok c \<Longrightarrow> subs_ok m \<Longrightarrow> client_ok (c\<lparr>rc_subscriptions := m\<rparr>)"
  by (simp add: client_ok_def)

lemma client_ok_subs_ok: "client_ok c \<Longrightarrow> subs_ok (rc_subscriptions c)"
  by (simp add: client_ok_def)

lemma client_ok_subscribe: "client_ok c \<Longrightarrow> client_ok (snd (subscribe ch h c))"
  using subs_ok_add [of "rc_subscriptions c" ch h]
  by (auto simp: subscribe_def Let_def client_ok_subs client_ok_subs_ok split: option.splits)

lemma client_ok_unsubscribe: "client_ok c \<Longrightarrow> client_ok (snd (unsubscribeHandler ch h c))"
  by (auto simp: unsubscribeHandler_def Let_def client_ok_subs subs_ok_remove subs_ok_delete client_ok_subs_ok
      split: option.split)

lemmas client_ok_intros = client_ok_send_chunks client_ok_sendOrQueue client_ok_onopen client_ok_as_callback
  client_ok_set_ready client_ok_openSocket client_ok_token_resolved client_ok_impl_settled client_ok_onmessage
  client_ok_onclose client_ok_disconnect client_ok_subscribe client_ok_unsubscribe client_ok_scheduleReconnect
  client_ok_drop_attempt

lemma client_ok_listeners: "client_ok c \<Longrightarrow> listeners_ok ls \<Longrightarrow> client_ok (c\<lparr>rc_listeners := ls\<rparr>)"
  by (simp add: client_ok_def)

lemma client_ok_handle: "enabled i c \<Longrightarrow> client_ok c \<Longrightarrow> client_ok (snd (handle i c))"
proof (cases i)
  case (In_On e l)
  then show "client_ok c \<Longrightarrow> ?thesis"
    by (auto intro!: client_ok_listeners on_event_ok) (simp add: client_ok_def)
next
  case (In_Off e l)
  then show "client_ok c \<Longrightarrow> ?thesis"
    by (auto intro!: client_ok_listeners off_event_ok) (simp add: client_ok_def)
qed (auto intro!: client_ok_intros simp: connect_def publish_def unicast_def replay_def Let_def
      token_rejected_def onerror_def heartbeat_tick_def)

section \<open>Frames on a socket\<close>

text \<open>The arguments of the sends on socket \<open>s\<close>, in order.\<close>

definition sends :: "nat \<Rightarrow> effect list \<Rightarrow> send_args list" where
  "sends s es = concat (map (\<lambda>e. case e of Sent s' args _ \<Rightarrow> if s' = s then [args] else [] | _ \<Rightarrow> []) es)"

text \<open>The channels the server holds subscribed for a connection after the frames it got there.\<close>

fun server_step :: "send_args \<Rightarrow> js_string set \<Rightarrow> js_string set" where
  "server_step (q, ch, _) S = (if q = Subscribe then insert ch S else if q = Unsub then S - {ch} else S)"

definition server_view :: "send_args list \<Rightarrow> js_string set" where
  "server_view frames = fold server_step frames {}"

lemma sends_Nil [simp]: "sends s [] = []"
  by (simp add: sends_def)

lemma sends_append [simp]: "sends s (xs @ ys) = sends s xs @ sends s ys"
  by (simp add: sends_def)

lemma sends_Cons [simp]:
  "sends s (Sent s' a f # es) = (if s' = s then a # sends s es else sends s es)"
  "sends s (Emitted ev ls # es) = sends s es"
  "sends s (Handled h m # es) = sends s es"
  "sends s (Uncaught e # es) = sends s es"
  by (simp_all add: sends_def)

lemma sends_handled [simp]: "sends s (map (\<lambda>h. Handled h m) hs) = []"
  by (induction hs) simp_all

lemma sends_map_entry [simp]: "sends s (map (sent_entry c) as) = (if the (rc_ws c) = s then as else [])"
  by (induction as) (auto simp: sent_entry_def)

lemma sends_emit [simp]: "sends s (rc_log (emit ev c)) = sends s (rc_log c)"
  by (simp add: emit_def)

lemma server_view_append: "server_view (xs @ ys) = fold server_step ys (server_view xs)"
  by (simp add: server_view_def)

lemma fold_server_neutral:
  "\<forall>a \<in> set as. fst a \<noteq> Subscribe \<and> fst a \<noteq> Unsub \<Longrightarrow> fold server_step as S = S"
  by (induction as arbitrary: S) auto

lemma fold_server_resub: "fold server_step (map (\<lambda>ch. (Subscribe, ch, [])) chs) S = S \<union> set chs"
  by (induction chs arbitrary: S) auto

definition pending_ok :: "client \<Rightarrow> bool" where
  "pending_ok c \<longleftrightarrow> (\<forall>(q, ch, pl) \<in> set (rc_pendingSends c). q \<in> {Publish, Unicast, Replay})"

definition frames_ok :: "client \<Rightarrow> bool" where
  "frames_ok c \<longleftrightarrow>
     (\<forall>s. sends s (rc_log c) \<noteq> [] \<longrightarrow> fst (hd (sends s (rc_log c))) = Auth \<and> valid_tenant c \<and>
        s < length (rc_sockets c) \<and> sk_readyState (rc_sockets c ! s) \<noteq> Connecting)"

definition open_ok :: "client \<Rightarrow> bool" where
  "open_ok c \<longleftrightarrow> (valid_tenant c \<and> ws_open c \<longrightarrow>
     sends (the (rc_ws c)) (rc_log c) \<noteq> [] \<and> rc_pendingSends c = [] \<and>
     server_view (sends (the (rc_ws c)) (rc_log c)) = set (jkeys (rc_subscriptions c)))"

definition wire_ok :: "client \<Rightarrow> bool" where
  "wire_ok c \<longleftrightarrow> pending_ok c \<and> frames_ok c \<and> open_ok c"

text \<open>What these predicates look at: a step that leaves it alone keeps them.\<close>

definition wire_part where
  "wire_part c = (rf_tenantId (rc_config c), rc_ws c, rc_sockets c, rc_subscriptions c, rc_pendingSends c,
     (\<lambda>s. sends s (rc_log c)))"

lemma wire_ok_cong: "wire_part c' = wire_part c \<Longrightarrow> wire_ok c' = wire_ok c"
proof -
  assume eq: "wire_part c' = wire_part c"
  then have "ws_open c' = ws_open c" by (intro ws_open_cong) (simp_all add: wire_part_def)
  moreover have "sends s (rc_log c') = sends s (rc_log c)" for s
    using eq by (simp add: wire_part_def fun_eq_iff)
  ultimately show ?thesis using eq
    by (simp add: wire_part_def wire_ok_def pending_ok_def frames_ok_def open_ok_def valid_tenant_def)
qed

text \<open>Losing the current socket keeps them, if sockets only move away from \<open>Connecting\<close>.\<close>

lemma wire_ok_no_socket:
  assumes "wire_ok c" "\<not> ws_open c'" "valid_tenant c' = valid_tenant c" "rc_pendingSends c' = rc_pendingSends c"
    "\<And>s. sends s (rc_log c') = sends s (rc_log c)" "length (rc_sockets c) \<le> length (rc_sockets c')"
    "\<And>s. s < length (rc_sockets c) \<Longrightarrow> sk_readyState (rc_sockets c ! s) \<noteq> Connecting \<Longrightarrow>
       sk_readyState (rc_sockets c' ! s) \<noteq> Connecting"
  shows "wire_ok c'"
  using assms by (fastforce simp: wire_ok_def pending_ok_def frames_ok_def open_ok_def)

text \<open>Frames on the current socket, once it has had its first.\<close>

lemma wire_ok_sent:
  assumes "wire_ok c" "valid_tenant c" "ws_open c" "wire_part c' = wire_part (c\<lparr>rc_subscriptions := m,
      rc_log := rc_log c @ map (sent_entry c) as\<rparr>)"
    "fold server_step as (set (jkeys (rc_subscriptions c))) = set (jkeys m)"
  shows "wire_ok c'"
proof -
  let ?d = "c\<lparr>rc_subscriptions := m, rc_log := rc_log c @ map (sent_entry c) as\<rparr>"
  have "frames_ok ?d" using assms(1,2) by (auto simp: wire_ok_def frames_ok_def open_ok_def assms(3))
  moreover have "open_ok ?d" using assms(1,2,3,5)
    by (simp add: wire_ok_def open_ok_def server_view_append)
  moreover have "pending_ok ?d" using assms(1) by (simp add: wire_ok_def pending_ok_def)
  ultimately have "wire_ok ?d" by (simp add: wire_ok_def)
  then show ?thesis using wire_ok_cong [OF assms(4)] by simp
qed

lemma wire_part_simps:
  "wire_part (c\<lparr>rc_reconnectAttempt := n\<rparr>) = wire_part c"
  "wire_part (c\<lparr>rc_closedByUser := b\<rparr>) = wire_part c"
  "wire_part (c\<lparr>rc_timeouts := ts\<rparr>) = wire_part c"
  "wire_part (c\<lparr>rc_listeners := ls\<rparr>) = wire_part c"
  "wire_part (c\<lparr>rc_reassembler := ra\<rparr>) = wire_part c"
  "wire_part (c\<lparr>rc_attempts := ats\<rparr>) = wire_part c"
  "wire_part (emit ev c) = wire_part c"
  "wire_part (c\<lparr>rc_log := rc_log c @ [Uncaught e]\<rparr>) = wire_part c"
  "wire_part (stopHeartbeat c) = wire_part c"
  "wire_part (startHeartbeat c) = wire_part c"
  "wire_part (scheduleReconnect rnd c) = wire_part c"
  "wire_part (drop_attempt a c) = wire_part c"
  "wire_part (await_impl pf a c) = wire_part c"
  "wire_part (openSocket pf c) = wire_part c"
  by (simp_all add: wire_part_def emit_def stopHeartbeat_def startHeartbeat_def scheduleReconnect_def
      drop_attempt_def await_impl_def openSocket_def Let_def split: option.split)

lemma wire_part_token_resolved: "wire_part (token_resolved pf a tok url c) = wire_part c"
  by (simp add: token_resolved_def Let_def wire_part_simps) (simp add: wire_part_def drop_attempt_def)

lemma wire_part_token_rejected: "wire_part (token_rejected rnd a reason c) = wire_part c"
  by (simp add: token_rejected_def Let_def wire_part_simps)

lemma wire_part_dispatch: "wire_part (dispatch n1 n2 n3 f c) = wire_part c"
  by (auto simp: dispatch_def Let_def emit_def wire_part_def split: option.split prod.split)

lemma wire_part_onmessage: "wire_part (onmessage n1 n2 n3 d c) = wire_part c"
  by (simp add: onmessage_def wire_part_dispatch wire_part_simps split: option.split sum.split)

lemmas wire_part_steps = wire_part_simps wire_part_token_resolved wire_part_token_rejected wire_part_onmessage

lemma wire_ok_new: "wire_ok (new_client config)"
  by (simp add: wire_ok_def pending_ok_def frames_ok_def open_ok_def new_client_def ws_open_def)

lemma wire_ok_invalid_send: "\<not> (valid_tenant c \<and> ws_open c) \<Longrightarrow> snd (send a c) = c"
  using send_invalid [of c a] by (cases "ws_open c") (auto simp: send_not_open)

lemma wire_ok_send_neutral:
  assumes "wire_ok c" "fst a \<noteq> Subscribe" "fst a \<noteq> Unsub"
  shows "wire_ok (snd (send a c))"
proof (cases "valid_tenant c \<and> ws_open c")
  case True
  then show ?thesis using assms
    by (cases a) (auto simp: send_open intro!: wire_ok_sent [OF assms(1), where as = "[a]" and m = "rc_subscriptions c"])
qed (simp add: wire_ok_invalid_send assms)

lemma wire_ok_queue:
  assumes "wire_ok c" "\<not> ws_open c" "fst a \<in> {Publish, Unicast, Replay}"
  shows "wire_ok (c\<lparr>rc_pendingSends := rc_pendingSends c @ [a]\<rparr>)"
  using assms by (auto simp: wire_ok_def pending_ok_def frames_ok_def open_ok_def)

lemma wire_ok_sendOrQueue:
  "fst a \<in> {Publish, Unicast, Replay} \<Longrightarrow> wire_ok c \<Longrightarrow> wire_ok (snd (sendOrQueue a c))"
  using wire_ok_send_neutral [of c a] wire_ok_queue [of c a] by (auto simp: sendOrQueue_def)

lemma wire_ok_send_chunks:
  "q \<in> {Publish, Unicast} \<Longrightarrow> wire_ok c \<Longrightarrow> wire_ok (snd (send_chunks rnd q t pl c))"
  by (auto simp: send_chunks_def intro!: for_each_keeps [where P = wire_ok] wire_ok_sendOrQueue split: sum.split)

lemma wire_ok_subscribe:
  assumes "wire_ok c"
  shows "wire_ok (snd (subscribe ch h c))"
proof -
  let ?hs = "set_add h (case jget (rc_subscriptions c) ch of Some s \<Rightarrow> s | None \<Rightarrow> [])"
  let ?c = "c\<lparr>rc_subscriptions := jset ch ?hs (rc_subscriptions c)\<rparr>"
  have keys: "set (jkeys (jset ch ?hs (rc_subscriptions c))) = insert ch (set (jkeys (rc_subscriptions c)))"
    by (auto simp: jmap_simps)
  show ?thesis
  proof (cases "valid_tenant c \<and> ws_open c \<and> jget (rc_subscriptions c) ch = None")
    case True
    then have "snd (subscribe ch h c) = c\<lparr>rc_subscriptions := rc_subscriptions ?c,
        rc_log := rc_log c @ map (sent_entry c) [(Subscribe, ch, [])]\<rparr>"
      by (simp add: subscribe_def Let_def send_open)
    then show ?thesis using keys True
      by (auto intro!: wire_ok_sent [OF assms, where as = "[(Subscribe, ch, [])]" and m = "rc_subscriptions ?c"])
  next
    case False
    then have snd: "snd (subscribe ch h c) = ?c"
      by (auto simp: subscribe_def Let_def wire_ok_invalid_send)
    have "wire_ok ?c" if "jget (rc_subscriptions c) ch \<noteq> None \<or> \<not> (valid_tenant c \<and> ws_open c)"
      using assms that keys jm.key_iff [of ch "rc_subscriptions c"]
      by (auto simp: wire_ok_def pending_ok_def frames_ok_def open_ok_def)
    then show ?thesis using False snd by auto
  qed
qed

lemma wire_ok_unsubscribe:
  assumes "wire_ok c"
  shows "wire_ok (snd (unsubscribeHandler ch h c))"
proof (cases "jget (rc_subscriptions c) ch")
  case None
  then show ?thesis using assms by (simp add: unsubscribeHandler_def)
next
  case (Some hs)
  have key: "ch \<in> set (jkeys (rc_subscriptions c))" using Some jm.key_iff by fastforce
  show ?thesis
  proof (cases "set_remove h hs = []")
    case False
    then have "set (jkeys (jset ch (set_remove h hs) (rc_subscriptions c))) = set (jkeys (rc_subscriptions c))"
      using key by (auto simp: jmap_simps)
    then show ?thesis using assms Some False
      by (auto simp: unsubscribeHandler_def wire_ok_def pending_ok_def frames_ok_def open_ok_def)
  next
    case True
    let ?m = "jdelete ch (rc_subscriptions c)"
    have keys: "set (jkeys ?m) = set (jkeys (rc_subscriptions c)) - {ch}" by (auto simp: jmap_simps)
    show ?thesis
    proof (cases "valid_tenant c \<and> ws_open c")
      case live: True
      then have eq: "snd (unsubscribeHandler ch h c) = c\<lparr>rc_subscriptions := ?m,
          rc_log := rc_log c @ map (sent_entry c) [(Unsub, ch, [])]\<rparr>"
        using Some True by (simp add: unsubscribeHandler_def Let_def send_open)
      show ?thesis
        by (rule wire_ok_sent [OF assms, where as = "[(Unsub, ch, [])]" and m = ?m]) (use eq keys live in simp_all)
    next
      case False
      then have eq: "snd (unsubscribeHandler ch h c) = c\<lparr>rc_subscriptions := ?m\<rparr>"
        using Some True by (auto simp: unsubscribeHandler_def Let_def wire_ok_invalid_send)
      then show ?thesis using assms False
        by (auto simp: wire_ok_def pending_ok_def frames_ok_def open_ok_def)
    qed
  qed
qed

lemma rc_set_ready [simp]:
  "rc_ws (set_ready r s c) = rc_ws c" "rc_log (set_ready r s c) = rc_log c"
  "rc_pendingSends (set_ready r s c) = rc_pendingSends c" "rc_subscriptions (set_ready r s c) = rc_subscriptions c"
  "rc_config (set_ready r s c) = rc_config c" "length (rc_sockets (set_ready r s c)) = length (rc_sockets c)"
  "valid_tenant (set_ready r s c) = valid_tenant c"
  by (simp_all add: set_ready_def valid_tenant_def)

lemma set_ready_state:
  "s' < length (rc_sockets c) \<Longrightarrow> sk_readyState (rc_sockets (set_ready r s c) ! s') =
     (if s' = s then r else sk_readyState (rc_sockets c ! s'))"
  by (auto simp: set_ready_def nth_list_update)

lemma frames_ok_set_ready: "frames_ok c \<Longrightarrow> r \<noteq> Connecting \<Longrightarrow> frames_ok (set_ready r s c)"
  by (auto simp: frames_ok_def set_ready_state)

lemma pending_ok_set_ready [simp]: "pending_ok (set_ready r s c) = pending_ok c"
  by (simp add: pending_ok_def)

lemma wire_ok_after_open:
  assumes c: "wire_ok c" and conn: "s < length (rc_sockets c)" "sk_readyState (rc_sockets c ! s) = Connecting"
    and v: "valid_tenant c" and op: "ws_open (set_ready Open s c)"
    and ws: "rc_ws c = Some w" "w < length (rc_sockets c)"
  shows "wire_ok (after_open s (set_ready Open s c))"
proof -
  let ?c = "set_ready Open s c" let ?k = "set (jkeys (rc_subscriptions c))"
  define d where "d = ?c\<lparr>rc_reconnectAttempt := 0, rc_pendingSends := [],
      rc_log := rc_log c @ map (sent_entry ?c) (open_frames s ?c)\<rparr>"
  have fr: "frames_ok ?c" using c by (simp add: wire_ok_def frames_ok_set_ready)
  have w: "sk_readyState (rc_sockets ?c ! w) = Open" using op ws by (simp add: ws_open_def)
  have "sends s (rc_log c) = []" using c conn by (auto simp: wire_ok_def frames_ok_def)
  then have view: "server_view (sends w (rc_log c)) \<subseteq> ?k"
    and first: "sends w (rc_log c) \<noteq> [] \<longrightarrow> fst (hd (sends w (rc_log c))) = Auth"
    using c v ws w conn
    by (auto simp: wire_ok_def frames_ok_def open_ok_def ws_open_def set_ready_state server_view_def split: if_splits)
  have sends: "sends s' (rc_log d) = sends s' (rc_log c) @ (if s' = w then open_frames s ?c else [])" for s'
    using ws by (auto simp: d_def)
  have dd: "rc_sockets d = rc_sockets ?c" "valid_tenant d = valid_tenant c" by (simp_all add: d_def)
  have "frames_ok d"
    using fr first v ws w by (auto simp: frames_ok_def sends dd open_frames_def hd_append)
  moreover have "fold server_step (rc_pendingSends c) S = S" for S
    using c by (intro fold_server_neutral) (auto simp: wire_ok_def pending_ok_def)
  then have "server_view (sends w (rc_log d)) = ?k"
    using view by (auto simp: sends server_view_append open_frames_def resub_args_def fold_server_resub)
  then have "open_ok d" using sends [of w] ws by (simp add: open_ok_def d_def open_frames_def)
  moreover have "pending_ok d" by (simp add: pending_ok_def d_def)
  ultimately have "wire_ok d" by (simp add: wire_ok_def)
  moreover have "wire_part (after_open s ?c) = wire_part d"
    by (simp add: after_open_def d_def wire_part_simps)
  ultimately show ?thesis using wire_ok_cong by blast
qed

lemma wire_ok_open:
  assumes c: "wire_ok c" and ok: "client_ok c"
    and conn: "s < length (rc_sockets c)" "sk_readyState (rc_sockets c ! s) = Connecting"
  shows "wire_ok (as_callback (onopen s) (set_ready Open s c))"
proof (cases "valid_tenant c \<and> ws_open (set_ready Open s c)")
  case True
  then obtain w where w: "rc_ws c = Some w" by (auto simp: ws_open_def split: option.splits)
  then have "w < length (rc_sockets c)" using ok by (simp add: client_ok_def)
  with True w show ?thesis
    using wire_ok_after_open [OF c conn] onopen_open [of "set_ready Open s c" s] by (simp add: as_callback_def)
next
  case False
  let ?c = "set_ready Open s c"
  obtain e where e: "onopen s ?c = (Some e, ?c\<lparr>rc_reconnectAttempt := 0\<rparr>)"
    using onopen_invalid [of ?c s] onopen_not_open [of ?c s] False by auto
  have "wire_ok ?c" using c False by (auto simp: wire_ok_def frames_ok_set_ready open_ok_def)
  moreover have "wire_part (as_callback (onopen s) ?c) = wire_part ?c"
    by (simp add: as_callback_def e) (simp add: wire_part_def)
  ultimately show ?thesis using wire_ok_cong by blast
qed

lemma rc_drop_attempt [simp]:
  "rc_wsImplPromise (drop_attempt a c) = rc_wsImplPromise c" "rc_closedByUser (drop_attempt a c) = rc_closedByUser c"
  "rc_config (drop_attempt a c) = rc_config c" "rc_sockets (drop_attempt a c) = rc_sockets c"
  "rc_log (drop_attempt a c) = rc_log c"
  by (simp_all add: drop_attempt_def)

text \<open>The two outcomes of a settled implementation: a socket is created, or only the log may change.\<close>

definition with_socket :: "js_string \<Rightarrow> client \<Rightarrow> client" where
  "with_socket tok c = c\<lparr>rc_ws := Some (length (rc_sockets c)), rc_sockets := rc_sockets c @
     [\<lparr>sk_readyState = Connecting, sk_url = rf_url (rc_config c), sk_token = tok\<rparr>]\<rparr>"

lemma impl_settled_cases:
  obtains (log_only) es where "impl_settled b a c = (drop_attempt a c)\<lparr>rc_log := rc_log c @ es\<rparr>" "\<And>s. sends s es = []"
  | (created) tok where "impl_settled b a c = with_socket tok (drop_attempt a c)"
      "\<not> rc_closedByUser c" "rf_token (rc_config c) = Some tok" "tok \<noteq> []"
proof (cases "the (rc_wsImplPromise c)")
  case (Inl e)
  then show thesis by (intro log_only) (auto simp: impl_settled_def Let_def emit_def)
next
  case (Inr p)
  consider "rc_closedByUser c"
    | "\<not> rc_closedByUser c" "rf_token (rc_config c) = None \<or> rf_token (rc_config c) = Some []"
    | tok where "\<not> rc_closedByUser c" "rf_token (rc_config c) = Some tok" "tok \<noteq> []"
    by (cases "rf_token (rc_config c)") auto
  then show thesis
  proof cases
    case 1
    then show ?thesis using Inr by (intro log_only [of "[]"]) (simp_all add: impl_settled_def Let_def)
  next
    case 2
    then show ?thesis using Inr by (intro log_only) (auto simp: impl_settled_def Let_def emit_def)
  next
    case (3 tok)
    show ?thesis
    proof (cases b)
      case True
      then show ?thesis using 3 Inr by (intro created [of tok]) (simp_all add: impl_settled_def Let_def with_socket_def)
    next
      case False
      then show ?thesis using 3 Inr by (intro log_only) (auto simp: impl_settled_def Let_def)
    qed
  qed
qed

lemma wire_ok_impl_settled: "wire_ok c \<Longrightarrow> wire_ok (impl_settled b a c)"
proof (cases rule: impl_settled_cases [of b a c])
  case (log_only es)
  then have "wire_part (impl_settled b a c) = wire_part c" by (simp add: wire_part_def drop_attempt_def)
  then show "wire_ok c \<Longrightarrow> ?thesis" using wire_ok_cong by blast
next
  case (created tok)
  assume "wire_ok c"
  then show ?thesis unfolding created(1)
    by (rule wire_ok_no_socket) (auto simp: with_socket_def ws_open_def valid_tenant_def drop_attempt_def nth_append)
qed

lemma wire_ok_lost:
  assumes "wire_ok c" "wire_part c' = wire_part ((set_ready r s c)\<lparr>rc_ws := None\<rparr>)" "r \<noteq> Connecting"
  shows "wire_ok c'"
proof -
  have "wire_ok ((set_ready r s c)\<lparr>rc_ws := None\<rparr>)"
    by (rule wire_ok_no_socket [OF assms(1)])
      (use assms(3) in \<open>auto simp: ws_open_def set_ready_state valid_tenant_def\<close>)
  then show ?thesis using wire_ok_cong [OF assms(2)] by simp
qed

lemma wire_part_onclose: "wire_part (onclose rnd code reason c) = wire_part (c\<lparr>rc_ws := None\<rparr>)"
  by (simp add: onclose_def Let_def wire_part_simps) (simp add: wire_part_def stopHeartbeat_def split: option.split)

lemma wire_ok_onclose: "wire_ok c \<Longrightarrow> wire_ok (onclose rnd code reason (set_ready Closed_State s c))"
  using wire_ok_lost [of c "onclose rnd code reason (set_ready Closed_State s c)" Closed_State s]
  by (simp add: wire_part_onclose)

lemma wire_part_disconnect: "wire_part (disconnect c) =
    wire_part ((case rc_ws c of None \<Rightarrow> c | Some s \<Rightarrow> ws_close s c)\<lparr>rc_ws := None\<rparr>)"
  by (auto simp: disconnect_def Let_def wire_part_def stopHeartbeat_def ws_close_def set_ready_def split: option.split)

lemma wire_ok_disconnect: "wire_ok c \<Longrightarrow> wire_ok (disconnect c)"
proof -
  assume c: "wire_ok c"
  have none: "wire_ok (c\<lparr>rc_ws := None\<rparr>)"
    by (rule wire_ok_no_socket [OF c]) (auto simp: ws_open_def valid_tenant_def)
  have "wire_ok ((set_ready Closing s c)\<lparr>rc_ws := None\<rparr>)" for s by (rule wire_ok_lost [OF c refl]) simp
  then have "wire_ok ((case rc_ws c of None \<Rightarrow> c | Some s \<Rightarrow> ws_close s c)\<lparr>rc_ws := None\<rparr>)"
    using none by (simp add: ws_close_def split: option.split)
  then show ?thesis using wire_ok_cong [OF wire_part_disconnect] by simp
qed

lemma wire_ok_tick: "wire_ok c \<Longrightarrow> wire_ok (as_callback heartbeat_tick c)"
proof -
  assume c: "wire_ok c"
  then have "wire_ok (snd (heartbeat_tick c))" by (simp add: heartbeat_tick_def wire_ok_send_neutral)
  moreover have "wire_part (as_callback heartbeat_tick c) = wire_part (snd (heartbeat_tick c))"
    by (auto simp: as_callback_def wire_part_simps split: prod.split option.split)
  ultimately show ?thesis using wire_ok_cong by blast
qed

lemma wire_ok_handle:
  assumes "enabled i c" "client_ok c" "wire_ok c"
  shows "wire_ok (snd (handle i c))"
proof (cases "wire_part (snd (handle i c)) = wire_part c")
  case True
  then show ?thesis using assms(3) wire_ok_cong by blast
next
  case False
  then show ?thesis using assms
    by (cases i) (simp_all add: connect_def Let_def wire_part_steps onerror_def publish_def unicast_def replay_def
        wire_ok_send_chunks wire_ok_sendOrQueue wire_ok_subscribe wire_ok_unsubscribe wire_ok_open
        wire_ok_impl_settled wire_ok_onclose wire_ok_disconnect wire_ok_tick split: if_splits)
qed

lemma reachable_ok: "reachable c \<Longrightarrow> client_ok c \<and> wire_ok c"
proof (rule cl.reach_invariant [of "\<lambda>c. client_ok c \<and> wire_ok c"])
  fix c d assume "client_ok c \<and> wire_ok c" "client_step c d"
  then show "client_ok d \<and> wire_ok d"
    by (auto elim!: client_stepE simp: client_ok_handle wire_ok_handle)
qed (auto simp: client_ok_new wire_ok_new)

end
