(* ===== verification/Client_Behaviour.thy ===== *)
theory Client_Behaviour
  imports Client_Properties
begin

text \<open>
  The properties of \<open>RealtimeClient\<close> as an application sees them, from the lemmas of
  \<open>Client_Properties\<close>: the handshake of a fresh socket, the order of frames, the queue of early
  sends, silence after \<open>disconnect\<close>, reconnection, and delivery.
\<close>

section \<open>Quiet clients\<close>

text \<open>A client that was told to disconnect: no current socket, and \<open>closedByUser\<close> set.\<close>

definition quiet :: "nat \<Rightarrow> (nat \<Rightarrow> send_args list) \<Rightarrow> client \<Rightarrow> bool" where
  "quiet n f c \<longleftrightarrow> rc_closedByUser c \<and> rc_ws c = None \<and> length (rc_sockets c) = n \<and> (\<forall>s. sends s (rc_log c) = f s)"

fun is_connect :: "input \<Rightarrow> bool" where
  "is_connect (In_Connect _) = True"
| "is_connect _ = False"

lemma not_open_without_socket: "rc_ws c = None \<Longrightarrow> \<not> ws_open c"
  by (simp add: ws_open_def)

lemma closed_simps [simp]:
  "rc_closedByUser (set_ready r s c) = rc_closedByUser c"
  "rc_closedByUser (emit ev c) = rc_closedByUser c"
  "rc_closedByUser (stopHeartbeat c) = rc_closedByUser c"
  by (simp_all add: set_ready_def emit_def stopHeartbeat_def split: option.split)

lemma quiet_simps [simp]:
  "quiet n f (c\<lparr>rc_reconnectAttempt := k\<rparr>) = quiet n f c"
  "quiet n f (c\<lparr>rc_timeouts := ts\<rparr>) = quiet n f c"
  "quiet n f (c\<lparr>rc_listeners := ls\<rparr>) = quiet n f c"
  "quiet n f (c\<lparr>rc_reassembler := ra\<rparr>) = quiet n f c"
  "quiet n f (c\<lparr>rc_pendingSends := p\<rparr>) = quiet n f c"
  "quiet n f (c\<lparr>rc_subscriptions := m\<rparr>) = quiet n f c"
  "quiet n f (c\<lparr>rc_config := g\<rparr>) = quiet n f c"
  "quiet n f (c\<lparr>rc_log := rc_log c @ [Uncaught e]\<rparr>) = quiet n f c"
  "quiet n f (emit ev c) = quiet n f c"
  "quiet n f (stopHeartbeat c) = quiet n f c"
  "quiet n f (drop_attempt a c) = quiet n f c"
  "quiet n f (set_ready r s c) = quiet n f c"
  by (simp_all add: quiet_def emit_def stopHeartbeat_def drop_attempt_def set_ready_def split: option.split)

lemma quiet_ws [simp]: "quiet n f c \<Longrightarrow> quiet n f (c\<lparr>rc_ws := None\<rparr>)"
  by (simp add: quiet_def)

lemma quiet_not_open: "quiet n f c \<Longrightarrow> \<not> ws_open c"
  by (simp add: quiet_def not_open_without_socket)

lemma quiet_closed: "quiet n f c \<Longrightarrow> rc_closedByUser c"
  by (simp add: quiet_def)

lemma quiet_dispatch: "quiet n f c \<Longrightarrow> quiet n f (dispatch n1 n2 n3 fr c)"
  by (auto simp: quiet_def dispatch_def Let_def emit_def split: option.split prod.split)

lemma quiet_impl_settled: "quiet n f c \<Longrightarrow> quiet n f (impl_settled b a c)"
  by (rule impl_settled_cases [of b a c]) (auto simp: quiet_def drop_attempt_def)

lemma quiet_handle: "quiet n f c \<Longrightarrow> \<not> is_connect i \<Longrightarrow> quiet n f (snd (handle i c))"
proof (cases i)
  case (In_Disconnect)
  then show "quiet n f c \<Longrightarrow> ?thesis"
    by (auto simp: quiet_def disconnect_def Let_def stopHeartbeat_def split: option.split)
next
  case (In_Open s)
  assume q: "quiet n f c"
  then have "\<not> ws_open (set_ready Open s c)" by (simp add: quiet_def not_open_without_socket)
  then show ?thesis using q In_Open by (simp add: as_callback_def onopen_not_open) (simp add: quiet_def)
next
  case (In_Message s n1 n2 n3 d)
  then show "quiet n f c \<Longrightarrow> ?thesis" by (simp add: onmessage_def quiet_dispatch split: option.split sum.split)
qed (auto simp: publish_def unicast_def replay_def send_chunks_def for_each_queue sendOrQueue_def quiet_not_open
      subscribe_def unsubscribeHandler_def Let_def quiet_closed token_resolved_def token_rejected_def quiet_impl_settled
      onerror_def onclose_def as_callback_def heartbeat_tick_def split: option.split sum.split)

lemma quiet_run:
  "quiet n f c \<Longrightarrow> \<forall>i \<in> set inputs. \<not> is_connect i \<Longrightarrow> run inputs c = Some d \<Longrightarrow> quiet n f d"
proof (induction inputs arbitrary: c)
  case (Cons i inputs)
  then show ?case using quiet_handle [of n f c i] by (auto split: if_splits)
qed simp

section \<open>A sample client\<close>

definition sample_config :: client_config where
  "sample_config = \<lparr>cc_wsUrl = js_of ''wss://h/ws'', cc_tenantId = js_of ''00000000-0000-0000-0000-00000000000A'',
     cc_token = Some (js_of ''tok''), cc_getToken = False, cc_heartbeatIntervalMs = None, cc_reconnect = None,
     cc_reconnectBaseDelayMs = None, cc_reconnectMaxDelayMs = None, cc_maxMessageBytes = None,
     cc_webSocketImpl = True\<rparr>"

lemma sample_tenant: "UUID_RE (js_of ''00000000-0000-0000-0000-00000000000A'')"
  unfolding UUID_RE_def upt_36 by (simp add: digit_val_def dash_def)

text \<open>The sample client after \<open>connect\<close> and the creation of its first socket.\<close>

definition sample_platform :: platform where
  "sample_platform = \<lparr>pf_global = True, pf_ws = False\<rparr>"

definition sample_connecting :: client where
  "sample_connecting = snd (handle (In_Impl True 0) (connect sample_platform (new_client sample_config)))"

lemmas sample_defs = sample_config_def sample_platform_def sample_connecting_def connect_def openSocket_def
  await_impl_def resolveWebSocketImpl_def impl_settled_def drop_attempt_def new_client_def resolve_config_def
  or_default_def Let_def

lemma sample_connecting_eq:
  "sample_connecting = (new_client sample_config)\<lparr>rc_closedByUser := False, rc_wsImplPromise := Some (Inr Explicit_Impl),
     rc_next_attempt := 1, rc_ws := Some 0,
     rc_sockets := [\<lparr>sk_readyState = Connecting, sk_url = js_of ''wss://h/ws'', sk_token = js_of ''tok''\<rparr>]\<rparr>"
  by (simp add: sample_defs)

lemma sample_valid [simp]: "valid_tenant (new_client sample_config)" "valid_tenant sample_connecting"
  using sample_tenant by (simp_all add: valid_tenant_def sample_connecting_eq)
    (simp_all add: sample_defs)

lemma run_append: "run (is @ js) c = (case run is c of None \<Rightarrow> None | Some d \<Rightarrow> run js d)"
  by (induction "is" arbitrary: c) simp_all

lemma run_reachable: "reachable c \<Longrightarrow> run inputs c = Some d \<Longrightarrow> reachable d"
proof (induction inputs arbitrary: c)
  case (Cons i inputs)
  then have "client_step c (snd (handle i c))" by (auto intro: client_step.intros split: if_splits)
  then have "reachable (snd (handle i c))" using cl.reach_step Cons.prems(1) by blast
  then show ?case using Cons by (auto split: if_splits)
qed simp

lemma new_client_reachable: "reachable (new_client config)"
  by (auto simp: reachable_def)

lemma sample_connecting_reachable: "reachable sample_connecting"
proof (rule run_reachable [OF new_client_reachable])
  show "run [In_Connect sample_platform, In_Impl True 0] (new_client sample_config) = Some sample_connecting"
    by (simp add: sample_defs)
qed

text \<open>The same client with a subscription and its socket open.\<close>

definition sample_open :: client where
  "sample_open = snd (handle (In_Open 0) (snd (subscribe (js_of ''c'') 7 sample_connecting)))"

lemma sample_subscribed:
  "snd (subscribe (js_of ''c'') 7 sample_connecting) = sample_connecting\<lparr>rc_subscriptions := [(js_of ''c'', [7])]\<rparr>"
  by (simp add: subscribe_def Let_def sample_connecting_eq ws_open_def new_client_def jset_def set_add_def)

lemma sample_open_reachable: "reachable sample_open"
proof (rule run_reachable [OF sample_connecting_reachable])
  show "run [In_Subscribe (js_of ''c'') 7, In_Open 0] sample_connecting = Some sample_open"
    unfolding sample_open_def
    by (simp add: sample_subscribed del: js_of_simps) (simp add: sample_connecting_eq)
qed

lemma sample_open_eq:
  "sample_open = after_open 0 (set_ready Open 0 (sample_connecting\<lparr>rc_subscriptions := [(js_of ''c'', [7])]\<rparr>))"
proof -
  let ?c = "set_ready Open 0 (sample_connecting\<lparr>rc_subscriptions := [(js_of ''c'', [7])]\<rparr>)"
  have "ws_open ?c" by (simp add: ws_open_def set_ready_def sample_connecting_eq)
  then have "onopen 0 ?c = (None, after_open 0 ?c)" by (intro onopen_open) simp_all
  then show ?thesis unfolding sample_open_def sample_subscribed by (simp add: as_callback_def)
qed

lemma sample_open_parts:
  "valid_tenant sample_open" "rc_ws sample_open = Some 0" "ws_open sample_open"
  "rc_subscriptions sample_open = [(js_of ''c'', [7])]"
  "sends 0 (rc_log sample_open) = [(Auth, [], js_of ''tok''), (Subscribe, js_of ''c'', [])]"
proof -
  show "valid_tenant sample_open"
    using sample_valid(2) by (simp add: sample_open_eq after_open_def emit_def startHeartbeat_def stopHeartbeat_def
        Let_def valid_tenant_def split: option.split)
  show "rc_ws sample_open = Some 0" "ws_open sample_open" "rc_subscriptions sample_open = [(js_of ''c'', [7])]"
    "sends 0 (rc_log sample_open) = [(Auth, [], js_of ''tok''), (Subscribe, js_of ''c'', [])]"
    by (simp_all add: sample_open_eq after_open_def emit_def startHeartbeat_def stopHeartbeat_def Let_def
        open_frames_def resub_args_def jkeys_def sent_entry_def sample_connecting_eq new_client_def set_ready_def ws_open_def)
qed

section \<open>Silence after disconnect\<close>

text \<open>
  C10. After \<open>disconnect()\<close> the client stays silent until the next \<open>connect()\<close>: whatever was in flight
  (token requests, the loading of the WebSocket implementation, reconnection timers, late socket events) and
  whatever else the application calls, no socket is created and no frame is sent.
\<close>

theorem silent_after_disconnect:
  assumes "run inputs (disconnect c) = Some d" "\<forall>i \<in> set inputs. \<not> is_connect i"
  shows "rc_ws d = None \<and> length (rc_sockets d) = length (rc_sockets c) \<and> (\<forall>s. sends s (rc_log d) = sends s (rc_log c))"
proof -
  have "quiet (length (rc_sockets c)) (\<lambda>s. sends s (rc_log c)) (disconnect c)"
    by (auto simp: quiet_def disconnect_def Let_def stopHeartbeat_def ws_close_def split: option.split)
  from quiet_run [OF this assms(2,1)] show ?thesis by (simp add: quiet_def)
qed

theorem silent_after_disconnect_witness:
  "\<exists>d. run [In_Publish (\<lambda>_. 0) (js_of ''c'') (js_of ''hi''), In_Close 0 0 1006 []] (disconnect sample_connecting) = Some d \<and>
     rc_ws d = None \<and> length (rc_sockets d) = 1"
proof -
  let ?is = "[In_Publish (\<lambda>_. 0) (js_of ''c'') (js_of ''hi''), In_Close 0 0 1006 []]"
  have "run ?is (disconnect sample_connecting) \<noteq> None"
    by (simp add: sample_connecting_eq disconnect_def stopHeartbeat_def ws_close_def set_ready_def Let_def
        publish_def send_chunks_def for_each_queue ws_open_def sample_config_def new_client_def
        split: sum.split)
  then obtain d where d: "run ?is (disconnect sample_connecting) = Some d" by blast
  from silent_after_disconnect [OF d] have "rc_ws d = None \<and> length (rc_sockets d) = length (rc_sockets sample_connecting)"
    by simp
  with d show ?thesis by (simp add: sample_connecting_eq)
qed

section \<open>The handshake\<close>

text \<open>
  C13. When the current socket opens, exactly these frames go out on it, in this order: AUTH with the token
  captured for this attempt, a SUB for each subscription in the order they were made, then the
  queued sends in the order they were called. The queue is empty afterwards, the backoff counter is reset
  and the heartbeat runs; then \<open>open\<close> and \<open>authenticated\<close> are emitted.
\<close>

theorem open_handshake:
  assumes "valid_tenant c" "enabled (In_Open s) c" "rc_ws c = Some s"
  shows "let c' = snd (handle (In_Open s) c);
      frames = (Auth, [], sk_token (rc_sockets c ! s)) #
        map (\<lambda>ch. (Subscribe, ch, [])) (jkeys (rc_subscriptions c)) @ rc_pendingSends c in
    rc_log c' = rc_log c @ map (\<lambda>a. Sent s a (projr (frame_for (rc_config c) a))) frames @
      [Emitted Opened (emit_targets EvOpen (rc_listeners c)),
       Emitted Authenticated (emit_targets EvAuthenticated (rc_listeners c))] \<and>
    rc_pendingSends c' = [] \<and> rc_reconnectAttempt c' = 0 \<and> rc_heartbeatTimer c' = Some (rc_next_timer c)"
proof -
  let ?c = "set_ready Open s c"
  have "s < length (rc_sockets c)" using assms(2) by simp
  then have op: "ws_open ?c" and tok: "sk_token (rc_sockets ?c ! s) = sk_token (rc_sockets c ! s)"
    using assms(3) by (simp_all add: ws_open_def set_ready_def)
  have "snd (handle (In_Open s) c) = after_open s ?c"
    using onopen_open [of ?c s] assms(1) op by (simp add: as_callback_def)
  then show ?thesis
    using assms(3) tok
    by (simp add: after_open_def open_frames_def resub_args_def sent_entry_def [abs_def] emit_def startHeartbeat_def
        stopHeartbeat_def Let_def comp_def split: option.split) (simp add: set_ready_def)
qed

theorem open_handshake_witness:
  "map (\<lambda>e. case e of Sent s (q, _, _) _ \<Rightarrow> Some q | _ \<Rightarrow> None)
     (rc_log (snd (handle (In_Open 0) (snd (replay (js_of ''c'') 0 (snd (subscribe (js_of ''c'') 7 sample_connecting))))))) =
   [Some Auth, Some Subscribe, Some Replay, None, None]"
proof -
  define c where "c = snd (replay (js_of ''c'') 0 (snd (subscribe (js_of ''c'') 7 sample_connecting)))"
  have eq: "c = sample_connecting\<lparr>rc_subscriptions := [(js_of ''c'', [7])],
      rc_pendingSends := [(Replay, js_of ''c'', js_of_nat 0)]\<rparr>"
    by (simp add: c_def subscribe_def replay_def sendOrQueue_def Let_def sample_connecting_eq ws_open_def new_client_def
        jset_def set_add_def)
  have v: "valid_tenant c" "enabled (In_Open 0) c" "rc_ws c = Some 0"
    unfolding eq by simp_all (simp_all add: sample_connecting_eq)
  have parts: "rc_log c = []" "jkeys (rc_subscriptions c) = [js_of ''c'']"
    "rc_pendingSends c = [(Replay, js_of ''c'', js_of_nat 0)]"
    by (simp_all add: eq jkeys_def) (simp add: sample_connecting_eq new_client_def)
  note log = open_handshake [OF v, unfolded Let_def, THEN conjunct1]
  show ?thesis unfolding c_def [symmetric] log parts by simp
qed

text \<open>
  C8. AUTH is the first frame on every socket, in every reachable state: nothing the application calls and
  no timing of token requests, timers and overlapping sockets makes the client send anything before it.
\<close>

theorem auth_is_first:
  assumes "reachable c" "sends s (rc_log c) = a # as"
  shows "fst a = Auth"
proof -
  have "frames_ok c" using reachable_ok [OF assms(1)] by (simp add: wire_ok_def)
  then have "sends s (rc_log c) \<noteq> [] \<longrightarrow> fst (hd (sends s (rc_log c))) = Auth"
    unfolding frames_ok_def by blast
  then show ?thesis using assms(2) by simp
qed

theorem auth_is_first_witness:
  "\<exists>a as. sends 0 (rc_log sample_open) = a # as \<and> fst a = Auth"
  using auth_is_first [OF sample_open_reachable] sample_open_parts(5) by blast

text \<open>
  C9. Whenever the current socket is open, the subscriptions the server holds for it, computed from the
  SUB and UNSUB frames sent there, are exactly the channels and patterns that have a handler, and no send
  is waiting in the queue.
\<close>

theorem server_view_agrees:
  assumes "reachable c" "valid_tenant c" "rc_ws c = Some s" "ws_open c"
  shows "server_view (sends s (rc_log c)) = {ch. jget (rc_subscriptions c) ch \<noteq> None} \<and> rc_pendingSends c = []"
proof -
  have "open_ok c" using reachable_ok [OF assms(1)] by (simp add: wire_ok_def)
  then have "server_view (sends s (rc_log c)) = set (jkeys (rc_subscriptions c)) \<and> rc_pendingSends c = []"
    using assms(2-4) by (simp add: open_ok_def)
  moreover have "set (jkeys (rc_subscriptions c)) = {ch. jget (rc_subscriptions c) ch \<noteq> None}"
    using jm.key_iff [of _ "rc_subscriptions c"] by blast
  ultimately show ?thesis by simp
qed

theorem server_view_agrees_witness:
  "server_view (sends 0 (rc_log sample_open)) = {js_of ''c''}"
proof -
  have sub: "rc_subscriptions sample_open = [(js_of ''c'', [7])]" by (simp add: sample_open_parts)
  show ?thesis
    using server_view_agrees [of sample_open 0] sample_open_parts sample_open_reachable
    by (auto simp: sub jget_def)
qed

text \<open>
  The fields of a reachable client are consistent: every subscribed channel has at least one handler and
  none twice, the current socket is one the client created, and the live heartbeat intervals are exactly the one the
  client remembers, so none leaks across reconnections.
\<close>

theorem client_fields_consistent:
  assumes "reachable c"
  shows "(\<forall>ch hs. jget (rc_subscriptions c) ch = Some hs \<longrightarrow> hs \<noteq> [] \<and> distinct hs) \<and>
    (\<forall>s. rc_ws c = Some s \<longrightarrow> s < length (rc_sockets c)) \<and>
    rc_intervals c = (case rc_heartbeatTimer c of None \<Rightarrow> [] | Some t \<Rightarrow> [t])"
  using reachable_ok [OF assms] by (auto simp: client_ok_def subs_ok_def)

theorem client_fields_consistent_witness:
  "rc_intervals sample_open = (case rc_heartbeatTimer sample_open of None \<Rightarrow> [] | Some t \<Rightarrow> [t])"
  using client_fields_consistent [OF sample_open_reachable] by blast

section \<open>The queue of sends\<close>

text \<open>The application's own frames (not AUTH, SUB, UNSUB or PING), over all sockets, in the order sent.\<close>

definition is_data :: "send_args \<Rightarrow> bool" where
  "is_data args \<longleftrightarrow> fst args \<in> {Publish, Unicast, Replay}"

definition data_sent :: "effect list \<Rightarrow> send_args list" where
  "data_sent es = concat (map (\<lambda>e. case e of Sent _ args _ \<Rightarrow> if is_data args then [args] else [] | _ \<Rightarrow> []) es)"

text \<open>The frames a call makes of its arguments; a call that throws the size error makes none.\<close>

fun accepted :: "nat \<Rightarrow> input \<Rightarrow> send_args list" where
  "accepted mx (In_Publish rnd ch pl) = map (\<lambda>x. (Publish, ch, x)) (case encodeChunks rnd pl mx of Inl _ \<Rightarrow> [] | Inr cs \<Rightarrow> cs)"
| "accepted mx (In_Unicast rnd u pl) = map (\<lambda>x. (Unicast, u, x)) (case encodeChunks rnd pl mx of Inl _ \<Rightarrow> [] | Inr cs \<Rightarrow> cs)"
| "accepted mx (In_Replay ch since) = [(Replay, ch, js_of_nat since)]"
| "accepted mx _ = []"

definition queue_seq :: "client \<Rightarrow> send_args list" where
  "queue_seq c = data_sent (rc_log c) @ rc_pendingSends c"

lemma data_sent_append [simp]: "data_sent (xs @ ys) = data_sent xs @ data_sent ys"
  by (simp add: data_sent_def)

lemma data_sent_Nil [simp]: "data_sent [] = []"
  by (simp add: data_sent_def)

lemma data_sent_Cons [simp]:
  "data_sent (Sent s a f # es) = (if is_data a then a # data_sent es else data_sent es)"
  "data_sent (Emitted ev ls # es) = data_sent es"
  "data_sent (Handled h m # es) = data_sent es"
  "data_sent (Uncaught e # es) = data_sent es"
  by (simp_all add: data_sent_def)

lemma data_sent_handled [simp]: "data_sent (map (\<lambda>h. Handled h m) hs) = []"
  by (induction hs) simp_all

lemma data_sent_entries [simp]: "data_sent (map (sent_entry c) as) = filter is_data as"
  by (induction as) (simp_all add: sent_entry_def)

lemma data_sent_entries' [simp]: "data_sent (map (\<lambda>x. sent_entry c (f x)) as) = filter is_data (map f as)"
  using data_sent_entries [of c "map f as"] by (simp add: comp_def)

lemma queue_seq_simps [simp]:
  "queue_seq (emit ev c) = queue_seq c" "queue_seq (stopHeartbeat c) = queue_seq c"
  "queue_seq (startHeartbeat c) = queue_seq c" "queue_seq (scheduleReconnect rnd c) = queue_seq c"
  "queue_seq (drop_attempt a c) = queue_seq c" "queue_seq (await_impl pf a c) = queue_seq c"
  "queue_seq (openSocket pf c) = queue_seq c" "queue_seq (set_ready r s c) = queue_seq c"
  "queue_seq (with_socket tok c) = queue_seq c"
  "queue_seq (c\<lparr>rc_ws := w\<rparr>) = queue_seq c" "queue_seq (c\<lparr>rc_closedByUser := b\<rparr>) = queue_seq c"
  "queue_seq (c\<lparr>rc_timeouts := ts\<rparr>) = queue_seq c" "queue_seq (c\<lparr>rc_listeners := ls\<rparr>) = queue_seq c"
  "queue_seq (c\<lparr>rc_config := g\<rparr>) = queue_seq c" "queue_seq (c\<lparr>rc_subscriptions := m\<rparr>) = queue_seq c"
  "queue_seq (c\<lparr>rc_reconnectAttempt := n\<rparr>) = queue_seq c"
  "queue_seq (c\<lparr>rc_log := rc_log c @ [Uncaught e]\<rparr>) = queue_seq c"
  by (simp_all add: queue_seq_def emit_def stopHeartbeat_def startHeartbeat_def scheduleReconnect_def
      drop_attempt_def await_impl_def openSocket_def with_socket_def Let_def split: option.split)

lemma data_sent_silent: "(\<And>s. sends s es = []) \<Longrightarrow> data_sent es = []"
proof (induction es)
  case (Cons e es)
  show ?case
  proof (cases e)
    case (Sent s a f)
    then show ?thesis using Cons.prems [of s] by simp
  qed (use Cons in simp_all)
qed simp

lemma queue_seq_impl_settled [simp]: "queue_seq (impl_settled b a c) = queue_seq c"
proof (cases rule: impl_settled_cases [of b a c])
  case (log_only es)
  then show ?thesis using data_sent_silent [OF log_only(2)] by (simp add: queue_seq_def drop_attempt_def)
qed simp

lemma queue_seq_dispatch [simp]: "queue_seq (dispatch n1 n2 n3 f c) = queue_seq c"
  by (auto simp: queue_seq_def dispatch_def Let_def emit_def split: option.split prod.split)

lemma queue_seq_onmessage [simp]: "queue_seq (onmessage n1 n2 n3 d c) = queue_seq c"
  by (simp add: onmessage_def split: option.split sum.split)

lemma queue_seq_send: "\<not> is_data a \<Longrightarrow> queue_seq (snd (send a c)) = queue_seq c"
  by (cases "valid_tenant c \<and> ws_open c")
    (auto simp: send_open wire_ok_invalid_send queue_seq_def sent_entry_def)

lemma queue_seq_callback: "queue_seq (as_callback p c) = queue_seq (snd (p c))"
  by (auto simp: as_callback_def split: prod.split option.split)

lemma queue_seq_chunks:
  assumes "wire_ok c" "valid_tenant c" "\<forall>x \<in> set xs. is_data (f x)"
  shows "queue_seq (snd (for_each (\<lambda>x. sendOrQueue (f x)) xs c)) = queue_seq c @ map f xs"
proof (cases "ws_open c")
  case True
  have "filter is_data (map f xs) = map f xs" using assms(3) by (auto intro!: filter_True)
  then show ?thesis using True assms(1,2)
    by (simp add: for_each_sendOrQueue_open queue_seq_def wire_ok_def open_ok_def)
next
  case False
  then show ?thesis by (simp add: for_each_queue queue_seq_def)
qed

lemma queue_seq_send_chunks:
  assumes "wire_ok c" "valid_tenant c" "q \<in> {Publish, Unicast}"
  shows "queue_seq (snd (send_chunks rnd q t pl c)) = queue_seq c @
    map (\<lambda>x. (q, t, x)) (case encodeChunks rnd pl (rf_maxMessageBytes (rc_config c)) of Inl _ \<Rightarrow> [] | Inr cs \<Rightarrow> cs)"
  using queue_seq_chunks [OF assms(1,2), of _ "\<lambda>x. (q, t, x)"] assms(3)
  by (auto simp: send_chunks_def is_data_def split: sum.split)

lemma data_open_frames: "filter is_data (open_frames s c) = filter is_data (rc_pendingSends c)"
  by (simp add: open_frames_def resub_args_def is_data_def filter_map comp_def)

lemma queue_seq_open:
  assumes "wire_ok c"
  shows "queue_seq (snd (onopen s (set_ready Open s c))) = queue_seq c"
proof (cases "valid_tenant c \<and> ws_open (set_ready Open s c)")
  case True
  have "filter is_data (rc_pendingSends c) = rc_pendingSends c"
    using assms by (intro filter_True) (auto simp: wire_ok_def pending_ok_def is_data_def)
  then show ?thesis using True onopen_open [of "set_ready Open s c" s]
    by (simp add: after_open_def) (simp add: queue_seq_def data_open_frames)
next
  case False
  then show ?thesis using onopen_invalid [of "set_ready Open s c" s] onopen_not_open [of "set_ready Open s c" s]
    by (auto simp: queue_seq_def)
qed

lemma queue_seq_disconnect [simp]: "queue_seq (disconnect c) = queue_seq c"
  by (simp add: disconnect_def Let_def ws_close_def split: option.split)

lemma queue_seq_onclose [simp]: "queue_seq (onclose rnd code reason c) = queue_seq c"
  by (simp add: onclose_def Let_def)

lemma queue_seq_sub:
  "queue_seq (snd (subscribe ch h c)) = queue_seq c" "queue_seq (snd (unsubscribeHandler ch h c)) = queue_seq c"
  by (auto simp: subscribe_def unsubscribeHandler_def Let_def queue_seq_send is_data_def split: option.split)

lemma queue_seq_handle:
  assumes "wire_ok c" "valid_tenant c"
  shows "queue_seq (snd (handle i c)) = queue_seq c @ accepted (rf_maxMessageBytes (rc_config c)) i"
proof (cases i)
  case (In_Replay ch since)
  then show ?thesis
    using queue_seq_chunks [OF assms, of "[()]" "\<lambda>_. (Replay, ch, js_of_nat since)"]
    by (simp add: replay_def is_data_def and_then_def skip_def split: prod.splits option.splits)
qed (use assms in \<open>auto simp: publish_def unicast_def queue_seq_send_chunks queue_seq_sub queue_seq_callback queue_seq_open
      connect_def Let_def token_resolved_def token_rejected_def onerror_def heartbeat_tick_def queue_seq_send is_data_def\<close>)

lemma config_simps [simp]:
  "rc_config (emit ev c) = rc_config c" "rc_config (stopHeartbeat c) = rc_config c"
  "rc_config (startHeartbeat c) = rc_config c" "rc_config (scheduleReconnect rnd c) = rc_config c"
  "rc_config (await_impl pf a c) = rc_config c" "rc_config (openSocket pf c) = rc_config c"
  "rc_config (with_socket tok c) = rc_config c" "rc_config (disconnect c) = rc_config c"
  "rc_config (onclose rnd code reason c) = rc_config c"
  by (simp_all add: emit_def stopHeartbeat_def startHeartbeat_def scheduleReconnect_def await_impl_def
      openSocket_def with_socket_def disconnect_def ws_close_def onclose_def Let_def split: option.split)

lemma config_send [simp]: "rc_config (snd (send a c)) = rc_config c"
  using send_writes_log [of a c] by auto

lemma config_send_chunks [simp]: "rc_config (snd (send_chunks rnd q t pl c)) = rc_config c"
  by (auto simp: send_chunks_def sendOrQueue_def intro!: for_each_keeps [where P = "\<lambda>d. rc_config d = rc_config c"]
      split: sum.split)

lemma config_onopen [simp]: "rc_config (snd (onopen s c)) = rc_config c"
  using onopen_open [of c s] onopen_not_open [of c s] onopen_invalid [of c s]
  by (cases "valid_tenant c"; cases "ws_open c") (auto simp: after_open_def)

lemma config_callback [simp]: "rc_config (as_callback p c) = rc_config (snd (p c))"
  by (simp add: as_callback_def split: prod.split option.split)

lemma config_dispatch [simp]: "rc_config (dispatch n1 n2 n3 f c) = rc_config c"
  by (auto simp: dispatch_def Let_def emit_def split: option.split prod.split)

lemma config_impl_settled [simp]: "rc_config (impl_settled b a c) = rc_config c"
  by (rule impl_settled_cases [of b a c]) auto

lemma config_handle:
  "rf_maxMessageBytes (rc_config (snd (handle i c))) = rf_maxMessageBytes (rc_config c) \<and>
   valid_tenant (snd (handle i c)) = valid_tenant c"
  by (cases i) (auto simp: valid_tenant_def connect_def publish_def unicast_def replay_def sendOrQueue_def subscribe_def
      unsubscribeHandler_def token_resolved_def token_rejected_def onmessage_def onerror_def heartbeat_tick_def Let_def
      split: option.split sum.split)

lemma queue_seq_run:
  "client_ok c \<Longrightarrow> wire_ok c \<Longrightarrow> valid_tenant c \<Longrightarrow> run inputs c = Some d \<Longrightarrow>
   queue_seq d = queue_seq c @ concat (map (accepted (rf_maxMessageBytes (rc_config c))) inputs)"
proof (induction inputs arbitrary: c)
  case (Cons i inputs)
  then have en: "enabled i c" and r: "run inputs (snd (handle i c)) = Some d" by (auto split: if_splits)
  show ?case
    using Cons.IH [OF client_ok_handle [OF en Cons.prems(1)] wire_ok_handle [OF en Cons.prems(1,2)] _ r]
      config_handle [of i c] queue_seq_handle [OF Cons.prems(2,3), of i] Cons.prems(3) by simp
qed simp

text \<open>
  C3. No send is lost, duplicated or reordered by the client: over any run from construction (connections
  dropped and reopened, calls made before, between and during connections), the application frames handed to sockets
  so far, followed by those still queued, are exactly the frames of the \<open>publish\<close>, \<open>unicast\<close> and
  \<open>replay\<close> calls in call order.
\<close>

theorem sends_are_fifo:
  assumes "run inputs (new_client config) = Some c" "UUID_RE (cc_tenantId config)"
  shows "data_sent (rc_log c) @ rc_pendingSends c =
    concat (map (accepted (rf_maxMessageBytes (resolve_config config))) inputs)"
proof -
  have "valid_tenant (new_client config)" using assms(2) by (simp add: valid_tenant_def new_client_def resolve_config_def)
  from queue_seq_run [OF client_ok_new wire_ok_new this assms(1)]
  show ?thesis by (simp add: queue_seq_def) (simp add: new_client_def)
qed

theorem sends_are_fifo_witness:
  "\<exists>c. run [In_Replay (js_of ''c'') 5, In_Connect sample_platform, In_Impl True 0, In_Replay (js_of ''d'') 6, In_Open 0]
         (new_client sample_config) = Some c \<and>
     data_sent (rc_log c) @ rc_pendingSends c = [(Replay, js_of ''c'', js_of ''5''), (Replay, js_of ''d'', js_of ''6'')]"
proof -
  let ?is = "[In_Replay (js_of ''c'') 5, In_Connect sample_platform, In_Impl True 0, In_Replay (js_of ''d'') 6, In_Open 0]"
  have "run ?is (new_client sample_config) \<noteq> None"
    by (simp add: sample_defs replay_def sendOrQueue_def ws_open_def)
  then obtain c where c: "run ?is (new_client sample_config) = Some c" by blast
  have "UUID_RE (cc_tenantId sample_config)" using sample_tenant by (simp add: sample_config_def)
  moreover have "js_of_nat 5 = js_of ''5''" "js_of_nat 6 = js_of ''6''" by code_simp+
  ultimately show ?thesis using sends_are_fifo [OF c] c by simp
qed

section \<open>Reconnection\<close>

lemma onclose_timers:
  "(rc_timeouts (onclose rnd code reason c), rc_reconnectAttempt (onclose rnd code reason c)) =
     (if rc_closedByUser c \<or> \<not> rf_reconnect (rc_config c) \<or> code = 4001 \<and> \<not> rf_getToken (rc_config c)
      then (rc_timeouts c, rc_reconnectAttempt c)
      else (rc_timeouts c @ [(rc_next_timer c, backoff_delay (rc_config c) (rc_reconnectAttempt c) * (4 / 5 + rnd * (2 / 5)))],
            rc_reconnectAttempt c + 1))"
  by (auto simp: onclose_def Let_def WS_CLOSE_CODE_AUTH_FAILED_def scheduleReconnect_def emit_def stopHeartbeat_def
      split: option.splits)

lemma jitter_bounds:
  fixes rnd b :: rat
  assumes "0 \<le> rnd" "rnd < 1" "0 \<le> b"
  shows "4 / 5 * b \<le> b * (4 / 5 + rnd * (2 / 5))" "b * (4 / 5 + rnd * (2 / 5)) \<le> 6 / 5 * b"
proof -
  have "b * rnd \<le> b" "0 \<le> b * rnd" using assms by (simp_all add: mult_left_le)
  then show "4 / 5 * b \<le> b * (4 / 5 + rnd * (2 / 5))" "b * (4 / 5 + rnd * (2 / 5)) \<le> 6 / 5 * b"
    by (simp_all add: algebra_simps)
qed

text \<open>
  C28. When a socket closes, a reconnection is scheduled exactly if the user has not disconnected, reconnection is
  configured, and the close is not an authentication failure (code 4001) that a client without
  \<open>getToken\<close> could not cure. Its delay is within 20 percent of
  \<open>min (base * 2 ^ attempt) max\<close>, and the attempt counter advances.
\<close>

theorem reconnect_policy:
  assumes "0 \<le> rnd" "rnd < 1" "0 \<le> rf_reconnectBaseDelayMs (rc_config c)" "0 \<le> rf_reconnectMaxDelayMs (rc_config c)"
  shows "let c' = onclose rnd code reason c; cfg = rc_config c;
      b = min (rf_reconnectBaseDelayMs cfg * 2 ^ rc_reconnectAttempt c) (rf_reconnectMaxDelayMs cfg) in
    if rc_closedByUser c \<or> \<not> rf_reconnect cfg \<or> code = 4001 \<and> \<not> rf_getToken cfg
    then rc_timeouts c' = rc_timeouts c \<and> rc_reconnectAttempt c' = rc_reconnectAttempt c
    else (\<exists>d. rc_timeouts c' = rc_timeouts c @ [(rc_next_timer c, d)] \<and> 4 / 5 * b \<le> d \<and> d \<le> 6 / 5 * b) \<and>
      rc_reconnectAttempt c' = rc_reconnectAttempt c + 1"
proof -
  let ?b = "backoff_delay (rc_config c) (rc_reconnectAttempt c)"
  have "0 \<le> ?b" using assms(3,4) by (simp add: backoff_delay_def)
  note j = jitter_bounds [OF assms(1,2) this]
  show ?thesis
    using onclose_timers [of rnd code reason c] j unfolding Let_def backoff_delay_def [symmetric]
    by (auto split: if_splits)
qed

theorem reconnect_policy_witness:
  "\<exists>d. rc_timeouts (onclose (1 / 2) 1006 [] sample_connecting) = [(1, d)] \<and> 400 \<le> d \<and> d \<le> 600"
  using reconnect_policy [of "1 / 2" sample_connecting 1006 "[]"]
  by (simp add: sample_connecting_eq) (simp add: sample_defs)

text \<open>
  The backoff never shrinks from one attempt to the next, never exceeds the configured cap, and reaches it after finitely many
  attempts, whatever positive base is configured.
\<close>

theorem backoff_grows_to_cap:
  assumes "0 < rf_reconnectBaseDelayMs cfg"
  shows "(\<forall>n. backoff_delay cfg n \<le> backoff_delay cfg (Suc n) \<and> backoff_delay cfg n \<le> rf_reconnectMaxDelayMs cfg) \<and>
    (\<exists>N. \<forall>n \<ge> N. backoff_delay cfg n = rf_reconnectMaxDelayMs cfg)"
proof
  let ?b = "rf_reconnectBaseDelayMs cfg" let ?m = "rf_reconnectMaxDelayMs cfg"
  have "?b * 2 ^ n \<le> ?b * 2 ^ Suc n" for n using assms by simp
  then show "\<forall>n. backoff_delay cfg n \<le> backoff_delay cfg (Suc n) \<and> backoff_delay cfg n \<le> ?m"
    unfolding backoff_delay_def by (intro allI conjI min.mono) auto
  obtain N where N: "?m / ?b < of_nat N" using ex_less_of_nat_mult [of 1] reals_Archimedean2 by blast
  have "?m \<le> ?b * 2 ^ n" if "N \<le> n" for n
  proof -
    have "?m \<le> ?b * of_nat N" using N assms by (simp add: divide_less_eq mult.commute)
    also have "(of_nat N :: rat) \<le> of_nat (2 ^ n)"
      using that of_nat_le_iff by (metis less_exp less_le_trans less_or_eq_imp_le order_trans)
    finally show ?thesis using assms by simp
  qed
  then show "\<exists>N. \<forall>n \<ge> N. backoff_delay cfg n = ?m" unfolding backoff_delay_def by (intro exI [of _ N] allI impI min_absorb2)
qed

theorem backoff_grows_to_cap_witness:
  "backoff_delay (resolve_config sample_config) 3 \<le> backoff_delay (resolve_config sample_config) 4"
  using backoff_grows_to_cap [of "resolve_config sample_config"]
  by (simp add: resolve_config_def sample_config_def or_default_def) (metis eval_nat_numeral(2,3) semiring_norm(26-28) One_nat_def)

section \<open>Delivery\<close>

lemma globMatch_no_star: "star \<notin> set k \<Longrightarrow> globMatch k ch \<longleftrightarrow> k = ch"
  unfolding globMatch_def by (induction k arbitrary: ch) (auto split: list.splits)

lemma count_distinct: "distinct xs \<Longrightarrow> count_list xs x = (if x \<in> set xs then 1 else 0)"
  by (induction xs) auto

lemma count_concat_values:
  "(\<And>k hs. (k, hs) \<in> set m \<Longrightarrow> distinct hs) \<Longrightarrow>
   count_list (concat (map snd m)) h = length (filter (\<lambda>(k, hs). h \<in> set hs) m)"
proof (induction m)
  case (Cons e m)
  obtain k hs where e: "e = (k, hs)" by (cases e)
  then have "distinct hs" using Cons.prems [of k hs] by simp
  moreover have "count_list (concat (map snd m)) h = length (filter (\<lambda>(k, hs). h \<in> set hs) m)"
    by (rule Cons.IH) (use Cons.prems in auto)
  ultimately show ?case by (simp add: e count_distinct)
qed simp

lemma length_filter_jmap:
  assumes "jmap_ok m"
  shows "length (filter (\<lambda>(k, v). Q k v) m) = card {k. \<exists>v. jget m k = Some v \<and> Q k v}"
proof -
  let ?f = "filter (\<lambda>(k, v). Q k v) m"
  have "length ?f = card {k. jget ?f k \<noteq> None}"
    using jm.size_card [OF jmap_ok_filter [OF assms], of "\<lambda>(k, v). Q k v"] by simp
  also have "{k. jget ?f k \<noteq> None} = {k. \<exists>v. jget m k = Some v \<and> Q k v}"
    by (auto simp: jget_filter [OF assms] split: option.splits if_splits)
  finally show ?thesis .
qed

lemma length_filter_disjoint:
  "(\<And>x. x \<in> set m \<Longrightarrow> \<not> (P x \<and> Q x)) \<Longrightarrow>
   length (filter P m) + length (filter Q m) = length (filter (\<lambda>x. P x \<or> Q x) m)"
  by (induction m) auto

text \<open>The handlers called by \<open>dispatch\<close>, as the code collects them.\<close>

definition delivered_to :: "js_string \<Rightarrow> (js_string, handler list) jmap \<Rightarrow> handler list" where
  "delivered_to ch m = (case jget m ch of None \<Rightarrow> [] | Some hs \<Rightarrow> hs) @
     concat (map snd (filter (\<lambda>(key, _). star \<in> set key \<and> globMatch key ch) m))"

lemma globMatch_refl: "globMatch k k"
  unfolding globMatch_lang
proof (induction k)
  case (Cons p ps)
  then show ?case using glob_lit [of p ps ps] glob_star [of ps ps "[star]"] by (cases "p = star") simp_all
qed (rule glob_nil)

text \<open>How often a handler is called: once under each matching key, and once more under a key with a star that is the channel itself.\<close>

definition delivery_count :: "js_string \<Rightarrow> (js_string, handler list) jmap \<Rightarrow> handler \<Rightarrow> nat" where
  "delivery_count ch m h = card {k. \<exists>hs. jget m k = Some hs \<and> h \<in> set hs \<and> globMatch k ch} +
     (if star \<in> set ch \<and> (\<exists>hs. jget m ch = Some hs \<and> h \<in> set hs) then 1 else 0)"

lemma count_delivered:
  assumes "subs_ok m"
  shows "count_list (delivered_to ch m) h = delivery_count ch m h"
proof -
  have ok: "jmap_ok m" and dist: "\<And>k hs. (k, hs) \<in> set m \<Longrightarrow> distinct hs"
    using assms(1) by (auto simp: subs_ok_def jget_in_set)
  let ?x = "\<lambda>(k, hs). k = ch \<and> star \<in> set ch \<and> h \<in> set hs" let ?e = "\<lambda>(k, hs). k = ch \<and> star \<notin> set ch \<and> h \<in> set hs"
  let ?g = "\<lambda>(k, hs). (star \<in> set k \<and> globMatch k ch) \<and> h \<in> set hs"
  have card_key: "length (filter (\<lambda>(k, hs). k = ch \<and> b \<and> h \<in> set hs) m) =
      (if b \<and> (\<exists>hs. jget m ch = Some hs \<and> h \<in> set hs) then 1 else 0)" for b
  proof -
    have "{k. \<exists>hs. jget m k = Some hs \<and> k = ch \<and> b \<and> h \<in> set hs} = (if b \<and> (\<exists>hs. jget m ch = Some hs \<and> h \<in> set hs) then {ch} else {})"
      by auto
    then show ?thesis by (simp add: length_filter_jmap [OF ok])
  qed
  have e: "count_list (case jget m ch of None \<Rightarrow> [] | Some hs \<Rightarrow> hs) h = length (filter ?x m) + length (filter ?e m)"
    using assms(1) unfolding card_key by (auto simp: count_distinct subs_ok_def split: option.splits)
  have g: "count_list (concat (map snd (filter (\<lambda>(key, _). star \<in> set key \<and> globMatch key ch) m))) h = length (filter ?g m)"
    using dist by (subst count_concat_values) (auto simp: filter_filter case_prod_beta' conj_ac)
  have "length (filter ?e m) + length (filter ?g m) = length (filter (\<lambda>(k, hs). h \<in> set hs \<and> globMatch k ch) m)"
  proof (subst length_filter_disjoint)
    show "\<not> (?e x \<and> ?g x)" for x by (cases x) auto
    have "?e x \<or> ?g x \<longleftrightarrow> (case x of (k, hs) \<Rightarrow> h \<in> set hs \<and> globMatch k ch)" for x
      using globMatch_no_star globMatch_refl by (cases x) auto
    then show "length (filter (\<lambda>x. ?e x \<or> ?g x) m) = length (filter (\<lambda>(k, hs). h \<in> set hs \<and> globMatch k ch) m)" by simp
  qed
  then show ?thesis using e g card_key length_filter_jmap [OF ok, of "\<lambda>k hs. h \<in> set hs \<and> globMatch k ch"]
    by (simp add: delivered_to_def delivery_count_def)
qed

text \<open>
  C12. A message that is not a fragment calls exactly the handlers subscribed under a channel or pattern that matches the message's channel: a handler once under each such key, and once more under a key
  with a star that is the message's channel itself (the server takes messages for a channel such as \<open>orders:*\<close>), where the code finds it as the channel and again as a pattern.
  After the \<open>message\<close> event the log grows by exactly those calls, all with the message's channel and payload.
\<close>

theorem dispatch_delivers:
  assumes "reachable c" "parseChunk (df_payload f) = None"
  shows "\<exists>hs. let m = \<lparr>rm_channelId = df_channelId f, rm_payload = df_payload f, rm_tenantId = df_tenantId f, rm_receivedAt = n3\<rparr> in
    rc_log (dispatch n1 n2 n3 f c) = rc_log c @ Emitted (Received m) (emit_targets EvMessage (rc_listeners c)) #
      map (\<lambda>h. Handled h m) hs \<and>
    (\<forall>h. count_list hs h =
      card {k. \<exists>s. jget (rc_subscriptions c) k = Some s \<and> h \<in> set s \<and> globMatch k (df_channelId f)} +
      (if star \<in> set (df_channelId f) \<and> (\<exists>s. jget (rc_subscriptions c) (df_channelId f) = Some s \<and> h \<in> set s) then 1 else 0))"
proof -
  have "subs_ok (rc_subscriptions c)" using reachable_ok [OF assms(1)] by (simp add: client_ok_def)
  note count = count_delivered [OF this, unfolded delivery_count_def]
  show ?thesis unfolding Let_def
    by (rule exI [of _ "delivered_to (df_channelId f) (rc_subscriptions c)"])
      (simp add: count, simp add: dispatch_def Let_def emit_def delivered_to_def assms(2))
qed

theorem dispatch_delivers_witness:
  "let f = \<lparr>df_opcode = Message, df_tenantId = [], df_channelId = js_of ''c'', df_payload = js_of ''hi'', df_raw = []\<rparr> in
   \<exists>hs. rc_log (dispatch 0 0 9 f sample_open) = rc_log sample_open @
     Emitted (Received \<lparr>rm_channelId = js_of ''c'', rm_payload = js_of ''hi'', rm_tenantId = [], rm_receivedAt = 9\<rparr>)
       (emit_targets EvMessage (rc_listeners sample_open)) #
     map (\<lambda>h. Handled h \<lparr>rm_channelId = js_of ''c'', rm_payload = js_of ''hi'', rm_tenantId = [], rm_receivedAt = 9\<rparr>) hs \<and>
     count_list hs 7 = card {js_of ''c''}"
proof -
  let ?f = "\<lparr>df_opcode = Message, df_tenantId = [], df_channelId = js_of ''c'', df_payload = js_of ''hi'', df_raw = []\<rparr>"
  have np: "parseChunk (df_payload ?f) = None" by (simp add: parseChunk_def MSG_ID_LEN_def)
  have ns: "star \<notin> set (js_of ''c'')" by (simp add: star_def)
  have subs: "{k. \<exists>s. jget (rc_subscriptions sample_open) k = Some s \<and> 7 \<in> set s \<and> globMatch k (js_of ''c'')} = {js_of ''c''}"
    by (auto simp: sample_open_parts jget_def globMatch_no_star star_def split: if_splits)
  note t = dispatch_delivers [OF sample_open_reachable np, of 9 0 0, unfolded Let_def decoded_frame.select_convs]
  from t obtain hs where hs: "rc_log (dispatch 0 0 9 ?f sample_open) = rc_log sample_open @
      Emitted (Received \<lparr>rm_channelId = js_of ''c'', rm_payload = js_of ''hi'', rm_tenantId = [], rm_receivedAt = 9\<rparr>)
        (emit_targets EvMessage (rc_listeners sample_open)) #
      map (\<lambda>h. Handled h \<lparr>rm_channelId = js_of ''c'', rm_payload = js_of ''hi'', rm_tenantId = [], rm_receivedAt = 9\<rparr>) hs"
    and cnt: "\<forall>h. count_list hs h =
      card {k. \<exists>s. jget (rc_subscriptions sample_open) k = Some s \<and> h \<in> set s \<and> globMatch k (js_of ''c'')} +
      (if star \<in> set (js_of ''c'') \<and> (\<exists>s. jget (rc_subscriptions sample_open) (js_of ''c'') = Some s \<and> h \<in> set s) then 1 else 0)" by blast
  have "count_list hs 7 = card {js_of ''c''}" using spec [OF cnt, of 7] ns unfolding subs by (simp del: js_of_simps)
  with hs show ?thesis unfolding Let_def by blast
qed

section \<open>A late close of an old socket\<close>

lemma sample_open_record:
  obtains es where "sample_open = sample_connecting\<lparr>rc_subscriptions := [(js_of ''c'', [7])], rc_log := es,
      rc_sockets := [\<lparr>sk_readyState = Open, sk_url = js_of ''wss://h/ws'', sk_token = js_of ''tok''\<rparr>],
      rc_intervals := [1], rc_heartbeatTimer := Some 1, rc_next_timer := 2\<rparr>" "sends 1 es = []"
proof
  show "sample_open = sample_connecting\<lparr>rc_subscriptions := [(js_of ''c'', [7])], rc_log := rc_log sample_open,
      rc_sockets := [\<lparr>sk_readyState = Open, sk_url = js_of ''wss://h/ws'', sk_token = js_of ''tok''\<rparr>],
      rc_intervals := [1], rc_heartbeatTimer := Some 1, rc_next_timer := 2\<rparr>"
    by (simp add: sample_open_eq after_open_def emit_def startHeartbeat_def stopHeartbeat_def Let_def
        sample_connecting_eq new_client_def set_ready_def)
  show "sends 1 (rc_log sample_open) = []"
    by (simp add: sample_open_eq after_open_def emit_def startHeartbeat_def stopHeartbeat_def Let_def
        sample_connecting_eq new_client_def set_ready_def)
qed

text \<open>The sample client disconnects and connects again: the old socket is closing, a new one connects.\<close>

definition sample_again :: client where
  "sample_again = snd (handle (In_Impl True 1) (connect sample_platform (disconnect sample_open)))"

lemma sample_again_parts:
  "valid_tenant sample_again" "rc_ws sample_again = Some 1" "\<not> rc_closedByUser sample_again"
  "rc_sockets sample_again = [\<lparr>sk_readyState = Closing, sk_url = js_of ''wss://h/ws'', sk_token = js_of ''tok''\<rparr>,
     \<lparr>sk_readyState = Connecting, sk_url = js_of ''wss://h/ws'', sk_token = js_of ''tok''\<rparr>]"
  "rc_subscriptions sample_again = [(js_of ''c'', [7])]" "rc_pendingSends sample_again = []"
  "sends 1 (rc_log sample_again) = []" "rf_reconnect (rc_config sample_again)" "reachable sample_again"
proof -
  obtain es where es: "sample_open = sample_connecting\<lparr>rc_subscriptions := [(js_of ''c'', [7])], rc_log := es,
      rc_sockets := [\<lparr>sk_readyState = Open, sk_url = js_of ''wss://h/ws'', sk_token = js_of ''tok''\<rparr>],
      rc_intervals := [1], rc_heartbeatTimer := Some 1, rc_next_timer := 2\<rparr>" "sends 1 es = []"
    by (rule sample_open_record)
  have dis: "disconnect sample_open = sample_connecting\<lparr>rc_subscriptions := [(js_of ''c'', [7])], rc_log := es,
      rc_sockets := [\<lparr>sk_readyState = Closing, sk_url = js_of ''wss://h/ws'', sk_token = js_of ''tok''\<rparr>],
      rc_ws := None, rc_closedByUser := True, rc_next_timer := 2\<rparr>"
    unfolding es(1) sample_connecting_eq
    by (simp add: disconnect_def stopHeartbeat_def ws_close_def set_ready_def new_client_def del: js_of_simps)
  have con: "connect sample_platform (disconnect sample_open) =
      (disconnect sample_open)\<lparr>rc_closedByUser := False, rc_attempts := [(1, Await_Impl)], rc_next_attempt := 2\<rparr>"
    unfolding dis sample_connecting_eq
    by (simp add: connect_def openSocket_def await_impl_def Let_def new_client_def resolve_config_def sample_config_def
        del: js_of_simps)
  have eq: "sample_again = sample_connecting\<lparr>rc_subscriptions := [(js_of ''c'', [7])], rc_log := es,
      rc_sockets := [\<lparr>sk_readyState = Closing, sk_url = js_of ''wss://h/ws'', sk_token = js_of ''tok''\<rparr>,
        \<lparr>sk_readyState = Connecting, sk_url = js_of ''wss://h/ws'', sk_token = js_of ''tok''\<rparr>],
      rc_ws := Some 1, rc_next_timer := 2, rc_next_attempt := 2\<rparr>"
    unfolding sample_again_def con unfolding dis sample_connecting_eq
    by (simp add: impl_settled_def drop_attempt_def Let_def new_client_def resolve_config_def sample_config_def
        del: js_of_simps) simp
  show "valid_tenant sample_again" using sample_valid(2) by (simp add: eq valid_tenant_def)
  show "rc_ws sample_again = Some 1" "\<not> rc_closedByUser sample_again"
    "rc_sockets sample_again = [\<lparr>sk_readyState = Closing, sk_url = js_of ''wss://h/ws'', sk_token = js_of ''tok''\<rparr>,
       \<lparr>sk_readyState = Connecting, sk_url = js_of ''wss://h/ws'', sk_token = js_of ''tok''\<rparr>]"
    "rc_subscriptions sample_again = [(js_of ''c'', [7])]" "sends 1 (rc_log sample_again) = []"
    using es(2) by (simp_all add: eq) (simp add: sample_connecting_eq)
  show "rc_pendingSends sample_again = []" "rf_reconnect (rc_config sample_again)"
    by (simp_all add: eq) (simp_all add: sample_connecting_eq sample_defs)
  have "enabled (In_Impl True 1) (connect sample_platform (disconnect sample_open))"
    unfolding con by simp
  then have "run [In_Disconnect, In_Connect sample_platform, In_Impl True 1] sample_open = Some sample_again"
    by (simp add: sample_again_def)
  then show "reachable sample_again" by (rule run_reachable [OF sample_open_reachable])
qed

text \<open>
  C29. The close handler does not check which socket it belongs to. A reachable history: a client disconnects and
  connects again, its new socket opens, and only then the old socket's close event fires. The new socket is open and
  nobody disconnected, yet the client has no current socket and no heartbeat, and will open a third socket.
\<close>

theorem stale_close_drops_connection:
  "\<exists>c. reachable c \<and> \<not> rc_closedByUser c \<and> length (rc_sockets c) = 2 \<and>
     sk_readyState (rc_sockets c ! 0) = Closed_State \<and> sk_readyState (rc_sockets c ! 1) = Open \<and>
     sends 1 (rc_log c) = [(Auth, [], js_of ''tok''), (Subscribe, js_of ''c'', [])] \<and>
     rc_ws c = None \<and> rc_heartbeatTimer c = None \<and> rc_timeouts c \<noteq> []"
proof -
  note parts = sample_again_parts
  have socks: "rc_sockets (after_open s d) = rc_sockets d" for s d
    by (simp add: after_open_def emit_def startHeartbeat_def stopHeartbeat_def Let_def split: option.split)
  let ?o = "set_ready Open 1 sample_again"
  have "ws_open ?o" by (simp add: ws_open_def parts set_ready_def)
  then have op: "snd (handle (In_Open 1) sample_again) = after_open 1 ?o"
    using onopen_open [of ?o 1] parts(1) by (simp add: as_callback_def)
  let ?c = "onclose 0 1000 [] (set_ready Closed_State 0 (after_open 1 ?o))"
  have ao: "rc_closedByUser (after_open 1 ?o) = False"
    "rc_config (after_open 1 ?o) = rc_config sample_again"
    "sends 1 (rc_log (after_open 1 ?o)) = [(Auth, [], js_of ''tok''), (Subscribe, js_of ''c'', [])]"
    using parts by (simp_all add: after_open_def emit_def startHeartbeat_def stopHeartbeat_def Let_def open_frames_def
        resub_args_def jkeys_def sent_entry_def set_ready_def split: option.split)
  have en: "enabled (In_Open 1) sample_again" "enabled (In_Close 0 0 1000 []) (after_open 1 ?o)"
    by (simp_all add: socks) (simp_all add: set_ready_def parts)
  have run: "run [In_Open 1, In_Close 0 0 1000 []] sample_again = Some ?c"
    by (simp only: run.simps op en if_True) (simp only: handle.simps snd_conv)
  have cl: "rc_sockets (onclose r n m d) = rc_sockets d" "rc_ws (onclose r n m d) = None"
    "rc_heartbeatTimer (onclose r n m d) = None" "rc_closedByUser (onclose r n m d) = rc_closedByUser d"
    "sends s (rc_log (onclose r n m d)) = sends s (rc_log d)" for r n m d s
    by (auto simp: onclose_def Let_def emit_def scheduleReconnect_def stopHeartbeat_def split: option.split)
  have "rc_timeouts ?c \<noteq> []"
    using onclose_timers [of 0 1000 "[]" "set_ready Closed_State 0 (after_open 1 ?o)"] ao parts(8) by (simp split: if_splits)
  moreover have "reachable ?c" using run_reachable [OF parts(9) run] .
  moreover have "length (rc_sockets ?c) = 2" "sk_readyState (rc_sockets ?c ! 0) = Closed_State"
    "sk_readyState (rc_sockets ?c ! 1) = Open"
    by (simp_all add: cl socks) (simp_all add: set_ready_def socks parts)
  ultimately show ?thesis using ao by (intro exI [of _ ?c]) (simp add: cl)
qed

end
