(* ===== verification/Reconnection.thy ===== *)
theory Reconnection
  imports Client_Behaviour
begin

text \<open>
  Liveness of the client: after its socket closed, the timer it set, a token where one is asked for, a constructor that returns and a socket that opens bring it back, with every
  subscription made again and nothing left in the queue. The steps are the inputs of \<open>Realtime_Client\<close>; that each can happen is part of the statement.
\<close>

section \<open>The steps of a reconnection\<close>

lemma onclose_reconnects:
  assumes "\<not> rc_closedByUser c" "rf_reconnect (rc_config c)" "rf_getToken (rc_config c) \<or> code \<noteq> 4001"
  shows "let c' = onclose rnd code reason c in
    rc_next_timer c \<in> fst ` set (rc_timeouts c') \<and> \<not> rc_closedByUser c' \<and> rc_config c' = rc_config c \<and> rc_wsImplPromise c' = rc_wsImplPromise c \<and>
    rc_next_attempt c' = rc_next_attempt c \<and> rc_sockets c' = rc_sockets c \<and> rc_subscriptions c' = rc_subscriptions c"
  using assms by (auto simp: onclose_def Let_def WS_CLOSE_CODE_AUTH_FAILED_def scheduleReconnect_def emit_def stopHeartbeat_def split: option.split)

lemma impl_settled_created:
  assumes "rc_wsImplPromise c = Some (Inr impl)" "\<not> rc_closedByUser c" "rf_token (rc_config c) = Some tok" "tok \<noteq> []"
  shows "impl_settled True a c = with_socket tok (drop_attempt a c)"
  using assms by (simp add: impl_settled_def with_socket_def Let_def)

lemma reachable_handle: "reachable c \<Longrightarrow> enabled i c \<Longrightarrow> reachable (snd (handle i c))"
  using cl.reach_step client_step.step by blast

lemma reachable_run: "reachable c \<Longrightarrow> run is c = Some d \<Longrightarrow> reachable d"
proof (induction "is" arbitrary: c)
  case (Cons i rest)
  then show ?case using reachable_handle [OF Cons.prems(1), of i] by (auto split: if_splits)
qed simp

lemma after_open_parts:
  "rc_ws (after_open s c) = rc_ws c" "rc_sockets (after_open s c) = rc_sockets c" "rc_config (after_open s c) = rc_config c"
  "rc_subscriptions (after_open s c) = rc_subscriptions c"
  by (simp_all add: after_open_def emit_def startHeartbeat_def stopHeartbeat_def Let_def split: option.split)

section \<open>Where a socket was, the next one can be made\<close>

text \<open>
  A client that ever had a socket has a constructor, and without \<open>getToken\<close> also a token, which stays; and a client without \<open>getToken\<close> never waits for one.
\<close>

definition remake_ok :: "client \<Rightarrow> bool" where
  "remake_ok c \<longleftrightarrow>
     (rc_sockets c \<noteq> [] \<longrightarrow> (\<exists>impl. rc_wsImplPromise c = Some (Inr impl)) \<and>
       (rf_getToken (rc_config c) \<or> (\<exists>tok. rf_token (rc_config c) = Some tok \<and> tok \<noteq> []))) \<and>
     (\<not> rf_getToken (rc_config c) \<longrightarrow> (\<forall>a. (a, Await_Token) \<notin> set (rc_attempts c)))"

lemma remake_simps [simp]:
  "remake_ok (c\<lparr>rc_log := l\<rparr>) = remake_ok c" "remake_ok (c\<lparr>rc_pendingSends := p\<rparr>) = remake_ok c"
  "remake_ok (c\<lparr>rc_reconnectAttempt := n\<rparr>) = remake_ok c" "remake_ok (c\<lparr>rc_ws := w\<rparr>) = remake_ok c"
  "remake_ok (c\<lparr>rc_closedByUser := b\<rparr>) = remake_ok c" "remake_ok (c\<lparr>rc_timeouts := ts\<rparr>) = remake_ok c"
  "remake_ok (c\<lparr>rc_listeners := ls\<rparr>) = remake_ok c" "remake_ok (c\<lparr>rc_subscriptions := m\<rparr>) = remake_ok c"
  "remake_ok (c\<lparr>rc_reassembler := ra\<rparr>) = remake_ok c" "remake_ok (c\<lparr>rc_next_attempt := n\<rparr>) = remake_ok c"
  "remake_ok (c\<lparr>rc_next_timer := n\<rparr>) = remake_ok c" "remake_ok (c\<lparr>rc_intervals := js\<rparr>) = remake_ok c"
  "remake_ok (c\<lparr>rc_heartbeatTimer := t\<rparr>) = remake_ok c" "remake_ok (c\<lparr>rc_reconnectTimer := t\<rparr>) = remake_ok c"
  by (simp_all add: remake_ok_def)

lemma remake_helpers [simp]:
  "remake_ok (set_ready r s c) = remake_ok c" "remake_ok (emit ev c) = remake_ok c" "remake_ok (stopHeartbeat c) = remake_ok c"
  "remake_ok (startHeartbeat c) = remake_ok c" "remake_ok (scheduleReconnect rnd c) = remake_ok c" "remake_ok (ws_close s c) = remake_ok c"
  "remake_ok (snd (send a c)) = remake_ok c"
  using send_writes_log [of a c]
  by (auto simp: set_ready_def emit_def stopHeartbeat_def startHeartbeat_def scheduleReconnect_def ws_close_def Let_def remake_ok_def split: option.split)

lemma remake_drop: "remake_ok c \<Longrightarrow> remake_ok (drop_attempt a c)"
  by (simp add: remake_ok_def drop_attempt_def)

lemma remake_await: "remake_ok c \<Longrightarrow> remake_ok (await_impl pf a c)"
  by (auto simp: remake_ok_def await_impl_def Let_def split: option.split)

lemma remake_openSocket: "remake_ok c \<Longrightarrow> remake_ok (openSocket pf c)"
  using remake_await [of "c\<lparr>rc_next_attempt := rc_next_attempt c + 1\<rparr>" pf "rc_next_attempt c"]
  by (auto simp: openSocket_def Let_def) (simp add: remake_ok_def)

lemma remake_token: "remake_ok c \<Longrightarrow> (a, Await_Token) \<in> set (rc_attempts c) \<Longrightarrow> remake_ok (token_resolved pf a tok url c)"
  by (auto simp: token_resolved_def Let_def remake_ok_def drop_attempt_def await_impl_def split: option.splits)

lemma remake_impl: "remake_ok c \<Longrightarrow> rc_wsImplPromise c \<noteq> None \<Longrightarrow> remake_ok (impl_settled ok a c)"
  using remake_drop [of c a]
  by (auto simp: impl_settled_def Let_def split: sum.split option.split) (auto simp: remake_ok_def)

lemma remake_onopen [simp]: "remake_ok (snd (onopen s c)) = remake_ok c"
  using onopen_open [of c s] onopen_not_open [of c s] onopen_invalid [of c s]
  by (cases "valid_tenant c"; cases "ws_open c") (auto simp: after_open_def)

lemma remake_send_chunks: "remake_ok c \<Longrightarrow> remake_ok (snd (send_chunks rnd q t pl c))"
  by (auto simp: send_chunks_def sendOrQueue_def intro!: for_each_keeps [where P = remake_ok] split: sum.split)

lemma remake_dispatch [simp]: "remake_ok (dispatch n1 n2 n3 f c) = remake_ok c"
  by (auto simp: dispatch_def Let_def split: option.split prod.split)

lemma remake_callback [simp]: "remake_ok (as_callback p c) = remake_ok (snd (p c))"
  by (simp add: as_callback_def split: prod.split option.split)

lemma remake_handle:
  assumes "remake_ok c" "client_ok c" "enabled i c"
  shows "remake_ok (snd (handle i c))"
proof (cases i)
  case (In_Impl ok a)
  then have "rc_wsImplPromise c \<noteq> None" using assms(2,3) by (auto simp: client_ok_def attempts_ok_def)
  then show ?thesis using In_Impl assms(1) by (simp add: remake_impl)
qed (use assms in \<open>auto simp: connect_def disconnect_def publish_def unicast_def replay_def sendOrQueue_def subscribe_def unsubscribeHandler_def
      remake_openSocket remake_token token_rejected_def remake_drop remake_send_chunks onmessage_def onerror_def onclose_def heartbeat_tick_def Let_def
      split: option.split sum.split\<close>)

lemma reachable_remake: "reachable c \<Longrightarrow> remake_ok c"
proof -
  have "remake_ok c \<and> client_ok c \<and> wire_ok c" if "reachable c" for c
    using that unfolding reachable_def
  proof (elim exE)
    fix config
    assume "client_step\<^sup>*\<^sup>* (new_client config) c"
    then show ?thesis
    proof (induction rule: rtranclp_induct)
      case base
      then show ?case using client_ok_new wire_ok_new by (simp add: remake_ok_def) (simp add: new_client_def)
    next
      case (step d e)
      then show ?case using remake_handle client_ok_handle wire_ok_handle by (auto elim!: client_stepE)
    qed
  qed
  then show "reachable c \<Longrightarrow> remake_ok c" by blast
qed

section \<open>Recovery\<close>

text \<open>The steps that renew the token, for a client with \<open>getToken\<close>, and the token the next socket is opened with.\<close>

definition token_steps :: "platform \<Rightarrow> js_string \<Rightarrow> js_string option \<Rightarrow> client \<Rightarrow> input list" where
  "token_steps pf tok url c = (if rf_getToken (rc_config c) then [In_Token pf (rc_next_attempt c) tok url] else [])"

text \<open>From the timer to the await on the constructor, in either configuration.\<close>

lemma timer_awaits_impl:
  assumes "\<not> rc_closedByUser c" "rc_wsImplPromise c = Some (Inr impl)" "t \<in> fst ` set (rc_timeouts c)"
    and "rf_getToken (rc_config c) \<or> rf_token (rc_config c) = Some tok"
  shows "\<exists>d. run (In_Timeout pf t # token_steps pf tok url c) c = Some d \<and> (rc_next_attempt c, Await_Impl) \<in> set (rc_attempts d) \<and>
    \<not> rc_closedByUser d \<and> rf_token (rc_config d) = Some tok \<and> rf_tenantId (rc_config d) = rf_tenantId (rc_config c) \<and>
    rc_wsImplPromise d = Some (Inr impl) \<and> rc_sockets d = rc_sockets c \<and> rc_subscriptions d = rc_subscriptions c"
  using assms by (auto simp: token_steps_def openSocket_def token_resolved_def await_impl_def drop_attempt_def Let_def)

text \<open>From the constructor to the open socket.\<close>

lemma impl_opens:
  assumes "(a, Await_Impl) \<in> set (rc_attempts c)" "\<not> rc_closedByUser c" "rf_token (rc_config c) = Some tok" "tok \<noteq> []"
    and "rc_wsImplPromise c = Some (Inr impl)" "valid_tenant c"
  shows "\<exists>d. run [In_Impl True a, In_Open (length (rc_sockets c))] c = Some d \<and> ws_open d \<and> valid_tenant d \<and>
    rc_ws d = Some (length (rc_sockets c)) \<and> rc_subscriptions d = rc_subscriptions c"
proof -
  let ?k = "length (rc_sockets c)"
  define c1 where "c1 = with_socket tok (drop_attempt a c)"
  have c1: "impl_settled True a c = c1" using assms by (simp add: c1_def impl_settled_created)
  have k: "?k < length (rc_sockets c1)" "rc_ws c1 = Some ?k" "sk_readyState (rc_sockets c1 ! ?k) = Connecting" "rc_config c1 = rc_config c"
    "rc_subscriptions c1 = rc_subscriptions c"
    by (simp_all add: c1_def with_socket_def nth_append drop_attempt_def)
  define d where "d = snd (handle (In_Open ?k) c1)"
  have op: "ws_open (set_ready Open ?k c1)" using k by (simp add: ws_open_def set_ready_def)
  have vt: "valid_tenant (set_ready Open ?k c1)" using assms(6) k(4) by (simp add: valid_tenant_def set_ready_def)
  have d: "d = after_open ?k (set_ready Open ?k c1)" using onopen_open [OF vt op] by (simp add: d_def as_callback_def)
  have "ws_open d" using op k(2) by (simp add: d ws_open_def after_open_parts)
  moreover have "valid_tenant d" using vt by (simp add: d valid_tenant_def after_open_parts)
  moreover have "rc_subscriptions d = rc_subscriptions c" using k(5) by (simp add: d after_open_parts set_ready_def)
  moreover have "rc_ws d = Some ?k" using k(2) by (simp add: d after_open_parts set_ready_def)
  moreover have "run [In_Impl True a, In_Open ?k] c = Some d" using assms(1) k(1,3) by (simp add: d_def c1)
  ultimately show ?thesis by blast
qed

text \<open>
  C7. A client that loses its connection recovers. Take any reachable client with a well-formed tenant id that was not closed by the application and is configured to reconnect, and let any of its sockets
  close, with any code if it has \<open>getToken\<close> and with any code but that of an authentication failure if it has a fixed token. Then these steps can happen, whatever else it was doing: the
  reconnection timer fires, \<open>getToken\<close> (where configured) resolves with a non-empty token and with or without another URL, the constructor returns a socket, and the socket opens. The client is then connected on
  that socket, its queue is empty, it has kept its subscriptions, and the frames sent on the new socket leave the server with exactly these channels.
\<close>

theorem reconnect_recovers:
  assumes "reachable c" "valid_tenant c" "enabled (In_Close s rnd code reason) c" "\<not> rc_closedByUser c" "rf_reconnect (rc_config c)"
    and "rf_getToken (rc_config c) \<or> code \<noteq> 4001" "tok \<noteq> []"
  shows "\<exists>d. run ([In_Close s rnd code reason, In_Timeout pf (rc_next_timer c)] @
      (if rf_getToken (rc_config c) then [In_Token pf (rc_next_attempt c) tok url] else []) @
      [In_Impl True (rc_next_attempt c), In_Open (length (rc_sockets c))]) c = Some d \<and>
    ws_open d \<and> rc_ws d = Some (length (rc_sockets c)) \<and> rc_pendingSends d = [] \<and> rc_subscriptions d = rc_subscriptions c \<and>
    server_view (sends (length (rc_sockets c)) (rc_log d)) = set (jkeys (rc_subscriptions c))"
proof -
  let ?a = "rc_next_attempt c" and ?k = "length (rc_sockets c)" and ?t = "rc_next_timer c"
  have "rc_sockets c \<noteq> []" using assms(3) by auto
  then obtain impl tok' where impl: "rc_wsImplPromise c = Some (Inr impl)"
    and tok': "rf_getToken (rc_config c) \<and> tok' = tok \<or> rf_token (rc_config c) = Some tok'" "tok' \<noteq> []"
    using reachable_remake [OF assms(1)] assms(7) by (auto simp: remake_ok_def)
  define c0 where "c0 = set_ready Closed_State s c"
  define c1 where "c1 = onclose rnd code reason c0"
  have c1: "?t \<in> fst ` set (rc_timeouts c1)" "\<not> rc_closedByUser c1" "rc_config c1 = rc_config c" "rc_wsImplPromise c1 = Some (Inr impl)"
    "rc_next_attempt c1 = ?a" "length (rc_sockets c1) = ?k" "rc_subscriptions c1 = rc_subscriptions c"
    using onclose_reconnects [of c0 code rnd reason] assms(4-6) impl by (simp_all add: c1_def c0_def set_ready_def Let_def)
  have s1: "run [In_Close s rnd code reason] c = Some c1" using assms(3) by (simp add: c1_def c0_def)
  obtain c2 tok2 where c2: "run (In_Timeout pf ?t # token_steps pf tok url c1) c1 = Some c2" "(?a, Await_Impl) \<in> set (rc_attempts c2)"
    "\<not> rc_closedByUser c2" "rf_token (rc_config c2) = Some tok2" "rf_tenantId (rc_config c2) = rf_tenantId (rc_config c)"
    "rc_wsImplPromise c2 = Some (Inr impl)" "rc_sockets c2 = rc_sockets c1" "rc_subscriptions c2 = rc_subscriptions c" "tok2 \<noteq> []"
  proof (cases "rf_getToken (rc_config c)")
    case True
    then show thesis using that [of _ tok] timer_awaits_impl [OF c1(2,4,1), of tok pf url] c1 assms(7) by auto
  next
    case False
    then have "token_steps pf tok url c1 = token_steps pf tok' url c1" using c1(3) by (simp add: token_steps_def)
    then show thesis using that [of _ tok'] timer_awaits_impl [OF c1(2,4,1), of tok' pf url] c1 tok' False by auto
  qed
  have "valid_tenant c2" using assms(2) c2(5) by (simp add: valid_tenant_def)
  from impl_opens [OF c2(2,3,4,9,6) this] obtain d where d: "run [In_Impl True ?a, In_Open ?k] c2 = Some d" "ws_open d" "valid_tenant d"
    "rc_ws d = Some ?k" "rc_subscriptions d = rc_subscriptions c"
    using c1(6) c2(7,8) by auto
  have "run ([In_Close s rnd code reason] @ (In_Timeout pf ?t # token_steps pf tok url c1) @ [In_Impl True ?a, In_Open ?k]) c = Some d"
    using s1 c2(1) d(1) by (simp only: run_append option.case)
  then have run: "run ([In_Close s rnd code reason, In_Timeout pf ?t] @ (if rf_getToken (rc_config c) then [In_Token pf ?a tok url] else []) @
      [In_Impl True ?a, In_Open ?k]) c = Some d"
    by (simp only: token_steps_def c1(3,5) append.simps)
  have "open_ok d" using reachable_run [OF assms(1) run] reachable_ok by (simp add: wire_ok_def)
  then show ?thesis using run d by (auto simp: open_ok_def)
qed

text \<open>Applied to the sample client, whose socket closes before it was open.\<close>

theorem reconnect_recovers_witness:
  "\<exists>d. run [In_Close 0 (1 / 2) 1006 [], In_Timeout sample_platform (rc_next_timer sample_connecting), In_Impl True 1, In_Open 1] sample_connecting = Some d \<and> ws_open d"
proof -
  have n: "rc_next_attempt sample_connecting = 1" "length (rc_sockets sample_connecting) = 1" by (simp_all add: sample_connecting_eq)
  have g: "rf_reconnect (rc_config sample_connecting)" "\<not> rf_getToken (rc_config sample_connecting)"
    by (simp_all add: sample_connecting_eq sample_defs del: js_of_simps)
  have e: "enabled (In_Close 0 (1 / 2) 1006 []) sample_connecting" "\<not> rc_closedByUser sample_connecting" by (simp_all add: sample_connecting_eq)
  have c: "rf_getToken (rc_config sample_connecting) \<or> (1006 :: nat) \<noteq> 4001" by simp
  show ?thesis
    using reconnect_recovers [OF sample_connecting_reachable sample_valid(2) e g(1) c, of "[0]" sample_platform None] g(2)
    by (auto simp: n simp del: run.simps enabled.simps)
qed

end
