(* ===== verification/Mio_Protocol.thy ===== *)
theory Mio_Protocol
  imports Protocol
begin

text \<open>
  \<open>sdk-wordpress/assets/js/mio-protocol.js\<close>: the frame codec written again for pages without a build step. The file says that it
  must stay bit for bit identical to \<open>protocol.ts\<close>; the definitions here follow its own code, and the last section proves the claim.
  The differences are in the text fields, where the file encodes the whole string and backs up from the cut to the
  start of a code point, in the hexadecimal output and in the table of opcodes, which are plain bytes.
\<close>

section \<open>Layout and opcodes\<close>

definition mio_FRAME_SIZE :: nat where "mio_FRAME_SIZE = 256"
definition mio_MAGIC :: "16 word" where "mio_MAGIC = 0xAA01"
definition mio_OFF_MAGIC :: nat where "mio_OFF_MAGIC = 0"
definition mio_OFF_OPCODE :: nat where "mio_OFF_OPCODE = 2"
definition mio_OFF_TENANT :: nat where "mio_OFF_TENANT = 3"
definition mio_LEN_TENANT :: nat where "mio_LEN_TENANT = 16"
definition mio_OFF_CHANNEL :: nat where "mio_OFF_CHANNEL = mio_OFF_TENANT + mio_LEN_TENANT"
definition mio_LEN_CHANNEL :: nat where "mio_LEN_CHANNEL = 24"
definition mio_OFF_PAYLOAD :: nat where "mio_OFF_PAYLOAD = mio_OFF_CHANNEL + mio_LEN_CHANNEL"
definition mio_LEN_PAYLOAD :: nat where "mio_LEN_PAYLOAD = 211"
definition mio_OFF_CRC :: nat where "mio_OFF_CRC = mio_OFF_PAYLOAD + mio_LEN_PAYLOAD"
definition mio_LEN_CRC :: nat where "mio_LEN_CRC = 2"

text \<open>The test when the file is loaded.\<close>

definition mio_layout_consistent :: bool where
  "mio_layout_consistent \<longleftrightarrow> mio_OFF_CRC + mio_LEN_CRC = mio_FRAME_SIZE"

lemmas mio_layout_defs = mio_FRAME_SIZE_def mio_OFF_MAGIC_def mio_OFF_OPCODE_def mio_OFF_TENANT_def mio_LEN_TENANT_def
  mio_OFF_CHANNEL_def mio_LEN_CHANNEL_def mio_OFF_PAYLOAD_def mio_LEN_PAYLOAD_def mio_OFF_CRC_def mio_LEN_CRC_def

definition mio_Opcode :: "(string \<times> byte) list" where
  "mio_Opcode = [(''Subscribe'', 0x01), (''Publish'', 0x02), (''Message'', 0x03), (''Auth'', 0x04), (''Ping'', 0x05),
     (''Presence'', 0x06), (''Replay'', 0x07), (''Unicast'', 0x08), (''Unsub'', 0x09)]"

text \<open>\<open>VALID_OPCODES\<close>: the set filled by the loop over the keys of \<open>Opcode\<close>.\<close>

definition mio_VALID_OPCODES :: "byte \<Rightarrow> bool" where
  "mio_VALID_OPCODES b \<longleftrightarrow> b \<in> set (map snd mio_Opcode)"

section \<open>Tenant identifiers\<close>

definition mio_uuidToBytes :: "js_string \<Rightarrow> protocol_error + bytes" where
  "mio_uuidToBytes uuid =
     (if \<not> UUID_RE uuid then Inl (InvalidUuid uuid)
      else (let hex = filter (\<lambda>u. u \<noteq> dash) uuid in
        Inr (map (\<lambda>i. parse_hex (js_slice (i * 2) (i * 2 + 2) hex)) [0..<16])))"

text \<open>\<open>bytes[i].toString(16)\<close>, without padding.\<close>

definition byte_toString16 :: "byte \<Rightarrow> js_string" where
  "byte_toString16 b =
     (if unat b < 16 then [hex_digit (unat b)] else [hex_digit (unat b div 16), hex_digit (unat b mod 16)])"

fun mio_hex_loop :: "js_string \<Rightarrow> bytes \<Rightarrow> js_string" where
  "mio_hex_loop hex [] = hex"
| "mio_hex_loop hex (b # bs) = mio_hex_loop (hex @ (if unat b < 16 then [48] else []) @ byte_toString16 b) bs"

definition mio_bytesToUuid :: "bytes \<Rightarrow> js_string" where
  "mio_bytesToUuid bs =
     (let hex = mio_hex_loop [] bs in
      js_slice 0 8 hex @ [dash] @ js_slice 8 12 hex @ [dash] @ js_slice 12 16 hex @ [dash] @
      js_slice 16 20 hex @ [dash] @ js_slice 20 32 hex)"

section \<open>Text fields\<close>

text \<open>\<open>(encoded[len] & 0xc0) === 0x80\<close>; past the end the element is \<open>undefined\<close> and the test fails.\<close>

definition is_continuation :: "byte \<Rightarrow> bool" where
  "is_continuation b \<longleftrightarrow> b AND 0xC0 = 0x80"

fun back_up :: "bytes \<Rightarrow> nat \<Rightarrow> nat" where
  "back_up encoded 0 = 0"
| "back_up encoded (Suc k) =
     (if Suc k < length encoded \<and> is_continuation (encoded ! Suc k) then back_up encoded k else Suc k)"

definition mio_writePadded :: "nat \<Rightarrow> js_string \<Rightarrow> bytes" where
  "mio_writePadded n s =
     (let encoded = text_encode s; len = back_up encoded (min (length encoded) n) in
      take len encoded @ replicate (n - len) 0)"

definition mio_readTrimmed :: "bytes \<Rightarrow> js_string" where
  "mio_readTrimmed src =
     (let end_pos = (case index_of 0 src of None \<Rightarrow> length src | Some i \<Rightarrow> i) in text_decode (take end_pos src))"

section \<open>Frames\<close>

text \<open>The inner loop over \<open>bit\<close> and the outer loop over \<open>data\<close>.\<close>

fun mio_crc_bits :: "nat \<Rightarrow> int32 \<Rightarrow> int32" where
  "mio_crc_bits 0 crc = crc"
| "mio_crc_bits (Suc n) crc = mio_crc_bits n
     (if crc AND 0x8000 \<noteq> 0 then (push_bit 1 crc XOR 0x1021) AND 0xFFFF else push_bit 1 crc AND 0xFFFF)"

fun mio_crc_loop :: "int32 \<Rightarrow> bytes \<Rightarrow> int32" where
  "mio_crc_loop crc [] = crc AND 0xFFFF"
| "mio_crc_loop crc (b # bs) = mio_crc_loop (mio_crc_bits 8 (crc XOR push_bit 8 (ucast b))) bs"

definition mio_crc16CcittFalse :: "bytes \<Rightarrow> int32" where
  "mio_crc16CcittFalse data = mio_crc_loop 0xFFFF data"

record mio_fields =
  mf_opcode :: byte
  mf_tenantId :: js_string
  mf_channelId :: "js_string option"
  mf_payload :: "js_string option"

record mio_frame =
  mfr_opcode :: byte
  mfr_tenantId :: js_string
  mfr_channelId :: js_string
  mfr_payload :: js_string
  mfr_raw :: bytes

definition mio_encodeFrame :: "mio_fields \<Rightarrow> protocol_error + bytes" where
  "mio_encodeFrame f =
     (let buf0 = replicate mio_FRAME_SIZE 0;
          buf1 = setUint16 mio_OFF_MAGIC mio_MAGIC buf0;
          buf2 = buf1[mio_OFF_OPCODE := mf_opcode f] in
      case mio_uuidToBytes (mf_tenantId f) of
        Inl e \<Rightarrow> Inl e
      | Inr t \<Rightarrow>
          (let buf3 = buf_set mio_OFF_TENANT t buf2;
               buf4 = buf_set mio_OFF_CHANNEL (mio_writePadded mio_LEN_CHANNEL (or_empty (mf_channelId f))) buf3;
               buf5 = buf_set mio_OFF_PAYLOAD (mio_writePadded mio_LEN_PAYLOAD (or_empty (mf_payload f))) buf4;
               crc = mio_crc16CcittFalse (subarray 0 mio_OFF_CRC buf5) in
           Inr (setUint16 mio_OFF_CRC (ucast crc) buf5)))"

definition mio_decodeFrame :: "bytes \<Rightarrow> protocol_error + mio_frame" where
  "mio_decodeFrame buf =
     (if length buf \<noteq> mio_FRAME_SIZE then Inl (InvalidLength (length buf))
      else (let magic = getUint16 mio_OFF_MAGIC buf in
        if magic \<noteq> mio_MAGIC then Inl (InvalidMagic magic)
        else (let opcodeByte = buf ! mio_OFF_OPCODE in
          if \<not> mio_VALID_OPCODES opcodeByte then Inl (UnknownOpcode opcodeByte)
          else (let expectedCrc = getUint16 mio_OFF_CRC buf;
                    actualCrc = mio_crc16CcittFalse (subarray 0 mio_OFF_CRC buf) in
            if ucast expectedCrc \<noteq> actualCrc then Inl (InvalidCrc expectedCrc actualCrc)
            else Inr \<lparr>mfr_opcode = opcodeByte,
               mfr_tenantId = mio_bytesToUuid (subarray mio_OFF_TENANT (mio_OFF_TENANT + mio_LEN_TENANT) buf),
               mfr_channelId = mio_readTrimmed (subarray mio_OFF_CHANNEL (mio_OFF_CHANNEL + mio_LEN_CHANNEL) buf),
               mfr_payload = mio_readTrimmed (subarray mio_OFF_PAYLOAD (mio_OFF_PAYLOAD + mio_LEN_PAYLOAD) buf),
               mfr_raw = buf\<rparr>))))"

section \<open>Glob patterns\<close>

text \<open>The loop over \<open>i\<close> in the branch of the star, with the remaining candidate \<open>c.slice(i)\<close>.\<close>

function mio_glob_helper :: "js_string \<Rightarrow> js_string \<Rightarrow> bool" and mio_glob_star :: "js_string \<Rightarrow> js_string \<Rightarrow> bool" where
  "mio_glob_helper p c =
     (case p of [] \<Rightarrow> c = []
      | x # ps \<Rightarrow> if x = star then mio_glob_star ps c
                  else c \<noteq> [] \<and> hd c = x \<and> mio_glob_helper ps (tl c))"
| "mio_glob_star ps c =
     (if mio_glob_helper ps c then True else (case c of [] \<Rightarrow> False | _ # c' \<Rightarrow> mio_glob_star ps c'))"
  by pat_completeness auto
termination
  by (relation "measures [\<lambda>a. case a of Inl (p, c) \<Rightarrow> 2 * length p | Inr (p, c) \<Rightarrow> Suc (2 * length p),
    \<lambda>a. case a of Inl (p, c) \<Rightarrow> length c | Inr (p, c) \<Rightarrow> length c]") auto

definition mio_globMatch :: "js_string \<Rightarrow> js_string \<Rightarrow> bool" where
  "mio_globMatch pattern candidate = mio_glob_helper pattern candidate"

declare mio_glob_helper.simps [simp del] mio_glob_star.simps [simp del]

section \<open>The port agrees with the original\<close>

lemma mio_constants [simp]:
  "mio_FRAME_SIZE = FRAME_SIZE" "mio_MAGIC = MAGIC" "mio_OFF_MAGIC = OFF_MAGIC" "mio_OFF_OPCODE = OFF_OPCODE" "mio_OFF_TENANT = OFF_TENANT"
  "mio_LEN_TENANT = LEN_TENANT" "mio_OFF_CHANNEL = OFF_CHANNEL" "mio_LEN_CHANNEL = LEN_CHANNEL" "mio_OFF_PAYLOAD = OFF_PAYLOAD"
  "mio_LEN_PAYLOAD = LEN_PAYLOAD" "mio_OFF_CRC = OFF_CRC" "mio_LEN_CRC = LEN_CRC"
  by (simp_all add: mio_layout_defs layout_defs mio_MAGIC_def MAGIC_def)

lemma mio_layout_ok: "mio_layout_consistent"
  by (simp add: mio_layout_consistent_def layout_defs)

lemma mio_uuidToBytes_eq: "mio_uuidToBytes = uuidToBytes"
  by (rule ext) (simp add: mio_uuidToBytes_def uuidToBytes_def js_slice_def)

lemma mio_hex_loop_eq: "mio_hex_loop hex bs = hex @ concat (map byte_hex bs)"
  by (induction hex bs rule: mio_hex_loop.induct) (simp_all add: byte_toString16_def byte_hex_def hex_digit_def)

lemma mio_bytesToUuid_eq: "mio_bytesToUuid = bytesToUuid"
  by (rule ext) (simp add: mio_bytesToUuid_def bytesToUuid_def mio_hex_loop_eq)

lemma mio_crc_bits_eq: "mio_crc_bits n crc = (crc_bit ^^ n) crc"
  by (induction n arbitrary: crc) (simp_all only: mio_crc_bits.simps funpow.simps(1) id_apply funpow_Suc_right comp_apply crc_bit_def)

lemma mio_crc_loop_eq: "mio_crc_loop crc bs = foldl crc_byte crc bs AND 0xFFFF"
  by (induction crc bs rule: mio_crc_loop.induct) (simp_all add: mio_crc_bits_eq crc_byte_def)

lemma mio_crc_eq: "mio_crc16CcittFalse = crc16CcittFalse"
  by (rule ext) (simp add: mio_crc16CcittFalse_def crc16CcittFalse_def mio_crc_loop_eq)

lemma mio_readTrimmed_eq: "mio_readTrimmed = readTrimmed"
  by (rule ext) (simp add: mio_readTrimmed_def readTrimmed_def split: option.split)

lemma mio_VALID_OPCODES_eq: "mio_VALID_OPCODES b \<longleftrightarrow> VALID_OPCODES b \<noteq> None"
  by (auto simp: mio_VALID_OPCODES_def mio_Opcode_def VALID_OPCODES_def all_opcodes_def)

subsection \<open>Cutting at a code point\<close>

lemma is_continuation_iff: "is_continuation b \<longleftrightarrow> unat b div 64 = 2"
proof -
  have "unat b div 64 = unat (drop_bit 6 b)" by (simp only: unat_drop_bit_eq) (simp add: drop_bit_eq_div)
  moreover have "unat (drop_bit 6 b) = 2 \<longleftrightarrow> drop_bit 6 b = 2" by (simp add: word_unat_eq_iff)
  moreover have "(b AND 0xC0) = 0x80 \<longleftrightarrow> drop_bit 6 b = 2"
  proof
    have "drop_bit 6 (b AND 0xC0) = drop_bit 6 b" by (rule bit_word_eqI) (auto simp: bit_simps less_Suc_eq numeral_eq_Suc dest: bit_imp_le_length)
    moreover assume "(b AND 0xC0) = 0x80"
    ultimately show "drop_bit 6 b = 2" by simp
  next
    assume d: "drop_bit 6 b = 2"
    have "bit b 6 = bit (drop_bit 6 b) 0" "bit b 7 = bit (drop_bit 6 b) 1" by (simp_all only: bit_drop_bit_eq) (simp_all add: o_def)
    then have "\<not> bit b 6" "bit b 7" unfolding d by (simp_all add: bit_simps)
    then show "(b AND 0xC0) = 0x80" by (intro bit_word_eqI) (auto simp: bit_simps less_Suc_eq numeral_eq_Suc)
  qed
  ultimately show ?thesis by (simp add: is_continuation_def)
qed

lemma is_continuation_byte: "x < 64 \<Longrightarrow> is_continuation (of_nat (0x80 + x))"
  by (simp add: is_continuation_iff unat_of_nat_byte del: of_nat_add)

lemma not_continuation_byte: "n < 0x80 \<or> 0xC0 \<le> n \<Longrightarrow> n < 0x100 \<Longrightarrow> \<not> is_continuation (of_nat n)"
  by (auto simp: is_continuation_iff unat_of_nat_byte)

lemma utf8_scalar_shape:
  assumes "is_scalar c"
  shows "\<not> is_continuation (hd (utf8_scalar c))" "b \<in> set (tl (utf8_scalar c)) \<Longrightarrow> is_continuation b"
proof -
  have c: "c < 0x110000" using assms by (auto simp: is_scalar_def)
  have b: "c < 0x800 \<Longrightarrow> 0xC0 + c div 0x40 < 0x100" "c < 0x10000 \<Longrightarrow> 0xE0 + c div 0x1000 < 0x100" "0xF0 + c div 0x40000 < 0x100"
    using c by (simp_all add: less_mult_imp_div_less)
  show "\<not> is_continuation (hd (utf8_scalar c))"
    using not_continuation_byte [of c] not_continuation_byte [OF _ b(1)] not_continuation_byte [OF _ b(2)]
      not_continuation_byte [OF _ b(3)] by (auto simp: utf8_scalar_def simp del: of_nat_add)
  assume "b \<in> set (tl (utf8_scalar c))"
  then show "is_continuation b"
    by (auto simp: utf8_scalar_def split: if_splits intro!: is_continuation_byte simp del: of_nat_add)
qed

lemma back_up_after:
  assumes "v = [] \<or> \<not> is_continuation (hd v)" "u \<noteq> []"
  shows "back_up (u @ v) (length u + m) = length u + back_up v m"
proof (induction m)
  case 0
  obtain k where k: "length u = Suc k" using assms(2) by (cases u) auto
  have "(u @ v) ! Suc k = hd v" if "v \<noteq> []" using that k [symmetric] by (simp add: nth_append hd_conv_nth)
  then show ?case using assms(1) k by (cases v) auto
next
  case (Suc m)
  then show ?case by (simp add: nth_append)
qed

lemma back_up_inside:
  assumes "\<And>b. b \<in> set (tl u) \<Longrightarrow> is_continuation b" "m < length u"
  shows "back_up (u @ v) m = 0"
  using assms(2)
proof (induction m)
  case (Suc m)
  then have "u ! Suc m = tl u ! m" "m < length (tl u)" by (simp_all add: nth_tl)
  then have "is_continuation (u ! Suc m)" using assms(1) by simp
  then show ?case using Suc by (simp add: nth_append)
qed simp

lemma take_back_up:
  "(\<And>c. c \<in> set cs \<Longrightarrow> is_scalar c) \<Longrightarrow>
   take (back_up (concat (map utf8_scalar cs)) (min (length (concat (map utf8_scalar cs))) n)) (concat (map utf8_scalar cs)) = encode_into n cs"
proof (induction n cs rule: encode_into.induct)
  case (2 room c cs)
  let ?u = "utf8_scalar c" and ?v = "concat (map utf8_scalar cs)"
  have c: "is_scalar c" using "2.prems" by simp
  have u: "?u \<noteq> []" using length_utf8_scalar [of c] by auto
  have v: "?v = [] \<or> \<not> is_continuation (hd ?v)"
  proof (cases cs)
    case (Cons d ds)
    then have "utf8_scalar d \<noteq> []" "is_scalar d" using length_utf8_scalar [of d] "2.prems" by auto
    then show ?thesis using utf8_scalar_shape(1) [of d] Cons by simp
  qed simp
  show ?case
  proof (cases "length ?u \<le> room")
    case True
    have IH: "take (back_up ?v (min (length ?v) (room - length ?u))) ?v = encode_into (room - length ?u) cs"
      by (rule "2.IH" [OF True]) (use "2.prems" in simp)
    have "min (length (?u @ ?v)) room = length ?u + min (length ?v) (room - length ?u)" using True by simp
    then show ?thesis using IH True back_up_after [OF v u] by simp
  next
    case False
    then have "min (length (?u @ ?v)) room = room" "room < length ?u" by simp_all
    moreover have "back_up (?u @ ?v) room = 0"
      by (rule back_up_inside) (use utf8_scalar_shape(2) [OF c] False in auto)
    ultimately show ?thesis using False by simp
  qed
qed simp

lemma back_up_le: "back_up e n \<le> n"
  by (induction n) (auto intro: le_SucI)

lemma mio_writePadded_eq: "mio_writePadded = writePadded"
proof (intro ext)
  fix n s
  have t: "take (back_up (text_encode s) (min (length (text_encode s)) n)) (text_encode s) = encode_into n (to_scalars s)"
    unfolding text_encode_def by (rule take_back_up) (rule to_scalars_scalar)
  then have "length (encode_into n (to_scalars s)) = back_up (text_encode s) (min (length (text_encode s)) n)"
    using back_up_le [of "text_encode s" "min (length (text_encode s)) n"] by (metis length_take min.absorb2 min.bounded_iff)
  then show "mio_writePadded n s = writePadded n s" by (simp add: mio_writePadded_def writePadded_def Let_def t)
qed

subsection \<open>Codec and glob\<close>

definition mio_fields_of :: "frame_fields \<Rightarrow> mio_fields" where
  "mio_fields_of f = \<lparr>mf_opcode = opcode_byte (ff_opcode f), mf_tenantId = ff_tenantId f, mf_channelId = ff_channelId f, mf_payload = ff_payload f\<rparr>"

definition mio_frame_of :: "decoded_frame \<Rightarrow> mio_frame" where
  "mio_frame_of f = \<lparr>mfr_opcode = opcode_byte (df_opcode f), mfr_tenantId = df_tenantId f, mfr_channelId = df_channelId f,
     mfr_payload = df_payload f, mfr_raw = df_raw f\<rparr>"

lemma mio_encodeFrame_eq: "mio_encodeFrame (mio_fields_of f) = encodeFrame f"
  by (simp add: mio_encodeFrame_def encodeFrame_def mio_fields_of_def mio_uuidToBytes_eq mio_writePadded_eq mio_crc_eq Let_def split: sum.split)

lemma mio_decodeFrame_eq: "mio_decodeFrame buf = map_sum id mio_frame_of (decodeFrame buf)"
  by (auto simp: mio_decodeFrame_def decodeFrame_def mio_VALID_OPCODES_eq mio_crc_eq mio_bytesToUuid_eq mio_readTrimmed_eq
      mio_frame_of_def Let_def dest: VALID_OPCODES_Some split: option.split)

lemma ex_le_Suc: "(\<exists>i \<le> Suc n. P i) \<longleftrightarrow> P 0 \<or> (\<exists>i \<le> n. P (Suc i))"
  by (metis Suc_le_mono le0 not0_implies_Suc)

lemma mio_glob_star_iff: "mio_glob_star ps c \<longleftrightarrow> (\<exists>i \<le> length c. mio_glob_helper ps (drop i c))"
proof (induction c)
  case (Cons x c)
  then show ?case by (subst mio_glob_star.simps) (simp add: ex_le_Suc)
qed (simp add: mio_glob_star.simps)

lemma mio_glob_helper_eq: "mio_glob_helper p c \<longleftrightarrow> glob_helper p c"
proof (induction p arbitrary: c)
  case (Cons x p)
  have "(\<exists>i \<le> length c. glob_helper p (drop i c)) \<longleftrightarrow> list_ex (\<lambda>i. glob_helper p (drop i c)) [0..<Suc (length c)]"
    unfolding list_ex_iff by (auto simp: less_Suc_eq_le simp del: upt_Suc)
  then show ?case
    using Cons by (subst mio_glob_helper.simps) (auto simp: mio_glob_star_iff simp del: upt_Suc split: list.split)
qed (simp add: mio_glob_helper.simps)

text \<open>
  C15. The JavaScript port of the protocol is the TypeScript original, bit for bit: for every fields, strings that overflow their field included, both encoders
  give the same bytes or the same error; on every buffer both decoders give the same frame or the same error; and both glob matchers agree.
\<close>

theorem mio_protocol_is_port:
  "mio_encodeFrame (mio_fields_of f) = encodeFrame f \<and>
   mio_decodeFrame buf = map_sum id mio_frame_of (decodeFrame buf) \<and>
   mio_globMatch pat cand = globMatch pat cand"
  by (simp add: mio_encodeFrame_eq mio_decodeFrame_eq mio_globMatch_def globMatch_def mio_glob_helper_eq)

end
