(* ===== verification/JS_Object.thy ===== *)
theory JS_Object
  imports JS_Number
begin

text \<open>
  Plain objects used as dictionaries (\<open>{}\<close>), as the JavaScript files of the platform use them where the TypeScript SDK has
  a \<open>Map\<close>. Two things differ from a \<open>Map\<close>: reading a key that names a member of \<open>Object.prototype\<close> finds that
  member, and \<open>Object.keys\<close> lists the keys that are array indices first, in ascending order.
\<close>

type_synonym 'v object = "(js_string, 'v) jmap"

definition prototype_keys :: "js_string list" where
  "prototype_keys = map js_of [''constructor'', ''__defineGetter__'', ''__defineSetter__'', ''hasOwnProperty'', ''__lookupGetter__'',
     ''__lookupSetter__'', ''isPrototypeOf'', ''propertyIsEnumerable'', ''toString'', ''valueOf'', ''__proto__'', ''toLocaleString'']"

text \<open>\<open>o[k]\<close>: an own value, a member of the prototype, or \<open>undefined\<close>.\<close>

datatype 'v property = Own 'v | Inherited | Absent

definition oget :: "'v object \<Rightarrow> js_string \<Rightarrow> 'v property" where
  "oget m k =
     (case jget m k of Some v \<Rightarrow> Own v | None \<Rightarrow> if k \<in> set prototype_keys then Inherited else Absent)"

text \<open>The number of a key that is an array index, which is its canonical decimal form below \<open>2^32 - 1\<close>.\<close>

definition array_index :: "js_string \<Rightarrow> nat option" where
  "array_index k =
     (if k = [] then None
      else (case digits_val 10 0 k of
          Some n \<Rightarrow> if n < 2 ^ 32 - 1 \<and> js_of_nat n = k then Some n else None
        | None \<Rightarrow> None))"

text \<open>\<open>Object.keys(o)\<close>\<close>

definition object_keys :: "'v object \<Rightarrow> js_string list" where
  "object_keys m =
     (let ks = jkeys m in
      map js_of_nat (sort (List.map_filter array_index ks)) @ filter (\<lambda>k. array_index k = None) ks)"

lemma array_index_Some: "array_index k = Some n \<Longrightarrow> js_of_nat n = k"
  by (auto simp: array_index_def split: if_splits option.splits)

lemma set_map_filter: "set (List.map_filter f xs) = {y. \<exists>x \<in> set xs. f x = Some y}"
  by (induction xs) (auto split: option.split)

lemma set_object_keys [simp]: "set (object_keys m) = set (jkeys m)"
proof -
  have "js_of_nat ` {n. \<exists>k \<in> set (jkeys m). array_index k = Some n} = {k \<in> set (jkeys m). array_index k \<noteq> None}"
    by (auto dest: array_index_Some intro: rev_image_eqI)
  then show ?thesis by (auto simp: object_keys_def Let_def set_map_filter)
qed

text \<open>Without index keys the order is that of insertion.\<close>

lemma map_filter_None: "(\<And>x. x \<in> set xs \<Longrightarrow> f x = None) \<Longrightarrow> List.map_filter f xs = []"
  by (induction xs) simp_all

lemma object_keys_plain: "(\<And>k. k \<in> set (jkeys m) \<Longrightarrow> array_index k = None) \<Longrightarrow> object_keys m = jkeys m"
  by (simp add: object_keys_def Let_def map_filter_None)

lemma object_keys_example:
  "object_keys [(js_of ''b'', x), (js_of ''10'', x), (js_of ''9'', x), (js_of ''a'', x)] =
     [js_of ''9'', js_of ''10'', js_of ''b'', js_of ''a'']"
proof -
  have ten: "js_of_nat 10 = [49, 48]" "js_of_nat 9 = [57]" by (simp_all add: js_of_nat.simps)
  show ?thesis
    by (simp add: object_keys_def jkeys_def array_index_def digit_val_def ten)
qed

end
