(* ===== verification/Mio_Client.thy ===== *)
theory Mio_Client
  imports Mio_Protocol JS_Object Realtime_Client
begin

text \<open>
  \<open>sdk-wordpress/assets/js/mio-client.js\<close>: the small client for pages without a build step. It keeps its subscriptions
  and its listeners in plain objects and arrays, opens its socket synchronously, does not chunk, and never reconnects after a rejected token.
  The state and the log are kept as in \<open>Realtime_Client\<close>; a thrown error is returned with the state. The embed scripts
  (\<open>vanilla-client/assets/mio-embed.js\<close> and its copy in the plugin) inline the same class.
\<close>

section \<open>Data\<close>

datatype mio_error =
    Mio_Protocol_Error protocol_error
  | Payload_Too_Long
  | Socket_Not_Open
  | Invalid_Url
  | Unexpected_Frame
  | Connection_Error
  | Type_Error

record mio_options =
  mo_wsUrl :: js_string
  mo_tenantId :: js_string
  mo_token :: js_string
  mo_heartbeatIntervalMs :: "rat option"
  mo_reconnect :: "bool option"
  mo_reconnectBaseDelayMs :: "rat option"
  mo_reconnectMaxDelayMs :: "rat option"

record mio_config =
  mc_url :: js_string
  mc_tenantId :: js_string
  mc_token :: js_string
  mc_heartbeatIntervalMs :: rat
  mc_reconnect :: bool
  mc_reconnectBaseDelayMs :: rat
  mc_reconnectMaxDelayMs :: rat

datatype mio_event =
    M_Open
  | M_Close nat js_string
  | M_Error mio_error
  | M_Message realtime_message
  | M_AuthFailed nat js_string

fun mio_event_name :: "mio_event \<Rightarrow> js_string" where
  "mio_event_name M_Open = js_of ''open''"
| "mio_event_name (M_Close _ _) = js_of ''close''"
| "mio_event_name (M_Error _) = js_of ''error''"
| "mio_event_name (M_Message _) = js_of ''message''"
| "mio_event_name (M_AuthFailed _ _) = js_of ''authFailed''"

datatype mio_effect =
    M_Sent nat send_args bytes
  | M_Emitted mio_event "nat list"
  | M_Handled handler realtime_message
  | M_Uncaught mio_error

record mio_client =
  mk_config :: mio_config
  mk_ws :: "nat option"
  mk_heartbeatTimer :: "nat option"
  mk_reconnectTimer :: "nat option"
  mk_reconnectAttempt :: nat
  mk_closedByUser :: bool
  mk_subscriptions :: "handler list object"
  mk_pendingSends :: "send_args list"
  mk_listeners :: "nat list object"
  mk_sockets :: "ready_state list"
  mk_intervals :: "nat list"
  mk_timeouts :: "(nat \<times> rat) list"
  mk_next_timer :: nat
  mk_log :: "mio_effect list"

type_synonym mio_op = "mio_client \<Rightarrow> mio_error option \<times> mio_client"

text \<open>\<open>x || d\<close> for an optional number: 0 is replaced too.\<close>

definition or_number :: "rat option \<Rightarrow> rat \<Rightarrow> rat" where
  "or_number x d = (case x of None \<Rightarrow> d | Some v \<Rightarrow> if v = 0 then d else v)"

definition mio_resolve :: "mio_options \<Rightarrow> mio_config" where
  "mio_resolve config =
     \<lparr>mc_url = mo_wsUrl config, mc_tenantId = mo_tenantId config, mc_token = mo_token config,
      mc_heartbeatIntervalMs = or_number (mo_heartbeatIntervalMs config) 15000,
      mc_reconnect = (mo_reconnect config \<noteq> Some False),
      mc_reconnectBaseDelayMs = or_number (mo_reconnectBaseDelayMs config) 500,
      mc_reconnectMaxDelayMs = or_number (mo_reconnectMaxDelayMs config) 15000\<rparr>"

definition MioRealtimeClient :: "mio_options \<Rightarrow> mio_client" where
  "MioRealtimeClient config =
     \<lparr>mk_config = mio_resolve config, mk_ws = None, mk_heartbeatTimer = None, mk_reconnectTimer = None,
      mk_reconnectAttempt = 0, mk_closedByUser = True, mk_subscriptions = [], mk_pendingSends = [],
      mk_listeners = map (\<lambda>e. (js_of e, [])) [''open'', ''close'', ''error'', ''message'', ''authFailed''],
      mk_sockets = [], mk_intervals = [], mk_timeouts = [], mk_next_timer = 1, mk_log = []\<rparr>"

section \<open>Sequencing\<close>

definition mio_then :: "mio_op \<Rightarrow> mio_op \<Rightarrow> mio_op" where
  "mio_then p q c = (case p c of (None, c') \<Rightarrow> q c' | (Some e, c') \<Rightarrow> (Some e, c'))"

fun mio_each :: "('a \<Rightarrow> mio_op) \<Rightarrow> 'a list \<Rightarrow> mio_op" where
  "mio_each f [] c = (None, c)"
| "mio_each f (x # xs) c = mio_then (f x) (mio_each f xs) c"

definition mio_callback :: "mio_op \<Rightarrow> mio_client \<Rightarrow> mio_client" where
  "mio_callback p c =
     (case p c of (None, c') \<Rightarrow> c' | (Some e, c') \<Rightarrow> c'\<lparr>mk_log := mk_log c' @ [M_Uncaught e]\<rparr>)"

section \<open>Listeners\<close>

definition mio_on :: "js_string \<Rightarrow> nat \<Rightarrow> mio_op" where
  "mio_on event h c =
     (case oget (mk_listeners c) event of
        Absent \<Rightarrow> (None, c)
      | Inherited \<Rightarrow> (Some Type_Error, c)
      | Own lst \<Rightarrow> (None, c\<lparr>mk_listeners := jset event (lst @ [h]) (mk_listeners c)\<rparr>))"

text \<open>The function \<open>on\<close> returns: one occurrence of the handler is spliced out.\<close>

definition mio_off :: "js_string \<Rightarrow> nat \<Rightarrow> mio_client \<Rightarrow> mio_client" where
  "mio_off event h c =
     (case jget (mk_listeners c) event of
        None \<Rightarrow> c
      | Some lst \<Rightarrow> c\<lparr>mk_listeners := jset event (remove1 h lst) (mk_listeners c)\<rparr>)"

definition mio_emit :: "mio_event \<Rightarrow> mio_client \<Rightarrow> mio_client" where
  "mio_emit ev c =
     (case jget (mk_listeners c) (mio_event_name ev) of
        None \<Rightarrow> c
      | Some lst \<Rightarrow> c\<lparr>mk_log := mk_log c @ [M_Emitted ev lst]\<rparr>)"

section \<open>Sending\<close>

definition mio_ws_open :: "mio_client \<Rightarrow> bool" where
  "mio_ws_open c = (case mk_ws c of None \<Rightarrow> False | Some s \<Rightarrow> mk_sockets c ! s = Open)"

definition mio_frame_for :: "mio_config \<Rightarrow> send_args \<Rightarrow> protocol_error + bytes" where
  "mio_frame_for cfg = (\<lambda>(q, channelId, payload).
     mio_encodeFrame \<lparr>mf_opcode = opcode_byte q, mf_tenantId = mc_tenantId cfg, mf_channelId = Some channelId,
                      mf_payload = Some payload\<rparr>)"

definition mio_send :: "send_args \<Rightarrow> mio_op" where
  "mio_send args c =
     (if \<not> mio_ws_open c then (Some Socket_Not_Open, c)
      else (case mio_frame_for (mk_config c) args of
          Inl e \<Rightarrow> (Some (Mio_Protocol_Error e), c)
        | Inr frame \<Rightarrow> (None, c\<lparr>mk_log := mk_log c @ [M_Sent (the (mk_ws c)) args frame]\<rparr>)))"

definition mio_sendOrQueue :: "send_args \<Rightarrow> mio_op" where
  "mio_sendOrQueue args c =
     (if mio_ws_open c then mio_send args c
      else (None, c\<lparr>mk_pendingSends := mk_pendingSends c @ [args]\<rparr>))"

text \<open>\<open>encodeUtf8Length\<close>: the loop over the code points; \<open>codePointAt\<close> of an unpaired surrogate is the surrogate.\<close>

definition code_point_bytes :: "nat \<Rightarrow> nat" where
  "code_point_bytes code = (if code \<le> 0x7F then 1 else if code \<le> 0x7FF then 2 else if code \<le> 0xFFFF then 3 else 4)"

fun encodeUtf8Length :: "js_string \<Rightarrow> nat" where
  "encodeUtf8Length [] = 0"
| "encodeUtf8Length [u] = code_point_bytes (unat u)"
| "encodeUtf8Length (u # v # us) =
     (if is_high u \<and> is_low v then code_point_bytes (pair_scalar u v) + encodeUtf8Length us
      else code_point_bytes (unat u) + encodeUtf8Length (v # us))"

definition mio_publish :: "js_string \<Rightarrow> js_string \<Rightarrow> mio_op" where
  "mio_publish channelId payload c =
     (if encodeUtf8Length payload > mio_LEN_PAYLOAD then (Some Payload_Too_Long, c)
      else mio_sendOrQueue (Publish, channelId, payload) c)"

definition mio_replay :: "js_string \<Rightarrow> nat \<Rightarrow> mio_op" where
  "mio_replay channelId sinceUnixSeconds = mio_sendOrQueue (Replay, channelId, js_of_nat sinceUnixSeconds)"

section \<open>Subscriptions\<close>

definition mio_subscribe :: "js_string \<Rightarrow> handler \<Rightarrow> mio_op" where
  "mio_subscribe channelId h c =
     (case oget (mk_subscriptions c) channelId of
        Inherited \<Rightarrow> (Some Type_Error, c)
      | Own hs \<Rightarrow> (None, c\<lparr>mk_subscriptions := jset channelId (hs @ [h]) (mk_subscriptions c)\<rparr>)
      | Absent \<Rightarrow>
          (let c' = c\<lparr>mk_subscriptions := jset channelId [h] (mk_subscriptions c)\<rparr> in
           if mio_ws_open c' then mio_send (Subscribe, channelId, []) c' else (None, c')))"

text \<open>The function \<open>subscribe\<close> returns.\<close>

definition mio_unsubscribe :: "js_string \<Rightarrow> handler \<Rightarrow> mio_op" where
  "mio_unsubscribe channelId h c =
     (case oget (mk_subscriptions c) channelId of
        Absent \<Rightarrow> (None, c)
      | Inherited \<Rightarrow> (Some Type_Error, c)
      | Own hs \<Rightarrow>
          (let hs' = remove1 h hs in
           if hs' \<noteq> [] then (None, c\<lparr>mk_subscriptions := jset channelId hs' (mk_subscriptions c)\<rparr>)
           else (let c' = c\<lparr>mk_subscriptions := jdelete channelId (mk_subscriptions c)\<rparr> in
             if mio_ws_open c' then mio_send (Unsub, channelId, []) c' else (None, c'))))"

section \<open>Timers\<close>

definition mio_stopHeartbeat :: "mio_client \<Rightarrow> mio_client" where
  "mio_stopHeartbeat c =
     (case mk_heartbeatTimer c of None \<Rightarrow> c
      | Some t \<Rightarrow> c\<lparr>mk_intervals := filter (\<lambda>i. i \<noteq> t) (mk_intervals c), mk_heartbeatTimer := None\<rparr>)"

definition mio_startHeartbeat :: "mio_client \<Rightarrow> mio_client" where
  "mio_startHeartbeat c0 =
     (let c = mio_stopHeartbeat c0; t = mk_next_timer c in
      c\<lparr>mk_intervals := mk_intervals c @ [t], mk_heartbeatTimer := Some t, mk_next_timer := t + 1\<rparr>)"

definition mio_tick :: mio_op where
  "mio_tick c = (if mio_ws_open c then mio_send (Ping, [], []) c else (None, c))"

definition mio_scheduleReconnect :: "rat \<Rightarrow> mio_client \<Rightarrow> mio_client" where
  "mio_scheduleReconnect rnd c =
     (let delay = min (mc_reconnectBaseDelayMs (mk_config c) * 2 ^ mk_reconnectAttempt c) (mc_reconnectMaxDelayMs (mk_config c));
          jitter = delay * (4 / 5 + rnd * (2 / 5)); t = mk_next_timer c in
      c\<lparr>mk_reconnectAttempt := mk_reconnectAttempt c + 1, mk_reconnectTimer := Some t,
         mk_timeouts := mk_timeouts c @ [(t, jitter)], mk_next_timer := t + 1\<rparr>)"

section \<open>The socket\<close>

text \<open>\<open>_openSocket\<close>; \<open>constructed\<close> tells whether \<open>new WebSocket(url)\<close> returns.\<close>

definition mio_openSocket :: "bool \<Rightarrow> mio_op" where
  "mio_openSocket constructed c =
     (if \<not> constructed then (Some Invalid_Url, c)
      else (None, c\<lparr>mk_ws := Some (length (mk_sockets c)), mk_sockets := mk_sockets c @ [Connecting]\<rparr>))"

definition mio_flush :: mio_op where
  "mio_flush c = (let pending = mk_pendingSends c in mio_each mio_send pending (c\<lparr>mk_pendingSends := []\<rparr>))"

definition mio_onopen :: mio_op where
  "mio_onopen =
     mio_then (\<lambda>c. mio_send (Auth, [], mc_token (mk_config c)) (c\<lparr>mk_reconnectAttempt := 0\<rparr>))
     (mio_then (\<lambda>c. mio_each (\<lambda>ch. mio_send (Subscribe, ch, [])) (object_keys (mk_subscriptions c)) c)
     (mio_then mio_flush
     (\<lambda>c. (None, mio_emit M_Open (mio_startHeartbeat c)))))"

text \<open>The calls of a list of handlers with a message.\<close>

definition mio_calls :: "handler list \<Rightarrow> realtime_message \<Rightarrow> mio_client \<Rightarrow> mio_client" where
  "mio_calls hs m c = c\<lparr>mk_log := mk_log c @ map (\<lambda>h. M_Handled h m) hs\<rparr>"

text \<open>\<open>exact\<close> may be a member of \<open>Object.prototype\<close>, which has no \<open>slice\<close>.\<close>

definition mio_dispatch :: "int \<Rightarrow> mio_frame \<Rightarrow> mio_op" where
  "mio_dispatch now frame c0 =
     (let message = \<lparr>rm_channelId = mfr_channelId frame, rm_payload = mfr_payload frame,
                     rm_tenantId = mfr_tenantId frame, rm_receivedAt = now\<rparr>;
          c = mio_emit (M_Message message) c0;
          subs = mk_subscriptions c;
          globs = filter (\<lambda>key. star \<in> set key \<and> mio_globMatch key (mfr_channelId frame)) (object_keys subs);
          rest = concat (map (\<lambda>key. case jget subs key of None \<Rightarrow> [] | Some hs \<Rightarrow> hs) globs) in
      case oget subs (mfr_channelId frame) of
        Inherited \<Rightarrow> (Some Type_Error, c)
      | Own exact \<Rightarrow> (None, mio_calls rest message (mio_calls exact message c))
      | Absent \<Rightarrow> (None, mio_calls rest message c))"

text \<open>Only an \<open>ArrayBuffer\<close> is accepted here.\<close>

definition mio_onmessage :: "int \<Rightarrow> message_data \<Rightarrow> mio_op" where
  "mio_onmessage now data c =
     (case data of
        Array_Buffer raw \<Rightarrow>
          (case mio_decodeFrame raw of
             Inl e \<Rightarrow> (None, mio_emit (M_Error (Mio_Protocol_Error e)) c)
           | Inr frame \<Rightarrow> mio_dispatch now frame c)
      | _ \<Rightarrow> (None, mio_emit (M_Error Unexpected_Frame) c))"

definition mio_onerror :: "mio_client \<Rightarrow> mio_client" where
  "mio_onerror c = mio_emit (M_Error Connection_Error) c"

definition mio_WS_CLOSE_CODE_AUTH_FAILED :: nat where "mio_WS_CLOSE_CODE_AUTH_FAILED = 4001"

definition mio_onclose :: "rat \<Rightarrow> nat \<Rightarrow> js_string \<Rightarrow> mio_client \<Rightarrow> mio_client" where
  "mio_onclose rnd code reason c0 =
     (let c = mio_emit (M_Close code reason) ((mio_stopHeartbeat c0)\<lparr>mk_ws := None\<rparr>) in
      if code = mio_WS_CLOSE_CODE_AUTH_FAILED then mio_emit (M_AuthFailed code reason) c
      else if \<not> mk_closedByUser c \<and> mc_reconnect (mk_config c) then mio_scheduleReconnect rnd c
      else c)"

section \<open>Connection\<close>

definition mio_connect :: "bool \<Rightarrow> mio_op" where
  "mio_connect constructed c = mio_openSocket constructed (c\<lparr>mk_closedByUser := False\<rparr>)"

definition mio_disconnect :: "mio_client \<Rightarrow> mio_client" where
  "mio_disconnect c0 =
     (let c1 = c0\<lparr>mk_closedByUser := True\<rparr>;
          c2 = (case mk_reconnectTimer c1 of None \<Rightarrow> c1
                | Some t \<Rightarrow> c1\<lparr>mk_timeouts := filter (\<lambda>(u, _). u \<noteq> t) (mk_timeouts c1)\<rparr>);
          c3 = mio_stopHeartbeat c2;
          c4 = (case mk_ws c3 of None \<Rightarrow> c3
                | Some s \<Rightarrow> if mk_sockets c3 ! s \<in> {Connecting, Open}
                            then c3\<lparr>mk_sockets := (mk_sockets c3)[s := Closing]\<rparr> else c3) in
      c4\<lparr>mk_ws := None\<rparr>)"

section \<open>Inputs\<close>

datatype mio_input =
    Mi_Connect bool
  | Mi_Disconnect
  | Mi_Publish js_string js_string
  | Mi_Replay js_string nat
  | Mi_Subscribe js_string handler
  | Mi_Unsubscribe js_string handler
  | Mi_On js_string nat
  | Mi_Off js_string nat
  | Mi_Open nat
  | Mi_Message nat int message_data
  | Mi_Error nat
  | Mi_Close nat rat nat js_string
  | Mi_Tick nat
  | Mi_Timeout bool nat

fun mio_enabled :: "mio_input \<Rightarrow> mio_client \<Rightarrow> bool" where
  "mio_enabled (Mi_Open s) c \<longleftrightarrow> s < length (mk_sockets c) \<and> mk_sockets c ! s = Connecting"
| "mio_enabled (Mi_Message s _ _) c \<longleftrightarrow> s < length (mk_sockets c) \<and> mk_sockets c ! s = Open"
| "mio_enabled (Mi_Error s) c \<longleftrightarrow> s < length (mk_sockets c) \<and> mk_sockets c ! s \<noteq> Closed_State"
| "mio_enabled (Mi_Close s _ _ _) c \<longleftrightarrow> s < length (mk_sockets c) \<and> mk_sockets c ! s \<noteq> Closed_State"
| "mio_enabled (Mi_Tick t) c \<longleftrightarrow> t \<in> set (mk_intervals c)"
| "mio_enabled (Mi_Timeout _ t) c \<longleftrightarrow> t \<in> fst ` set (mk_timeouts c)"
| "mio_enabled _ c \<longleftrightarrow> True"

definition mio_set_ready :: "ready_state \<Rightarrow> nat \<Rightarrow> mio_client \<Rightarrow> mio_client" where
  "mio_set_ready r s c = c\<lparr>mk_sockets := (mk_sockets c)[s := r]\<rparr>"

fun mio_handle :: "mio_input \<Rightarrow> mio_client \<Rightarrow> mio_error option \<times> mio_client" where
  "mio_handle (Mi_Connect ok) c = mio_connect ok c"
| "mio_handle Mi_Disconnect c = (None, mio_disconnect c)"
| "mio_handle (Mi_Publish ch pl) c = mio_publish ch pl c"
| "mio_handle (Mi_Replay ch since) c = mio_replay ch since c"
| "mio_handle (Mi_Subscribe ch h) c = mio_subscribe ch h c"
| "mio_handle (Mi_Unsubscribe ch h) c = mio_unsubscribe ch h c"
| "mio_handle (Mi_On e l) c = mio_on e l c"
| "mio_handle (Mi_Off e l) c = (None, mio_off e l c)"
| "mio_handle (Mi_Open s) c = (None, mio_callback mio_onopen (mio_set_ready Open s c))"
| "mio_handle (Mi_Message s now data) c = (None, mio_callback (mio_onmessage now data) c)"
| "mio_handle (Mi_Error s) c = (None, mio_onerror c)"
| "mio_handle (Mi_Close s rnd code reason) c = (None, mio_onclose rnd code reason (mio_set_ready Closed_State s c))"
| "mio_handle (Mi_Tick t) c = (None, mio_callback mio_tick c)"
| "mio_handle (Mi_Timeout ok t) c =
     (None, let c' = c\<lparr>mk_timeouts := filter (\<lambda>(u, _). u \<noteq> t) (mk_timeouts c)\<rparr> in
            if \<not> mk_closedByUser c' then mio_callback (mio_openSocket ok) c' else c')"

fun mio_run :: "mio_input list \<Rightarrow> mio_client \<Rightarrow> mio_client option" where
  "mio_run [] c = Some c"
| "mio_run (i # rest) c = (if mio_enabled i c then mio_run rest (snd (mio_handle i c)) else None)"

section \<open>Lengths\<close>

lemma encodeUtf8Length_eq: "encodeUtf8Length s = utf8ByteLength s"
proof (induction s rule: encodeUtf8Length.induct)
  case (2 u)
  then show ?case
    using unat_unit_less [of u] by (auto simp: utf8ByteLength_def text_encode_def code_point_bytes_def utf8_scalar_def unit_scalar_def is_high_def is_low_def)
next
  case (3 u v us)
  have u: "code_point_bytes (unat u) = length (utf8_scalar (unit_scalar u))"
    using unat_unit_less [of u] by (auto simp: code_point_bytes_def utf8_scalar_def unit_scalar_def is_high_def is_low_def)
  have p: "is_high u \<Longrightarrow> is_low v \<Longrightarrow> code_point_bytes (pair_scalar u v) = length (utf8_scalar (pair_scalar u v))"
    using length_utf8_pair [of u v] pair_scalar_range [of u v] by (simp add: code_point_bytes_def)
  show ?case using 3 u p by (auto simp: utf8ByteLength_def text_encode_def)
qed (simp add: utf8ByteLength_def text_encode_def)

end
