(* ===== verification/Mio_Refinement.thy ===== *)
theory Mio_Refinement
  imports Mio_Client Client_Behaviour
begin

text \<open>
  The small client of \<open>mio-client.js\<close> follows the SDK's client: every run of it, apart from the habits that plain objects and
  arrays change, is matched by a run of \<open>RealtimeClient\<close> that creates the same sockets, sends the same frames on them and
  keeps the same queue, subscriptions and timers; and, where no message is a fragment, that emits the same events to the same listeners and calls the same handlers.
  So what is proved of the frames of the one holds of the other.
\<close>

section \<open>The relation\<close>

definition msends :: "nat \<Rightarrow> mio_effect list \<Rightarrow> send_args list" where
  "msends s es = concat (map (\<lambda>e. case e of M_Sent s' args _ \<Rightarrow> if s' = s then [args] else [] | _ \<Rightarrow> []) es)"

lemma msends_append [simp]: "msends s (xs @ ys) = msends s xs @ msends s ys"
  by (simp add: msends_def)

lemma msends_simps [simp]:
  "msends s [] = []"
  "msends s (M_Sent s' a f # es) = (if s' = s then a # msends s es else msends s es)"
  "msends s (M_Emitted ev ls # es) = msends s es"
  "msends s (M_Handled h m # es) = msends s es"
  "msends s (M_Uncaught e # es) = msends s es"
  by (simp_all add: msends_def)

lemma msends_handled [simp]: "msends s (map (\<lambda>h. M_Handled h m) hs) = []"
  by (induction hs) simp_all

text \<open>
  What the application and the sockets see of a run: the frames, the events with the listeners that are called, and the calls of handlers, in their order. The SDK has an event
  \<open>authenticated\<close> that the small client has not; errors are the same but for their texts.
\<close>

fun sdk_error :: "mio_error \<Rightarrow> client_error" where
  "sdk_error (Mio_Protocol_Error e) = ProtocolErr e"
| "sdk_error Unexpected_Frame = UnexpectedFormat"
| "sdk_error _ = SocketError"

fun sdk_event :: "mio_event \<Rightarrow> realtime_event" where
  "sdk_event M_Open = Opened"
| "sdk_event (M_Close code reason) = Closed code reason"
| "sdk_event (M_Error e) = Failed (sdk_error e)"
| "sdk_event (M_Message m) = Received m"
| "sdk_event (M_AuthFailed code reason) = AuthRejected code reason"

fun mio_seen :: "mio_effect list \<Rightarrow> effect list" where
  "mio_seen [] = []"
| "mio_seen (M_Sent s a f # es) = Sent s a f # mio_seen es"
| "mio_seen (M_Emitted ev ls # es) = Emitted (sdk_event ev) ls # mio_seen es"
| "mio_seen (M_Handled h m # es) = Handled h m # mio_seen es"
| "mio_seen (M_Uncaught e # es) = mio_seen es"

fun seen :: "effect list \<Rightarrow> effect list" where
  "seen [] = []"
| "seen (Uncaught e # es) = seen es"
| "seen (Emitted ev ls # es) = (if ev = Authenticated then seen es else Emitted ev ls # seen es)"
| "seen (Sent s a f # es) = Sent s a f # seen es"
| "seen (Handled h m # es) = Handled h m # seen es"

lemma seen_append [simp]: "seen (xs @ ys) = seen xs @ seen ys"
  by (induction xs rule: seen.induct) simp_all

lemma mio_seen_append [simp]: "mio_seen (xs @ ys) = mio_seen xs @ mio_seen ys"
  by (induction xs rule: mio_seen.induct) simp_all

lemma seen_handled [simp]:
  "seen (map (\<lambda>h. Handled h m) hs) = map (\<lambda>h. Handled h m) hs" "mio_seen (map (\<lambda>h. M_Handled h m) hs) = map (\<lambda>h. Handled h m) hs"
  by (induction hs) simp_all

definition listeners_sim :: "nat list object \<Rightarrow> (event_name, nat) listeners \<Rightarrow> bool" where
  "listeners_sim mls ls \<longleftrightarrow> (\<forall>ev. jget mls (mio_event_name ev) = Some (emit_targets (event_of (sdk_event ev)) ls)) \<and>
     (\<forall>e lst. jget mls e = Some lst \<longrightarrow> distinct lst \<and> (\<exists>ev. e = mio_event_name ev))"

definition config_sim :: "mio_config \<Rightarrow> resolved_config \<Rightarrow> bool" where
  "config_sim cfg rf \<longleftrightarrow> rf_tenantId rf = mc_tenantId cfg \<and> rf_token rf = Some (mc_token cfg) \<and> mc_token cfg \<noteq> [] \<and>
     \<not> rf_getToken rf \<and> rf_webSocketImpl rf \<and> rf_reconnect rf = mc_reconnect cfg \<and>
     rf_reconnectBaseDelayMs rf = mc_reconnectBaseDelayMs cfg \<and> rf_reconnectMaxDelayMs rf = mc_reconnectMaxDelayMs cfg \<and>
     LEN_PAYLOAD \<le> rf_maxMessageBytes rf"

definition plain_keys :: "handler list object \<Rightarrow> bool" where
  "plain_keys m \<longleftrightarrow> (\<forall>k \<in> set (jkeys m). array_index k = None)"

text \<open>The relation; with \<open>w\<close> also what is seen is the same so far.\<close>

definition msim :: "bool \<Rightarrow> mio_client \<Rightarrow> client \<Rightarrow> bool" where
  "msim w c d \<longleftrightarrow> config_sim (mk_config c) (rc_config d) \<and> plain_keys (mk_subscriptions c) \<and>
     rc_ws d = mk_ws c \<and> map sk_readyState (rc_sockets d) = mk_sockets c \<and>
     (\<forall>w \<in> set (rc_sockets d). sk_token w = mc_token (mk_config c)) \<and>
     rc_subscriptions d = mk_subscriptions c \<and> rc_pendingSends d = mk_pendingSends c \<and>
     rc_closedByUser d = mk_closedByUser c \<and> rc_heartbeatTimer d = mk_heartbeatTimer c \<and> rc_intervals d = mk_intervals c \<and>
     rc_reconnectTimer d = mk_reconnectTimer c \<and> rc_timeouts d = mk_timeouts c \<and> rc_next_timer d = mk_next_timer c \<and>
     rc_reconnectAttempt d = mk_reconnectAttempt c \<and> (\<forall>s. sends s (rc_log d) = msends s (mk_log c)) \<and>
     rc_attempts d = [] \<and> (rc_wsImplPromise d = None \<or> rc_wsImplPromise d = Some (Inr Explicit_Impl)) \<and>
     (\<forall>s. mk_ws c = Some s \<longrightarrow> s < length (mk_sockets c)) \<and>
     (w \<longrightarrow> listeners_sim (mk_listeners c) (rc_listeners d) \<and> seen (rc_log d) = mio_seen (mk_log c))"

lemma config_simD:
  assumes "config_sim cfg rf"
  shows "rf_tenantId rf = mc_tenantId cfg" "rf_token rf = Some (mc_token cfg)" "mc_token cfg \<noteq> []" "\<not> rf_getToken rf"
    "rf_webSocketImpl rf" "rf_reconnect rf = mc_reconnect cfg" "LEN_PAYLOAD \<le> rf_maxMessageBytes rf"
    "backoff_delay rf n = min (mc_reconnectBaseDelayMs cfg * 2 ^ n) (mc_reconnectMaxDelayMs cfg)"
  using assms by (simp_all add: config_sim_def backoff_delay_def)

lemma msim_length: "msim w c d \<Longrightarrow> length (rc_sockets d) = length (mk_sockets c)"
  by (metis msim_def length_map)

lemma msim_nth: "msim w c d \<Longrightarrow> s < length (mk_sockets c) \<Longrightarrow> sk_readyState (rc_sockets d ! s) = mk_sockets c ! s"
  by (metis msim_def length_map nth_map)

lemma msim_open: "msim w c d \<Longrightarrow> ws_open d = mio_ws_open c"
  by (auto simp: msim_def ws_open_def mio_ws_open_def split: option.split) (metis length_map nth_map)+

lemma msim_frame: "msim w c d \<Longrightarrow> mio_frame_for (mk_config c) a = frame_for (rc_config d) a"
proof -
  assume "msim w c d"
  then have t: "rf_tenantId (rc_config d) = mc_tenantId (mk_config c)" by (simp add: msim_def config_sim_def)
  obtain q ch pl where a: "a = (q, ch, pl)" by (cases a)
  have "mio_fields_of \<lparr>ff_opcode = q, ff_tenantId = mc_tenantId (mk_config c), ff_channelId = Some ch, ff_payload = Some pl\<rparr> =
      \<lparr>mf_opcode = opcode_byte q, mf_tenantId = mc_tenantId (mk_config c), mf_channelId = Some ch, mf_payload = Some pl\<rparr>"
    by (simp add: mio_fields_of_def)
  then show ?thesis using mio_encodeFrame_eq [symmetric] t by (simp add: mio_frame_for_def frame_for_def a)
qed

section \<open>Matching operations\<close>

text \<open>The two operations throw together and keep the relation.\<close>

definition matches :: "bool \<Rightarrow> mio_op \<Rightarrow> operation \<Rightarrow> bool" where
  "matches w p q \<longleftrightarrow> (\<forall>c d. msim w c d \<longrightarrow> (fst (p c) = None) = (fst (q d) = None) \<and> msim w (snd (p c)) (snd (q d)))"

lemma matchesI:
  "(\<And>c d. msim w c d \<Longrightarrow> (fst (p c) = None) = (fst (q d) = None) \<and> msim w (snd (p c)) (snd (q d))) \<Longrightarrow> matches w p q"
  by (simp add: matches_def)

lemma matchesD:
  "matches w p q \<Longrightarrow> msim w c d \<Longrightarrow> (fst (p c) = None) = (fst (q d) = None) \<and> msim w (snd (p c)) (snd (q d))"
  by (simp add: matches_def)

lemma msim_sent:
  "msim w c d \<Longrightarrow> msim w (c\<lparr>mk_log := mk_log c @ [M_Sent (the (mk_ws c)) a f]\<rparr>) (d\<lparr>rc_log := rc_log d @ [Sent (the (rc_ws d)) a f]\<rparr>)"
  by (simp add: msim_def)

lemma matches_send: "matches w (mio_send a) (send a)"
proof (rule matchesI)
  fix c d assume m: "msim w c d"
  show "(fst (mio_send a c) = None) = (fst (send a d) = None) \<and> msim w (snd (mio_send a c)) (snd (send a d))"
    using msim_sent [OF m] m msim_open [OF m] msim_frame [OF m, of a]
    by (auto simp: mio_send_def send_def split: sum.split)
qed

lemma matches_then: "matches w p q \<Longrightarrow> matches w p' q' \<Longrightarrow> matches w (mio_then p p') (and_then q q')"
  unfolding matches_def mio_then_def and_then_def
  by (auto split: prod.split option.split) (metis fst_conv snd_conv option.distinct(1))+

lemma matches_each: "(\<And>x. matches w (f x) (g x)) \<Longrightarrow> matches w (mio_each f xs) (for_each g xs)"
proof (induction xs)
  case Nil
  then show ?case by (simp add: matches_def skip_def)
next
  case (Cons x xs)
  have "mio_each f (x # xs) = mio_then (f x) (mio_each f xs)" by (rule ext) simp
  then show ?case using matches_then [of w "f x" "g x" "mio_each f xs" "for_each g xs"] Cons by simp
qed

lemma matches_sendOrQueue: "matches w (mio_sendOrQueue a) (sendOrQueue a)"
proof (rule matchesI)
  fix c d assume m: "msim w c d"
  have "msim w (c\<lparr>mk_pendingSends := mk_pendingSends c @ [a]\<rparr>) (d\<lparr>rc_pendingSends := rc_pendingSends d @ [a]\<rparr>)"
    using m by (simp add: msim_def)
  then show "(fst (mio_sendOrQueue a c) = None) = (fst (sendOrQueue a d) = None) \<and>
      msim w (snd (mio_sendOrQueue a c)) (snd (sendOrQueue a d))"
    using matchesD [OF matches_send m, of a] msim_open [OF m] by (simp add: mio_sendOrQueue_def sendOrQueue_def)
qed

lemma matches_flush: "matches w mio_flush flushPendingSends"
proof (rule matchesI)
  fix c d assume m: "msim w c d"
  then have "msim w (c\<lparr>mk_pendingSends := []\<rparr>) (d\<lparr>rc_pendingSends := []\<rparr>)" "rc_pendingSends d = mk_pendingSends c"
    by (simp_all add: msim_def)
  then show "(fst (mio_flush c) = None) = (fst (flushPendingSends d) = None) \<and> msim w (snd (mio_flush c)) (snd (flushPendingSends d))"
    using matchesD [OF matches_each [OF matches_send, of w "\<lambda>x. x"]] by (simp add: mio_flush_def flushPendingSends_def Let_def)
qed

lemma sdk_event_not_authenticated [simp]: "sdk_event ev \<noteq> Authenticated"
  by (cases ev) simp_all

lemma msim_emit: "msim w c d \<Longrightarrow> msim w (mio_emit ev c) (emit (sdk_event ev) d)"
proof (cases w)
  case True
  assume m: "msim w c d"
  then have "listeners_sim (mk_listeners c) (rc_listeners d)" using True by (simp add: msim_def)
  then have "jget (mk_listeners c) (mio_event_name ev) = Some (emit_targets (event_of (sdk_event ev)) (rc_listeners d))"
    unfolding listeners_sim_def by blast
  then show ?thesis using m by (simp add: mio_emit_def emit_def msim_def)
next
  case False
  then show "msim w c d \<Longrightarrow> ?thesis" by (simp add: mio_emit_def emit_def msim_def split: option.split)
qed

lemma msim_emit_left [simp]: "msim False (mio_emit ev c) d = msim False c d"
  by (simp add: mio_emit_def msim_def split: option.split)

lemma msim_emit_authenticated [simp]: "msim w c (emit Authenticated d) = msim w c d"
  by (simp add: emit_def msim_def)

lemma msim_uncaught [simp]:
  "msim w (c\<lparr>mk_log := mk_log c @ [M_Uncaught e]\<rparr>) d = msim w c d"
  "msim w c (d\<lparr>rc_log := rc_log d @ [Uncaught e']\<rparr>) = msim w c d"
  by (simp_all add: msim_def)

lemma msim_callback: "matches w p q \<Longrightarrow> msim w c d \<Longrightarrow> msim w (mio_callback p c) (as_callback q d)"
  using matchesD [of w p q c d] by (auto simp: mio_callback_def as_callback_def split: prod.split option.split)

lemma msim_stopHeartbeat: "msim w c d \<Longrightarrow> msim w (mio_stopHeartbeat c) (stopHeartbeat d)"
  by (auto simp: msim_def mio_stopHeartbeat_def stopHeartbeat_def split: option.split)

lemma msim_startHeartbeat: "msim w c d \<Longrightarrow> msim w (mio_startHeartbeat c) (startHeartbeat d)"
  by (drule msim_stopHeartbeat) (simp add: mio_startHeartbeat_def startHeartbeat_def Let_def msim_def)

lemma matches_tick: "matches w mio_tick heartbeat_tick"
  by (rule matchesI) (use matchesD [OF matches_send] msim_open in \<open>auto simp: mio_tick_def heartbeat_tick_def\<close>)

lemma msim_onopen:
  assumes m: "msim w c d" and s: "s < length (mk_sockets c)"
  shows "msim w (mio_callback mio_onopen c) (as_callback (onopen s) d)"
proof -
  have tok: "sk_token (rc_sockets d ! s) = mc_token (mk_config c)"
    using m s msim_length [OF m] by (simp add: msim_def)
  have "(fst (mio_onopen c) = None) = (fst (onopen s d) = None) \<and> msim w (snd (mio_onopen c)) (snd (onopen s d))"
  proof -
    define q1 where "q1 = (\<lambda>e. send (Auth, [], mc_token (mk_config c)) (e\<lparr>rc_reconnectAttempt := 0\<rparr>))"
    define p1 where "p1 = (\<lambda>e. mio_send (Auth, [], mc_token (mk_config c)) (e\<lparr>mk_reconnectAttempt := 0\<rparr>))"
    define p2 where "p2 = (\<lambda>c. mio_each (\<lambda>ch. mio_send (Subscribe, ch, [])) (object_keys (mk_subscriptions c)) c)"
    have m1: "matches w p1 q1"
    proof (rule matchesI)
      fix c' d' assume "msim w c' d'"
      then have "msim w (c'\<lparr>mk_reconnectAttempt := 0\<rparr>) (d'\<lparr>rc_reconnectAttempt := 0\<rparr>)" by (simp add: msim_def)
      from matchesD [OF matches_send this] show "(fst (p1 c') = None) = (fst (q1 d') = None) \<and> msim w (snd (p1 c')) (snd (q1 d'))"
        by (simp add: p1_def q1_def)
    qed
    have m2: "matches w p2 resubscribeAll"
    proof (rule matchesI)
      fix c' d' assume r: "msim w c' d'"
      then have "object_keys (mk_subscriptions c') = jkeys (rc_subscriptions d')"
        by (simp add: msim_def plain_keys_def object_keys_plain)
      then show "(fst (p2 c') = None) = (fst (resubscribeAll d') = None) \<and> msim w (snd (p2 c')) (snd (resubscribeAll d'))"
        using matchesD [OF matches_each [OF matches_send] r] by (simp add: p2_def resubscribeAll_def)
    qed
    have m4: "matches w (\<lambda>c. (None, mio_emit M_Open (mio_startHeartbeat c))) (\<lambda>c. (None, emit Authenticated (emit Opened (startHeartbeat c))))"
      by (rule matchesI) (use msim_emit [of w _ _ M_Open] msim_startHeartbeat in simp)
    have eqs: "mio_onopen c = mio_then p1 (mio_then p2 (mio_then mio_flush (\<lambda>c. (None, mio_emit M_Open (mio_startHeartbeat c))))) c"
      "onopen s d = and_then q1 (and_then resubscribeAll (and_then flushPendingSends
        (\<lambda>c. (None, emit Authenticated (emit Opened (startHeartbeat c)))))) d"
      by (simp_all add: mio_onopen_def onopen_def mio_then_def and_then_def p1_def q1_def p2_def tok)
    show ?thesis unfolding eqs
      by (rule matchesD [OF matches_then [OF m1 matches_then [OF m2 matches_then [OF matches_flush m4]]] m])
  qed
  then show ?thesis by (auto simp: mio_callback_def as_callback_def split: prod.split option.split)
qed

section \<open>Matching inputs\<close>

lemma msim_set_ready:
  assumes m: "msim w c d" and s: "s < length (mk_sockets c)"
  shows "msim w (mio_set_ready r s c) (set_ready r s d)"
proof -
  have l: "s < length (rc_sockets d)" using s msim_length [OF m] by simp
  have tok: "\<forall>w \<in> set (rc_sockets d). sk_token w = mc_token (mk_config c)" using m by (simp add: msim_def)
  then have "\<forall>w \<in> set ((rc_sockets d)[s := (rc_sockets d ! s)\<lparr>sk_readyState := r\<rparr>]). sk_token w = mc_token (mk_config c)"
    using l set_update_subset_insert [of "rc_sockets d" s] by fastforce
  then show ?thesis using m by (simp add: msim_def mio_set_ready_def set_ready_def map_update)
qed

lemma msim_openSocket:
  assumes m: "msim w c d" and op: "\<not> mk_closedByUser c"
  shows "msim w (snd (mio_openSocket ok c)) (impl_settled ok (rc_next_attempt d) (openSocket pf d)) \<and>
    enabled (In_Impl ok (rc_next_attempt d)) (openSocket pf d)"
proof -
  have cfg: "config_sim (mk_config c) (rc_config d)" and p: "rc_wsImplPromise d = None \<or> rc_wsImplPromise d = Some (Inr Explicit_Impl)"
    and a: "rc_attempts d = []" "\<not> rc_closedByUser d" using m op by (simp_all add: msim_def)
  note f = config_simD [OF cfg]
  let ?e = "d\<lparr>rc_next_attempt := rc_next_attempt d + 1, rc_wsImplPromise := Some (Inr Explicit_Impl)\<rparr>"
  have o: "openSocket pf d = ?e\<lparr>rc_attempts := [(rc_next_attempt d, Await_Impl)]\<rparr>"
    using p a f by (auto simp: openSocket_def await_impl_def Let_def resolveWebSocketImpl_def)
  have m': "msim w c ?e" using m by (simp add: msim_def)
  have i: "impl_settled ok (rc_next_attempt d) (openSocket pf d) =
      (if ok then with_socket (mc_token (mk_config c)) ?e else ?e\<lparr>rc_log := rc_log ?e @ [Uncaught SocketError]\<rparr>)"
    using f a unfolding o by (simp add: impl_settled_def drop_attempt_def Let_def with_socket_def)
  have "msim w (snd (mio_openSocket True c)) (with_socket (mc_token (mk_config c)) ?e)"
    using m' msim_length [OF m'] by (simp add: mio_openSocket_def with_socket_def msim_def)
  moreover have "msim w (snd (mio_openSocket False c)) (?e\<lparr>rc_log := rc_log ?e @ [Uncaught SocketError]\<rparr>)"
    using m' unfolding msim_uncaught by (simp add: mio_openSocket_def)
  ultimately show ?thesis unfolding i by (cases ok) (simp_all add: o)
qed

lemma msim_scheduleReconnect: "msim w c d \<Longrightarrow> msim w (mio_scheduleReconnect rnd c) (scheduleReconnect rnd d)"
  by (simp add: mio_scheduleReconnect_def scheduleReconnect_def Let_def msim_def config_simD(8))

lemma msim_onclose: "msim w c d \<Longrightarrow> msim w (mio_onclose rnd code reason c) (onclose rnd code reason d)"
proof -
  assume m: "msim w c d"
  let ?c = "(mio_stopHeartbeat c)\<lparr>mk_ws := None\<rparr>" and ?d = "(stopHeartbeat d)\<lparr>rc_ws := None\<rparr>"
  have m1: "msim w ?c ?d" using msim_stopHeartbeat [OF m] by (simp add: msim_def)
  then have e: "rc_closedByUser (emit ev ?d) = mk_closedByUser (mio_emit ev' ?c)"
    "rf_reconnect (rc_config (emit ev ?d)) = mc_reconnect (mk_config (mio_emit ev' ?c))"
    "\<not> rf_getToken (rc_config (emit ev ?d))" for ev ev'
    by (auto simp: msim_def config_sim_def emit_def mio_emit_def split: option.split)
  have m2: "msim w (mio_emit (M_Close code reason) ?c) (emit (Closed code reason) ?d)" using msim_emit [OF m1, of "M_Close code reason"] by simp
  from msim_scheduleReconnect [OF m2] msim_emit [OF m2, of "M_AuthFailed code reason"] show ?thesis
    using m2 e(1,2) [of "Closed code reason" "M_Close code reason"] e(3) [of "Closed code reason"]
    by (auto simp: mio_onclose_def onclose_def Let_def mio_WS_CLOSE_CODE_AUTH_FAILED_def WS_CLOSE_CODE_AUTH_FAILED_def)
qed

lemma msim_disconnect: "msim w c d \<Longrightarrow> msim w (mio_disconnect c) (disconnect d)"
proof -
  assume m: "msim w c d"
  define c1 where "c1 = (case mk_reconnectTimer c of None \<Rightarrow> c\<lparr>mk_closedByUser := True\<rparr>
      | Some t \<Rightarrow> c\<lparr>mk_closedByUser := True, mk_timeouts := filter (\<lambda>(u, _). u \<noteq> t) (mk_timeouts c)\<rparr>)"
  define d1 where "d1 = (case rc_reconnectTimer d of None \<Rightarrow> d\<lparr>rc_closedByUser := True\<rparr>
      | Some t \<Rightarrow> d\<lparr>rc_closedByUser := True, rc_timeouts := filter (\<lambda>(u, _). u \<noteq> t) (rc_timeouts d)\<rparr>)"
  have e1: "(case mk_reconnectTimer (c\<lparr>mk_closedByUser := True\<rparr>) of None \<Rightarrow> c\<lparr>mk_closedByUser := True\<rparr>
      | Some t \<Rightarrow> c\<lparr>mk_closedByUser := True, mk_timeouts := filter (\<lambda>(u, _). u \<noteq> t) (mk_timeouts (c\<lparr>mk_closedByUser := True\<rparr>))\<rparr>) = c1"
    by (cases "mk_reconnectTimer c") (simp_all add: c1_def)
  have e2: "(case rc_reconnectTimer (d\<lparr>rc_closedByUser := True\<rparr>) of None \<Rightarrow> d\<lparr>rc_closedByUser := True\<rparr>
      | Some t \<Rightarrow> d\<lparr>rc_closedByUser := True, rc_timeouts := filter (\<lambda>(u, _). u \<noteq> t) (rc_timeouts (d\<lparr>rc_closedByUser := True\<rparr>))\<rparr>) = d1"
    by (cases "rc_reconnectTimer d") (simp_all add: d1_def)
  have "msim w c1 d1" using m by (auto simp: c1_def d1_def msim_def split: option.split)
  then have m2: "msim w (mio_stopHeartbeat c1) (stopHeartbeat d1)" by (rule msim_stopHeartbeat)
  let ?c = "mio_stopHeartbeat c1" and ?d = "stopHeartbeat d1"
  have ws: "rc_ws ?d = mk_ws ?c" "\<And>s. mk_ws ?c = Some s \<Longrightarrow> s < length (mk_sockets ?c)" using m2 by (simp_all add: msim_def)
  have none: "msim w (x\<lparr>mk_ws := None\<rparr>) (y\<lparr>rc_ws := None\<rparr>)" if "msim w x y" for x y using that by (simp add: msim_def)
  have "msim w (case mk_ws ?c of None \<Rightarrow> ?c | Some s \<Rightarrow> if mk_sockets ?c ! s \<in> {Connecting, Open} then mio_set_ready Closing s ?c else ?c)
      (case rc_ws ?d of None \<Rightarrow> ?d | Some s \<Rightarrow> ws_close s ?d)"
  proof (cases "mk_ws ?c")
    case (Some s)
    then show ?thesis using ws(2) [OF Some] m2 msim_set_ready [OF m2, of s Closing] msim_nth [OF m2, of s]
      by (simp add: ws ws_close_def)
  qed (use ws m2 in simp)
  moreover have "mio_disconnect c = (case mk_ws ?c of None \<Rightarrow> ?c
      | Some s \<Rightarrow> if mk_sockets ?c ! s \<in> {Connecting, Open} then mio_set_ready Closing s ?c else ?c)\<lparr>mk_ws := None\<rparr>"
    by (simp only: mio_disconnect_def Let_def e1 mio_set_ready_def)
  moreover have "disconnect d = (case rc_ws ?d of None \<Rightarrow> ?d | Some s \<Rightarrow> ws_close s ?d)\<lparr>rc_ws := None\<rparr>"
    by (simp only: disconnect_def Let_def e2)
  ultimately show ?thesis using none by simp
qed

lemma publish_short:
  assumes "utf8ByteLength payload \<le> LEN_PAYLOAD"
  shows "publish rnd ch payload d = sendOrQueue (Publish, ch, payload) d"
  using assms
  by (cases "sendOrQueue (Publish, ch, payload) d")
    (simp add: publish_def send_chunks_def encodeChunks_def Let_def and_then_def skip_def split: option.split)

lemma msim_publish:
  assumes m: "msim w c d"
  shows "\<exists>is. run is d \<noteq> None \<and> msim w (snd (mio_publish ch pl c)) (the (run is d))"
proof (cases "encodeUtf8Length pl > mio_LEN_PAYLOAD")
  case True
  then show ?thesis using m by (intro exI [of _ "[]"]) (simp add: mio_publish_def)
next
  case False
  then have "publish (\<lambda>_. 0) ch pl d = sendOrQueue (Publish, ch, pl) d"
    by (intro publish_short) (simp add: encodeUtf8Length_eq)
  then show ?thesis using False matchesD [OF matches_sendOrQueue m, of "(Publish, ch, pl)"]
    by (intro exI [of _ "[In_Publish (\<lambda>_. 0) ch pl]"]) (simp add: mio_publish_def)
qed

text \<open>Where plain objects and arrays behave like a \<open>Map\<close> of \<open>Set\<close>s: no channel that is an array index, no handler twice on a channel.\<close>

fun mio_plain :: "mio_input \<Rightarrow> mio_client \<Rightarrow> bool" where
  "mio_plain (Mi_Subscribe ch h) c \<longleftrightarrow> array_index ch = None \<and> (\<forall>hs. jget (mk_subscriptions c) ch = Some hs \<longrightarrow> h \<notin> set hs)"
| "mio_plain _ c \<longleftrightarrow> True"

text \<open>
  Where in addition what is seen is the same: messages are no fragments, which only the SDK puts together, they come as an \<open>ArrayBuffer\<close>, none is for a channel that has the name of a member of
  \<open>Object.prototype\<close> and no subscription, and no listener is registered twice for an event.
\<close>

fun mio_whole :: "mio_input \<Rightarrow> mio_client \<Rightarrow> bool" where
  "mio_whole (Mi_On e l) c \<longleftrightarrow> (\<forall>lst. jget (mk_listeners c) e = Some lst \<longrightarrow> l \<notin> set lst)"
| "mio_whole (Mi_Message s now data) c \<longleftrightarrow>
     (case data of
        Array_Buffer raw \<Rightarrow>
          (case decodeFrame raw of
             Inl _ \<Rightarrow> True
           | Inr f \<Rightarrow> parseChunk (df_payload f) = None \<and> oget (mk_subscriptions c) (df_channelId f) \<noteq> Inherited)
      | Uint8_Array _ \<Rightarrow> False
      | Other_Data \<Rightarrow> True)"
| "mio_whole _ c \<longleftrightarrow> True"

lemma msim_subs: "msim w c d \<Longrightarrow> plain_keys m \<Longrightarrow> msim w (c\<lparr>mk_subscriptions := m\<rparr>) (d\<lparr>rc_subscriptions := m\<rparr>)"
  by (simp add: msim_def)

lemma msim_subs_eq: "msim w c d \<Longrightarrow> rc_subscriptions d = mk_subscriptions c \<and> plain_keys (mk_subscriptions c)"
  by (simp add: msim_def)

lemma plain_keys_jset: "plain_keys m \<Longrightarrow> array_index k = None \<Longrightarrow> plain_keys (jset k v m)"
  by (auto simp: plain_keys_def jmap_simps)

lemma plain_keys_jdelete: "plain_keys m \<Longrightarrow> plain_keys (jdelete k m)"
  by (auto simp: plain_keys_def jmap_simps)

lemma msim_subscribe:
  assumes m: "msim w c d" and pl: "mio_plain (Mi_Subscribe ch h) c"
  shows "\<exists>is. run is d \<noteq> None \<and> msim w (snd (mio_subscribe ch h c)) (the (run is d))"
proof -
  note subs = msim_subs_eq [OF m]
  have idx: "array_index ch = None" using pl by simp
  have m': "msim w (c\<lparr>mk_subscriptions := jset ch hs (mk_subscriptions c)\<rparr>) (d\<lparr>rc_subscriptions := jset ch hs (mk_subscriptions c)\<rparr>)" for hs
    by (rule msim_subs [OF m]) (use subs idx plain_keys_jset in blast)
  show ?thesis
  proof (cases "oget (mk_subscriptions c) ch")
    case Inherited
    then show ?thesis using m by (intro exI [of _ "[]"]) (simp add: mio_subscribe_def)
  next
    case (Own hs)
    then have g: "jget (mk_subscriptions c) ch = Some hs" by (auto simp: oget_def split: option.splits if_splits)
    then have "set_add h hs = hs @ [h]" using pl by (simp add: set_add_def)
    then show ?thesis using Own g m' [of "hs @ [h]"] subs
      by (intro exI [of _ "[In_Subscribe ch h]"]) (simp add: mio_subscribe_def subscribe_def Let_def)
  next
    case Absent
    then have g: "jget (mk_subscriptions c) ch = None" by (auto simp: oget_def split: option.splits if_splits)
    then show ?thesis using Absent m' [of "[h]"] subs msim_open [OF m'] matchesD [OF matches_send m']
      by (intro exI [of _ "[In_Subscribe ch h]"]) (simp add: mio_subscribe_def subscribe_def Let_def set_add_def)
  qed
qed

lemma remove1_set_remove: "distinct hs \<Longrightarrow> remove1 h hs = set_remove h hs"
  by (simp add: set_remove_def distinct_remove1_removeAll removeAll_filter_not_eq) (metis (mono_tags) filter_cong)

lemma msim_unsubscribe:
  assumes m: "msim w c d" and ok: "client_ok d"
  shows "\<exists>is. run is d \<noteq> None \<and> msim w (snd (mio_unsubscribe ch h c)) (the (run is d))"
proof -
  note subs = msim_subs_eq [OF m]
  show ?thesis
  proof (cases "oget (mk_subscriptions c) ch")
    case (Own hs)
    then have g: "jget (mk_subscriptions c) ch = Some hs" by (auto simp: oget_def split: option.splits if_splits)
    then have "distinct hs" using ok subs by (auto simp: client_ok_def subs_ok_def)
    then have r: "remove1 h hs = set_remove h hs" by (rule remove1_set_remove)
    have "ch \<in> set (jkeys (mk_subscriptions c))" using g jm.key_iff by fastforce
    then have "array_index ch = None" using subs by (simp add: plain_keys_def)
    then have p: "plain_keys (jset ch v (mk_subscriptions c))" "plain_keys (jdelete ch (mk_subscriptions c))" for v
      using subs plain_keys_jset plain_keys_jdelete by blast+
    note m1 = msim_subs [OF m p(1)] and m2 = msim_subs [OF m p(2)]
    show ?thesis using Own g r m1 [of "set_remove h hs"] m2 subs msim_open [OF m2] matchesD [OF matches_send m2]
      by (intro exI [of _ "[In_Unsubscribe ch h]"]) (simp add: mio_unsubscribe_def unsubscribeHandler_def Let_def)
  next
    case Inherited
    then show ?thesis using m by (intro exI [of _ "[]"]) (simp add: mio_unsubscribe_def)
  next
    case Absent
    then show ?thesis using m by (intro exI [of _ "[]"]) (simp add: mio_unsubscribe_def)
  qed
qed

section \<open>Messages and listeners\<close>

lemma msim_calls_left [simp]: "msim False (mio_calls hs msg c) d = msim False c d"
  by (simp add: mio_calls_def msim_def)

lemma msim_dispatch_left: "msim False (snd (mio_dispatch now f c)) d = msim False c d"
  by (simp add: mio_dispatch_def Let_def split: property.split)

lemma msim_callback_left: "msim w (mio_callback p c) d = msim w (snd (p c)) d"
  by (auto simp: mio_callback_def split: prod.split option.split)

lemma msim_onmessage_left: "msim False (mio_callback (mio_onmessage now data) c) d = msim False c d"
  by (simp add: msim_callback_left mio_onmessage_def msim_dispatch_left split: message_data.split sum.split)

lemma msim_calls: "msim w c d \<Longrightarrow> msim w (mio_calls hs msg c) (d\<lparr>rc_log := rc_log d @ map (\<lambda>h. Handled h msg) hs\<rparr>)"
  by (simp add: mio_calls_def msim_def)

lemma values_of_keys:
  assumes "jmap_ok m"
  shows "map (\<lambda>k. case jget m k of None \<Rightarrow> [] | Some hs \<Rightarrow> hs) (filter P (jkeys m)) = map snd (filter (\<lambda>(k, _). P k) m)"
proof -
  have "map (\<lambda>k. case jget m k of None \<Rightarrow> [] | Some hs \<Rightarrow> hs) (filter P (jkeys m)) =
      map ((\<lambda>k. case jget m k of None \<Rightarrow> [] | Some hs \<Rightarrow> hs) \<circ> fst) (filter (P \<circ> fst) m)"
    by (simp add: jkeys_def filter_map)
  also have "\<dots> = map snd (filter (P \<circ> fst) m)" using assms by (intro map_cong) (auto simp: jget_in_set)
  also have "filter (P \<circ> fst) m = filter (\<lambda>(k, _). P k) m" by (intro filter_cong) auto
  finally show ?thesis .
qed

text \<open>A received frame that is no fragment: both clients announce it and call the same handlers in the same order.\<close>

lemma msim_dispatch:
  assumes m: "msim w c d" and ok: "client_ok d" and np: "parseChunk (df_payload f) = None"
    and own: "oget (mk_subscriptions c) (df_channelId f) \<noteq> Inherited"
  shows "msim w (snd (mio_dispatch now (mio_frame_of f) c)) (dispatch n1 n2 now f d)"
proof -
  let ?msg = "\<lparr>rm_channelId = df_channelId f, rm_payload = df_payload f, rm_tenantId = df_tenantId f, rm_receivedAt = now\<rparr>"
  let ?P = "\<lambda>key. star \<in> set key \<and> globMatch key (df_channelId f)"
  have subs: "rc_subscriptions d = mk_subscriptions c" "plain_keys (mk_subscriptions c)" using msim_subs_eq [OF m] by simp_all
  have keys: "object_keys (mk_subscriptions c) = jkeys (mk_subscriptions c)" using subs(2) by (simp add: plain_keys_def object_keys_plain)
  have "jmap_ok (mk_subscriptions c)" using ok subs(1) by (simp add: client_ok_def subs_ok_def)
  note globs = values_of_keys [OF this, of ?P]
  have glob: "mio_globMatch key x = globMatch key x" for key x by (simp add: mio_globMatch_def globMatch_def mio_glob_helper_eq)
  have exact: "case oget (mk_subscriptions c) (df_channelId f) of Own hs \<Rightarrow> jget (mk_subscriptions c) (df_channelId f) = Some hs
      | Absent \<Rightarrow> jget (mk_subscriptions c) (df_channelId f) = None | Inherited \<Rightarrow> False"
    using own by (auto simp: oget_def split: option.split)
  have e: "msim w (mio_emit (M_Message ?msg) c) (emit (Received ?msg) d)" using msim_emit [OF m, of "M_Message ?msg"] by simp
  have kept: "mk_subscriptions (mio_emit ev c) = mk_subscriptions c" "rc_subscriptions (emit ev' d) = mk_subscriptions c" for ev ev'
    using subs(1) by (simp_all add: mio_emit_def emit_def split: option.split)
  have e2: "msim w (mio_calls ys ?msg (mio_calls xs ?msg (mio_emit (M_Message ?msg) c)))
      ((emit (Received ?msg) d)\<lparr>rc_log := rc_log (emit (Received ?msg) d) @ map (\<lambda>h. Handled h ?msg) (xs @ ys)\<rparr>)" for xs ys
    using msim_calls [OF msim_calls [OF e, of xs ?msg], of ys ?msg] by simp
  have "dispatch n1 n2 now f d = (emit (Received ?msg) d)\<lparr>rc_log := rc_log (emit (Received ?msg) d) @ map (\<lambda>h. Handled h ?msg)
      ((case jget (mk_subscriptions c) (df_channelId f) of None \<Rightarrow> [] | Some hs \<Rightarrow> hs) @
       concat (map snd (filter (\<lambda>(key, _). ?P key) (mk_subscriptions c))))\<rparr>"
    by (simp add: dispatch_def Let_def np kept)
  moreover have "snd (mio_dispatch now (mio_frame_of f) c) = mio_calls (concat (map snd (filter (\<lambda>(key, _). ?P key) (mk_subscriptions c)))) ?msg
      (mio_calls (case jget (mk_subscriptions c) (df_channelId f) of None \<Rightarrow> [] | Some hs \<Rightarrow> hs) ?msg (mio_emit (M_Message ?msg) c))"
    using exact globs
    by (cases "oget (mk_subscriptions c) (df_channelId f)")
      (simp_all add: mio_dispatch_def Let_def mio_frame_of_def kept keys glob mio_calls_def)
  ultimately show ?thesis using e2 by simp
qed

lemma msim_onmessage:
  assumes m: "msim w c d" and ok: "client_ok d" and wh: "mio_whole (Mi_Message s now data) c"
  shows "msim w (mio_callback (mio_onmessage now data) c) (onmessage n1 n2 now data d)"
proof (cases data)
  case (Array_Buffer raw)
  show ?thesis
  proof (cases "decodeFrame raw")
    case (Inl e)
    then show ?thesis using Array_Buffer msim_emit [OF m, of "M_Error (Mio_Protocol_Error e)"]
      by (simp add: msim_callback_left mio_onmessage_def onmessage_def mio_decodeFrame_eq)
  next
    case (Inr f)
    then show ?thesis using Array_Buffer wh msim_dispatch [OF m ok, of f now n1 n2]
      by (simp add: msim_callback_left mio_onmessage_def onmessage_def mio_decodeFrame_eq)
  qed
next
  case Other_Data
  then show ?thesis using msim_emit [OF m, of "M_Error Unexpected_Frame"]
    by (simp add: msim_callback_left mio_onmessage_def onmessage_def)
qed (use wh in simp)

lemma event_names_agree: "mio_event_name ev = mio_event_name ev' \<longleftrightarrow> event_of (sdk_event ev) = event_of (sdk_event ev')"
  by (cases ev; cases ev') simp_all

lemma listeners_sim_set:
  assumes "listeners_sim mls ls" "distinct new" "\<And>e. emit_targets e ls' = (if e = event_of (sdk_event ev) then new else emit_targets e ls)"
  shows "listeners_sim (jset (mio_event_name ev) new mls) ls'"
  using assms event_names_agree [of _ ev] by (auto simp: listeners_sim_def jmap_simps split: if_splits)

lemma listeners_keys: "listeners_sim mls ls \<Longrightarrow> jget mls e = Some lst \<Longrightarrow>
    \<exists>ev. e = mio_event_name ev \<and> lst = emit_targets (event_of (sdk_event ev)) ls \<and> distinct lst"
  unfolding listeners_sim_def by (metis option.inject)

lemma msim_set_listeners:
  "msim w c d \<Longrightarrow> (w \<Longrightarrow> listeners_sim mls ls) \<Longrightarrow> msim w (c\<lparr>mk_listeners := mls\<rparr>) (d\<lparr>rc_listeners := ls\<rparr>)"
  by (simp add: msim_def)

lemma msim_listeners_left: "msim False (c\<lparr>mk_listeners := ls\<rparr>) d = msim False c d"
  by (simp add: msim_def)

lemma msim_on:
  assumes m: "msim True c d" and wh: "mio_whole (Mi_On e l) c"
  shows "\<exists>is. run is d \<noteq> None \<and> msim True (snd (mio_on e l c)) (the (run is d))"
proof (cases "oget (mk_listeners c) e")
  case (Own lst)
  then have g: "jget (mk_listeners c) e = Some lst" by (auto simp: oget_def split: option.splits if_splits)
  have sim: "listeners_sim (mk_listeners c) (rc_listeners d)" using m by (simp add: msim_def)
  from listeners_keys [OF sim g] obtain ev where ev: "e = mio_event_name ev" "lst = emit_targets (event_of (sdk_event ev)) (rc_listeners d)" "distinct lst"
    by blast
  have new: "l \<notin> set lst" using wh g by simp
  have "listeners_sim (jset e (lst @ [l]) (mk_listeners c)) (on_event (event_of (sdk_event ev)) l (rc_listeners d))"
    unfolding ev(1) by (rule listeners_sim_set [OF sim]) (use ev new in \<open>auto simp: emit_targets_on set_add_def\<close>)
  then show ?thesis using Own msim_set_listeners [OF m] by (intro exI [of _ "[In_On (event_of (sdk_event ev)) l]"]) (simp add: mio_on_def)
qed (use m in \<open>auto simp: mio_on_def intro!: exI [of _ "[]"]\<close>)

lemma msim_off:
  assumes m: "msim True c d"
  shows "\<exists>is. run is d \<noteq> None \<and> msim True (mio_off e l c) (the (run is d))"
proof (cases "jget (mk_listeners c) e")
  case (Some lst)
  have sim: "listeners_sim (mk_listeners c) (rc_listeners d)" using m by (simp add: msim_def)
  from listeners_keys [OF sim Some] obtain ev where ev: "e = mio_event_name ev" "lst = emit_targets (event_of (sdk_event ev)) (rc_listeners d)" "distinct lst"
    by blast
  have "listeners_sim (jset e (remove1 l lst) (mk_listeners c)) (off_event (event_of (sdk_event ev)) l (rc_listeners d))"
    unfolding ev(1) by (rule listeners_sim_set [OF sim]) (use ev in \<open>auto simp: emit_targets_off remove1_set_remove [symmetric]\<close>)
  then show ?thesis using Some msim_set_listeners [OF m] by (intro exI [of _ "[In_Off (event_of (sdk_event ev)) l]"]) (simp add: mio_off_def)
qed (use m in \<open>auto simp: mio_off_def intro!: exI [of _ "[]"]\<close>)

lemma msim_closed: "msim w c d \<Longrightarrow> msim w (c\<lparr>mk_closedByUser := b\<rparr>) (d\<lparr>rc_closedByUser := b\<rparr>)"
  by (simp add: msim_def)

lemma msim_connect:
  assumes m: "msim w c d"
  shows "\<exists>is. run is d \<noteq> None \<and> msim w (snd (mio_connect ok c)) (the (run is d))"
proof -
  let ?d = "d\<lparr>rc_closedByUser := False\<rparr>"
  have "msim w (snd (mio_connect ok c)) (impl_settled ok (rc_next_attempt ?d) (openSocket sample_platform ?d)) \<and>
      enabled (In_Impl ok (rc_next_attempt ?d)) (openSocket sample_platform ?d)"
    unfolding mio_connect_def by (rule msim_openSocket [OF msim_closed [OF m]]) simp
  then show ?thesis by (intro exI [of _ "[In_Connect sample_platform, In_Impl ok (rc_next_attempt d)]"]) (simp add: connect_def)
qed

lemma msim_timeout:
  assumes m: "msim w c d" and t: "t \<in> fst ` set (mk_timeouts c)"
  shows "\<exists>is. run is d \<noteq> None \<and> msim w (snd (mio_handle (Mi_Timeout ok t) c)) (the (run is d))"
proof -
  let ?c = "c\<lparr>mk_timeouts := filter (\<lambda>(u, _). u \<noteq> t) (mk_timeouts c)\<rparr>"
  let ?d = "d\<lparr>rc_timeouts := filter (\<lambda>(u, _). u \<noteq> t) (rc_timeouts d)\<rparr>"
  have m': "msim w ?c ?d" and t': "t \<in> fst ` set (rc_timeouts d)" and cl: "rc_closedByUser d = mk_closedByUser c"
    using m t by (simp_all add: msim_def)
  show ?thesis
  proof (cases "mk_closedByUser c")
    case True
    then show ?thesis using m' t' cl by (intro exI [of _ "[In_Timeout sample_platform t]"]) simp
  next
    case False
    have "msim w (mio_callback (mio_openSocket ok) ?c) e = msim w (snd (mio_openSocket ok ?c)) e" for e
      by (auto simp: mio_callback_def split: prod.split option.split)
    moreover have "msim w (snd (mio_openSocket ok ?c)) (impl_settled ok (rc_next_attempt ?d) (openSocket sample_platform ?d)) \<and>
        enabled (In_Impl ok (rc_next_attempt ?d)) (openSocket sample_platform ?d)"
      by (rule msim_openSocket [OF m']) (use False in simp)
    ultimately show ?thesis using False t' cl
      by (intro exI [of _ "[In_Timeout sample_platform t, In_Impl ok (rc_next_attempt d)]"]) (simp add: Let_def)
  qed
qed

lemma msim_handle:
  assumes m: "msim w c d" and ok: "client_ok d" and en: "mio_enabled i c" and pl: "mio_plain i c" and wh: "w \<Longrightarrow> mio_whole i c"
  shows "\<exists>is. run is d \<noteq> None \<and> msim w (snd (mio_handle i c)) (the (run is d))"
proof -
  have same: ?thesis if "msim w (snd (mio_handle i c)) d" using that by (intro exI [of _ "[]"]) simp
  have one: ?thesis if "enabled j d" "msim w (snd (mio_handle i c)) (snd (handle j d))" for j
    using that by (intro exI [of _ "[j]"]) simp
  note st = msim_length [OF m] msim_nth [OF m]
  show ?thesis
  proof (cases i)
    case (Mi_Connect k)
    then show ?thesis using msim_connect [OF m] by simp
  next
    case Mi_Disconnect
    then show ?thesis using msim_disconnect [OF m] by (intro one [of In_Disconnect]) simp_all
  next
    case (Mi_Publish ch x)
    then show ?thesis using msim_publish [OF m] by simp
  next
    case (Mi_Replay ch n)
    then show ?thesis using matchesD [OF matches_sendOrQueue m]
      by (intro one [of "In_Replay ch n"]) (simp_all add: mio_replay_def replay_def)
  next
    case (Mi_Subscribe ch h)
    then show ?thesis using msim_subscribe [OF m] pl by simp
  next
    case (Mi_Unsubscribe ch h)
    then show ?thesis using msim_unsubscribe [OF m ok] by simp
  next
    case (Mi_On e l)
    have "msim False (snd (mio_handle i c)) d" if "msim False c d" using that Mi_On by (simp add: mio_on_def msim_listeners_left split: property.split)
    then show ?thesis using m wh Mi_On msim_on [of c d e l] same by (cases w) auto
  next
    case (Mi_Off e l)
    have "msim False (snd (mio_handle i c)) d" if "msim False c d" using that Mi_Off by (simp add: mio_off_def msim_listeners_left split: option.split)
    then show ?thesis using m Mi_Off msim_off [of c d e l] same by (cases w) auto
  next
    case (Mi_Open s)
    then have "s < length (mk_sockets c)" using en by simp
    moreover from this have "msim w (mio_callback mio_onopen (mio_set_ready Open s c)) (as_callback (onopen s) (set_ready Open s d))"
      by (intro msim_onopen msim_set_ready m) (simp_all add: mio_set_ready_def)
    ultimately show ?thesis using Mi_Open en st by (intro one [of "In_Open s"]) simp_all
  next
    case (Mi_Message s n x)
    then have "enabled (In_Message s n n n x) d" using en st by simp
    moreover have "msim False (snd (mio_handle i c)) d" if "msim False c d" using that Mi_Message by (simp add: msim_onmessage_left)
    ultimately show ?thesis using m ok wh Mi_Message msim_onmessage [of w c d s n x n n] same one [of "In_Message s n n n x"] by (cases w) simp_all
  next
    case (Mi_Error s)
    then show ?thesis using en st msim_emit [OF m, of "M_Error Connection_Error"]
      by (intro one [of "In_Error s"]) (simp_all add: mio_onerror_def onerror_def)
  next
    case (Mi_Close s rnd code reason)
    then have "s < length (mk_sockets c)" using en by simp
    then show ?thesis using Mi_Close en st msim_onclose [OF msim_set_ready [OF m]]
      by (intro one [of "In_Close s rnd code reason"]) simp_all
  next
    case (Mi_Tick t)
    moreover have "rc_intervals d = mk_intervals c" using m by (simp add: msim_def)
    ultimately show ?thesis using en msim_callback [OF matches_tick m] by (intro one [of "In_Tick t"]) simp_all
  next
    case (Mi_Timeout k t)
    then show ?thesis using msim_timeout [OF m] en by simp
  qed
qed

section \<open>Runs\<close>

fun mio_plain_run :: "mio_input list \<Rightarrow> mio_client \<Rightarrow> bool" where
  "mio_plain_run [] c \<longleftrightarrow> True"
| "mio_plain_run (i # rest) c \<longleftrightarrow> mio_plain i c \<and> mio_plain_run rest (snd (mio_handle i c))"

fun mio_whole_run :: "mio_input list \<Rightarrow> mio_client \<Rightarrow> bool" where
  "mio_whole_run [] c \<longleftrightarrow> True"
| "mio_whole_run (i # rest) c \<longleftrightarrow> mio_whole i c \<and> mio_whole_run rest (snd (mio_handle i c))"

text \<open>The configuration of an SDK client that stands for the small one.\<close>

definition sdk_config :: "mio_options \<Rightarrow> client_config" where
  "sdk_config config = (let cfg = mio_resolve config in
     \<lparr>cc_wsUrl = mc_url cfg, cc_tenantId = mc_tenantId cfg, cc_token = Some (mc_token cfg), cc_getToken = False,
      cc_heartbeatIntervalMs = Some (mc_heartbeatIntervalMs cfg), cc_reconnect = Some (mc_reconnect cfg),
      cc_reconnectBaseDelayMs = Some (mc_reconnectBaseDelayMs cfg), cc_reconnectMaxDelayMs = Some (mc_reconnectMaxDelayMs cfg),
      cc_maxMessageBytes = None, cc_webSocketImpl = True\<rparr>)"

lemma listeners_sim_start: "listeners_sim (mk_listeners (MioRealtimeClient config)) []"
proof -
  let ?m = "mk_listeners (MioRealtimeClient config)"
  have m: "?m = map (\<lambda>e. (js_of e, [])) [''open'', ''close'', ''error'', ''message'', ''authFailed'']"
    by (simp only: MioRealtimeClient_def mio_client.select_convs)
  have "jget ?m (mio_event_name ev) = Some (emit_targets (event_of (sdk_event ev)) [])" for ev
    unfolding m by (cases ev) (simp_all add: jget_def emit_targets_def)
  moreover have "distinct lst \<and> (\<exists>ev. e = mio_event_name ev)" if "jget ?m e = Some lst" for e lst
  proof -
    have "(e, lst) \<in> set ?m" using that unfolding jget_def by (rule map_of_SomeD)
    then have l: "lst = []" and "e = js_of ''open'' \<or> e = js_of ''close'' \<or> e = js_of ''error'' \<or> e = js_of ''message'' \<or> e = js_of ''authFailed''"
      unfolding m by (auto simp del: js_of_simps)
    then have "e = mio_event_name M_Open \<or> e = mio_event_name (M_Close 0 []) \<or> e = mio_event_name (M_Error Type_Error) \<or>
        e = mio_event_name (M_Message undefined) \<or> e = mio_event_name (M_AuthFailed 0 [])"
      by (simp only: mio_event_name.simps)
    then have "\<exists>ev. e = mio_event_name ev" by blast
    then show ?thesis using l by simp
  qed
  ultimately show ?thesis unfolding listeners_sim_def by blast
qed

lemma msim_start: "mo_token config \<noteq> [] \<Longrightarrow> msim w (MioRealtimeClient config) (new_client (sdk_config config))"
  using listeners_sim_start [of config]
  by (simp add: msim_def MioRealtimeClient_def new_client_def sdk_config_def config_sim_def resolve_config_def or_default_def
      mio_resolve_def plain_keys_def Let_def LEN_PAYLOAD_def DEFAULT_MAX_MESSAGE_BYTES_def del: js_of_simps list.map)

lemma msim_run:
  "msim w c d \<Longrightarrow> reachable d \<Longrightarrow> mio_run is c = Some c' \<Longrightarrow> mio_plain_run is c \<Longrightarrow> (w \<Longrightarrow> mio_whole_run is c) \<Longrightarrow>
    \<exists>js d'. run js d = Some d' \<and> reachable d' \<and> msim w c' d'"
proof (induction "is" arbitrary: c d)
  case Nil
  then show ?case by (intro exI [of _ "[]"] exI [of _ d]) simp
next
  case (Cons i rest)
  have en: "mio_enabled i c" and r: "mio_run rest (snd (mio_handle i c)) = Some c'" using Cons.prems(3) by (auto split: if_splits)
  have "client_ok d" using reachable_ok [OF Cons.prems(2)] by simp
  from msim_handle [OF Cons.prems(1) this en] Cons.prems(4,5) obtain js d1 where
    js: "run js d = Some d1" "msim w (snd (mio_handle i c)) d1" by fastforce
  have "reachable d1" by (rule run_reachable [OF Cons.prems(2) js(1)])
  from Cons.IH [OF js(2) this r] Cons.prems(4,5) obtain ks d' where "run ks d1 = Some d'" "reachable d'" "msim w c' d'" by auto
  then show ?case using js(1) by (intro exI [of _ "js @ ks"] exI [of _ d']) (simp add: run_append)
qed

lemma mio_run_matched:
  assumes "mo_token config \<noteq> []" "mio_run is (MioRealtimeClient config) = Some c" "mio_plain_run is (MioRealtimeClient config)"
  obtains js d where "run js (new_client (sdk_config config)) = Some d" "reachable d"
    "msim (mio_whole_run is (MioRealtimeClient config)) c d"
  using msim_run [OF msim_start [OF assms(1)] new_client_reachable assms(2,3)] by blast

text \<open>
  C6. The small client refines the SDK's client. Take any run of \<open>MioRealtimeClient\<close> with a token, from its construction and over any calls, socket events and timers, in
  which no channel name is an array index and no handler is put twice on one channel. There is a run of \<open>RealtimeClient\<close>, configured alike, after
  which both have created sockets in the same states, put the same frames in the same order on each of them, and hold the same queue,
  subscriptions, current socket and reconnection timers with the same delays, and are or are not closed by the application. If moreover every message came as an \<open>ArrayBuffer\<close>, none was a fragment or for a channel with the
  name of a member of \<open>Object.prototype\<close> and no subscription, and no listener was put twice on an event, then both have done the same in the same order as far as anyone sees it: the frames with their bytes, every event with its
  data and the listeners called, and every handler called with its message, but for the event \<open>authenticated\<close>, which only the SDK has, and the texts of errors.
\<close>

theorem mio_client_refines_sdk:
  assumes "mo_token config \<noteq> []" "mio_run is (MioRealtimeClient config) = Some c" "mio_plain_run is (MioRealtimeClient config)"
  shows "\<exists>js d. run js (new_client (sdk_config config)) = Some d \<and> (\<forall>s. sends s (rc_log d) = msends s (mk_log c)) \<and>
    rc_ws d = mk_ws c \<and> map sk_readyState (rc_sockets d) = mk_sockets c \<and> rc_pendingSends d = mk_pendingSends c \<and>
    rc_subscriptions d = mk_subscriptions c \<and> rc_timeouts d = mk_timeouts c \<and> rc_closedByUser d = mk_closedByUser c \<and>
    (mio_whole_run is (MioRealtimeClient config) \<longrightarrow> seen (rc_log d) = mio_seen (mk_log c))"
proof -
  obtain js d where "run js (new_client (sdk_config config)) = Some d" "msim (mio_whole_run is (MioRealtimeClient config)) c d"
    using mio_run_matched [OF assms] by blast
  then show ?thesis unfolding msim_def by (intro exI [of _ js] exI [of _ d]) blast
qed

definition sample_mio_options :: mio_options where
  "sample_mio_options = \<lparr>mo_wsUrl = js_of ''wss://h/ws'', mo_tenantId = js_of ''00000000-0000-0000-0000-00000000000A'', mo_token = js_of ''tok'',
     mo_heartbeatIntervalMs = None, mo_reconnect = None, mo_reconnectBaseDelayMs = None, mo_reconnectMaxDelayMs = None\<rparr>"

definition sample_mio_inputs :: "mio_input list" where
  "sample_mio_inputs = [Mi_Subscribe (js_of ''c'') 7, Mi_Connect True, Mi_Publish (js_of ''c'') (js_of ''hi'')]"

lemma sample_mio_length: "encodeUtf8Length (js_of ''hi'') = 2"
  by (simp add: code_point_bytes_def is_high_def)

definition sample_mio_client :: mio_client where
  "sample_mio_client = (MioRealtimeClient sample_mio_options)\<lparr>mk_subscriptions := [(js_of ''c'', [7])], mk_closedByUser := False,
     mk_ws := Some 0, mk_sockets := [Connecting], mk_pendingSends := [(Publish, js_of ''c'', js_of ''hi'')]\<rparr>"

lemma sample_mio_run: "mio_run sample_mio_inputs (MioRealtimeClient sample_mio_options) = Some sample_mio_client"
proof -
  let ?c = "MioRealtimeClient sample_mio_options"
  have "js_of ''c'' \<notin> set prototype_keys" by (simp add: prototype_keys_def)
  then have "mio_subscribe (js_of ''c'') 7 ?c = (None, ?c\<lparr>mk_subscriptions := [(js_of ''c'', [7])]\<rparr>)"
    by (simp add: mio_subscribe_def oget_def MioRealtimeClient_def jset_def mio_ws_open_def Let_def del: js_of_simps)
  then show ?thesis
    using sample_mio_length
    by (simp add: sample_mio_inputs_def mio_connect_def mio_openSocket_def mio_publish_def mio_sendOrQueue_def mio_ws_open_def
        LEN_PAYLOAD_def del: js_of_simps encodeUtf8Length.simps)
      (simp add: MioRealtimeClient_def sample_mio_client_def)
qed

lemma sample_mio_plain: "mio_plain_run sample_mio_inputs (MioRealtimeClient sample_mio_options)"
  by (simp add: sample_mio_inputs_def MioRealtimeClient_def array_index_def digit_val_def)

theorem mio_client_refines_sdk_witness:
  "\<exists>js d. run js (new_client (sdk_config sample_mio_options)) = Some d \<and> rc_ws d = Some 0 \<and>
     rc_pendingSends d = [(Publish, js_of ''c'', js_of ''hi'')]"
proof -
  have t: "mo_token sample_mio_options \<noteq> []" by (simp add: sample_mio_options_def)
  have "mk_ws sample_mio_client = Some 0" "mk_pendingSends sample_mio_client = [(Publish, js_of ''c'', js_of ''hi'')]"
    by (simp_all add: sample_mio_client_def)
  with mio_client_refines_sdk [OF t sample_mio_run sample_mio_plain] show ?thesis by metis
qed

end
