(* ===== verification/Mio_Feed.thy ===== *)
theory Mio_Feed
  imports Mio_Refinement
begin

text \<open>
  What the pages build on the small client: \<open>autoInit\<close> of \<open>vanilla-client/assets/mio-embed.js\<close> and \<open>mio-shortcode.js\<close> of the
  WordPress plugin, which render the messages of a channel as a list of bounded length with a status line. The theory also holds the properties
  of the client that need no run: its size guard and its behaviour on channel names that every object inherits.
\<close>

section \<open>Reading an integer\<close>

text \<open>\<open>parseInt(s, 10)\<close>: blanks, an optional sign and the longest run of digits; \<open>None\<close> is NaN. Integers are exact.\<close>

definition parseInt10 :: "js_string \<Rightarrow> int option" where
  "parseInt10 s =
     (let t = dropWhile is_blank s;
          (neg, r) = (case t of u # t' \<Rightarrow> if u = 45 then (True, t') else if u = 43 then (False, t') else (False, t)
                      | [] \<Rightarrow> (False, []));
          ds = takeWhile is_digit r in
      if ds = [] then None
      else map_option (\<lambda>n. if neg then - int n else int n) (digits_val 10 0 ds))"

text \<open>\<open>parseInt(v, 10) || 20\<close> for an attribute that may be missing.\<close>

definition feed_limit :: "js_string option \<Rightarrow> int" where
  "feed_limit v =
     (case v of None \<Rightarrow> 20
      | Some s \<Rightarrow> (case parseInt10 s of None \<Rightarrow> 20 | Some n \<Rightarrow> if n = 0 then 20 else n))"

section \<open>The list of messages\<close>

text \<open>
  \<open>while (list.children.length > limit) list.removeChild(list.firstChild)\<close>. On an empty list \<open>firstChild\<close> is \<open>null\<close>
  and \<open>removeChild\<close> throws, with the list left empty.
\<close>

fun trim_list :: "int \<Rightarrow> 'a list \<Rightarrow> mio_error option \<times> 'a list" where
  "trim_list limit [] = (if limit < 0 then (Some Type_Error, []) else (None, []))"
| "trim_list limit (x # xs) = (if int (length (x # xs)) > limit then trim_list limit xs else (None, x # xs))"

record list_item =
  li_class :: js_string
  li_text :: js_string
  li_css :: js_string

text \<open>\<open>appendMessage\<close> of the shortcode; \<open>None\<close> for a missing list element.\<close>

definition shortcode_item :: "realtime_message \<Rightarrow> list_item" where
  "shortcode_item m = \<lparr>li_class = js_of ''mio-realtime-message'', li_text = rm_payload m, li_css = []\<rparr>"

definition appendMessage :: "int \<Rightarrow> realtime_message \<Rightarrow> list_item list option \<Rightarrow> mio_error option \<times> list_item list option" where
  "appendMessage limit m lst =
     (case lst of None \<Rightarrow> (None, None)
      | Some items \<Rightarrow> (let (e, items') = trim_list limit (items @ [shortcode_item m]) in (e, Some items')))"

text \<open>The handler of the embed script.\<close>

definition embed_item :: "realtime_message \<Rightarrow> list_item" where
  "embed_item m = \<lparr>li_class = [], li_text = rm_payload m, li_css = js_of ''padding:6px 0;border-bottom:1px solid #44475a22;''\<rparr>"

definition embed_append :: "int \<Rightarrow> realtime_message \<Rightarrow> list_item list \<Rightarrow> mio_error option \<times> list_item list" where
  "embed_append limit m items = trim_list limit (items @ [embed_item m])"

section \<open>The embed script\<close>

record dataset =
  dt_wsUrl :: "js_string option"
  dt_tenantId :: "js_string option"
  dt_token :: "js_string option"
  dt_channel :: "js_string option"
  dt_target :: "js_string option"
  dt_limit :: "js_string option"
  dt_replay :: "js_string option"

definition given :: "js_string option \<Rightarrow> bool" where
  "given v = (case v of None \<Rightarrow> False | Some s \<Rightarrow> s \<noteq> [])"

datatype feed_container = Found_Element js_string | Created_Element

record feed_view =
  fd_container :: feed_container
  fd_status :: js_string
  fd_items :: "list_item list"
  fd_limit :: int
  fd_client :: mio_client

definition connecting_text :: js_string where
  "connecting_text = js_of ''Connecting'' @ [0x2026]"

definition reconnecting_text :: js_string where
  "reconnecting_text = js_of ''Reconnecting'' @ [0x2026]"

text \<open>The callbacks the script registers, by number: \<open>open\<close>, \<open>close\<close>, \<open>error\<close>, and the handler of the channel.\<close>

definition feed_options :: "js_string \<Rightarrow> js_string \<Rightarrow> js_string \<Rightarrow> mio_options" where
  "feed_options wsUrl tenantId tok = \<lparr>mo_wsUrl = wsUrl, mo_tenantId = tenantId, mo_token = tok, mo_heartbeatIntervalMs = None,
     mo_reconnect = None, mo_reconnectBaseDelayMs = None, mo_reconnectMaxDelayMs = None\<rparr>"

definition wire_client :: "bool \<Rightarrow> mio_options \<Rightarrow> js_string \<Rightarrow> bool \<Rightarrow> mio_error option \<times> mio_client" where
  "wire_client constructed options ch wants_replay =
     mio_then (mio_on (js_of ''open'') 0)
     (mio_then (mio_on (js_of ''close'') 1)
     (mio_then (mio_on (js_of ''error'') 2)
     (mio_then (mio_subscribe ch 3)
     (mio_then (mio_connect constructed)
     (\<lambda>c. if wants_replay then mio_replay ch 0 c else (None, c))))))
     (MioRealtimeClient options)"

text \<open>\<open>has_script\<close> is the presence of \<open>document.currentScript\<close>; \<open>found\<close> tells whether a selector matches an element of the page. The result is \<open>None\<close> when the attributes are missing.\<close>

definition autoInit :: "bool \<Rightarrow> (js_string \<Rightarrow> bool) \<Rightarrow> bool \<Rightarrow> dataset \<Rightarrow> (mio_error option \<times> feed_view) option" where
  "autoInit has_script found constructed ds =
     (if \<not> has_script then None
      else if \<not> given (dt_wsUrl ds) \<or> \<not> given (dt_tenantId ds) \<or> \<not> given (dt_token ds) \<or> \<not> given (dt_channel ds) then None
      else (let container = (if given (dt_target ds) \<and> found (the (dt_target ds)) then Found_Element (the (dt_target ds)) else Created_Element);
                (e, c) = wire_client constructed (feed_options (the (dt_wsUrl ds)) (the (dt_tenantId ds)) (the (dt_token ds)))
                  (the (dt_channel ds)) (dt_replay ds = Some (js_of ''true'')) in
            Some (e, \<lparr>fd_container = container, fd_status = connecting_text, fd_items = [], fd_limit = feed_limit (dt_limit ds), fd_client = c\<rparr>)))"

text \<open>What the callbacks do to the page when the client calls them; \<open>msg\<close> is the text of an error.\<close>

definition feed_effect :: "(mio_error \<Rightarrow> js_string) \<Rightarrow> mio_effect \<Rightarrow> feed_view \<Rightarrow> feed_view" where
  "feed_effect msg e f =
     (case e of
        M_Emitted M_Open ls \<Rightarrow> if 0 \<in> set ls then f\<lparr>fd_status := js_of ''Live''\<rparr> else f
      | M_Emitted (M_Close _ _) ls \<Rightarrow> if 1 \<in> set ls then f\<lparr>fd_status := reconnecting_text\<rparr> else f
      | M_Emitted (M_Error err) ls \<Rightarrow> if 2 \<in> set ls then f\<lparr>fd_status := js_of ''Connection error: '' @ msg err\<rparr> else f
      | M_Handled h m \<Rightarrow> if h = 3 then f\<lparr>fd_items := snd (embed_append (fd_limit f) m (fd_items f))\<rparr> else f
      | _ \<Rightarrow> f)"

section \<open>The shortcode\<close>

text \<open>The outcome of the request for a token: its fields, a status that is not a success, or a rejected promise.\<close>

datatype token_outcome = Token_Data js_string js_string js_string | Http_Status nat | Request_Failed js_string

record feed_root =
  fr_channel :: js_string
  fr_limit :: "js_string option"
  fr_replay :: "js_string option"
  fr_has_status :: bool
  fr_has_list :: bool

record root_view =
  rv_status :: "js_string option"
  rv_items :: "list_item list option"

definition setStatus :: "js_string \<Rightarrow> root_view \<Rightarrow> root_view" where
  "setStatus txt v = (case rv_status v of None \<Rightarrow> v | Some _ \<Rightarrow> v\<lparr>rv_status := Some txt\<rparr>)"

definition fetchToken :: "token_outcome \<Rightarrow> js_string + js_string \<times> js_string \<times> js_string" where
  "fetchToken outcome =
     (case outcome of
        Token_Data u t k \<Rightarrow> Inr (u, t, k)
      | Http_Status n \<Rightarrow> Inl (js_of ''token request failed: HTTP '' @ js_of_nat n)
      | Request_Failed m \<Rightarrow> Inl m)"

definition wireFeed :: "(mio_error \<Rightarrow> js_string) \<Rightarrow> token_outcome \<Rightarrow> bool \<Rightarrow> feed_root \<Rightarrow> root_view \<times> mio_client option" where
  "wireFeed msg outcome constructed feed_div =
     (let v = setStatus connecting_text
            \<lparr>rv_status = (if fr_has_status feed_div then Some [] else None), rv_items = (if fr_has_list feed_div then Some [] else None)\<rparr> in
      case fetchToken outcome of
        Inl m \<Rightarrow> (setStatus (js_of ''Failed to connect: '' @ m) v, None)
      | Inr (wsUrl, tenantId, tok) \<Rightarrow>
          (case wire_client constructed (feed_options wsUrl tenantId tok) (fr_channel feed_div) (fr_replay feed_div = Some (js_of ''true'')) of
             (None, c) \<Rightarrow> (v, Some c)
           | (Some e, c) \<Rightarrow> (setStatus (js_of ''Failed to connect: '' @ msg e) v, Some c)))"

definition shortcode_effect :: "(mio_error \<Rightarrow> js_string) \<Rightarrow> int \<Rightarrow> mio_effect \<Rightarrow> root_view \<Rightarrow> root_view" where
  "shortcode_effect msg limit e v =
     (case e of
        M_Emitted M_Open ls \<Rightarrow> if 0 \<in> set ls then setStatus (js_of ''Live'') v else v
      | M_Emitted (M_Close _ _) ls \<Rightarrow> if 1 \<in> set ls then setStatus reconnecting_text v else v
      | M_Emitted (M_Error err) ls \<Rightarrow> if 2 \<in> set ls then setStatus (js_of ''Connection error: '' @ msg err) v else v
      | M_Handled h m \<Rightarrow> if h = 3 then v\<lparr>rv_items := snd (appendMessage limit m (rv_items v))\<rparr> else v
      | _ \<Rightarrow> v)"

section \<open>The feed shows the last messages\<close>

lemma trim_list_pos: "0 \<le> limit \<Longrightarrow> trim_list limit xs = (None, drop (length xs - nat limit) xs)"
  by (induction xs) (auto simp: Suc_diff_le)

lemma trim_list_neg: "limit < 0 \<Longrightarrow> trim_list limit xs = (Some Type_Error, [])"
  by (induction xs) auto

lemma feed_effects_items:
  assumes "0 < limit" "fd_limit f = limit" "fd_items f = keep_last (nat limit) xs"
  shows "fd_items (fold (\<lambda>m. feed_effect msg (M_Handled 3 m)) ms f) = keep_last (nat limit) (xs @ map embed_item ms)"
  using assms(2,3)
proof (induction ms arbitrary: f xs)
  case (Cons m ms)
  have "fd_items (feed_effect msg (M_Handled 3 m) f) = keep_last (nat limit) (xs @ [embed_item m])"
    using Cons.prems assms(1) keep_last_snoc [of "nat limit" xs "embed_item m"]
    by (simp add: feed_effect_def embed_append_def trim_list_pos keep_last_def)
  then show ?case using Cons.IH [of "feed_effect msg (M_Handled 3 m) f" "xs @ [embed_item m]"] Cons.prems(1)
    by (simp add: feed_effect_def)
qed simp

text \<open>
  The list of an embedded feed shows the payloads of the last messages in order, as many as its limit: the number in its \<open>data-limit\<close> attribute, or 20 if that
  is missing, no number or 0. (A negative number makes the script throw on every message and the list stay empty.)
\<close>

theorem embed_feed_shows_last:
  assumes "autoInit True found ok ds = Some (e, f)"
  shows "(0 < feed_limit (dt_limit ds) \<longrightarrow>
      map li_text (fd_items (fold (\<lambda>m. feed_effect msg (M_Handled 3 m)) ms f)) =
        keep_last (nat (feed_limit (dt_limit ds))) (map rm_payload ms)) \<and>
    (feed_limit (dt_limit ds) \<le> 0 \<longrightarrow> feed_limit (dt_limit ds) < 0 \<and>
      (\<forall>m. embed_append (fd_limit f) m (fd_items f) = (Some Type_Error, [])))"
proof -
  have f: "fd_limit f = feed_limit (dt_limit ds)" "fd_items f = []"
    using assms by (auto simp: autoInit_def Let_def split: if_splits prod.splits)
  have "map li_text (keep_last n (map embed_item ms)) = keep_last n (map rm_payload ms)" for n
    by (simp add: keep_last_def drop_map embed_item_def)
  moreover have "feed_limit (dt_limit ds) \<noteq> 0" by (simp add: feed_limit_def split: option.split)
  ultimately show ?thesis
    using feed_effects_items [of "feed_limit (dt_limit ds)" f "[]" msg ms] f
    by (auto simp: keep_last_def embed_append_def trim_list_neg)
qed

definition sample_dataset :: dataset where
  "sample_dataset = \<lparr>dt_wsUrl = Some (js_of ''wss://h/ws''), dt_tenantId = Some (js_of ''t''), dt_token = Some (js_of ''k''),
     dt_channel = Some (js_of ''c''), dt_target = None, dt_limit = Some (js_of ''2px''), dt_replay = None\<rparr>"

lemma sample_dataset_limit: "feed_limit (dt_limit sample_dataset) = 2"
  by (simp add: sample_dataset_def feed_limit_def parseInt10_def is_blank_def is_digit_def digit_val_def Let_def)

theorem embed_feed_shows_last_witness:
  "\<exists>e f. autoInit True (\<lambda>_. False) True sample_dataset = Some (e, f) \<and>
     map li_text (fd_items (fold (\<lambda>m. feed_effect (\<lambda>_. []) (M_Handled 3 m))
       (map (\<lambda>p. \<lparr>rm_channelId = js_of ''c'', rm_payload = js_of p, rm_tenantId = [], rm_receivedAt = 0\<rparr>) [''a'', ''b'', ''d'']) f)) =
     [js_of ''b'', js_of ''d'']"
proof -
  have "autoInit True (\<lambda>_. False) True sample_dataset \<noteq> None"
    by (simp add: autoInit_def sample_dataset_def given_def Let_def split: prod.split)
  then obtain e f where f: "autoInit True (\<lambda>_. False) True sample_dataset = Some (e, f)" by auto
  from embed_feed_shows_last [OF f, of "\<lambda>_. []" "map (\<lambda>p. \<lparr>rm_channelId = js_of ''c'', rm_payload = js_of p, rm_tenantId = [], rm_receivedAt = 0\<rparr>) [''a'', ''b'', ''d'']"]
  show ?thesis using f by (simp add: sample_dataset_limit keep_last_def del: js_of_simps)
qed

section \<open>Properties of the small client\<close>

lemma mio_send_error: "fst (mio_send a c) \<noteq> Some Payload_Too_Long"
  by (simp add: mio_send_def split: sum.split)

text \<open>
  The size guard of \<open>publish\<close> is exact: it throws precisely for the payloads whose UTF-8 form is longer than the 211 bytes of a frame, so every
  payload it lets through is written whole, followed by zeros. The length is counted per code point, without encoding the text.
\<close>

theorem mio_publish_guard_exact:
  "(fst (mio_publish ch pl c) = Some Payload_Too_Long) = (LEN_PAYLOAD < length (text_encode pl)) \<and>
   (length (text_encode pl) \<le> LEN_PAYLOAD \<longrightarrow>
      mio_writePadded mio_LEN_PAYLOAD pl = text_encode pl @ replicate (LEN_PAYLOAD - length (text_encode pl)) 0)"
  using mio_send_error [of "(Publish, ch, pl)" c]
  by (auto simp: mio_publish_def encodeUtf8Length_eq utf8ByteLength_def mio_sendOrQueue_def mio_writePadded_eq writePadded_fits)

theorem mio_publish_guard_exact_witness:
  "length (text_encode [0x20AC, 97]) = 4 \<and>
   mio_writePadded mio_LEN_PAYLOAD [0x20AC, 97] = text_encode [0x20AC, 97] @ replicate 207 0"
proof -
  have l: "length (text_encode [0x20AC, 97]) = 4"
    by (simp add: text_encode_def utf8_scalar_def unit_scalar_def is_high_def is_low_def)
  then show ?thesis using mio_publish_guard_exact [of _ "[0x20AC, 97]"] by (simp add: LEN_PAYLOAD_def)
qed

text \<open>
  A channel with the name of a member of \<open>Object.prototype\<close> (\<open>constructor\<close>, \<open>toString\<close>, \<open>valueOf\<close> and so on) cannot be used with the small client: \<open>subscribe\<close>
  throws, and a message that arrives there is announced to the \<open>message\<close> listeners, but then the dispatch throws before any handler of a
  pattern, even \<open>*\<close>, is called.
\<close>

theorem mio_prototype_channel_lost:
  assumes "ch \<in> set prototype_keys" "jget (mk_subscriptions c) ch = None" "mfr_channelId f = ch"
  shows "mio_subscribe ch h c = (Some Type_Error, c) \<and>
    mio_dispatch now f c = (Some Type_Error, mio_emit (M_Message \<lparr>rm_channelId = ch, rm_payload = mfr_payload f,
      rm_tenantId = mfr_tenantId f, rm_receivedAt = now\<rparr>) c)"
proof -
  have "mk_subscriptions (mio_emit ev c) = mk_subscriptions c" for ev by (simp add: mio_emit_def split: option.split)
  then show ?thesis using assms by (simp add: mio_subscribe_def mio_dispatch_def oget_def Let_def)
qed

theorem mio_prototype_channel_lost_witness:
  "\<exists>c f. jget (mk_subscriptions c) (js_of ''*'') = Some [7] \<and> mio_globMatch (js_of ''*'') (mfr_channelId f) \<and>
     fst (mio_dispatch 0 f c) = Some Type_Error"
proof -
  let ?c = "(MioRealtimeClient sample_mio_options)\<lparr>mk_subscriptions := [(js_of ''*'', [7])]\<rparr>"
  let ?f = "\<lparr>mfr_opcode = 3, mfr_tenantId = [], mfr_channelId = js_of ''constructor'', mfr_payload = [], mfr_raw = []\<rparr>"
  have k: "js_of ''constructor'' \<in> set prototype_keys" by (simp add: prototype_keys_def)
  have n: "jget (mk_subscriptions ?c) (js_of ''constructor'') = None" "jget (mk_subscriptions ?c) (js_of ''*'') = Some [7]"
    by (simp_all add: jget_def)
  have g: "mio_globMatch (js_of ''*'') (mfr_channelId ?f)"
    by (simp add: mio_globMatch_def mio_glob_helper_eq star_def list_ex_iff)
  show ?thesis
    using mio_prototype_channel_lost [OF k n(1), of ?f] n(2) g by (intro exI [of _ ?c] exI [of _ ?f]) simp
qed

text \<open>
  What the small client sends, over any run as in the refinement and with a well-formed tenant: the first frame on every socket is AUTH; and whenever its current socket is
  open, the SUB and UNSUB frames sent there leave the server with exactly the channels that have a handler, and the queue is empty.
\<close>

theorem mio_client_wire:
  assumes "mo_token config \<noteq> []" "mio_run is (MioRealtimeClient config) = Some c" "mio_plain_run is (MioRealtimeClient config)"
    and "UUID_RE (mc_tenantId (mk_config c))"
  shows "(\<forall>s a as. msends s (mk_log c) = a # as \<longrightarrow> fst a = Auth) \<and>
    (\<forall>s. mk_ws c = Some s \<longrightarrow> mk_sockets c ! s = Open \<longrightarrow>
      server_view (msends s (mk_log c)) = set (jkeys (mk_subscriptions c)) \<and> mk_pendingSends c = [])"
proof -
  obtain js d where d: "run js (new_client (sdk_config config)) = Some d" "reachable d" "msim (mio_whole_run is (MioRealtimeClient config)) c d"
    using assms(1-3) by (rule mio_run_matched)
  have w: "wire_ok d" using reachable_ok [OF d(2)] by simp
  have v: "valid_tenant d" using d(3) assms(4) by (simp add: valid_tenant_def msim_def config_sim_def)
  have "fst a = Auth" if "msends s (mk_log c) = a # as" for s a as
  proof -
    have "sends s (rc_log d) = a # as" using d(3) that by (simp add: msim_def)
    moreover have "sends s (rc_log d) \<noteq> [] \<longrightarrow> fst (hd (sends s (rc_log d))) = Auth"
      using w unfolding wire_ok_def frames_ok_def by blast
    ultimately show ?thesis by simp
  qed
  moreover have "server_view (msends s (mk_log c)) = set (jkeys (mk_subscriptions c)) \<and> mk_pendingSends c = []"
    if "mk_ws c = Some s" "mk_sockets c ! s = Open" for s
  proof -
    have "ws_open d" using that msim_open [OF d(3)] by (simp add: mio_ws_open_def)
    then have "server_view (sends s (rc_log d)) = set (jkeys (rc_subscriptions d)) \<and> rc_pendingSends d = []"
      using w v d(3) that by (simp add: wire_ok_def open_ok_def msim_def)
    then show ?thesis using d(3) by (simp add: msim_def)
  qed
  ultimately show ?thesis by blast
qed

theorem mio_client_wire_witness:
  "(\<forall>s a as. msends s (mk_log sample_mio_client) = a # as \<longrightarrow> fst a = Auth) \<and> mk_ws sample_mio_client = Some 0"
proof -
  have t: "mo_token sample_mio_options \<noteq> []" by (simp add: sample_mio_options_def)
  have u: "UUID_RE (mc_tenantId (mk_config sample_mio_client))"
    using sample_tenant by (simp add: sample_mio_client_def MioRealtimeClient_def mio_resolve_def sample_mio_options_def)
  from mio_client_wire [OF t sample_mio_run sample_mio_plain u] show ?thesis by (simp add: sample_mio_client_def)
qed

end
