(* ===== verification/JSON.thy ===== *)
theory JSON
  imports JS_Number JS_Text
begin

text \<open>
  \<open>JSON.stringify\<close> and \<open>JSON.parse\<close>, which the envelopes, tokens and persisted stores of the sources go through.
  A value is a tree; an object is its list of members in creation order, a repeated key keeping its
  place with the last value. How a number is printed is the argument \<open>fmt\<close> (\<open>Number::toString\<close> of
  ECMAScript); the theorems need of it that the parser reads the text back, which \<open>fmt_nat\<close> shows for naturals.

  The parser carries fuel for its mutual recursion; \<open>json_parse\<close> starts it with twice the length of the text and two
  more, and \<open>parse_fuel_enough\<close> shows that more fuel never changes the answer.
\<close>

section \<open>Values\<close>

datatype json =
    JNull
  | JBool bool
  | JNum js_number
  | JStr js_string
  | JArr "json list"
  | JObj "(js_string \<times> json) list"

section \<open>Printing\<close>

definition hex_unit :: "nat \<Rightarrow> code_unit" where
  "hex_unit n = (if n < 10 then of_nat (48 + n) else of_nat (87 + n))"

definition hex4 :: "code_unit \<Rightarrow> js_string" where
  "hex4 u = (let n = unat u in
     [hex_unit (n div 4096), hex_unit (n div 256 mod 16), hex_unit (n div 16 mod 16), hex_unit (n mod 16)])"

definition surrogate :: "code_unit \<Rightarrow> bool" where
  "surrogate u \<longleftrightarrow> is_high u \<or> is_low u"

text \<open>\<open>QuoteJSONString\<close>: short escapes, \<open>\u\<close> for other control characters and for unpaired surrogates.\<close>

definition quote_unit :: "code_unit \<Rightarrow> js_string" where
  "quote_unit u =
     (if u = 8 then [92, 98] else if u = 9 then [92, 116] else if u = 10 then [92, 110]
      else if u = 12 then [92, 102] else if u = 13 then [92, 114]
      else if u = 34 then [92, 34] else if u = 92 then [92, 92]
      else if unat u < 32 \<or> surrogate u then [92, 117] @ hex4 u
      else [u])"

fun quote_units :: "js_string \<Rightarrow> js_string" where
  "quote_units [] = []"
| "quote_units [u] = quote_unit u"
| "quote_units (u # v # s) =
     (if is_high u \<and> is_low v then u # v # quote_units s else quote_unit u @ quote_units (v # s))"

definition quote_json :: "js_string \<Rightarrow> js_string" where
  "quote_json s = [34] @ quote_units s @ [34]"

text \<open>Elements separated by commas.\<close>

fun commas :: "js_string list \<Rightarrow> js_string" where
  "commas [] = []"
| "commas [x] = x"
| "commas (x # y # xs) = x @ [44] @ commas (y # xs)"

fun json_stringify :: "(js_number \<Rightarrow> js_string) \<Rightarrow> json \<Rightarrow> js_string" where
  "json_stringify fmt JNull = js_of ''null''"
| "json_stringify fmt (JBool b) = (if b then js_of ''true'' else js_of ''false'')"
| "json_stringify fmt (JNum x) = (case x of Fin _ _ _ \<Rightarrow> fmt x | _ \<Rightarrow> js_of ''null'')"
| "json_stringify fmt (JStr s) = quote_json s"
| "json_stringify fmt (JArr vs) = [91] @ commas (map (json_stringify fmt) vs) @ [93]"
| "json_stringify fmt (JObj ms) =
     [123] @ commas (map (\<lambda>(k, v). quote_json k @ [58] @ json_stringify fmt v) ms) @ [125]"

section \<open>Parsing\<close>

definition json_ws :: "code_unit \<Rightarrow> bool" where
  "json_ws u \<longleftrightarrow> u = 9 \<or> u = 10 \<or> u = 13 \<or> u = 32"

definition skip_ws :: "js_string \<Rightarrow> js_string" where
  "skip_ws s = dropWhile json_ws s"

definition hex4_val :: "js_string \<Rightarrow> code_unit option" where
  "hex4_val ds = map_option of_nat (digits_val 16 0 ds)"

definition short_escape :: "code_unit \<Rightarrow> code_unit option" where
  "short_escape e =
     (if e = 34 then Some 34 else if e = 92 then Some 92 else if e = 47 then Some 47
      else if e = 98 then Some 8 else if e = 102 then Some 12 else if e = 110 then Some 10
      else if e = 114 then Some 13 else if e = 116 then Some 9 else None)"

text \<open>The rest of a string literal after its opening quote.\<close>

function parse_string :: "js_string \<Rightarrow> js_string \<Rightarrow> (js_string \<times> js_string) option" where
  "parse_string acc s =
     (case s of
        [] \<Rightarrow> None
      | u # r \<Rightarrow>
          if u = 34 then Some (acc, r)
          else if u = 92 then
            (case r of
               [] \<Rightarrow> None
             | e # r' \<Rightarrow>
                 if e = 117 then
                   (if length r' < 4 then None
                    else (case hex4_val (take 4 r') of
                        None \<Rightarrow> None
                      | Some c \<Rightarrow> parse_string (acc @ [c]) (drop 4 r')))
                 else (case short_escape e of
                     None \<Rightarrow> None
                   | Some c \<Rightarrow> parse_string (acc @ [c]) r'))
          else if unat u < 32 then None
          else parse_string (acc @ [u]) r)"
  by pat_completeness auto
termination
  by (relation "measure (\<lambda>(_, s). length s)") auto

declare parse_string.simps [simp del]

text \<open>The longest prefix that is a number of the JSON grammar.\<close>

definition scan_exponent :: "js_string \<Rightarrow> js_string" where
  "scan_exponent s =
     (case s of
        [] \<Rightarrow> []
      | u # t \<Rightarrow>
          if u = 101 \<or> u = 69 then
            (case t of
               v # t' \<Rightarrow>
                 if v = 43 \<or> v = 45 then
                   (let ds = takeWhile is_digit t' in if ds = [] then [] else u # v # ds)
                 else (let ds = takeWhile is_digit t in if ds = [] then [] else u # ds)
             | [] \<Rightarrow> [])
          else [])"

definition scan_fraction :: "js_string \<Rightarrow> js_string" where
  "scan_fraction s =
     (case s of
        [] \<Rightarrow> []
      | u # t \<Rightarrow> if u = 46 then (let ds = takeWhile is_digit t in if ds = [] then [] else u # ds) else [])"

definition scan_number :: "js_string \<Rightarrow> js_string option" where
  "scan_number s =
     (let sign = (case s of u # _ \<Rightarrow> if u = 45 then [u] else [] | [] \<Rightarrow> []);
          r = drop (length sign) s;
          ip = (case r of u # _ \<Rightarrow> if u = 48 then [u] else takeWhile is_digit r | [] \<Rightarrow> []) in
      if ip = [] then None
      else (let fp = scan_fraction (drop (length ip) r);
                ep = scan_exponent (drop (length ip + length fp) r) in
            Some (sign @ ip @ fp @ ep)))"

definition parse_number :: "js_string \<Rightarrow> (json \<times> js_string) option" where
  "parse_number s =
     (case scan_number s of None \<Rightarrow> None | Some t \<Rightarrow> Some (JNum (js_Number t), drop (length t) s))"

definition parse_literal :: "js_string \<Rightarrow> (json \<times> js_string) option" where
  "parse_literal s =
     (if take 4 s = js_of ''true'' then Some (JBool True, drop 4 s)
      else if take 5 s = js_of ''false'' then Some (JBool False, drop 5 s)
      else if take 4 s = js_of ''null'' then Some (JNull, drop 4 s)
      else parse_number s)"

fun parse_value :: "nat \<Rightarrow> js_string \<Rightarrow> (json \<times> js_string) option"
  and parse_elems :: "nat \<Rightarrow> json list \<Rightarrow> js_string \<Rightarrow> (json \<times> js_string) option"
  and parse_members :: "nat \<Rightarrow> (js_string \<times> json) list \<Rightarrow> js_string \<Rightarrow> (json \<times> js_string) option" where
  "parse_value 0 s = None"
| "parse_value (Suc n) s =
     (case skip_ws s of
        [] \<Rightarrow> None
      | u # r \<Rightarrow>
          if u = 123 then (case skip_ws r of
              v # r' \<Rightarrow> if v = 125 then Some (JObj [], r') else parse_members n [] r
            | [] \<Rightarrow> None)
          else if u = 91 then (case skip_ws r of
              v # r' \<Rightarrow> if v = 93 then Some (JArr [], r') else parse_elems n [] r
            | [] \<Rightarrow> None)
          else if u = 34 then map_option (\<lambda>(t, r'). (JStr t, r')) (parse_string [] r)
          else parse_literal (u # r))"
| "parse_elems 0 acc s = None"
| "parse_elems (Suc n) acc s =
     (case parse_value n s of
        None \<Rightarrow> None
      | Some (v, r) \<Rightarrow>
          (case skip_ws r of
             [] \<Rightarrow> None
           | u # r' \<Rightarrow> if u = 44 then parse_elems n (acc @ [v]) r'
                      else if u = 93 then Some (JArr (acc @ [v]), r') else None))"
| "parse_members 0 acc s = None"
| "parse_members (Suc n) acc s =
     (case skip_ws s of
        [] \<Rightarrow> None
      | q # r0 \<Rightarrow>
          if q \<noteq> 34 then None
          else (case parse_string [] r0 of
              None \<Rightarrow> None
            | Some (k, r1) \<Rightarrow>
                (case skip_ws r1 of
                   [] \<Rightarrow> None
                 | c # r2 \<Rightarrow>
                     if c \<noteq> 58 then None
                     else (case parse_value n r2 of
                         None \<Rightarrow> None
                       | Some (v, r3) \<Rightarrow>
                           (case skip_ws r3 of
                              [] \<Rightarrow> None
                            | u # r4 \<Rightarrow>
                                if u = 44 then parse_members n (jset k v acc) r4
                                else if u = 125 then Some (JObj (jset k v acc), r4) else None)))))"

declare parse_value.simps [simp del] parse_elems.simps [simp del] parse_members.simps [simp del]

text \<open>\<open>JSON.parse\<close>: one value and nothing but blanks after it; \<open>None\<close> is the \<open>SyntaxError\<close>.\<close>

definition json_parse :: "js_string \<Rightarrow> json option" where
  "json_parse s =
     (case parse_value (2 * length s + 2) s of
        Some (v, r) \<Rightarrow> if skip_ws r = [] then Some v else None
      | None \<Rightarrow> None)"

section \<open>Strings\<close>

lemma hex_unit_val: "n < 16 \<Longrightarrow> digit_val (hex_unit n) = Some n"
proof (cases "n < 10")
  case True
  then have "unat (of_nat (48 + n) :: code_unit) = 48 + n" by (intro unat_of_nat_unit) simp
  then show ?thesis using True by (simp add: hex_unit_def digit_val_def Let_def)
next
  case False
  assume "n < 16"
  then have "unat (of_nat (87 + n) :: code_unit) = 87 + n" by (intro unat_of_nat_unit) simp
  then show ?thesis using False \<open>n < 16\<close> by (simp add: hex_unit_def digit_val_def Let_def)
qed

lemma length_hex4 [simp]: "length (hex4 u) = 4"
  by (simp add: hex4_def Let_def)

lemma hex4_digits: "n < 65536 \<Longrightarrow>
    16 * (16 * (16 * (n div 4096) + n div 256 mod 16) + n div 16 mod 16) + n mod 16 = (n :: nat)"
proof -
  have "16 * (n div 16 div 16 div 16) + n div 16 div 16 mod 16 = n div 16 div 16" by simp
  moreover have "16 * (n div 16 div 16) + n div 16 mod 16 = n div 16" by simp
  moreover have "n div 4096 = n div 16 div 16 div 16" "n div 256 = n div 16 div 16"
    by (simp_all add: div_mult2_eq [symmetric])
  ultimately show ?thesis by simp
qed

lemma hex4_val_hex4: "hex4_val (hex4 u) = Some u"
proof -
  have n: "unat u < 65536" using unsigned_less [of u] by simp
  then have "unat u div 4096 < 16" by (simp add: less_mult_imp_div_less)
  then have "digits_val 16 0 (hex4 u) = Some (unat u)"
    using hex4_digits [OF n] by (simp add: hex4_def Let_def hex_unit_val)
  then show ?thesis by (simp add: hex4_val_def)
qed

lemma parse_string_plain:
  "32 \<le> unat u \<Longrightarrow> u \<noteq> 34 \<Longrightarrow> u \<noteq> 92 \<Longrightarrow> parse_string acc (u # r) = parse_string (acc @ [u]) r"
  by (subst parse_string.simps) simp

lemma parse_string_quote_unit: "parse_string acc (quote_unit u @ r) = parse_string (acc @ [u]) r"
proof -
  consider "u \<in> {8, 9, 10, 12, 13, 34, 92}"
    | "u \<notin> {8, 9, 10, 12, 13, 34, 92}" "unat u < 32 \<or> surrogate u"
    | "u \<notin> {34, 92}" "32 \<le> unat u" "\<not> surrogate u"
    by force
  then show ?thesis
  proof cases
    case 1
    then show ?thesis
      by (elim insertE emptyE) (simp_all add: quote_unit_def parse_string.simps [of acc] short_escape_def)
  next
    case 2
    then have "quote_unit u = [92, 117] @ hex4 u" by (simp add: quote_unit_def)
    then show ?thesis by (simp add: parse_string.simps [of acc] hex4_val_hex4)
  next
    case 3
    then have "unat u \<noteq> 8" "unat u \<noteq> 9" "unat u \<noteq> 10" "unat u \<noteq> 12" "unat u \<noteq> 13" by auto
    then have "quote_unit u = [u]" using 3 by (auto simp: quote_unit_def)
    then show ?thesis using 3 by (simp add: parse_string_plain)
  qed
qed

lemma high_low_plain:
  "is_high u \<or> is_low u \<Longrightarrow> 32 \<le> unat u \<and> u \<noteq> 34 \<and> u \<noteq> 92"
  by (auto simp: is_high_def is_low_def)

lemma parse_string_quote: "parse_string acc (quote_units s @ 34 # r) = Some (acc @ s, r)"
proof (induction s arbitrary: acc rule: quote_units.induct)
  case 1
  then show ?case by (subst parse_string.simps) simp
next
  case (2 u)
  then show ?case by (simp add: parse_string_quote_unit) (subst parse_string.simps, simp)
next
  case (3 u v s)
  then show ?case
    using high_low_plain [of u] high_low_plain [of v]
    by (cases "is_high u \<and> is_low v") (auto simp: parse_string_plain parse_string_quote_unit)
qed

section \<open>The round trip\<close>

definition delim :: "js_string \<Rightarrow> bool" where
  "delim r \<longleftrightarrow> (case r of [] \<Rightarrow> True | u # _ \<Rightarrow> u = 44 \<or> u = 93 \<or> u = 125)"

text \<open>What the printed form of a number must satisfy.\<close>

definition fmt_ok :: "(js_number \<Rightarrow> js_string) \<Rightarrow> js_number \<Rightarrow> bool" where
  "fmt_ok fmt x \<longleftrightarrow> (\<exists>neg n d. x = Fin neg n d) \<and>
     (case fmt x of [] \<Rightarrow> False | u # _ \<Rightarrow> u = 45 \<or> is_digit u) \<and>
     (\<forall>r. delim r \<longrightarrow> parse_number (fmt x @ r) = Some (JNum x, r))"

fun json_ok :: "(js_number \<Rightarrow> js_string) \<Rightarrow> json \<Rightarrow> bool" where
  "json_ok fmt JNull = True"
| "json_ok fmt (JBool b) = True"
| "json_ok fmt (JNum x) = fmt_ok fmt x"
| "json_ok fmt (JStr s) = True"
| "json_ok fmt (JArr vs) = list_all (json_ok fmt) vs"
| "json_ok fmt (JObj ms) \<longleftrightarrow> jmap_ok ms \<and> list_all (\<lambda>(k, v). json_ok fmt v) ms"

lemma json_ws_simps [simp]: "\<not> json_ws 34" "\<not> json_ws 91" "\<not> json_ws 93" "\<not> json_ws 123" "\<not> json_ws 125"
  "\<not> json_ws 44" "\<not> json_ws 58" "\<not> json_ws 45" "\<not> json_ws 110" "\<not> json_ws 116" "\<not> json_ws 102"
  by (simp_all add: json_ws_def)

lemma digit_not_ws: "is_digit u \<Longrightarrow> \<not> json_ws u \<and> u \<noteq> 34 \<and> u \<noteq> 91 \<and> u \<noteq> 93 \<and> u \<noteq> 123 \<and> u \<noteq> 125 \<and> u \<noteq> 116 \<and> u \<noteq> 102 \<and> u \<noteq> 110"
  by (auto simp: is_digit_def json_ws_def)

lemma skip_ws_simp [simp]: "\<not> json_ws u \<Longrightarrow> skip_ws (u # r) = u # r"
  by (simp add: skip_ws_def)

lemma stringify_head:
  "json_ok fmt j \<Longrightarrow> \<exists>u t. json_stringify fmt j = u # t \<and> \<not> json_ws u \<and> u \<noteq> 93 \<and> u \<noteq> 125"
proof (cases j)
  case (JNum x)
  assume "json_ok fmt j"
  then show ?thesis using digit_not_ws
    by (auto simp: JNum fmt_ok_def split: list.splits js_number.splits)
qed (auto simp: quote_json_def)

lemma parse_literal_number:
  assumes "u = 45 \<or> is_digit u"
  shows "parse_literal (u # r) = parse_number (u # r)"
  using digit_not_ws [of u] assms by (auto simp: parse_literal_def)

definition reads_back :: "(js_number \<Rightarrow> js_string) \<Rightarrow> json \<Rightarrow> bool" where
  "reads_back fmt j \<longleftrightarrow> (\<forall>r m. delim r \<longrightarrow> 2 * length (json_stringify fmt j @ r) + 2 \<le> m \<longrightarrow>
     parse_value m (json_stringify fmt j @ r) = Some (j, r))"

lemma delim_comma [simp]: "delim (44 # r)" "delim (93 # r)" "delim (125 # r)" "delim []"
  by (simp_all add: delim_def)

lemma parse_elems_commas:
  assumes "vs \<noteq> []" "\<forall>v \<in> set vs. reads_back fmt v"
    "2 * length (commas (map (json_stringify fmt) vs) @ 93 # r) + 3 \<le> m"
  shows "parse_elems m acc (commas (map (json_stringify fmt) vs) @ 93 # r) = Some (JArr (acc @ vs), r)"
  using assms
proof (induction vs arbitrary: acc m)
  case (Cons v vs)
  obtain k where m: "m = Suc k" using Cons.prems(3) by (cases m) auto
  have rb: "reads_back fmt v" using Cons.prems(2) by simp
  show ?case
  proof (cases vs)
    case Nil
    then have "parse_value k (json_stringify fmt v @ 93 # r) = Some (v, 93 # r)"
      using rb Cons.prems(3) by (simp add: reads_back_def m)
    then show ?thesis by (simp add: m Nil parse_elems.simps)
  next
    case inner: (Cons w ws)
    let ?t = "commas (map (json_stringify fmt) vs) @ 93 # r"
    have "parse_value k (json_stringify fmt v @ 44 # ?t) = Some (v, 44 # ?t)"
      using rb Cons.prems(3) inner by (simp add: reads_back_def m)
    moreover have "parse_elems k (acc @ [v]) ?t = Some (JArr (acc @ [v] @ vs), r)"
      using Cons.IH [of k "acc @ [v]"] Cons.prems inner by (simp add: m)
    ultimately show ?thesis using inner by (simp add: m parse_elems.simps)
  qed
qed simp

definition member_text :: "(js_number \<Rightarrow> js_string) \<Rightarrow> js_string \<times> json \<Rightarrow> js_string" where
  "member_text fmt = (\<lambda>(k, v). quote_json k @ [58] @ json_stringify fmt v)"

lemma parse_members_one:
  assumes "reads_back fmt v" "2 * length (member_text fmt (k, v) @ u # r) + 3 \<le> Suc n" "u = 44 \<or> u = 125"
  shows "parse_members (Suc n) acc (member_text fmt (k, v) @ u # r) =
    (if u = 44 then parse_members n (jset k v acc) r else Some (JObj (jset k v acc), r))"
proof -
  have "parse_value n (json_stringify fmt v @ u # r) = Some (v, u # r)"
    using assms by (auto simp: reads_back_def member_text_def quote_json_def)
  moreover have "parse_string [] (quote_units k @ 34 # 58 # json_stringify fmt v @ u # r) =
      Some (k, 58 # json_stringify fmt v @ u # r)"
    using parse_string_quote [of "[]" k "58 # json_stringify fmt v @ u # r"] by simp
  ultimately show ?thesis
    using assms(3) by (auto simp: member_text_def quote_json_def parse_members.simps)
qed

lemma jset_fresh: "k \<notin> set (jkeys m) \<Longrightarrow> jset k v m = m @ [(k, v)]"
  by (induction m) (auto simp: jset_def jkeys_def)

lemma parse_members_commas:
  assumes "ms \<noteq> []" "\<forall>(k, v) \<in> set ms. reads_back fmt v" "jmap_ok (acc @ ms)"
    "2 * length (commas (map (member_text fmt) ms) @ 125 # r) + 3 \<le> m"
  shows "parse_members m acc (commas (map (member_text fmt) ms) @ 125 # r) = Some (JObj (acc @ ms), r)"
  using assms
proof (induction ms arbitrary: acc m)
  case (Cons kv ms)
  obtain k v where kv: "kv = (k, v)" by (cases kv)
  obtain n where m: "m = Suc n" using Cons.prems(4) by (cases m) auto
  have rb: "reads_back fmt v" using Cons.prems(2) by (simp add: kv)
  have fresh: "jset k v acc = acc @ [(k, v)]"
    using Cons.prems(3) by (intro jset_fresh) (auto simp: kv jmap_ok_def jkeys_def)
  show ?case
  proof (cases ms)
    case Nil
    then show ?thesis using parse_members_one [OF rb, of k 125 r n acc] Cons.prems(4)
      by (simp add: m kv fresh)
  next
    case inner: (Cons w ws)
    let ?t = "commas (map (member_text fmt) ms) @ 125 # r"
    have "parse_members n (acc @ [(k, v)]) ?t = Some (JObj ((acc @ [(k, v)]) @ ms), r)"
      by (rule Cons.IH) (use Cons.prems inner in \<open>simp_all add: m kv\<close>)
    then show ?thesis
      using parse_members_one [OF rb, of k 44 ?t n acc] Cons.prems(4) inner by (simp add: m kv fresh)
  qed
qed simp

lemma reads_back_list:
  assumes "\<forall>v \<in> set vs. reads_back fmt v" "\<forall>v \<in> set vs. json_ok fmt v"
  shows "reads_back fmt (JArr vs)"
  unfolding reads_back_def
proof (intro allI impI)
  fix r m assume m: "2 * length (json_stringify fmt (JArr vs) @ r) + 2 \<le> m"
  then obtain n where n: "m = Suc n" by (cases m) auto
  show "parse_value m (json_stringify fmt (JArr vs) @ r) = Some (JArr vs, r)"
  proof (cases vs)
    case Nil
    then show ?thesis by (simp add: n parse_value.simps)
  next
    case (Cons v ws)
    then obtain u t where u: "json_stringify fmt v = u # t" "\<not> json_ws u" "u \<noteq> 93"
      using stringify_head [of fmt v] assms(2) by auto
    have "\<exists>t'. commas (map (json_stringify fmt) vs) @ 93 # r = u # t'" using u(1) Cons by (cases ws) auto
    then obtain t' where t': "commas (map (json_stringify fmt) vs) @ 93 # r = u # t'" by blast
    have "parse_elems n [] (u # t') = Some (JArr ([] @ vs), r)"
      unfolding t' [symmetric] using Cons assms(1) m by (intro parse_elems_commas) (simp_all add: n)
    then show ?thesis using u t' by (simp add: n parse_value.simps)
  qed
qed

lemma reads_back_object:
  assumes "\<forall>(k, v) \<in> set ms. reads_back fmt v" "jmap_ok ms"
  shows "reads_back fmt (JObj ms)"
  unfolding reads_back_def
proof (intro allI impI)
  fix r m assume m: "2 * length (json_stringify fmt (JObj ms) @ r) + 2 \<le> m"
  then obtain n where n: "m = Suc n" by (cases m) auto
  have str: "json_stringify fmt (JObj ms) @ r = 123 # commas (map (member_text fmt) ms) @ 125 # r"
    by (simp add: member_text_def)
  show "parse_value m (json_stringify fmt (JObj ms) @ r) = Some (JObj ms, r)"
  proof (cases ms)
    case Nil
    then show ?thesis by (simp add: n parse_value.simps)
  next
    case (Cons kv ws)
    then have "\<exists>t'. commas (map (member_text fmt) ms) @ 125 # r = 34 # t'"
      by (cases kv; cases ws) (auto simp: member_text_def quote_json_def)
    then obtain t' where t': "commas (map (member_text fmt) ms) @ 125 # r = 34 # t'" by blast
    have "2 * length (commas (map (member_text fmt) ms) @ 125 # r) + 3 \<le> n"
      using m unfolding str n by simp
    then have "parse_members n [] (34 # t') = Some (JObj ([] @ ms), r)"
      unfolding t' [symmetric] using Cons assms by (intro parse_members_commas) simp_all
    then show ?thesis unfolding str t' by (simp add: n parse_value.simps)
  qed
qed

lemma reads_back_ok: "json_ok fmt j \<Longrightarrow> reads_back fmt j"
proof (induction j)
  case JNull
  have "parse_value (Suc n) (json_stringify fmt JNull @ r) = Some (JNull, r)" for n r
    by (simp add: parse_value.simps parse_literal_def)
  then show ?case by (auto simp: reads_back_def dest!: Suc_le_D)
next
  case (JBool b)
  have "parse_value (Suc n) (json_stringify fmt (JBool b) @ r) = Some (JBool b, r)" for n r
    by (cases b) (simp_all add: parse_value.simps parse_literal_def)
  then show ?case by (auto simp: reads_back_def simp del: json_stringify.simps dest!: Suc_le_D)
next
  case (JNum x)
  then obtain neg n d u t where x: "x = Fin neg n d" and u: "fmt x = u # t" "u = 45 \<or> is_digit u"
    and p: "\<And>r. delim r \<Longrightarrow> parse_number (u # t @ r) = Some (JNum x, r)"
    by (auto simp: fmt_ok_def split: list.splits)
  have "\<not> json_ws u" "u \<noteq> 123" "u \<noteq> 91" "u \<noteq> 34" using u(2) digit_not_ws [of u] by auto
  then have "parse_value (Suc k) (json_stringify fmt (JNum x) @ r) = Some (JNum x, r)" if "delim r" for k r
    using that p u by (simp add: x parse_value.simps parse_literal_number)
  then show ?case by (auto simp: reads_back_def simp del: json_stringify.simps dest!: Suc_le_D)
next
  case (JStr s)
  have "parse_value (Suc n) (json_stringify fmt (JStr s) @ r) = Some (JStr s, r)" for n r
    using parse_string_quote [of "[]" s r] by (simp add: parse_value.simps quote_json_def)
  then show ?case by (auto simp: reads_back_def simp del: json_stringify.simps dest!: Suc_le_D)
next
  case (JArr vs)
  then show ?case by (intro reads_back_list) (auto simp: list_all_iff)
next
  case (JObj ms)
  then show ?case by (intro reads_back_object) (auto simp: list_all_iff)
qed

lemma json_parse_stringify: "json_ok fmt j \<Longrightarrow> json_parse (json_stringify fmt j) = Some j"
  using reads_back_ok [of fmt j, unfolded reads_back_def, rule_format, of "[]"]
  by (simp add: json_parse_def skip_ws_def)

interpretation js: codec "json_stringify fmt" json_parse "json_ok fmt" for fmt
  by unfold_locales (rule json_parse_stringify)

section \<open>Fuel\<close>

lemma length_skip_ws: "length (skip_ws s) \<le> length s"
  by (simp add: skip_ws_def length_dropWhile_le)

lemma skip_ws_Cons: "skip_ws s = u # r \<Longrightarrow> length r < length s"
  using length_skip_ws [of s] by simp

lemma parse_string_shorter: "parse_string acc s = Some (t, r) \<Longrightarrow> length r < length s"
proof (induction acc s rule: parse_string.induct)
  case (1 acc s)
  from "1.prems" [unfolded parse_string.simps [of acc s]] "1.IH" show ?case
    by (auto split: list.splits if_splits option.splits) fastforce+
qed

lemma parse_literal_shorter: "parse_literal s = Some (v, r) \<Longrightarrow> length r < length s"
  by (cases s) (auto simp: parse_literal_def parse_number_def scan_number_def Let_def split: if_splits option.splits)

lemma parse_shorter:
  "parse_value n s = Some (v, r) \<Longrightarrow> length r < length s"
  "parse_elems n acc s = Some (v, r) \<Longrightarrow> length r < length s"
  "parse_members n ms s = Some (v, r) \<Longrightarrow> length r < length s"
proof (induction n s and n acc s and n ms s arbitrary: v r and v r and v r
    rule: parse_value_parse_elems_parse_members.induct)
  case (2 n s)
  then show ?case
    by (auto simp: parse_value.simps dest!: skip_ws_Cons parse_string_shorter parse_literal_shorter
        split: list.splits if_splits) fastforce+
next
  case (4 n acc s)
  then show ?case
    by (auto simp: parse_elems.simps dest!: skip_ws_Cons split: list.splits if_splits option.splits) fastforce+
next
  case (6 n acc s)
  then show ?case
    by (auto simp: parse_members.simps dest!: skip_ws_Cons parse_string_shorter split: list.splits if_splits option.splits)
      fastforce+
qed (simp_all add: parse_value.simps parse_elems.simps parse_members.simps)

text \<open>With fuel for twice the length, more fuel never changes the answer.\<close>

lemma parse_fuel_enough:
  "parse_value n s = Some x \<Longrightarrow> 2 * length s + 2 \<le> m \<Longrightarrow> parse_value m s = Some x"
  "parse_elems n acc s = Some x \<Longrightarrow> 2 * length s + 3 \<le> m \<Longrightarrow> parse_elems m acc s = Some x"
  "parse_members n ms s = Some x \<Longrightarrow> 2 * length s + 3 \<le> m \<Longrightarrow> parse_members m ms s = Some x"
proof (induction n s and n acc s and n ms s arbitrary: x m and x m and x m
    rule: parse_value_parse_elems_parse_members.induct)
  case (2 n s)
  obtain k where m: "m = Suc k" using "2.prems"(2) by (cases m) auto
  show ?case
  proof (cases "skip_ws s")
    case (Cons u r)
    then have k: "2 * length r + 3 \<le> k" using "2.prems"(2) skip_ws_Cons [OF Cons] by (simp add: m)
    show ?thesis
    proof (cases "u = 123 \<or> u = 91")
      case True
      then obtain v r' where v: "skip_ws r = v # r'"
        using "2.prems"(1) Cons by (auto simp: parse_value.simps split: list.splits)
      show ?thesis
      proof (cases "u = 123")
        case True
        then show ?thesis using "2.IH"(1) [OF Cons True v _ _ k] "2.prems"(1) Cons v
          by (simp add: parse_value.simps m split: if_splits)
      next
        case False
        then have "u = 91" using True by simp
        then show ?thesis using "2.IH"(2) [OF Cons False _ v _ _ k] "2.prems"(1) Cons v
          by (simp add: parse_value.simps m split: if_splits)
      qed
    next
      case False
      then show ?thesis using "2.prems"(1) Cons by (simp add: parse_value.simps m)
    qed
  qed (use 2 in \<open>simp add: parse_value.simps\<close>)
next
  case (4 n acc s)
  obtain k where m: "m = Suc k" using "4.prems"(2) by (cases m) auto
  obtain v r where v: "parse_value n s = Some (v, r)" using "4.prems"(1) by (auto simp: parse_elems.simps split: option.splits)
  have vk: "parse_value k s = Some (v, r)" using "4.IH"(1) [OF v] "4.prems"(2) by (simp add: m)
  show ?case
  proof (cases "skip_ws r")
    case (Cons u r')
    then have "length r' < length s" using skip_ws_Cons [OF Cons] parse_shorter(1) [OF v] by simp
    then have k: "2 * length r' + 3 \<le> k" using "4.prems"(2) by (simp add: m)
    show ?thesis
    proof (cases "u = 44")
      case True
      then have "parse_elems n (acc @ [v]) r' = Some x" using "4.prems"(1) Cons v by (simp add: parse_elems.simps)
      from "4.IH"(2) [OF v refl Cons True this k] show ?thesis using Cons True vk by (simp add: parse_elems.simps m)
    next
      case False
      then show ?thesis using "4.prems"(1) Cons v vk by (simp add: parse_elems.simps m)
    qed
  qed (use "4.prems" v in \<open>simp add: parse_elems.simps\<close>)
next
  case (6 n acc s)
  obtain k where m: "m = Suc k" using "6.prems"(2) by (cases m) auto
  from "6.prems"(1) obtain r0 key r1 r2 v r3 u r4 where
    q: "skip_ws s = 34 # r0" "parse_string [] r0 = Some (key, r1)" "skip_ws r1 = 58 # r2"
      "parse_value n r2 = Some (v, r3)" "skip_ws r3 = u # r4"
    by (auto simp: parse_members.simps split: list.splits if_splits option.splits)
  have len: "length r2 < length s" "length r4 < length s"
    using skip_ws_Cons [OF q(1)] parse_string_shorter [OF q(2)] skip_ws_Cons [OF q(3)] parse_shorter(1) [OF q(4)]
      skip_ws_Cons [OF q(5)] by linarith+
  have vk: "parse_value k r2 = Some (v, r3)"
  proof (rule "6.IH"(1) [OF q(1) _ q(2) refl q(3) _ q(4)])
    show "2 * length r2 + 2 \<le> k" using "6.prems"(2) len by (simp add: m)
  qed simp_all
  show ?case
  proof (cases "u = 44")
    case True
    then have nxt: "parse_members n (jset key v acc) r4 = Some x" using "6.prems"(1) q by (simp add: parse_members.simps)
    have "parse_members k (jset key v acc) r4 = Some x"
    proof (rule "6.IH"(2) [OF q(1) _ q(2) refl q(3) _ q(4) refl q(5) True nxt])
      show "2 * length r4 + 3 \<le> k" using "6.prems"(2) len by (simp add: m)
    qed simp_all
    then show ?thesis using q True vk by (simp add: parse_members.simps m)
  next
    case False
    then show ?thesis using "6.prems"(1) q vk by (simp add: parse_members.simps m)
  qed
qed (simp_all add: parse_value.simps parse_elems.simps parse_members.simps)

section \<open>Natural numbers\<close>

definition fmt_nat :: "js_number \<Rightarrow> js_string" where
  "fmt_nat x = (case js_integer x of Some i \<Rightarrow> js_of_nat (nat i) | None \<Rightarrow> [])"

lemma scan_digits:
  assumes "s \<noteq> []" "\<forall>u \<in> set s. is_digit u" "hd s = 48 \<Longrightarrow> s = [48]" "delim r"
  shows "scan_number (s @ r) = Some s"
proof -
  obtain u t where s: "s = u # t" using assms(1) by (cases s) auto
  have d: "is_digit u" using assms(2) s by simp
  have nr: "takeWhile is_digit r = []" "dropWhile is_digit r = r" "scan_fraction r = []" "scan_exponent r = []"
    using assms(4) by (auto simp: delim_def scan_fraction_def scan_exponent_def is_digit_def split: list.splits)
  have "takeWhile is_digit (s @ r) = s" using assms(2) nr(1) by simp
  moreover have "u \<noteq> 45" using d by (auto simp: is_digit_def)
  ultimately show ?thesis
    using assms(3) nr unfolding scan_number_def by (cases "u = 48") (simp_all add: s Let_def)
qed

lemma js_of_nat_hd: "hd (js_of_nat n) = 48 \<Longrightarrow> js_of_nat n = [48]"
proof (induction n rule: js_of_nat.induct)
  case (1 n)
  show ?case
  proof (cases "n < 10")
    case True
    then show ?thesis using "1.prems" js_of_nat.simps [of n] by simp
  next
    case False
    have eq: "js_of_nat n = js_of_nat (n div 10) @ [of_nat (48 + n mod 10)]"
      using False by (subst js_of_nat.simps) simp
    then have "js_of_nat (n div 10) = [48]" using "1.IH" False "1.prems" by simp
    moreover have "0 < n div 10" using False by (simp add: div_greater_zero_iff)
    ultimately have "digits_val 10 0 [48] = Some (n div 10)" using digits_val_js_of_nat [of "n div 10"] by simp
    then show ?thesis using \<open>0 < n div 10\<close> by (simp add: digit_val_def)
  qed
qed

text \<open>The natural numbers below \<open>2 ^ 53\<close>, as the parser represents them, print and read back.\<close>

definition json_nat :: "nat \<Rightarrow> json" where
  "json_nat n = JNum (js_Number (js_of_nat n))"

lemma fmt_nat_ok:
  assumes "n < 2 ^ 53"
  shows "fmt_ok fmt_nat (js_Number (js_of_nat n))"
proof -
  let ?x = "js_Number (js_of_nat n)"
  have i: "js_integer ?x = Some (int n)" by (rule js_Number_js_of_nat [OF assms])
  then have f: "fmt_nat ?x = js_of_nat n" by (simp add: fmt_nat_def)
  have fin: "\<exists>neg k d. ?x = Fin neg k d" using i by (cases ?x) auto
  obtain u t where u: "js_of_nat n = u # t" using js_of_nat_not_Nil by (cases "js_of_nat n") auto
  then have hd: "case js_of_nat n of [] \<Rightarrow> False | u # _ \<Rightarrow> u = 45 \<or> is_digit u"
    using js_of_nat_digits [of u n] by simp
  have pn: "\<forall>r. delim r \<longrightarrow> parse_number (js_of_nat n @ r) = Some (JNum ?x, r)"
    using scan_digits [of "js_of_nat n"] js_of_nat_digits js_of_nat_hd by (simp add: parse_number_def)
  from fin hd pn show ?thesis unfolding fmt_ok_def f by blast
qed

end
