(* ===== verification/HTTP.thy ===== *)
theory HTTP
  imports JSON
begin

text \<open>
  What the sources use of \<open>fetch\<close>: a request with its method, headers and body, and a response with a status and
  a body that may fail to parse. The network is a function from requests to responses, \<open>None\<close> for a rejected promise.
  Also the reading of untyped JSON values as the sources do it: property access and truth.
\<close>

datatype http_method = GET | POST | PUT | PATCH | DELETE

record http_request =
  rq_url :: js_string
  rq_method :: http_method
  rq_headers :: "(js_string \<times> js_string) list"
  rq_body :: "js_string option"

text \<open>\<open>res.json()\<close> is \<open>rs_json\<close>, \<open>None\<close> if it rejects.\<close>

record http_response =
  rs_status :: nat
  rs_json :: "json option"

type_synonym network = "http_request \<Rightarrow> http_response option"

definition rs_ok :: "http_response \<Rightarrow> bool" where
  "rs_ok r \<longleftrightarrow> 200 \<le> rs_status r \<and> rs_status r < 300"

text \<open>\<open>v.key\<close> on a value that is not \<open>null\<close>: only objects have the members the sources read.\<close>

fun jfield :: "js_string \<Rightarrow> json \<Rightarrow> json option" where
  "jfield k (JObj ms) = jget ms k"
| "jfield k _ = None"

fun truthy :: "json \<Rightarrow> bool" where
  "truthy JNull = False"
| "truthy (JBool b) = b"
| "truthy (JNum x) = (case x of NaN \<Rightarrow> False | Fin _ n _ \<Rightarrow> n \<noteq> 0 | _ \<Rightarrow> True)"
| "truthy (JStr s) = (s \<noteq> [])"
| "truthy _ = True"

definition truthy_opt :: "json option \<Rightarrow> bool" where
  "truthy_opt v = (case v of None \<Rightarrow> False | Some j \<Rightarrow> truthy j)"

text \<open>\<open>v ?? d\<close> for a property: \<open>null\<close> counts as absent.\<close>

definition nullish :: "json option \<Rightarrow> json option" where
  "nullish v = (case v of Some JNull \<Rightarrow> None | _ \<Rightarrow> v)"

definition json_headers :: "js_string \<Rightarrow> (js_string \<times> js_string) list" where
  "json_headers tok = [(js_of ''Content-Type'', js_of ''application/json''),
     (js_of ''Authorization'', js_of ''Bearer '' @ tok)]"

end
