(* ===== verification/Channel.thy ===== *)
theory Channel
  imports Client_Behaviour HTTP
begin

text \<open>
  \<open>sdk-typescript/src/channel.ts\<close>: named events over one channel. An event is a \<open>publish\<close> of the JSON text
  \<open>{"event": ..., "data": ...}\<close>; \<open>on\<close> wraps a handler so that it sees the envelopes of its event only. The
  locale \<open>channel_transport\<close> is the interface \<open>ChannelTransport\<close> that a handle needs of its adapter, and
  \<open>RealtimeClient\<close> is shown to provide it. Also \<open>RealtimeClient.publishTemplate\<close>, the one method that
  goes over HTTP.
\<close>

section \<open>Envelopes\<close>

type_synonym envelope = "js_string \<times> json option"

definition key_event :: js_string where "key_event = js_of ''event''"
definition key_data :: js_string where "key_data = js_of ''data''"

text \<open>\<open>data === undefined\<close> is \<open>None\<close>.\<close>

definition encodeEnvelope :: "(js_number \<Rightarrow> js_string) \<Rightarrow> js_string \<Rightarrow> json option \<Rightarrow> js_string" where
  "encodeEnvelope fmt event data =
     json_stringify fmt (JObj (case data of
        None \<Rightarrow> [(key_event, JStr event)]
      | Some d \<Rightarrow> [(key_event, JStr event), (key_data, d)]))"

definition tryDecodeEnvelope :: "js_string \<Rightarrow> envelope option" where
  "tryDecodeEnvelope payload =
     (case json_parse payload of
        None \<Rightarrow> None
      | Some parsed \<Rightarrow>
          (case jfield key_event parsed of
             Some (JStr e) \<Rightarrow> Some (e, jfield key_data parsed)
           | _ \<Rightarrow> None))"

section \<open>Handles\<close>

record channel_handle =
  cx_channelId :: js_string

text \<open>The wrapper that \<open>on\<close> subscribes: the calls of the application's handler it makes for a message.\<close>

definition on_wrapper :: "js_string \<Rightarrow> 'h \<Rightarrow> realtime_message \<Rightarrow> ('h \<times> json option \<times> realtime_message) list" where
  "on_wrapper event h message =
     (case tryDecodeEnvelope (rm_payload message) of
        None \<Rightarrow> []
      | Some (e, d) \<Rightarrow> if e = event then [(h, d, message)] else [])"

definition handle_on :: "channel_handle \<Rightarrow> handler \<Rightarrow> operation" where
  "handle_on ch wrapper = subscribe (cx_channelId ch) wrapper"

definition handle_emit :: "(nat \<Rightarrow> rat) \<Rightarrow> (js_number \<Rightarrow> js_string) \<Rightarrow> channel_handle \<Rightarrow> js_string \<Rightarrow> json option \<Rightarrow> operation" where
  "handle_emit rnd fmt ch event data = publish rnd (cx_channelId ch) (encodeEnvelope fmt event data)"

text \<open>\<open>RealtimeClient.channel\<close>\<close>

definition channel :: "js_string \<Rightarrow> channel_handle" where
  "channel channelId = \<lparr>cx_channelId = channelId\<rparr>"

section \<open>The interface of a transport\<close>

text \<open>
  What a handle relies on: \<open>subscribe\<close> adds the handler to its channel and to no other, the returned
  function takes it away again, \<open>publish\<close> hands the frames of the payload on in order, and all keep the transport's invariant.
\<close>

locale channel_transport =
  fixes subscr :: "js_string \<Rightarrow> handler \<Rightarrow> 's \<Rightarrow> 's"
    and unsubscr :: "js_string \<Rightarrow> handler \<Rightarrow> 's \<Rightarrow> 's"
    and publ :: "js_string \<Rightarrow> js_string \<Rightarrow> 's \<Rightarrow> 's"
    and handlers :: "'s \<Rightarrow> js_string \<Rightarrow> handler set"
    and outbox :: "'s \<Rightarrow> 'f list"
    and frames :: "'s \<Rightarrow> js_string \<Rightarrow> js_string \<Rightarrow> 'f list"
    and ok :: "'s \<Rightarrow> bool"
  assumes subscr_handlers: "ok s \<Longrightarrow> handlers (subscr ch h s) ch' = handlers s ch' \<union> (if ch' = ch then {h} else {})"
    and unsubscr_handlers: "ok s \<Longrightarrow> handlers (unsubscr ch h s) ch' = handlers s ch' - (if ch' = ch then {h} else {})"
    and publ_outbox: "ok s \<Longrightarrow> outbox (publ ch p s) = outbox s @ frames s ch p"
    and ok_subscr: "ok s \<Longrightarrow> ok (subscr ch h s)"
    and ok_unsubscr: "ok s \<Longrightarrow> ok (unsubscr ch h s)"
    and ok_publ: "ok s \<Longrightarrow> ok (publ ch p s)"
begin

text \<open>Registering and then unregistering a fresh handler restores every channel.\<close>

lemma on_off_restores:
  "ok s \<Longrightarrow> h \<notin> handlers s ch \<Longrightarrow> handlers (unsubscr ch h (subscr ch h s)) ch' = handlers s ch'"
  by (simp add: unsubscr_handlers ok_subscr subscr_handlers)

text \<open>Handlers of several events share the channel's subscription without disturbing each other.\<close>

lemma on_many:
  "ok s \<Longrightarrow> handlers (fold (subscr ch) hs s) ch = handlers s ch \<union> set hs"
  by (induction hs arbitrary: s) (auto simp: subscr_handlers ok_subscr)

end

section \<open>RealtimeClient is a transport\<close>

definition client_handlers :: "client \<Rightarrow> js_string \<Rightarrow> handler set" where
  "client_handlers c ch = (case jget (rc_subscriptions c) ch of None \<Rightarrow> {} | Some hs \<Rightarrow> set hs)"

definition transport_ok :: "client \<Rightarrow> bool" where
  "transport_ok c \<longleftrightarrow> client_ok c \<and> wire_ok c \<and> valid_tenant c"

lemma subs_send [simp]: "rc_subscriptions (snd (send a c)) = rc_subscriptions c"
  using send_writes_log [of a c] by auto

lemma subs_subscribe: "rc_subscriptions (snd (subscribe ch h c)) =
    jset ch (set_add h (case jget (rc_subscriptions c) ch of Some s \<Rightarrow> s | None \<Rightarrow> [])) (rc_subscriptions c)"
  by (simp add: subscribe_def Let_def)

lemma handlers_subscribe:
  "client_handlers (snd (subscribe ch h c)) ch' = client_handlers c ch' \<union> (if ch' = ch then {h} else {})"
  by (auto simp: client_handlers_def subs_subscribe jmap_simps split: option.splits)

lemma handlers_unsubscribe:
  "client_handlers (snd (unsubscribeHandler ch h c)) ch' = client_handlers c ch' - (if ch' = ch then {h} else {})"
proof (cases "jget (rc_subscriptions c) ch")
  case None
  then show ?thesis by (simp add: unsubscribeHandler_def client_handlers_def)
next
  case (Some hs)
  show ?thesis
  proof (cases "set_remove h hs = []")
    case True
    then have "set hs - {h} = {}" using set_set_remove [of h hs] by simp
    moreover have "rc_subscriptions (snd (unsubscribeHandler ch h c)) = jdelete ch (rc_subscriptions c)"
      using Some True by (simp add: unsubscribeHandler_def Let_def)
    ultimately show ?thesis using Some by (auto simp: client_handlers_def jmap_simps)
  next
    case False
    then have "rc_subscriptions (snd (unsubscribeHandler ch h c)) = jset ch (set_remove h hs) (rc_subscriptions c)"
      using Some by (simp add: unsubscribeHandler_def Let_def)
    then show ?thesis using Some by (auto simp: client_handlers_def jmap_simps)
  qed
qed

lemma transport_ok_handle: "enabled i c \<Longrightarrow> transport_ok c \<Longrightarrow> transport_ok (snd (handle i c))"
  using client_ok_handle wire_ok_handle config_handle by (auto simp: transport_ok_def)

interpretation tp: channel_transport "\<lambda>ch h c. snd (subscribe ch h c)" "\<lambda>ch h c. snd (unsubscribeHandler ch h c)"
  "\<lambda>ch p c. snd (publish rnd ch p c)" client_handlers queue_seq
  "\<lambda>c ch p. accepted (rf_maxMessageBytes (rc_config c)) (In_Publish rnd ch p)" transport_ok for rnd
proof unfold_locales
  fix ch h p c
  assume ok: "transport_ok c"
  show "queue_seq (snd (publish rnd ch p c)) =
      queue_seq c @ accepted (rf_maxMessageBytes (rc_config c)) (In_Publish rnd ch p)"
    using queue_seq_handle [of c "In_Publish rnd ch p"] ok by (simp add: transport_ok_def)
  show "transport_ok (snd (subscribe ch h c))" using transport_ok_handle [OF _ ok, of "In_Subscribe ch h"] by simp
  show "transport_ok (snd (unsubscribeHandler ch h c))" using transport_ok_handle [OF _ ok, of "In_Unsubscribe ch h"] by simp
  show "transport_ok (snd (publish rnd ch p c))" using transport_ok_handle [OF _ ok, of "In_Publish rnd ch p"] by simp
qed (simp_all add: handlers_subscribe handlers_unsubscribe)

section \<open>Templates over HTTP\<close>

datatype template_error =
    Token_Error client_error
  | Network_Error
  | Body_Error
  | Rejected "json option" nat

definition template_request ::
    "(js_number \<Rightarrow> js_string) \<Rightarrow> resolved_config \<Rightarrow> js_string \<Rightarrow> js_string \<Rightarrow> js_string \<Rightarrow> (js_string \<times> js_string) list \<Rightarrow> http_request" where
  "template_request fmt cfg tok channelId templateId variables =
     \<lparr>rq_url = httpBaseUrl (rf_url cfg) @ js_of ''/api/v1/messages/template'', rq_method = POST,
      rq_headers = json_headers tok,
      rq_body = Some (json_stringify fmt (JObj
        [(js_of ''tenant_id'', JStr (rf_tenantId cfg)), (js_of ''channel_id'', JStr channelId),
         (js_of ''template_id'', JStr templateId),
         (js_of ''variables'', JObj (map (\<lambda>(k, v). (k, JStr v)) variables))]))\<rparr>"

definition publishTemplate ::
    "network \<Rightarrow> (client_error + js_string) \<Rightarrow> (js_number \<Rightarrow> js_string) \<Rightarrow> resolved_config \<Rightarrow> js_string \<Rightarrow> js_string \<Rightarrow>
     (js_string \<times> js_string) list \<Rightarrow> template_error + unit" where
  "publishTemplate fetch fresh_token fmt cfg channelId templateId variables =
     (case resolveHttpToken fresh_token cfg of
        Inl e \<Rightarrow> Inl (Token_Error e)
      | Inr tok \<Rightarrow>
          (case fetch (template_request fmt cfg tok channelId templateId variables) of
             None \<Rightarrow> Inl Network_Error
           | Some res \<Rightarrow>
               (case rs_json res of
                  None \<Rightarrow> Inl Body_Error
                | Some JNull \<Rightarrow> Inl Body_Error
                | Some body \<Rightarrow>
                    if truthy_opt (jfield (js_of ''success'') body) then Inr ()
                    else Inl (Rejected (case nullish (jfield (js_of ''error'') body) of
                        None \<Rightarrow> None
                      | Some er \<Rightarrow> nullish (jfield (js_of ''message'') er)) (rs_status res)))))"

section \<open>Properties\<close>

lemma jget_two [simp]:
  "jget [(key_event, a), (key_data, b)] key_event = Some a"
  "jget [(key_event, a), (key_data, b)] key_data = Some b"
  "jget [(key_event, a)] key_event = Some a" "jget [(key_event, a)] key_data = None"
  by (simp_all add: jget_def key_event_def key_data_def)

lemma decode_encode_envelope:
  assumes "\<And>d. data = Some d \<Longrightarrow> json_ok fmt d"
  shows "tryDecodeEnvelope (encodeEnvelope fmt event data) = Some (event, data)"
proof -
  let ?j = "JObj (case data of None \<Rightarrow> [(key_event, JStr event)] | Some d \<Rightarrow> [(key_event, JStr event), (key_data, d)])"
  have "json_ok fmt ?j"
    using assms by (auto simp: jmap_ok_def jkeys_def key_event_def key_data_def split: option.split)
  then have "json_parse (encodeEnvelope fmt event data) = Some ?j"
    unfolding encodeEnvelope_def by (rule js.dec_enc)
  then show ?thesis by (simp add: tryDecodeEnvelope_def split: option.split)
qed

text \<open>
  The JSON text of an envelope is read back: \<open>tryDecodeEnvelope\<close> returns the event and the data that
  \<open>encodeEnvelope\<close> was given, absent data included. Of the printing of numbers it needs only that the parser reads each number back.
\<close>

theorem envelope_roundtrip:
  assumes "\<And>d. data = Some d \<Longrightarrow> json_ok fmt d"
  shows "tryDecodeEnvelope (encodeEnvelope fmt event data) = Some (event, data)"
  using assms by (rule decode_encode_envelope)

theorem envelope_roundtrip_witness:
  "tryDecodeEnvelope (encodeEnvelope fmt_nat (js_of ''typing'')
     (Some (JObj [(js_of ''who'', JStr [0xE9, 34, 10, 0xD800]), (js_of ''n'', JArr [json_nat 42, JNull, JBool True])]))) =
   Some (js_of ''typing'', Some (JObj [(js_of ''who'', JStr [0xE9, 34, 10, 0xD800]), (js_of ''n'', JArr [json_nat 42, JNull, JBool True])]))"
proof -
  have "fmt_ok fmt_nat (js_Number (js_of_nat 42))" by (rule fmt_nat_ok) simp
  then show ?thesis by (intro envelope_roundtrip) (auto simp: json_nat_def jmap_ok_def jkeys_def)
qed

text \<open>
  Event handlers on a channel: a handler registered for an event is called with the data exactly when an
  envelope of that event arrives, once; a handler for another event, or a payload that is no envelope, calls nothing.
\<close>

theorem channel_event_delivery:
  assumes "\<And>d. data = Some d \<Longrightarrow> json_ok fmt d" "rm_payload m = encodeEnvelope fmt event data"
  shows "on_wrapper event' h m = (if event' = event then [(h, data, m)] else [])"
  using decode_encode_envelope [OF assms(1)] by (simp add: on_wrapper_def assms(2))

theorem channel_event_delivery_witness:
  "on_wrapper (js_of ''b'') (1 :: nat) \<lparr>rm_channelId = [], rm_payload = encodeEnvelope fmt_nat (js_of ''a'') None,
     rm_tenantId = [], rm_receivedAt = 0\<rparr> = []"
  by (subst channel_event_delivery [of None fmt_nat _ "js_of ''a''"]) simp_all

text \<open>
  A client provides what a channel handle needs: registering handlers \<open>hs\<close> through \<open>on\<close> adds exactly them to
  that channel, whatever their events, and the function \<open>on\<close> returns undoes a registration of a fresh handler on every channel.
\<close>

theorem channel_handle_registers:
  assumes "reachable c" "valid_tenant c"
  shows "client_handlers (fold (\<lambda>h c. snd (handle_on (channel ch) h c)) hs c) ch = client_handlers c ch \<union> set hs \<and>
    (h \<notin> client_handlers c ch \<longrightarrow>
      client_handlers (snd (unsubscribeHandler ch h (snd (handle_on (channel ch) h c)))) ch' = client_handlers c ch')"
proof -
  have ok: "transport_ok c" using reachable_ok [OF assms(1)] assms(2) by (simp add: transport_ok_def)
  show ?thesis using tp.on_many [OF ok] tp.on_off_restores [OF ok] by (simp add: handle_on_def channel_def)
qed

theorem channel_handle_registers_witness:
  "client_handlers (fold (\<lambda>h c. snd (handle_on (channel (js_of ''z'')) h c)) [1, 2] sample_open) (js_of ''z'') =
   client_handlers sample_open (js_of ''z'') \<union> {1, 2}"
  using channel_handle_registers [OF sample_open_reachable sample_open_parts(1), of "js_of ''z''" "[1, 2]"] by simp

text \<open>
  The HTTP base of a WebSocket URL: the scheme \<open>ws\<close> or \<open>wss\<close> becomes \<open>http\<close> or \<open>https\<close> and a final
  \<open>/ws\<close>, with or without a slash after it, is cut off; the rest of the URL is kept as it is.
\<close>

theorem httpBaseUrl_derived:
  "httpBaseUrl (js_of ''ws'' @ r @ js_of ''/ws'') = js_of ''http'' @ r \<and>
    httpBaseUrl (js_of ''ws'' @ r @ js_of ''/ws/'') = js_of ''http'' @ r"
proof
  show "httpBaseUrl (js_of ''ws'' @ r @ js_of ''/ws'') = js_of ''http'' @ r"
    by (simp add: httpBaseUrl_def starts_with_def ends_with_def Let_def)
  show "httpBaseUrl (js_of ''ws'' @ r @ js_of ''/ws/'') = js_of ''http'' @ r"
    by (simp add: httpBaseUrl_def starts_with_def ends_with_def Let_def)
qed

end
