(* ===== verification/Base64.thy ===== *)
theory Base64
  imports JS_Text
begin

text \<open>
  The platform's \<open>btoa\<close> and \<open>atob\<close>, and on top of them the URL-safe variant without padding that
  \<open>sdk-typescript/src/notifications.ts\<close> (and the portal's and the web client's push registration) use for keys:
  \<open>arrayBufferToBase64Url\<close> and \<open>base64UrlToUint8Array\<close>. Groups of three bytes are four sextets;
  the main fact is that the decoder undoes the encoder on every byte sequence.
\<close>

section \<open>Sextets\<close>

definition b64_char :: "nat \<Rightarrow> code_unit" where
  "b64_char n =
     (if n < 26 then of_nat (65 + n) else if n < 52 then of_nat (71 + n)
      else if n < 62 then of_nat (n - 4) else if n = 62 then 43 else 47)"

definition b64_val :: "code_unit \<Rightarrow> nat option" where
  "b64_val u = (let n = unat u in
     if 65 \<le> n \<and> n < 91 then Some (n - 65)
     else if 97 \<le> n \<and> n < 123 then Some (n - 71)
     else if 48 \<le> n \<and> n < 58 then Some (n + 4)
     else if n = 43 then Some 62 else if n = 47 then Some 63 else None)"

fun to_sextets :: "bytes \<Rightarrow> nat list" where
  "to_sextets [] = []"
| "to_sextets [a] = [unat a div 4, unat a mod 4 * 16]"
| "to_sextets [a, b] = [unat a div 4, unat a mod 4 * 16 + unat b div 16, unat b mod 16 * 4]"
| "to_sextets (a # b # c # r) =
     [unat a div 4, unat a mod 4 * 16 + unat b div 16, unat b mod 16 * 4 + unat c div 64, unat c mod 64] @ to_sextets r"

text \<open>Decoding drops the bits of an incomplete last byte.\<close>

fun of_sextets :: "nat list \<Rightarrow> bytes" where
  "of_sextets (w # x # y # z # r) =
     [of_nat (w * 4 + x div 16), of_nat (x mod 16 * 16 + y div 4), of_nat (y mod 4 * 64 + z)] @ of_sextets r"
| "of_sextets [w, x, y] = [of_nat (w * 4 + x div 16), of_nat (x mod 16 * 16 + y div 4)]"
| "of_sextets [w, x] = [of_nat (w * 4 + x div 16)]"
| "of_sextets _ = []"

section \<open>The platform functions\<close>

definition pad :: code_unit where "pad = 61"

definition btoa :: "bytes \<Rightarrow> js_string" where
  "btoa bs = (let s = map b64_char (to_sextets bs) in s @ replicate ((4 - length s mod 4) mod 4) pad)"

definition b64_space :: "code_unit \<Rightarrow> bool" where
  "b64_space u \<longleftrightarrow> u = 9 \<or> u = 10 \<or> u = 12 \<or> u = 13 \<or> u = 32"

text \<open>\<open>atob\<close>, the forgiving decoder of the platform; \<open>None\<close> is the \<open>InvalidCharacterError\<close>.\<close>

definition strip_pads :: "js_string \<Rightarrow> js_string" where
  "strip_pads s =
     (if length s mod 4 \<noteq> 0 then s
      else if s \<noteq> [] \<and> last s = pad
      then (let t = butlast s in if t \<noteq> [] \<and> last t = pad then butlast t else t)
      else s)"

definition atob :: "js_string \<Rightarrow> bytes option" where
  "atob s0 =
     (let s = strip_pads (filter (\<lambda>u. \<not> b64_space u) s0) in
      if length s mod 4 = 1 then None
      else map_option of_sextets (those (map b64_val s)))"

section \<open>The URL-safe variant\<close>

definition url_char :: "code_unit \<Rightarrow> code_unit" where
  "url_char u = (if u = 43 then 45 else if u = 47 then 95 else u)"

definition unurl_char :: "code_unit \<Rightarrow> code_unit" where
  "unurl_char u = (if u = 45 then 43 else if u = 95 then 47 else u)"

text \<open>\<open>replace(/=+$/, "")\<close>\<close>

definition strip_trailing :: "code_unit \<Rightarrow> js_string \<Rightarrow> js_string" where
  "strip_trailing x s = rev (dropWhile (\<lambda>u. u = x) (rev s))"

definition arrayBufferToBase64Url :: "bytes \<Rightarrow> js_string" where
  "arrayBufferToBase64Url bs = strip_trailing pad (map url_char (btoa bs))"

definition base64UrlToUint8Array :: "js_string \<Rightarrow> bytes option" where
  "base64UrlToUint8Array b64url =
     (let padded = b64url @ replicate ((4 - length b64url mod 4) mod 4) pad in atob (map unurl_char padded))"

section \<open>The round trip\<close>

lemma to_sextets_less: "x \<in> set (to_sextets bs) \<Longrightarrow> x < 64"
proof (induction bs rule: to_sextets.induct)
  case (2 a)
  then show ?case using unat_byte_less [of a] by auto
next
  case (3 a b)
  then show ?case using unat_byte_less [of a] unat_byte_less [of b] by auto
next
  case (4 a b c r)
  then show ?case using unat_byte_less [of a] unat_byte_less [of b] unat_byte_less [of c] by auto
qed simp

lemma byte_join: "unat a div 4 * 4 + (unat a mod 4 * 16 + n) div 16 = unat a" if "n < 16" for a :: byte
  using that by simp

lemma nibble_join: "(m * 16 + unat b div 16) mod 16 * 16 + (unat b mod 16 * 4 + n) div 4 = unat b" if "n < 4" for b :: byte
proof -
  have "unat b div 16 < 16" using unat_byte_less [of b] by simp
  then show ?thesis using that by simp
qed

lemma sextet_join: "(m * 4 + unat c div 64) mod 4 * 64 + unat c mod 64 = unat c" for c :: byte
proof -
  have "unat c div 64 < 4" using unat_byte_less [of c] by simp
  then show ?thesis by simp
qed

lemma of_to_sextets: "of_sextets (to_sextets bs) = bs"
proof (induction bs rule: to_sextets.induct)
  case (3 a b)
  have "unat b div 16 < 16" using unat_byte_less [of b] by simp
  then show ?case using byte_join [of "unat b div 16" a] nibble_join [of 0 "unat a mod 4" b] by simp
next
  case (4 a b c r)
  have "unat b div 16 < 16" "unat c div 64 < 4" using unat_byte_less [of b] unat_byte_less [of c] by simp_all
  then show ?case
    using 4 byte_join [of "unat b div 16" a] nibble_join [of "unat c div 64" "unat a mod 4" b] sextet_join [of "unat b mod 16" c]
    by simp
qed (simp_all add: byte_join [of 0, simplified])

lemma length_to_sextets: "length (to_sextets bs) mod 4 \<noteq> 1"
  by (induction bs rule: to_sextets.induct) simp_all

lemma unat_b64_char:
  "n < 64 \<Longrightarrow> unat (b64_char n) = (if n < 26 then 65 + n else if n < 52 then 71 + n else if n < 62 then n - 4
     else if n = 62 then 43 else 47)"
  by (auto simp: b64_char_def unat_of_nat_unit simp del: of_nat_add of_nat_diff)

lemma b64_char_props:
  assumes "n < 64"
  shows "b64_val (b64_char n) = Some n" "unurl_char (url_char (b64_char n)) = b64_char n"
    "url_char (b64_char n) \<noteq> pad" "\<not> b64_space (b64_char n)" "b64_char n \<noteq> pad"
proof -
  note u = unat_b64_char [OF assms]
  show "b64_val (b64_char n) = Some n" using assms by (auto simp: b64_val_def Let_def u)
  have ne: "b64_char n \<noteq> v" if "unat (b64_char n) \<noteq> unat v" for v using that by auto
  have "b64_char n \<noteq> 45" "b64_char n \<noteq> 95" "b64_char n \<noteq> 61" "b64_char n \<noteq> 9" "b64_char n \<noteq> 10"
    "b64_char n \<noteq> 12" "b64_char n \<noteq> 13" "b64_char n \<noteq> 32"
    using assms by (auto intro!: ne simp: u split: if_splits)
  then show "unurl_char (url_char (b64_char n)) = b64_char n" "url_char (b64_char n) \<noteq> pad"
    "\<not> b64_space (b64_char n)" "b64_char n \<noteq> pad"
    by (auto simp: unurl_char_def url_char_def pad_def b64_space_def)
qed

lemma strip_trailing_pads: "pad \<notin> set s \<Longrightarrow> strip_trailing pad (s @ replicate k pad) = s"
proof -
  assume "pad \<notin> set s"
  then have "dropWhile (\<lambda>u. u = pad) (rev s) = rev s" by (cases "rev s") (auto simp: in_set_conv_decomp)
  then show ?thesis by (simp add: strip_trailing_def dropWhile_append)
qed

lemma strip_pads_padded:
  assumes "pad \<notin> set s" "length s mod 4 \<noteq> 1"
  shows "strip_pads (s @ replicate ((4 - length s mod 4) mod 4) pad) = s"
proof -
  have "length s mod 4 < 4" by simp
  then consider "length s mod 4 = 0" | "length s mod 4 = 2" | "length s mod 4 = 3" using assms(2) by linarith
  then show ?thesis
  proof cases
    case 1
    moreover have "s \<noteq> [] \<Longrightarrow> last s \<noteq> pad" using assms(1) by (metis last_in_set)
    ultimately show ?thesis by (auto simp: strip_pads_def)
  next
    case 2
    then have "(length s + 2) mod 4 = 0" by presburger
    then show ?thesis using 2 by (simp add: strip_pads_def numeral_2_eq_2 butlast_append)
  next
    case 3
    then have "(length s + 1) mod 4 = 0" by presburger
    moreover have "s \<noteq> []" using 3 by auto
    then have "last s \<noteq> pad" using assms(1) by (metis last_in_set)
    ultimately show ?thesis using 3 by (simp add: strip_pads_def butlast_append)
  qed
qed

lemma those_map_Some: "(\<And>x. x \<in> set xs \<Longrightarrow> f x = Some (g x)) \<Longrightarrow> those (map f xs) = Some (map g xs)"
  by (induction xs) auto

lemma decode_encode_base64Url: "base64UrlToUint8Array (arrayBufferToBase64Url bs) = Some bs"
proof -
  let ?x = "to_sextets bs" let ?s = "map b64_char ?x" let ?u = "map url_char ?s"
  have lt: "\<And>n. n \<in> set ?x \<Longrightarrow> n < 64" by (rule to_sextets_less)
  have u: "pad \<notin> set ?u" "pad \<notin> set ?s" by (auto dest!: lt dest: b64_char_props(3) b64_char_props(5))
  have "url_char pad = pad" by (simp add: url_char_def pad_def)
  then have enc: "arrayBufferToBase64Url bs = ?u"
    using strip_trailing_pads [OF u(1)] by (simp add: arrayBufferToBase64Url_def btoa_def Let_def)
  have m: "map unurl_char ?u = ?s" using b64_char_props(2) lt by simp
  have up: "unurl_char pad = pad" by (simp add: unurl_char_def pad_def)
  have dec: "base64UrlToUint8Array ?u = atob (?s @ replicate ((4 - length ?s mod 4) mod 4) pad)"
    unfolding base64UrlToUint8Array_def Let_def map_append m by (simp only: length_map map_replicate up)
  have sp: "filter (\<lambda>u. \<not> b64_space u) (?s @ replicate k pad) = ?s @ replicate k pad" for k
    using b64_char_props(4) lt by (auto intro!: filter_True simp: b64_space_def pad_def)
  have "strip_pads (?s @ replicate ((4 - length ?s mod 4) mod 4) pad) = ?s"
    by (rule strip_pads_padded [OF u(2)]) (use length_to_sextets in simp)
  moreover have "those (map b64_val ?s) = Some ?x"
    using those_map_Some [of ?x "b64_val \<circ> b64_char" id] b64_char_props(1) lt by simp
  ultimately show ?thesis
    using length_to_sextets [of bs] unfolding enc dec atob_def sp by (simp add: of_to_sextets)
qed

interpretation b64: codec arrayBufferToBase64Url base64UrlToUint8Array "\<lambda>_. True"
  by unfold_locales (rule decode_encode_base64Url)

text \<open>
  Push keys survive their text form: for every byte sequence, \<open>base64UrlToUint8Array\<close> decodes what
  \<open>arrayBufferToBase64Url\<close> encodes, and the text contains neither padding nor the characters \<open>+\<close> and \<open>/\<close>.
\<close>

theorem base64Url_roundtrip:
  "base64UrlToUint8Array (arrayBufferToBase64Url bs) = Some bs \<and>
   pad \<notin> set (arrayBufferToBase64Url bs) \<and> 43 \<notin> set (arrayBufferToBase64Url bs) \<and> 47 \<notin> set (arrayBufferToBase64Url bs)"
proof -
  let ?u = "map url_char (map b64_char (to_sextets bs))"
  have u: "pad \<notin> set ?u" by (auto dest!: to_sextets_less b64_char_props(3))
  have "url_char pad = pad" by (simp add: url_char_def pad_def)
  then have "arrayBufferToBase64Url bs = ?u"
    using strip_trailing_pads [OF u] by (simp add: arrayBufferToBase64Url_def btoa_def Let_def)
  moreover have "url_char v \<noteq> 43" "url_char v \<noteq> 47" for v by (auto simp: url_char_def)
  then have "43 \<notin> set ?u" "47 \<notin> set ?u" by (metis image_iff set_map)+
  ultimately show ?thesis using decode_encode_base64Url [of bs] u by simp
qed

end
