(* ===== verification/Notifications.thy ===== *)
theory Notifications
  imports Channel Base64
begin

text \<open>
  \<open>sdk-typescript/src/notifications.ts\<close>: notifications for background tabs and Web Push registration. The browser (permission, visibility, service worker, push manager, network, storage, clock)
  is an argument; an asynchronous function is the sequence of calls it makes together with its result or the error
  it throws. The permission popup of the same file is in \<open>Popup\<close>.
\<close>

section \<open>Background notifications\<close>

datatype permission = Default | Granted | Denied

record browser =
  bw_window :: bool
  bw_notification :: bool
  bw_permission :: permission
  bw_visible :: bool
  bw_focus :: bool

definition isNotificationSupported :: "browser \<Rightarrow> bool" where
  "isNotificationSupported b \<longleftrightarrow> bw_window b \<and> bw_notification b"

text \<open>The argument is the user's answer to the browser's prompt.\<close>

definition requestNotificationPermission :: "browser \<Rightarrow> permission \<Rightarrow> permission" where
  "requestNotificationPermission b answer = (if \<not> isNotificationSupported b then Denied else answer)"

record notification_options =
  no_filter :: "(realtime_message \<Rightarrow> bool) option"
  no_title :: "(realtime_message \<Rightarrow> js_string) option"
  no_body :: "(realtime_message \<Rightarrow> js_string) option"
  no_icon :: "js_string option"
  no_onClick :: bool

record native_notification =
  nn_title :: js_string
  nn_body :: js_string
  nn_icon :: "js_string option"

definition showBackgroundNotification ::
    "browser \<Rightarrow> realtime_message \<Rightarrow> notification_options \<Rightarrow> native_notification option" where
  "showBackgroundNotification b message options =
     (if \<not> isNotificationSupported b then None
      else if bw_permission b \<noteq> Granted then None
      else if bw_visible b \<and> bw_focus b then None
      else if (case no_filter options of Some f \<Rightarrow> \<not> f message | None \<Rightarrow> False) then None
      else Some \<lparr>nn_title = (case no_title options of Some f \<Rightarrow> f message | None \<Rightarrow> rm_channelId message),
                 nn_body = (case no_body options of Some f \<Rightarrow> f message | None \<Rightarrow> rm_payload message),
                 nn_icon = no_icon options\<rparr>)"

text \<open>A click on it: the window takes the focus, then the application's callback runs, if it gave one.\<close>

datatype click_effect = Focus_Window | On_Click realtime_message

definition notification_click :: "notification_options \<Rightarrow> realtime_message \<Rightarrow> click_effect list" where
  "notification_click options message = Focus_Window # (if no_onClick options then [On_Click message] else [])"

text \<open>The listener \<open>l\<close> stands for the arrow function that shows a notification.\<close>

definition attachBackgroundNotifications :: "browser \<Rightarrow> nat \<Rightarrow> client \<Rightarrow> client" where
  "attachBackgroundNotifications b l c =
     (if \<not> isNotificationSupported b then c
      else c\<lparr>rc_listeners := on_event EvMessage l (rc_listeners c)\<rparr>)"

section \<open>Device labels\<close>

definition ua_has :: "js_string \<Rightarrow> string \<Rightarrow> bool" where
  "ua_has ua p = js_includes ua (js_of p)"

definition device_os :: "js_string \<Rightarrow> js_string option" where
  "device_os ua =
     (if ua_has ua ''iPhone'' then Some (js_of ''iPhone'')
      else if ua_has ua ''iPad'' then Some (js_of ''iPad'')
      else if ua_has ua ''Android'' then Some (js_of ''Android'')
      else if ua_has ua ''Mac OS X'' then Some (js_of ''Mac'')
      else if ua_has ua ''Windows'' then Some (js_of ''Windows'')
      else if ua_has ua ''Linux'' then Some (js_of ''Linux'')
      else None)"

definition device_browser :: "js_string \<Rightarrow> js_string option" where
  "device_browser ua =
     (if ua_has ua ''Edg/'' then Some (js_of ''Edge'')
      else if ua_has ua ''OPR/'' then Some (js_of ''Opera'')
      else if ua_has ua ''Chrome/'' then Some (js_of ''Chrome'')
      else if ua_has ua ''CriOS/'' then Some (js_of ''Chrome'')
      else if ua_has ua ''FxiOS/'' then Some (js_of ''Firefox'')
      else if ua_has ua ''Firefox/'' then Some (js_of ''Firefox'')
      else if ua_has ua ''Safari/'' then Some (js_of ''Safari'')
      else None)"

definition guessDeviceLabel :: "js_string option \<Rightarrow> js_string" where
  "guessDeviceLabel userAgent =
     (case userAgent of
        None \<Rightarrow> js_of ''Unknown device''
      | Some ua \<Rightarrow>
          (case (device_browser ua, device_os ua) of
             (Some br, Some os) \<Rightarrow> br @ js_of '' on '' @ os
           | (Some br, None) \<Rightarrow> br
           | (None, Some os) \<Rightarrow> os
           | (None, None) \<Rightarrow> js_of ''Unknown device''))"

section \<open>Web push\<close>

record push_subscription =
  ps_endpoint :: js_string
  ps_p256dh :: "bytes option"
  ps_auth :: "bytes option"

record push_info =
  pi_endpoint :: js_string
  pi_p256dh :: js_string
  pi_auth :: js_string

datatype push_error =
    Permission_Was permission
  | No_Service_Worker
  | Worker_Failed
  | Invalid_Key
  | Subscribe_Failed
  | Missing_Keys
  | Unsubscribe_Failed
  | Fetch_Failed
  | Registration_Failed nat
  | Removal_Failed nat
  | Web_Push_Unsupported

record push_env =
  pe_browser :: browser
  pe_answer :: permission
  pe_serviceWorker :: bool
  pe_register :: bool
  pe_existing :: "push_subscription option"
  pe_subscribe :: "bytes \<Rightarrow> push_subscription option"
  pe_unsubscribe :: "bool option"
  pe_fetch :: network
  pe_userAgent :: "js_string option"

datatype push_call =
    Ask_Permission
  | Register_Worker js_string
  | Get_Subscription
  | Subscribe_Push bytes
  | Unsubscribe_Push
  | Fetch http_request

type_synonym 'a push_run = "(push_error + 'a) \<times> push_call list"

text \<open>Sequencing: the calls so far, then those of the rest if nothing was thrown.\<close>

definition push_bind :: "'a push_run \<Rightarrow> ('a \<Rightarrow> 'b push_run) \<Rightarrow> 'b push_run" where
  "push_bind p f =
     (case p of
        (Inl e, calls) \<Rightarrow> (Inl e, calls)
      | (Inr a, calls) \<Rightarrow> (let (r, more) = f a in (r, calls @ more)))"

definition toSubscriptionInfo :: "push_subscription \<Rightarrow> push_error + push_info" where
  "toSubscriptionInfo s =
     (case (ps_p256dh s, ps_auth s) of
        (Some p, Some a) \<Rightarrow>
          Inr \<lparr>pi_endpoint = ps_endpoint s, pi_p256dh = arrayBufferToBase64Url p, pi_auth = arrayBufferToBase64Url a\<rparr>
      | _ \<Rightarrow> Inl Missing_Keys)"

definition registerPushServiceWorker :: "push_env \<Rightarrow> js_string \<Rightarrow> unit push_run" where
  "registerPushServiceWorker env scriptUrl =
     (if \<not> pe_serviceWorker env then (Inl No_Service_Worker, [])
      else (if pe_register env then Inr () else Inl Worker_Failed, [Register_Worker scriptUrl]))"

definition subscribeToPush :: "push_env \<Rightarrow> js_string \<Rightarrow> push_info push_run" where
  "subscribeToPush env vapidPublicKeyB64Url =
     (case pe_existing env of
        Some existing \<Rightarrow> (toSubscriptionInfo existing, [Get_Subscription])
      | None \<Rightarrow>
          (case base64UrlToUint8Array vapidPublicKeyB64Url of
             None \<Rightarrow> (Inl Invalid_Key, [Get_Subscription])
           | Some key \<Rightarrow>
               (case pe_subscribe env key of
                  None \<Rightarrow> (Inl Subscribe_Failed, [Get_Subscription, Subscribe_Push key])
                | Some s \<Rightarrow> (toSubscriptionInfo s, [Get_Subscription, Subscribe_Push key]))))"

definition unsubscribeFromPush :: "push_env \<Rightarrow> bool push_run" where
  "unsubscribeFromPush env =
     (case pe_existing env of
        None \<Rightarrow> (Inr False, [Get_Subscription])
      | Some _ \<Rightarrow> (case pe_unsubscribe env of Some r \<Rightarrow> Inr r | None \<Rightarrow> Inl Unsubscribe_Failed,
                   [Get_Subscription, Unsubscribe_Push]))"

record push_options =
  po_apiBaseUrl :: js_string
  po_token :: js_string
  po_tenantId :: js_string
  po_vapidPublicKey :: js_string
  po_channels :: "js_string list option"
  po_swUrl :: "js_string option"
  po_deviceLabel :: "js_string option"

definition sw_url :: "push_options \<Rightarrow> js_string" where
  "sw_url options = or_default (po_swUrl options) (js_of ''/sw.js'')"

definition subscriptions_url :: "js_string \<Rightarrow> js_string" where
  "subscriptions_url base = base @ js_of ''/api/v1/push/subscriptions''"

definition registration_body :: "push_options \<Rightarrow> js_string option \<Rightarrow> push_info \<Rightarrow> json" where
  "registration_body options ua s = JObj
     [(js_of ''tenant_id'', JStr (po_tenantId options)),
      (js_of ''endpoint'', JStr (pi_endpoint s)),
      (js_of ''keys'', JObj [(js_of ''p256dh'', JStr (pi_p256dh s)), (js_of ''auth'', JStr (pi_auth s))]),
      (js_of ''channels'', JArr (map JStr (or_default (po_channels options) [js_of ''*'']))),
      (js_of ''device_label'', JStr (or_default (po_deviceLabel options) (guessDeviceLabel ua)))]"

definition push_fetch :: "push_env \<Rightarrow> http_request \<Rightarrow> (nat \<Rightarrow> push_error) \<Rightarrow> unit push_run" where
  "push_fetch env rq err =
     (case pe_fetch env rq of
        None \<Rightarrow> Inl Fetch_Failed
      | Some res \<Rightarrow> if rs_ok res then Inr () else Inl (err (rs_status res)), [Fetch rq])"

definition ask_permission :: "push_env \<Rightarrow> unit push_run" where
  "ask_permission env =
     (let permission = requestNotificationPermission (pe_browser env) (pe_answer env);
          calls = (if isNotificationSupported (pe_browser env) then [Ask_Permission] else []) in
      if permission \<noteq> Granted then (Inl (Permission_Was permission), calls) else (Inr (), calls))"

definition registration_request :: "(js_number \<Rightarrow> js_string) \<Rightarrow> push_options \<Rightarrow> js_string option \<Rightarrow> push_info \<Rightarrow> http_request" where
  "registration_request fmt options ua s =
     \<lparr>rq_url = subscriptions_url (po_apiBaseUrl options), rq_method = POST, rq_headers = json_headers (po_token options),
      rq_body = Some (json_stringify fmt (registration_body options ua s))\<rparr>"

definition registerWebPushSubscription :: "(js_number \<Rightarrow> js_string) \<Rightarrow> push_env \<Rightarrow> push_options \<Rightarrow> push_info push_run" where
  "registerWebPushSubscription fmt env options =
     push_bind (ask_permission env) (\<lambda>_.
     push_bind (registerPushServiceWorker env (sw_url options)) (\<lambda>_.
     push_bind (subscribeToPush env (po_vapidPublicKey options)) (\<lambda>subscription.
     push_bind (push_fetch env (registration_request fmt options (pe_userAgent env) subscription) Registration_Failed) (\<lambda>_.
     (Inr subscription, [])))))"

definition unregisterWebPushSubscription :: "(js_number \<Rightarrow> js_string) \<Rightarrow> push_env \<Rightarrow> push_options \<Rightarrow> bool push_run" where
  "unregisterWebPushSubscription fmt env options =
     push_bind (registerPushServiceWorker env (sw_url options)) (\<lambda>_.
     case pe_existing env of
       None \<Rightarrow> (Inr False, [Get_Subscription])
     | Some existing \<Rightarrow>
         push_bind (case pe_unsubscribe env of None \<Rightarrow> Inl Unsubscribe_Failed | Some _ \<Rightarrow> Inr (),
                    [Get_Subscription, Unsubscribe_Push]) (\<lambda>_.
         push_bind (push_fetch env
           \<lparr>rq_url = subscriptions_url (po_apiBaseUrl options), rq_method = DELETE,
            rq_headers = json_headers (po_token options),
            rq_body = Some (json_stringify fmt (JObj [(js_of ''tenant_id'', JStr (po_tenantId options)),
              (js_of ''endpoint'', JStr (ps_endpoint existing))]))\<rparr> Removal_Failed) (\<lambda>_.
         (Inr True, []))))"

section \<open>Properties\<close>

text \<open>
  A native notification is shown exactly when notifications are supported and granted, the page is hidden or
  without focus, and the filter, if there is one, lets the message pass. It then carries the application's title and body, or the channel
  and the payload.
\<close>

theorem background_notification_iff:
  "(showBackgroundNotification b m opts \<noteq> None) =
     (bw_window b \<and> bw_notification b \<and> bw_permission b = Granted \<and> \<not> (bw_visible b \<and> bw_focus b) \<and>
      (case no_filter opts of Some f \<Rightarrow> f m | None \<Rightarrow> True)) \<and>
   (case showBackgroundNotification b m opts of None \<Rightarrow> True
    | Some n \<Rightarrow> nn_title n = (case no_title opts of Some f \<Rightarrow> f m | None \<Rightarrow> rm_channelId m) \<and>
                nn_body n = (case no_body opts of Some f \<Rightarrow> f m | None \<Rightarrow> rm_payload m) \<and> nn_icon n = no_icon opts)"
  by (auto simp: showBackgroundNotification_def isNotificationSupported_def split: option.splits)

lemma push_bind_Inr:
  "push_bind p f = (Inr b, calls) \<longleftrightarrow>
     (\<exists>a calls1 calls2. p = (Inr a, calls1) \<and> f a = (Inr b, calls2) \<and> calls = calls1 @ calls2)"
  by (auto simp: push_bind_def split: sum.splits prod.splits)

lemma push_bind_calls:
  "set (snd (push_bind p f)) = set (snd p) \<union> (case fst p of Inl _ \<Rightarrow> {} | Inr a \<Rightarrow> set (snd (f a)))"
  by (auto simp: push_bind_def split: sum.splits prod.splits)

text \<open>No stage before the last one talks to the server.\<close>

definition no_fetch :: "push_call list \<Rightarrow> bool" where
  "no_fetch calls \<longleftrightarrow> (\<forall>rq. Fetch rq \<notin> set calls)"

lemma stages_no_fetch [simp]:
  "no_fetch (snd (ask_permission env))" "no_fetch (snd (registerPushServiceWorker env u))"
  "no_fetch (snd (subscribeToPush env k))" "no_fetch (snd (unsubscribeFromPush env))"
  by (auto simp: no_fetch_def ask_permission_def registerPushServiceWorker_def subscribeToPush_def unsubscribeFromPush_def
      Let_def split: option.split)

lemma body_ok: "json_ok fmt (registration_body options ua s)"
  by (auto simp: registration_body_def jmap_ok_def jkeys_def list_all_iff)

lemma ask_permission_Inr:
  "ask_permission env = (Inr (), calls) \<longleftrightarrow>
     isNotificationSupported (pe_browser env) \<and> pe_answer env = Granted \<and> calls = [Ask_Permission]"
  by (auto simp: ask_permission_def requestNotificationPermission_def Let_def)

lemma registerPushServiceWorker_Inr:
  "registerPushServiceWorker env u = (Inr (), calls) \<longleftrightarrow> pe_serviceWorker env \<and> pe_register env \<and> calls = [Register_Worker u]"
  by (auto simp: registerPushServiceWorker_def)

lemma push_fetch_Inr:
  "push_fetch env rq err = (Inr (), calls) \<longleftrightarrow> calls = [Fetch rq] \<and> (\<exists>res. pe_fetch env rq = Some res \<and> rs_ok res)"
  by (auto simp: push_fetch_def split: option.splits if_splits)

lemma snd_push_fetch [simp]: "snd (push_fetch env rq err) = [Fetch rq]"
  by (simp add: push_fetch_def)

lemma subscribeToPush_calls:
  "snd (subscribeToPush env k) = Get_Subscription # (case (pe_existing env, base64UrlToUint8Array k) of
     (None, Some key) \<Rightarrow> [Subscribe_Push key] | _ \<Rightarrow> [])"
  by (simp add: subscribeToPush_def split: option.split)

lemma registration_success:
  assumes "registerWebPushSubscription fmt env options = (Inr s, calls)"
  obtains rq res where "isNotificationSupported (pe_browser env)" "pe_answer env = Granted"
    "rq = registration_request fmt options (pe_userAgent env) s" "pe_fetch env rq = Some res" "rs_ok res"
    "fst (subscribeToPush env (po_vapidPublicKey options)) = Inr s"
    "calls = [Ask_Permission, Register_Worker (sw_url options)] @
       snd (subscribeToPush env (po_vapidPublicKey options)) @ [Fetch rq]"
  using assms
  by (auto simp: registerWebPushSubscription_def push_bind_Inr ask_permission_Inr registerPushServiceWorker_Inr push_fetch_Inr)

lemma registration_fetch:
  assumes "Fetch rq \<in> set (snd (registerWebPushSubscription fmt env options))"
  shows "pe_answer env = Granted \<and> pe_register env \<and>
    (\<exists>s. fst (subscribeToPush env (po_vapidPublicKey options)) = Inr s \<and> rq = registration_request fmt options (pe_userAgent env) s)"
proof -
  obtain r1 c1 r2 c2 r3 c3 where st: "ask_permission env = (r1, c1)" "registerPushServiceWorker env (sw_url options) = (r2, c2)"
    "subscribeToPush env (po_vapidPublicKey options) = (r3, c3)" by fastforce
  have nf: "no_fetch c1" "no_fetch c2" "no_fetch c3"
    using stages_no_fetch(1) [of env] stages_no_fetch(2) [of env "sw_url options"]
      stages_no_fetch(3) [of env "po_vapidPublicKey options"] st by simp_all
  show ?thesis
    using assms nf ask_permission_Inr [of env c1] registerPushServiceWorker_Inr [of env "sw_url options" c2]
    by (auto simp: registerWebPushSubscription_def push_bind_calls st no_fetch_def split: sum.splits)
qed

text \<open>
  Registering a device for Web Push. The server is asked only after the user granted the permission, the worker was
  registered and a complete subscription exists, and for no other subscription. When the call succeeds, its steps were the prompt, the worker, the
  subscription and then one \<open>POST\<close> whose body, read as JSON, is the subscription that is returned with its keys, channels and device label.
\<close>

theorem web_push_registration:
  "(\<forall>rq. Fetch rq \<in> set (snd (registerWebPushSubscription fmt env options)) \<longrightarrow> pe_answer env = Granted \<and> pe_register env \<and>
     (\<exists>s. fst (subscribeToPush env (po_vapidPublicKey options)) = Inr s \<and> rq = registration_request fmt options (pe_userAgent env) s)) \<and>
   (\<forall>s calls. registerWebPushSubscription fmt env options = (Inr s, calls) \<longrightarrow>
     (\<exists>rq. calls = [Ask_Permission, Register_Worker (sw_url options)] @
              snd (subscribeToPush env (po_vapidPublicKey options)) @ [Fetch rq] \<and> rq_method rq = POST \<and>
            json_parse (the (rq_body rq)) = Some (registration_body options (pe_userAgent env) s)))"
proof (intro conjI allI impI)
  fix rq assume "Fetch rq \<in> set (snd (registerWebPushSubscription fmt env options))"
  from registration_fetch [OF this] show "pe_answer env = Granted" "pe_register env"
    "\<exists>s. fst (subscribeToPush env (po_vapidPublicKey options)) = Inr s \<and> rq = registration_request fmt options (pe_userAgent env) s"
    by simp_all
next
  fix s calls assume "registerWebPushSubscription fmt env options = (Inr s, calls)"
  then obtain rq where rq: "rq = registration_request fmt options (pe_userAgent env) s"
    "calls = [Ask_Permission, Register_Worker (sw_url options)] @ snd (subscribeToPush env (po_vapidPublicKey options)) @ [Fetch rq]"
    by (rule registration_success)
  then show "\<exists>rq. calls = [Ask_Permission, Register_Worker (sw_url options)] @
       snd (subscribeToPush env (po_vapidPublicKey options)) @ [Fetch rq] \<and> rq_method rq = POST \<and>
     json_parse (the (rq_body rq)) = Some (registration_body options (pe_userAgent env) s)"
    using js.dec_enc [OF body_ok] by (auto simp: registration_request_def)
qed

definition sample_push_env :: push_env where
  "sample_push_env = \<lparr>pe_browser = \<lparr>bw_window = True, bw_notification = True, bw_permission = Default, bw_visible = True, bw_focus = True\<rparr>,
     pe_answer = Granted, pe_serviceWorker = True, pe_register = True,
     pe_existing = Some \<lparr>ps_endpoint = js_of ''e'', ps_p256dh = Some [1, 2], ps_auth = Some [3]\<rparr>,
     pe_subscribe = (\<lambda>_. None), pe_unsubscribe = Some True,
     pe_fetch = (\<lambda>_. Some \<lparr>rs_status = 201, rs_json = None\<rparr>), pe_userAgent = None\<rparr>"

definition sample_push_options :: push_options where
  "sample_push_options = \<lparr>po_apiBaseUrl = js_of ''https://h'', po_token = js_of ''t'', po_tenantId = js_of ''u'',
     po_vapidPublicKey = [], po_channels = None, po_swUrl = None, po_deviceLabel = None\<rparr>"

lemma sample_registers:
  "\<exists>s calls. registerWebPushSubscription fmt_nat sample_push_env sample_push_options = (Inr s, calls)"
  by (simp add: registerWebPushSubscription_def sample_push_env_def sample_push_options_def ask_permission_def
      requestNotificationPermission_def isNotificationSupported_def registerPushServiceWorker_def subscribeToPush_def toSubscriptionInfo_def
      push_fetch_def push_bind_def rs_ok_def Let_def)

theorem web_push_registration_witness:
  "\<exists>s calls rq. registerWebPushSubscription fmt_nat sample_push_env sample_push_options = (Inr s, calls) \<and>
     calls = [Ask_Permission, Register_Worker (js_of ''/sw.js''), Get_Subscription, Fetch rq] \<and>
     json_parse (the (rq_body rq)) = Some (registration_body sample_push_options None s)"
proof -
  obtain s calls where ok: "registerWebPushSubscription fmt_nat sample_push_env sample_push_options = (Inr s, calls)"
    using sample_registers by blast
  with web_push_registration [of fmt_nat sample_push_env sample_push_options] obtain rq where
    "calls = [Ask_Permission, Register_Worker (sw_url sample_push_options)] @ snd (subscribeToPush sample_push_env (po_vapidPublicKey sample_push_options)) @ [Fetch rq]"
    "json_parse (the (rq_body rq)) = Some (registration_body sample_push_options (pe_userAgent sample_push_env) s)" by blast
  then show ?thesis
    using ok by (auto simp: sw_url_def subscribeToPush_calls sample_push_env_def sample_push_options_def or_default_def)
qed

end
