(* ===== verification/Popup.thy ===== *)
theory Popup
  imports Notifications
begin

text \<open>
  The permission popup of \<open>sdk-typescript/src/notifications.ts\<close>: when \<open>showPushPermissionPopup\<close> shows it, the
  element tree it builds, and the machine of its buttons, its key listener and the outcome of the registration it starts.
  \<open>localStorage\<close> and the clock are arguments. The mutable part of the tree is a record, and \<open>popup_view\<close> is the
  tree in a given state. Times are natural numbers of milliseconds; the interval is an exact rational.
\<close>

section \<open>Options and storage\<close>

record popup_options = push_options +
  po_title :: "js_string option"
  po_description :: "js_string option"
  po_confirmLabel :: "js_string option"
  po_dismissAriaLabel :: "js_string option"
  po_accentColor :: "js_string option"
  po_theme :: "js_string option"
  po_position :: "js_string option"
  po_repromptIntervalDays :: "rat option"
  po_onSubscribed :: bool
  po_onError :: bool
  po_onDismiss :: bool

text \<open>\<open>localStorage\<close>: reading and writing may each throw.\<close>

record local_storage =
  ls_items :: "(js_string, js_string) jmap"
  ls_readable :: bool
  ls_writable :: bool

definition DISMISSED_AT_KEY_PREFIX :: js_string where
  "DISMISSED_AT_KEY_PREFIX = js_of ''mio_push_popup_dismissed_at:''"

definition dismissedAtKey :: "js_string \<Rightarrow> js_string" where
  "dismissedAtKey tenantId = DISMISSED_AT_KEY_PREFIX @ tenantId"

definition readDismissedAt :: "js_string \<Rightarrow> local_storage \<Rightarrow> js_number option" where
  "readDismissedAt tenantId st =
     (if \<not> ls_readable st then None
      else (case jget (ls_items st) (dismissedAtKey tenantId) of
          None \<Rightarrow> None
        | Some raw \<Rightarrow> if raw = [] then None else Some (js_Number raw)))"

definition writeDismissedAt :: "nat \<Rightarrow> js_string \<Rightarrow> local_storage \<Rightarrow> local_storage" where
  "writeDismissedAt now tenantId st =
     (if ls_writable st then st\<lparr>ls_items := jset (dismissedAtKey tenantId) (js_of_nat now) (ls_items st)\<rparr> else st)"

section \<open>Whether to show it\<close>

text \<open>\<open>Date.now() - dismissedAt < intervalMs\<close>; a comparison with NaN is false.\<close>

fun elapsed_less :: "nat \<Rightarrow> js_number \<Rightarrow> rat \<Rightarrow> bool" where
  "elapsed_less now NaN interval \<longleftrightarrow> False"
| "elapsed_less now (Infinite neg) interval \<longleftrightarrow> \<not> neg"
| "elapsed_less now (Fin neg n d) interval \<longleftrightarrow>
     of_nat now - (if neg then - (of_nat n / of_nat d) else of_nat n / of_nat d) < interval"

definition interval_ms :: "rat \<Rightarrow> rat" where
  "interval_ms days = days * 24 * 60 * 60 * 1000"

text \<open>The guards at the head of \<open>showPushPermissionPopup\<close>; \<open>days\<close> is the resolved \<open>repromptIntervalDays\<close>.\<close>

definition popup_allowed :: "browser \<Rightarrow> bool \<Rightarrow> nat \<Rightarrow> local_storage \<Rightarrow> js_string \<Rightarrow> rat \<Rightarrow> bool" where
  "popup_allowed b has_document now st tenantId days \<longleftrightarrow>
     has_document \<and> isNotificationSupported b \<and> bw_permission b = Default \<and>
     (case readDismissedAt tenantId st of
        None \<Rightarrow> True
      | Some dismissedAt \<Rightarrow>
          \<not> (interval_ms days \<le> 0 \<or> elapsed_less now dismissedAt (interval_ms days)))"

section \<open>The elements\<close>

type_synonym css = "(js_string \<times> js_string) list"

datatype element = Element (el_tag: string) (el_attrs: "(string \<times> js_string) list") (el_style: css)
  (el_text: js_string) (el_children: "element list")

definition css_of :: "(string \<times> string) list \<Rightarrow> css" where
  "css_of kvs = map (\<lambda>(k, v). (js_of k, js_of v)) kvs"

text \<open>A style property that was assigned the empty string is not set.\<close>

definition css_display :: "js_string \<Rightarrow> css" where
  "css_display v = (if v = [] then [] else [(js_of ''display'', v)])"

text \<open>The style sheet in the head of the document, added once.\<close>

definition POPUP_STYLE_ELEMENT_ID :: js_string where
  "POPUP_STYLE_ELEMENT_ID = js_of ''mio-push-popup-styles''"

definition popup_style_lines :: "string list" where
  "popup_style_lines =
     [''@keyframes mio-push-popup-indeterminate { 0% { transform: translateX(-100%); } 100% { transform: translateX(250%); } }'',
      ''@keyframes mio-push-popup-in { from { opacity: 0; transform: translateY(8px); } to { opacity: 1; transform: translateY(0); } }'',
      ''.mio-push-popup-confirm:hover:not(:disabled) { filter: brightness(0.92); }'',
      ''.mio-push-popup-dismiss:hover { opacity: 1 !important; }'']"

definition has_id :: "js_string \<Rightarrow> element \<Rightarrow> bool" where
  "has_id i e \<longleftrightarrow> (''id'', i) \<in> set (el_attrs e)"

definition ensurePopupStylesInjected :: "element list \<Rightarrow> element list" where
  "ensurePopupStylesInjected head =
     (if list_ex (has_id POPUP_STYLE_ELEMENT_ID) head then head
      else head @ [Element ''style'' [(''id'', POPUP_STYLE_ELEMENT_ID)] []
        (10 # concat (map (\<lambda>l. js_of l @ [10]) popup_style_lines)) []])"

record palette =
  pl_accent :: js_string
  pl_bg :: js_string
  pl_fg :: js_string
  pl_muted :: js_string
  pl_border :: js_string
  pl_error :: js_string

definition popup_palette :: "js_string option \<Rightarrow> js_string option \<Rightarrow> palette" where
  "popup_palette theme accentColor =
     (let dark = (theme = Some (js_of ''dark'')) in
      \<lparr>pl_accent = or_default accentColor (js_of ''#FF5E1A''),
       pl_bg = js_of (if dark then ''#1e1f26'' else ''#ffffff''),
       pl_fg = js_of (if dark then ''#f3f3f5'' else ''#1a1a1a''),
       pl_muted = js_of (if dark then ''#a3a3ab'' else ''#5f6368''),
       pl_border = js_of (if dark then ''#33343d'' else ''#e0e0e0''),
       pl_error = js_of (if dark then ''#ff8a8a'' else ''#c5221f'')\<rparr>)"

text \<open>\<open>s.split(sep)\<close> for a separator of one code unit.\<close>

fun js_split :: "code_unit \<Rightarrow> js_string \<Rightarrow> js_string list" where
  "js_split sep [] = [[]]"
| "js_split sep (u # us) =
     (if u = sep then [] # js_split sep us
      else (case js_split sep us of p # ps \<Rightarrow> (u # p) # ps | [] \<Rightarrow> [[u]]))"

text \<open>An absent element of a destructured array is \<open>undefined\<close>, which as a key is its name.\<close>

definition part_or_undefined :: "nat \<Rightarrow> js_string list \<Rightarrow> js_string" where
  "part_or_undefined i ps = (if i < length ps then ps ! i else js_of ''undefined'')"

definition position_style :: "js_string option \<Rightarrow> css" where
  "position_style position =
     (let ps = js_split 45 (or_default position (js_of ''bottom-right'')) in
      jset (part_or_undefined 1 ps) (js_of ''0'')
        (jset (part_or_undefined 0 ps) (js_of ''0'')
          (css_of [(''position'', ''fixed''), (''zIndex'', ''2147483000''), (''margin'', ''16px'')])))"

text \<open>What the callbacks change in the tree, and what they do outside it.\<close>

datatype popup_effect = On_Subscribed push_info | On_Error js_string | On_Dismiss

record popup =
  pp_visible :: bool
  pp_listening :: bool
  pp_disabled :: bool
  pp_confirmText :: js_string
  pp_dismissDisplay :: js_string
  pp_progressDisplay :: js_string
  pp_descText :: js_string
  pp_descColor :: js_string
  pp_pending :: nat
  pp_storage :: local_storage
  pp_log :: "popup_effect list"

definition confirm_label :: "popup_options \<Rightarrow> js_string" where
  "confirm_label options = or_default (po_confirmLabel options) (js_of ''Enable'')"

definition options_palette :: "popup_options \<Rightarrow> palette" where
  "options_palette options = popup_palette (po_theme options) (po_accentColor options)"

definition card_style :: "palette \<Rightarrow> css" where
  "card_style pal =
     css_of [(''width'', ''320px''), (''maxWidth'', ''calc(100vw - 32px)'')] @
     [(js_of ''background'', pl_bg pal), (js_of ''color'', pl_fg pal), (js_of ''border'', js_of ''1px solid '' @ pl_border pal)] @
     css_of [(''borderRadius'', ''12px''), (''boxShadow'', ''0 4px 24px rgba(0,0,0,0.18)''), (''padding'', ''16px''),
       (''fontFamily'', ''system-ui, -apple-system, Segoe UI, Roboto, sans-serif''),
       (''animation'', ''mio-push-popup-in 0.2s ease-out''), (''position'', ''relative''), (''overflow'', ''hidden''),
       (''boxSizing'', ''border-box'')]"

definition dismiss_button :: "popup_options \<Rightarrow> popup \<Rightarrow> element" where
  "dismiss_button options p = Element ''button''
     [(''type'', js_of ''button''), (''aria-label'', or_default (po_dismissAriaLabel options) (js_of ''Dismiss'')),
      (''class'', js_of ''mio-push-popup-dismiss'')]
     (css_of [(''position'', ''absolute''), (''top'', ''8px''), (''right'', ''8px''), (''width'', ''24px''), (''height'', ''24px''),
        (''lineHeight'', ''24px''), (''textAlign'', ''center''), (''border'', ''none''), (''background'', ''transparent'')] @
      [(js_of ''color'', pl_muted (options_palette options))] @
      css_of [(''fontSize'', ''18px''), (''cursor'', ''pointer''), (''opacity'', ''0.7''), (''padding'', ''0'')] @
      css_display (pp_dismissDisplay p))
     [0xD7] []"

definition text_row :: "popup_options \<Rightarrow> popup \<Rightarrow> element" where
  "text_row options p =
     Element ''div'' [] (css_of [(''display'', ''flex''), (''gap'', ''12px''), (''alignItems'', ''flex-start''), (''paddingRight'', ''20px'')]) []
       [Element ''div'' [] (css_of [(''fontSize'', ''24px''), (''lineHeight'', ''1''), (''flexShrink'', ''0'')]) [0xD83D, 0xDD14] [],
        Element ''div'' [] (css_of [(''minWidth'', ''0'')]) []
          [Element ''p'' [] (css_of [(''margin'', ''0 0 4px''), (''fontSize'', ''14px''), (''fontWeight'', ''600'')])
             (or_default (po_title options) (js_of ''Enable notifications?'')) [],
           Element ''p'' [] (css_of [(''margin'', ''0''), (''fontSize'', ''13px'')] @
               [(js_of ''color'', pp_descColor p)] @ css_of [(''lineHeight'', ''1.4'')]) (pp_descText p) []]]"

definition confirm_button :: "popup_options \<Rightarrow> popup \<Rightarrow> element" where
  "confirm_button options p = Element ''button''
     ([(''type'', js_of ''button''), (''class'', js_of ''mio-push-popup-confirm'')] @
      (if pp_disabled p then [(''disabled'', [])] else []))
     (css_of [(''marginTop'', ''14px''), (''width'', ''100%''), (''border'', ''none''), (''borderRadius'', ''999px'')] @
      [(js_of ''background'', pl_accent (options_palette options))] @
      css_of [(''color'', ''#ffffff''), (''fontSize'', ''14px''), (''fontWeight'', ''600''), (''padding'', ''10px 16px''), (''cursor'', ''pointer'')])
     (pp_confirmText p) []"

definition progress_element :: "popup_options \<Rightarrow> popup \<Rightarrow> element" where
  "progress_element options p =
     Element ''div'' []
       (css_of [(''position'', ''absolute''), (''top'', ''0''), (''left'', ''0''), (''right'', ''0''), (''height'', ''3px''),
          (''overflow'', ''hidden''), (''background'', ''transparent'')] @ css_display (pp_progressDisplay p)) []
       [Element ''div'' [] (css_of [(''width'', ''40%''), (''height'', ''100%'')] @
          [(js_of ''background'', pl_accent (options_palette options)),
           (js_of ''animation'', js_of ''mio-push-popup-indeterminate 1s linear infinite'')]) [] []]"

definition popup_view :: "popup_options \<Rightarrow> popup \<Rightarrow> element" where
  "popup_view options p =
     Element ''div'' [] (position_style (po_position options)) []
       [Element ''div'' [] (card_style (options_palette options)) []
          [progress_element options p, dismiss_button options p, text_row options p, confirm_button options p]]"

section \<open>The machine\<close>

text \<open>Right after the popup was attached to the page and its listeners registered.\<close>

definition popup_opened :: "popup_options \<Rightarrow> local_storage \<Rightarrow> popup" where
  "popup_opened options st =
     \<lparr>pp_visible = True, pp_listening = True, pp_disabled = False, pp_confirmText = confirm_label options,
      pp_dismissDisplay = [], pp_progressDisplay = js_of ''none'',
      pp_descText = or_default (po_description options) (js_of ''Get notified about new activity, even when this tab is closed.''),
      pp_descColor = pl_muted (options_palette options), pp_pending = 0, pp_storage = st, pp_log = []\<rparr>"

definition showPushPermissionPopup :: "browser \<Rightarrow> bool \<Rightarrow> nat \<Rightarrow> local_storage \<Rightarrow> popup_options \<Rightarrow> popup option" where
  "showPushPermissionPopup b has_document now st options =
     (if popup_allowed b has_document now st (po_tenantId options) (or_default (po_repromptIntervalDays options) 0)
      then Some (popup_opened options st) else None)"

definition popup_remove :: "popup \<Rightarrow> popup" where
  "popup_remove p = p\<lparr>pp_visible := False, pp_listening := False\<rparr>"

definition popup_callback :: "bool \<Rightarrow> popup_effect \<Rightarrow> popup \<Rightarrow> popup" where
  "popup_callback given e p = (if given then p\<lparr>pp_log := pp_log p @ [e]\<rparr> else p)"

definition popup_dismiss :: "popup_options \<Rightarrow> nat \<Rightarrow> popup \<Rightarrow> popup" where
  "popup_dismiss options now p =
     popup_callback (po_onDismiss options) On_Dismiss
       (popup_remove (p\<lparr>pp_storage := writeDismissedAt now (po_tenantId options) (pp_storage p)\<rparr>))"

definition popup_keydown :: "popup_options \<Rightarrow> nat \<Rightarrow> js_string \<Rightarrow> popup \<Rightarrow> popup" where
  "popup_keydown options now key p = (if key = js_of ''Escape'' then popup_dismiss options now p else p)"

definition popup_confirm :: "popup \<Rightarrow> popup" where
  "popup_confirm p = p\<lparr>pp_disabled := True, pp_confirmText := [0x2026], pp_dismissDisplay := js_of ''none'',
     pp_progressDisplay := js_of ''block'', pp_pending := pp_pending p + 1\<rparr>"

text \<open>The messages of the errors thrown by the registration; those of the browser are given by \<open>msg\<close>.\<close>

definition permission_text :: "permission \<Rightarrow> js_string" where
  "permission_text pm = js_of (case pm of Default \<Rightarrow> ''default'' | Granted \<Rightarrow> ''granted'' | Denied \<Rightarrow> ''denied'')"

fun error_message :: "(push_error \<Rightarrow> js_string) \<Rightarrow> push_error \<Rightarrow> js_string" where
  "error_message msg (Permission_Was pm) =
     js_of ''Notification permission was \"'' @ permission_text pm @ js_of ''\", not \"granted\".''"
| "error_message msg No_Service_Worker = js_of ''Service workers are not supported in this environment.''"
| "error_message msg Missing_Keys = js_of ''Push subscription is missing p256dh/auth keys '' @ [0x2014] @
     js_of '' the browser'' @ [39] @ js_of ''s PushManager returned an incomplete subscription.''"
| "error_message msg (Registration_Failed status) =
     js_of ''Push subscription registration failed ('' @ js_of_nat status @ js_of '').''"
| "error_message msg (Removal_Failed status) = js_of ''Push subscription removal failed ('' @ js_of_nat status @ js_of '').''"
| "error_message msg Web_Push_Unsupported = js_of ''Web Push is not supported in this browser.''"
| "error_message msg e = msg e"

definition popup_settled :: "(push_error \<Rightarrow> js_string) \<Rightarrow> popup_options \<Rightarrow> push_error + push_info \<Rightarrow> popup \<Rightarrow> popup" where
  "popup_settled msg options outcome p0 =
     (let p = p0\<lparr>pp_pending := pp_pending p0 - 1\<rparr> in
      case outcome of
        Inr result \<Rightarrow> popup_callback (po_onSubscribed options) (On_Subscribed result) (popup_remove p)
      | Inl e \<Rightarrow> popup_callback (po_onError options) (On_Error (error_message msg e))
          (p\<lparr>pp_progressDisplay := js_of ''none'', pp_disabled := False, pp_confirmText := confirm_label options,
             pp_dismissDisplay := [], pp_descText := error_message msg e, pp_descColor := pl_error (options_palette options)\<rparr>))"

text \<open>
  A disabled or detached button gets no clicks, and neither does one that is not displayed; keys reach the popup while
  its listener is registered; the registration started by a click settles once. \<open>close\<close> may be called at any time.
\<close>

inductive popup_step :: "popup_options \<Rightarrow> popup \<Rightarrow> popup \<Rightarrow> bool" for options where
  Click_Confirm: "pp_visible p \<Longrightarrow> \<not> pp_disabled p \<Longrightarrow> popup_step options p (popup_confirm p)"
| Click_Dismiss: "pp_visible p \<Longrightarrow> pp_dismissDisplay p \<noteq> js_of ''none'' \<Longrightarrow> popup_step options p (popup_dismiss options now p)"
| Key_Down: "pp_listening p \<Longrightarrow> popup_step options p (popup_keydown options now key p)"
| Settled: "0 < pp_pending p \<Longrightarrow> popup_step options p (popup_settled msg options outcome p)"
| Handle_Close: "popup_step options p (popup_remove p)"

inductive_cases popup_stepE: "popup_step options p q"

definition popup_reachable :: "popup_options \<Rightarrow> popup \<Rightarrow> bool" where
  "popup_reachable options p \<longleftrightarrow> (\<exists>st. (popup_step options)\<^sup>*\<^sup>* (popup_opened options st) p)"

interpretation pu: transition_system "\<lambda>p. \<exists>st. p = popup_opened options st" "popup_step options" "popup_reachable options" for options
  by unfold_locales (auto simp: popup_reachable_def)

section \<open>Properties\<close>

lemma styles_injected_once:
  "length (filter (has_id POPUP_STYLE_ELEMENT_ID) ((ensurePopupStylesInjected ^^ Suc n) head)) =
     max 1 (length (filter (has_id POPUP_STYLE_ELEMENT_ID) head))"
proof -
  have once: "list_ex (has_id POPUP_STYLE_ELEMENT_ID) (ensurePopupStylesInjected head)"
    by (simp add: ensurePopupStylesInjected_def list_ex_iff has_id_def)
  have idem: "(ensurePopupStylesInjected ^^ n) h = h" if "list_ex (has_id POPUP_STYLE_ELEMENT_ID) h" for h
    using that by (induction n) (simp_all add: ensurePopupStylesInjected_def)
  have "(ensurePopupStylesInjected ^^ Suc n) head = ensurePopupStylesInjected head"
    using idem [OF once] by (simp add: funpow_swap1)
  moreover have "filter (has_id POPUP_STYLE_ELEMENT_ID) head = [] \<longleftrightarrow> \<not> list_ex (has_id POPUP_STYLE_ELEMENT_ID) head"
    by (auto simp: filter_empty_conv list_ex_iff)
  ultimately show ?thesis
    by (cases "filter (has_id POPUP_STYLE_ELEMENT_ID) head") (auto simp: ensurePopupStylesInjected_def has_id_def)
qed

definition popup_ok :: "popup_options \<Rightarrow> popup \<Rightarrow> bool" where
  "popup_ok options p \<longleftrightarrow>
     pp_listening p = pp_visible p \<and> pp_pending p \<le> 1 \<and> (pp_pending p = 1 \<longrightarrow> pp_disabled p) \<and>
     (pp_visible p \<longrightarrow>
        pp_disabled p = (pp_pending p = 1) \<and>
        pp_confirmText p = (if pp_pending p = 1 then [0x2026] else confirm_label options) \<and>
        pp_dismissDisplay p = (if pp_pending p = 1 then js_of ''none'' else []) \<and>
        pp_progressDisplay p = js_of (if pp_pending p = 1 then ''block'' else ''none''))"

lemmas popup_defs = popup_confirm_def popup_dismiss_def popup_keydown_def popup_settled_def popup_remove_def popup_callback_def

lemma popup_ok_step: "popup_step options p q \<Longrightarrow> popup_ok options p \<Longrightarrow> popup_ok options q"
proof (induction rule: popup_step.induct)
  case (Settled p msg outcome)
  then show ?case by (cases outcome) (auto simp: popup_ok_def popup_defs Let_def)
qed (auto simp: popup_ok_def popup_defs)

lemma popup_reachable_ok: "popup_reachable options p \<Longrightarrow> popup_ok options p"
proof (rule pu.reach_invariant)
  fix s assume "\<exists>st. s = popup_opened options st"
  then show "popup_ok options s" by (auto simp: popup_ok_def popup_opened_def)
qed (rule popup_ok_step)

text \<open>
  In every history of clicks, keys, closings and outcomes, at most one registration is under way; the popup listens to keys exactly
  while it is shown; and while it is shown, the confirm button is disabled, the dismiss button hidden and the progress bar displayed exactly
  while a registration is under way, so a failed one leaves the popup ready for another attempt.
\<close>

theorem popup_consistent:
  assumes "popup_reachable options p"
  shows "pp_pending p \<le> 1 \<and> pp_listening p = pp_visible p \<and>
    (pp_visible p \<longrightarrow> pp_disabled p = (pp_pending p = 1) \<and>
       (pp_dismissDisplay p = js_of ''none'') = (pp_pending p = 1) \<and> (pp_progressDisplay p = js_of ''block'') = (pp_pending p = 1) \<and>
       (pp_pending p = 0 \<longrightarrow> pp_confirmText p = confirm_label options))"
  using popup_reachable_ok [OF assms] by (auto simp: popup_ok_def)

definition sample_popup_options :: popup_options where
  "sample_popup_options = push_options.extend sample_push_options
     \<lparr>po_title = None, po_description = None, po_confirmLabel = None, po_dismissAriaLabel = None, po_accentColor = None,
      po_theme = None, po_position = None, po_repromptIntervalDays = Some 3, po_onSubscribed = True, po_onError = True,
      po_onDismiss = True\<rparr>"

definition sample_popup :: popup where
  "sample_popup = popup_opened sample_popup_options \<lparr>ls_items = [], ls_readable = True, ls_writable = True\<rparr>"

theorem popup_consistent_witness:
  "pp_visible (popup_confirm sample_popup) \<and> pp_pending (popup_confirm sample_popup) = 1 \<and>
   (pp_progressDisplay (popup_confirm sample_popup) = js_of ''block'') = (pp_pending (popup_confirm sample_popup) = 1)"
proof -
  have v: "pp_visible (popup_confirm sample_popup)" "pp_pending (popup_confirm sample_popup) = 1"
    by (simp_all add: popup_confirm_def sample_popup_def popup_opened_def)
  have "popup_step sample_popup_options sample_popup (popup_confirm sample_popup)"
    by (rule Click_Confirm) (simp_all add: sample_popup_def popup_opened_def)
  then have "popup_reachable sample_popup_options (popup_confirm sample_popup)"
    unfolding popup_reachable_def sample_popup_def by blast
  from popup_consistent [OF this] v show ?thesis by blast
qed

lemma js_Number_value:
  assumes "t < 2 ^ 53"
  obtains neg n d where "js_Number (js_of_nat t) = Fin neg n d"
    "(if neg then - (of_nat n / of_nat d) else of_nat n / of_nat d) = (of_nat t :: rat)"
proof -
  have i: "js_integer (js_Number (js_of_nat t)) = Some (int t)" using assms by (rule js_Number_js_of_nat)
  then obtain neg n d where f: "js_Number (js_of_nat t) = Fin neg n d" by (cases "js_Number (js_of_nat t)") auto
  with i have d: "d dvd n" "(if neg then - int (n div d) else int (n div d)) = int t" by (auto split: if_splits)
  have "(of_nat n / of_nat d :: rat) = of_nat (n div d)" using d(1) by (auto elim!: dvdE)
  then show ?thesis using that [OF f] d(2) by (auto split: if_splits)
qed

lemma read_write_dismissed:
  assumes "ls_readable st" "ls_writable st"
  shows "readDismissedAt tenantId (writeDismissedAt t tenantId st) = Some (js_Number (js_of_nat t))"
  using assms by (simp add: readDismissedAt_def writeDismissedAt_def jmap_simps)

text \<open>
  A dismissal is remembered through \<open>localStorage\<close>: after the popup was dismissed at time \<open>t\<close>, a later call at time \<open>now\<close> shows it
  again exactly when the interval is positive and has passed since \<open>t\<close>, and always for another tenant whose popup was never dismissed. The time,
  written as text and read back through \<open>Number\<close>, is exact.
\<close>

theorem popup_reprompt:
  assumes "t < 2 ^ 53" "ls_readable (pp_storage p)" "ls_writable (pp_storage p)"
    and "has_document" "isNotificationSupported b" "bw_permission b = Default"
  shows "(showPushPermissionPopup b has_document now (pp_storage (popup_dismiss options t p)) options \<noteq> None) =
      (0 < interval_ms (or_default (po_repromptIntervalDays options) 0) \<and>
       interval_ms (or_default (po_repromptIntervalDays options) 0) \<le> of_nat now - of_nat t) \<and>
    (po_tenantId other \<noteq> po_tenantId options \<longrightarrow> readDismissedAt (po_tenantId other) (pp_storage p) = None \<longrightarrow>
      showPushPermissionPopup b has_document now (pp_storage (popup_dismiss options t p)) other \<noteq> None)"
proof -
  let ?st = "pp_storage (popup_dismiss options t p)"
  have st: "?st = writeDismissedAt t (po_tenantId options) (pp_storage p)" by (simp add: popup_defs)
  obtain neg n d where f: "js_Number (js_of_nat t) = Fin neg n d"
    "(if neg then - (of_nat n / of_nat d) else of_nat n / of_nat d) = (of_nat t :: rat)"
    using assms(1) by (rule js_Number_value)
  have "elapsed_less now (js_Number (js_of_nat t)) i \<longleftrightarrow> of_nat now - of_nat t < i" for i
    by (simp only: f elapsed_less.simps)
  moreover have "readDismissedAt (po_tenantId other) ?st = readDismissedAt (po_tenantId other) (pp_storage p)"
    if "po_tenantId other \<noteq> po_tenantId options"
    using that by (simp add: st readDismissedAt_def writeDismissedAt_def jmap_simps dismissedAtKey_def)
  ultimately show ?thesis
    using assms(4-6) read_write_dismissed [OF assms(2,3), of "po_tenantId options" t]
    by (auto simp: showPushPermissionPopup_def popup_allowed_def st not_less not_le)
qed

theorem popup_reprompt_witness:
  "showPushPermissionPopup (pe_browser sample_push_env) True (3 * 86400000 + 5) (pp_storage (popup_dismiss sample_popup_options 5 sample_popup))
     sample_popup_options \<noteq> None \<and>
   showPushPermissionPopup (pe_browser sample_push_env) True (3 * 86400000 + 4) (pp_storage (popup_dismiss sample_popup_options 5 sample_popup))
     sample_popup_options = None"
proof -
  have h: "ls_readable (pp_storage sample_popup)" "ls_writable (pp_storage sample_popup)" "isNotificationSupported (pe_browser sample_push_env)"
    "bw_permission (pe_browser sample_push_env) = Default" "po_repromptIntervalDays sample_popup_options = Some 3"
    by (simp_all add: sample_popup_def popup_opened_def sample_push_env_def isNotificationSupported_def sample_popup_options_def
        push_options.defs)
  show ?thesis
    using popup_reprompt [of 5 sample_popup True "pe_browser sample_push_env" "3 * 86400000 + 5" sample_popup_options]
      popup_reprompt [of 5 sample_popup True "pe_browser sample_push_env" "3 * 86400000 + 4" sample_popup_options] h
    by (simp add: interval_ms_def or_default_def)
qed

end
