(* ===== verification/Vapid.thy ===== *)
theory Vapid
  imports Popup
begin

text \<open>
  \<open>sdk-wordpress/assets/js/mio-vapid-subscription.js\<close>: Web Push registration as a single script. It is written as chains of promises
  over the same browser interfaces as \<open>notifications.ts\<close>, whose behaviour it says it mirrors; the theorem at the end tells when it does.
  Defaults are taken with \<open>||\<close>, so an empty string counts as absent. \<open>autoInit\<close> reads the options from
  the attributes of the script's own tag.
\<close>

section \<open>Keys and labels\<close>

text \<open>\<open>new Array(n + 1).join('=')\<close> is \<open>n\<close> times the separator.\<close>

fun join_holes :: "nat \<Rightarrow> js_string \<Rightarrow> js_string" where
  "join_holes 0 sep = []"
| "join_holes (Suc 0) sep = []"
| "join_holes (Suc (Suc n)) sep = sep @ join_holes (Suc n) sep"

definition vapid_base64UrlToUint8Array :: "js_string \<Rightarrow> bytes option" where
  "vapid_base64UrlToUint8Array b64url =
     (let padded = b64url @ join_holes ((4 - length b64url mod 4) mod 4 + 1) [pad];
          base64 = map (\<lambda>u. if u = 95 then 47 else u) (map (\<lambda>u. if u = 45 then 43 else u) padded) in
      atob base64)"

definition vapid_arrayBufferToBase64Url :: "bytes \<Rightarrow> js_string" where
  "vapid_arrayBufferToBase64Url bs =
     strip_trailing pad (map (\<lambda>u. if u = 47 then 95 else u) (map (\<lambda>u. if u = 43 then 45 else u) (btoa bs)))"

definition vapid_toSubscriptionInfo :: "push_subscription \<Rightarrow> push_error + push_info" where
  "vapid_toSubscriptionInfo s =
     (if ps_p256dh s = None \<or> ps_auth s = None then Inl Missing_Keys
      else Inr \<lparr>pi_endpoint = ps_endpoint s, pi_p256dh = vapid_arrayBufferToBase64Url (the (ps_p256dh s)),
                pi_auth = vapid_arrayBufferToBase64Url (the (ps_auth s))\<rparr>)"

definition first_match :: "js_string \<Rightarrow> (string \<times> string) list \<Rightarrow> js_string option" where
  "first_match ua table = map_option (\<lambda>(_, label). js_of label) (List.find (\<lambda>(tok, _). js_includes ua (js_of tok)) table)"

definition vapid_guessDeviceLabel :: "js_string option \<Rightarrow> js_string" where
  "vapid_guessDeviceLabel userAgent =
     (case userAgent of
        None \<Rightarrow> js_of ''Unknown device''
      | Some ua \<Rightarrow>
          (let os = first_match ua [(''iPhone'', ''iPhone''), (''iPad'', ''iPad''), (''Android'', ''Android''), (''Mac OS X'', ''Mac''),
                 (''Windows'', ''Windows''), (''Linux'', ''Linux'')];
               br = first_match ua [(''Edg/'', ''Edge''), (''OPR/'', ''Opera''), (''Chrome/'', ''Chrome''), (''CriOS/'', ''Chrome''),
                 (''FxiOS/'', ''Firefox''), (''Firefox/'', ''Firefox''), (''Safari/'', ''Safari'')] in
           case br of
             Some b \<Rightarrow> (case os of Some o' \<Rightarrow> b @ js_of '' on '' @ o' | None \<Rightarrow> b)
           | None \<Rightarrow> (case os of Some o' \<Rightarrow> o' | None \<Rightarrow> js_of ''Unknown device'')))"

section \<open>Registration\<close>

text \<open>\<open>v || d\<close> for a string.\<close>

definition or_string :: "js_string option \<Rightarrow> js_string \<Rightarrow> js_string" where
  "or_string v d = (case v of None \<Rightarrow> d | Some s \<Rightarrow> if s = [] then d else s)"

definition vapid_request :: "(js_number \<Rightarrow> js_string) \<Rightarrow> push_options \<Rightarrow> js_string option \<Rightarrow> push_info \<Rightarrow> http_request" where
  "vapid_request fmt options ua s =
     \<lparr>rq_url = po_apiBaseUrl options @ js_of ''/api/v1/push/subscriptions'', rq_method = POST,
      rq_headers = [(js_of ''Content-Type'', js_of ''application/json''), (js_of ''Authorization'', js_of ''Bearer '' @ po_token options)],
      rq_body = Some (json_stringify fmt (JObj
        [(js_of ''tenant_id'', JStr (po_tenantId options)),
         (js_of ''endpoint'', JStr (pi_endpoint s)),
         (js_of ''keys'', JObj [(js_of ''p256dh'', JStr (pi_p256dh s)), (js_of ''auth'', JStr (pi_auth s))]),
         (js_of ''channels'', JArr (map JStr (case po_channels options of None \<Rightarrow> [js_of ''*''] | Some chs \<Rightarrow> chs))),
         (js_of ''device_label'', JStr (or_string (po_deviceLabel options) (vapid_guessDeviceLabel ua)))]))\<rparr>"

text \<open>The stages of the chain: the permission, the worker, the raw subscription, the request.\<close>

definition vapid_permission :: "push_env \<Rightarrow> unit push_run" where
  "vapid_permission env =
     (if pe_answer env \<noteq> Granted then (Inl (Permission_Was (pe_answer env)), [Ask_Permission]) else (Inr (), [Ask_Permission]))"

definition vapid_worker :: "push_env \<Rightarrow> push_options \<Rightarrow> unit push_run" where
  "vapid_worker env options =
     (if pe_register env then Inr () else Inl Worker_Failed, [Register_Worker (or_string (po_swUrl options) (js_of ''/sw.js''))])"

definition vapid_raw_subscription :: "push_env \<Rightarrow> push_options \<Rightarrow> push_subscription push_run" where
  "vapid_raw_subscription env options =
     (case pe_existing env of
        Some existing \<Rightarrow> (Inr existing, [Get_Subscription])
      | None \<Rightarrow>
          (case vapid_base64UrlToUint8Array (po_vapidPublicKey options) of
             None \<Rightarrow> (Inl Invalid_Key, [Get_Subscription])
           | Some key \<Rightarrow>
               (case pe_subscribe env key of
                  None \<Rightarrow> (Inl Subscribe_Failed, [Get_Subscription, Subscribe_Push key])
                | Some s \<Rightarrow> (Inr s, [Get_Subscription, Subscribe_Push key]))))"

definition vapid_subscribe :: "(js_number \<Rightarrow> js_string) \<Rightarrow> push_env \<Rightarrow> push_options \<Rightarrow> push_info push_run" where
  "vapid_subscribe fmt env options =
     (if \<not> isNotificationSupported (pe_browser env) \<or> \<not> pe_serviceWorker env then (Inl Web_Push_Unsupported, [])
      else push_bind (vapid_permission env) (\<lambda>_.
           push_bind (vapid_worker env options) (\<lambda>_.
           push_bind (vapid_raw_subscription env options) (\<lambda>raw.
           case vapid_toSubscriptionInfo raw of
             Inl e \<Rightarrow> (Inl e, [])
           | Inr subscription \<Rightarrow>
               (let rq = vapid_request fmt options (pe_userAgent env) subscription in
                case pe_fetch env rq of
                  None \<Rightarrow> (Inl Fetch_Failed, [Fetch rq])
                | Some res \<Rightarrow> (if \<not> rs_ok res then Inl (Registration_Failed (rs_status res)) else Inr subscription, [Fetch rq]))))))"

definition vapid_unsubscribe :: "(js_number \<Rightarrow> js_string) \<Rightarrow> push_env \<Rightarrow> push_options \<Rightarrow> bool push_run" where
  "vapid_unsubscribe fmt env options =
     (if \<not> pe_serviceWorker env then (Inr False, [])
      else push_bind (vapid_worker env options) (\<lambda>_.
        case pe_existing env of
          None \<Rightarrow> (Inr False, [Get_Subscription])
        | Some existing \<Rightarrow>
            (case pe_unsubscribe env of
               None \<Rightarrow> (Inl Unsubscribe_Failed, [Get_Subscription, Unsubscribe_Push])
             | Some _ \<Rightarrow>
                 (let rq = \<lparr>rq_url = po_apiBaseUrl options @ js_of ''/api/v1/push/subscriptions'', rq_method = DELETE,
                     rq_headers = [(js_of ''Content-Type'', js_of ''application/json''), (js_of ''Authorization'', js_of ''Bearer '' @ po_token options)],
                     rq_body = Some (json_stringify fmt (JObj
                       [(js_of ''tenant_id'', JStr (po_tenantId options)), (js_of ''endpoint'', JStr (ps_endpoint existing))]))\<rparr> in
                  case pe_fetch env rq of
                    None \<Rightarrow> (Inl Fetch_Failed, [Get_Subscription, Unsubscribe_Push, Fetch rq])
                  | Some res \<Rightarrow> (if \<not> rs_ok res then Inl (Removal_Failed (rs_status res)) else Inr True,
                      [Get_Subscription, Unsubscribe_Push, Fetch rq])))))"

section \<open>The popup's guard and the attributes of the tag\<close>

text \<open>\<open>options.repromptIntervalDays || 0\<close> is a number that came through \<open>Number\<close>: it may be NaN (taken as 0) or infinite.\<close>

fun vapid_blocked :: "nat \<Rightarrow> js_number \<Rightarrow> js_number \<Rightarrow> bool" where
  "vapid_blocked now dismissedAt NaN \<longleftrightarrow> True"
| "vapid_blocked now dismissedAt (Infinite neg) \<longleftrightarrow> neg \<or> (dismissedAt \<noteq> NaN \<and> dismissedAt \<noteq> Infinite True)"
| "vapid_blocked now dismissedAt (Fin neg n d) \<longleftrightarrow>
     (let ms = interval_ms (if neg then - (of_nat n / of_nat d) else of_nat n / of_nat d) in
      ms \<le> 0 \<or> elapsed_less now dismissedAt ms)"

definition vapid_dismissedAtKey :: "js_string \<Rightarrow> js_string" where
  "vapid_dismissedAtKey tenantId = js_of ''mio_push_popup_dismissed_at:'' @ tenantId"

definition vapid_readDismissedAt :: "js_string \<Rightarrow> local_storage \<Rightarrow> js_number option" where
  "vapid_readDismissedAt tenantId st =
     (if \<not> ls_readable st then None
      else (case jget (ls_items st) (vapid_dismissedAtKey tenantId) of
          None \<Rightarrow> None
        | Some raw \<Rightarrow> if raw = [] then None else Some (js_Number raw)))"

definition vapid_popup_allowed :: "browser \<Rightarrow> bool \<Rightarrow> nat \<Rightarrow> local_storage \<Rightarrow> js_string \<Rightarrow> js_number option \<Rightarrow> bool" where
  "vapid_popup_allowed b has_document now st tenantId days \<longleftrightarrow>
     has_document \<and> isNotificationSupported b \<and> bw_permission b = Default \<and>
     (case vapid_readDismissedAt tenantId st of
        None \<Rightarrow> True
      | Some dismissedAt \<Rightarrow> \<not> vapid_blocked now dismissedAt (or_default days (Fin False 0 1)))"

text \<open>The \<open>data-*\<close> attributes; \<open>None\<close> if absent.\<close>

record vapid_dataset =
  vd_apiBaseUrl :: "js_string option"
  vd_tenantId :: "js_string option"
  vd_token :: "js_string option"
  vd_vapidPublicKey :: "js_string option"
  vd_mode :: "js_string option"
  vd_button :: "js_string option"
  vd_channels :: "js_string option"
  vd_swUrl :: "js_string option"
  vd_deviceLabel :: "js_string option"
  vd_title :: "js_string option"
  vd_description :: "js_string option"
  vd_confirmLabel :: "js_string option"
  vd_dismissAriaLabel :: "js_string option"
  vd_accentColor :: "js_string option"
  vd_theme :: "js_string option"
  vd_position :: "js_string option"
  vd_repromptIntervalDays :: "js_string option"

text \<open>\<open>v || undefined\<close>\<close>

definition or_undefined :: "js_string option \<Rightarrow> js_string option" where
  "or_undefined v = (case v of None \<Rightarrow> None | Some s \<Rightarrow> if s = [] then None else Some s)"

record vapid_options = push_options +
  vo_title :: "js_string option"
  vo_description :: "js_string option"
  vo_confirmLabel :: "js_string option"
  vo_dismissAriaLabel :: "js_string option"
  vo_accentColor :: "js_string option"
  vo_theme :: "js_string option"
  vo_position :: "js_string option"
  vo_repromptIntervalDays :: "js_number option"

definition split_channels :: "js_string option \<Rightarrow> js_string list" where
  "split_channels v = (case or_undefined v of None \<Rightarrow> [js_of ''*''] | Some s \<Rightarrow> map js_trim (js_split 44 s))"

definition dataset_options :: "vapid_dataset \<Rightarrow> vapid_options" where
  "dataset_options ds =
     \<lparr>po_apiBaseUrl = the (vd_apiBaseUrl ds), po_token = the (vd_token ds), po_tenantId = the (vd_tenantId ds),
      po_vapidPublicKey = the (vd_vapidPublicKey ds), po_channels = Some (split_channels (vd_channels ds)),
      po_swUrl = Some (or_string (vd_swUrl ds) (js_of ''/sw.js'')), po_deviceLabel = or_undefined (vd_deviceLabel ds),
      vo_title = or_undefined (vd_title ds), vo_description = or_undefined (vd_description ds),
      vo_confirmLabel = or_undefined (vd_confirmLabel ds), vo_dismissAriaLabel = or_undefined (vd_dismissAriaLabel ds),
      vo_accentColor = or_undefined (vd_accentColor ds), vo_theme = or_undefined (vd_theme ds),
      vo_position = or_undefined (vd_position ds),
      vo_repromptIntervalDays = map_option js_Number (or_undefined (vd_repromptIntervalDays ds))\<rparr>"

datatype vapid_action = Show_Popup vapid_options | Wire_Button js_string vapid_options | Warn_No_Button js_string

text \<open>\<open>init\<close> with \<open>wireButton\<close>; \<open>found\<close> tells whether a selector matches. Any other mode than \<open>popup\<close> wires a button, which in
  an unknown mode may have no selector: then \<open>undefined\<close> is looked up.\<close>

definition vapid_init :: "(js_string \<Rightarrow> bool) \<Rightarrow> js_string \<Rightarrow> vapid_dataset \<Rightarrow> vapid_action" where
  "vapid_init found mode ds =
     (if mode = js_of ''popup'' then Show_Popup (dataset_options ds)
      else (let sel = or_default (vd_button ds) (js_of ''undefined'') in
        if found sel then Wire_Button sel (dataset_options ds) else Warn_No_Button sel))"

text \<open>\<open>None\<close> if nothing happens; otherwise whether it waits for \<open>DOMContentLoaded\<close>, and what it then does.\<close>

definition vapid_autoInit :: "bool \<Rightarrow> bool \<Rightarrow> (js_string \<Rightarrow> bool) \<Rightarrow> vapid_dataset \<Rightarrow> (bool \<times> vapid_action) option" where
  "vapid_autoInit has_script loading found ds =
     (if \<not> has_script then None
      else if or_undefined (vd_apiBaseUrl ds) = None \<or> or_undefined (vd_tenantId ds) = None \<or>
        or_undefined (vd_token ds) = None \<or> or_undefined (vd_vapidPublicKey ds) = None then None
      else (let mode = or_string (vd_mode ds) (js_of ''button'') in
        if mode = js_of ''button'' \<and> or_undefined (vd_button ds) = None then None
        else Some (loading, vapid_init found mode ds)))"

text \<open>The event a click on the wired button ends in.\<close>

datatype vapid_event = Vapid_Subscribed push_info | Vapid_Error push_error

definition button_click :: "(js_number \<Rightarrow> js_string) \<Rightarrow> push_env \<Rightarrow> push_options \<Rightarrow> vapid_event" where
  "button_click fmt env options =
     (case fst (vapid_subscribe fmt env options) of Inr result \<Rightarrow> Vapid_Subscribed result | Inl e \<Rightarrow> Vapid_Error e)"

section \<open>It mirrors the SDK\<close>

lemma join_holes_eq: "join_holes (Suc n) [x] = replicate n x"
  by (induction n) simp_all

lemma vapid_decode_eq: "vapid_base64UrlToUint8Array = base64UrlToUint8Array"
proof -
  have "(\<lambda>u. if u = 95 then 47 else u) \<circ> (\<lambda>u. if u = 45 then 43 else u) = unurl_char"
    by (rule ext) (simp add: unurl_char_def)
  then show ?thesis
    by (intro ext) (simp add: vapid_base64UrlToUint8Array_def base64UrlToUint8Array_def join_holes_eq Let_def map_map del: map_append)
qed

lemma vapid_encode_eq: "vapid_arrayBufferToBase64Url = arrayBufferToBase64Url"
proof -
  have "(\<lambda>u. if u = 47 then 95 else u) \<circ> (\<lambda>u. if u = 43 then 45 else u) = url_char"
    by (rule ext) (simp add: url_char_def)
  then show ?thesis by (intro ext) (simp add: vapid_arrayBufferToBase64Url_def arrayBufferToBase64Url_def)
qed

lemma vapid_info_eq: "vapid_toSubscriptionInfo = toSubscriptionInfo"
  by (rule ext) (auto simp: vapid_toSubscriptionInfo_def toSubscriptionInfo_def vapid_encode_eq split: option.split)

lemma first_match_os: "first_match ua [(''iPhone'', ''iPhone''), (''iPad'', ''iPad''), (''Android'', ''Android''), (''Mac OS X'', ''Mac''),
                 (''Windows'', ''Windows''), (''Linux'', ''Linux'')] = device_os ua"
  by (simp add: first_match_def device_os_def ua_has_def del: js_of_simps)

lemma first_match_browser: "first_match ua [(''Edg/'', ''Edge''), (''OPR/'', ''Opera''), (''Chrome/'', ''Chrome''), (''CriOS/'', ''Chrome''),
                 (''FxiOS/'', ''Firefox''), (''Firefox/'', ''Firefox''), (''Safari/'', ''Safari'')] = device_browser ua"
  by (simp add: first_match_def device_browser_def ua_has_def del: js_of_simps)

lemma vapid_label_eq: "vapid_guessDeviceLabel = guessDeviceLabel"
  by (rule ext) (simp only: vapid_guessDeviceLabel_def guessDeviceLabel_def first_match_os first_match_browser Let_def split: option.split; simp)

text \<open>What \<open>||\<close> makes of the options: an empty string counts as absent.\<close>

definition drop_empty :: "push_options \<Rightarrow> push_options" where
  "drop_empty options = options\<lparr>po_swUrl := or_undefined (po_swUrl options), po_deviceLabel := or_undefined (po_deviceLabel options)\<rparr>"

lemma drop_empty_id: "po_swUrl options \<noteq> Some [] \<Longrightarrow> po_deviceLabel options \<noteq> Some [] \<Longrightarrow> drop_empty options = options"
  by (simp add: drop_empty_def or_undefined_def split: option.splits)

lemma or_string_default: "or_string v d = or_default (or_undefined v) d"
  by (auto simp: or_string_def or_default_def or_undefined_def split: option.split)

lemma vapid_request_eq: "vapid_request fmt options ua s = registration_request fmt (drop_empty options) ua s"
  by (simp add: vapid_request_def registration_request_def registration_body_def subscriptions_url_def json_headers_def vapid_label_eq
      drop_empty_def or_string_default del: js_of_simps) (simp add: or_default_def split: option.split)

lemma vapid_worker_eq: "pe_serviceWorker env \<Longrightarrow> vapid_worker env options = registerPushServiceWorker env (sw_url (drop_empty options))"
  by (simp add: vapid_worker_def registerPushServiceWorker_def sw_url_def drop_empty_def or_string_default)

lemma push_bind_assoc: "push_bind (push_bind p f) g = push_bind p (\<lambda>a. push_bind (f a) g)"
  by (auto simp: push_bind_def Let_def split: sum.split prod.split)

lemma vapid_raw_eq:
  "push_bind (vapid_raw_subscription env options) (\<lambda>raw. (toSubscriptionInfo raw, [])) = subscribeToPush env (po_vapidPublicKey options)"
  by (auto simp: push_bind_def vapid_raw_subscription_def subscribeToPush_def vapid_decode_eq split: option.split)

lemma drop_empty_same [simp]: "po_vapidPublicKey (drop_empty options) = po_vapidPublicKey options"
  "po_apiBaseUrl (drop_empty options) = po_apiBaseUrl options" "po_token (drop_empty options) = po_token options"
  "po_tenantId (drop_empty options) = po_tenantId options"
  by (simp_all add: drop_empty_def)

lemma vapid_tail_eq:
  "(case vapid_toSubscriptionInfo raw of
      Inl e \<Rightarrow> (Inl e, [])
    | Inr subscription \<Rightarrow>
        (let rq = vapid_request fmt options (pe_userAgent env) subscription in
         case pe_fetch env rq of
           None \<Rightarrow> (Inl Fetch_Failed, [Fetch rq])
         | Some res \<Rightarrow> (if \<not> rs_ok res then Inl (Registration_Failed (rs_status res)) else Inr subscription, [Fetch rq]))) =
    push_bind (toSubscriptionInfo raw, []) (\<lambda>subscription.
      push_bind (push_fetch env (registration_request fmt (drop_empty options) (pe_userAgent env) subscription) Registration_Failed)
        (\<lambda>_. (Inr subscription, [])))"
  by (auto simp: vapid_info_eq vapid_request_eq push_bind_def push_fetch_def Let_def split: sum.split option.split)

lemma vapid_subscribe_eq:
  assumes "isNotificationSupported (pe_browser env)" "pe_serviceWorker env"
  shows "vapid_subscribe fmt env options = registerWebPushSubscription fmt env (drop_empty options)"
proof -
  have p: "vapid_permission env = ask_permission env"
    using assms by (simp add: vapid_permission_def ask_permission_def requestNotificationPermission_def)
  show ?thesis
    using assms vapid_raw_eq [of env "drop_empty options"]
    by (simp add: vapid_subscribe_def registerWebPushSubscription_def p vapid_worker_eq vapid_tail_eq vapid_raw_eq [symmetric] push_bind_assoc)
qed

lemma vapid_unsubscribe_eq:
  assumes "pe_serviceWorker env"
  shows "vapid_unsubscribe fmt env options = unregisterWebPushSubscription fmt env (drop_empty options)"
  using assms by (auto simp: vapid_unsubscribe_def unregisterWebPushSubscription_def vapid_worker_eq push_bind_def push_fetch_def subscriptions_url_def
      json_headers_def Let_def simp del: js_of_simps split: sum.split option.split prod.split)

lemma sdk_without_worker:
  assumes "\<not> pe_serviceWorker env"
  shows "unregisterWebPushSubscription fmt env options = (Inl No_Service_Worker, [])"
    and "isNotificationSupported (pe_browser env) \<Longrightarrow> registerWebPushSubscription fmt env options =
      (Inl (if pe_answer env = Granted then No_Service_Worker else Permission_Was (pe_answer env)), [Ask_Permission])"
  using assms by (simp_all add: unregisterWebPushSubscription_def registerWebPushSubscription_def registerPushServiceWorker_def ask_permission_def
      requestNotificationPermission_def push_bind_def Let_def)

lemma sdk_without_notifications:
  "\<not> isNotificationSupported (pe_browser env) \<Longrightarrow> registerWebPushSubscription fmt env options = (Inl (Permission_Was Denied), [])"
  by (simp add: registerWebPushSubscription_def ask_permission_def requestNotificationPermission_def push_bind_def Let_def)

text \<open>
  C19. How far the script has the behaviour of the SDK, which its header promises. The SDK is taken with the options as the script reads them, where an empty \<open>swUrl\<close> or \<open>deviceLabel\<close> counts as absent.
  In a browser with notifications and service workers \<open>subscribe\<close>, and in one with service workers \<open>unsubscribe\<close>, makes the same calls in the same order with the same requests and ends in the same
  result or error. Otherwise they differ: without service workers \<open>unsubscribe\<close> resolves with false where the SDK throws; without notifications or service workers \<open>subscribe\<close> makes no call and fails with
  one error, while the SDK, if there are notifications, asks for the permission first and then fails for its answer or for the missing worker, and if there are none fails as if it had been denied.
\<close>

theorem vapid_mirrors_sdk:
  "let sdk_subscribe = registerWebPushSubscription fmt env (drop_empty options); sdk_unsubscribe = unregisterWebPushSubscription fmt env (drop_empty options);
      notifications = isNotificationSupported (pe_browser env); worker = pe_serviceWorker env in
    vapid_subscribe fmt env options = (if notifications \<and> worker then sdk_subscribe else (Inl Web_Push_Unsupported, [])) \<and>
    vapid_unsubscribe fmt env options = (if worker then sdk_unsubscribe else (Inr False, [])) \<and>
    (if worker then True else sdk_unsubscribe = (Inl No_Service_Worker, [])) \<and>
    (if notifications
     then (if worker then True
           else sdk_subscribe = (Inl (if pe_answer env = Granted then No_Service_Worker else Permission_Was (pe_answer env)), [Ask_Permission]))
     else sdk_subscribe = (Inl (Permission_Was Denied), []))"
  using vapid_subscribe_eq [of env fmt options] vapid_unsubscribe_eq [of env fmt options] sdk_without_worker [of env fmt "drop_empty options"]
    sdk_without_notifications [of env fmt "drop_empty options"]
  by (auto simp: Let_def vapid_subscribe_def vapid_unsubscribe_def)

theorem vapid_mirrors_sdk_witness:
  "vapid_subscribe fmt_nat sample_push_env sample_push_options = registerWebPushSubscription fmt_nat sample_push_env sample_push_options"
proof -
  have "drop_empty sample_push_options = sample_push_options" by (rule drop_empty_id) (simp_all add: sample_push_options_def)
  moreover have "isNotificationSupported (pe_browser sample_push_env)" "pe_serviceWorker sample_push_env"
    by (simp_all add: sample_push_env_def isNotificationSupported_def)
  ultimately show ?thesis using vapid_mirrors_sdk [where fmt = fmt_nat and env = sample_push_env and options = sample_push_options] by (simp add: Let_def)
qed

end
