(* ===== verification/Vapid_Popup.thy ===== *)
theory Vapid_Popup
  imports Vapid
begin

text \<open>
  The popup of \<open>sdk-wordpress/assets/js/mio-vapid-subscription.js\<close>: its storage, its style sheet, the element tree \<open>showPopup\<close>
  builds with \<open>assignStyle\<close>, and its event handlers. The file says that it mirrors the SDK's popup; the property proved here says
  exactly how: it is the SDK's popup for the same options with every empty text left out.
\<close>

section \<open>Elements\<close>

definition createElement :: "string \<Rightarrow> element" where
  "createElement tag = Element tag [] [] [] []"

definition set_attribute :: "string \<Rightarrow> js_string \<Rightarrow> element \<Rightarrow> element" where
  "set_attribute k v e = Element (el_tag e) (el_attrs e @ [(k, v)]) (el_style e) (el_text e) (el_children e)"

definition set_text :: "js_string \<Rightarrow> element \<Rightarrow> element" where
  "set_text t e = Element (el_tag e) (el_attrs e) (el_style e) t (el_children e)"

definition appendChild :: "element \<Rightarrow> element \<Rightarrow> element" where
  "appendChild c e = Element (el_tag e) (el_attrs e) (el_style e) (el_text e) (el_children e @ [c])"

text \<open>The loop over the keys of an object literal, which come in the order written.\<close>

fun assign_loop :: "css \<Rightarrow> css \<Rightarrow> css" where
  "assign_loop [] style = style"
| "assign_loop ((k, v) # rest) style = assign_loop rest (jset k v style)"

definition assignStyle :: "css \<Rightarrow> element \<Rightarrow> element" where
  "assignStyle styles e = Element (el_tag e) (el_attrs e) (assign_loop styles (el_style e)) (el_text e) (el_children e)"

text \<open>\<open>el.style.display = v\<close>, where the empty string takes the property away.\<close>

definition set_display :: "js_string \<Rightarrow> element \<Rightarrow> element" where
  "set_display v e = Element (el_tag e) (el_attrs e)
     (if v = [] then jdelete (js_of ''display'') (el_style e) else jset (js_of ''display'') v (el_style e)) (el_text e) (el_children e)"

section \<open>Storage and style sheet\<close>

definition vapid_writeDismissedAt :: "nat \<Rightarrow> js_string \<Rightarrow> local_storage \<Rightarrow> local_storage" where
  "vapid_writeDismissedAt now tenantId st =
     (if ls_writable st then st\<lparr>ls_items := jset (vapid_dismissedAtKey tenantId) (js_of_nat now) (ls_items st)\<rparr> else st)"

definition vapid_ensurePopupStylesInjected :: "element list \<Rightarrow> element list" where
  "vapid_ensurePopupStylesInjected head =
     (if list_ex (has_id (js_of ''mio-push-popup-styles'')) head then head
      else head @ [set_text (js_of
        (''@keyframes mio-push-popup-indeterminate { 0% { transform: translateX(-100%); } 100% { transform: translateX(250%); } }'' @
         ''@keyframes mio-push-popup-in { from { opacity: 0; transform: translateY(8px); } to { opacity: 1; transform: translateY(0); } }'' @
         ''.mio-push-popup-confirm:hover:not(:disabled) { filter: brightness(0.92); }'' @
         ''.mio-push-popup-dismiss:hover { opacity: 1 !important; }''))
        (set_attribute ''id'' (js_of ''mio-push-popup-styles'') (createElement ''style''))])"

section \<open>The card\<close>

record vapid_popup_options = vapid_options +
  vo_onSubscribed :: bool
  vo_onError :: bool
  vo_onDismiss :: bool

definition vapid_dark :: "'a vapid_options_scheme \<Rightarrow> bool" where
  "vapid_dark options \<longleftrightarrow> vo_theme options = Some (js_of ''dark'')"

definition vapid_accent :: "'a vapid_options_scheme \<Rightarrow> js_string" where
  "vapid_accent options = or_string (vo_accentColor options) (js_of ''#FF5E1A'')"

definition vapid_muted :: "'a vapid_options_scheme \<Rightarrow> js_string" where
  "vapid_muted options = js_of (if vapid_dark options then ''#a3a3ab'' else ''#5f6368'')"

definition vapid_overlay :: "'a vapid_options_scheme \<Rightarrow> element" where
  "vapid_overlay options =
     (let pos = js_split 45 (or_string (vo_position options) (js_of ''bottom-right''));
          overlayStyle = css_of [(''position'', ''fixed''), (''zIndex'', ''2147483000''), (''margin'', ''16px'')];
          overlayStyle = jset (part_or_undefined 0 pos) (js_of ''0'') overlayStyle;
          overlayStyle = jset (part_or_undefined 1 pos) (js_of ''0'') overlayStyle in
      assignStyle overlayStyle (createElement ''div''))"

definition vapid_card :: "'a vapid_options_scheme \<Rightarrow> element" where
  "vapid_card options =
     (let dark = vapid_dark options;
          bg = js_of (if dark then ''#1e1f26'' else ''#ffffff'');
          fg = js_of (if dark then ''#f3f3f5'' else ''#1a1a1a'');
          border = js_of (if dark then ''#33343d'' else ''#e0e0e0'') in
      assignStyle
        [(js_of ''width'', js_of ''320px''), (js_of ''maxWidth'', js_of ''calc(100vw - 32px)''), (js_of ''background'', bg),
         (js_of ''color'', fg), (js_of ''border'', js_of ''1px solid '' @ border), (js_of ''borderRadius'', js_of ''12px''),
         (js_of ''boxShadow'', js_of ''0 4px 24px rgba(0,0,0,0.18)''), (js_of ''padding'', js_of ''16px''),
         (js_of ''fontFamily'', js_of ''system-ui, -apple-system, Segoe UI, Roboto, sans-serif''),
         (js_of ''animation'', js_of ''mio-push-popup-in 0.2s ease-out''), (js_of ''position'', js_of ''relative''),
         (js_of ''overflow'', js_of ''hidden''), (js_of ''boxSizing'', js_of ''border-box'')]
        (createElement ''div''))"

definition vapid_dismissBtn :: "'a vapid_options_scheme \<Rightarrow> element" where
  "vapid_dismissBtn options =
     assignStyle
       [(js_of ''position'', js_of ''absolute''), (js_of ''top'', js_of ''8px''), (js_of ''right'', js_of ''8px''),
        (js_of ''width'', js_of ''24px''), (js_of ''height'', js_of ''24px''), (js_of ''lineHeight'', js_of ''24px''),
        (js_of ''textAlign'', js_of ''center''), (js_of ''border'', js_of ''none''), (js_of ''background'', js_of ''transparent''),
        (js_of ''color'', vapid_muted options), (js_of ''fontSize'', js_of ''18px''), (js_of ''cursor'', js_of ''pointer''),
        (js_of ''opacity'', js_of ''0.7''), (js_of ''padding'', js_of ''0'')]
       (set_attribute ''class'' (js_of ''mio-push-popup-dismiss'')
         (set_attribute ''aria-label'' (or_string (vo_dismissAriaLabel options) (js_of ''Dismiss''))
           (set_text [0xD7] (set_attribute ''type'' (js_of ''button'') (createElement ''button'')))))"

definition vapid_row :: "'a vapid_options_scheme \<Rightarrow> popup \<Rightarrow> element" where
  "vapid_row options p =
     (let row = assignStyle [(js_of ''display'', js_of ''flex''), (js_of ''gap'', js_of ''12px''), (js_of ''alignItems'', js_of ''flex-start''),
            (js_of ''paddingRight'', js_of ''20px'')] (createElement ''div'');
          icon = assignStyle [(js_of ''fontSize'', js_of ''24px''), (js_of ''lineHeight'', js_of ''1''), (js_of ''flexShrink'', js_of ''0'')]
            (set_text [0xD83D, 0xDD14] (createElement ''div''));
          textCol = assignStyle [(js_of ''minWidth'', js_of ''0'')] (createElement ''div'');
          titleEl = assignStyle [(js_of ''margin'', js_of ''0 0 4px''), (js_of ''fontSize'', js_of ''14px''), (js_of ''fontWeight'', js_of ''600'')]
            (set_text (or_string (vo_title options) (js_of ''Enable notifications?'')) (createElement ''p''));
          descEl = assignStyle [(js_of ''margin'', js_of ''0''), (js_of ''fontSize'', js_of ''13px''), (js_of ''color'', pp_descColor p),
              (js_of ''lineHeight'', js_of ''1.4'')] (set_text (pp_descText p) (createElement ''p'')) in
      appendChild (appendChild descEl (appendChild titleEl textCol)) (appendChild icon row))"

definition vapid_confirmBtn :: "'a vapid_options_scheme \<Rightarrow> popup \<Rightarrow> element" where
  "vapid_confirmBtn options p =
     (let btn = assignStyle
        [(js_of ''marginTop'', js_of ''14px''), (js_of ''width'', js_of ''100%''), (js_of ''border'', js_of ''none''),
         (js_of ''borderRadius'', js_of ''999px''), (js_of ''background'', vapid_accent options), (js_of ''color'', js_of ''#ffffff''),
         (js_of ''fontSize'', js_of ''14px''), (js_of ''fontWeight'', js_of ''600''), (js_of ''padding'', js_of ''10px 16px''),
         (js_of ''cursor'', js_of ''pointer'')]
        (set_text (pp_confirmText p) (set_attribute ''class'' (js_of ''mio-push-popup-confirm'')
          (set_attribute ''type'' (js_of ''button'') (createElement ''button'')))) in
      if pp_disabled p then set_attribute ''disabled'' [] btn else btn)"

definition vapid_progress :: "'a vapid_options_scheme \<Rightarrow> element" where
  "vapid_progress options =
     (let progress = assignStyle
            [(js_of ''position'', js_of ''absolute''), (js_of ''top'', js_of ''0''), (js_of ''left'', js_of ''0''), (js_of ''right'', js_of ''0''),
             (js_of ''height'', js_of ''3px''), (js_of ''overflow'', js_of ''hidden''), (js_of ''background'', js_of ''transparent''),
             (js_of ''display'', js_of ''none'')] (createElement ''div'');
          progressBar = assignStyle
            [(js_of ''width'', js_of ''40%''), (js_of ''height'', js_of ''100%''), (js_of ''background'', vapid_accent options),
             (js_of ''animation'', js_of ''mio-push-popup-indeterminate 1s linear infinite'')] (createElement ''div'') in
      appendChild progressBar progress)"

text \<open>The tree in the state \<open>p\<close>: the handlers assign \<open>display\<close> of the progress bar and of the dismiss button.\<close>

definition vapid_view :: "'a vapid_options_scheme \<Rightarrow> popup \<Rightarrow> element" where
  "vapid_view options p =
     (let card = vapid_card options;
          card = appendChild (set_display (pp_progressDisplay p) (vapid_progress options)) card;
          card = appendChild (set_display (pp_dismissDisplay p) (vapid_dismissBtn options)) card;
          card = appendChild (vapid_row options p) card;
          card = appendChild (vapid_confirmBtn options p) card in
      appendChild card (vapid_overlay options))"

section \<open>The handlers\<close>

definition vapid_opened :: "'a vapid_options_scheme \<Rightarrow> local_storage \<Rightarrow> popup" where
  "vapid_opened options st =
     \<lparr>pp_visible = True, pp_listening = True, pp_disabled = False,
      pp_confirmText = or_string (vo_confirmLabel options) (js_of ''Enable''),
      pp_dismissDisplay = [], pp_progressDisplay = js_of ''none'',
      pp_descText = or_string (vo_description options) (js_of ''Get notified about new activity, even when this tab is closed.''),
      pp_descColor = vapid_muted options, pp_pending = 0, pp_storage = st, pp_log = []\<rparr>"

definition showPopup :: "browser \<Rightarrow> bool \<Rightarrow> nat \<Rightarrow> local_storage \<Rightarrow> 'a vapid_options_scheme \<Rightarrow> popup option" where
  "showPopup b has_document now st options =
     (if vapid_popup_allowed b has_document now st (po_tenantId options) (vo_repromptIntervalDays options)
      then Some (vapid_opened options st) else None)"

definition vapid_remove :: "popup \<Rightarrow> popup" where
  "vapid_remove p = (let p = (if pp_visible p then p\<lparr>pp_visible := False\<rparr> else p) in p\<lparr>pp_listening := False\<rparr>)"

definition vapid_dismiss :: "vapid_popup_options \<Rightarrow> nat \<Rightarrow> popup \<Rightarrow> popup" where
  "vapid_dismiss options now p =
     (let p = p\<lparr>pp_storage := vapid_writeDismissedAt now (po_tenantId options) (pp_storage p)\<rparr>; p = vapid_remove p in
      if vo_onDismiss options then p\<lparr>pp_log := pp_log p @ [On_Dismiss]\<rparr> else p)"

definition vapid_keydown :: "vapid_popup_options \<Rightarrow> nat \<Rightarrow> js_string \<Rightarrow> popup \<Rightarrow> popup" where
  "vapid_keydown options now key p = (if key = js_of ''Escape'' then vapid_dismiss options now p else p)"

definition vapid_confirm :: "popup \<Rightarrow> popup" where
  "vapid_confirm p =
     (let p = p\<lparr>pp_disabled := True\<rparr>; p = p\<lparr>pp_confirmText := [0x2026]\<rparr>; p = p\<lparr>pp_dismissDisplay := js_of ''none''\<rparr>;
          p = p\<lparr>pp_progressDisplay := js_of ''block''\<rparr> in
      p\<lparr>pp_pending := pp_pending p + 1\<rparr>)"

text \<open>\<open>err.message\<close>, or \<open>String(err)\<close> if that is empty.\<close>

definition vapid_error_text :: "(push_error \<Rightarrow> js_string) \<Rightarrow> (push_error \<Rightarrow> js_string) \<Rightarrow> push_error \<Rightarrow> js_string" where
  "vapid_error_text msg as_text e = (if error_message msg e \<noteq> [] then error_message msg e else as_text e)"

definition vapid_settled ::
  "(push_error \<Rightarrow> js_string) \<Rightarrow> (push_error \<Rightarrow> js_string) \<Rightarrow> vapid_popup_options \<Rightarrow> push_error + push_info \<Rightarrow> popup \<Rightarrow> popup" where
  "vapid_settled msg as_text options outcome p0 =
     (let p = p0\<lparr>pp_pending := pp_pending p0 - 1\<rparr> in
      case outcome of
        Inr result \<Rightarrow>
          (let p = vapid_remove p in if vo_onSubscribed options then p\<lparr>pp_log := pp_log p @ [On_Subscribed result]\<rparr> else p)
      | Inl e \<Rightarrow>
          (let p = p\<lparr>pp_progressDisplay := js_of ''none''\<rparr>; p = p\<lparr>pp_disabled := False\<rparr>;
               p = p\<lparr>pp_confirmText := or_string (vo_confirmLabel options) (js_of ''Enable'')\<rparr>; p = p\<lparr>pp_dismissDisplay := []\<rparr>;
               p = p\<lparr>pp_descText := vapid_error_text msg as_text e\<rparr>;
               p = p\<lparr>pp_descColor := js_of (if vapid_dark options then ''#ff8a8a'' else ''#c5221f'')\<rparr> in
           if vo_onError options then p\<lparr>pp_log := pp_log p @ [On_Error (error_message msg e)]\<rparr> else p))"

section \<open>It is the SDK's popup\<close>

text \<open>The SDK's options that mean the same: \<open>||\<close> treats an empty text, and NaN, as an absent one.\<close>

definition finite_days :: "js_number option \<Rightarrow> rat option" where
  "finite_days days =
     (case days of Some (Fin neg n d) \<Rightarrow> Some (if neg then - (of_nat n / of_nat d) else of_nat n / of_nat d) | _ \<Rightarrow> None)"

definition sdk_popup_options :: "vapid_popup_options \<Rightarrow> popup_options" where
  "sdk_popup_options v =
     \<lparr>po_apiBaseUrl = po_apiBaseUrl v, po_token = po_token v, po_tenantId = po_tenantId v, po_vapidPublicKey = po_vapidPublicKey v,
      po_channels = po_channels v, po_swUrl = po_swUrl v, po_deviceLabel = po_deviceLabel v,
      po_title = or_undefined (vo_title v), po_description = or_undefined (vo_description v),
      po_confirmLabel = or_undefined (vo_confirmLabel v), po_dismissAriaLabel = or_undefined (vo_dismissAriaLabel v),
      po_accentColor = or_undefined (vo_accentColor v), po_theme = vo_theme v, po_position = or_undefined (vo_position v),
      po_repromptIntervalDays = finite_days (vo_repromptIntervalDays v), po_onSubscribed = vo_onSubscribed v, po_onError = vo_onError v, po_onDismiss = vo_onDismiss v\<rparr>"

lemma or_string_undefined: "or_default (or_undefined v) d = or_string v d"
  by (auto simp: or_string_def or_default_def or_undefined_def split: option.split)

lemma js_of_inj: "js_of s = js_of t \<longleftrightarrow> s = t"
proof -
  have "inj (\<lambda>c::char. of_nat (of_char c) :: code_unit)"
  proof (rule injI)
    fix c d :: char assume "(of_nat (of_char c) :: code_unit) = of_nat (of_char d)"
    then have "of_char c mod (2::nat) ^ 16 = of_char d mod 2 ^ 16" by (simp add: word_of_nat_eq_iff take_bit_eq_mod)
    moreover have "of_char c < (2::nat) ^ 16" "of_char d < (2::nat) ^ 16" by (rule order.strict_trans [OF nat_of_char_less_256], simp)+
    ultimately show "c = d" by simp
  qed
  then show ?thesis by (simp add: js_of_def inj_map_eq_map)
qed

lemma assign_loop_append:
  "distinct (jkeys (style @ styles)) \<Longrightarrow> assign_loop styles style = style @ styles"
proof (induction styles style rule: assign_loop.induct)
  case (2 k v rest style)
  have "k \<notin> set (jkeys style)" using 2(2) by (auto simp: jkeys_def)
  then have e: "jset k v style = style @ [(k, v)]" by (rule jset_fresh)
  show ?case using 2 unfolding assign_loop.simps e by (simp add: jkeys_def)
qed simp

lemma assign_loop_Nil: "jmap_ok styles \<Longrightarrow> assign_loop styles [] = styles"
  by (rule assign_loop_append [of "[]", simplified]) (simp add: jmap_ok_def)

lemmas element_defs = createElement_def set_attribute_def set_text_def appendChild_def assignStyle_def set_display_def

lemma jmap_ok_Cons: "jmap_ok ((k, v) # m) \<longleftrightarrow> k \<notin> set (jkeys m) \<and> jmap_ok m"
  by (auto simp: jmap_ok_def jkeys_def)

lemma jkeys_eqs: "jkeys [] = []" "jkeys ((k, v) # m) = k # jkeys m"
  by (simp_all add: jkeys_def)

lemma jset_Cons: "jset k v ((k', v') # m) = (if k = k' then (k, v) # m else (k', v') # jset k v m)" "jset k v [] = [(k, v)]"
  by (simp_all add: jset_def)

lemma jdelete_Cons: "jdelete k ((k', v') # m) = (if k = k' then jdelete k m else (k', v') # jdelete k m)" "jdelete k [] = []"
  by (simp_all add: jdelete_def)

lemmas style_simps = jmap_ok_Cons jkeys_eqs js_of_inj css_of_def jset_Cons jdelete_Cons

text \<open>\<open>options_palette\<close> of the SDK's options, field by field.\<close>

lemma sdk_palette:
  "pl_accent (options_palette (sdk_popup_options v)) = vapid_accent v"
  "pl_muted (options_palette (sdk_popup_options v)) = vapid_muted v"
  "pl_bg (options_palette (sdk_popup_options v)) = js_of (if vapid_dark v then ''#1e1f26'' else ''#ffffff'')"
  "pl_fg (options_palette (sdk_popup_options v)) = js_of (if vapid_dark v then ''#f3f3f5'' else ''#1a1a1a'')"
  "pl_border (options_palette (sdk_popup_options v)) = js_of (if vapid_dark v then ''#33343d'' else ''#e0e0e0'')"
  "pl_error (options_palette (sdk_popup_options v)) = js_of (if vapid_dark v then ''#ff8a8a'' else ''#c5221f'')"
  by (simp_all add: options_palette_def popup_palette_def Let_def sdk_popup_options_def vapid_accent_def vapid_muted_def vapid_dark_def
      or_string_undefined del: js_of_simps)

lemma vapid_overlay_eq:
  "vapid_overlay v = Element ''div'' [] (position_style (po_position (sdk_popup_options v))) [] []"
proof -
  have "jmap_ok (css_of [(''position'', ''fixed''), (''zIndex'', ''2147483000''), (''margin'', ''16px'')])"
    by (simp add: style_simps del: js_of_simps)
  then have "jmap_ok (position_style (po_position (sdk_popup_options v)))"
    by (simp add: position_style_def Let_def jmap_ok_intros del: js_of_simps)
  then show ?thesis
    by (simp add: vapid_overlay_def element_defs position_style_def Let_def assign_loop_Nil sdk_popup_options_def or_string_undefined del: js_of_simps)
qed

lemma vapid_card_eq: "vapid_card v = Element ''div'' [] (card_style (options_palette (sdk_popup_options v))) [] []"
  by (simp add: vapid_card_def card_style_def sdk_palette element_defs style_simps Let_def del: js_of_simps)

lemma vapid_row_eq: "vapid_row v p = text_row (sdk_popup_options v) p"
  by (simp add: vapid_row_def text_row_def element_defs style_simps Let_def sdk_popup_options_def or_string_undefined del: js_of_simps)

lemma vapid_confirmBtn_eq: "vapid_confirmBtn v p = confirm_button (sdk_popup_options v) p"
  by (simp add: vapid_confirmBtn_def confirm_button_def sdk_palette element_defs style_simps Let_def del: js_of_simps)

lemma vapid_dismissBtn_eq: "set_display (pp_dismissDisplay p) (vapid_dismissBtn v) = dismiss_button (sdk_popup_options v) p"
  by (simp add: vapid_dismissBtn_def dismiss_button_def sdk_palette element_defs style_simps css_display_def Let_def
      sdk_popup_options_def [THEN arg_cong, of po_dismissAriaLabel] or_string_undefined del: js_of_simps)

lemma vapid_progress_eq: "set_display (pp_progressDisplay p) (vapid_progress v) = progress_element (sdk_popup_options v) p"
  by (simp add: vapid_progress_def progress_element_def sdk_palette element_defs style_simps css_display_def Let_def
      del: js_of_simps)

lemma vapid_view_eq: "vapid_view v p = popup_view (sdk_popup_options v) p"
  by (simp add: vapid_view_def popup_view_def Let_def vapid_overlay_eq vapid_card_eq vapid_row_eq vapid_confirmBtn_eq vapid_dismissBtn_eq
      vapid_progress_eq appendChild_def del: js_of_simps)

lemma vapid_storage_eq: "vapid_readDismissedAt = readDismissedAt" "vapid_writeDismissedAt = writeDismissedAt"
  by (intro ext, simp add: vapid_readDismissedAt_def readDismissedAt_def vapid_dismissedAtKey_def dismissedAtKey_def DISMISSED_AT_KEY_PREFIX_def
      vapid_writeDismissedAt_def writeDismissedAt_def del: js_of_simps)+

lemma vapid_allowed_eq:
  assumes "\<forall>s. days \<noteq> Some (Infinite s)"
  shows "vapid_popup_allowed b doc now st tenantId days = popup_allowed b doc now st tenantId (or_default (finite_days days) 0)"
proof -
  have "vapid_blocked now since (or_default days (Fin False 0 1)) \<longleftrightarrow>
      interval_ms (or_default (finite_days days) 0) \<le> 0 \<or> elapsed_less now since (interval_ms (or_default (finite_days days) 0))" for since
  proof (cases days)
    case (Some x)
    then show ?thesis using assms by (cases x) (simp_all add: finite_days_def or_default_def interval_ms_def Let_def)
  qed (simp add: finite_days_def or_default_def interval_ms_def Let_def)
  then show ?thesis by (simp add: vapid_popup_allowed_def vapid_storage_eq popup_allowed_def split: option.split)
qed

lemma vapid_opened_eq: "vapid_opened v st = popup_opened (sdk_popup_options v) st"
  by (simp add: vapid_opened_def popup_opened_def confirm_label_def sdk_palette del: js_of_simps)
    (simp add: sdk_popup_options_def or_string_undefined del: js_of_simps)

lemma vapid_remove_eq: "vapid_remove p = popup_remove p"
  by (simp add: vapid_remove_def popup_remove_def Let_def)

lemma vapid_dismiss_eq: "vapid_dismiss v now p = popup_dismiss (sdk_popup_options v) now p"
  by (simp add: vapid_dismiss_def popup_dismiss_def popup_callback_def vapid_storage_eq vapid_remove_eq Let_def)
    (simp add: sdk_popup_options_def)

lemma vapid_settled_eq:
  assumes "\<And>e. msg e \<noteq> []"
  shows "vapid_settled msg as_text v outcome p = popup_settled msg (sdk_popup_options v) outcome p"
proof -
  have "error_message msg e \<noteq> []" for e using assms by (cases e) simp_all
  moreover have "confirm_label (sdk_popup_options v) = or_string (vo_confirmLabel v) (js_of ''Enable'')"
    by (simp add: confirm_label_def sdk_popup_options_def or_string_undefined del: js_of_simps)
  moreover have "po_onSubscribed (sdk_popup_options v) = vo_onSubscribed v" "po_onError (sdk_popup_options v) = vo_onError v"
    by (simp_all add: sdk_popup_options_def)
  ultimately show ?thesis
    by (cases outcome) (simp_all add: vapid_settled_def popup_settled_def vapid_error_text_def popup_callback_def vapid_remove_eq sdk_palette Let_def
        del: js_of_simps)
qed

text \<open>
  C18. The popup of the script is the SDK's popup, for the same options with empty texts left out: it appears under the same conditions (for a re-prompt interval that is not infinite),
  builds the same element tree in every state, with the same styles in the same order, and each of its handlers - dismissing, the Escape key, confirming, closing, the outcome of the
  registration - makes the same changes, the same entries in \<open>localStorage\<close> and the same callbacks. (For an error without a message the script shows \<open>String(err)\<close> instead.)
\<close>

theorem vapid_popup_is_sdk_popup:
  assumes "\<forall>s. vo_repromptIntervalDays v \<noteq> Some (Infinite s)" "\<forall>e. msg e \<noteq> []"
  shows "showPopup b has_document now st v = showPushPermissionPopup b has_document now st (sdk_popup_options v) \<and>
    vapid_view v p = popup_view (sdk_popup_options v) p \<and>
    vapid_dismiss v now p = popup_dismiss (sdk_popup_options v) now p \<and>
    vapid_keydown v now key p = popup_keydown (sdk_popup_options v) now key p \<and>
    vapid_confirm p = popup_confirm p \<and>
    vapid_remove p = popup_remove p \<and>
    vapid_settled msg as_text v outcome p = popup_settled msg (sdk_popup_options v) outcome p"
proof (intro conjI)
  have "po_tenantId (sdk_popup_options v) = po_tenantId v"
    "po_repromptIntervalDays (sdk_popup_options v) = finite_days (vo_repromptIntervalDays v)" by (simp_all add: sdk_popup_options_def)
  then show "showPopup b has_document now st v = showPushPermissionPopup b has_document now st (sdk_popup_options v)"
    using assms(1) by (simp add: showPopup_def showPushPermissionPopup_def vapid_allowed_eq vapid_opened_eq)
  show "vapid_view v p = popup_view (sdk_popup_options v) p" by (rule vapid_view_eq)
  show "vapid_dismiss v now p = popup_dismiss (sdk_popup_options v) now p" by (rule vapid_dismiss_eq)
  show "vapid_keydown v now key p = popup_keydown (sdk_popup_options v) now key p"
    by (simp add: vapid_keydown_def popup_keydown_def vapid_dismiss_eq)
  show "vapid_confirm p = popup_confirm p" by (simp add: vapid_confirm_def popup_confirm_def Let_def del: js_of_simps)
  show "vapid_remove p = popup_remove p" by (rule vapid_remove_eq)
  show "vapid_settled msg as_text v outcome p = popup_settled msg (sdk_popup_options v) outcome p"
    using assms(2) by (intro vapid_settled_eq) simp
qed

definition sample_vapid_options :: vapid_popup_options where
  "sample_vapid_options =
     \<lparr>po_apiBaseUrl = js_of ''https://mio.example'', po_token = js_of ''t'', po_tenantId = js_of ''acme'', po_vapidPublicKey = js_of ''AAAA'',
      po_channels = None, po_swUrl = None, po_deviceLabel = None,
      vo_title = Some [], vo_description = None, vo_confirmLabel = Some (js_of ''Yes''), vo_dismissAriaLabel = None, vo_accentColor = Some [],
      vo_theme = Some (js_of ''dark''), vo_position = None, vo_repromptIntervalDays = Some NaN,
      vo_onSubscribed = True, vo_onError = True, vo_onDismiss = True\<rparr>"

theorem vapid_popup_is_sdk_popup_witness:
  "popup_view (sdk_popup_options sample_vapid_options) (vapid_opened sample_vapid_options \<lparr>ls_items = [], ls_readable = True, ls_writable = True\<rparr>) =
     vapid_view sample_vapid_options (vapid_opened sample_vapid_options \<lparr>ls_items = [], ls_readable = True, ls_writable = True\<rparr>) \<and>
   po_title (sdk_popup_options sample_vapid_options) = None"
proof -
  have "\<forall>s. vo_repromptIntervalDays sample_vapid_options \<noteq> Some (Infinite s)" by (simp add: sample_vapid_options_def)
  moreover have "\<forall>e. (\<lambda>_. js_of ''failed'') (e :: push_error) \<noteq> []" by simp
  ultimately show ?thesis
    using vapid_popup_is_sdk_popup [of sample_vapid_options "\<lambda>_. js_of ''failed''"]
    by (simp add: sdk_popup_options_def sample_vapid_options_def or_undefined_def del: js_of_simps)
qed

end
