(* ===== verification/Mio_Notifications.thy ===== *)
theory Mio_Notifications
  imports Mio_Feed Vapid_Popup
begin

text \<open>
  The background notifications of the small client, at the end of \<open>sdk-wordpress/assets/js/mio-client.js\<close> and, word for word, of \<open>mio-embed.js\<close>. They mirror those of the SDK.
\<close>

definition mio_isNotificationSupported :: "browser \<Rightarrow> bool" where
  "mio_isNotificationSupported b \<longleftrightarrow> bw_window b \<and> bw_notification b"

definition mio_requestNotificationPermission :: "browser \<Rightarrow> permission \<Rightarrow> permission" where
  "mio_requestNotificationPermission b answer = (if \<not> mio_isNotificationSupported b then Denied else answer)"

text \<open>\<open>options || {}\<close>\<close>

definition no_options :: notification_options where
  "no_options = \<lparr>no_filter = None, no_title = None, no_body = None, no_icon = None, no_onClick = False\<rparr>"

definition mio_showBackgroundNotification :: "browser \<Rightarrow> realtime_message \<Rightarrow> notification_options option \<Rightarrow> native_notification option" where
  "mio_showBackgroundNotification b message options0 =
     (if \<not> mio_isNotificationSupported b then None
      else (let options = or_default options0 no_options in
        if bw_permission b \<noteq> Granted then None
        else if bw_visible b \<and> bw_focus b then None
        else if (case no_filter options of None \<Rightarrow> False | Some f \<Rightarrow> \<not> f message) then None
        else (let title = (case no_title options of Some f \<Rightarrow> f message | None \<Rightarrow> rm_channelId message);
                  body = (case no_body options of Some f \<Rightarrow> f message | None \<Rightarrow> rm_payload message) in
          Some \<lparr>nn_title = title, nn_body = body, nn_icon = no_icon options\<rparr>)))"

definition mio_attachBackgroundNotifications :: "browser \<Rightarrow> nat \<Rightarrow> mio_op" where
  "mio_attachBackgroundNotifications b l c =
     (if \<not> mio_isNotificationSupported b then (None, c) else mio_on (js_of ''message'') l c)"

lemma mio_notifications_mirror:
  "mio_showBackgroundNotification b m (Some options) = showBackgroundNotification b m options"
  "mio_requestNotificationPermission b answer = requestNotificationPermission b answer"
  by (simp_all add: mio_showBackgroundNotification_def showBackgroundNotification_def mio_isNotificationSupported_def isNotificationSupported_def
      or_default_def Let_def mio_requestNotificationPermission_def requestNotificationPermission_def)

end
