(* ===== verification/Web_Chat.thy ===== *)
theory Web_Chat
  imports JS_Object Popup
begin

text \<open>
  The state of the chat application (\<open>web-client/src\<close>): the envelope of a message (\<open>chatEnvelope.action.ts\<close>), the list of
  in-app notifications (\<open>notifications.store.ts\<close>), the connection store over the SDK's client (\<open>connection.store.ts\<close>) and the
  chat store (\<open>chat.store.ts\<close>) with the hooks that call it. A store is a record, each of its actions a function on it; what \<open>randomId\<close> and
  \<open>Date.now\<close> return are arguments. The persisted parts are the fields \<open>credentials\<close> and \<open>channelIds\<close>.
\<close>

section \<open>Envelopes\<close>

definition MAX_CHANNEL_ID_BYTES :: nat where "MAX_CHANNEL_ID_BYTES = 24"
definition MAX_PAYLOAD_BYTES :: nat where "MAX_PAYLOAD_BYTES = 211"

definition chat_utf8ByteLength :: "js_string \<Rightarrow> nat" where
  "chat_utf8ByteLength s = length (text_encode s)"

record chat_envelope =
  ce_from :: js_string
  ce_text :: js_string

definition chat_json :: "js_string \<Rightarrow> js_string \<Rightarrow> json" where
  "chat_json sender body = JObj [(js_of ''from'', JStr sender), (js_of ''text'', JStr body)]"

text \<open>The loop that drops code units from the end of the text; \<open>fmt\<close> prints numbers, of which there are none.\<close>

function shrink_text :: "(js_number \<Rightarrow> js_string) \<Rightarrow> js_string \<Rightarrow> js_string \<Rightarrow> js_string" where
  "shrink_text fmt sender body =
     (let json = json_stringify fmt (chat_json sender body) in
      if chat_utf8ByteLength json > MAX_PAYLOAD_BYTES \<and> body \<noteq> [] then shrink_text fmt sender (butlast body) else json)"
  by auto
termination by (relation "measure (\<lambda>(_, _, body). length body)") simp_all

declare shrink_text.simps [simp del]

definition encodeChatEnvelope :: "(js_number \<Rightarrow> js_string) \<Rightarrow> chat_envelope \<Rightarrow> js_string" where
  "encodeChatEnvelope fmt e = shrink_text fmt (ce_from e) (ce_text e)"

definition decodeChatEnvelope :: "js_string \<Rightarrow> chat_envelope option" where
  "decodeChatEnvelope payload =
     (case json_parse payload of
        None \<Rightarrow> None
      | Some parsed \<Rightarrow>
          (case (jfield (js_of ''from'') parsed, jfield (js_of ''text'') parsed) of
             (Some (JStr f), Some (JStr t)) \<Rightarrow> Some \<lparr>ce_from = f, ce_text = t\<rparr>
           | _ \<Rightarrow> None))"

lemma decode_chat_json: "decodeChatEnvelope (json_stringify fmt (chat_json f t)) = Some \<lparr>ce_from = f, ce_text = t\<rparr>"
proof -
  have "json_parse (json_stringify fmt (chat_json f t)) = Some (chat_json f t)"
    by (rule js.dec_enc) (simp add: chat_json_def jmap_ok_def jkeys_def)
  then show ?thesis by (simp add: decodeChatEnvelope_def chat_json_def jget_def)
qed

lemma shrink_text_spec:
  "\<exists>k \<le> length body. shrink_text fmt f body = json_stringify fmt (chat_json f (take k body)) \<and>
     (k = 0 \<or> chat_utf8ByteLength (shrink_text fmt f body) \<le> MAX_PAYLOAD_BYTES) \<and>
     (\<forall>j. k < j \<longrightarrow> j \<le> length body \<longrightarrow> MAX_PAYLOAD_BYTES < chat_utf8ByteLength (json_stringify fmt (chat_json f (take j body))))"
proof (induction fmt f body rule: shrink_text.induct)
  case (1 fmt f body)
  let ?json = "json_stringify fmt (chat_json f body)"
  show ?case
  proof (cases "chat_utf8ByteLength ?json > MAX_PAYLOAD_BYTES \<and> body \<noteq> []")
    case True
    obtain k where k: "k \<le> length (butlast body)" "shrink_text fmt f (butlast body) = json_stringify fmt (chat_json f (take k (butlast body)))"
      "k = 0 \<or> chat_utf8ByteLength (shrink_text fmt f (butlast body)) \<le> MAX_PAYLOAD_BYTES"
      "\<And>j. k < j \<Longrightarrow> j \<le> length (butlast body) \<Longrightarrow> MAX_PAYLOAD_BYTES < chat_utf8ByteLength (json_stringify fmt (chat_json f (take j (butlast body))))"
      using "1.IH" [OF refl True] by blast
    have eq: "shrink_text fmt f body = shrink_text fmt f (butlast body)" using True by (subst shrink_text.simps) (simp add: Let_def)
    have t: "take j (butlast body) = take j body" if "j \<le> length (butlast body)" for j
    proof (rule take_butlast)
      have "0 < length body" using True by simp
      then show "j < length body" using that unfolding length_butlast by linarith
    qed
    have more: "MAX_PAYLOAD_BYTES < chat_utf8ByteLength (json_stringify fmt (chat_json f (take j body)))" if "k < j" "j \<le> length body" for j
      using k(4) [OF that(1)] True t [of j] that by (cases "j = length body") auto
    show ?thesis using k(1-3) eq t [OF k(1)] more by (intro exI [of _ k]) auto
  next
    case False
    then have "shrink_text fmt f body = ?json" by (subst shrink_text.simps) (auto simp: Let_def)
    then show ?thesis using False by (intro exI [of _ "length body"]) auto
  qed
qed

text \<open>
  C16. The loop that fits a chat message into a frame ends, and its result is read back by \<open>decodeChatEnvelope\<close> as the same sender with a prefix of the text. The prefix is the
  longest one that fits into 211 bytes; if not even the empty text fits, because of a long display name, the text is empty.
\<close>

theorem chat_envelope_fits:
  "\<exists>k \<le> length (ce_text e).
     decodeChatEnvelope (encodeChatEnvelope fmt e) = Some \<lparr>ce_from = ce_from e, ce_text = take k (ce_text e)\<rparr> \<and>
     (k = 0 \<or> chat_utf8ByteLength (encodeChatEnvelope fmt e) \<le> MAX_PAYLOAD_BYTES) \<and>
     (\<forall>j \<in> {k<..length (ce_text e)}.
        MAX_PAYLOAD_BYTES < chat_utf8ByteLength (json_stringify fmt (chat_json (ce_from e) (take j (ce_text e)))))"
proof -
  obtain k where k: "k \<le> length (ce_text e)" "encodeChatEnvelope fmt e = json_stringify fmt (chat_json (ce_from e) (take k (ce_text e)))"
    "k = 0 \<or> chat_utf8ByteLength (encodeChatEnvelope fmt e) \<le> MAX_PAYLOAD_BYTES"
    "\<forall>j. k < j \<longrightarrow> j \<le> length (ce_text e) \<longrightarrow>
       MAX_PAYLOAD_BYTES < chat_utf8ByteLength (json_stringify fmt (chat_json (ce_from e) (take j (ce_text e))))"
    using shrink_text_spec [of "ce_text e" fmt "ce_from e"] unfolding encodeChatEnvelope_def by blast
  moreover from k(2) have "decodeChatEnvelope (encodeChatEnvelope fmt e) = Some \<lparr>ce_from = ce_from e, ce_text = take k (ce_text e)\<rparr>"
    by (simp add: decode_chat_json)
  ultimately show ?thesis by (intro exI [of _ k]) simp
qed

theorem chat_envelope_fits_witness:
  "\<exists>k \<le> 2. decodeChatEnvelope (encodeChatEnvelope fmt_nat \<lparr>ce_from = js_of ''me'', ce_text = js_of ''hi''\<rparr>) =
     Some \<lparr>ce_from = js_of ''me'', ce_text = take k (js_of ''hi'')\<rparr>"
proof -
  from chat_envelope_fits [of "\<lparr>ce_from = js_of ''me'', ce_text = js_of ''hi''\<rparr>" fmt_nat]
  obtain k where "k \<le> length (js_of ''hi'')"
    "decodeChatEnvelope (encodeChatEnvelope fmt_nat \<lparr>ce_from = js_of ''me'', ce_text = js_of ''hi''\<rparr>) =
      Some \<lparr>ce_from = js_of ''me'', ce_text = take k (js_of ''hi'')\<rparr>" by (simp only: chat_envelope.select_convs) blast
  then show ?thesis by (intro exI [of _ k]) simp
qed

section \<open>Notifications in the page\<close>

definition MAX_NOTIFICATIONS :: nat where "MAX_NOTIFICATIONS = 100"

record app_notification =
  an_id :: js_string
  an_channelId :: js_string
  an_preview :: js_string
  an_createdAt :: int
  an_read :: bool

record notification_state =
  nt_items :: "app_notification list"
  nt_unreadCount :: nat

definition notifications_init :: notification_state where
  "notifications_init = \<lparr>nt_items = [], nt_unreadCount = 0\<rparr>"

definition notifications_push :: "js_string \<Rightarrow> int \<Rightarrow> js_string \<Rightarrow> js_string \<Rightarrow> notification_state \<Rightarrow> notification_state" where
  "notifications_push rid now channelId preview s =
     (let n = \<lparr>an_id = rid, an_channelId = channelId, an_preview = preview, an_createdAt = now, an_read = False\<rparr> in
      \<lparr>nt_items = take MAX_NOTIFICATIONS (n # nt_items s), nt_unreadCount = nt_unreadCount s + 1\<rparr>)"

definition markAllRead :: "notification_state \<Rightarrow> notification_state" where
  "markAllRead s = \<lparr>nt_items = map (\<lambda>n. n\<lparr>an_read := True\<rparr>) (nt_items s), nt_unreadCount = 0\<rparr>"

definition notifications_clear :: "notification_state \<Rightarrow> notification_state" where
  "notifications_clear s = \<lparr>nt_items = [], nt_unreadCount = 0\<rparr>"

datatype notification_op = Push js_string int js_string js_string | Mark_All_Read | Clear_All

fun notification_step :: "notification_op \<Rightarrow> notification_state \<Rightarrow> notification_state" where
  "notification_step (Push rid now ch p) s = notifications_push rid now ch p s"
| "notification_step Mark_All_Read s = markAllRead s"
| "notification_step Clear_All s = notifications_clear s"

text \<open>The unread ones come first.\<close>

definition notifications_ok :: "notification_state \<Rightarrow> bool" where
  "notifications_ok s \<longleftrightarrow> length (nt_items s) \<le> MAX_NOTIFICATIONS \<and>
     (\<exists>us rs. nt_items s = us @ rs \<and> (\<forall>n \<in> set us. \<not> an_read n) \<and> (\<forall>n \<in> set rs. an_read n) \<and>
        length us = min (nt_unreadCount s) MAX_NOTIFICATIONS)"

lemma notifications_ok_push:
  assumes "notifications_ok s"
  shows "notifications_ok (notifications_push rid now ch p s)"
proof -
  obtain us rs where u: "nt_items s = us @ rs" "\<forall>n \<in> set us. \<not> an_read n" "\<forall>n \<in> set rs. an_read n"
    "length us = min (nt_unreadCount s) MAX_NOTIFICATIONS" using assms by (auto simp: notifications_ok_def)
  let ?n = "\<lparr>an_id = rid, an_channelId = ch, an_preview = p, an_createdAt = now, an_read = False\<rparr>"
  let ?us = "take MAX_NOTIFICATIONS (?n # us)" and ?rs = "take (MAX_NOTIFICATIONS - Suc (length us)) rs"
  have "nt_items (notifications_push rid now ch p s) = ?us @ ?rs"
    by (simp add: notifications_push_def Let_def u(1) MAX_NOTIFICATIONS_def take_Cons')
  moreover have "\<forall>n \<in> set ?us. \<not> an_read n" "\<forall>n \<in> set ?rs. an_read n"
    using u(2,3) by (auto dest!: in_set_takeD)
  moreover have "length ?us = min (Suc (nt_unreadCount s)) MAX_NOTIFICATIONS" using u(4) by (simp add: min_def)
  ultimately show ?thesis unfolding notifications_ok_def
    by (intro conjI exI [of _ ?us] exI [of _ ?rs]) (auto simp: notifications_push_def Let_def)
qed

interpretation ns: guarded_machine notifications_init notification_step notifications_ok
proof
  show "notifications_ok notifications_init" by (simp add: notifications_ok_def notifications_init_def)
  fix s :: notification_state and op
  assume s: "notifications_ok s"
  show "notifications_ok (notification_step op s)"
  proof (cases op)
    case Mark_All_Read
    then show ?thesis using s unfolding notifications_ok_def
      by (intro conjI exI [of _ "[]"] exI [of _ "nt_items (markAllRead s)"]) (auto simp: markAllRead_def)
  qed (use s in \<open>auto simp: notifications_ok_push notifications_clear_def notifications_ok_def [of "\<lparr>nt_items = [], nt_unreadCount = 0\<rparr>"]\<close>)
qed

text \<open>
  After any history of the notification list: it holds at most 100 entries, and the unread badge counts its unread entries exactly, until more than 100 arrive
  unread; then the badge goes on counting while the list keeps the newest 100.
\<close>

theorem unread_badge_counts:
  "let s = fold notification_step ops notifications_init in
   length (nt_items s) \<le> MAX_NOTIFICATIONS \<and>
   length (filter (\<lambda>n. \<not> an_read n) (nt_items s)) = min (nt_unreadCount s) MAX_NOTIFICATIONS"
proof -
  have "notifications_ok (fold notification_step ops notifications_init)" by (rule ns.inv_run)
  then obtain us rs where s: "length (nt_items (fold notification_step ops notifications_init)) \<le> MAX_NOTIFICATIONS"
    "nt_items (fold notification_step ops notifications_init) = us @ rs" "\<forall>n \<in> set us. \<not> an_read n" "\<forall>n \<in> set rs. an_read n"
    "length us = min (nt_unreadCount (fold notification_step ops notifications_init)) MAX_NOTIFICATIONS"
    unfolding notifications_ok_def by blast
  have "filter (\<lambda>n. \<not> an_read n) us = us" "filter (\<lambda>n. \<not> an_read n) rs = []" using s(3,4) by (auto simp: filter_empty_conv)
  then show ?thesis using s unfolding Let_def by simp
qed

end
