(* ===== verification/Web_Stores.thy ===== *)
theory Web_Stores
  imports Web_Chat
begin

text \<open>
  The connection store and the chat store of the chat application, over the clients of the SDK. Every client that \<open>connect\<close> ever created stays in the
  state, because its callbacks keep a reference to the store after it was replaced. Listeners and handlers are numbered: 1, 2 and 3 are the store's listeners for
  \<open>open\<close>, \<open>close\<close> and \<open>error\<close>, 4 the notification listener, 0 the chat store's \<open>handleIncoming\<close>. A channel called \<open>__proto__\<close> is left out.
\<close>

section \<open>The connection store\<close>

record credentials =
  cr_wsUrl :: js_string
  cr_tenantId :: js_string
  cr_token :: js_string
  cr_displayName :: js_string

datatype connection_status = St_Idle | St_Connecting | St_Open | St_Closed | St_Error

record connection_state =
  cn_credentials :: "credentials option"
  cn_status :: connection_status
  cn_lastError :: "client_error option"
  cn_activeClient :: "nat option"
  cn_detach :: "nat option"
  cn_clients :: "client list"

definition connection_init :: connection_state where
  "connection_init = \<lparr>cn_credentials = None, cn_status = St_Idle, cn_lastError = None, cn_activeClient = None,
     cn_detach = None, cn_clients = []\<rparr>"

definition createRealtimeConnectionAction :: "credentials \<Rightarrow> client" where
  "createRealtimeConnectionAction creds = new_client
     \<lparr>cc_wsUrl = cr_wsUrl creds, cc_tenantId = cr_tenantId creds, cc_token = Some (cr_token creds), cc_getToken = False,
      cc_heartbeatIntervalMs = None, cc_reconnect = None, cc_reconnectBaseDelayMs = None, cc_reconnectMaxDelayMs = None,
      cc_maxMessageBytes = None, cc_webSocketImpl = False\<rparr>"

definition upd_client :: "nat \<Rightarrow> (client \<Rightarrow> client) \<Rightarrow> connection_state \<Rightarrow> connection_state" where
  "upd_client i f s = s\<lparr>cn_clients := (cn_clients s)[i := f (cn_clients s ! i)]\<rparr>"

definition release_client :: "connection_state \<Rightarrow> connection_state" where
  "release_client s = (case cn_activeClient s of None \<Rightarrow> s | Some i \<Rightarrow> upd_client i disconnect s)"

definition detachBackgroundNotifications :: "connection_state \<Rightarrow> connection_state" where
  "detachBackgroundNotifications s =
     (case cn_detach s of None \<Rightarrow> s
      | Some i \<Rightarrow> upd_client i (\<lambda>c. c\<lparr>rc_listeners := off_event EvMessage 4 (rc_listeners c)\<rparr>) s)"

definition connection_connect :: "platform \<Rightarrow> browser \<Rightarrow> credentials \<Rightarrow> connection_state \<Rightarrow> connection_state" where
  "connection_connect pf b creds s0 =
     (let s = detachBackgroundNotifications (release_client s0);
          c0 = createRealtimeConnectionAction creds;
          i = length (cn_clients s);
          ls = on_event EvError 3 (on_event EvClose 2 (on_event EvOpen 1 (rc_listeners c0)));
          c = attachBackgroundNotifications b 4 (c0\<lparr>rc_listeners := ls\<rparr>) in
      upd_client i (connect pf)
        (s\<lparr>cn_clients := cn_clients s @ [c], cn_activeClient := Some i, cn_detach := Some i,
           cn_credentials := Some creds, cn_status := St_Connecting, cn_lastError := None\<rparr>))"

definition connection_disconnect :: "connection_state \<Rightarrow> connection_state" where
  "connection_disconnect s0 =
     (let s = detachBackgroundNotifications ((release_client s0)\<lparr>cn_activeClient := None\<rparr>) in
      s\<lparr>cn_detach := None, cn_credentials := None, cn_status := St_Idle, cn_lastError := None\<rparr>)"

text \<open>The listeners the store registered on a client.\<close>

definition store_listener :: "realtime_event \<Rightarrow> nat \<Rightarrow> connection_state \<Rightarrow> connection_state" where
  "store_listener ev l s =
     (if l = 1 then s\<lparr>cn_status := St_Open, cn_lastError := None\<rparr>
      else if l = 2 then s\<lparr>cn_status := (if cn_status s = St_Error then cn_status s else St_Closed)\<rparr>
      else if l = 3 then (case ev of Failed e \<Rightarrow> s\<lparr>cn_status := St_Error, cn_lastError := Some e\<rparr> | _ \<Rightarrow> s)
      else s)"

fun store_effect :: "effect \<Rightarrow> connection_state \<Rightarrow> connection_state" where
  "store_effect (Emitted ev ls) s = fold (store_listener ev) ls s"
| "store_effect _ s = s"

text \<open>Something happens to client \<open>i\<close>: the client moves, and what it emits reaches the store.\<close>

definition client_event :: "nat \<Rightarrow> input \<Rightarrow> connection_state \<Rightarrow> connection_state" where
  "client_event i inp s =
     (let c = cn_clients s ! i; c' = snd (handle inp c) in
      fold store_effect (drop (length (rc_log c)) (rc_log c')) (s\<lparr>cn_clients := (cn_clients s)[i := c']\<rparr>))"

definition connection_onMessage :: "nat \<Rightarrow> connection_state \<Rightarrow> connection_state" where
  "connection_onMessage l s =
     (case cn_activeClient s of None \<Rightarrow> s
      | Some i \<Rightarrow> upd_client i (\<lambda>c. c\<lparr>rc_listeners := on_event EvMessage l (rc_listeners c)\<rparr>) s)"

definition subscribeChannel :: "js_string \<Rightarrow> handler \<Rightarrow> connection_state \<Rightarrow> client_error option \<times> connection_state" where
  "subscribeChannel channelId h s =
     (case cn_activeClient s of None \<Rightarrow> (None, s)
      | Some i \<Rightarrow> (fst (subscribe channelId h (cn_clients s ! i)), upd_client i (\<lambda>c. snd (subscribe channelId h c)) s))"

definition connection_publish :: "(nat \<Rightarrow> rat) \<Rightarrow> js_string \<Rightarrow> js_string \<Rightarrow> connection_state \<Rightarrow> client_error option \<times> connection_state" where
  "connection_publish rnd channelId payload s =
     (case cn_activeClient s of None \<Rightarrow> (None, s)
      | Some i \<Rightarrow> (fst (publish rnd channelId payload (cn_clients s ! i)), upd_client i (\<lambda>c. snd (publish rnd channelId payload c)) s))"

definition connection_replay :: "js_string \<Rightarrow> nat \<Rightarrow> connection_state \<Rightarrow> connection_state" where
  "connection_replay channelId since s =
     (case cn_activeClient s of None \<Rightarrow> s | Some i \<Rightarrow> upd_client i (\<lambda>c. snd (replay channelId since c)) s)"

section \<open>The chat store\<close>

definition MAX_MESSAGES_PER_CHANNEL :: nat where "MAX_MESSAGES_PER_CHANNEL = 500"

record chat_message =
  cm_id :: js_string
  cm_channelId :: js_string
  cm_from :: "js_string option"
  cm_text :: js_string
  cm_out :: bool
  cm_receivedAt :: int

text \<open>An unread count; adding 1 to an inherited member of an object gives a text.\<close>

datatype unread = Count nat | Not_A_Count

text \<open>\<open>ct_live\<close> is the map \<open>liveSubscriptions\<close>: for each channel the client the returned function belongs to, or \<open>None\<close> for the empty function.\<close>

record chat_state =
  ct_channelIds :: "js_string list"
  ct_activeChannelId :: "js_string option"
  ct_unread :: "unread object"
  ct_messages :: "chat_message list object"
  ct_live :: "(js_string, nat option) jmap"

record app =
  ap_connection :: connection_state
  ap_chat :: chat_state
  ap_notifications :: notification_state

definition chat_init :: chat_state where
  "chat_init = \<lparr>ct_channelIds = [], ct_activeChannelId = None, ct_unread = [], ct_messages = [], ct_live = []\<rparr>"

definition app_init :: app where
  "app_init = \<lparr>ap_connection = connection_init, ap_chat = chat_init, ap_notifications = notifications_init\<rparr>"

definition toChatMessage :: "js_string \<Rightarrow> realtime_message \<Rightarrow> chat_message" where
  "toChatMessage rid raw =
     (let e = decodeChatEnvelope (rm_payload raw) in
      \<lparr>cm_id = rid, cm_channelId = rm_channelId raw, cm_from = map_option ce_from e,
       cm_text = (case e of Some v \<Rightarrow> ce_text v | None \<Rightarrow> rm_payload raw), cm_out = False, cm_receivedAt = rm_receivedAt raw\<rparr>)"

text \<open>\<open>[...(messagesByChannel[ch] ?? []), m].slice(-MAX)\<close>; an inherited member is not iterable and the
  spread throws (\<open>None\<close>), which leaves every store as it was.\<close>

definition appended :: "js_string \<Rightarrow> chat_message \<Rightarrow> chat_message list object \<Rightarrow> chat_message list object option" where
  "appended ch m msgs =
     (case oget msgs ch of
        Inherited \<Rightarrow> None
      | Own existing \<Rightarrow> Some (jset ch (keep_last MAX_MESSAGES_PER_CHANNEL (existing @ [m])) msgs)
      | Absent \<Rightarrow> Some (jset ch (keep_last MAX_MESSAGES_PER_CHANNEL [m]) msgs))"

definition unread_plus_one :: "js_string \<Rightarrow> unread object \<Rightarrow> unread" where
  "unread_plus_one ch u =
     (case oget u ch of Own (Count n) \<Rightarrow> Count (n + 1) | Absent \<Rightarrow> Count 1 | _ \<Rightarrow> Not_A_Count)"

definition own_display_name :: "app \<Rightarrow> js_string option" where
  "own_display_name a = map_option cr_displayName (cn_credentials (ap_connection a))"

definition handleIncoming :: "js_string \<Rightarrow> js_string \<Rightarrow> int \<Rightarrow> realtime_message \<Rightarrow> app \<Rightarrow> app" where
  "handleIncoming rid rid' now raw a =
     (let message = toChatMessage rid raw; st = ap_chat a; ch = rm_channelId raw in
      if (case (cm_from message, own_display_name a) of
            (Some f, Some d) \<Rightarrow> f \<noteq> [] \<and> d \<noteq> [] \<and> f = d | _ \<Rightarrow> False) then a
      else (case appended ch message (ct_messages st) of
          None \<Rightarrow> a
        | Some msgs \<Rightarrow>
            (let active = (ct_activeChannelId st = Some ch);
                 st' = st\<lparr>ct_messages := msgs,
                   ct_unread := (if active then ct_unread st else jset ch (unread_plus_one ch (ct_unread st)) (ct_unread st))\<rparr> in
             a\<lparr>ap_chat := st', ap_notifications :=
               (if active then ap_notifications a else notifications_push rid' now ch (cm_text message) (ap_notifications a))\<rparr>)))"

text \<open>The actions that subscribe or unsubscribe give the error they throw, if any, and the stores as they are then.\<close>

type_synonym action = "app \<Rightarrow> client_error option \<times> app"

definition subscribeToChannel :: "js_string \<Rightarrow> action" where
  "subscribeToChannel ch a =
     (if ch \<in> set (jkeys (ct_live (ap_chat a))) then (None, a)
      else (case subscribeChannel ch 0 (ap_connection a) of
          (Some e, conn) \<Rightarrow> (Some e, a\<lparr>ap_connection := conn\<rparr>)
        | (None, conn) \<Rightarrow> (None, a\<lparr>ap_connection := conn,
            ap_chat := (ap_chat a)\<lparr>ct_live := jset ch (cn_activeClient (ap_connection a)) (ct_live (ap_chat a))\<rparr>\<rparr>)))"

definition joinChannel :: "js_string \<Rightarrow> action" where
  "joinChannel ch a =
     (let st = ap_chat a in
      if ch \<in> set (ct_channelIds st) then (None, a\<lparr>ap_chat := st\<lparr>ct_activeChannelId := Some ch\<rparr>\<rparr>)
      else subscribeToChannel ch (a\<lparr>ap_chat := st\<lparr>ct_channelIds := ct_channelIds st @ [ch], ct_activeChannelId := Some ch,
             ct_messages := jset ch [] (ct_messages st)\<rparr>\<rparr>))"

definition omitKey :: "'v object \<Rightarrow> js_string \<Rightarrow> 'v object" where
  "omitKey m k = filter (\<lambda>(k', _). k' \<noteq> k) m"

text \<open>The function that \<open>subscribeChannel\<close> returned belongs to the client of that time.\<close>

definition live_unsubscribe :: "js_string \<Rightarrow> nat option \<Rightarrow> connection_state \<Rightarrow> client_error option \<times> connection_state" where
  "live_unsubscribe ch owner s =
     (case owner of None \<Rightarrow> (None, s)
      | Some i \<Rightarrow> (fst (unsubscribeHandler ch 0 (cn_clients s ! i)), upd_client i (\<lambda>c. snd (unsubscribeHandler ch 0 c)) s))"

definition leaveChannel :: "js_string \<Rightarrow> action" where
  "leaveChannel ch a =
     (let st = ap_chat a in
      case (case jget (ct_live st) ch of None \<Rightarrow> (None, ap_connection a) | Some owner \<Rightarrow> live_unsubscribe ch owner (ap_connection a)) of
        (Some e, conn) \<Rightarrow> (Some e, a\<lparr>ap_connection := conn\<rparr>)
      | (None, conn) \<Rightarrow> (None, a\<lparr>ap_connection := conn,
          ap_chat := st\<lparr>ct_live := jdelete ch (ct_live st), ct_channelIds := filter (\<lambda>i. i \<noteq> ch) (ct_channelIds st),
            ct_activeChannelId := (if ct_activeChannelId st = Some ch then None else ct_activeChannelId st),
            ct_messages := omitKey (ct_messages st) ch, ct_unread := omitKey (ct_unread st) ch\<rparr>\<rparr>))"

definition setActiveChannel :: "js_string option \<Rightarrow> app \<Rightarrow> app" where
  "setActiveChannel ch a =
     (let st = ap_chat a in
      a\<lparr>ap_chat := st\<lparr>ct_activeChannelId := ch,
        ct_unread := (case ch of Some k \<Rightarrow> if k = [] then ct_unread st else jset k (Count 0) (ct_unread st) | None \<Rightarrow> ct_unread st)\<rparr>\<rparr>)"

definition sendMessage :: "(nat \<Rightarrow> rat) \<Rightarrow> (js_number \<Rightarrow> js_string) \<Rightarrow> js_string \<Rightarrow> int \<Rightarrow> js_string \<Rightarrow> js_string \<Rightarrow> app \<Rightarrow> app" where
  "sendMessage rnd fmt rid now ch body a =
     (let displayName = or_default (own_display_name a) (js_of ''me'');
          payload = encodeChatEnvelope fmt \<lparr>ce_from = displayName, ce_text = body\<rparr>;
          message = \<lparr>cm_id = rid, cm_channelId = ch, cm_from = Some displayName, cm_text = body, cm_out = True, cm_receivedAt = now\<rparr> in
      case appended ch message (ct_messages (ap_chat a)) of
        None \<Rightarrow> a
      | Some msgs \<Rightarrow> a\<lparr>ap_chat := (ap_chat a)\<lparr>ct_messages := msgs\<rparr>,
                      ap_connection := snd (connection_publish rnd ch payload (ap_connection a))\<rparr>)"

text \<open>The loop over the channels ends at the first one that throws.\<close>

fun subscribe_all :: "js_string list \<Rightarrow> action" where
  "subscribe_all [] a = (None, a)"
| "subscribe_all (ch # chs) a = (case subscribeToChannel ch a of (Some e, b) \<Rightarrow> (Some e, b) | (None, b) \<Rightarrow> subscribe_all chs b)"

definition rehydrateSubscriptions :: action where
  "rehydrateSubscriptions a =
     subscribe_all (ct_channelIds (ap_chat a)) (a\<lparr>ap_chat := (ap_chat a)\<lparr>ct_live := []\<rparr>\<rparr>)"

section \<open>Hooks\<close>

text \<open>The effect of \<open>useConnection\<close>, with the status it saw before: what it throws, the toasts it raises, the stores.\<close>

datatype toast = Toast_Connected js_string | Toast_Closed | Toast_Error client_error

definition useConnection_effect :: "connection_status \<Rightarrow> app \<Rightarrow> client_error option \<times> toast list \<times> app" where
  "useConnection_effect previous a =
     (let s = ap_connection a;
          opened = (previous \<noteq> St_Open \<and> cn_status s = St_Open) in
      case (if opened then rehydrateSubscriptions a else (None, a)) of
        (Some e, b) \<Rightarrow> (Some e, [], b)
      | (None, b) \<Rightarrow> (None,
          (if opened then [Toast_Connected (case cn_credentials s of Some cr \<Rightarrow> cr_wsUrl cr | None \<Rightarrow> [])] else []) @
          (if previous = St_Open \<and> cn_status s = St_Closed then [Toast_Closed] else []) @
          (case cn_lastError s of Some e \<Rightarrow> if cn_status s = St_Error then [Toast_Error e] else [] | None \<Rightarrow> []), b))"

text \<open>\<open>useChannel\<close>: what its \<open>send\<close>, \<open>loadHistory\<close> and \<open>remainingBytes\<close> do.\<close>

definition useChannel_send :: "(nat \<Rightarrow> rat) \<Rightarrow> (js_number \<Rightarrow> js_string) \<Rightarrow> js_string \<Rightarrow> int \<Rightarrow> js_string option \<Rightarrow> js_string \<Rightarrow> app \<Rightarrow> app" where
  "useChannel_send rnd fmt rid now channelId body a =
     (let trimmed = js_trim body in
      case channelId of
        None \<Rightarrow> a
      | Some ch \<Rightarrow> if ch = [] \<or> trimmed = [] then a else sendMessage rnd fmt rid now ch trimmed a)"

definition loadHistory :: "js_string option \<Rightarrow> app \<Rightarrow> app" where
  "loadHistory channelId a =
     (case channelId of
        None \<Rightarrow> a
      | Some ch \<Rightarrow> if ch = [] then a else a\<lparr>ap_connection := connection_replay ch 0 (ap_connection a)\<rparr>)"

definition remainingBytes :: "(js_number \<Rightarrow> js_string) \<Rightarrow> app \<Rightarrow> js_string \<Rightarrow> int" where
  "remainingBytes fmt a body =
     int MAX_PAYLOAD_BYTES - int (chat_utf8ByteLength (json_stringify fmt (chat_json (or_default (own_display_name a) []) body)))"

text \<open>\<open>useChannelList\<close>\<close>

definition channel_list :: "app \<Rightarrow> (js_string \<times> unread) list" where
  "channel_list a = map (\<lambda>k. (k, case oget (ct_unread (ap_chat a)) k of Own u \<Rightarrow> u | Absent \<Rightarrow> Count 0 | Inherited \<Rightarrow> Not_A_Count))
     (ct_channelIds (ap_chat a))"

definition useChannelList_join :: "js_string \<Rightarrow> action" where
  "useChannelList_join ch a = joinChannel (js_trim ch) a"

section \<open>The stores stay well formed\<close>

datatype app_op =
    Op_Incoming js_string js_string int realtime_message
  | Op_Join js_string
  | Op_Leave js_string
  | Op_Set_Active "js_string option"
  | Op_Send "nat \<Rightarrow> rat" "js_number \<Rightarrow> js_string" js_string int js_string js_string
  | Op_Connect platform browser credentials
  | Op_Disconnect
  | Op_Client nat input
  | Op_Effect connection_status
  | Op_Notification notification_op

fun app_step :: "app_op \<Rightarrow> app \<Rightarrow> app" where
  "app_step (Op_Incoming rid rid' now raw) a = handleIncoming rid rid' now raw a"
| "app_step (Op_Join ch) a = snd (useChannelList_join ch a)"
| "app_step (Op_Leave ch) a = snd (leaveChannel ch a)"
| "app_step (Op_Set_Active ch) a = setActiveChannel ch a"
| "app_step (Op_Send rnd fmt rid now ch body) a = sendMessage rnd fmt rid now ch body a"
| "app_step (Op_Connect pf b creds) a = a\<lparr>ap_connection := connection_connect pf b creds (ap_connection a)\<rparr>"
| "app_step Op_Disconnect a = a\<lparr>ap_connection := connection_disconnect (ap_connection a)\<rparr>"
| "app_step (Op_Client i inp) a = a\<lparr>ap_connection := client_event i inp (ap_connection a)\<rparr>"
| "app_step (Op_Effect previous) a = snd (snd (useConnection_effect previous a))"
| "app_step (Op_Notification op) a = a\<lparr>ap_notifications := notification_step op (ap_notifications a)\<rparr>"

definition messages_ok :: "chat_message list object \<Rightarrow> bool" where
  "messages_ok msgs \<longleftrightarrow> jmap_ok msgs \<and>
     (\<forall>k ms. jget msgs k = Some ms \<longrightarrow> length ms \<le> MAX_MESSAGES_PER_CHANNEL \<and> (\<forall>m \<in> set ms. cm_channelId m = k))"

definition chat_ok :: "chat_state \<Rightarrow> bool" where
  "chat_ok st \<longleftrightarrow> distinct (ct_channelIds st) \<and> messages_ok (ct_messages st) \<and> jmap_ok (ct_unread st) \<and>
     jmap_ok (ct_live st) \<and> set (jkeys (ct_live st)) \<subseteq> set (ct_channelIds st)"

definition app_ok :: "app \<Rightarrow> bool" where
  "app_ok a \<longleftrightarrow> chat_ok (ap_chat a) \<and> notifications_ok (ap_notifications a)"

lemma messages_ok_appended:
  assumes "messages_ok msgs" "cm_channelId m = ch" "appended ch m msgs = Some msgs'"
  shows "messages_ok msgs'"
proof -
  have 1: "messages_ok (jset ch (keep_last MAX_MESSAGES_PER_CHANNEL (ms @ [m])) msgs)" if "\<forall>x \<in> set ms. cm_channelId x = ch" for ms
    using assms(1,2) that length_keep_last [of MAX_MESSAGES_PER_CHANNEL "ms @ [m]"] set_keep_last [of MAX_MESSAGES_PER_CHANNEL "ms @ [m]"]
    by (auto simp: messages_ok_def jmap_simps jmap_ok_intros split: if_splits)
  have "\<forall>x \<in> set ms. cm_channelId x = ch" if "jget msgs ch = Some ms" for ms using assms(1) that by (auto simp: messages_ok_def)
  then show ?thesis using assms(3) 1 1 [of "[]"] by (auto simp: appended_def oget_def split: option.splits if_splits)
qed

lemma messages_ok_jset_Nil: "messages_ok msgs \<Longrightarrow> messages_ok (jset ch [] msgs)"
  by (auto simp: messages_ok_def jmap_simps jmap_ok_intros split: if_splits)

lemma omitKey_jdelete: "omitKey m k = jdelete k m"
  by (induction m) (auto simp: omitKey_def jdelete_def)

lemma messages_ok_omit: "messages_ok msgs \<Longrightarrow> messages_ok (omitKey msgs ch)"
  by (auto simp: messages_ok_def omitKey_jdelete jmap_simps jmap_ok_intros split: if_splits)

lemma app_ok_incoming: "app_ok a \<Longrightarrow> app_ok (handleIncoming rid rid' now raw a)"
  using messages_ok_appended [of "ct_messages (ap_chat a)" "toChatMessage rid raw" "rm_channelId raw"]
  by (auto simp: app_ok_def chat_ok_def handleIncoming_def Let_def toChatMessage_def jmap_ok_intros notifications_ok_push split: option.splits)

lemma app_ok_connection [simp]: "app_ok (a\<lparr>ap_connection := s\<rparr>) = app_ok a"
  by (simp add: app_ok_def)

lemma subscribeToChannel_keeps:
  "ct_channelIds (ap_chat (snd (subscribeToChannel ch a))) = ct_channelIds (ap_chat a)"
  by (simp add: subscribeToChannel_def split: prod.split option.split)

lemma app_ok_subscribeToChannel:
  "app_ok a \<Longrightarrow> ch \<in> set (ct_channelIds (ap_chat a)) \<Longrightarrow> app_ok (snd (subscribeToChannel ch a))"
  by (auto simp: app_ok_def chat_ok_def subscribeToChannel_def jmap_simps jmap_ok_intros split: if_splits prod.split option.split)

lemma app_ok_join:
  assumes "app_ok a"
  shows "app_ok (snd (joinChannel ch a))"
proof (cases "ch \<in> set (ct_channelIds (ap_chat a))")
  case True
  then show ?thesis using assms by (simp add: joinChannel_def Let_def app_ok_def chat_ok_def)
next
  case False
  let ?c = "ap_chat a"
  let ?b = "a\<lparr>ap_chat := ?c\<lparr>ct_channelIds := ct_channelIds ?c @ [ch], ct_activeChannelId := Some ch, ct_messages := jset ch [] (ct_messages ?c)\<rparr>\<rparr>"
  have "app_ok ?b" using assms False by (auto simp: app_ok_def chat_ok_def messages_ok_jset_Nil)
  then have "app_ok (snd (subscribeToChannel ch ?b))" by (rule app_ok_subscribeToChannel) simp
  then show ?thesis using False by (simp add: joinChannel_def Let_def)
qed

lemma app_ok_leave: "app_ok a \<Longrightarrow> app_ok (snd (leaveChannel ch a))"
  by (auto simp: leaveChannel_def Let_def app_ok_def chat_ok_def jmap_simps jmap_ok_intros
      omitKey_jdelete messages_ok_omit [unfolded omitKey_jdelete] split: prod.split option.split)

lemma app_ok_set_active: "app_ok a \<Longrightarrow> app_ok (setActiveChannel ch a)"
  by (simp add: setActiveChannel_def Let_def app_ok_def chat_ok_def jmap_ok_intros split: option.split)

lemma app_ok_send: "app_ok a \<Longrightarrow> app_ok (sendMessage rnd fmt rid now ch body a)"
proof -
  let ?m = "\<lparr>cm_id = rid, cm_channelId = ch, cm_from = Some (or_default (own_display_name a) (js_of ''me'')), cm_text = body, cm_out = True,
    cm_receivedAt = now\<rparr>"
  assume a: "app_ok a"
  then have "messages_ok (ct_messages (ap_chat a))" by (simp add: app_ok_def chat_ok_def)
  then have "messages_ok msgs" if "appended ch ?m (ct_messages (ap_chat a)) = Some msgs" for msgs
    by (rule messages_ok_appended [OF _ _ that]) simp
  then show ?thesis using a
    by (cases "appended ch ?m (ct_messages (ap_chat a))") (simp_all add: sendMessage_def Let_def app_ok_def chat_ok_def)
qed

lemma app_ok_subscribe_all:
  "app_ok a \<Longrightarrow> set chs \<subseteq> set (ct_channelIds (ap_chat a)) \<Longrightarrow> app_ok (snd (subscribe_all chs a))"
proof (induction chs arbitrary: a)
  case (Cons ch chs)
  then show ?case
    using app_ok_subscribeToChannel [of a ch] subscribeToChannel_keeps [of ch a]
    by (cases "subscribeToChannel ch a") (simp split: option.split)
qed simp

lemma app_ok_rehydrate: "app_ok a \<Longrightarrow> app_ok (snd (rehydrateSubscriptions a))"
  unfolding rehydrateSubscriptions_def by (rule app_ok_subscribe_all) (simp_all add: app_ok_def chat_ok_def)

interpretation app: guarded_machine app_init app_step app_ok
proof
  show "app_ok app_init"
    using ns.inv_start by (simp add: app_ok_def app_init_def chat_init_def chat_ok_def messages_ok_def)
  fix a :: app and op
  assume a: "app_ok a"
  show "app_ok (app_step op a)"
  proof (cases op)
    case (Op_Notification n)
    then show ?thesis using a ns.inv_step [of "ap_notifications a" n] by (simp add: app_ok_def)
  next
    case (Op_Effect previous)
    then show ?thesis using a app_ok_rehydrate [OF a]
      by (cases "rehydrateSubscriptions a") (simp add: useConnection_effect_def Let_def split: option.split)
  qed (use a in \<open>auto simp: app_ok_incoming app_ok_join app_ok_leave app_ok_set_active app_ok_send useChannelList_join_def\<close>)
qed

text \<open>
  C17. The chat store is well formed after every history of actions, messages and connection events: no channel is listed twice, every list of messages has at most 500 entries, a message
  is filed under its own channel, and a live subscription is kept only for a joined channel.
\<close>

theorem chat_store_well_formed:
  "let st = ap_chat (fold app_step ops app_init) in
   distinct (ct_channelIds st) \<and> set (jkeys (ct_live st)) \<subseteq> set (ct_channelIds st) \<and>
   list_all (\<lambda>(k, ms). length ms \<le> MAX_MESSAGES_PER_CHANNEL \<and> list_all (\<lambda>m. cm_channelId m = k) ms) (ct_messages st)"
proof -
  have "app_ok (fold app_step ops app_init)" by (rule app.inv_run)
  then show ?thesis by (auto simp: app_ok_def chat_ok_def messages_ok_def list_all_iff Let_def dest: jget_in_set [THEN iffD1, rotated])
qed

section \<open>Echoes and resubscription\<close>

text \<open>
  The server echoes a message to its sender. The echo of one's own message, under a display name that is not empty, changes nothing: the bubble that \<open>sendMessage\<close> added stays
  the only one, and there is no notification.
\<close>

theorem own_echo_ignored:
  assumes "own_display_name a = Some d" "d \<noteq> []"
    and "rm_payload raw = encodeChatEnvelope fmt \<lparr>ce_from = d, ce_text = body\<rparr>"
  shows "handleIncoming rid rid' now raw a = a"
proof -
  obtain k where "encodeChatEnvelope fmt \<lparr>ce_from = d, ce_text = body\<rparr> = json_stringify fmt (chat_json d (take k body))"
    using shrink_text_spec [of body fmt d] by (auto simp: encodeChatEnvelope_def)
  then show ?thesis using assms by (simp add: handleIncoming_def Let_def toChatMessage_def decode_chat_json)
qed

definition sample_credentials :: credentials where
  "sample_credentials = \<lparr>cr_wsUrl = js_of ''wss://h/ws'', cr_tenantId = js_of ''00000000-0000-0000-0000-00000000000A'', cr_token = js_of ''tok'',
     cr_displayName = js_of ''ann''\<rparr>"

definition sample_app :: app where
  "sample_app = app_init\<lparr>ap_connection := connection_init\<lparr>cn_credentials := Some sample_credentials\<rparr>\<rparr>"

theorem own_echo_ignored_witness:
  "handleIncoming [] [] 0 \<lparr>rm_channelId = js_of ''c'', rm_payload = encodeChatEnvelope fmt_nat \<lparr>ce_from = js_of ''ann'', ce_text = js_of ''hi''\<rparr>,
     rm_tenantId = [], rm_receivedAt = 0\<rparr> sample_app = sample_app"
  by (rule own_echo_ignored [where d = "js_of ''ann''"])
    (simp_all add: own_display_name_def sample_app_def sample_credentials_def)

lemma subscribe_valid:
  assumes "valid_tenant c"
  shows "fst (subscribe ch h c) = None" "valid_tenant (snd (subscribe ch h c))"
  using assms by (auto simp: subscribe_def Let_def send_open)

definition live_on :: "nat \<Rightarrow> app \<Rightarrow> bool" where
  "live_on i a \<longleftrightarrow> cn_activeClient (ap_connection a) = Some i \<and> i < length (cn_clients (ap_connection a)) \<and>
     valid_tenant (cn_clients (ap_connection a) ! i) \<and>
     (\<forall>k \<in> set (jkeys (ct_live (ap_chat a))). 0 \<in> client_handlers (cn_clients (ap_connection a) ! i) k)"

lemma live_on_subscribe:
  assumes "live_on i a"
  obtains b where "subscribeToChannel ch a = (None, b)" "live_on i b"
    "insert ch (set (jkeys (ct_live (ap_chat a)))) \<subseteq> set (jkeys (ct_live (ap_chat b)))"
  using assms
  by (cases "ch \<in> set (jkeys (ct_live (ap_chat a)))")
    (auto simp: live_on_def subscribeToChannel_def subscribeChannel_def upd_client_def subscribe_valid handlers_subscribe jmap_simps)

lemma live_on_subscribe_all:
  "live_on i a \<Longrightarrow> \<exists>b. subscribe_all chs a = (None, b) \<and> live_on i b \<and>
     set chs \<union> set (jkeys (ct_live (ap_chat a))) \<subseteq> set (jkeys (ct_live (ap_chat b)))"
proof (induction chs arbitrary: a)
  case (Cons ch chs)
  obtain b where b: "subscribeToChannel ch a = (None, b)" "live_on i b"
      "insert ch (set (jkeys (ct_live (ap_chat a)))) \<subseteq> set (jkeys (ct_live (ap_chat b)))"
    using live_on_subscribe [OF Cons.prems] .
  from Cons.IH [OF b(2)] b show ?case by auto
qed simp

text \<open>
  When the status turns to \<open>open\<close> and the tenant of the active client is a UUID, the effect of \<open>useConnection\<close> throws nothing and subscribes every joined
  channel again on that client, whatever was subscribed before on clients that were replaced.
\<close>

theorem reopened_connection_resubscribes:
  assumes "cn_activeClient (ap_connection a) = Some i" "i < length (cn_clients (ap_connection a))"
    and "valid_tenant (cn_clients (ap_connection a) ! i)"
    and "previous \<noteq> St_Open" "cn_status (ap_connection a) = St_Open" "ch \<in> set (ct_channelIds (ap_chat a))"
  shows "case useConnection_effect previous a of (e, _, b) \<Rightarrow>
    e = None \<and> 0 \<in> client_handlers (cn_clients (ap_connection b) ! i) ch"
proof -
  let ?a = "a\<lparr>ap_chat := (ap_chat a)\<lparr>ct_live := []\<rparr>\<rparr>"
  have "live_on i ?a" using assms(1-3) by (simp add: live_on_def)
  from live_on_subscribe_all [OF this, of "ct_channelIds (ap_chat a)"] obtain b where
    b: "rehydrateSubscriptions a = (None, b)" "live_on i b" "set (ct_channelIds (ap_chat a)) \<subseteq> set (jkeys (ct_live (ap_chat b)))"
    by (auto simp: rehydrateSubscriptions_def)
  then have "0 \<in> client_handlers (cn_clients (ap_connection b) ! i) ch" using assms(6) by (auto simp: live_on_def)
  then show ?thesis using b(1) assms(4,5) by (simp add: useConnection_effect_def Let_def)
qed

theorem reopened_connection_resubscribes_witness:
  "case useConnection_effect St_Connecting
      (sample_app\<lparr>ap_connection := connection_init\<lparr>cn_status := St_Open, cn_activeClient := Some 0, cn_clients := [sample_open]\<rparr>,
        ap_chat := chat_init\<lparr>ct_channelIds := [js_of ''a'', js_of ''b'']\<rparr>\<rparr>) of
    (e, _, b) \<Rightarrow> e = None \<and> 0 \<in> client_handlers (cn_clients (ap_connection b) ! 0) (js_of ''b'')"
  by (rule reopened_connection_resubscribes) (simp_all add: sample_app_def sample_open_parts)

text \<open>
  With a tenant that is no UUID the first channel that is joined on an open connection throws, and the loop stops there: the later channels stay without a subscription.
\<close>

lemma invalid_tenant_rehydrate_stops:
  assumes "cn_activeClient (ap_connection a) = Some i" "i < length (cn_clients (ap_connection a))"
    and "\<not> valid_tenant (cn_clients (ap_connection a) ! i)" "ws_open (cn_clients (ap_connection a) ! i)"
    and "ct_channelIds (ap_chat a) = ch # chs" "jget (rc_subscriptions (cn_clients (ap_connection a) ! i)) ch = None"
  shows "\<exists>e b. rehydrateSubscriptions a = (Some e, b) \<and> ct_live (ap_chat b) = [] \<and>
    (\<forall>x. x \<noteq> ch \<longrightarrow> client_handlers (cn_clients (ap_connection b) ! i) x = client_handlers (cn_clients (ap_connection a) ! i) x)"
proof -
  let ?c = "cn_clients (ap_connection a) ! i"
  let ?d = "?c\<lparr>rc_subscriptions := jset ch (set_add 0 []) (rc_subscriptions ?c)\<rparr>"
  have "\<not> valid_tenant ?d" using assms(3) by simp
  from send_invalid [OF this] obtain e where e: "send (Subscribe, ch, []) ?d = (Some e, ?d)" by blast
  then have s: "subscribe ch 0 ?c = (Some e, ?d)" using assms(4,6) by (simp add: subscribe_def Let_def)
  have "client_handlers ?d x = client_handlers ?c x" if "x \<noteq> ch" for x
    using that by (simp add: client_handlers_def jmap_simps)
  then show ?thesis using assms(1,2,5) s
    by (simp add: rehydrateSubscriptions_def subscribeToChannel_def subscribeChannel_def upd_client_def jkeys_def)
qed

section \<open>Events of a replaced client\<close>

lemma onclose_log:
  "rc_log (onclose rnd code reason c) = rc_log c @ [Emitted (Closed code reason) (emit_targets EvClose (rc_listeners c))] @
     (if code = WS_CLOSE_CODE_AUTH_FAILED then [Emitted (AuthRejected code reason) (emit_targets EvAuthFailed (rc_listeners c))] else [])"
  by (simp add: onclose_def Let_def emit_def scheduleReconnect_def stopHeartbeat_def split: option.split)

text \<open>
  A replaced client still writes to the store: its listeners are never removed. When the old socket, which \<open>connect\<close> only began to close, reports its close after the new
  client has opened, the store shows \<open>closed\<close> although the active client is open and nothing happened to it.
\<close>

theorem replaced_client_marks_closed:
  assumes "i < length (cn_clients st)" "cn_activeClient st = Some j" "j \<noteq> i" "cn_status st = St_Open"
    and "emit_targets EvClose (rc_listeners (cn_clients st ! i)) = [2]" "emit_targets EvAuthFailed (rc_listeners (cn_clients st ! i)) = []"
  shows "let st' = client_event i (In_Close s rnd code reason) st in
    cn_status st' = St_Closed \<and> cn_activeClient st' = Some j \<and> cn_clients st' ! j = cn_clients st ! j"
proof -
  let ?c = "set_ready Closed_State s (cn_clients st ! i)"
  have "rc_listeners ?c = rc_listeners (cn_clients st ! i)" by (simp add: set_ready_def)
  then have "drop (length (rc_log (cn_clients st ! i))) (rc_log (onclose rnd code reason ?c)) =
      [Emitted (Closed code reason) [2]] @ (if code = WS_CLOSE_CODE_AUTH_FAILED then [Emitted (AuthRejected code reason) []] else [])"
    using assms(5,6) by (simp add: onclose_log)
  then show ?thesis using assms(2-4) by (simp add: client_event_def Let_def store_listener_def)
qed

theorem replaced_client_marks_closed_witness:
  "let old = sample_connecting\<lparr>rc_listeners := [(EvOpen, [1]), (EvClose, [2]), (EvError, [3])],
         rc_sockets := [\<lparr>sk_readyState = Closing, sk_url = [], sk_token = []\<rparr>]\<rparr>;
       st = connection_init\<lparr>cn_status := St_Open, cn_activeClient := Some 1, cn_clients := [old, sample_open]\<rparr>;
       st' = client_event 0 (In_Close 0 0 1005 []) st in
   enabled (In_Close 0 0 1005 []) old \<and> ws_open (cn_clients st' ! 1) \<and> cn_status st' = St_Closed"
proof -
  let ?old = "sample_connecting\<lparr>rc_listeners := [(EvOpen, [1]), (EvClose, [2]), (EvError, [3])],
         rc_sockets := [\<lparr>sk_readyState = Closing, sk_url = [], sk_token = []\<rparr>]\<rparr>"
  let ?st = "connection_init\<lparr>cn_status := St_Open, cn_activeClient := Some 1, cn_clients := [?old, sample_open]\<rparr>"
  have "let st' = client_event 0 (In_Close 0 0 1005 []) ?st in
      cn_status st' = St_Closed \<and> cn_activeClient st' = Some 1 \<and> cn_clients st' ! 1 = cn_clients ?st ! 1"
    by (rule replaced_client_marks_closed) (simp_all add: emit_targets_def jget_def)
  then show ?thesis using sample_open_parts(3) by (simp add: Let_def)
qed

end
