(* ===== verification/Service_Worker.thy ===== *)
theory Service_Worker
  imports Popup
begin

text \<open>
  The service workers \<open>web-client/public/sw.js\<close> and \<open>tenant-portal/public/sw.js\<close>, which differ only in their names and texts: the
  handlers of \<open>install\<close>, \<open>activate\<close>, \<open>message\<close>, \<open>fetch\<close>, \<open>push\<close> and \<open>notificationclick\<close>. The cache storage is a map from cache names to
  maps from URLs to responses, in creation order; the network, the open windows and the moment a waiting worker may take over are arguments.
\<close>

section \<open>State\<close>

record web_response =
  wr_status :: nat
  wr_body :: js_string

datatype answer = Answer web_response | Error_Response

datatype phase = Installing | Waiting | Active | Redundant

record worker_texts =
  ww_CACHE_NAME :: js_string
  ww_noPayload :: js_string
  ww_title :: js_string
  ww_tag :: js_string

record worker =
  wk_caches :: "(js_string, (js_string, web_response) jmap) jmap"
  wk_phase :: phase
  wk_skip :: bool
  wk_claimed :: bool

type_synonym web = "js_string \<Rightarrow> web_response option"

definition chat_worker :: worker_texts where
  "chat_worker = \<lparr>ww_CACHE_NAME = js_of ''realtime-chat-shell-v1'', ww_noPayload = js_of ''New message'',
     ww_title = js_of ''Realtime Chat'', ww_tag = js_of ''realtime-chat-push''\<rparr>"

definition portal_worker :: worker_texts where
  "portal_worker = \<lparr>ww_CACHE_NAME = js_of ''mio-portal-shell-v1'', ww_noPayload = js_of ''New activity'',
     ww_title = js_of ''mio'', ww_tag = js_of ''mio-portal-push''\<rparr>"

definition SHELL_URLS :: "js_string list" where
  "SHELL_URLS = [js_of ''/'', js_of ''/manifest.json'', js_of ''/favicon.svg'']"

section \<open>Handlers\<close>

text \<open>\<open>cache.addAll\<close>: every URL is fetched first; unless all answers are successful, and none is partial (206), nothing is stored.\<close>

fun fetch_all :: "web \<Rightarrow> js_string list \<Rightarrow> (js_string \<times> web_response) list option" where
  "fetch_all web [] = Some []"
| "fetch_all web (url # urls) =
     (case web url of
        None \<Rightarrow> None
      | Some r \<Rightarrow> if 200 \<le> wr_status r \<and> wr_status r < 300 \<and> wr_status r \<noteq> 206 then map_option (Cons (url, r)) (fetch_all web urls) else None)"

definition cache_addAll :: "web \<Rightarrow> js_string list \<Rightarrow> (js_string, web_response) jmap \<Rightarrow> (js_string, web_response) jmap option" where
  "cache_addAll web urls cache = map_option (\<lambda>rs. fold (\<lambda>(url, r). jset url r) rs cache) (fetch_all web urls)"

text \<open>\<open>caches.open\<close> creates a missing cache, whether or not the rest succeeds; an installation whose promise rejects is discarded.\<close>

definition on_install :: "worker_texts \<Rightarrow> web \<Rightarrow> worker \<Rightarrow> worker" where
  "on_install w web s =
     (let name = ww_CACHE_NAME w;
          cache = (case jget (wk_caches s) name of None \<Rightarrow> [] | Some c \<Rightarrow> c);
          opened = s\<lparr>wk_caches := jset name cache (wk_caches s)\<rparr> in
      case cache_addAll web SHELL_URLS cache of
        None \<Rightarrow> opened\<lparr>wk_phase := Redundant\<rparr>
      | Some c \<Rightarrow> opened\<lparr>wk_caches := jset name c (wk_caches opened), wk_phase := Waiting\<rparr>)"

definition on_activate :: "worker_texts \<Rightarrow> worker \<Rightarrow> worker" where
  "on_activate w s =
     (let keys = jkeys (wk_caches s) in
      s\<lparr>wk_caches := fold jdelete (filter (\<lambda>key. key \<noteq> ww_CACHE_NAME w) keys) (wk_caches s), wk_phase := Active, wk_claimed := True\<rparr>)"

text \<open>The message's \<open>data?.type\<close>, if it is a string.\<close>

definition on_message :: "js_string option \<Rightarrow> worker \<Rightarrow> worker" where
  "on_message type s = (if type = Some (js_of ''SKIP_WAITING'') then s\<lparr>wk_skip := True\<rparr> else s)"

text \<open>\<open>caches.match\<close> takes the first cache that has the URL.\<close>

fun caches_match :: "js_string \<Rightarrow> (js_string, (js_string, web_response) jmap) jmap \<Rightarrow> web_response option" where
  "caches_match url [] = None"
| "caches_match url ((_, c) # cs) = (case jget c url of Some r \<Rightarrow> Some r | None \<Rightarrow> caches_match url cs)"

text \<open>\<open>None\<close>: the handler does not respond, and the browser goes to the network itself.\<close>

definition on_fetch :: "web \<Rightarrow> js_string \<Rightarrow> js_string \<Rightarrow> worker \<Rightarrow> answer option" where
  "on_fetch web mode url s =
     (if mode \<noteq> js_of ''navigate'' then None
      else Some (case web url of
          Some r \<Rightarrow> Answer r
        | None \<Rightarrow> (case caches_match (js_of ''/'') (wk_caches s) of Some cached \<Rightarrow> Answer cached | None \<Rightarrow> Error_Response)))"

record shown_notification =
  sn_title :: js_string
  sn_body :: js_string
  sn_icon :: js_string
  sn_tag :: js_string

definition on_push :: "worker_texts \<Rightarrow> js_string option \<Rightarrow> shown_notification" where
  "on_push w data =
     \<lparr>sn_title = ww_title w, sn_body = or_default data (ww_noPayload w), sn_icon = js_of ''/favicon.svg'', sn_tag = ww_tag w\<rparr>"

text \<open>The windows in the order \<open>matchAll\<close> lists them, with whether they can take the focus.\<close>

datatype click = Close_Notification | Focus_Client nat | Open_Window js_string

definition on_notificationclick :: "(nat \<times> bool) list \<Rightarrow> click list" where
  "on_notificationclick windows =
     [Close_Notification,
      (case filter snd windows of (i, _) # _ \<Rightarrow> Focus_Client i | [] \<Rightarrow> Open_Window (js_of ''/''))]"

section \<open>Life cycle\<close>

text \<open>
  A worker is installed once. It takes over when it has called \<open>skipWaiting\<close> or when no page is left that an older worker controls.
\<close>

inductive worker_step :: "worker_texts \<Rightarrow> worker \<Rightarrow> worker \<Rightarrow> bool" for w where
  Install: "wk_phase s = Installing \<Longrightarrow> worker_step w s (on_install w web s)"
| Activate: "wk_phase s = Waiting \<Longrightarrow> wk_skip s \<or> older_pages = (0 :: nat) \<Longrightarrow> worker_step w s (on_activate w s)"
| Message: "wk_phase s \<noteq> Redundant \<Longrightarrow> worker_step w s (on_message type s)"

inductive_cases worker_stepE: "worker_step w s t"

text \<open>The worker starts with whatever caches older workers left.\<close>

definition worker_init :: "worker \<Rightarrow> bool" where
  "worker_init s \<longleftrightarrow> wk_phase s = Installing \<and> \<not> wk_skip s \<and> \<not> wk_claimed s \<and> jmap_ok (wk_caches s)"

definition worker_reachable :: "worker_texts \<Rightarrow> worker \<Rightarrow> bool" where
  "worker_reachable w t \<longleftrightarrow> (\<exists>s. worker_init s \<and> (worker_step w)\<^sup>*\<^sup>* s t)"

interpretation sw: transition_system worker_init "worker_step w" "worker_reachable w" for w
  by unfold_locales (rule worker_reachable_def)

section \<open>The offline shell\<close>

lemma fetch_all_ok:
  "fetch_all web urls = Some rs \<Longrightarrow> map fst rs = urls \<and> (\<forall>(url, r) \<in> set rs. web url = Some r \<and> 200 \<le> wr_status r \<and> wr_status r < 300)"
  by (induction urls arbitrary: rs) (auto split: option.splits if_splits)

lemma jget_fold_jset:
  "distinct (map fst rs) \<Longrightarrow> (url, r) \<in> set rs \<Longrightarrow> jget (fold (\<lambda>(u, x). jset u x) rs c) url = Some r"
proof (induction rs arbitrary: c)
  case (Cons a rs)
  have other: "jget (fold (\<lambda>(u, x). jset u x) rs d) url = jget d url" if "url \<notin> fst ` set rs" for d
    using that by (induction rs arbitrary: d) (auto simp: jmap_simps)
  show ?case using Cons other by (cases a) (auto simp: jmap_simps image_iff)
qed simp

text \<open>The shell page of a cache that an installation filled: a successful answer.\<close>

definition has_shell :: "(js_string, web_response) jmap \<Rightarrow> bool" where
  "has_shell c \<longleftrightarrow> (\<exists>r. jget c (js_of ''/'') = Some r \<and> 200 \<le> wr_status r \<and> wr_status r < 300)"

lemma addAll_has_shell:
  assumes "cache_addAll web SHELL_URLS cache = Some c"
  shows "has_shell c"
proof -
  from assms obtain rs where rs: "fetch_all web SHELL_URLS = Some rs" "c = fold (\<lambda>(u, x). jset u x) rs cache"
    by (auto simp: cache_addAll_def)
  note ok = fetch_all_ok [OF rs(1)]
  then have "set (map fst rs) = set SHELL_URLS" by simp
  then have "js_of ''/'' \<in> fst ` set rs" by (simp add: SHELL_URLS_def)
  then obtain r where r: "(js_of ''/'', r) \<in> set rs" by force
  have "distinct (map fst rs)" using ok by (simp add: SHELL_URLS_def)
  from jget_fold_jset [OF this r] show ?thesis using ok r rs(2) by (auto simp: has_shell_def)
qed

definition worker_ok :: "worker_texts \<Rightarrow> worker \<Rightarrow> bool" where
  "worker_ok w s \<longleftrightarrow> jmap_ok (wk_caches s) \<and>
     (wk_phase s \<in> {Waiting, Active} \<longrightarrow> (\<exists>c. jget (wk_caches s) (ww_CACHE_NAME w) = Some c \<and> has_shell c)) \<and>
     (wk_phase s = Active \<longrightarrow> jkeys (wk_caches s) = [ww_CACHE_NAME w] \<and> wk_claimed s)"

lemma fold_jdelete:
  "jkeys (fold jdelete ks m) = filter (\<lambda>k. k \<notin> set ks) (jkeys m)"
  "k \<notin> set ks \<Longrightarrow> jget (fold jdelete ks m) k = jget m k"
  "jmap_ok m \<Longrightarrow> jmap_ok (fold jdelete ks m)"
  by (induction ks arbitrary: m) (simp_all add: jmap_simps jmap_ok_intros filter_filter conj_commute)

lemma distinct_filter_eq: "distinct xs \<Longrightarrow> x \<in> set xs \<Longrightarrow> filter (\<lambda>y. y = x) xs = [x]"
  by (induction xs) (auto simp: filter_empty_conv)

lemma worker_ok_install: "worker_ok w s \<Longrightarrow> worker_ok w (on_install w web s)"
  using addAll_has_shell by (auto simp: worker_ok_def on_install_def Let_def jmap_simps jmap_ok_intros split: option.split)

lemma worker_ok_activate:
  assumes "worker_ok w s" "wk_phase s = Waiting"
  shows "worker_ok w (on_activate w s)"
proof -
  let ?name = "ww_CACHE_NAME w" and ?m = "wk_caches s"
  have m: "jmap_ok ?m" "jget ?m ?name \<noteq> None" using assms by (auto simp: worker_ok_def)
  then have "?name \<in> set (jkeys ?m)" by (simp add: jget_def jkeys_def map_of_eq_None_iff)
  then have "filter (\<lambda>k. k = ?name) (jkeys ?m) = [?name]" using m(1) by (simp add: jmap_ok_def distinct_filter_eq)
  moreover have "filter (\<lambda>k. k \<notin> set (filter (\<lambda>key. key \<noteq> ?name) (jkeys ?m))) (jkeys ?m) = filter (\<lambda>k. k = ?name) (jkeys ?m)"
    by (rule filter_cong) auto
  ultimately show ?thesis using assms by (simp add: worker_ok_def on_activate_def Let_def fold_jdelete)
qed

lemma worker_reachable_ok: "worker_reachable w s \<Longrightarrow> worker_ok w s"
proof (rule sw.reach_invariant)
  show "worker_ok w s" if "worker_init s" for s using that by (simp add: worker_init_def worker_ok_def)
  show "worker_ok w t" if "worker_ok w s" "worker_step w s t" for s t
    using that(2,1) by cases (auto simp: worker_ok_install worker_ok_activate, simp_all add: worker_ok_def on_message_def)
qed

text \<open>
  C22. In every history of a service worker, once it is active: only its own cache is left of all the caches it found, and a navigation to any address while the network fails is
  answered with the page \<open>/\<close> that was stored, as a successful answer, when it was installed. An installation that could not fetch every file never becomes active.
\<close>

theorem offline_shell_served:
  assumes "worker_reachable w s" "wk_phase s = Active" "web url = None"
  shows "jkeys (wk_caches s) = [ww_CACHE_NAME w] \<and>
    (\<exists>r. on_fetch web (js_of ''navigate'') url s = Some (Answer r) \<and> 200 \<le> wr_status r \<and> wr_status r < 300)"
proof -
  have ok: "worker_ok w s" using assms(1) by (rule worker_reachable_ok)
  then have k: "jkeys (wk_caches s) = [ww_CACHE_NAME w]" using assms(2) by (simp add: worker_ok_def)
  from ok obtain c where c: "jget (wk_caches s) (ww_CACHE_NAME w) = Some c" "has_shell c" using assms(2) by (auto simp: worker_ok_def)
  from k c(1) have "wk_caches s = [(ww_CACHE_NAME w, c)]"
    by (cases "wk_caches s") (auto simp: jkeys_def jget_def)
  then show ?thesis using k c(2) assms(3) by (auto simp: on_fetch_def has_shell_def)
qed

definition sample_web :: web where
  "sample_web url = Some \<lparr>wr_status = 200, wr_body = url\<rparr>"

definition sample_worker :: worker where
  "sample_worker = \<lparr>wk_caches = [(js_of ''old-shell'', [])], wk_phase = Installing, wk_skip = False, wk_claimed = False\<rparr>"

theorem offline_shell_served_witness:
  "jkeys (wk_caches (on_activate chat_worker (on_install chat_worker sample_web sample_worker))) = [js_of ''realtime-chat-shell-v1'']"
proof -
  let ?i = "on_install chat_worker sample_web sample_worker"
  have i: "wk_phase ?i = Waiting"
    by (simp add: on_install_def Let_def cache_addAll_def SHELL_URLS_def sample_web_def sample_worker_def del: js_of_simps)
  have "worker_step chat_worker sample_worker ?i" by (rule Install) (simp add: sample_worker_def)
  moreover have "worker_step chat_worker ?i (on_activate chat_worker ?i)" by (rule Activate [where older_pages = 0]) (simp_all add: i)
  moreover have "worker_init sample_worker" by (simp add: worker_init_def sample_worker_def jmap_ok_def jkeys_def)
  ultimately have "worker_reachable chat_worker (on_activate chat_worker ?i)"
    unfolding worker_reachable_def by (meson r_into_rtranclp rtranclp.rtrancl_into_rtrancl)
  from offline_shell_served [OF this, of "\<lambda>_. None" "js_of ''/chat''"] show ?thesis
    by (simp add: on_activate_def Let_def chat_worker_def del: js_of_simps)
qed

end
