(* ===== verification/React_SDK.thy ===== *)
theory React_SDK
  imports Notifications
begin

text \<open>
  The React bindings: the provider of \<open>sdk-react/src/RealtimeContext.tsx\<close>, the hooks of \<open>sdk-react/src/hooks.ts\<close> and
  \<open>sdk-react/src/notifications.ts\<close>, and the two hooks of \<open>sdk-react-native\<close> that follow the state of the app and of the network. An effect is
  a function on the client together with its cleanup; React runs the cleanup of the previous effect before the next one. Listeners and handlers that a component creates are known by
  identities of its own.
\<close>

section \<open>The provider\<close>

datatype connection_view = View_Idle | View_Connecting | View_Open | View_Closed | View_Error

record provider =
  pv_client :: client
  pv_connectionState :: connection_view
  pv_lastError :: "client_error option"

text \<open>\<open>useMemo\<close>: the client given, or one of its own; \<open>None\<close> is the error for neither.\<close>

definition provider_client :: "client option \<Rightarrow> client_config option \<Rightarrow> client option" where
  "provider_client clientProp config =
     (case clientProp of Some c \<Rightarrow> Some c | None \<Rightarrow> map_option new_client config)"

definition provider_on :: "nat \<Rightarrow> client \<Rightarrow> client" where
  "provider_on l c = c\<lparr>rc_listeners :=
     on_event EvError (l + 3) (on_event EvClose (l + 2) (on_event EvAuthenticated (l + 1) (on_event EvOpen l (rc_listeners c))))\<rparr>"

definition provider_effect :: "platform \<Rightarrow> nat \<Rightarrow> bool \<Rightarrow> provider \<Rightarrow> provider" where
  "provider_effect pf l autoConnect p0 =
     (let p = p0\<lparr>pv_client := provider_on l (pv_client p0)\<rparr> in
      if autoConnect then p\<lparr>pv_connectionState := View_Connecting, pv_client := connect pf (pv_client p)\<rparr> else p)"

definition provider_cleanup :: "nat \<Rightarrow> bool \<Rightarrow> provider \<Rightarrow> provider" where
  "provider_cleanup l owned p0 =
     (let c = pv_client p0;
          p = p0\<lparr>pv_client := c\<lparr>rc_listeners :=
            off_event EvError (l + 3) (off_event EvClose (l + 2) (off_event EvAuthenticated (l + 1) (off_event EvOpen l (rc_listeners c))))\<rparr>\<rparr> in
      if owned then p\<lparr>pv_client := disconnect (pv_client p)\<rparr> else p)"

definition provider_listener :: "nat \<Rightarrow> realtime_event \<Rightarrow> nat \<Rightarrow> provider \<Rightarrow> provider" where
  "provider_listener l ev i p =
     (if i = l \<or> i = l + 1 then p\<lparr>pv_connectionState := View_Open\<rparr>
      else if i = l + 2 then p\<lparr>pv_connectionState := View_Closed\<rparr>
      else if i = l + 3 then (case ev of Failed e \<Rightarrow> p\<lparr>pv_lastError := Some e, pv_connectionState := View_Error\<rparr> | _ \<Rightarrow> p)
      else p)"

text \<open>What the client emits while it handles an input reaches the provider's listeners.\<close>

definition provider_log :: "nat \<Rightarrow> effect list \<Rightarrow> provider \<Rightarrow> provider" where
  "provider_log l es p =
     fold (\<lambda>e. case e of Emitted ev ls \<Rightarrow> fold (provider_listener l ev) ls | _ \<Rightarrow> (\<lambda>p. p)) es p"

definition provider_input :: "nat \<Rightarrow> input \<Rightarrow> provider \<Rightarrow> provider" where
  "provider_input l inp p =
     (let c' = snd (handle inp (pv_client p)) in
      provider_log l (drop (length (rc_log (pv_client p))) (rc_log c')) (p\<lparr>pv_client := c'\<rparr>))"

section \<open>Hooks on a channel\<close>

text \<open>\<open>!channelId\<close>: absent or empty.\<close>

definition no_channel :: "js_string option \<Rightarrow> bool" where
  "no_channel channelId \<longleftrightarrow> channelId = None \<or> channelId = Some []"

definition useSubscription_effect :: "js_string option \<Rightarrow> handler \<Rightarrow> client \<Rightarrow> client" where
  "useSubscription_effect channelId h c = (if no_channel channelId then c else snd (subscribe (the channelId) h c))"

definition useSubscription_cleanup :: "js_string option \<Rightarrow> handler \<Rightarrow> client \<Rightarrow> client" where
  "useSubscription_cleanup channelId h c = (if no_channel channelId then c else snd (unsubscribeHandler (the channelId) h c))"

text \<open>
  \<open>useChannel\<close>: the buffer and the arguments of the effect that is in force. \<open>ch_h\<close> is the identity of the handler that effect subscribed; every run of the effect makes a new one. An effect that throws
  stops there, and React unmounts the component without a cleanup of that effect.
\<close>

record channel_hook =
  uc_client :: client
  uc_messages :: "realtime_message list"
  uc_channelId :: "js_string option"
  uc_limit :: int
  uc_handler :: handler

definition channel_effect :: "js_string option \<Rightarrow> int \<Rightarrow> nat option \<Rightarrow> handler \<Rightarrow> channel_hook \<Rightarrow> channel_hook" where
  "channel_effect channelId limit replaySince h u0 =
     (let u = u0\<lparr>uc_messages := [], uc_channelId := channelId, uc_limit := limit, uc_handler := h\<rparr> in
      if no_channel channelId then u
      else (case subscribe (the channelId) h (uc_client u) of
          (Some e, c) \<Rightarrow> u\<lparr>uc_client := c\<rparr>
        | (None, c) \<Rightarrow> u\<lparr>uc_client := (case replaySince of None \<Rightarrow> c | Some since \<Rightarrow> snd (replay (the channelId) since c))\<rparr>))"

definition channel_cleanup :: "channel_hook \<Rightarrow> channel_hook" where
  "channel_cleanup u = u\<lparr>uc_client := useSubscription_cleanup (uc_channelId u) (uc_handler u) (uc_client u)\<rparr>"

definition channel_message :: "realtime_message \<Rightarrow> channel_hook \<Rightarrow> channel_hook" where
  "channel_message m u =
     (let next = uc_messages u @ [m] in
      u\<lparr>uc_messages := (if int (length next) > uc_limit u then drop (nat (int (length next) - uc_limit u)) next else next)\<rparr>)"

datatype channel_error = No_Channel | Client_Error client_error

definition channel_publish :: "(nat \<Rightarrow> rat) \<Rightarrow> js_string \<Rightarrow> channel_hook \<Rightarrow> channel_error option \<times> channel_hook" where
  "channel_publish rnd payload u =
     (if no_channel (uc_channelId u) then (Some No_Channel, u)
      else (case publish rnd (the (uc_channelId u)) payload (uc_client u) of
          (e, c) \<Rightarrow> (map_option Client_Error e, u\<lparr>uc_client := c\<rparr>)))"

definition channel_publishTemplate ::
    "network \<Rightarrow> (client_error + js_string) \<Rightarrow> (js_number \<Rightarrow> js_string) \<Rightarrow> js_string \<Rightarrow> (js_string \<times> js_string) list option \<Rightarrow>
     channel_hook \<Rightarrow> channel_error + (template_error + unit)" where
  "channel_publishTemplate fetch fresh_token fmt templateId variables u =
     (if no_channel (uc_channelId u) then Inl No_Channel
      else Inr (publishTemplate fetch fresh_token fmt (rc_config (uc_client u)) (the (uc_channelId u)) templateId (or_default variables [])))"

definition channel_clear :: "channel_hook \<Rightarrow> channel_hook" where
  "channel_clear u = u\<lparr>uc_messages := []\<rparr>"

definition usePublish :: "js_string \<Rightarrow> (nat \<Rightarrow> rat) \<Rightarrow> js_string \<Rightarrow> operation" where
  "usePublish channelId rnd payload = publish rnd channelId payload"

definition usePublishTemplate ::
    "js_string \<Rightarrow> network \<Rightarrow> (client_error + js_string) \<Rightarrow> (js_number \<Rightarrow> js_string) \<Rightarrow> client \<Rightarrow> js_string \<Rightarrow>
     (js_string \<times> js_string) list option \<Rightarrow> template_error + unit" where
  "usePublishTemplate channelId fetch fresh_token fmt c templateId variables =
     publishTemplate fetch fresh_token fmt (rc_config c) channelId templateId (or_default variables [])"

section \<open>Notification hooks\<close>

text \<open>
  What \<open>useBackgroundNotifications\<close> shows for a message, when its effect ran with the options \<open>first\<close> and the latest render gave \<open>current\<close>. Whether there is a title, a
  body and an icon is decided when the effect runs, what they are by the latest render: a title or body that was dropped since is called although it is not a function.
\<close>

datatype hook_error = Not_A_Function

definition latest_text :: "(realtime_message \<Rightarrow> js_string) option \<Rightarrow> (realtime_message \<Rightarrow> js_string) option \<Rightarrow> js_string \<Rightarrow> realtime_message \<Rightarrow> hook_error + js_string" where
  "latest_text first current absent m =
     (case first of
        None \<Rightarrow> Inr absent
      | Some _ \<Rightarrow> (case current of None \<Rightarrow> Inl Not_A_Function | Some f \<Rightarrow> Inr (f m)))"

definition useBackgroundNotifications ::
    "browser \<Rightarrow> notification_options \<Rightarrow> notification_options \<Rightarrow> realtime_message \<Rightarrow> hook_error + native_notification option" where
  "useBackgroundNotifications b first current m =
     (if \<not> isNotificationSupported b then Inr None
      else if bw_permission b \<noteq> Granted then Inr None
      else if bw_visible b \<and> bw_focus b then Inr None
      else if \<not> (case no_filter current of None \<Rightarrow> True | Some f \<Rightarrow> f m) then Inr None
      else (case latest_text (no_title first) (no_title current) (rm_channelId m) m of
          Inl e \<Rightarrow> Inl e
        | Inr title \<Rightarrow> (case latest_text (no_body first) (no_body current) (rm_payload m) m of
            Inl e \<Rightarrow> Inl e
          | Inr body \<Rightarrow> Inr (Some \<lparr>nn_title = title, nn_body = body, nn_icon = no_icon first\<rparr>))))"

datatype push_status = Push_Idle | Push_Subscribing | Push_Subscribed | Push_Unsubscribing | Push_Failed

record push_hook =
  ph_status :: push_status
  ph_subscription :: "push_info option"
  ph_error :: "push_error option"

definition push_begin :: "push_hook \<Rightarrow> push_hook" where
  "push_begin p = p\<lparr>ph_status := Push_Subscribing, ph_error := None\<rparr>"

text \<open>The continuation of \<open>subscribe\<close>: what it stores and what its promise gives.\<close>

definition push_subscribed :: "push_error + push_info \<Rightarrow> push_hook \<Rightarrow> push_info option \<times> push_hook" where
  "push_subscribed outcome p =
     (case outcome of
        Inr info \<Rightarrow> (Some info, p\<lparr>ph_subscription := Some info, ph_status := Push_Subscribed\<rparr>)
      | Inl e \<Rightarrow> (None, p\<lparr>ph_error := Some e, ph_status := Push_Failed\<rparr>))"

definition usePush_run :: "push_env \<Rightarrow> js_string \<Rightarrow> js_string \<Rightarrow> push_info push_run" where
  "usePush_run env serviceWorkerUrl vapidPublicKey =
     push_bind (ask_permission env) (\<lambda>_. push_bind (registerPushServiceWorker env serviceWorkerUrl) (\<lambda>_. subscribeToPush env vapidPublicKey))"

definition usePush_subscribe :: "push_env \<Rightarrow> js_string \<Rightarrow> js_string \<Rightarrow> push_hook \<Rightarrow> push_info option \<times> push_hook" where
  "usePush_subscribe env serviceWorkerUrl vapidPublicKey p =
     push_subscribed (fst (usePush_run env serviceWorkerUrl vapidPublicKey)) (push_begin p)"

definition push_unsubscribed :: "push_error + bool \<Rightarrow> push_hook \<Rightarrow> push_hook" where
  "push_unsubscribed outcome p =
     (case outcome of
        Inr _ \<Rightarrow> p\<lparr>ph_subscription := None, ph_status := Push_Idle\<rparr>
      | Inl e \<Rightarrow> p\<lparr>ph_error := Some e, ph_status := Push_Failed\<rparr>)"

definition usePush_unsubscribe :: "push_env \<Rightarrow> js_string \<Rightarrow> push_hook \<Rightarrow> push_hook" where
  "usePush_unsubscribe env serviceWorkerUrl p =
     push_unsubscribed (fst (push_bind (registerPushServiceWorker env serviceWorkerUrl) (\<lambda>_. unsubscribeFromPush env)))
       (p\<lparr>ph_status := Push_Unsubscribing\<rparr>)"

definition useWebPush_subscribe :: "(js_number \<Rightarrow> js_string) \<Rightarrow> push_env \<Rightarrow> push_options \<Rightarrow> push_hook \<Rightarrow> push_info option \<times> push_hook" where
  "useWebPush_subscribe fmt env options p = push_subscribed (fst (registerWebPushSubscription fmt env options)) (push_begin p)"

definition useWebPush_unsubscribe :: "(js_number \<Rightarrow> js_string) \<Rightarrow> push_env \<Rightarrow> push_options \<Rightarrow> push_hook \<Rightarrow> push_hook" where
  "useWebPush_unsubscribe fmt env options p =
     push_unsubscribed (fst (unregisterWebPushSubscription fmt env options)) (p\<lparr>ph_status := Push_Unsubscribing, ph_error := None\<rparr>)"

section \<open>React Native\<close>

text \<open>\<open>/inactive|background/.test(s)\<close>\<close>

definition in_background :: "js_string \<Rightarrow> bool" where
  "in_background s \<longleftrightarrow> ua_has s ''inactive'' \<or> ua_has s ''background''"

record app_watch =
  aw_client :: client
  aw_appState :: js_string

definition appState_change :: "platform \<Rightarrow> js_string \<Rightarrow> app_watch \<Rightarrow> app_watch" where
  "appState_change pf nextState w =
     (let wasBackground = in_background (aw_appState w);
          isBackground = in_background nextState;
          c = (if wasBackground \<and> nextState = js_of ''active'' then connect pf (aw_client w)
               else if \<not> wasBackground \<and> isBackground then disconnect (aw_client w)
               else aw_client w) in
      w\<lparr>aw_client := c, aw_appState := nextState\<rparr>)"

record net_watch =
  nw_client :: client
  nw_wasConnected :: bool

text \<open>The listener; \<open>Boolean(state.isConnected)\<close> takes \<open>null\<close> as not connected.\<close>

definition netInfo_change :: "platform \<Rightarrow> bool option \<Rightarrow> net_watch \<Rightarrow> net_watch" where
  "netInfo_change pf isConnected w =
     (let isConnected = (isConnected = Some True) in
      w\<lparr>nw_client := (if isConnected \<and> \<not> nw_wasConnected w then connect pf (nw_client w) else nw_client w),
        nw_wasConnected := isConnected\<rparr>)"

text \<open>Mounting: the module may be missing, or its import may end after the component was unmounted; \<open>None\<close> is no listener.\<close>

definition useNetworkReconnect :: "bool \<Rightarrow> bool \<Rightarrow> client \<Rightarrow> net_watch option" where
  "useNetworkReconnect installed cancelled c =
     (if \<not> installed then None else if cancelled then None else Some \<lparr>nw_client = c, nw_wasConnected = True\<rparr>)"

section \<open>Properties\<close>

lemma useBackground_agrees:
  "useBackgroundNotifications b opts opts m = Inr (showBackgroundNotification b m opts)"
  by (auto simp: useBackgroundNotifications_def showBackgroundNotification_def latest_text_def split: option.split)

lemma handlers_replay: "client_handlers (snd (replay ch since c)) x = client_handlers c x"
  by (simp add: client_handlers_def replay_def sendOrQueue_def send_def split: sum.split)

lemma handlers_useSubscription:
  "client_handlers (useSubscription_cleanup ch h c) x = client_handlers c x - (if ch = Some x \<and> x \<noteq> [] then {h} else {})"
  by (auto simp: useSubscription_cleanup_def no_channel_def handlers_unsubscribe)

lemma keep_last_append: "keep_last n (keep_last n xs @ ys) = keep_last n (xs @ ys)"
proof -
  let ?k = "length xs - n"
  have "keep_last n xs @ ys = drop ?k (xs @ ys)" by (simp add: keep_last_def)
  moreover have "keep_last n (drop ?k (xs @ ys)) = drop (length (xs @ ys) - ?k - n + ?k) (xs @ ys)" by (simp only: keep_last_def length_drop drop_drop)
  moreover have "length (xs @ ys) - ?k - n + ?k = length (xs @ ys) - n" by simp
  ultimately show ?thesis by (simp only: keep_last_def)
qed

lemma channel_messages:
  assumes "length (uc_messages u) \<le> nat (uc_limit u)" "0 < uc_limit u"
  shows "uc_messages (fold channel_message ms u) = keep_last (nat (uc_limit u)) (uc_messages u @ ms) \<and>
    uc_client (fold channel_message ms u) = uc_client u \<and> uc_limit (fold channel_message ms u) = uc_limit u"
  using assms
proof (induction ms arbitrary: u)
  case Nil
  then show ?case by (simp add: keep_last_def)
next
  case (Cons m ms)
  let ?n = "nat (uc_limit u)"
  have m: "uc_messages (channel_message m u) = keep_last ?n (uc_messages u @ [m])"
  proof -
    have "nat (int a - uc_limit u) = a - ?n" for a using Cons.prems(2) by (simp add: nat_diff_distrib')
    then show ?thesis by (auto simp: channel_message_def Let_def keep_last_def simp del: length_append)
  qed
  moreover have "uc_limit (channel_message m u) = uc_limit u" "uc_client (channel_message m u) = uc_client u"
    by (simp_all add: channel_message_def Let_def)
  moreover have "keep_last ?n (keep_last ?n (uc_messages u @ [m]) @ ms) = keep_last ?n (uc_messages u @ m # ms)"
    by (simp add: keep_last_append)
  ultimately show ?case
    using Cons.IH [of "channel_message m u"] Cons.prems length_keep_last [of ?n "uc_messages u @ [m]"] by simp
qed

text \<open>
  C27. When \<open>useChannel\<close> moves to a channel, from no channel or from another one, its old handler is unsubscribed and its new one subscribed, on that channel only, and
  all other subscriptions of the client stay. From then on the buffer holds the last \<open>limit\<close> messages received since the move, in order; nothing of the former channel stays in it.
\<close>

theorem useChannel_follows:
  assumes "ch \<noteq> []" "0 < limit"
  shows "let u' = fold channel_message ms (channel_effect (Some ch) limit replaySince h (channel_cleanup u)) in
    uc_messages u' = keep_last (nat limit) ms \<and>
    (\<forall>x. client_handlers (uc_client u') x =
       (client_handlers (uc_client u) x - (if uc_channelId u = Some x \<and> x \<noteq> [] then {uc_handler u} else {})) \<union> (if x = ch then {h} else {}))"
proof -
  let ?u = "channel_effect (Some ch) limit replaySince h (channel_cleanup u)"
  have u: "uc_messages ?u = []" "uc_limit ?u = limit"
    using assms(1) by (simp_all add: channel_effect_def Let_def no_channel_def split: prod.split option.split)
  have "client_handlers (uc_client ?u) x = client_handlers (snd (subscribe ch h (uc_client (channel_cleanup u)))) x" for x
    using assms(1) by (cases "subscribe ch h (uc_client (channel_cleanup u))")
      (simp add: channel_effect_def Let_def no_channel_def handlers_replay split: option.split)
  then have "client_handlers (uc_client ?u) x = client_handlers (uc_client (channel_cleanup u)) x \<union> (if x = ch then {h} else {})" for x
    by (simp add: handlers_subscribe)
  then show ?thesis
    using channel_messages [of ?u ms] u assms(2) by (simp add: Let_def channel_cleanup_def handlers_useSubscription)
qed

definition sample_text :: "string \<Rightarrow> realtime_message" where
  "sample_text t = \<lparr>rm_channelId = js_of ''room'', rm_payload = js_of t, rm_tenantId = js_of ''acme'', rm_receivedAt = 0\<rparr>"

definition sample_channel_hook :: channel_hook where
  "sample_channel_hook = \<lparr>uc_client = new_client sample_config, uc_messages = [sample_text ''old''], uc_channelId = Some (js_of ''lobby''),
     uc_limit = 5, uc_handler = 6\<rparr>"

theorem useChannel_follows_witness:
  "uc_messages (fold channel_message (map sample_text [''a'', ''b'', ''c''])
     (channel_effect (Some (js_of ''room'')) 2 None 7 (channel_cleanup sample_channel_hook))) = map sample_text [''b'', ''c'']"
  using useChannel_follows [of "js_of ''room''" 2 "map sample_text [''a'', ''b'', ''c'']" None 7 sample_channel_hook]
  by (simp add: Let_def keep_last_def numeral_2_eq_2)

section \<open>The state of the app\<close>

lemma closedByUser_openSocket: "rc_closedByUser (openSocket pf c) = rc_closedByUser c"
  by (auto simp: openSocket_def await_impl_def Let_def split: option.split sum.split)

lemma closedByUser_connect: "\<not> rc_closedByUser (connect pf c)"
  by (simp add: connect_def closedByUser_openSocket)

lemma closedByUser_disconnect: "rc_closedByUser (disconnect c)"
  by (simp add: disconnect_def Let_def stopHeartbeat_def ws_close_def set_ready_def split: option.split)

definition app_states :: "js_string list" where
  "app_states = [js_of ''active'', js_of ''inactive'', js_of ''background'']"

lemma in_background_states:
  "\<not> in_background (js_of ''active'')" "in_background (js_of ''inactive'')" "in_background (js_of ''background'')"
  by code_simp+

text \<open>
  On React Native, over any sequence of the states \<open>active\<close>, \<open>inactive\<close> and \<open>background\<close>, the client is told to disconnect when the app leaves the foreground and
  to connect when it comes back: after each change it is closed by the application exactly if the app is not active.
\<close>

theorem app_state_follows:
  assumes "aw_appState w = js_of ''active''" "\<not> rc_closedByUser (aw_client w)" "set states \<subseteq> set app_states"
  shows "rc_closedByUser (aw_client (fold (appState_change pf) states w)) \<longleftrightarrow>
    aw_appState (fold (appState_change pf) states w) \<noteq> js_of ''active''"
proof -
  have ne: "js_of ''inactive'' \<noteq> js_of ''active''" "js_of ''background'' \<noteq> js_of ''active''" by simp_all
  have "aw_appState v \<in> set app_states \<and> (rc_closedByUser (aw_client v) \<longleftrightarrow> aw_appState v \<noteq> js_of ''active'')
    \<Longrightarrow> set states \<subseteq> set app_states
    \<Longrightarrow> rc_closedByUser (aw_client (fold (appState_change pf) states v)) \<longleftrightarrow> aw_appState (fold (appState_change pf) states v) \<noteq> js_of ''active''" for v
  proof (induction states arbitrary: v)
    case (Cons x xs)
    have "aw_appState (appState_change pf x v) = x" by (simp add: appState_change_def Let_def)
    moreover have "rc_closedByUser (aw_client (appState_change pf x v)) \<longleftrightarrow> x \<noteq> js_of ''active''"
      using Cons.prems ne unfolding app_states_def
      by (auto simp: appState_change_def Let_def closedByUser_connect closedByUser_disconnect in_background_states simp del: js_of_simps)
    ultimately show ?case using Cons.IH [of "appState_change pf x v"] Cons.prems by simp
  qed simp
  then show ?thesis using assms by (simp add: app_states_def)
qed

theorem app_state_follows_witness:
  "\<not> rc_closedByUser (aw_client (fold (appState_change sample_platform) (map js_of [''inactive'', ''background'', ''active''])
     \<lparr>aw_client = sample_connecting, aw_appState = js_of ''active''\<rparr>))"
proof -
  let ?w = "\<lparr>aw_client = sample_connecting, aw_appState = js_of ''active''\<rparr>" and ?s = "map js_of [''inactive'', ''background'', ''active'']"
  have "\<not> rc_closedByUser (aw_client ?w)" by (simp add: sample_connecting_eq)
  moreover have "aw_appState (fold (appState_change sample_platform) ?s ?w) = js_of ''active''"
    by (simp add: appState_change_def Let_def del: js_of_simps)
  ultimately show ?thesis using app_state_follows [of ?w ?s sample_platform] by (simp add: app_states_def del: js_of_simps)
qed

section \<open>Mounting and unmounting the provider\<close>

lemma set_remove_add: "l \<notin> set xs \<Longrightarrow> set_remove l (set_add l xs) = xs"
  by (auto simp: set_remove_def set_add_def filter_id_conv)

text \<open>A provider that was mounted and unmounted leaves the listeners of the client as they were, and closes the client exactly if it made it.\<close>

lemma provider_lifecycle:
  assumes fresh: "\<And>e i. i \<in> {l, l + 1, l + 2, l + 3} \<Longrightarrow> i \<notin> set (emit_targets e (rc_listeners (pv_client p)))"
    and ls: "rc_listeners (pv_client q) = rc_listeners (pv_client (provider_effect pf l auto_connect p))"
  shows "emit_targets e (rc_listeners (pv_client (provider_cleanup l owned q))) = emit_targets e (rc_listeners (pv_client p))"
    and "owned \<Longrightarrow> rc_closedByUser (pv_client (provider_cleanup l owned q))"
    and "\<not> owned \<Longrightarrow> rc_closedByUser (pv_client (provider_cleanup l owned q)) = rc_closedByUser (pv_client q)"
proof -
  have d: "rc_listeners (disconnect c) = rc_listeners c" for c
    by (simp add: disconnect_def Let_def stopHeartbeat_def ws_close_def set_ready_def split: option.split)
  have o: "rc_listeners (connect pf c) = rc_listeners c" for c
    by (auto simp: connect_def openSocket_def await_impl_def Let_def split: option.split sum.split)
  have "rc_listeners (pv_client q) = rc_listeners (provider_on l (pv_client p))"
    using ls by (simp add: provider_effect_def Let_def o)
  then show "emit_targets e (rc_listeners (pv_client (provider_cleanup l owned q))) = emit_targets e (rc_listeners (pv_client p))"
    using fresh by (cases e) (simp_all add: provider_cleanup_def Let_def d provider_on_def emit_targets_on emit_targets_off set_remove_add)
qed (simp_all add: provider_cleanup_def Let_def closedByUser_disconnect)

end
