(* ===== verification/Data_Table.thy ===== *)
theory Data_Table
  imports JS_Number "HOL-Library.Multiset"
begin

text \<open>
  The table component of the tenant portal, \<open>tenant-portal/src/components/DataTable/DataTable.tsx\<close>: loading with cancellation, filtering, sorting,
  paging and selection, and the CSV export of \<open>tenant-portal/src/lib/utils.ts\<close>. Lower-casing and \<open>localeCompare\<close> depend on the runtime's Unicode and locale data: both are arguments, and
  what is needed of the comparison is the named hypothesis \<open>collation\<close>. \<open>fmt\<close> prints numbers.
\<close>

section \<open>Rows\<close>

text \<open>A field of a row as the table sees it; of an object only its text form matters.\<close>

datatype cell = Cell_Null | Cell_Text js_string | Cell_Number js_number | Cell_Bool bool | Cell_Object js_string

type_synonym row = "(js_string, cell) jmap"

text \<open>\<open>String(v ?? '')\<close>\<close>

fun cell_text :: "(js_number \<Rightarrow> js_string) \<Rightarrow> cell \<Rightarrow> js_string" where
  "cell_text fmt Cell_Null = []"
| "cell_text fmt (Cell_Text s) = s"
| "cell_text fmt (Cell_Number x) = fmt x"
| "cell_text fmt (Cell_Bool b) = js_of (if b then ''true'' else ''false'')"
| "cell_text fmt (Cell_Object s) = s"

definition field_text :: "(js_number \<Rightarrow> js_string) \<Rightarrow> row \<Rightarrow> js_string \<Rightarrow> js_string" where
  "field_text fmt r key = (case jget r key of None \<Rightarrow> [] | Some v \<Rightarrow> cell_text fmt v)"

datatype sort_direction = Asc | Desc

record table =
  tb_data :: "row list"
  tb_isLoading :: bool
  tb_error :: "js_string option"
  tb_search :: js_string
  tb_filterValues :: "(js_string, js_string) jmap"
  tb_sortKey :: "js_string option"
  tb_sortDir :: "sort_direction option"
  tb_page :: nat
  tb_selectedIds :: "js_string list"
  tb_load :: nat

text \<open>\<open>tb_load\<close> numbers the run of the load effect that is not cancelled. The first run comes with mounting.\<close>

definition table_init :: table where
  "table_init = \<lparr>tb_data = [], tb_isLoading = True, tb_error = None, tb_search = [], tb_filterValues = [], tb_sortKey = None,
     tb_sortDir = None, tb_page = 1, tb_selectedIds = [], tb_load = 0\<rparr>"

section \<open>Loading\<close>

text \<open>The effect on \<open>source\<close> and \<open>refreshKey\<close>: its cleanup cancels the load before.\<close>

definition load_start :: "table \<Rightarrow> table" where
  "load_start t = t\<lparr>tb_isLoading := True, tb_error := None, tb_selectedIds := [], tb_load := tb_load t + 1\<rparr>"

definition load_settled :: "nat \<Rightarrow> js_string + row list \<Rightarrow> table \<Rightarrow> table" where
  "load_settled n outcome t =
     (if n \<noteq> tb_load t then t
      else (case outcome of Inr rows \<Rightarrow> t\<lparr>tb_data := rows\<rparr> | Inl e \<Rightarrow> t\<lparr>tb_error := Some e\<rparr>)\<lparr>tb_isLoading := False\<rparr>)"

section \<open>What is shown\<close>

fun filter_rows :: "(js_number \<Rightarrow> js_string) \<Rightarrow> js_string list \<Rightarrow> (js_string, js_string) jmap \<Rightarrow> row list \<Rightarrow> row list" where
  "filter_rows fmt [] values rows = rows"
| "filter_rows fmt (key # keys) values rows =
     filter_rows fmt keys values
       (case jget values key of
          None \<Rightarrow> rows
        | Some value \<Rightarrow> if value \<noteq> [] \<and> value \<noteq> js_of ''all'' then filter (\<lambda>r. field_text fmt r key = value) rows else rows)"

definition row_matches :: "(js_string \<Rightarrow> js_string) \<Rightarrow> (js_number \<Rightarrow> js_string) \<Rightarrow> js_string \<Rightarrow> row \<Rightarrow> bool" where
  "row_matches lower fmt q r \<longleftrightarrow> list_ex (\<lambda>(_, v). js_includes (lower (cell_text fmt v)) q) r"

definition filtered :: "(js_string \<Rightarrow> js_string) \<Rightarrow> (js_number \<Rightarrow> js_string) \<Rightarrow> js_string list \<Rightarrow> table \<Rightarrow> row list" where
  "filtered lower fmt filters t =
     (let rows = filter_rows fmt filters (tb_filterValues t) (tb_data t) in
      if tb_search t \<noteq> [] then filter (row_matches lower fmt (lower (tb_search t))) rows else rows)"

text \<open>\<open>Array.prototype.sort\<close> is stable, which for a consistent comparison leaves one result.\<close>

fun insert_by :: "('a \<Rightarrow> 'a \<Rightarrow> int) \<Rightarrow> 'a \<Rightarrow> 'a list \<Rightarrow> 'a list" where
  "insert_by cmp x [] = [x]"
| "insert_by cmp x (y # ys) = (if cmp x y \<le> 0 then x # y # ys else y # insert_by cmp x ys)"

definition js_sort :: "('a \<Rightarrow> 'a \<Rightarrow> int) \<Rightarrow> 'a list \<Rightarrow> 'a list" where
  "js_sort cmp xs = foldr (insert_by cmp) xs []"

definition sort_compare ::
    "(js_string \<Rightarrow> js_string \<Rightarrow> int) \<Rightarrow> (js_number \<Rightarrow> js_string) \<Rightarrow> js_string \<Rightarrow> sort_direction \<Rightarrow> row \<Rightarrow> row \<Rightarrow> int" where
  "sort_compare localeCompare fmt key dir a b =
     (let av = field_text fmt a key; bv = field_text fmt b key in
      if dir = Asc then localeCompare av bv else localeCompare bv av)"

text \<open>What the table is given by its parent and by the runtime.\<close>

record table_env =
  te_lower :: "js_string \<Rightarrow> js_string"
  te_localeCompare :: "js_string \<Rightarrow> js_string \<Rightarrow> int"
  te_fmt :: "js_number \<Rightarrow> js_string"
  te_filters :: "js_string list"
  te_pagination :: bool
  te_pageSize :: nat
  te_getRowId :: "(row \<Rightarrow> js_string) option"

definition sorted_rows :: "table_env \<Rightarrow> table \<Rightarrow> row list" where
  "sorted_rows te t =
     (let rows = filtered (te_lower te) (te_fmt te) (te_filters te) t in
      case (tb_sortKey t, tb_sortDir t) of
        (Some key, Some dir) \<Rightarrow> if key = [] then rows else js_sort (sort_compare (te_localeCompare te) (te_fmt te) key dir) rows
      | _ \<Rightarrow> rows)"

text \<open>\<open>Math.max(1, Math.ceil(n / pageSize))\<close> for a positive page size.\<close>

definition totalPages :: "table_env \<Rightarrow> table \<Rightarrow> nat" where
  "totalPages te t = max 1 ((length (sorted_rows te t) + te_pageSize te - 1) div te_pageSize te)"

definition page_of :: "nat \<Rightarrow> nat \<Rightarrow> 'a list \<Rightarrow> 'a list" where
  "page_of pageSize p xs = take (p * pageSize - (p - 1) * pageSize) (drop ((p - 1) * pageSize) xs)"

definition paginated :: "table_env \<Rightarrow> table \<Rightarrow> row list" where
  "paginated te t = (if te_pagination te then page_of (te_pageSize te) (tb_page t) (sorted_rows te t) else sorted_rows te t)"

section \<open>Selection\<close>

definition pageRowIds :: "table_env \<Rightarrow> table \<Rightarrow> js_string list" where
  "pageRowIds te t = (case te_getRowId te of None \<Rightarrow> [] | Some f \<Rightarrow> map f (paginated te t))"

definition allPageSelected :: "table_env \<Rightarrow> table \<Rightarrow> bool" where
  "allPageSelected te t \<longleftrightarrow> pageRowIds te t \<noteq> [] \<and> (\<forall>i \<in> set (pageRowIds te t). i \<in> set (tb_selectedIds t))"

definition somePageSelected :: "table_env \<Rightarrow> table \<Rightarrow> bool" where
  "somePageSelected te t \<longleftrightarrow> \<not> allPageSelected te t \<and> (\<exists>i \<in> set (pageRowIds te t). i \<in> set (tb_selectedIds t))"

definition selectedRows :: "table_env \<Rightarrow> table \<Rightarrow> row list" where
  "selectedRows te t =
     (case te_getRowId te of None \<Rightarrow> [] | Some f \<Rightarrow> filter (\<lambda>r. f r \<in> set (tb_selectedIds t)) (tb_data t))"

definition toggleSelectAllOnPage :: "table_env \<Rightarrow> table \<Rightarrow> table" where
  "toggleSelectAllOnPage te t =
     t\<lparr>tb_selectedIds := (if allPageSelected te t then fold set_remove (pageRowIds te t) (tb_selectedIds t)
                           else fold set_add (pageRowIds te t) (tb_selectedIds t))\<rparr>"

definition toggleSelectRow :: "js_string \<Rightarrow> table \<Rightarrow> table" where
  "toggleSelectRow i t =
     t\<lparr>tb_selectedIds := (if i \<in> set (tb_selectedIds t) then set_remove i (tb_selectedIds t) else set_add i (tb_selectedIds t))\<rparr>"

text \<open>The rows the action is called with, if it is called; its promise may reject, and then the selection stays.\<close>

definition runBulkAction :: "table_env \<Rightarrow> (row \<Rightarrow> bool) option \<Rightarrow> bool \<Rightarrow> table \<Rightarrow> row list option \<times> table" where
  "runBulkAction te isAvailable succeeds t =
     (let applicable = (case isAvailable of None \<Rightarrow> selectedRows te t | Some f \<Rightarrow> filter f (selectedRows te t)) in
      if applicable = [] then (None, t)
      else (Some applicable, if succeeds then t\<lparr>tb_selectedIds := []\<rparr> else t))"

section \<open>Controls\<close>

definition set_search :: "js_string \<Rightarrow> table \<Rightarrow> table" where
  "set_search v t = t\<lparr>tb_search := v, tb_page := 1\<rparr>"

definition set_filter_value :: "js_string \<Rightarrow> js_string \<Rightarrow> table \<Rightarrow> table" where
  "set_filter_value key v t = t\<lparr>tb_filterValues := jset key v (tb_filterValues t), tb_page := 1\<rparr>"

definition handleSort :: "js_string \<Rightarrow> table \<Rightarrow> table" where
  "handleSort key t =
     (if tb_sortKey t \<noteq> Some key then t\<lparr>tb_sortDir := Some Asc, tb_sortKey := Some key\<rparr>
      else t\<lparr>tb_sortDir := (case tb_sortDir t of Some Asc \<Rightarrow> Some Desc | Some Desc \<Rightarrow> None | None \<Rightarrow> Some Asc), tb_sortKey := Some key\<rparr>)"

definition previous_page :: "table \<Rightarrow> table" where
  "previous_page t = (if tb_page t \<le> 1 then t else t\<lparr>tb_page := tb_page t - 1\<rparr>)"

definition next_page :: "table_env \<Rightarrow> table \<Rightarrow> table" where
  "next_page te t = (if totalPages te t \<le> tb_page t then t else t\<lparr>tb_page := tb_page t + 1\<rparr>)"

section \<open>CSV export\<close>

record column =
  cl_key :: js_string
  cl_header :: js_string
  cl_csvValue :: "(row \<Rightarrow> js_string) option"

definition csvField :: "js_string \<Rightarrow> js_string" where
  "csvField v =
     (if list_ex (\<lambda>u. u = 34 \<or> u = 44 \<or> u = 13 \<or> u = 10) v
      then 34 # concat (map (\<lambda>u. if u = 34 then [34, 34] else [u]) v) @ [34] else v)"

fun join_with :: "js_string \<Rightarrow> js_string list \<Rightarrow> js_string" where
  "join_with sep [] = []"
| "join_with sep [x] = x"
| "join_with sep (x # xs) = x @ sep @ join_with sep xs"

definition csv_value :: "(js_number \<Rightarrow> js_string) \<Rightarrow> row \<Rightarrow> column \<Rightarrow> js_string" where
  "csv_value fmt r c = (case cl_csvValue c of Some f \<Rightarrow> f r | None \<Rightarrow> field_text fmt r (cl_key c))"

definition toCsv :: "(js_number \<Rightarrow> js_string) \<Rightarrow> row list \<Rightarrow> column list \<Rightarrow> js_string" where
  "toCsv fmt rows columns =
     join_with [13, 10]
       (join_with [44] (map (\<lambda>c. csvField (cl_header c)) columns) #
        map (\<lambda>r. join_with [44] (map (\<lambda>c. csvField (csv_value fmt r c)) columns)) rows)"

definition exportRows :: "(js_number \<Rightarrow> js_string) \<Rightarrow> js_string option \<Rightarrow> column list \<Rightarrow> row list \<Rightarrow> js_string \<times> js_string" where
  "exportRows fmt exportFilename columns rows =
     (toCsv fmt rows columns, (case exportFilename of None \<Rightarrow> js_of ''export'' | Some f \<Rightarrow> f) @ js_of ''.csv'')"

section \<open>The export can be read back\<close>

text \<open>A reader of RFC 4180: fields are separated by commas and records by CR LF; in a quoted field two quotes stand for one. A CR LF at the very end begins another record with one empty field;
  the format also allows to take it as the end of the last record, which makes a difference only for a table of one column whose last cell is empty, where the export ends with a line break.\<close>

fun csv_plain :: "js_string \<Rightarrow> js_string \<Rightarrow> js_string list list" and csv_start :: "js_string \<Rightarrow> js_string list list" and
    csv_quoted :: "js_string \<Rightarrow> js_string \<Rightarrow> js_string list list" where
  "csv_plain acc [] = [[acc]]"
| "csv_plain acc (u # us) =
     (if u = 44 then (case csv_start us of r # rs \<Rightarrow> (acc # r) # rs | [] \<Rightarrow> [[acc]])
      else if u = 13 \<and> take 1 us = [10] then [acc] # csv_start (drop 1 us)
      else csv_plain (acc @ [u]) us)"
| "csv_start us = (if take 1 us = [34] then csv_quoted [] (drop 1 us) else csv_plain [] us)"
| "csv_quoted acc [] = [[acc]]"
| "csv_quoted acc (u # us) =
     (if u = 34 then (if take 1 us = [34] then csv_quoted (acc @ [34]) (drop 1 us) else csv_plain acc us)
      else csv_quoted (acc @ [u]) us)"

declare csv_start.simps [simp del]

lemma csv_plain_skip:
  "\<forall>u \<in> set v. u \<noteq> 34 \<and> u \<noteq> 44 \<and> u \<noteq> 13 \<and> u \<noteq> 10 \<Longrightarrow> csv_plain acc (v @ rest) = csv_plain (acc @ v) rest"
  by (induction v arbitrary: acc) simp_all

lemma csv_quoted_skip:
  "take 1 rest \<noteq> [34] \<Longrightarrow>
     csv_quoted acc (concat (map (\<lambda>u. if u = 34 then [34, 34] else [u]) v) @ 34 # rest) = csv_plain (acc @ v) rest"
  by (induction v arbitrary: acc) simp_all

lemma csv_start_field:
  assumes "take 1 rest \<noteq> [34]"
  shows "csv_start (csvField v @ rest) = csv_plain v rest"
proof (cases "list_ex (\<lambda>u. u = 34 \<or> u = 44 \<or> u = 13 \<or> u = 10) v")
  case True
  then show ?thesis using csv_quoted_skip [OF assms, of "[]" v] by (simp add: csvField_def csv_start.simps)
next
  case False
  then have v: "\<forall>u \<in> set v. u \<noteq> 34 \<and> u \<noteq> 44 \<and> u \<noteq> 13 \<and> u \<noteq> 10" by (auto simp: list_ex_iff)
  then have "take 1 (v @ rest) \<noteq> [34]" using assms by (cases v) simp_all
  moreover have "csvField v = v" using False by (simp add: csvField_def)
  ultimately show ?thesis using csv_plain_skip [OF v, of "[]" rest] by (simp add: csv_start.simps)
qed

lemma csv_start_record:
  "fs \<noteq> [] \<Longrightarrow> csv_start (join_with [44] (map csvField fs)) = [fs] \<and>
     csv_start (join_with [44] (map csvField fs) @ 13 # 10 # rest) = fs # csv_start rest"
proof (induction fs rule: induct_list012)
  case (2 x)
  have "csv_start (csvField x @ []) = csv_plain x []" "csv_start (csvField x @ 13 # 10 # rest) = csv_plain x (13 # 10 # rest)"
    by (rule csv_start_field, simp)+
  then show ?case by simp
next
  case (3 x y zs)
  let ?j = "join_with [44] (map csvField (y # zs))"
  have e: "csv_start (csvField x @ 44 # r) = csv_plain x (44 # r)" for r by (rule csv_start_field) simp
  have "join_with [44] (map csvField (x # y # zs)) = csvField x @ 44 # ?j" by simp
  then show ?case using 3 e [of ?j] e [of "?j @ 13 # 10 # rest"] by simp
qed simp

lemma csv_start_lines:
  "recs \<noteq> [] \<Longrightarrow> \<forall>fs \<in> set recs. fs \<noteq> [] \<Longrightarrow>
     csv_start (join_with [13, 10] (map (\<lambda>fs. join_with [44] (map csvField fs)) recs)) = recs"
  by (induction recs rule: induct_list012) (simp_all add: csv_start_record)

text \<open>
  C25. The CSV export can be read back: a reader of RFC 4180 gives the headers and then, row by row, the text of every column, whatever commas, quotes and line breaks those contain.
\<close>

theorem csv_roundtrip:
  assumes "columns \<noteq> []"
  shows "csv_start (toCsv fmt rows columns) = map cl_header columns # map (\<lambda>r. map (csv_value fmt r) columns) rows"
proof -
  have "toCsv fmt rows columns =
      join_with [13, 10] (map (\<lambda>fs. join_with [44] (map csvField fs)) (map cl_header columns # map (\<lambda>r. map (csv_value fmt r) columns) rows))"
    by (simp add: toCsv_def comp_def)
  then show ?thesis using csv_start_lines [of "map cl_header columns # map (\<lambda>r. map (csv_value fmt r) columns) rows"] assms by simp
qed

definition sample_columns :: "column list" where
  "sample_columns = [\<lparr>cl_key = js_of ''id'', cl_header = js_of ''Id'', cl_csvValue = None\<rparr>,
     \<lparr>cl_key = js_of ''note'', cl_header = js_of ''Note, free'', cl_csvValue = None\<rparr>]"

theorem csv_roundtrip_witness:
  "csv_start (toCsv (\<lambda>_. []) [[(js_of ''id'', Cell_Text (js_of ''1'')), (js_of ''note'', Cell_Text [34, 44, 13, 10, 34])]] sample_columns) =
     [[js_of ''Id'', js_of ''Note, free''], [js_of ''1'', [34, 44, 13, 10, 34]]]"
  using csv_roundtrip [of sample_columns "\<lambda>_. []" "[[(js_of ''id'', Cell_Text (js_of ''1'')), (js_of ''note'', Cell_Text [34, 44, 13, 10, 34])]]"]
  by (simp add: sample_columns_def csv_value_def field_text_def jget_def)

section \<open>Sorting and paging\<close>

text \<open>What \<open>Array.prototype.sort\<close> needs of its comparison, and ECMA-402 promises of \<open>localeCompare\<close>.\<close>

definition collation :: "('a \<Rightarrow> 'a \<Rightarrow> int) \<Rightarrow> bool" where
  "collation cmp \<longleftrightarrow> (\<forall>a. cmp a a = 0) \<and> (\<forall>a b. cmp a b \<le> 0 \<or> cmp b a \<le> 0) \<and> (\<forall>a b c. cmp a b \<le> 0 \<longrightarrow> cmp b c \<le> 0 \<longrightarrow> cmp a c \<le> 0)"

lemma set_insert_by [simp]: "set (insert_by cmp x xs) = insert x (set xs)"
  by (induction xs) auto

lemma mset_insert_by: "mset (insert_by cmp x xs) = add_mset x (mset xs)"
  by (induction xs) simp_all

lemma mset_js_sort: "mset (js_sort cmp xs) = mset xs"
  unfolding js_sort_def by (induction xs) (simp_all add: mset_insert_by)

lemma sorted_insert_by:
  "collation cmp \<Longrightarrow> sorted_wrt (\<lambda>a b. cmp a b \<le> 0) xs \<Longrightarrow> sorted_wrt (\<lambda>a b. cmp a b \<le> 0) (insert_by cmp x xs)"
proof (induction xs)
  case (Cons y ys)
  show ?case
  proof (cases "cmp x y \<le> 0")
    case True
    moreover have "cmp x z \<le> 0" if "z \<in> set ys" for z
      using Cons.prems True that unfolding collation_def by (auto dest: spec)
    ultimately show ?thesis using Cons.prems by simp
  next
    case False
    then have "cmp y x \<le> 0" using Cons.prems(1) unfolding collation_def by blast
    then show ?thesis using Cons False by simp
  qed
qed simp

lemma sorted_js_sort: "collation cmp \<Longrightarrow> sorted_wrt (\<lambda>a b. cmp a b \<le> 0) (js_sort cmp xs)"
  unfolding js_sort_def by (induction xs) (simp_all add: sorted_insert_by)

text \<open>Stability: rows that compare equal to each other keep their order.\<close>

lemma filter_insert_by:
  "(\<And>y. P y \<Longrightarrow> P x \<Longrightarrow> cmp x y \<le> 0) \<Longrightarrow> filter P (insert_by cmp x xs) = filter P (x # xs)"
  by (induction xs) auto

lemma filter_js_sort:
  "(\<And>x y. P x \<Longrightarrow> P y \<Longrightarrow> cmp x y \<le> 0) \<Longrightarrow> filter P (js_sort cmp xs) = filter P xs"
  unfolding js_sort_def by (induction xs) (simp_all add: filter_insert_by)

lemma concat_pages:
  "0 < n \<Longrightarrow> length xs \<le> k * n \<Longrightarrow> concat (map (\<lambda>p. page_of n p xs) [1..<Suc k]) = xs"
proof -
  assume n: "0 < n" and k: "length xs \<le> k * n"
  have "concat (map (\<lambda>p. page_of n p xs) [1..<Suc j]) = take (j * n) xs" for j
  proof (induction j)
    case (Suc j)
    have "take (Suc j * n) xs = take (j * n) xs @ take n (drop (j * n) xs)" by (simp add: take_add [symmetric] add.commute)
    then show ?case using Suc by (simp add: page_of_def)
  qed simp
  then show ?thesis using k by simp
qed

lemma collation_on: "collation cmp \<Longrightarrow> collation (\<lambda>a b. cmp (f a) (f b))"
  unfolding collation_def by blast

lemma collation_flip: "collation cmp \<Longrightarrow> collation (\<lambda>a b. cmp b a)"
  unfolding collation_def by blast

lemma collation_sort_compare:
  assumes "collation localeCompare"
  shows "collation (sort_compare localeCompare fmt key dir)"
proof (cases dir)
  case Asc
  then show ?thesis using collation_on [OF assms, of "\<lambda>r. field_text fmt r key"] by (simp add: sort_compare_def [abs_def] Let_def)
next
  case Desc
  then show ?thesis using collation_flip [OF collation_on [OF assms, of "\<lambda>r. field_text fmt r key"]] by (simp add: sort_compare_def [abs_def] Let_def)
qed

text \<open>
  C23. The pages of the table, one after the other, are exactly the rows that pass the filters and the search, each once; they are in the order of the sorted column, and rows with the same text
  in that column keep the order of the data. This needs a positive page size, and that \<open>localeCompare\<close> is a consistent comparison.
\<close>

theorem table_pages:
  assumes "0 < te_pageSize te" "te_pagination te" "collation (te_localeCompare te)" "tb_sortKey t = Some key" "key \<noteq> []" "tb_sortDir t = Some dir"
  shows "let rows = filtered (te_lower te) (te_fmt te) (te_filters te) t;
             shown = concat (map (\<lambda>p. paginated te (t\<lparr>tb_page := p\<rparr>)) [1..<Suc (totalPages te t)]) in
    mset shown = mset rows \<and> sorted_wrt (\<lambda>a b. sort_compare (te_localeCompare te) (te_fmt te) key dir a b \<le> 0) shown \<and>
    (\<forall>v. filter (\<lambda>r. field_text (te_fmt te) r key = v) shown = filter (\<lambda>r. field_text (te_fmt te) r key = v) rows)"
proof -
  let ?rows = "filtered (te_lower te) (te_fmt te) (te_filters te) t" and ?cmp = "sort_compare (te_localeCompare te) (te_fmt te) key dir"
  have s: "sorted_rows te (t\<lparr>tb_page := p\<rparr>) = js_sort ?cmp ?rows" for p
    using assms(4-6) by (simp add: sorted_rows_def filtered_def Let_def)
  then have s0: "sorted_rows te t = js_sort ?cmp ?rows" using s [of "tb_page t"] by simp
  have "length (js_sort ?cmp ?rows) \<le> totalPages te t * te_pageSize te"
  proof -
    let ?l = "length (js_sort ?cmp ?rows)" and ?n = "te_pageSize te"
    have "?l \<le> (?l + ?n - 1) div ?n * ?n"
      using assms(1) div_mult_mod_eq [of "?l + ?n - 1" ?n] mod_less_divisor [OF assms(1), of "?l + ?n - 1"] by linarith
    also have "\<dots> \<le> totalPages te t * ?n" by (simp add: totalPages_def s0)
    finally show ?thesis .
  qed
  then have shown: "concat (map (\<lambda>p. paginated te (t\<lparr>tb_page := p\<rparr>)) [1..<Suc (totalPages te t)]) = js_sort ?cmp ?rows"
    using concat_pages [OF assms(1)] assms(2) by (simp add: paginated_def s del: upt_Suc)
  have "collation ?cmp" using assms(3) by (rule collation_sort_compare)
  moreover have "?cmp a b \<le> 0" if "field_text (te_fmt te) a key = v" "field_text (te_fmt te) b key = v" for a b v
    using that assms(3) by (simp add: sort_compare_def Let_def collation_def)
  ultimately show ?thesis unfolding Let_def shown by (simp add: mset_js_sort sorted_js_sort filter_js_sort)
qed

definition sample_env :: table_env where
  "sample_env = \<lparr>te_lower = (\<lambda>s. s), te_localeCompare = (\<lambda>a b. int (length a) - int (length b)), te_fmt = (\<lambda>_. []), te_filters = [],
     te_pagination = True, te_pageSize = 2, te_getRowId = None\<rparr>"

definition sample_table :: table where
  "sample_table = table_init\<lparr>tb_sortKey := Some (js_of ''n''), tb_sortDir := Some Asc,
     tb_data := map (\<lambda>s. [(js_of ''n'', Cell_Text (js_of s))]) [''ccc'', ''a'', ''bb'']\<rparr>"

theorem table_pages_witness:
  "mset (concat (map (\<lambda>p. paginated sample_env (sample_table\<lparr>tb_page := p\<rparr>)) [1..<Suc (totalPages sample_env sample_table)])) =
     mset (map (\<lambda>s. [(js_of ''n'', Cell_Text (js_of s))]) [''a'', ''bb'', ''ccc''])"
proof -
  have "collation (te_localeCompare sample_env)" by (auto simp: collation_def sample_env_def)
  then have "mset (concat (map (\<lambda>p. paginated sample_env (sample_table\<lparr>tb_page := p\<rparr>)) [1..<Suc (totalPages sample_env sample_table)])) =
      mset (filtered (te_lower sample_env) (te_fmt sample_env) (te_filters sample_env) sample_table)"
    using table_pages [of sample_env sample_table "js_of ''n''" Asc, unfolded Let_def, THEN conjunct1] by (simp add: sample_env_def sample_table_def)
  then show ?thesis by (simp add: sample_env_def sample_table_def filtered_def Let_def table_init_def del: upt_Suc js_of_simps)
qed

section \<open>Loading\<close>

text \<open>Only the outcome of the load that was started last reaches the table, in whatever order the loads settle.\<close>

lemma latest_load:
  assumes "\<forall>(n, _) \<in> set late. n \<noteq> tb_load t"
  shows "fold (\<lambda>(n, o'). load_settled n o') late t = t"
  using assms by (induction late) (auto simp: load_settled_def)

lemma load_then_settled:
  "tb_data (load_settled (tb_load t + 1) (Inr rows) (load_start t)) = rows"
  "\<not> tb_isLoading (load_settled (tb_load t + 1) outcome (load_start t))"
  "tb_selectedIds (load_start t) = []"
  by (simp_all add: load_start_def load_settled_def split: sum.split)

section \<open>Selection\<close>

lemma fold_set_add: "set (fold set_add xs ys) = set xs \<union> set ys"
  by (induction xs arbitrary: ys) (auto simp: set_add_def)

lemma fold_set_remove: "set (fold set_remove xs ys) = set ys - set xs"
  by (induction xs arbitrary: ys) auto

lemma toggle_page:
  assumes "pageRowIds te t \<noteq> []"
  shows "allPageSelected te (toggleSelectAllOnPage te t) \<longleftrightarrow> \<not> allPageSelected te t"
    and "\<not> allPageSelected te t \<Longrightarrow>
      set (tb_selectedIds (toggleSelectAllOnPage te (toggleSelectAllOnPage te t))) = set (tb_selectedIds t) - set (pageRowIds te t)"
proof -
  have p: "pageRowIds te (t\<lparr>tb_selectedIds := xs\<rparr>) = pageRowIds te t" for t xs
  proof -
    have "filtered l f fs (t\<lparr>tb_selectedIds := xs\<rparr>) = filtered l f fs t" for l f fs by (simp add: filtered_def cong: if_cong)
    then have "sorted_rows te (t\<lparr>tb_selectedIds := xs\<rparr>) = sorted_rows te t" by (simp add: sorted_rows_def)
    then have "paginated te (t\<lparr>tb_selectedIds := xs\<rparr>) = paginated te t" by (simp add: paginated_def cong: if_cong)
    then show ?thesis by (simp only: pageRowIds_def)
  qed
  show a: "allPageSelected te (toggleSelectAllOnPage te t) \<longleftrightarrow> \<not> allPageSelected te t"
    using assms by (auto simp: toggleSelectAllOnPage_def allPageSelected_def p fold_set_add fold_set_remove split: if_splits)
  show "set (tb_selectedIds (toggleSelectAllOnPage te (toggleSelectAllOnPage te t))) = set (tb_selectedIds t) - set (pageRowIds te t)"
    if n: "\<not> allPageSelected te t"
  proof -
    have "allPageSelected te (toggleSelectAllOnPage te t)" using a n by simp
    then show ?thesis using n
      by (subst toggleSelectAllOnPage_def) (auto simp: toggleSelectAllOnPage_def p fold_set_add fold_set_remove)
  qed
qed

end
