(* ===== verification/Console.thy ===== *)
theory Console
  imports Notifications Popup
begin

text \<open>
  The shared logic of the admin console and the tenant portal: the HTTP layers \<open>admin/src/lib/http.ts\<close> and \<open>tenant-portal/src/lib/http.ts\<close> with the session stores
  they read and clear, the list of known tenants of the admin console, the client tokens that \<open>admin/src/lib/mintToken.ts\<close> mints and the session tokens that
  \<open>tenant-portal/src/lib/decodeSession.ts\<close> reads. The outcome of an Axios call, the HMAC and the printing of dates are arguments. The two HTTP layers share the definition \<open>apiRequest\<close>, whose code is the same in both.
\<close>

section \<open>Requests\<close>

text \<open>How an Axios promise settles: \<open>Http_Failed\<close> is an \<open>AxiosError\<close>, with the status and body of the response if there was one.\<close>

datatype axios_outcome =
    Http_Ok json
  | Http_Failed "(nat \<times> json) option" js_string
  | Other_Failure

datatype api_error = App_Error "json option" "json option" "json option" | Uncaught_Type_Error

definition network_error :: "js_string \<Rightarrow> api_error" where
  "network_error message = App_Error (Some (JStr (js_of ''NETWORK_ERROR''))) (Some (JStr message)) None"

definition unknown_error :: api_error where
  "unknown_error = App_Error (Some (JStr (js_of ''UNKNOWN_ERROR''))) (Some (JStr (js_of ''An unexpected error occurred.''))) None"

text \<open>\<open>new AppError(body.error.code, body.error.message, body.error.trace_id)\<close>; without an \<open>error\<close> the reads throw.\<close>

definition error_of :: "json \<Rightarrow> api_error option" where
  "error_of body =
     (case nullish (jfield (js_of ''error'') body) of
        None \<Rightarrow> None
      | Some e \<Rightarrow> Some (App_Error (jfield (js_of ''code'') e) (jfield (js_of ''message'') e) (jfield (js_of ''trace_id'') e)))"

text \<open>The part of the \<open>catch\<close> block for Axios errors: a type error inside it is not caught any more.\<close>

definition axios_error :: "(nat \<times> json) option \<Rightarrow> js_string \<Rightarrow> api_error" where
  "axios_error response message =
     (case response of
        Some (_, body) \<Rightarrow>
          if truthy body \<and> jfield (js_of ''success'') body = Some (JBool False)
          then (case error_of body of Some e \<Rightarrow> e | None \<Rightarrow> Uncaught_Type_Error)
          else network_error message
      | None \<Rightarrow> network_error message)"

definition apiRequest :: "axios_outcome \<Rightarrow> api_error + json option" where
  "apiRequest outcome =
     (case outcome of
        Http_Ok data \<Rightarrow>
          if data = JNull then Inl unknown_error
          else if \<not> truthy_opt (jfield (js_of ''success'') data)
          then Inl (case error_of data of Some e \<Rightarrow> e | None \<Rightarrow> unknown_error)
          else Inr (jfield (js_of ''data'') data)
      | Http_Failed response message \<Rightarrow> Inl (axios_error response message)
      | Other_Failure \<Rightarrow> Inl unknown_error)"

definition apiRequestVoid :: "axios_outcome \<Rightarrow> api_error option" where
  "apiRequestVoid outcome =
     (case outcome of
        Http_Ok _ \<Rightarrow> None
      | Http_Failed response message \<Rightarrow> Some (axios_error response message)
      | Other_Failure \<Rightarrow> Some unknown_error)"

section \<open>The admin session\<close>

record admin_auth =
  aa_apiUrl :: "js_string option"
  aa_token :: "js_string option"
  aa_isAuthenticated :: bool

definition admin_auth_init :: admin_auth where
  "admin_auth_init = \<lparr>aa_apiUrl = None, aa_token = None, aa_isAuthenticated = False\<rparr>"

definition admin_connect :: "js_string \<Rightarrow> js_string \<Rightarrow> admin_auth \<Rightarrow> admin_auth" where
  "admin_connect apiUrl token s = s\<lparr>aa_apiUrl := Some apiUrl, aa_token := Some token, aa_isAuthenticated := True\<rparr>"

definition admin_logout :: "admin_auth \<Rightarrow> admin_auth" where
  "admin_logout s = s\<lparr>aa_apiUrl := None, aa_token := None, aa_isAuthenticated := False\<rparr>"

text \<open>What the request interceptor adds: the base URL and the header, each if it is not empty.\<close>

definition given_text :: "js_string option \<Rightarrow> js_string option" where
  "given_text v = (case v of Some s \<Rightarrow> if s = [] then None else Some s | None \<Rightarrow> None)"

definition request_base :: "js_string option \<Rightarrow> js_string option \<Rightarrow> js_string option \<times> js_string option" where
  "request_base apiUrl token = (given_text apiUrl, map_option (\<lambda>t. js_of ''Bearer '' @ t) (given_text token))"

definition admin_rejected :: "js_string option \<Rightarrow> axios_outcome \<Rightarrow> admin_auth \<Rightarrow> admin_auth" where
  "admin_rejected url outcome s =
     (case outcome of
        Http_Failed (Some (status, _)) _ \<Rightarrow>
          if status = 401 \<and> starts_with (js_of ''/api/v1/admin'') (or_default url []) then admin_logout s else s
      | _ \<Rightarrow> s)"

section \<open>Known tenants\<close>

record known_tenant =
  kt_tenantId :: js_string
  kt_label :: js_string
  kt_addedAt :: js_string
  kt_limits :: "json option"

definition tenants_add :: "js_string \<Rightarrow> js_string \<Rightarrow> js_string \<Rightarrow> json option \<Rightarrow> known_tenant list \<Rightarrow> known_tenant list" where
  "tenants_add now tenantId label limits ts =
     (if list_ex (\<lambda>t. kt_tenantId t = tenantId) ts then ts
      else \<lparr>kt_tenantId = tenantId, kt_label = label, kt_addedAt = now, kt_limits = limits\<rparr> # ts)"

definition tenants_remove :: "js_string \<Rightarrow> known_tenant list \<Rightarrow> known_tenant list" where
  "tenants_remove tenantId ts = filter (\<lambda>t. kt_tenantId t \<noteq> tenantId) ts"

definition tenants_updateLimits :: "js_string \<Rightarrow> json \<Rightarrow> known_tenant list \<Rightarrow> known_tenant list" where
  "tenants_updateLimits tenantId limits ts = map (\<lambda>t. if kt_tenantId t = tenantId then t\<lparr>kt_limits := Some limits\<rparr> else t) ts"

definition tenants_rename :: "js_string \<Rightarrow> js_string \<Rightarrow> known_tenant list \<Rightarrow> known_tenant list" where
  "tenants_rename tenantId label ts = map (\<lambda>t. if kt_tenantId t = tenantId then t\<lparr>kt_label := label\<rparr> else t) ts"

datatype tenant_op = Add js_string js_string js_string "json option" | Remove js_string | Update_Limits js_string json | Rename js_string js_string

fun tenant_step :: "tenant_op \<Rightarrow> known_tenant list \<Rightarrow> known_tenant list" where
  "tenant_step (Add now i l limits) ts = tenants_add now i l limits ts"
| "tenant_step (Remove i) ts = tenants_remove i ts"
| "tenant_step (Update_Limits i limits) ts = tenants_updateLimits i limits ts"
| "tenant_step (Rename i l) ts = tenants_rename i l ts"

lemma tenant_ids:
  "map kt_tenantId (tenants_updateLimits i limits ts) = map kt_tenantId ts" "map kt_tenantId (tenants_rename i l ts) = map kt_tenantId ts"
  by (induction ts) (simp_all add: tenants_updateLimits_def tenants_rename_def)

interpretation tn: guarded_machine "[]" tenant_step "\<lambda>ts. distinct (map kt_tenantId ts)"
proof
  fix ts :: "known_tenant list" and op
  assume d: "distinct (map kt_tenantId ts)"
  show "distinct (map kt_tenantId (tenant_step op ts))"
  proof (cases op)
    case (Add now i l limits)
    then show ?thesis using d by (auto simp: tenants_add_def list_ex_iff)
  qed (use d in \<open>simp_all add: tenant_ids tenants_remove_def distinct_map_filter\<close>)
qed simp

section \<open>Tokens\<close>

definition base64UrlEncode :: "bytes \<Rightarrow> js_string" where
  "base64UrlEncode bs =
     strip_trailing pad (map (\<lambda>u. if u = 47 then 95 else u) (map (\<lambda>u. if u = 43 then 45 else u) (btoa bs)))"

text \<open>\<open>exp\<close> is the time in seconds, \<open>now\<close> the clock in milliseconds; \<open>hmac\<close> is HMAC-SHA-256.\<close>

definition token_claims :: "nat \<Rightarrow> nat \<Rightarrow> js_string \<Rightarrow> js_string \<Rightarrow> json" where
  "token_claims now ttl tenantId sub =
     JObj [(js_of ''tenant_id'', JStr tenantId), (js_of ''sub'', JStr sub), (js_of ''exp'', json_nat (now div 1000 + ttl))]"

definition mintClientToken ::
    "(bytes \<Rightarrow> bytes \<Rightarrow> bytes) \<Rightarrow> (js_number \<Rightarrow> js_string) \<Rightarrow> nat \<Rightarrow> js_string \<Rightarrow> js_string \<Rightarrow> js_string \<Rightarrow> nat option \<Rightarrow> js_string" where
  "mintClientToken hmac fmt now tenantId secret sub ttlSeconds =
     (let claims = token_claims now (or_default ttlSeconds 3600) tenantId sub;
          payloadB64 = base64UrlEncode (text_encode (json_stringify fmt claims));
          signature = hmac (text_encode secret) (text_encode payloadB64) in
      payloadB64 @ [46] @ base64UrlEncode signature)"

datatype session_error = Malformed_Token | Invalid_Character | Syntax_Error | Session_Type_Error | Range_Error

text \<open>\<open>atob\<close> gives a string with one code unit per byte.\<close>

definition latin1 :: "bytes \<Rightarrow> js_string" where
  "latin1 bs = map ucast bs"

definition decodeSessionPayload :: "js_string \<Rightarrow> session_error + json" where
  "decodeSessionPayload token =
     (let payload = hd (js_split 46 token) in
      if payload = [] then Inl Malformed_Token
      else (let base64 = map (\<lambda>u. if u = 95 then 47 else u) (map (\<lambda>u. if u = 45 then 43 else u) payload);
                padded = base64 @ replicate ((4 - length base64 mod 4) mod 4) 61 in
        case atob padded of
          None \<Rightarrow> Inl Invalid_Character
        | Some bs \<Rightarrow> (case json_parse (latin1 bs) of None \<Rightarrow> Inl Syntax_Error | Some j \<Rightarrow> Inr j)))"

record portal_auth =
  pa_apiUrl :: "js_string option"
  pa_accessToken :: "js_string option"
  pa_tenantId :: "json option"
  pa_email :: "json option"
  pa_expiresAt :: "js_string option"
  pa_isAuthenticated :: bool

definition portal_auth_init :: portal_auth where
  "portal_auth_init = \<lparr>pa_apiUrl = None, pa_accessToken = None, pa_tenantId = None, pa_email = None, pa_expiresAt = None,
     pa_isAuthenticated = False\<rparr>"

text \<open>\<open>toISO\<close> is \<open>new Date(exp * 1000).toISOString()\<close>, \<open>None\<close> where that throws.\<close>

definition setSession :: "(json option \<Rightarrow> js_string option) \<Rightarrow> js_string \<Rightarrow> js_string \<Rightarrow> portal_auth \<Rightarrow> session_error option \<times> portal_auth" where
  "setSession toISO apiUrl accessToken s =
     (case decodeSessionPayload accessToken of
        Inl e \<Rightarrow> (Some e, s)
      | Inr JNull \<Rightarrow> (Some Session_Type_Error, s)
      | Inr claims \<Rightarrow>
          (case toISO (jfield (js_of ''exp'') claims) of
             None \<Rightarrow> (Some Range_Error, s)
           | Some expiresAt \<Rightarrow>
               (None, s\<lparr>pa_apiUrl := Some apiUrl, pa_accessToken := Some accessToken, pa_tenantId := jfield (js_of ''tenant_id'') claims,
                  pa_email := jfield (js_of ''email'') claims, pa_expiresAt := Some expiresAt, pa_isAuthenticated := True\<rparr>)))"

definition portal_logout :: "portal_auth \<Rightarrow> portal_auth" where
  "portal_logout s = s\<lparr>pa_apiUrl := None, pa_accessToken := None, pa_tenantId := None, pa_email := None, pa_expiresAt := None,
     pa_isAuthenticated := False\<rparr>"

definition portal_rejected :: "axios_outcome \<Rightarrow> portal_auth \<Rightarrow> portal_auth" where
  "portal_rejected outcome s = (case outcome of Http_Failed (Some (status, _)) _ \<Rightarrow> if status = 401 then portal_logout s else s | _ \<Rightarrow> s)"

section \<open>What a token says\<close>

lemma base64UrlEncode_eq: "base64UrlEncode = arrayBufferToBase64Url"
proof -
  have "(\<lambda>u. if u = 47 then 95 else u) \<circ> (\<lambda>u. if u = 43 then 45 else u) = url_char"
    by (rule ext) (simp add: url_char_def)
  then show ?thesis by (intro ext) (simp add: base64UrlEncode_def arrayBufferToBase64Url_def)
qed

lemma base64Url_chars: "46 \<notin> set (arrayBufferToBase64Url bs)"
proof -
  let ?u = "map url_char (map b64_char (to_sextets bs))"
  have u: "pad \<notin> set ?u" by (auto dest!: to_sextets_less b64_char_props(3))
  have "url_char pad = pad" by (simp add: url_char_def pad_def)
  then have "arrayBufferToBase64Url bs = ?u"
    using strip_trailing_pads [OF u] by (simp add: arrayBufferToBase64Url_def btoa_def Let_def)
  moreover have "url_char (b64_char n) \<noteq> 46" if "n < 64" for n
  proof -
    have "unat (b64_char n) \<noteq> 46" using unat_b64_char [OF that] that by (auto split: if_splits)
    then have "b64_char n \<noteq> 46" by auto
    then show ?thesis by (simp add: url_char_def)
  qed
  ultimately show ?thesis by (auto dest!: to_sextets_less)
qed

lemma js_split_not_Nil: "js_split x s \<noteq> []"
  by (cases s) (simp_all split: list.split)

lemma hd_js_split: "x \<notin> set p \<Longrightarrow> hd (js_split x (p @ x # r)) = p"
proof (induction p)
  case (Cons u p)
  obtain q qs where q: "js_split x (p @ x # r) = q # qs" using js_split_not_Nil by (metis list.exhaust)
  then show ?case using Cons by auto
qed simp

text \<open>The payload is read with one character per byte.\<close>

lemma decode_payload:
  assumes "bs \<noteq> []"
  shows "decodeSessionPayload (arrayBufferToBase64Url bs @ 46 # sig) =
    (case json_parse (latin1 bs) of None \<Rightarrow> Inl Syntax_Error | Some j \<Rightarrow> Inr j)"
proof -
  let ?p = "arrayBufferToBase64Url bs"
  have d: "base64UrlToUint8Array ?p = Some bs" by (rule decode_encode_base64Url)
  have ne: "?p \<noteq> []"
  proof
    assume "?p = []"
    then have "base64UrlToUint8Array [] = Some bs" using d by simp
    then show False using assms by (simp add: base64UrlToUint8Array_def atob_def strip_pads_def Let_def)
  qed
  have f: "(\<lambda>u. if u = 95 then 47 else u) \<circ> (\<lambda>u. if u = 45 then 43 else u) = unurl_char"
    by (rule ext) (simp add: unurl_char_def)
  have "unurl_char pad = 61" by (simp add: unurl_char_def pad_def)
  then show ?thesis
    using d ne unfolding decodeSessionPayload_def hd_js_split [OF base64Url_chars]
    by (simp add: Let_def f base64UrlToUint8Array_def)
qed

lemma latin1_text_encode: "(\<And>u. u \<in> set s \<Longrightarrow> unat u < 0x80) \<Longrightarrow> latin1 (text_encode s) = s"
proof (induction s)
  case Nil
  then show ?case by (simp add: latin1_def text_encode_def)
next
  case (Cons u s)
  have u: "unat u < 0x80" using Cons.prems by simp
  then have h: "\<not> is_high u" "\<not> is_low u" by (simp_all add: is_high_def is_low_def)
  then have "to_scalars (u # s) = unat u # to_scalars s" by (cases s) (simp_all add: unit_scalar_def)
  moreover have "(ucast (of_nat (unat u) :: byte) :: code_unit) = u"
    using u by (intro word_unat_eq_iff [THEN iffD2]) (simp add: unsigned_ucast_eq unsigned_take_bit_eq take_bit_nat_eq_self)
  ultimately show ?case using Cons u by (simp add: text_encode_def latin1_def utf8_scalar_def)
qed

lemma stringify_not_Nil: "json_stringify fmt (JObj ms) \<noteq> []"
  by simp

text \<open>
  The portal reads back the claims of a token that the console minted, whatever the key, as long as their JSON text is ASCII: the payload segment is what
  precedes the first full stop, and decoding undoes the encoding without padding.
\<close>

theorem minted_token_read:
  assumes "claims = token_claims now (or_default ttl 3600) tenantId sub" "json_ok fmt claims"
    and "\<forall>u \<in> set (json_stringify fmt claims). unat u < 0x80"
  shows "decodeSessionPayload (mintClientToken hmac fmt now tenantId secret sub ttl) = Inr claims"
proof -
  let ?bs = "text_encode (json_stringify fmt claims)"
  have l: "latin1 ?bs = json_stringify fmt claims" using assms(3) by (intro latin1_text_encode) simp
  have "json_stringify fmt claims \<noteq> []" unfolding assms(1) token_claims_def by (rule stringify_not_Nil)
  then have "?bs \<noteq> []" using l by (auto simp: latin1_def)
  from decode_payload [OF this] show ?thesis
    using json_parse_stringify [OF assms(2)] l
    by (simp add: mintClientToken_def Let_def base64UrlEncode_eq assms(1) [symmetric])
qed

theorem minted_token_read_witness:
  "decodeSessionPayload (mintClientToken (\<lambda>_ _. [1, 2]) fmt_nat 1700000000000 (js_of ''t1'') (js_of ''k'') (js_of ''ann'') None) =
     Inr (token_claims 1700000000000 3600 (js_of ''t1'') (js_of ''ann''))"
proof -
  let ?c = "token_claims 1700000000000 3600 (js_of ''t1'') (js_of ''ann'')"
  have "fmt_ok fmt_nat (js_Number (js_of_nat 1700003600))" by (rule fmt_nat_ok) simp
  then have "json_ok fmt_nat ?c" by (simp add: token_claims_def json_nat_def jmap_ok_def jkeys_def)
  moreover have "\<forall>u \<in> set (json_stringify fmt_nat ?c). unat u < 0x80" by code_simp
  ultimately show ?thesis
    using minted_token_read [of ?c 1700000000000 None "js_of ''t1''" "js_of ''ann''" fmt_nat "\<lambda>_ _. [1, 2]" "js_of ''k''"]
    by (simp add: or_default_def del: js_of_simps)
qed

text \<open>
  Other characters are garbled: the bytes of the UTF-8 text are taken for characters, so a token with the address of one letter \<open>e\<close> with an acute accent is shown as two other letters.
\<close>

theorem session_email_garbled:
  "decodeSessionPayload (base64UrlEncode (text_encode (json_stringify fmt (JObj [(js_of ''email'', JStr [0xE9])]))) @ 46 # sig) =
     Inr (JObj [(js_of ''email'', JStr [0xC3, 0xA9])])"
proof -
  let ?bs = "text_encode (json_stringify fmt (JObj [(js_of ''email'', JStr [0xE9])]))"
  have l: "latin1 ?bs = json_stringify fmt (JObj [(js_of ''email'', JStr [0xC3, 0xA9])])"
    by code_simp
  have "json_ok fmt (JObj [(js_of ''email'', JStr [0xC3, 0xA9])])" by (simp add: jmap_ok_def jkeys_def)
  from json_parse_stringify [OF this] l have "json_parse (latin1 ?bs) = Some (JObj [(js_of ''email'', JStr [0xC3, 0xA9])])" by simp
  moreover have "?bs \<noteq> []" using l by (auto simp: latin1_def)
  ultimately show ?thesis by (simp add: base64UrlEncode_eq decode_payload)
qed

end
