(* ===== verification/Push_Actions.thy ===== *)
theory Push_Actions
  imports Console Web_Stores
begin

text \<open>
  Web Push in the applications: \<open>web-client/src/actions/realtime/registerPushSubscription.action.ts\<close> with the button
  \<open>PushNotificationToggle\<close> that calls it, and \<open>tenant-portal/src/actions/push/registerPortalPush.action.ts\<close>. As in \<open>Notifications\<close> an
  asynchronous function is the sequence of calls it makes with its result or error; the browser, the network and the \<open>URL\<close> class are arguments.
\<close>

section \<open>Runs\<close>

type_synonym ('e, 'c, 'a) run = "('e + 'a) \<times> 'c list"

definition run_bind :: "('e, 'c, 'a) run \<Rightarrow> ('a \<Rightarrow> ('e, 'c, 'b) run) \<Rightarrow> ('e, 'c, 'b) run" where
  "run_bind p f =
     (case p of
        (Inl e, calls) \<Rightarrow> (Inl e, calls)
      | (Inr a, calls) \<Rightarrow> (let (r, more) = f a in (r, calls @ more)))"

definition run_lift :: "('e \<Rightarrow> 'f) \<Rightarrow> ('c \<Rightarrow> 'd) \<Rightarrow> ('e, 'c, 'a) run \<Rightarrow> ('f, 'd, 'a) run" where
  "run_lift f g p = (map_sum f (\<lambda>a. a) (fst p), map g (snd p))"

lemma run_bind_simps [simp]:
  "run_bind (Inl e, calls) f = (Inl e, calls)"
  "run_bind (Inr a, calls) f = (fst (f a), calls @ snd (f a))"
  by (simp_all add: run_bind_def split: prod.split)

lemma run_lift_simps [simp]:
  "run_lift f g (Inl e, calls) = (Inl (f e), map g calls)"
  "run_lift f g (Inr a, calls) = (Inr a, map g calls)"
  by (simp_all add: run_lift_def)

lemma run_bind_calls:
  "set (snd (run_bind p f)) = set (snd p) \<union> (case fst p of Inl _ \<Rightarrow> {} | Inr a \<Rightarrow> set (snd (f a)))"
  by (cases p; cases "fst p") auto

lemma snd_run_lift [simp]: "snd (run_lift f g p) = map g (snd p)"
  by (simp add: run_lift_def)

text \<open>The sequencing of \<open>Notifications\<close> is the one of runs.\<close>

lemma push_bind_run: "push_bind = run_bind"
  by (intro ext) (simp add: push_bind_def run_bind_def)

section \<open>The web client\<close>

datatype action_error = Sdk_Error push_error | Invalid_URL | Api_Failure api_error

text \<open>What the sources use of the class \<open>URL\<close>; a constructor that throws is \<open>None\<close>.\<close>

record 'u url_class =
  ur_new :: "js_string \<Rightarrow> 'u option"
  ur_protocol :: "'u \<Rightarrow> js_string"
  ur_setProtocol :: "js_string \<Rightarrow> 'u \<Rightarrow> 'u"
  ur_setPort :: "js_string \<Rightarrow> 'u \<Rightarrow> 'u"
  ur_setPathname :: "js_string \<Rightarrow> 'u \<Rightarrow> 'u"
  ur_toString :: "'u \<Rightarrow> js_string"

text \<open>\<open>s.replace(/\/$/, '')\<close>\<close>

definition without_trailing_slash :: "js_string \<Rightarrow> js_string" where
  "without_trailing_slash s = (if s \<noteq> [] \<and> last s = 47 then butlast s else s)"

definition derivePortalApiUrl :: "'u url_class \<Rightarrow> js_string \<Rightarrow> js_string option" where
  "derivePortalApiUrl U wsUrl =
     (case ur_new U wsUrl of
        None \<Rightarrow> None
      | Some url0 \<Rightarrow>
          (let url1 = ur_setProtocol U (if ur_protocol U url0 = js_of ''wss:'' then js_of ''https:'' else js_of ''http:'') url0;
               url2 = ur_setPort U (js_of ''8090'') url1;
               url3 = ur_setPathname U [] url2 in
           Some (without_trailing_slash (ur_toString U url3))))"

definition web_request :: "(js_number \<Rightarrow> js_string) \<Rightarrow> http_method \<Rightarrow> js_string \<Rightarrow> js_string \<Rightarrow> json \<Rightarrow> http_request" where
  "web_request fmt verb base tok body =
     \<lparr>rq_url = subscriptions_url base, rq_method = verb, rq_headers = json_headers tok, rq_body = Some (json_stringify fmt body)\<rparr>"

definition web_registration_body :: "credentials \<Rightarrow> push_info \<Rightarrow> json" where
  "web_registration_body creds s = JObj
     [(js_of ''tenant_id'', JStr (cr_tenantId creds)),
      (js_of ''endpoint'', JStr (pi_endpoint s)),
      (js_of ''keys'', JObj [(js_of ''p256dh'', JStr (pi_p256dh s)), (js_of ''auth'', JStr (pi_auth s))]),
      (js_of ''channels'', JArr [JStr (js_of ''*'')])]"

definition removal_body :: "js_string \<Rightarrow> js_string \<Rightarrow> json" where
  "removal_body tenantId endpoint = JObj [(js_of ''tenant_id'', JStr tenantId), (js_of ''endpoint'', JStr endpoint)]"

text \<open>The end of both actions: the address is derived only then, and an invalid one throws.\<close>

definition web_fetch ::
    "'u url_class \<Rightarrow> (js_number \<Rightarrow> js_string) \<Rightarrow> push_env \<Rightarrow> credentials \<Rightarrow> http_method \<Rightarrow> json \<Rightarrow> (nat \<Rightarrow> push_error) \<Rightarrow>
     (action_error, push_call, unit) run" where
  "web_fetch U fmt env creds verb body err =
     (case derivePortalApiUrl U (cr_wsUrl creds) of
        None \<Rightarrow> (Inl Invalid_URL, [])
      | Some base \<Rightarrow> run_lift Sdk_Error id (push_fetch env (web_request fmt verb base (cr_token creds) body) err))"

definition registerPushSubscriptionAction ::
    "'u url_class \<Rightarrow> (js_number \<Rightarrow> js_string) \<Rightarrow> push_env \<Rightarrow> credentials \<Rightarrow> js_string \<Rightarrow> (action_error, push_call, unit) run" where
  "registerPushSubscriptionAction U fmt env creds vapidPublicKey =
     run_bind (run_lift Sdk_Error id (ask_permission env)) (\<lambda>_.
     run_bind (run_lift Sdk_Error id (registerPushServiceWorker env (js_of ''/sw.js''))) (\<lambda>_.
     run_bind (run_lift Sdk_Error id (subscribeToPush env vapidPublicKey)) (\<lambda>subscription.
     web_fetch U fmt env creds POST (web_registration_body creds subscription) Registration_Failed)))"

definition unregisterPushSubscriptionAction ::
    "'u url_class \<Rightarrow> (js_number \<Rightarrow> js_string) \<Rightarrow> push_env \<Rightarrow> credentials \<Rightarrow> (action_error, push_call, unit) run" where
  "unregisterPushSubscriptionAction U fmt env creds =
     run_bind (run_lift Sdk_Error id (registerPushServiceWorker env (js_of ''/sw.js''))) (\<lambda>_.
     case pe_existing env of
       None \<Rightarrow> (Inr (), [Get_Subscription])
     | Some existing \<Rightarrow>
         run_bind (case pe_unsubscribe env of None \<Rightarrow> Inl (Sdk_Error Unsubscribe_Failed) | Some _ \<Rightarrow> Inr (),
                   [Get_Subscription, Unsubscribe_Push]) (\<lambda>_.
         web_fetch U fmt env creds DELETE (removal_body (cr_tenantId creds) (ps_endpoint existing)) Removal_Failed))"

section \<open>The button of the web client\<close>

record push_toggle =
  tg_permission :: permission
  tg_isBusy :: bool

datatype toggle_toast =
    Connect_First
  | Push_Disabled
  | Disable_Failed action_error
  | Permission_Warning permission
  | Push_Enabled
  | Tab_Only_Enabled
  | Enable_Failed action_error

definition toggle_init :: push_toggle where
  "toggle_init = \<lparr>tg_permission = Default, tg_isBusy = False\<rparr>"

definition toggle_effect :: "browser \<Rightarrow> push_toggle \<Rightarrow> push_toggle" where
  "toggle_effect b t = (if isNotificationSupported b then t\<lparr>tg_permission := bw_permission b\<rparr> else t)"

text \<open>
  A click, from its start to the end of what it awaits; meanwhile the button is disabled. The browser of \<open>env\<close> is the one at the end of the click. An empty VAPID key is one that is not configured.
\<close>

definition toggle_click ::
    "'u url_class \<Rightarrow> (js_number \<Rightarrow> js_string) \<Rightarrow> push_env \<Rightarrow> js_string \<Rightarrow> credentials option \<Rightarrow> push_toggle \<Rightarrow>
     toggle_toast \<times> push_call list \<times> push_toggle" where
  "toggle_click U fmt env vapidPublicKey credentials t =
     (case credentials of
        None \<Rightarrow> (Connect_First, [], t)
      | Some creds \<Rightarrow>
          if tg_permission t = Granted
          then (case (if vapidPublicKey \<noteq> [] then unregisterPushSubscriptionAction U fmt env creds else (Inr (), [])) of
                  (Inr _, calls) \<Rightarrow> (Push_Disabled, calls, t\<lparr>tg_permission := bw_permission (pe_browser env), tg_isBusy := False\<rparr>)
                | (Inl e, calls) \<Rightarrow> (Disable_Failed e, calls, t\<lparr>tg_isBusy := False\<rparr>))
          else (let result = requestNotificationPermission (pe_browser env) (pe_answer env);
                    asked = (if isNotificationSupported (pe_browser env) then [Ask_Permission] else []);
                    t' = t\<lparr>tg_permission := result, tg_isBusy := False\<rparr> in
                if result \<noteq> Granted then (Permission_Warning result, asked, t')
                else if vapidPublicKey \<noteq> []
                then (case registerPushSubscriptionAction U fmt env creds vapidPublicKey of
                        (Inr _, calls) \<Rightarrow> (Push_Enabled, asked @ calls, t')
                      | (Inl e, calls) \<Rightarrow> (Enable_Failed e, asked @ calls, t'))
                else (Tab_Only_Enabled, asked, t')))"

section \<open>The tenant portal\<close>

text \<open>Calls of the browser, and those of the portal's HTTP layer, which run side by side.\<close>

datatype portal_call = Browser_Call push_call | Post_Tokens js_string | Get_Keys

record minted_token =
  mt_token :: "json option"
  mt_expiresIn :: "json option"
  mt_wsUrl :: "json option"

text \<open>Reading a property of an absent or \<open>null\<close> response throws.\<close>

definition response_object :: "api_error + json option \<Rightarrow> api_error + json" where
  "response_object r =
     (case r of Inl e \<Rightarrow> Inl e | Inr v \<Rightarrow> (case nullish v of None \<Rightarrow> Inl Uncaught_Type_Error | Some j \<Rightarrow> Inr j))"

definition mintTokenAction :: "axios_outcome \<Rightarrow> api_error + minted_token" where
  "mintTokenAction outcome = map_sum (\<lambda>e. e)
     (\<lambda>j. \<lparr>mt_token = jfield (js_of ''token'') j, mt_expiresIn = jfield (js_of ''expires_in'') j, mt_wsUrl = jfield (js_of ''ws_url'') j\<rparr>)
     (response_object (apiRequest outcome))"

text \<open>The tenant and the secret.\<close>

definition getKeysAction :: "axios_outcome \<Rightarrow> api_error + json option \<times> json option" where
  "getKeysAction outcome = map_sum (\<lambda>e. e)
     (\<lambda>j. (jfield (js_of ''tenant_id'') j, jfield (js_of ''secret_key'') j)) (response_object (apiRequest outcome))"

definition PORTAL_PUSH_SUB :: js_string where
  "PORTAL_PUSH_SUB = js_of ''tenant-portal-admin''"

text \<open>\<open>pt_text\<close> is the text of a value in a template; \<open>pt_keys_first\<close> says which rejection \<open>Promise.all\<close> sees first.\<close>

record portal_env = push_env +
  pt_apiUrl :: js_string
  pt_minted :: axios_outcome
  pt_keys :: axios_outcome
  pt_keys_first :: bool
  pt_text :: "json option \<Rightarrow> js_string"

definition mint_and_keys :: "portal_env \<Rightarrow> (action_error, portal_call, minted_token \<times> json option) run" where
  "mint_and_keys env =
     ((case (mintTokenAction (pt_minted env), getKeysAction (pt_keys env)) of
         (Inr minted, Inr keys) \<Rightarrow> Inr (minted, fst keys)
       | (Inl e, Inr _) \<Rightarrow> Inl (Api_Failure e)
       | (Inr _, Inl e) \<Rightarrow> Inl (Api_Failure e)
       | (Inl e, Inl e') \<Rightarrow> Inl (Api_Failure (if pt_keys_first env then e' else e))),
      [Post_Tokens PORTAL_PUSH_SUB, Get_Keys])"

text \<open>A member whose value is \<open>undefined\<close> is left out of the text.\<close>

definition tenant_member :: "json option \<Rightarrow> (js_string \<times> json) list" where
  "tenant_member tenantId = (case tenantId of None \<Rightarrow> [] | Some j \<Rightarrow> [(js_of ''tenant_id'', j)])"

definition portal_registration_body :: "json option \<Rightarrow> js_string option \<Rightarrow> push_info \<Rightarrow> json" where
  "portal_registration_body tenantId ua s = JObj (tenant_member tenantId @
     [(js_of ''endpoint'', JStr (pi_endpoint s)),
      (js_of ''keys'', JObj [(js_of ''p256dh'', JStr (pi_p256dh s)), (js_of ''auth'', JStr (pi_auth s))]),
      (js_of ''channels'', JArr [JStr (js_of ''*'')]),
      (js_of ''device_label'', JStr (guessDeviceLabel ua))])"

definition portal_push_env :: "portal_env \<Rightarrow> push_env" where
  "portal_push_env env = push_env.truncate env"

definition registerPortalPushAction ::
    "(js_number \<Rightarrow> js_string) \<Rightarrow> portal_env \<Rightarrow> js_string \<Rightarrow> (action_error, portal_call, unit) run" where
  "registerPortalPushAction fmt env vapidPublicKey =
     (let b = portal_push_env env in
      run_bind (run_lift Sdk_Error Browser_Call (ask_permission b)) (\<lambda>_.
      run_bind (run_lift Sdk_Error Browser_Call (registerPushServiceWorker b (js_of ''/sw.js''))) (\<lambda>_.
      run_bind (run_lift Sdk_Error Browser_Call (subscribeToPush b vapidPublicKey)) (\<lambda>subscription.
      run_bind (mint_and_keys env) (\<lambda>(minted, tenantId).
      run_lift Sdk_Error Browser_Call (push_fetch b (web_request fmt POST (pt_apiUrl env) (pt_text env (mt_token minted))
        (portal_registration_body tenantId (pe_userAgent b) subscription)) Registration_Failed))))))"

definition unregisterPortalPushAction :: "(js_number \<Rightarrow> js_string) \<Rightarrow> portal_env \<Rightarrow> (action_error, portal_call, unit) run" where
  "unregisterPortalPushAction fmt env =
     (let b = portal_push_env env in
      run_bind (run_lift Sdk_Error Browser_Call (registerPushServiceWorker b (js_of ''/sw.js''))) (\<lambda>_.
      case pe_existing b of
        None \<Rightarrow> (Inr (), [Browser_Call Get_Subscription])
      | Some existing \<Rightarrow>
          run_bind (case pe_unsubscribe b of None \<Rightarrow> Inl (Sdk_Error Unsubscribe_Failed) | Some _ \<Rightarrow> Inr (),
                    map Browser_Call [Get_Subscription, Unsubscribe_Push]) (\<lambda>_.
          run_bind (mint_and_keys env) (\<lambda>(minted, tenantId).
          run_lift Sdk_Error Browser_Call (push_fetch b (web_request fmt DELETE (pt_apiUrl env) (pt_text env (mt_token minted))
            (JObj (tenant_member tenantId @ [(js_of ''endpoint'', JStr (ps_endpoint existing))]))) Removal_Failed)))))"

section \<open>The actions are those of the SDK\<close>

text \<open>A run seen by another program: its errors, its result and each of its calls translated.\<close>

definition run_map :: "('e \<Rightarrow> 'f) \<Rightarrow> ('a \<Rightarrow> 'b) \<Rightarrow> ('c \<Rightarrow> 'd list) \<Rightarrow> ('e, 'c, 'a) run \<Rightarrow> ('f, 'd, 'b) run" where
  "run_map F R h p = (map_sum F R (fst p), concat (map h (snd p)))"

lemma run_map_bind: "run_map F R h (run_bind p f) = run_bind (run_map F (\<lambda>a. a) h p) (\<lambda>a. run_map F R h (f a))"
  by (cases p; cases "fst p") (auto simp: run_map_def)

lemma run_bind_cong: "(\<And>a. fst p = Inr a \<Longrightarrow> f a = g a) \<Longrightarrow> run_bind p f = run_bind p g"
  by (cases p; cases "fst p") auto

lemma fst_run_lift_Inr: "fst (run_lift F G p) = Inr a \<Longrightarrow> fst p = Inr a"
  by (cases p; cases "fst p") auto

text \<open>Only requests are translated; the stages before the last one make none.\<close>

lemma run_map_stage:
  assumes "no_fetch (snd p)" "\<And>c. (\<And>rq. c \<noteq> Fetch rq) \<Longrightarrow> h c = [G c]"
  shows "run_map F (\<lambda>a. a) h p = run_lift F G p"
proof -
  have "h c = [G c]" if "c \<in> set (snd p)" for c using assms that by (metis no_fetch_def)
  then have "concat (map h cs) = map G cs" if "set cs \<subseteq> set (snd p)" for cs using that by (induction cs) auto
  then show ?thesis by (simp add: run_map_def run_lift_def)
qed

lemma run_bind_unit [simp]: "run_bind p (\<lambda>_. (Inr (), [])) = p"
  by (cases p; cases "fst p") (auto simp: run_bind_def)

lemma run_map_Pair [simp]:
  "run_map F R h (Inr a, calls) = (Inr (R a), concat (map h calls))" "run_map F R h (Inl e, calls) = (Inl (F e), concat (map h calls))"
  by (simp_all add: run_map_def)

definition web_options :: "credentials \<Rightarrow> js_string \<Rightarrow> js_string \<Rightarrow> push_options" where
  "web_options creds base vapidPublicKey =
     \<lparr>po_apiBaseUrl = base, po_token = cr_token creds, po_tenantId = cr_tenantId creds, po_vapidPublicKey = vapidPublicKey,
      po_channels = None, po_swUrl = None, po_deviceLabel = None\<rparr>"

definition subscription_of :: "push_env \<Rightarrow> js_string \<Rightarrow> push_info" where
  "subscription_of env vapidPublicKey = projr (fst (subscribeToPush env vapidPublicKey))"

text \<open>The SDK's registration, stage by stage.\<close>

lemma sdk_registration:
  "registerWebPushSubscription fmt env options =
     run_bind (ask_permission env) (\<lambda>_.
     run_bind (registerPushServiceWorker env (sw_url options)) (\<lambda>_.
     run_bind (subscribeToPush env (po_vapidPublicKey options)) (\<lambda>s.
     run_bind (push_fetch env (registration_request fmt options (pe_userAgent env) s) Registration_Failed) (\<lambda>_. (Inr s, [])))))"
  by (simp add: registerWebPushSubscription_def push_bind_run)

lemma sdk_translated:
  assumes "\<And>c. (\<And>rq. c \<noteq> Fetch rq) \<Longrightarrow> h c = [G c]" "sw_url options = js_of ''/sw.js''"
    and "po_vapidPublicKey options = vapid"
    and "\<And>s. s = subscription_of env vapid \<Longrightarrow>
      run_map F (\<lambda>_. ()) h (push_fetch env (registration_request fmt options (pe_userAgent env) s) Registration_Failed) = last_stage s"
  shows "run_map F (\<lambda>_. ()) h (registerWebPushSubscription fmt env options) =
    run_bind (run_lift F G (ask_permission env)) (\<lambda>_.
    run_bind (run_lift F G (registerPushServiceWorker env (js_of ''/sw.js''))) (\<lambda>_.
    run_bind (run_lift F G (subscribeToPush env vapid)) last_stage))"
proof -
  have "run_bind (run_lift F G (subscribeToPush env vapid))
      (\<lambda>s. run_map F (\<lambda>_. ()) h (push_fetch env (registration_request fmt options (pe_userAgent env) s) Registration_Failed)) =
    run_bind (run_lift F G (subscribeToPush env vapid)) last_stage"
  proof (rule run_bind_cong)
    fix s assume "fst (run_lift F G (subscribeToPush env vapid)) = Inr s"
    then have "s = subscription_of env vapid" by (auto dest: fst_run_lift_Inr simp: subscription_of_def)
    then show "run_map F (\<lambda>_. ()) h (push_fetch env (registration_request fmt options (pe_userAgent env) s) Registration_Failed) = last_stage s"
      by (rule assms(4))
  qed
  note last = this
  have st: "run_map F (\<lambda>_. ()) h (ask_permission env) = run_lift F G (ask_permission env)"
    "run_map F (\<lambda>_. ()) h (registerPushServiceWorker env u) = run_lift F G (registerPushServiceWorker env u)" for u
    using run_map_stage [of "ask_permission env" h G F] run_map_stage [of "registerPushServiceWorker env u" h G F] assms(1) by simp_all
  show ?thesis
    by (simp add: sdk_registration run_map_bind st run_map_stage [where G = G] assms(1-3) last del: js_of_simps)
qed

definition web_translation :: "http_request \<Rightarrow> push_call \<Rightarrow> push_call list" where
  "web_translation rq c = (case c of Fetch _ \<Rightarrow> [Fetch rq] | _ \<Rightarrow> [c])"

lemma web_options_simps:
  "sw_url (web_options creds base vapid) = js_of ''/sw.js''" "po_vapidPublicKey (web_options creds base vapid) = vapid"
  by (simp_all add: web_options_def sw_url_def or_default_def)

lemma sdk_unregistration:
  "unregisterWebPushSubscription fmt env options =
     run_bind (registerPushServiceWorker env (sw_url options)) (\<lambda>_.
     case pe_existing env of
       None \<Rightarrow> (Inr False, [Get_Subscription])
     | Some existing \<Rightarrow>
         run_bind (case pe_unsubscribe env of None \<Rightarrow> Inl Unsubscribe_Failed | Some _ \<Rightarrow> Inr (), [Get_Subscription, Unsubscribe_Push]) (\<lambda>_.
         run_bind (push_fetch env (web_request fmt DELETE (po_apiBaseUrl options) (po_token options)
           (removal_body (po_tenantId options) (ps_endpoint existing))) Removal_Failed) (\<lambda>_. (Inr True, []))))"
  by (simp add: unregisterWebPushSubscription_def push_bind_run web_request_def removal_body_def split: option.split)

text \<open>
  C21. The actions of the web client are those of the SDK, for the options they stand for, where the address of the API derives from that of the connection. The registration makes the same calls of browser and
  server in the same order with the same result or error, but for the request that registers the subscription, which has no device label; it is assumed that the server answers it as it would
  answer the one with the label. The removal makes exactly the calls of the SDK, with the same result or error.
\<close>

theorem web_push_is_sdk:
  assumes "derivePortalApiUrl U (cr_wsUrl creds) = Some base"
    and "rq = web_request fmt POST base (cr_token creds) (web_registration_body creds (subscription_of env vapid))"
    and "pe_fetch env rq = pe_fetch env (registration_request fmt (web_options creds base vapid) (pe_userAgent env) (subscription_of env vapid))"
  shows "registerPushSubscriptionAction U fmt env creds vapid =
      run_map Sdk_Error (\<lambda>_. ()) (web_translation rq) (registerWebPushSubscription fmt env (web_options creds base vapid)) \<and>
    unregisterPushSubscriptionAction U fmt env creds =
      run_map Sdk_Error (\<lambda>_. ()) (\<lambda>c. [c]) (unregisterWebPushSubscription fmt env (web_options creds base vapid))"
proof
  have "run_map Sdk_Error (\<lambda>_. ()) (web_translation rq) (registerWebPushSubscription fmt env (web_options creds base vapid)) =
    run_bind (run_lift Sdk_Error id (ask_permission env)) (\<lambda>_.
    run_bind (run_lift Sdk_Error id (registerPushServiceWorker env (js_of ''/sw.js''))) (\<lambda>_.
    run_bind (run_lift Sdk_Error id (subscribeToPush env vapid)) (\<lambda>s. web_fetch U fmt env creds POST (web_registration_body creds s) Registration_Failed)))"
  proof (rule sdk_translated)
    fix s assume s: "s = subscription_of env vapid"
    have "pe_fetch env (web_request fmt POST base (cr_token creds) (web_registration_body creds (subscription_of env vapid))) =
        pe_fetch env (registration_request fmt (web_options creds base vapid) (pe_userAgent env) (subscription_of env vapid))"
      using assms(2,3) by simp
    then show "run_map Sdk_Error (\<lambda>_. ()) (web_translation rq)
        (push_fetch env (registration_request fmt (web_options creds base vapid) (pe_userAgent env) s) Registration_Failed) =
      web_fetch U fmt env creds POST (web_registration_body creds s) Registration_Failed"
      unfolding s by (simp add: web_fetch_def assms(1,2) run_map_def run_lift_def push_fetch_def web_translation_def split: option.split)
  qed (auto simp: web_translation_def web_options_simps split: push_call.split)
  then show "registerPushSubscriptionAction U fmt env creds vapid =
      run_map Sdk_Error (\<lambda>_. ()) (web_translation rq) (registerWebPushSubscription fmt env (web_options creds base vapid))"
    by (simp add: registerPushSubscriptionAction_def)
next
  have o: "po_apiBaseUrl (web_options creds base vapid) = base" "po_token (web_options creds base vapid) = cr_token creds"
    "po_tenantId (web_options creds base vapid) = cr_tenantId creds" by (simp_all add: web_options_def)
  have f: "run_map Sdk_Error (\<lambda>_. ()) (\<lambda>c. [c]) (push_fetch env (web_request fmt DELETE base (cr_token creds)
      (removal_body (cr_tenantId creds) (ps_endpoint x))) Removal_Failed) =
    web_fetch U fmt env creds DELETE (removal_body (cr_tenantId creds) (ps_endpoint x)) Removal_Failed" for x
    by (simp add: web_fetch_def assms(1) run_map_def run_lift_def push_fetch_def split: option.split)
  show "unregisterPushSubscriptionAction U fmt env creds =
      run_map Sdk_Error (\<lambda>_. ()) (\<lambda>c. [c]) (unregisterWebPushSubscription fmt env (web_options creds base vapid))"
    using run_map_stage [of "registerPushServiceWorker env (js_of ''/sw.js'')" "\<lambda>c. [c]" id Sdk_Error]
    by (cases "pe_existing env"; cases "pe_unsubscribe env")
      (simp_all add: unregisterPushSubscriptionAction_def sdk_unregistration run_map_bind web_options_simps o f del: js_of_simps run_bind_simps)
qed

text \<open>A URL class that reads one address.\<close>

definition sample_URL :: "js_string url_class" where
  "sample_URL = \<lparr>ur_new = (\<lambda>s. if s = js_of ''wss://h/ws'' then Some s else None), ur_protocol = (\<lambda>_. js_of ''wss:''),
     ur_setProtocol = (\<lambda>p _. p @ js_of ''//h''), ur_setPort = (\<lambda>p u. u @ js_of '':'' @ p), ur_setPathname = (\<lambda>_ u. u @ js_of ''/''),
     ur_toString = (\<lambda>u. u)\<rparr>"

lemma sample_derive: "derivePortalApiUrl sample_URL (js_of ''wss://h/ws'') = Some (js_of ''https://h:8090'')"
  by code_simp

theorem web_push_is_sdk_witness:
  "fst (registerPushSubscriptionAction sample_URL fmt_nat sample_push_env sample_credentials []) = Inr ()"
proof -
  let ?b = "js_of ''https://h:8090''" and ?s = "subscription_of sample_push_env []"
  have "fst (registerWebPushSubscription fmt_nat sample_push_env (web_options sample_credentials ?b [])) = Inr ?s"
    by (simp add: registerWebPushSubscription_def sample_push_env_def web_options_def ask_permission_def subscription_of_def
        requestNotificationPermission_def isNotificationSupported_def registerPushServiceWorker_def subscribeToPush_def toSubscriptionInfo_def
        push_fetch_def push_bind_def rs_ok_def Let_def del: js_of_simps)
  moreover have "derivePortalApiUrl sample_URL (cr_wsUrl sample_credentials) = Some ?b"
    unfolding sample_credentials_def credentials.select_convs by (rule sample_derive)
  ultimately show ?thesis
    using web_push_is_sdk [of sample_URL sample_credentials ?b _ fmt_nat sample_push_env "[]"]
    by (simp add: run_map_def sample_push_env_def del: js_of_simps)
qed

section \<open>The button stays on\<close>

text \<open>Clicks one after the other, each with its browser and the credentials of its moment.\<close>

fun toggle_clicks ::
    "'u url_class \<Rightarrow> (js_number \<Rightarrow> js_string) \<Rightarrow> js_string \<Rightarrow> (push_env \<times> credentials option) list \<Rightarrow> push_toggle \<Rightarrow> push_call list \<times> push_toggle" where
  "toggle_clicks U fmt vapid [] t = ([], t)"
| "toggle_clicks U fmt vapid ((env, creds) # clicks) t =
     (case toggle_click U fmt env vapid creds t of (_, calls, t') \<Rightarrow>
       (case toggle_clicks U fmt vapid clicks t' of (rest, u) \<Rightarrow> (calls @ rest, u)))"

definition removing_call :: "push_call \<Rightarrow> bool" where
  "removing_call c = (case c of Register_Worker _ \<Rightarrow> True | Get_Subscription \<Rightarrow> True | Unsubscribe_Push \<Rightarrow> True
     | Fetch rq \<Rightarrow> rq_method rq = DELETE | _ \<Rightarrow> False)"

lemma web_fetch_calls: "Ball (set (snd (web_fetch U fmt env creds DELETE body err))) removing_call"
  by (auto simp: web_fetch_def run_lift_def web_request_def removing_call_def split: option.split)

lemma unregister_calls: "Ball (set (snd (unregisterPushSubscriptionAction U fmt env creds))) removing_call"
  using web_fetch_calls [of U fmt env creds]
  by (auto simp: unregisterPushSubscriptionAction_def run_bind_calls registerPushServiceWorker_def run_lift_def removing_call_def
      split: option.splits sum.splits)

text \<open>
  While the browser has the permission granted, which a page cannot take back, every click on the button of the web client only removes: no sequence of clicks ever subscribes or
  registers anything, not after \<open>Push notifications disabled\<close> either, and the button goes on showing that notifications are enabled.
\<close>

theorem push_toggle_never_reenables:
  assumes "tg_permission t = Granted" "\<forall>(env, creds) \<in> set clicks. bw_permission (pe_browser env) = Granted"
  shows "case toggle_clicks U fmt vapid clicks t of (calls, t') \<Rightarrow>
    tg_permission t' = Granted \<and> Ball (set calls) removing_call"
  using assms
proof (induction clicks arbitrary: t)
  case (Cons click clicks)
  obtain env creds where c: "click = (env, creds)" by fastforce
  obtain toast calls t' where t: "toggle_click U fmt env vapid creds t = (toast, calls, t')" by (metis prod_cases3)
  have "tg_permission t' = Granted \<and> Ball (set calls) removing_call"
    using t Cons.prems c unregister_calls [of U fmt env]
    by (auto simp: toggle_click_def split: option.splits if_splits prod.splits sum.splits) (metis snd_conv)+
  then show ?case using Cons.IH [of t'] Cons.prems c t by (auto split: prod.splits)
qed simp

theorem push_toggle_never_reenables_witness:
  "list_all removing_call (fst (toggle_clicks sample_URL fmt_nat [65] (replicate 3 (sample_push_env\<lparr>pe_browser := (pe_browser sample_push_env)\<lparr>bw_permission := Granted\<rparr>\<rparr>,
     Some sample_credentials)) \<lparr>tg_permission = Granted, tg_isBusy = False\<rparr>))"
  using push_toggle_never_reenables [of "\<lparr>tg_permission = Granted, tg_isBusy = False\<rparr>"
      "replicate 3 (sample_push_env\<lparr>pe_browser := (pe_browser sample_push_env)\<lparr>bw_permission := Granted\<rparr>\<rparr>, Some sample_credentials)"
      sample_URL fmt_nat "[65]"]
  by (simp only: split_beta list_all_iff) simp

section \<open>The portal\<close>

definition portal_translation :: "push_call \<Rightarrow> portal_call list" where
  "portal_translation c = (case c of Fetch _ \<Rightarrow> [Post_Tokens PORTAL_PUSH_SUB, Get_Keys, Browser_Call c] | _ \<Rightarrow> [Browser_Call c])"

definition portal_options :: "portal_env \<Rightarrow> js_string \<Rightarrow> js_string \<Rightarrow> js_string \<Rightarrow> push_options" where
  "portal_options env tok tenantId vapidPublicKey =
     \<lparr>po_apiBaseUrl = pt_apiUrl env, po_token = tok, po_tenantId = tenantId, po_vapidPublicKey = vapidPublicKey,
      po_channels = None, po_swUrl = None, po_deviceLabel = None\<rparr>"

lemma portal_options_simps:
  "sw_url (portal_options env tok tid vapid) = js_of ''/sw.js''" "po_vapidPublicKey (portal_options env tok tid vapid) = vapid"
  "po_apiBaseUrl (portal_options env tok tid vapid) = pt_apiUrl env" "po_token (portal_options env tok tid vapid) = tok"
  "po_tenantId (portal_options env tok tid vapid) = tid"
  by (simp_all add: portal_options_def sw_url_def or_default_def)

lemma portal_request:
  "web_request fmt POST (pt_apiUrl env) tok (portal_registration_body (Some (JStr tid)) ua s) =
     registration_request fmt (portal_options env tok tid vapid) ua s"
  by (simp add: web_request_def registration_request_def portal_registration_body_def registration_body_def tenant_member_def
      portal_options_def or_default_def)

lemma portal_last:
  assumes "mint_and_keys env = (Inr (minted, tenantId), [Post_Tokens PORTAL_PUSH_SUB, Get_Keys])"
  shows "run_map Sdk_Error (\<lambda>_. ()) portal_translation (push_fetch b rq err) =
    run_bind (mint_and_keys env) (\<lambda>_. run_lift Sdk_Error Browser_Call (push_fetch b rq err))"
  by (simp add: assms run_map_def run_lift_def push_fetch_def portal_translation_def split: option.split)

text \<open>
  When the portal's own requests succeed, with a token and a tenant that are texts, its push actions are those of the SDK: the same calls in the same order with the same result or
  error, the token and the tenant being fetched right before the one request to the push service of the platform, and not at all when a step before it fails.
\<close>

theorem portal_push_is_sdk:
  assumes "mintTokenAction (pt_minted env) = Inr minted" "getKeysAction (pt_keys env) = Inr (Some (JStr tid), secret)"
    and "pt_text env (mt_token minted) = tok"
  shows "registerPortalPushAction fmt env vapid = run_map Sdk_Error (\<lambda>_. ()) portal_translation
      (registerWebPushSubscription fmt (portal_push_env env) (portal_options env tok tid vapid)) \<and>
    unregisterPortalPushAction fmt env = run_map Sdk_Error (\<lambda>_. ()) portal_translation
      (unregisterWebPushSubscription fmt (portal_push_env env) (portal_options env tok tid vapid))"
proof
  let ?b = "portal_push_env env" and ?o = "portal_options env tok tid vapid"
  have mk: "mint_and_keys env = (Inr (minted, Some (JStr tid)), [Post_Tokens PORTAL_PUSH_SUB, Get_Keys])"
    by (simp add: mint_and_keys_def assms(1,2))
  note last = portal_last [OF mk]
  have mg: "run_bind (mint_and_keys env) (case_prod g) = run_bind (mint_and_keys env) (\<lambda>_. g minted (Some (JStr tid)))"
    for g :: "minted_token \<Rightarrow> json option \<Rightarrow> (action_error, portal_call, unit) run" by (simp add: mk)
  have tr: "portal_translation c = [Browser_Call c]" if "\<And>rq. c \<noteq> Fetch rq" for c
    using that by (auto simp: portal_translation_def split: push_call.split)
  have "run_map Sdk_Error (\<lambda>_. ()) portal_translation (registerWebPushSubscription fmt ?b ?o) =
    run_bind (run_lift Sdk_Error Browser_Call (ask_permission ?b)) (\<lambda>_.
    run_bind (run_lift Sdk_Error Browser_Call (registerPushServiceWorker ?b (js_of ''/sw.js''))) (\<lambda>_.
    run_bind (run_lift Sdk_Error Browser_Call (subscribeToPush ?b vapid)) (\<lambda>s.
    run_bind (mint_and_keys env) (\<lambda>_.
    run_lift Sdk_Error Browser_Call (push_fetch ?b (registration_request fmt ?o (pe_userAgent ?b) s) Registration_Failed)))))"
    by (rule sdk_translated) (simp_all add: tr portal_options_simps last del: js_of_simps)
  then show "registerPortalPushAction fmt env vapid = run_map Sdk_Error (\<lambda>_. ()) portal_translation (registerWebPushSubscription fmt ?b ?o)"
    by (simp add: registerPortalPushAction_def Let_def mg assms(3) portal_request [where vapid = vapid] del: js_of_simps)
  show "unregisterPortalPushAction fmt env = run_map Sdk_Error (\<lambda>_. ()) portal_translation (unregisterWebPushSubscription fmt ?b ?o)"
    using run_map_stage [of "registerPushServiceWorker ?b (js_of ''/sw.js'')" portal_translation Browser_Call Sdk_Error] tr
    by (cases "pe_existing ?b"; cases "pe_unsubscribe ?b")
      (simp_all add: unregisterPortalPushAction_def sdk_unregistration run_map_bind portal_options_simps last mg assms(3) Let_def
        removal_body_def tenant_member_def del: js_of_simps run_bind_simps)
qed

definition sample_minted :: axios_outcome where
  "sample_minted = Http_Ok (JObj [(js_of ''success'', JBool True), (js_of ''data'', JObj [(js_of ''token'', JStr (js_of ''t''))])])"

definition sample_keys :: axios_outcome where
  "sample_keys = Http_Ok (JObj [(js_of ''success'', JBool True), (js_of ''data'', JObj [(js_of ''tenant_id'', JStr (js_of ''u''))])])"

definition sample_portal_env :: portal_env where
  "sample_portal_env = push_env.extend sample_push_env (portal_env.fields (js_of ''https://h'') sample_minted sample_keys False
     (\<lambda>v. case v of Some (JStr s) \<Rightarrow> s | _ \<Rightarrow> []))"

lemma sample_portal_parts:
  "portal_push_env sample_portal_env = sample_push_env" "pt_minted sample_portal_env = sample_minted" "pt_keys sample_portal_env = sample_keys"
  "pt_text sample_portal_env (Some (JStr s)) = s"
  by (simp_all add: sample_portal_env_def portal_push_env_def push_env.defs portal_env.defs)

theorem portal_push_is_sdk_witness:
  "fst (registerPortalPushAction fmt_nat sample_portal_env []) = Inr () \<and>
   Post_Tokens PORTAL_PUSH_SUB \<in> set (snd (registerPortalPushAction fmt_nat sample_portal_env []))"
proof -
  have m: "mintTokenAction (pt_minted sample_portal_env) = Inr \<lparr>mt_token = Some (JStr (js_of ''t'')), mt_expiresIn = None, mt_wsUrl = None\<rparr>"
    unfolding sample_portal_parts by code_simp
  have k: "getKeysAction (pt_keys sample_portal_env) = Inr (Some (JStr (js_of ''u'')), None)"
    unfolding sample_portal_parts by code_simp
  have "pt_text sample_portal_env (mt_token \<lparr>mt_token = Some (JStr (js_of ''t'')), mt_expiresIn = None, mt_wsUrl = None\<rparr>) = js_of ''t''"
    by (simp add: sample_portal_parts del: js_of_simps)
  note eq = portal_push_is_sdk [OF m k this, of fmt_nat "[]", THEN conjunct1]
  show ?thesis unfolding eq sample_portal_parts
    by (simp add: run_map_def registerWebPushSubscription_def sample_push_env_def portal_options_def ask_permission_def portal_translation_def
        requestNotificationPermission_def isNotificationSupported_def registerPushServiceWorker_def subscribeToPush_def toSubscriptionInfo_def
        push_fetch_def push_bind_def rs_ok_def Let_def del: js_of_simps)
qed

end
