(* ===== verification/React_Push.thy ===== *)
theory React_Push
  imports React_SDK Popup
begin

text \<open>
  The ready-made components of \<open>sdk-react/src/components.tsx\<close>: the indicator of the connection, the button and the popup for Web Push. A component is its state,
  the functions its events call and the element it renders; the hook \<open>useWebPushRegistration\<close> is the one of \<open>React_SDK\<close>. Style values that
  React completes with a unit are written as they are rendered. The popup's reading and writing of the dismissal are those of \<open>Popup\<close>, whose text is the same.
\<close>

section \<open>Indicator and button\<close>

definition DEFAULT_LABELS :: "connection_view \<Rightarrow> js_string" where
  "DEFAULT_LABELS state =
     (case state of
        View_Idle \<Rightarrow> js_of ''Idle''
      | View_Connecting \<Rightarrow> js_of ''Connecting'' @ [0x2026]
      | View_Open \<Rightarrow> js_of ''Connected''
      | View_Closed \<Rightarrow> js_of ''Disconnected''
      | View_Error \<Rightarrow> js_of ''Connection error'')"

definition ConnectionIndicator :: "(connection_view \<Rightarrow> js_string option) option \<Rightarrow> provider \<Rightarrow> js_string" where
  "ConnectionIndicator labels p =
     (let connectionState = pv_connectionState p in
      or_default (case labels of None \<Rightarrow> None | Some f \<Rightarrow> f connectionState) (DEFAULT_LABELS connectionState))"

definition DEFAULT_PUSH_BUTTON_LABELS :: "push_status \<Rightarrow> js_string" where
  "DEFAULT_PUSH_BUTTON_LABELS status =
     (case status of
        Push_Idle \<Rightarrow> js_of ''Enable notifications''
      | Push_Subscribing \<Rightarrow> js_of ''Enabling'' @ [0x2026]
      | Push_Subscribed \<Rightarrow> js_of ''Notifications enabled''
      | Push_Unsubscribing \<Rightarrow> js_of ''Disabling'' @ [0x2026]
      | Push_Failed \<Rightarrow> js_of ''Enable notifications'')"

datatype button_action = Subscribe_Action | Unsubscribe_Action | Toggle_Action

datatype button_call = Call_Subscribe | Call_Unsubscribe

definition button_disabled :: "bool \<Rightarrow> push_status \<Rightarrow> bool" where
  "button_disabled isSupported status \<longleftrightarrow> status = Push_Subscribing \<or> status = Push_Unsubscribing \<or> \<not> isSupported"

definition button_handleClick :: "button_action \<Rightarrow> push_status \<Rightarrow> button_call" where
  "button_handleClick action status =
     (if action = Unsubscribe_Action \<or> (action = Toggle_Action \<and> status = Push_Subscribed) then Call_Unsubscribe else Call_Subscribe)"

text \<open>The button: its attributes, its label and what a click calls, \<open>None\<close> while it is disabled.\<close>

record push_button =
  pb_disabled :: bool
  pb_pressed :: bool
  pb_label :: js_string
  pb_click :: "button_call option"

definition PushPermissionButton :: "button_action option \<Rightarrow> js_string option \<Rightarrow> browser \<Rightarrow> push_hook \<Rightarrow> push_button" where
  "PushPermissionButton action children b h =
     (let status = ph_status h; off = button_disabled (isNotificationSupported b) status in
      \<lparr>pb_disabled = off, pb_pressed = (status = Push_Subscribed),
       pb_label = or_default children (DEFAULT_PUSH_BUTTON_LABELS status),
       pb_click = (if off then None else Some (button_handleClick (or_default action Toggle_Action) status))\<rparr>)"

section \<open>Whether the popup is shown\<close>

text \<open>\<open>Date.now() - dismissedAt >= intervalMs\<close>; a comparison with NaN is false.\<close>

fun elapsed_reaches :: "nat \<Rightarrow> js_number \<Rightarrow> rat \<Rightarrow> bool" where
  "elapsed_reaches now NaN interval \<longleftrightarrow> False"
| "elapsed_reaches now (Infinite neg) interval \<longleftrightarrow> neg"
| "elapsed_reaches now (Fin neg n d) interval \<longleftrightarrow>
     of_nat now - (if neg then - (of_nat n / of_nat d) else of_nat n / of_nat d) \<ge> interval"

definition isPopupEligible :: "browser \<Rightarrow> nat \<Rightarrow> local_storage \<Rightarrow> js_string \<Rightarrow> rat \<Rightarrow> bool" where
  "isPopupEligible b now st tenantId repromptIntervalDays =
     (if \<not> bw_window b \<or> \<not> bw_notification b then False
      else if bw_permission b \<noteq> Default then False
      else (case readDismissedAt tenantId st of
          None \<Rightarrow> True
        | Some dismissedAt \<Rightarrow>
            (let intervalMs = interval_ms repromptIntervalDays in intervalMs > 0 \<and> elapsed_reaches now dismissedAt intervalMs)))"

section \<open>The popup\<close>

record react_popup =
  rp_hook :: push_hook
  rp_visible :: bool
  rp_storage :: local_storage
  rp_log :: "popup_effect list"

definition hook_init :: push_hook where
  "hook_init = \<lparr>ph_status = Push_Idle, ph_subscription = None, ph_error = None\<rparr>"

definition interval_days :: "popup_options \<Rightarrow> rat" where
  "interval_days options = or_default (po_repromptIntervalDays options) 0"

definition react_mounted :: "popup_options \<Rightarrow> browser \<Rightarrow> nat \<Rightarrow> local_storage \<Rightarrow> react_popup" where
  "react_mounted options b now st =
     \<lparr>rp_hook = hook_init, rp_visible = isPopupEligible b now st (po_tenantId options) (interval_days options), rp_storage = st, rp_log = []\<rparr>"

text \<open>The effect on the tenant and the interval.\<close>

definition react_eligibility_effect :: "popup_options \<Rightarrow> browser \<Rightarrow> nat \<Rightarrow> react_popup \<Rightarrow> react_popup" where
  "react_eligibility_effect options b now p =
     p\<lparr>rp_visible := isPopupEligible b now (rp_storage p) (po_tenantId options) (interval_days options)\<rparr>"

definition react_callback :: "bool \<Rightarrow> popup_effect \<Rightarrow> react_popup \<Rightarrow> react_popup" where
  "react_callback given e p = (if given then p\<lparr>rp_log := rp_log p @ [e]\<rparr> else p)"

text \<open>The effect on the status.\<close>

definition react_status_effect :: "popup_options \<Rightarrow> react_popup \<Rightarrow> react_popup" where
  "react_status_effect options p =
     (case ph_subscription (rp_hook p) of
        Some s \<Rightarrow> if ph_status (rp_hook p) = Push_Subscribed
                  then react_callback (po_onSubscribed options) (On_Subscribed s) (p\<lparr>rp_visible := False\<rparr>) else p
      | None \<Rightarrow> p)"

definition react_handleDismiss :: "popup_options \<Rightarrow> nat \<Rightarrow> react_popup \<Rightarrow> react_popup" where
  "react_handleDismiss options now p =
     react_callback (po_onDismiss options) On_Dismiss
       (p\<lparr>rp_storage := writeDismissedAt now (po_tenantId options) (rp_storage p), rp_visible := False\<rparr>)"

definition react_confirm :: "react_popup \<Rightarrow> react_popup" where
  "react_confirm p = p\<lparr>rp_hook := push_begin (rp_hook p)\<rparr>"

text \<open>The registration that a click began settles: the hook stores the outcome, the status changes, the effect runs.\<close>

definition react_settled :: "popup_options \<Rightarrow> push_error + push_info \<Rightarrow> react_popup \<Rightarrow> react_popup" where
  "react_settled options outcome p = react_status_effect options (p\<lparr>rp_hook := snd (push_subscribed outcome (rp_hook p))\<rparr>)"

definition react_busy :: "react_popup \<Rightarrow> bool" where
  "react_busy p \<longleftrightarrow> ph_status (rp_hook p) = Push_Subscribing"

text \<open>What can happen while the properties stay the same: both buttons are disabled while the registration runs.\<close>

inductive react_step :: "popup_options \<Rightarrow> react_popup \<Rightarrow> react_popup \<Rightarrow> bool" for options where
  React_Confirm: "rp_visible p \<Longrightarrow> \<not> react_busy p \<Longrightarrow> react_step options p (react_confirm p)"
| React_Dismiss: "rp_visible p \<Longrightarrow> \<not> react_busy p \<Longrightarrow> react_step options p (react_handleDismiss options now p)"
| React_Settled: "react_busy p \<Longrightarrow> react_step options p (react_settled options outcome p)"

inductive_cases react_stepE: "react_step options p q"

definition react_start :: "popup_options \<Rightarrow> react_popup \<Rightarrow> bool" where
  "react_start options p \<longleftrightarrow> (\<exists>b now st. p = react_mounted options b now st)"

definition react_reachable :: "popup_options \<Rightarrow> react_popup \<Rightarrow> bool" where
  "react_reachable options p \<longleftrightarrow> (\<exists>s. react_start options s \<and> (react_step options)\<^sup>*\<^sup>* s p)"

interpretation rp: transition_system "react_start options" "react_step options" "react_reachable options" for options
  by unfold_locales (rule react_reachable_def)

section \<open>What it renders\<close>

definition POSITION_STYLE :: "(js_string \<times> css) list" where
  "POSITION_STYLE =
     [(js_of ''bottom-right'', css_of [(''bottom'', ''0''), (''right'', ''0'')]),
      (js_of ''bottom-left'', css_of [(''bottom'', ''0''), (''left'', ''0'')]),
      (js_of ''top-right'', css_of [(''top'', ''0''), (''right'', ''0'')]),
      (js_of ''top-left'', css_of [(''top'', ''0''), (''left'', ''0'')])]"

definition react_text_row :: "popup_options \<Rightarrow> (push_error \<Rightarrow> js_string) \<Rightarrow> react_popup \<Rightarrow> element" where
  "react_text_row options msg p =
     (let pal = options_palette options; error = ph_error (rp_hook p) in
      Element ''div'' [] (css_of [(''display'', ''flex''), (''gap'', ''12px''), (''alignItems'', ''flex-start''), (''paddingRight'', ''20px'')]) []
       [Element ''div'' [] (css_of [(''fontSize'', ''24px''), (''lineHeight'', ''1''), (''flexShrink'', ''0'')]) [0xD83D, 0xDD14] [],
        Element ''div'' [] (css_of [(''minWidth'', ''0'')]) []
          [Element ''p'' [] (css_of [(''margin'', ''0 0 4px''), (''fontSize'', ''14px''), (''fontWeight'', ''600'')])
             (or_default (po_title options) (js_of ''Enable notifications?'')) [],
           Element ''p'' [] (css_of [(''margin'', ''0''), (''fontSize'', ''13px''), (''lineHeight'', ''1.4'')] @
               [(js_of ''color'', if error \<noteq> None then pl_error pal else pl_muted pal)])
             (case error of Some e \<Rightarrow> error_message msg e
              | None \<Rightarrow> or_default (po_description options) (js_of ''Get notified about new activity, even when this tab is closed.'')) []]])"

definition react_progress :: "popup_options \<Rightarrow> element" where
  "react_progress options =
     Element ''div'' []
       (css_of [(''position'', ''absolute''), (''top'', ''0''), (''left'', ''0''), (''right'', ''0''), (''height'', ''3px''), (''overflow'', ''hidden'')]) []
       [Element ''div'' [] (css_of [(''width'', ''40%''), (''height'', ''100%'')] @
          [(js_of ''background'', pl_accent (options_palette options)),
           (js_of ''animation'', js_of ''mio-push-popup-indeterminate 1s linear infinite'')]) [] []]"

definition disabled_attr :: "bool \<Rightarrow> (string \<times> js_string) list" where
  "disabled_attr isBusy = (if isBusy then [(''disabled'', [])] else [])"

definition react_dismiss_button :: "popup_options \<Rightarrow> bool \<Rightarrow> element" where
  "react_dismiss_button options isBusy =
     Element ''button'' ([(''type'', js_of ''button''), (''aria-label'', or_default (po_dismissAriaLabel options) (js_of ''Dismiss''))] @ disabled_attr isBusy)
       (css_of [(''position'', ''absolute''), (''top'', ''8px''), (''right'', ''8px''), (''width'', ''24px''), (''height'', ''24px''),
          (''lineHeight'', ''24px''), (''textAlign'', ''center''), (''border'', ''none''), (''background'', ''transparent'')] @
        [(js_of ''color'', pl_muted (options_palette options))] @
        css_of [(''fontSize'', ''18px''), (''cursor'', if isBusy then ''default'' else ''pointer''),
          (''opacity'', if isBusy then ''0.3'' else ''0.7''), (''padding'', ''0'')])
       [0xD7] []"

definition react_confirm_button :: "popup_options \<Rightarrow> bool \<Rightarrow> element" where
  "react_confirm_button options isBusy =
     Element ''button'' ([(''type'', js_of ''button'')] @ disabled_attr isBusy)
       (css_of [(''marginTop'', ''14px''), (''width'', ''100%''), (''border'', ''none''), (''borderRadius'', ''999px'')] @
        [(js_of ''background'', pl_accent (options_palette options))] @
        css_of [(''color'', ''#ffffff''), (''fontSize'', ''14px''), (''fontWeight'', ''600''), (''padding'', ''10px 16px''),
          (''cursor'', if isBusy then ''default'' else ''pointer'')])
       (if isBusy then [0x2026] else confirm_label options) []"

definition PushPermissionPopup :: "popup_options \<Rightarrow> js_string option \<Rightarrow> (push_error \<Rightarrow> js_string) \<Rightarrow> react_popup \<Rightarrow> element option" where
  "PushPermissionPopup options className msg p =
     (if \<not> rp_visible p then None
      else (let pal = options_palette options; isBusy = react_busy p in
        Some (Element ''div'' (case className of None \<Rightarrow> [] | Some c \<Rightarrow> [(''class'', c)])
          (css_of [(''position'', ''fixed''), (''zIndex'', ''2147483000''), (''margin'', ''16px'')] @
           (case jget POSITION_STYLE (or_default (po_position options) (js_of ''bottom-right'')) of None \<Rightarrow> [] | Some c \<Rightarrow> c)) []
          [Element ''style'' [] [] (js_of (hd popup_style_lines)) [],
           Element ''div'' [(''role'', js_of ''dialog''), (''aria-label'', or_default (po_title options) (js_of ''Enable notifications?''))]
             (css_of [(''width'', ''320px''), (''maxWidth'', ''calc(100vw - 32px)'')] @
              [(js_of ''background'', pl_bg pal), (js_of ''color'', pl_fg pal), (js_of ''border'', js_of ''1px solid '' @ pl_border pal)] @
              css_of [(''borderRadius'', ''12px''), (''boxShadow'', ''0 4px 24px rgba(0,0,0,0.18)''), (''padding'', ''16px''),
                (''fontFamily'', ''system-ui, -apple-system, Segoe UI, Roboto, sans-serif''), (''position'', ''relative''),
                (''overflow'', ''hidden''), (''boxSizing'', ''border-box'')]) []
             ((if isBusy then [react_progress options] else []) @
              [react_dismiss_button options isBusy, react_text_row options msg p, react_confirm_button options isBusy])])))"

section \<open>Shown under the conditions of the SDK\<close>

lemma elapsed_reaches_less: "elapsed_reaches now d i \<longleftrightarrow> d \<noteq> NaN \<and> \<not> elapsed_less now d i"
  by (cases "(now, d, i)" rule: elapsed_reaches.cases) (simp_all add: not_less)

text \<open>
  The React popup is shown under the conditions of \<open>showPushPermissionPopup\<close>, except when the stored time of the dismissal is not a number: the comparison with NaN is false in
  both, which lets the popup of the SDK appear as soon as the interval is positive and keeps the one of React hidden for ever.
\<close>

theorem react_popup_eligible:
  "isPopupEligible b now st tenantId days \<longleftrightarrow>
     popup_allowed b True now st tenantId days \<and> readDismissedAt tenantId st \<noteq> Some NaN"
  by (auto simp: isPopupEligible_def popup_allowed_def isNotificationSupported_def elapsed_reaches_less Let_def not_le split: option.split)

section \<open>The popup of the SDK does the same\<close>

text \<open>The component has no callback for errors; the other reports are compared.\<close>

fun is_error_report :: "popup_effect \<Rightarrow> bool" where
  "is_error_report (On_Error _) = True"
| "is_error_report _ = False"

definition popup_matches :: "popup_options \<Rightarrow> react_popup \<Rightarrow> popup \<Rightarrow> bool" where
  "popup_matches options p q \<longleftrightarrow>
     pp_visible q = rp_visible p \<and> pp_storage q = rp_storage p \<and> filter (\<lambda>e. \<not> is_error_report e) (pp_log q) = rp_log p \<and>
     (\<not> po_onError options \<longrightarrow> pp_log q = rp_log p) \<and>
     pp_pending q = (if react_busy p then 1 else 0) \<and> (rp_visible p \<longrightarrow> pp_disabled q = react_busy p) \<and>
     (react_busy p \<longrightarrow> rp_visible p)"

lemmas react_defs = react_confirm_def react_handleDismiss_def react_callback_def react_busy_def

lemma popup_matches_step:
  assumes "popup_matches options p q" "popup_ok options q" "react_step options p p'"
  shows "\<exists>q'. popup_step options q q' \<and> popup_matches options p' q'"
  using assms(3)
proof cases
  case React_Confirm
  then have "popup_step options q (popup_confirm q)" using assms(1) by (intro Click_Confirm) (simp_all add: popup_matches_def)
  moreover have "popup_matches options p' (popup_confirm q)"
    using React_Confirm assms(1) by (simp add: popup_matches_def popup_confirm_def react_defs push_begin_def)
  ultimately show ?thesis by blast
next
  case (React_Dismiss now)
  have "popup_step options q (popup_dismiss options now q)"
    using React_Dismiss assms(1,2) by (intro Click_Dismiss) (simp_all add: popup_matches_def popup_ok_def)
  moreover have "popup_matches options p' (popup_dismiss options now q)"
    using React_Dismiss assms(1) by (simp add: popup_matches_def popup_defs react_defs)
  ultimately show ?thesis by blast
next
  case (React_Settled outcome)
  have "popup_step options q (popup_settled msg options outcome q)" for msg
    using React_Settled assms(1) by (intro Settled) (simp add: popup_matches_def)
  moreover have "popup_matches options p' (popup_settled msg options outcome q)" for msg
    using React_Settled assms(1)
    by (cases outcome)
      (auto simp: popup_matches_def popup_defs react_defs react_settled_def react_status_effect_def push_subscribed_def Let_def split: option.split)
  ultimately show ?thesis by blast
qed

text \<open>The invariant of the hook: a failure keeps its error, and a subscription is there exactly after the success that hides the popup.\<close>

definition react_ok :: "react_popup \<Rightarrow> bool" where
  "react_ok p \<longleftrightarrow> ph_status (rp_hook p) \<noteq> Push_Unsubscribing \<and>
     (ph_status (rp_hook p) = Push_Failed) = (ph_error (rp_hook p) \<noteq> None) \<and>
     (ph_status (rp_hook p) = Push_Subscribed) = (ph_subscription (rp_hook p) \<noteq> None) \<and>
     (ph_status (rp_hook p) = Push_Subscribed \<longrightarrow> \<not> rp_visible p)"

lemma react_ok_step: "react_step options p p' \<Longrightarrow> react_ok p \<Longrightarrow> react_ok p'"
proof (induction rule: react_step.induct)
  case (React_Settled p outcome)
  then show ?case
    by (cases outcome)
      (auto simp: react_ok_def react_defs react_settled_def react_status_effect_def push_subscribed_def Let_def split: option.split)
qed (auto simp: react_ok_def react_defs push_begin_def)

lemma react_run_matched:
  assumes "(react_step options)\<^sup>*\<^sup>* s p" "popup_matches options s q" "popup_ok options q" "react_ok s"
  shows "\<exists>q'. (popup_step options)\<^sup>*\<^sup>* q q' \<and> popup_matches options p q' \<and> popup_ok options q' \<and> react_ok p"
  using assms(1)
proof induction
  case base
  then show ?case using assms(2-4) by blast
next
  case (step p p')
  then obtain q' where q: "(popup_step options)\<^sup>*\<^sup>* q q'" "popup_matches options p q'" "popup_ok options q'" "react_ok p" by blast
  from popup_matches_step [OF q(2,3) step.hyps(2)]
  obtain q'' where "popup_step options q' q''" "popup_matches options p' q''" by blast
  moreover from this(1) q(1) have "(popup_step options)\<^sup>*\<^sup>* q q''" by (rule rtranclp.rtrancl_into_rtrancl [rotated])
  ultimately show ?case using react_ok_step [OF step.hyps(2) q(4)] popup_ok_step q(3) by blast
qed

text \<open>
  C20. The React popup refines the popup of the SDK: whatever clicks and outcomes, failures included, led the React component, mounted where it is shown and keeping its properties, to its present
  state, the popup of the SDK, opened with the same options and storage, can come to a state where the same of the two is shown, a registration is under way for both or for none, the dismissal is
  stored alike and the application was told the same, but for the errors: the SDK reports each to an application that gave \<open>onError\<close>, the component to none, so for an application without
  \<open>onError\<close> the reports are equal. Moreover the component shows an error exactly after a failed attempt, and it is hidden once it has a subscription.
\<close>

theorem react_popup_refines_sdk:
  assumes "isPopupEligible b now st (po_tenantId options) (interval_days options)"
    and "(react_step options)\<^sup>*\<^sup>* (react_mounted options b now st) p"
  shows "(\<exists>q. (popup_step options)\<^sup>*\<^sup>* (popup_opened options st) q \<and> pp_visible q = rp_visible p \<and> (pp_pending q = 1) = react_busy p \<and>
      pp_storage q = rp_storage p \<and> filter (\<lambda>e. \<not> is_error_report e) (pp_log q) = rp_log p \<and>
      (\<not> po_onError options \<longrightarrow> pp_log q = rp_log p)) \<and>
    (ph_status (rp_hook p) = Push_Failed) = (ph_error (rp_hook p) \<noteq> None) \<and> (ph_subscription (rp_hook p) \<noteq> None \<longrightarrow> \<not> rp_visible p)"
proof -
  have "popup_matches options (react_mounted options b now st) (popup_opened options st)"
    using assms(1) by (simp add: popup_matches_def react_mounted_def popup_opened_def react_busy_def hook_init_def)
  moreover have "popup_reachable options (popup_opened options st)" unfolding popup_reachable_def by blast
  then have "popup_ok options (popup_opened options st)" by (rule popup_reachable_ok)
  moreover have "react_ok (react_mounted options b now st)" by (simp add: react_ok_def react_mounted_def hook_init_def)
  ultimately obtain q where "(popup_step options)\<^sup>*\<^sup>* (popup_opened options st) q" "popup_matches options p q" "react_ok p"
    using react_run_matched [OF assms(2)] by blast
  then show ?thesis by (intro conjI exI [of _ q]) (auto simp: popup_matches_def react_ok_def)
qed

definition sample_storage :: local_storage where
  "sample_storage = \<lparr>ls_items = [], ls_readable = True, ls_writable = True\<rparr>"

text \<open>A first attempt that fails, in an application that asks for errors.\<close>

theorem react_popup_refines_sdk_witness:
  "\<exists>p q e. (react_step sample_popup_options)\<^sup>*\<^sup>* (react_mounted sample_popup_options (pe_browser sample_push_env) 7 sample_storage) p \<and>
     ph_error (rp_hook p) = Some e \<and> rp_visible p \<and> (popup_step sample_popup_options)\<^sup>*\<^sup>* (popup_opened sample_popup_options sample_storage) q \<and>
     pp_visible q \<and> pp_pending q \<noteq> 1"
proof -
  let ?o = sample_popup_options
  let ?m = "react_mounted ?o (pe_browser sample_push_env) 7 sample_storage"
  let ?p = "react_settled ?o (Inl Worker_Failed) (react_confirm ?m)"
  have el: "isPopupEligible (pe_browser sample_push_env) 7 sample_storage (po_tenantId ?o) (interval_days ?o)"
    by (simp add: isPopupEligible_def sample_push_env_def sample_storage_def readDismissedAt_def jget_def)
  have v: "rp_visible ?p" "ph_error (rp_hook ?p) = Some Worker_Failed" "\<not> react_busy ?p" "react_busy (react_confirm ?m)"
    "rp_visible ?m" "\<not> react_busy ?m"
    using el by (simp_all add: react_settled_def react_status_effect_def push_subscribed_def react_defs react_mounted_def hook_init_def push_begin_def)
  have "(react_step ?o)\<^sup>*\<^sup>* ?m (react_confirm ?m)" using v(5,6) by (intro r_into_rtranclp React_Confirm)
  moreover have "react_step ?o (react_confirm ?m) ?p" using v(4) by (rule React_Settled)
  ultimately have r: "(react_step ?o)\<^sup>*\<^sup>* ?m ?p" by (rule rtranclp.rtrancl_into_rtrancl)
  from react_popup_refines_sdk [OF el r] v show ?thesis using r by blast
qed

section \<open>The button\<close>

lemma button_idle_while_busy:
  "pb_click (PushPermissionButton action children b h) = None \<longleftrightarrow>
     ph_status h \<in> {Push_Subscribing, Push_Unsubscribing} \<or> \<not> isNotificationSupported b"
  by (auto simp: PushPermissionButton_def Let_def button_disabled_def)

lemma toggle_button_click:
  assumes "pb_click (PushPermissionButton None children b h) = Some call"
  shows "call = Call_Unsubscribe \<longleftrightarrow> pb_pressed (PushPermissionButton None children b h)"
  using assms by (auto simp: PushPermissionButton_def Let_def button_handleClick_def or_default_def split: if_splits)

end
