(* ===== verification/Broadcasting.thy ===== *)
theory Broadcasting
  imports Console JS_Object
begin

text \<open>
  The page \<open>tenant-portal/src/modules/broadcasting/pages/BroadcastingPage.tsx\<close>: the placeholders of message templates, the preview of the devices a
  broadcast reaches, and the composer with its limit, its history and the request it sends. Every event of the composer is followed by the effects that React runs
  after it; a request begins and settles in two separate events. A placeholder called \<open>__proto__\<close> is left out.
\<close>

section \<open>Placeholders\<close>

text \<open>The class \<open>[a-zA-Z0-9_]\<close>; the class \<open>\s\<close> is what \<open>trim\<close> removes.\<close>

definition is_word :: "code_unit \<Rightarrow> bool" where
  "is_word u \<longleftrightarrow> (let n = unat u in (97 \<le> n \<and> n \<le> 122) \<or> (65 \<le> n \<and> n \<le> 90) \<or> (48 \<le> n \<and> n \<le> 57) \<or> n = 95)"

text \<open>\<open>TEMPLATE_VARIABLE_PATTERN\<close> at the beginning of a text: the name and what follows the match.\<close>

definition match_variable :: "js_string \<Rightarrow> (js_string \<times> js_string) option" where
  "match_variable s =
     (if take 2 s = [123, 123] then
        (let s1 = dropWhile is_blank (drop 2 s);
             name = takeWhile is_word s1;
             s2 = dropWhile is_blank (dropWhile is_word s1) in
         if name \<noteq> [] \<and> take 2 s2 = [125, 125] then Some (name, drop 2 s2) else None)
      else None)"

lemma match_variable_shorter: "match_variable s = Some (n, r) \<Longrightarrow> length r < length s"
proof -
  assume m: "match_variable s = Some (n, r)"
  let ?s1 = "dropWhile is_blank (drop 2 s)" and ?s2 = "dropWhile is_blank (dropWhile is_word (dropWhile is_blank (drop 2 s)))"
  have "length ?s2 \<le> length (drop 2 s)"
    by (meson length_dropWhile_le order_trans)
  moreover have "r = drop 2 ?s2" "take 2 s = [123, 123]" using m by (auto simp: match_variable_def Let_def split: if_splits)
  moreover from this(2) have "2 \<le> length s" by (cases s rule: list.exhaust; cases "tl s") auto
  ultimately show ?thesis by simp
qed

text \<open>A global match and a global replacement both read a text from left to right.\<close>

datatype segment = Literal code_unit | Variable js_string

function segments :: "js_string \<Rightarrow> segment list" where
  "segments [] = []"
| "segments (c # cs) =
     (case match_variable (c # cs) of
        Some (name, rest) \<Rightarrow> Variable name # segments rest
      | None \<Rightarrow> Literal c # segments cs)"
  by pat_completeness auto
termination
  by (relation "measure length") (auto dest: match_variable_shorter)

fun variable_names :: "segment list \<Rightarrow> js_string list" where
  "variable_names [] = []"
| "variable_names (Variable name # ss) = name # variable_names ss"
| "variable_names (Literal _ # ss) = variable_names ss"

definition extractTemplateVariables :: "js_string \<Rightarrow> js_string list" where
  "extractTemplateVariables body = fold set_add (variable_names (segments body)) []"

text \<open>
  A value is a text, or a member of \<open>Object.prototype\<close> that was read where no value was stored; \<open>native\<close> gives the text of such a member.
\<close>

datatype field_value = Text js_string | Member

definition variable_value :: "(js_string \<Rightarrow> js_string) \<Rightarrow> field_value object \<Rightarrow> js_string \<Rightarrow> js_string" where
  "variable_value native values name =
     (case oget values name of
        Own (Text s) \<Rightarrow> s
      | Own Member \<Rightarrow> native name
      | Inherited \<Rightarrow> native name
      | Absent \<Rightarrow> [])"

definition fillTemplateVariables :: "(js_string \<Rightarrow> js_string) \<Rightarrow> js_string \<Rightarrow> field_value object \<Rightarrow> js_string" where
  "fillTemplateVariables native body values =
     concat (map (\<lambda>s. case s of Literal c \<Rightarrow> [c] | Variable name \<Rightarrow> variable_value native values name) (segments body))"

text \<open>The form of a template starts with an empty value for each variable.\<close>

definition form_values :: "js_string list \<Rightarrow> field_value object" where
  "form_values variables = fold (\<lambda>name. jset name (Text [])) variables []"

text \<open>The effect of the drop-down: \<open>next[name] = prev[name] ?? ''\<close>.\<close>

definition sync_values :: "js_string list \<Rightarrow> field_value object \<Rightarrow> field_value object" where
  "sync_values used prev =
     fold (\<lambda>name. jset name (case oget prev name of Own v \<Rightarrow> v | Inherited \<Rightarrow> Member | Absent \<Rightarrow> Text [])) used []"

definition placeholder :: "js_string \<Rightarrow> js_string" where
  "placeholder name = [123, 123] @ name @ [125, 125]"

text \<open>\<open>insertVariable\<close> on the text of the composer.\<close>

definition insertVariable :: "js_string \<Rightarrow> js_string \<Rightarrow> js_string" where
  "insertVariable name payload =
     (let trimmed = js_trim name in if trimmed = [] then payload else payload @ placeholder trimmed)"

section \<open>Reach and suggestions\<close>

record device =
  dv_session_id :: js_string
  dv_sub :: js_string
  dv_channels :: "js_string list"
  dv_connected_at :: js_string

definition deviceReceives :: "device \<Rightarrow> js_string \<Rightarrow> bool" where
  "deviceReceives device channelId =
     list_ex (\<lambda>pattern.
       if pattern = channelId then True
       else if pattern \<noteq> [] \<and> last pattern = star then starts_with (butlast pattern) channelId
       else False) (dv_channels device)"

definition matchingDevices :: "device list \<Rightarrow> js_string \<Rightarrow> device list" where
  "matchingDevices devices channelId =
     (let trimmed = js_trim channelId in if trimmed = [] then [] else filter (\<lambda>d. deviceReceives d trimmed) devices)"

text \<open>\<open>lower\<close> is \<open>toLowerCase\<close>; a channel is its identifier.\<close>

definition channelSuggestions :: "(js_string \<Rightarrow> js_string) \<Rightarrow> js_string list \<Rightarrow> js_string \<Rightarrow> js_string list" where
  "channelSuggestions lower channels channelId =
     (let query = lower (js_trim channelId);
          matches = (if query \<noteq> [] then filter (\<lambda>c. js_includes (lower c) query) channels else channels) in
      take 8 matches)"

section \<open>The composer\<close>

definition BROADCAST_MAX_PAYLOAD_BYTES :: nat where "BROADCAST_MAX_PAYLOAD_BYTES = 211"

definition overLimit :: "js_string \<Rightarrow> bool" where
  "overLimit payload \<longleftrightarrow> length (text_encode payload) > BROADCAST_MAX_PAYLOAD_BYTES"

record history_entry =
  he_id :: js_string
  he_payload :: js_string
  he_sentAt :: js_string

datatype broadcast_toast = Over_Limit_Warning | Publish_Success js_string nat | Send_Error api_error | Attachment_Note

text \<open>\<open>bp_pending\<close> is what the closure of a running \<open>handleSubmit\<close> holds: the channel, the text and the reach.\<close>

record broadcast_page =
  bp_channelId :: js_string
  bp_payload :: js_string
  bp_isSending :: bool
  bp_lastReach :: "(js_string \<times> nat) option"
  bp_sentHistory :: "history_entry list"
  bp_historyChannel :: js_string
  bp_wasOverLimit :: bool
  bp_attachedFileName :: "js_string option"
  bp_pending :: "(js_string \<times> js_string \<times> nat) option"
  bp_toasts :: "broadcast_toast list"

definition broadcast_init :: "js_string option \<Rightarrow> broadcast_page" where
  "broadcast_init ch =
     \<lparr>bp_channelId = or_default ch [], bp_payload = [], bp_isSending = False, bp_lastReach = None, bp_sentHistory = [],
      bp_historyChannel = js_trim (or_default ch []), bp_wasOverLimit = False, bp_attachedFileName = None, bp_pending = None, bp_toasts = []\<rparr>"

definition history_effect :: "broadcast_page \<Rightarrow> broadcast_page" where
  "history_effect p =
     (let trimmed = js_trim (bp_channelId p) in
      if trimmed \<noteq> bp_historyChannel p then p\<lparr>bp_sentHistory := [], bp_historyChannel := trimmed\<rparr> else p)"

definition add_toast :: "broadcast_toast \<Rightarrow> broadcast_page \<Rightarrow> broadcast_page" where
  "add_toast t p = p\<lparr>bp_toasts := bp_toasts p @ [t]\<rparr>"

definition limit_effect :: "broadcast_page \<Rightarrow> broadcast_page" where
  "limit_effect p =
     (let q = (if overLimit (bp_payload p) \<and> \<not> bp_wasOverLimit p then add_toast Over_Limit_Warning p else p) in
      q\<lparr>bp_wasOverLimit := overLimit (bp_payload p)\<rparr>)"

definition set_channel :: "js_string \<Rightarrow> broadcast_page \<Rightarrow> broadcast_page" where
  "set_channel channelId p = history_effect (p\<lparr>bp_channelId := channelId\<rparr>)"

definition set_payload :: "js_string \<Rightarrow> broadcast_page \<Rightarrow> broadcast_page" where
  "set_payload payload p = limit_effect (p\<lparr>bp_payload := payload\<rparr>)"

text \<open>A template without variables goes into the composer; otherwise a dialog asks for their values.\<close>

definition applyTemplate :: "js_string \<Rightarrow> broadcast_page \<Rightarrow> js_string list option \<times> broadcast_page" where
  "applyTemplate body p =
     (let variables = extractTemplateVariables body in
      if variables = [] then (None, set_payload body p) else (Some variables, p))"

definition handleFileSelected :: "js_string option \<Rightarrow> broadcast_page \<Rightarrow> broadcast_page" where
  "handleFileSelected f p =
     (case f of None \<Rightarrow> p | Some name \<Rightarrow> add_toast Attachment_Note (p\<lparr>bp_attachedFileName := Some name\<rparr>))"

definition submit_disabled :: "broadcast_page \<Rightarrow> bool" where
  "submit_disabled p \<longleftrightarrow> bp_isSending p \<or> overLimit (bp_payload p) \<or> js_trim (bp_channelId p) = [] \<or> bp_payload p = []"

text \<open>\<open>handleSubmit\<close> up to its request, and the body of the request.\<close>

definition handleSubmit :: "device list \<Rightarrow> broadcast_page \<Rightarrow> broadcast_page" where
  "handleSubmit devices p =
     (if overLimit (bp_payload p) then p
      else (let targetChannel = js_trim (bp_channelId p);
                reachCount = length (matchingDevices devices (bp_channelId p)) in
            p\<lparr>bp_isSending := True, bp_pending := Some (targetChannel, bp_payload p, reachCount)\<rparr>))"

definition broadcast_body :: "js_string \<Rightarrow> js_string \<Rightarrow> json" where
  "broadcast_body channelId payload = JObj [(js_of ''channel_id'', JStr channelId), (js_of ''payload'', JStr payload)]"

definition sendBroadcastAction :: "axios_outcome \<Rightarrow> api_error option" where
  "sendBroadcastAction outcome = (case apiRequest outcome of Inl e \<Rightarrow> Some e | Inr _ \<Rightarrow> None)"

text \<open>The rest of it, when the request has settled.\<close>

definition submit_settled :: "js_string \<Rightarrow> js_string \<Rightarrow> axios_outcome \<Rightarrow> broadcast_page \<Rightarrow> broadcast_page" where
  "submit_settled rid now outcome p =
     (case bp_pending p of
        None \<Rightarrow> p
      | Some (targetChannel, payload, reachCount) \<Rightarrow>
          (let q = (case sendBroadcastAction outcome of
               Some e \<Rightarrow> add_toast (Send_Error e) p
             | None \<Rightarrow> add_toast (Publish_Success targetChannel reachCount)
                 (p\<lparr>bp_lastReach := Some (targetChannel, reachCount),
                    bp_sentHistory := \<lparr>he_id = rid, he_payload = payload, he_sentAt = now\<rparr> # bp_sentHistory p,
                    bp_payload := [], bp_attachedFileName := None\<rparr>)) in
           limit_effect (q\<lparr>bp_isSending := False, bp_pending := None\<rparr>)))"

datatype broadcast_op =
    Type_Channel js_string
  | Type_Payload js_string
  | Apply_Template js_string
  | Insert_Variable js_string
  | Insert_Emoji js_string
  | Apply_Values "js_string \<Rightarrow> js_string" "field_value object"
  | Select_File "js_string option"
  | Submit "device list"
  | Submit_Settled js_string js_string axios_outcome

fun broadcast_step :: "broadcast_op \<Rightarrow> broadcast_page \<Rightarrow> broadcast_page" where
  "broadcast_step (Type_Channel c) p = set_channel c p"
| "broadcast_step (Type_Payload s) p = set_payload s p"
| "broadcast_step (Apply_Template body) p = snd (applyTemplate body p)"
| "broadcast_step (Insert_Variable name) p = set_payload (insertVariable name (bp_payload p)) p"
| "broadcast_step (Insert_Emoji emoji) p = set_payload (bp_payload p @ emoji) p"
| "broadcast_step (Apply_Values native values) p = set_payload (fillTemplateVariables native (bp_payload p) values) p"
| "broadcast_step (Select_File f) p = handleFileSelected f p"
| "broadcast_step (Submit devices) p = (if submit_disabled p then p else handleSubmit devices p)"
| "broadcast_step (Submit_Settled rid now outcome) p = submit_settled rid now outcome p"

section \<open>Inserting a variable\<close>

lemma blank_word_marks: "\<not> is_blank 123" "\<not> is_word 123" "\<not> is_blank 125" "\<not> is_word 125"
  by (simp_all add: is_blank_def is_word_def)

lemma dropWhile_append_stop: "\<not> P v \<Longrightarrow> dropWhile P (xs @ v # vs) = dropWhile P xs @ v # vs"
  by (induction xs) auto

lemma takeWhile_append_stop: "\<not> P v \<Longrightarrow> takeWhile P (xs @ v # vs) = takeWhile P xs"
  by (induction xs) auto

text \<open>A match does not look past a brace that opens a placeholder.\<close>

lemma match_append:
  assumes "s \<noteq> []"
  shows "match_variable (s @ 123 # 123 # vs) = map_option (map_prod id (\<lambda>r. r @ 123 # 123 # vs)) (match_variable s)"
proof (cases "tl s")
  case Nil
  with assms obtain c where s: "s = [c]" by (cases s) auto
  show ?thesis by (simp add: s match_variable_def Let_def blank_word_marks)
next
  case (Cons d r)
  with assms obtain c where s: "s = c # d # r" by (cases s) auto
  let ?v = "123 # 123 # vs"
  let ?s2 = "dropWhile is_blank (dropWhile is_word (dropWhile is_blank r))"
  have t: "take 2 (x @ ?v) = [125, 125] \<longleftrightarrow> take 2 x = [125, 125]" for x :: js_string
    by (cases x; cases "tl x") auto
  have d: "take 2 x = [125, 125] \<Longrightarrow> drop 2 (x @ ?v) = drop 2 x @ ?v" for x :: js_string
    by (cases x; cases "tl x") auto
  show ?thesis
    by (simp add: s match_variable_def Let_def dropWhile_append_stop takeWhile_append_stop blank_word_marks t d del: take_append drop_append)
qed

lemma segments_append_placeholder:
  "segments (s @ 123 # 123 # vs) = segments s @ segments (123 # 123 # vs)"
proof (induction s rule: segments.induct)
  case (2 c cs)
  have m: "match_variable (c # cs @ 123 # 123 # vs) = map_option (map_prod id (\<lambda>r. r @ 123 # 123 # vs)) (match_variable (c # cs))"
    using match_append [of "c # cs" vs] by simp
  show ?case
  proof (cases "match_variable (c # cs)")
    case None
    then show ?thesis using 2 m segments.simps(2) [of c "cs @ 123 # 123 # vs"] segments.simps(2) [of c cs]
      by (simp del: segments.simps)
  next
    case (Some nr)
    then show ?thesis using 2 m segments.simps(2) [of c "cs @ 123 # 123 # vs"] segments.simps(2) [of c cs]
      by (cases nr) (simp del: segments.simps)
  qed
qed simp

lemma match_placeholder:
  assumes "name \<noteq> []" "list_all is_word name"
  shows "match_variable (placeholder name @ rest) = Some (name, rest)"
proof -
  have b: "\<not> is_blank u" if "is_word u" for u using that by (auto simp: is_blank_def is_word_def Let_def)
  have "dropWhile is_blank (name @ 125 # 125 # rest) = name @ 125 # 125 # rest" using assms b by (cases name) auto
  moreover have "takeWhile is_word (name @ 125 # 125 # rest) = name" "dropWhile is_word (name @ 125 # 125 # rest) = 125 # 125 # rest"
    using assms(2) blank_word_marks(4) by (induction name) auto
  ultimately show ?thesis using assms(1) by (simp add: match_variable_def placeholder_def Let_def blank_word_marks)
qed

lemma segments_placeholder:
  "name \<noteq> [] \<Longrightarrow> list_all is_word name \<Longrightarrow> segments (placeholder name) = [Variable name]"
  using match_placeholder [of name "[]"] by (simp add: placeholder_def)

lemma variable_names_append: "variable_names (a @ b) = variable_names a @ variable_names b"
  by (induction a rule: variable_names.induct) simp_all

lemma fill_append_placeholder:
  assumes "name \<noteq> []" "list_all is_word name"
  shows "fillTemplateVariables native (s @ placeholder name) v = fillTemplateVariables native s v @ variable_value native v name"
proof -
  have "segments (s @ placeholder name) = segments s @ [Variable name]"
    using segments_append_placeholder [of s "name @ [125, 125]"] segments_placeholder [OF assms] by (simp add: placeholder_def)
  then show ?thesis by (simp add: fillTemplateVariables_def)
qed

text \<open>
  Inserting a variable whose trimmed name has only letters, digits and underscores always works, whatever was typed before it, unfinished braces included: the variables of the new text are those of the
  old one and the new name, once and at the end unless it was there already, and filling the new text gives the filled old text followed by the variable's value.
\<close>

theorem insertVariable_recognised:
  assumes "js_trim name \<noteq> []" "list_all is_word (js_trim name)"
  shows "extractTemplateVariables (insertVariable name payload) = set_add (js_trim name) (extractTemplateVariables payload) \<and>
    fillTemplateVariables native (insertVariable name payload) v =
      fillTemplateVariables native payload v @ variable_value native v (js_trim name)"
proof -
  have i: "insertVariable name payload = payload @ placeholder (js_trim name)" using assms(1) by (simp add: insertVariable_def Let_def)
  have "segments (payload @ placeholder (js_trim name)) = segments payload @ [Variable (js_trim name)]"
    using segments_append_placeholder [of payload "js_trim name @ [125, 125]"] segments_placeholder [OF assms]
    by (simp add: placeholder_def)
  then show ?thesis
    by (simp add: i extractTemplateVariables_def variable_names_append fill_append_placeholder [OF assms])
qed

theorem insertVariable_recognised_witness:
  "extractTemplateVariables (insertVariable (js_of '' who '') (js_of ''Hi {{ name }} {{{x'')) = [js_of ''name'', js_of ''who'']"
proof -
  have t: "js_trim (js_of '' who '') = js_of ''who''" by code_simp
  have "list_all is_word (js_of ''who'')" by code_simp
  then have "extractTemplateVariables (insertVariable (js_of '' who '') (js_of ''Hi {{ name }} {{{x'')) =
      set_add (js_of ''who'') (extractTemplateVariables (js_of ''Hi {{ name }} {{{x''))"
    using insertVariable_recognised [of "js_of '' who ''" "js_of ''Hi {{ name }} {{{x''" "\<lambda>_. []" "[]"] unfolding t by simp
  moreover have "extractTemplateVariables (js_of ''Hi {{ name }} {{{x'') = [js_of ''name'']" by code_simp
  ultimately show ?thesis by (simp add: set_add_def)
qed

text \<open>A name with a blank inside is inserted all the same, and never found again.\<close>

lemma insertVariable_blank_lost:
  "extractTemplateVariables (insertVariable (js_of ''first name'') []) = []"
  by code_simp

lemma variable_value_empty:
  "(\<And>name. name \<in> set (variable_names ss) \<Longrightarrow> variable_value native v name = variable_value native w name) \<Longrightarrow>
   concat (map (\<lambda>s. case s of Literal c \<Rightarrow> [c] | Variable name \<Rightarrow> variable_value native v name) ss) =
   concat (map (\<lambda>s. case s of Literal c \<Rightarrow> [c] | Variable name \<Rightarrow> variable_value native w name) ss)"
  by (induction ss rule: variable_names.induct) simp_all

lemma set_fold_set_add: "set (fold set_add xs ys) = set xs \<union> set ys"
  by (induction xs arbitrary: ys) (auto simp: set_add_def)

lemma fill_depends_on_extracted:
  assumes "\<And>name. name \<in> set (extractTemplateVariables body) \<Longrightarrow> variable_value native v name = variable_value native w name"
  shows "fillTemplateVariables native body v = fillTemplateVariables native body w"
  unfolding fillTemplateVariables_def
  by (rule variable_value_empty) (use assms in \<open>simp add: extractTemplateVariables_def set_fold_set_add\<close>)

text \<open>
  The drop-down reads the values typed so far from a plain object: a variable that is named like a member of \<open>Object.prototype\<close> starts with that member instead of an empty text, and
  applying the values puts the text of a function into the message.
\<close>

theorem prototype_variable_filled:
  "fillTemplateVariables native (js_of ''Hi {{constructor}}{{name}}!'') (sync_values (extractTemplateVariables (js_of ''Hi {{constructor}}{{name}}!'')) []) =
     js_of ''Hi '' @ native (js_of ''constructor'') @ js_of ''!''"
  by code_simp

section \<open>The preview of the reach\<close>

lemma glob_helper_prefix: "star \<notin> set p \<Longrightarrow> glob_helper (p @ [star]) c \<longleftrightarrow> starts_with p c"
proof (induction p arbitrary: c)
  case Nil
  have "\<exists>i. i < Suc (length c) \<and> drop i c = []" by (rule exI [of _ "length c"]) simp
  then show ?case by (auto simp: starts_with_def list_ex_iff)
next
  case (Cons a p)
  then show ?case by (cases c) (auto simp: starts_with_def)
qed

text \<open>
  The preview agrees with the matching of the SDK and the server for every device whose patterns have a star at the end at most: a device is counted exactly if one of its patterns matches
  the channel in the sense of \<open>globMatch\<close>.
\<close>

theorem preview_agrees_with_globMatch:
  assumes "list_all (\<lambda>p. star \<notin> set (butlast p)) (dv_channels d)"
  shows "deviceReceives d ch \<longleftrightarrow> list_ex (\<lambda>p. globMatch p ch) (dv_channels d)"
proof -
  have "(p = ch \<or> p \<noteq> [] \<and> last p = star \<and> starts_with (butlast p) ch) \<longleftrightarrow> globMatch p ch" if p: "star \<notin> set (butlast p)" for p
  proof (cases "p \<noteq> [] \<and> last p = star")
    case True
    then have e: "p = butlast p @ [star]" by (metis append_butlast_last_id)
    then have "globMatch p ch \<longleftrightarrow> starts_with (butlast p) ch" using glob_helper_prefix [OF p] by (metis globMatch_def)
    moreover have "starts_with (butlast p) ch" if "p = ch" using that by (simp add: starts_with_def butlast_conv_take)
    ultimately show ?thesis using True by blast
  next
    case False
    then have "star \<notin> set p" using p by (cases p rule: rev_cases) auto
    then show ?thesis using False globMatch_lang [of p ch] glob_lang_literal [of p ch] by auto
  qed
  then have "(if p = ch then True else if p \<noteq> [] \<and> last p = star then starts_with (butlast p) ch else False) = globMatch p ch"
    if "p \<in> set (dv_channels d)" for p
    using assms that by (auto simp: list_all_iff)
  then show ?thesis unfolding deviceReceives_def list_ex_iff by (rule bex_cong [OF refl])
qed

definition sample_device :: device where
  "sample_device = \<lparr>dv_session_id = js_of ''s'', dv_sub = js_of ''u'', dv_channels = [js_of ''orders:*'', js_of ''news''], dv_connected_at = []\<rparr>"

theorem preview_agrees_with_globMatch_witness:
  "globMatch (js_of ''orders:*'') (js_of ''orders:42'') \<and> deviceReceives sample_device (js_of ''orders:42'')"
  using preview_agrees_with_globMatch [of sample_device "js_of ''orders:42''"]
  by (simp add: sample_device_def globMatch_def star_def starts_with_def)

text \<open>With a star inside, or a second one at the end, the preview and the matching differ.\<close>

lemma preview_misses_inner_star:
  "globMatch (js_of ''orders:*:new'') (js_of ''orders:42:new'') \<and>
   \<not> deviceReceives (sample_device\<lparr>dv_channels := [js_of ''orders:*:new'']\<rparr>) (js_of ''orders:42:new'')"
  by (simp add: deviceReceives_def globMatch_def star_def starts_with_def)

section \<open>The composer stays consistent\<close>

definition sendable :: "js_string \<Rightarrow> bool" where
  "sendable payload \<longleftrightarrow> payload \<noteq> [] \<and> length (text_encode payload) \<le> 211"

definition broadcast_ok :: "broadcast_page \<Rightarrow> bool" where
  "broadcast_ok p \<longleftrightarrow>
     (bp_isSending p \<longleftrightarrow> bp_pending p \<noteq> None) \<and>
     (bp_wasOverLimit p \<longleftrightarrow> overLimit (bp_payload p)) \<and>
     bp_historyChannel p = js_trim (bp_channelId p) \<and>
     list_all (\<lambda>e. sendable (he_payload e)) (bp_sentHistory p) \<and>
     (case bp_pending p of None \<Rightarrow> True | Some (ch, payload, _) \<Rightarrow> ch \<noteq> [] \<and> sendable payload)"

lemma broadcast_ok_set_payload: "broadcast_ok p \<Longrightarrow> broadcast_ok (set_payload s p)"
  by (simp add: broadcast_ok_def set_payload_def limit_effect_def add_toast_def Let_def)

lemma broadcast_ok_submit: "broadcast_ok p \<Longrightarrow> \<not> submit_disabled p \<Longrightarrow> broadcast_ok (handleSubmit ds p)"
  by (auto simp: broadcast_ok_def handleSubmit_def submit_disabled_def Let_def sendable_def overLimit_def BROADCAST_MAX_PAYLOAD_BYTES_def)

lemma broadcast_ok_settled: "broadcast_ok p \<Longrightarrow> broadcast_ok (submit_settled rid now outcome p)"
  by (auto simp: broadcast_ok_def submit_settled_def limit_effect_def add_toast_def Let_def split: option.splits)

interpretation bc: guarded_machine "broadcast_init ch" broadcast_step broadcast_ok for ch
proof
  have "\<not> overLimit []" by (simp add: overLimit_def text_encode_def BROADCAST_MAX_PAYLOAD_BYTES_def)
  then show "broadcast_ok (broadcast_init ch)" by (simp add: broadcast_ok_def broadcast_init_def)
  fix p op
  assume ok: "broadcast_ok p"
  show "broadcast_ok (broadcast_step op p)"
  proof (cases op)
    case (Type_Channel c)
    then show ?thesis using ok by (simp add: broadcast_ok_def set_channel_def history_effect_def Let_def)
  next
    case (Apply_Template body)
    then show ?thesis using ok by (simp add: applyTemplate_def Let_def broadcast_ok_set_payload)
  next
    case (Select_File f)
    then show ?thesis using ok by (simp add: handleFileSelected_def broadcast_ok_def add_toast_def split: option.split)
  qed (use ok in \<open>simp_all add: broadcast_ok_set_payload broadcast_ok_submit broadcast_ok_settled\<close>)
qed

text \<open>
  In every history of the page a request is under way exactly while the button shows it, and what is sent, and what the history keeps as sent, is a text that is not empty and takes at most the 211 bytes of a
  frame, to a channel that is not empty; the history is labelled with the channel that is typed.
\<close>

theorem broadcast_sends_fit:
  "let p = fold broadcast_step ops (broadcast_init ch) in
   bp_isSending p = (bp_pending p \<noteq> None) \<and> bp_historyChannel p = js_trim (bp_channelId p) \<and>
   list_all (\<lambda>e. he_payload e \<noteq> [] \<and> length (text_encode (he_payload e)) \<le> LEN_PAYLOAD) (bp_sentHistory p) \<and>
   (case bp_pending p of None \<Rightarrow> True
    | Some (target, payload, _) \<Rightarrow> target \<noteq> [] \<and> payload \<noteq> [] \<and> length (text_encode payload) \<le> LEN_PAYLOAD)"
proof -
  have "broadcast_ok (fold broadcast_step ops (broadcast_init ch))" by (rule bc.inv_run)
  then show ?thesis by (auto simp: broadcast_ok_def sendable_def LEN_PAYLOAD_def Let_def list_all_iff split: option.splits)
qed

text \<open>
  The history is filed under the channel that is typed when the answer arrives: a message sent on one channel is listed as sent on another one when the channel was changed in
  between, and what was typed meanwhile is erased.
\<close>

theorem history_files_under_other_channel:
  "let p = fold broadcast_step
       [Type_Channel (js_of ''a''), Type_Payload (js_of ''hi''), Submit [], Type_Channel (js_of ''b''), Type_Payload (js_of ''draft''),
        Submit_Settled (js_of ''1'') (js_of ''now'') (Http_Ok (JObj [(js_of ''success'', JBool True)]))] (broadcast_init None) in
   bp_lastReach p = Some (js_of ''a'', 0) \<and> bp_historyChannel p = js_of ''b'' \<and>
   map he_payload (bp_sentHistory p) = [js_of ''hi''] \<and> bp_payload p = []"
  by code_simp

end
