(* ===== verification/Template_Editor.thy ===== *)
theory Template_Editor
  imports Console
begin

text \<open>
  The form of \<open>tenant-portal/src/modules/templates/pages/TemplatesPage.tsx\<close>: a template's text is turned into HTML for the editor and back into plain text when it is saved.
  The browser's \<open>DOMParser\<close> is the argument \<open>text_content\<close>, which gives the text of the body of a document; the theorems state what they use of it.
\<close>

section \<open>From text to HTML\<close>

text \<open>\<open>s.replace(/c/g, r)\<close> for a single character.\<close>

definition replace_unit :: "code_unit \<Rightarrow> js_string \<Rightarrow> js_string \<Rightarrow> js_string" where
  "replace_unit c r s = concat (map (\<lambda>u. if u = c then r else [u]) s)"

definition escape_html :: "js_string \<Rightarrow> js_string" where
  "escape_html text =
     replace_unit 62 (js_of ''&gt;'') (replace_unit 60 (js_of ''&lt;'') (replace_unit 38 (js_of ''&amp;'') text))"

definition plainTextToHtml :: "js_string \<Rightarrow> js_string" where
  "plainTextToHtml text = (let escaped = escape_html text in replace_unit 10 (js_of ''<br>'') escaped)"

section \<open>From HTML to text\<close>

definition block_tags :: "js_string list" where
  "block_tags = map js_of [''p'', ''div'', ''li'', ''br'', ''h1'', ''h2'', ''h3'', ''h4'', ''h5'', ''h6'']"

definition closed_tags :: "js_string list" where
  "closed_tags = map js_of [''p'', ''div'', ''li'', ''h1'', ''h2'', ''h3'', ''h4'', ''h5'', ''h6'']"

definition lower_ascii :: "code_unit \<Rightarrow> code_unit" where
  "lower_ascii u = (if 65 \<le> unat u \<and> unat u \<le> 90 then u + 32 else u)"

text \<open>The prefix of a text without regard to the case of ASCII letters.\<close>

definition starts_with_nocase :: "js_string \<Rightarrow> js_string \<Rightarrow> bool" where
  "starts_with_nocase p s \<longleftrightarrow> map lower_ascii (take (length p) s) = p"

text \<open>\<open>/<(p|div|li|br|h[1-6])[^>]*>/i\<close> at the beginning: what follows the match. Any of the names may be the beginning of a longer one.\<close>

definition match_opening :: "js_string \<Rightarrow> js_string option" where
  "match_opening s =
     (case s of [] \<Rightarrow> None
      | c # cs \<Rightarrow>
          if c = 60 \<and> list_ex (\<lambda>tag. starts_with_nocase tag cs) block_tags \<and> 62 \<in> set cs
          then Some (tl (dropWhile (\<lambda>u. u \<noteq> 62) cs)) else None)"

text \<open>\<open>/<\/(p|div|li|h[1-6])>/i\<close> at the beginning.\<close>

definition match_closing :: "js_string \<Rightarrow> js_string option" where
  "match_closing s =
     (case find (\<lambda>tag. starts_with_nocase ([60, 47] @ tag @ [62]) s) closed_tags of
        None \<Rightarrow> None
      | Some tag \<Rightarrow> Some (drop (length tag + 3) s))"

lemma consuming_opening: "match_opening s = Some r \<Longrightarrow> length r < length s"
proof -
  assume m: "match_opening s = Some r"
  then obtain c cs where s: "s = c # cs" by (cases s) (auto simp: match_opening_def)
  have "length (dropWhile (\<lambda>u. u \<noteq> 62) cs) \<le> length cs" by (rule length_dropWhile_le)
  then show ?thesis using m s by (auto simp: match_opening_def split: if_splits)
qed

lemma consuming_closing: "match_closing s = Some r \<Longrightarrow> length r < length s"
  by (cases s) (auto simp: match_closing_def starts_with_nocase_def split: option.splits dest!: find_Some_iff [THEN iffD1])

function open_breaks :: "js_string \<Rightarrow> js_string" where
  "open_breaks [] = []"
| "open_breaks (c # cs) =
     (case match_opening (c # cs) of Some rest \<Rightarrow> 10 # open_breaks rest | None \<Rightarrow> c # open_breaks cs)"
  by pat_completeness auto
termination
  by (relation "measure length") (auto dest: consuming_opening)

function drop_closings :: "js_string \<Rightarrow> js_string" where
  "drop_closings [] = []"
| "drop_closings (c # cs) =
     (case match_closing (c # cs) of Some rest \<Rightarrow> drop_closings rest | None \<Rightarrow> c # drop_closings cs)"
  by pat_completeness auto
termination
  by (relation "measure length") (auto dest: consuming_closing)

definition is_newline :: "code_unit \<Rightarrow> bool" where "is_newline u \<longleftrightarrow> u = 10"

text \<open>\<open>s.replace(/\n{3,}/g, '\n\n')\<close>\<close>

function collapse_newlines :: "js_string \<Rightarrow> js_string" where
  "collapse_newlines [] = []"
| "collapse_newlines (c # cs) =
     (if is_newline c
      then replicate (min 2 (length (takeWhile is_newline (c # cs)))) 10 @ collapse_newlines (dropWhile is_newline cs)
      else c # collapse_newlines cs)"
  by pat_completeness auto
termination
  by (relation "measure length") (simp_all add: length_dropWhile_le le_imp_less_Suc)

definition htmlToPlainText :: "(js_string \<Rightarrow> js_string) \<Rightarrow> js_string \<Rightarrow> js_string" where
  "htmlToPlainText text_content html =
     (let withBreaks = drop_closings (open_breaks html);
          text = text_content withBreaks in
      js_trim (dropWhile is_newline (collapse_newlines text)))"

section \<open>The form\<close>

record template =
  tp_id :: js_string
  tp_name :: js_string
  tp_body :: js_string
  tp_created_at :: js_string
  tp_updated_at :: js_string

datatype template_request =
    Create_Template json
  | Update_Template js_string json

record template_form =
  tf_editing :: "template option"
  tf_name :: js_string
  tf_bodyHtml :: js_string
  tf_isSaving :: bool

definition template_form_init :: "template option \<Rightarrow> template_form" where
  "template_form_init editing =
     \<lparr>tf_editing = editing, tf_name = (case editing of None \<Rightarrow> [] | Some t \<Rightarrow> tp_name t),
      tf_bodyHtml = (case editing of None \<Rightarrow> [] | Some t \<Rightarrow> plainTextToHtml (tp_body t)), tf_isSaving = False\<rparr>"

definition save_dto :: "js_string \<Rightarrow> js_string \<Rightarrow> json" where
  "save_dto name body = JObj [(js_of ''name'', JStr name), (js_of ''body'', JStr body)]"

text \<open>\<open>handleSubmit\<close> up to its request; \<open>None\<close> is the message that the body is required.\<close>

definition template_handleSubmit :: "(js_string \<Rightarrow> js_string) \<Rightarrow> template_form \<Rightarrow> template_request option \<times> template_form" where
  "template_handleSubmit text_content f =
     (let body = htmlToPlainText text_content (tf_bodyHtml f) in
      if body = [] then (None, f)
      else (Some (case tf_editing f of
                Some t \<Rightarrow> Update_Template (tp_id t) (save_dto (js_trim (tf_name f)) body)
              | None \<Rightarrow> Create_Template (save_dto (js_trim (tf_name f)) body)),
            f\<lparr>tf_isSaving := True\<rparr>))"

datatype template_toast = Template_Updated | Template_Created | Save_Failed api_error

text \<open>The rest, when the request has settled: the toast, and whether the dialogs close and the table is loaded again.\<close>

definition template_settled :: "axios_outcome \<Rightarrow> template_form \<Rightarrow> template_toast \<times> bool \<times> template_form" where
  "template_settled outcome f =
     (let f' = f\<lparr>tf_isSaving := False\<rparr> in
      case apiRequest outcome of
        Inl e \<Rightarrow> (Save_Failed e, False, f')
      | Inr _ \<Rightarrow> (if tf_editing f \<noteq> None then Template_Updated else Template_Created, True, f'))"

section \<open>Loading and saving\<close>

lemma replace_unit_append: "replace_unit c r (a @ b) = replace_unit c r a @ replace_unit c r b"
  by (simp add: replace_unit_def)

lemma replace_unit_simps [simp]:
  "replace_unit c r [] = []" "replace_unit c r (u # s) = (if u = c then r else [u]) @ replace_unit c r s"
  by (simp_all add: replace_unit_def)

definition escape_unit :: "code_unit \<Rightarrow> js_string" where
  "escape_unit u = (if u = 38 then js_of ''&amp;'' else if u = 60 then js_of ''&lt;'' else if u = 62 then js_of ''&gt;'' else [u])"

lemma escape_html_Cons: "escape_html (u # s) = escape_unit u @ escape_html s"
  by (simp add: escape_html_def escape_unit_def replace_unit_append)

lemma escape_html_Nil [simp]: "escape_html [] = []"
  by (simp add: escape_html_def)

lemma plainTextToHtml_Cons: "plainTextToHtml (u # s) = (if u = 10 then js_of ''<br>'' else escape_unit u) @ plainTextToHtml s"
  by (simp add: plainTextToHtml_def Let_def escape_html_Cons escape_unit_def replace_unit_append)

lemma plainTextToHtml_Nil [simp]: "plainTextToHtml [] = []"
  by (simp add: plainTextToHtml_def)

lemma open_breaks_no_tag: "60 \<notin> set a \<Longrightarrow> open_breaks (a @ s) = a @ open_breaks s"
  by (induction a) (auto simp: match_opening_def)

lemma open_breaks_br: "open_breaks (js_of ''<br>'' @ s) = 10 # open_breaks s"
proof -
  have "starts_with_nocase (js_of ''br'') (js_of ''br>'' @ s)"
    by (simp add: starts_with_nocase_def lower_ascii_def)
  then have "list_ex (\<lambda>tag. starts_with_nocase tag (js_of ''br>'' @ s)) block_tags"
    by (simp add: block_tags_def list_ex_iff del: js_of_simps)
  then have "match_opening (js_of ''<br>'' @ s) = Some s" by (simp add: match_opening_def)
  then show ?thesis by simp
qed

lemma escape_unit_no_tag: "60 \<notin> set (escape_unit u)"
  by (simp add: escape_unit_def)

lemma open_breaks_html: "open_breaks (plainTextToHtml s) = escape_html s"
proof (induction s)
  case (Cons u s)
  show ?case
  proof (cases "u = 10")
    case True
    then show ?thesis using open_breaks_br [of "plainTextToHtml s"] Cons
      by (simp add: plainTextToHtml_Cons escape_html_Cons escape_unit_def del: js_of_simps)
  next
    case False
    then show ?thesis using open_breaks_no_tag [OF escape_unit_no_tag] Cons by (simp add: plainTextToHtml_Cons escape_html_Cons)
  qed
qed simp

lemma drop_closings_no_tag: "60 \<notin> set s \<Longrightarrow> drop_closings s = s"
proof (induction s)
  case (Cons c s)
  then have "\<not> starts_with_nocase ([60, 47] @ tag @ [62]) (c # s)" for tag
    by (auto simp: starts_with_nocase_def lower_ascii_def)
  then have "find (\<lambda>tag. starts_with_nocase ([60, 47] @ tag @ [62]) (c # s)) closed_tags = None" unfolding find_None_iff by blast
  then have "match_closing (c # s) = None" unfolding match_closing_def by simp
  then show ?case using Cons by simp
qed simp

lemma escape_html_no_tag: "60 \<notin> set (escape_html s)"
  by (induction s) (simp_all add: escape_html_Cons escape_unit_no_tag)

lemma collapse_id: "\<not> sublist [10, 10, 10] s \<Longrightarrow> collapse_newlines s = s"
proof (induction s rule: collapse_newlines.induct)
  case (2 c cs)
  have sub: "\<not> sublist [10, 10, 10] t" if "suffix t (c # cs)" for t
    using 2(3) that by (meson suffix_imp_sublist sublist_order.order_trans)
  show ?case
  proof (cases "is_newline c")
    case True
    let ?n = "takeWhile is_newline cs" and ?r = "dropWhile is_newline cs"
    have n: "?n = replicate (length ?n) 10" by (intro replicate_eqI) (auto simp: is_newline_def dest: set_takeWhileD)
    have short: "length ?n \<le> 1"
    proof (rule ccontr)
      assume "\<not> length ?n \<le> 1"
      then obtain k where k: "length ?n = Suc (Suc k)" by (metis One_nat_def less_one not_less_eq_eq not0_implies_Suc not_le)
      have "c # cs = 10 # ?n @ ?r" using True by (simp add: is_newline_def)
      then have "c # cs = [10, 10, 10] @ replicate k 10 @ ?r" using n k by (metis append_Cons append_Nil replicate_Suc append.assoc)
      then show False using 2(3) by (metis sublist_append_leftI sublist_append_rightI append_Nil prefix_imp_sublist prefixI)
    qed
    have r: "collapse_newlines ?r = ?r" using 2(1) True sub [of ?r] by (simp add: suffix_ConsI suffix_dropWhile)
    have "cs = ?n @ ?r" by simp
    moreover have "replicate (Suc (length ?n)) 10 = 10 # ?n" using n by simp
    ultimately show ?thesis using True short r by (simp add: is_newline_def [symmetric])
  next
    case False
    then show ?thesis using 2(2) sub [of cs] by (simp add: suffix_ConsI)
  qed
qed simp

lemma hd_collapse: "s \<noteq> [] \<Longrightarrow> \<not> is_newline (hd s) \<Longrightarrow> \<exists>c t. collapse_newlines s = c # t \<and> c \<noteq> 10"
  by (cases s) (auto simp: is_newline_def)

lemma collapse_no_triple: "\<not> sublist [10, 10, 10] (collapse_newlines s)"
proof (induction s rule: collapse_newlines.induct)
  case (2 c cs)
  show ?case
  proof (cases "is_newline c")
    case True
    let ?r = "dropWhile is_newline cs" and ?k = "min 2 (Suc (length (takeWhile is_newline cs)))"
    have r: "\<not> sublist [10, 10, 10] (collapse_newlines ?r)" using 2(1) True .
    have h: "collapse_newlines ?r = [] \<or> (\<exists>d t. collapse_newlines ?r = d # t \<and> d \<noteq> 10)"
      using hd_collapse [of ?r] hd_dropWhile [of is_newline cs] by (metis collapse_newlines.simps(1))
    have "?k = 1 \<or> ?k = 2" by linarith
    then show ?thesis using r h True by (auto simp: sublist_Cons_right numeral_2_eq_2)
  next
    case False
    then show ?thesis using 2(2) by (simp add: sublist_Cons_right is_newline_def)
  qed
qed simp

text \<open>What HTML drops before the body of a document.\<close>

definition html_space :: "code_unit \<Rightarrow> bool" where
  "html_space u \<longleftrightarrow> u \<in> {9, 10, 12, 13, 32}"

text \<open>The text that a template has after it went through the editor unchanged.\<close>

definition normal_text :: "js_string \<Rightarrow> js_string" where
  "normal_text s = js_trim (dropWhile is_newline (collapse_newlines (dropWhile html_space s)))"

lemma editor_text:
  assumes "text_content (escape_html s) = dropWhile html_space s"
  shows "htmlToPlainText text_content (plainTextToHtml s) = normal_text s"
  using assms by (simp add: htmlToPlainText_def Let_def open_breaks_html drop_closings_no_tag escape_html_no_tag normal_text_def)

lemma newline_blank: "is_newline u \<Longrightarrow> is_blank u" "html_space u \<Longrightarrow> is_blank u"
  by (auto simp: is_newline_def html_space_def is_blank_def Let_def)

lemma dropWhile_hd_id: "(s \<noteq> [] \<Longrightarrow> \<not> P (hd s)) \<Longrightarrow> dropWhile P s = s"
  by (cases s) auto

lemma normal_text_id:
  assumes "js_trim s = s" "\<not> sublist [10, 10, 10] s"
  shows "normal_text s = s"
proof -
  have h: "\<not> is_blank (hd s)" if "s \<noteq> []" using trim_ends(1) [of s] that by (simp add: assms(1))
  have "dropWhile html_space s = s" "dropWhile is_newline s = s" using h newline_blank by (auto intro!: dropWhile_hd_id)
  then show ?thesis using assms by (simp add: normal_text_def collapse_id)
qed

lemma normal_text_normal: "js_trim (normal_text s) = normal_text s" "\<not> sublist [10, 10, 10] (normal_text s)"
proof -
  let ?c = "collapse_newlines (dropWhile html_space s)"
  show "js_trim (normal_text s) = normal_text s" by (simp add: normal_text_def trim_ends(2))
  have "sublist (normal_text s) ?c"
    unfolding normal_text_def by (meson trim_ends(3) sublist_order.order_trans suffix_dropWhile suffix_imp_sublist)
  then show "\<not> sublist [10, 10, 10] (normal_text s)" using collapse_no_triple sublist_order.order_trans by blast
qed

lemma submitted_template:
  assumes "text_content (escape_html (tp_body t)) = dropWhile html_space (tp_body t)"
  shows "fst (template_handleSubmit text_content (template_form_init (Some t))) =
    (if normal_text (tp_body t) = [] then None
     else Some (Update_Template (tp_id t) (save_dto (js_trim (tp_name t)) (normal_text (tp_body t)))))"
  using editor_text [of text_content, OF assms] by (simp add: template_handleSubmit_def template_form_init_def Let_def)

text \<open>
  C24. A stored template is opened in the form and submitted with the name and the HTML as they were loaded. Then the request stores under the same id the trimmed name and the normal form of the text: without the spaces at its
  beginning, with runs of three or more line breaks cut to two, and trimmed; no request is made if nothing is left. A text that is trimmed and has no three line breaks in a row is its own
  normal form, angle brackets and ampersands included, so it is stored as it was; any other is changed by the first saving, and a further one stores the same again. Of the browser's parser it is assumed that of a
  document made of this text, or of its normal form, escaped and without tags, it gives back the text less the spaces at its beginning.
\<close>

theorem template_edit_roundtrip:
  assumes "\<And>s. s \<in> {tp_body t, normal_text (tp_body t)} \<Longrightarrow> text_content (escape_html s) = dropWhile html_space s"
  shows "let submitted = (\<lambda>t. fst (template_handleSubmit text_content (template_form_init (Some t)))); body = normal_text (tp_body t) in
    submitted t = (if body = [] then None else Some (Update_Template (tp_id t) (save_dto (js_trim (tp_name t)) body))) \<and>
    submitted (t\<lparr>tp_body := body\<rparr>) = submitted t \<and> js_trim body = body \<and> \<not> sublist [10, 10, 10] body \<and>
    (js_trim (tp_body t) = tp_body t \<and> \<not> sublist [10, 10, 10] (tp_body t) \<longrightarrow> body = tp_body t)"
proof -
  let ?b = "normal_text (tp_body t)"
  have n: "normal_text ?b = ?b" by (rule normal_text_id [OF normal_text_normal])
  have "fst (template_handleSubmit text_content (template_form_init (Some t))) =
      (if ?b = [] then None else Some (Update_Template (tp_id t) (save_dto (js_trim (tp_name t)) ?b)))"
    by (rule submitted_template) (simp add: assms)
  moreover have "fst (template_handleSubmit text_content (template_form_init (Some (t\<lparr>tp_body := ?b\<rparr>)))) =
      (if ?b = [] then None else Some (Update_Template (tp_id t) (save_dto (js_trim (tp_name t)) ?b)))"
    using submitted_template [of text_content "t\<lparr>tp_body := ?b\<rparr>"] assms [of ?b] by (simp add: n)
  ultimately show ?thesis unfolding Let_def using normal_text_normal [of "tp_body t"] normal_text_id [of "tp_body t"] by simp
qed

text \<open>A parser that reads the three references and drops leading spaces.\<close>

fun sample_parser :: "js_string \<Rightarrow> js_string" where
  "sample_parser [] = []"
| "sample_parser (c # cs) =
     (if take 5 (c # cs) = js_of ''&amp;'' then 38 # sample_parser (drop 4 cs)
      else if take 4 (c # cs) = js_of ''&lt;'' then 60 # sample_parser (drop 3 cs)
      else if take 4 (c # cs) = js_of ''&gt;'' then 62 # sample_parser (drop 3 cs)
      else c # sample_parser cs)"

definition sample_template :: template where
  "sample_template = \<lparr>tp_id = js_of ''7'', tp_name = js_of ''n '', tp_body = js_of ''if a<b & c>d:'' @ [10, 10] @ js_of ''&lt;'', tp_created_at = [], tp_updated_at = []\<rparr>"

theorem template_edit_roundtrip_witness:
  "fst (template_handleSubmit (\<lambda>h. dropWhile html_space (sample_parser h)) (template_form_init (Some sample_template))) =
     Some (Update_Template (js_of ''7'') (save_dto (js_of ''n'') (tp_body sample_template)))"
proof -
  let ?b = "tp_body sample_template"
  have e: "js_trim ?b = ?b" "\<not> sublist [10, 10, 10] ?b" "?b \<noteq> []" "js_trim (tp_name sample_template) = js_of ''n''" "tp_id sample_template = js_of ''7''"
    by code_simp+
  then have n: "normal_text ?b = ?b" by (intro normal_text_id)
  have "sample_parser (escape_html ?b) = ?b" by code_simp
  then have "dropWhile html_space (sample_parser (escape_html s)) = dropWhile html_space s" if "s \<in> {?b, normal_text ?b}" for s
    using that n by auto
  note t = template_edit_roundtrip [where t = sample_template and text_content = "\<lambda>h. dropWhile html_space (sample_parser h)", OF this]
  from t e show ?thesis by (simp add: Let_def n)
qed

end
