(* ===== verification/Notification_Bell.thy ===== *)
theory Notification_Bell
  imports Console
begin

text \<open>
  The bell of the tenant portal, \<open>tenant-portal/src/components/shared/NotificationBell.tsx\<close>: how it reads a payload, and its list and badge with the optimistic
  marking as read. Also the two handlers of the service worker that \<open>EmbedPage.tsx\<close> generates for the tenant's own site, which shows the same payloads. A request of the
  bell is an event of its own when it settles.
\<close>

section \<open>Reading a payload\<close>

record parsed_payload =
  np_title :: "js_string option"
  np_message :: js_string
  np_url :: "js_string option"

text \<open>\<open>typeof v === 'string'\<close>\<close>

definition string_field :: "string \<Rightarrow> json \<Rightarrow> js_string option" where
  "string_field k v = (case jfield (js_of k) v of Some (JStr s) \<Rightarrow> Some s | _ \<Rightarrow> None)"

text \<open>\<open>/^https?:\/\//\<close>\<close>

definition is_web_url :: "js_string \<Rightarrow> bool" where
  "is_web_url s \<longleftrightarrow> starts_with (js_of ''http://'') s \<or> starts_with (js_of ''https://'') s"

definition web_url_field :: "json \<Rightarrow> js_string option" where
  "web_url_field v = (case string_field ''url'' v of Some s \<Rightarrow> if is_web_url s then Some s else None | None \<Rightarrow> None)"

definition plain_payload :: "js_string \<Rightarrow> parsed_payload" where
  "plain_payload payload = \<lparr>np_title = None, np_message = payload, np_url = None\<rparr>"

definition parseNotificationPayload :: "js_string \<Rightarrow> parsed_payload" where
  "parseNotificationPayload payload =
     (case json_parse payload of
        None \<Rightarrow> plain_payload payload
      | Some parsed \<Rightarrow>
          (case parsed of
             JObj _ \<Rightarrow> \<lparr>np_title = string_field ''title'' parsed, np_message = or_default (string_field ''message'' parsed) payload,
                          np_url = web_url_field parsed\<rparr>
           | _ \<Rightarrow> plain_payload payload))"

section \<open>The generated service worker\<close>

record generated_notification =
  gn_title :: js_string
  gn_body :: js_string
  gn_url :: "js_string option"

text \<open>\<open>parsed && typeof parsed === 'object'\<close> also lets arrays pass.\<close>

fun object_or_array :: "json \<Rightarrow> bool" where
  "object_or_array (JObj _) = True"
| "object_or_array (JArr _) = True"
| "object_or_array _ = False"

definition generated_push :: "js_string option \<Rightarrow> generated_notification" where
  "generated_push data =
     (let raw = or_default data [];
          plain = \<lparr>gn_title = js_of ''New notification'', gn_body = raw, gn_url = None\<rparr> in
      case json_parse raw of
        None \<Rightarrow> plain
      | Some parsed \<Rightarrow>
          if object_or_array parsed
          then \<lparr>gn_title = or_default (string_field ''title'' parsed) (js_of ''New notification''),
                gn_body = or_default (string_field ''message'' parsed) raw, gn_url = web_url_field parsed\<rparr>
          else plain)"

text \<open>A window: its number, its address, whether it can take the focus.\<close>

datatype generated_click = Generated_Focus nat | Generated_Open js_string | Generated_Nothing

definition target_url :: "js_string option \<Rightarrow> js_string" where
  "target_url url = (case url of Some u \<Rightarrow> if u = [] then js_of ''/'' else u | None \<Rightarrow> js_of ''/'')"

definition generated_notificationclick :: "(nat \<times> js_string \<times> bool) list \<Rightarrow> bool \<Rightarrow> js_string option \<Rightarrow> generated_click" where
  "generated_notificationclick windows can_open url =
     (case find (\<lambda>(_, address, focusable). address = target_url url \<and> focusable) windows of
        Some (i, _, _) \<Rightarrow> Generated_Focus i
      | None \<Rightarrow> if can_open then Generated_Open (target_url url) else Generated_Nothing)"

section \<open>List and badge\<close>

datatype delivery = Delivered_Realtime | Delivered_Push

record portal_notification =
  pn_id :: js_string
  pn_channel_id :: js_string
  pn_payload :: js_string
  pn_delivery :: delivery
  pn_created_at :: js_string
  pn_read_at :: "js_string option"

text \<open>\<open>!n.read_at\<close>\<close>

definition is_unread :: "portal_notification \<Rightarrow> bool" where
  "is_unread n \<longleftrightarrow> pn_read_at n = None \<or> pn_read_at n = Some []"

record bell =
  nb_items :: "portal_notification list"
  nb_unreadCount :: int

definition bell_init :: bell where
  "bell_init = \<lparr>nb_items = [], nb_unreadCount = 0\<rparr>"

text \<open>\<open>refresh\<close>, when its request has settled; \<open>None\<close> is a failure, which is silent.\<close>

definition bell_refresh :: "(portal_notification list \<times> int) option \<Rightarrow> bell \<Rightarrow> bell" where
  "bell_refresh answer b =
     (case answer of None \<Rightarrow> b | Some (items, unread_count) \<Rightarrow> b\<lparr>nb_items := items, nb_unreadCount := unread_count\<rparr>)"

definition handleMarkRead :: "js_string \<Rightarrow> js_string \<Rightarrow> bell \<Rightarrow> bell" where
  "handleMarkRead now i b =
     b\<lparr>nb_items := map (\<lambda>n. if pn_id n = i then n\<lparr>pn_read_at := Some now\<rparr> else n) (nb_items b),
       nb_unreadCount := max 0 (nb_unreadCount b - 1)\<rparr>"

definition handleMarkAllRead :: "js_string \<Rightarrow> bell \<Rightarrow> bell" where
  "handleMarkAllRead now b =
     b\<lparr>nb_items := map (\<lambda>n. n\<lparr>pn_read_at := Some (or_default (pn_read_at n) now)\<rparr>) (nb_items b), nb_unreadCount := 0\<rparr>"

text \<open>Selecting the entry of a notification of the list.\<close>

definition bell_select :: "js_string \<Rightarrow> portal_notification \<Rightarrow> bell \<Rightarrow> bell" where
  "bell_select now n b = (if is_unread n then handleMarkRead now (pn_id n) b else b)"

datatype badge = No_Badge | Badge_Number int | Badge_Nine_Plus

definition bell_badge :: "bell \<Rightarrow> badge" where
  "bell_badge b =
     (if nb_unreadCount b > 0 then (if nb_unreadCount b > 9 then Badge_Nine_Plus else Badge_Number (nb_unreadCount b)) else No_Badge)"

datatype bell_op =
    Bell_Refreshed "(portal_notification list \<times> int) option"
  | Bell_Select js_string nat
  | Bell_Mark_All js_string

text \<open>An entry is selected by its place in the list that is shown; the button for all is shown while the count is positive.\<close>

fun bell_step :: "bell_op \<Rightarrow> bell \<Rightarrow> bell" where
  "bell_step (Bell_Refreshed answer) b = bell_refresh answer b"
| "bell_step (Bell_Select now i) b = (if i < length (nb_items b) then bell_select now (nb_items b ! i) b else b)"
| "bell_step (Bell_Mark_All now) b = (if nb_unreadCount b > 0 then handleMarkAllRead now b else b)"

section \<open>Both readers show the same\<close>

lemma array_fields: "string_field k (JArr vs) = None" "web_url_field (JArr vs) = None"
  by (simp_all add: string_field_def web_url_field_def)

text \<open>
  The service worker that the portal generates shows every payload as the bell of the portal does: the same text and the same link, and the same title, which is \<open>New notification\<close> for a payload
  without one. Payloads that are no JSON, or JSON of another kind, are shown as they are by both.
\<close>

theorem generated_worker_agrees_with_bell:
  "generated_push (Some raw) =
     \<lparr>gn_title = or_default (np_title (parseNotificationPayload raw)) (js_of ''New notification''),
      gn_body = np_message (parseNotificationPayload raw), gn_url = np_url (parseNotificationPayload raw)\<rparr>"
proof (cases "json_parse raw")
  case None
  then show ?thesis by (simp add: generated_push_def parseNotificationPayload_def plain_payload_def or_default_def Let_def)
next
  case (Some j)
  then show ?thesis
    by (cases j) (simp_all add: generated_push_def parseNotificationPayload_def plain_payload_def or_default_def Let_def array_fields)
qed

lemma bell_url_is_web: "np_url (parseNotificationPayload raw) = Some u \<Longrightarrow> is_web_url u"
  by (auto simp: parseNotificationPayload_def plain_payload_def web_url_field_def split: option.splits json.splits if_splits)

text \<open>
  A click on a notification without a link never focuses a window of the site that is open: the addresses of windows are complete, and the generated worker compares them with \<open>/\<close>. It opens another
  window every time.
\<close>

theorem generated_click_never_focuses:
  assumes "\<forall>(_, address, _) \<in> set windows. is_web_url address"
  shows "generated_notificationclick windows True None = Generated_Open (js_of ''/'')"
proof -
  have "\<not> is_web_url (js_of ''/'')" by (simp add: is_web_url_def starts_with_def)
  then have "find (\<lambda>(_, address, focusable). address = js_of ''/'' \<and> focusable) windows = None"
    using assms by (fastforce simp: find_None_iff)
  then show ?thesis by (simp add: generated_notificationclick_def target_url_def del: js_of_simps)
qed

theorem generated_click_never_focuses_witness:
  "generated_notificationclick [(0, js_of ''https://shop.example/'', True)] True None = Generated_Open (js_of ''/'')"
  by (rule generated_click_never_focuses) (simp add: is_web_url_def starts_with_def)

section \<open>The badge\<close>

definition unread_items :: "bell \<Rightarrow> nat" where
  "unread_items b = length (filter is_unread (nb_items b))"

definition bell_ok :: "bell \<Rightarrow> bool" where
  "bell_ok b \<longleftrightarrow> distinct (map pn_id (nb_items b)) \<and> nb_unreadCount b = int (unread_items b)"

lemma mark_read_ids: "map pn_id (map (\<lambda>n. if pn_id n = i then n\<lparr>pn_read_at := r\<rparr> else n) ns) = map pn_id ns"
  by simp

lemma unread_after_mark:
  assumes "distinct (map pn_id ns)" "n \<in> set ns" "is_unread n" "now \<noteq> []"
  shows "length (filter is_unread (map (\<lambda>m. if pn_id m = pn_id n then m\<lparr>pn_read_at := Some now\<rparr> else m) ns)) + 1 = length (filter is_unread ns)"
  using assms(1,2)
proof (induction ns)
  case (Cons m ns)
  have r: "\<not> is_unread (x\<lparr>pn_read_at := Some now\<rparr>)" for x using assms(4) by (simp add: is_unread_def)
  show ?case
  proof (cases "pn_id m = pn_id n")
    case True
    then have "m = n" using Cons.prems by (metis distinct.simps(2) image_eqI list.set_map list.simps(9) set_ConsD)
    moreover have "map (\<lambda>m. if pn_id m = pn_id n then m\<lparr>pn_read_at := Some now\<rparr> else m) ns = ns"
      using Cons.prems True by (intro map_idI) (auto simp: image_iff)
    ultimately show ?thesis using r assms(3) by simp
  next
    case False
    then show ?thesis using Cons by auto
  qed
qed simp

lemma bell_ok_mark_all: "bell_ok b \<Longrightarrow> now \<noteq> [] \<Longrightarrow> list_all (\<lambda>n. pn_read_at n \<noteq> Some []) (nb_items b) \<Longrightarrow> bell_ok (handleMarkAllRead now b)"
  by (auto simp: bell_ok_def handleMarkAllRead_def unread_items_def is_unread_def or_default_def comp_def list_all_iff filter_empty_conv split: option.split)

definition op_ok :: "bell_op \<Rightarrow> bool" where
  "op_ok op = (case op of
     Bell_Refreshed (Some (items, n)) \<Rightarrow> distinct (map pn_id items) \<and> n = int (length (filter is_unread items)) \<and>
       list_all (\<lambda>n. pn_read_at n \<noteq> Some []) items
   | Bell_Refreshed None \<Rightarrow> True | Bell_Select now _ \<Rightarrow> now \<noteq> [] | Bell_Mark_All now \<Rightarrow> now \<noteq> [])"

definition bell_inv :: "bell \<Rightarrow> bool" where
  "bell_inv b \<longleftrightarrow> bell_ok b \<and> list_all (\<lambda>n. pn_read_at n \<noteq> Some []) (nb_items b)"

lemma bell_inv_step:
  assumes "bell_inv b" "op_ok op"
  shows "bell_inv (bell_step op b)"
proof (cases op)
  case (Bell_Refreshed answer)
  then show ?thesis using assms
    by (auto simp: op_ok_def bell_inv_def bell_ok_def bell_refresh_def unread_items_def split: option.splits)
next
  case (Bell_Select now i)
  show ?thesis
  proof (cases "i < length (nb_items b) \<and> is_unread (nb_items b ! i)")
    case True
    let ?n = "nb_items b ! i"
    have d: "distinct (map pn_id (nb_items b))" "now \<noteq> []" "nb_unreadCount b = int (length (filter is_unread (nb_items b)))"
      using assms Bell_Select by (simp_all add: bell_inv_def bell_ok_def op_ok_def unread_items_def)
    have "nb_unreadCount b - 1 = int (length (filter is_unread (map (\<lambda>m. if pn_id m = pn_id ?n then m\<lparr>pn_read_at := Some now\<rparr> else m) (nb_items b))))"
      using unread_after_mark [OF d(1) _ _ d(2), of ?n] True d(3) by (simp add: nth_mem)
    then have "bell_ok (handleMarkRead now (pn_id ?n) b)"
      using d(1) by (simp add: bell_ok_def handleMarkRead_def unread_items_def comp_def if_distrib cong: if_cong)
    then show ?thesis using True Bell_Select assms d(2)
      by (auto simp: bell_inv_def bell_select_def handleMarkRead_def list_all_iff)
  qed (use Bell_Select assms in \<open>auto simp: bell_select_def\<close>)
next
  case (Bell_Mark_All now)
  then show ?thesis using assms bell_ok_mark_all [of b now]
    by (auto simp: bell_inv_def op_ok_def handleMarkAllRead_def list_all_iff or_default_def split: option.split)
qed

text \<open>
  The badge is exact: as long as the server answers with distinct notifications and the number of the unread ones among them, and the clock gives a text, the number on the bell is at every moment the number of unread
  entries in the list, through any sequence of answers, failures, selections and marking everything as read, also before the server has confirmed any of it.
\<close>

theorem badge_exact:
  assumes "list_all op_ok ops"
  shows "nb_unreadCount (fold bell_step ops bell_init) = int (length (filter is_unread (nb_items (fold bell_step ops bell_init))))"
proof -
  have "bell_inv b \<Longrightarrow> bell_inv (fold bell_step ops b)" for b
    using assms by (induction ops arbitrary: b) (simp_all add: bell_inv_step)
  then have "bell_inv (fold bell_step ops bell_init)"
    by (simp add: bell_inv_def bell_ok_def bell_init_def unread_items_def)
  then show ?thesis by (simp add: bell_inv_def bell_ok_def unread_items_def)
qed

definition sample_notification :: "string \<Rightarrow> portal_notification" where
  "sample_notification i = \<lparr>pn_id = js_of i, pn_channel_id = js_of ''c'', pn_payload = js_of ''p'', pn_delivery = Delivered_Push,
     pn_created_at = js_of ''t'', pn_read_at = None\<rparr>"

theorem badge_exact_witness:
  "nb_unreadCount (fold bell_step [Bell_Refreshed (Some (map sample_notification [''1'', ''2'', ''3''], 3)), Bell_Select (js_of ''now'') 1,
     Bell_Select (js_of ''now'') 1, Bell_Refreshed None] bell_init) = 2"
proof -
  let ?ops = "[Bell_Refreshed (Some (map sample_notification [''1'', ''2'', ''3''], 3)), Bell_Select (js_of ''now'') 1,
     Bell_Select (js_of ''now'') 1, Bell_Refreshed None]"
  have "list_all op_ok ?ops" by (simp add: op_ok_def sample_notification_def is_unread_def)
  from badge_exact [OF this] show ?thesis
    by (simp add: sample_notification_def is_unread_def bell_refresh_def bell_select_def handleMarkRead_def)
qed

end
