(* ===== verification/Embed_Generator.thy ===== *)
theory Embed_Generator
  imports Vapid
begin

text \<open>
  The code generator of \<open>tenant-portal/src/modules/embed/pages/EmbedPage.tsx\<close>: the HTML for a button or a popup that a tenant pastes into a page, and what the script
  \<open>mio-vapid-subscription.js\<close> that it loads makes of it. Between them stands the browser's reading of a start tag: \<open>read_attributes\<close> is the part of it that concerns
  attributes, with the decoding of character references as an argument. The radius and the interval of the form are whole numbers here; the number inputs of the page also let a fraction through.
\<close>

section \<open>The form\<close>

datatype embed_mode = Button_Mode | Popup_Mode

record embed_form =
  ef_mode :: embed_mode
  ef_buttonText :: js_string
  ef_bgColor :: js_string
  ef_textColor :: js_string
  ef_radius :: nat
  ef_channels :: js_string
  ef_popupTitle :: js_string
  ef_popupDescription :: js_string
  ef_popupConfirmLabel :: js_string
  ef_popupTheme :: js_string
  ef_popupPosition :: js_string
  ef_repromptIntervalDays :: nat
  ef_apiUrl :: js_string
  ef_tenantId :: "js_string option"
  ef_token :: "js_string option"
  ef_vapidPublicKey :: "js_string option"

definition embed_form_init :: "js_string \<Rightarrow> embed_form" where
  "embed_form_init apiUrl =
     \<lparr>ef_mode = Button_Mode, ef_buttonText = js_of ''Enable notifications'', ef_bgColor = js_of ''#FF5E1A'', ef_textColor = js_of ''#FFFFFF'',
      ef_radius = 6, ef_channels = js_of ''*'', ef_popupTitle = js_of ''Enable notifications?'',
      ef_popupDescription = js_of ''Get notified about new activity, even when this tab is closed.'', ef_popupConfirmLabel = js_of ''Enable'',
      ef_popupTheme = js_of ''light'', ef_popupPosition = js_of ''bottom-right'', ef_repromptIntervalDays = 3, ef_apiUrl = apiUrl,
      ef_tenantId = None, ef_token = None, ef_vapidPublicKey = None\<rparr>"

section \<open>The generated HTML\<close>

definition MIO_VAPID_SUBSCRIPTION_CDN :: js_string where
  "MIO_VAPID_SUBSCRIPTION_CDN =
     js_of ''https://cdn.jsdelivr.net/gh/DalesJuvis/realtime-platform@v0.1.11/sdk-wordpress/assets/js/mio-vapid-subscription.min.js''"

text \<open>A missing credential is shown as three dots.\<close>

definition or_dots :: "js_string option \<Rightarrow> js_string" where
  "or_dots v = or_default v [0x2026]"

definition channels_or_all :: "embed_form \<Rightarrow> js_string" where
  "channels_or_all f = (if ef_channels f = [] then js_of ''*'' else ef_channels f)"

definition attribute :: "string \<Rightarrow> js_string \<Rightarrow> js_string" where
  "attribute name v = js_of name @ [61, 34] @ v @ [34]"

text \<open>Attributes on lines of their own, and the end of the tag.\<close>

fun attribute_lines :: "(string \<times> js_string) list \<Rightarrow> js_string" where
  "attribute_lines [] = [10, 62]"
| "attribute_lines ((name, v) # kvs) = [10, 32, 32] @ attribute name v @ attribute_lines kvs"

definition script_tag :: "(string \<times> js_string) list \<Rightarrow> js_string" where
  "script_tag kvs = js_of ''<script '' @ attribute ''src'' MIO_VAPID_SUBSCRIPTION_CDN @ attribute_lines kvs @ js_of ''</script>''"

definition credential_attributes :: "embed_form \<Rightarrow> (string \<times> js_string) list" where
  "credential_attributes f =
     [(''data-api-base-url'', ef_apiUrl f), (''data-tenant-id'', or_dots (ef_tenantId f)), (''data-token'', or_dots (ef_token f)),
      (''data-vapid-public-key'', or_dots (ef_vapidPublicKey f)), (''data-channels'', channels_or_all f)]"

definition button_style :: "embed_form \<Rightarrow> js_string" where
  "button_style f =
     js_of ''background:'' @ ef_bgColor f @ js_of '';color:'' @ ef_textColor f @ js_of '';border-radius:'' @ js_of_nat (ef_radius f) @
     js_of ''px;border:none;padding:10px 20px;font:inherit;font-weight:500;cursor:pointer;''"

definition buttonHtmlCode :: "embed_form \<Rightarrow> js_string" where
  "buttonHtmlCode f =
     script_tag (credential_attributes f @ [(''data-button'', js_of ''#enable-notifications'')]) @ [10] @
     js_of ''<button'' @ attribute_lines [(''id'', js_of ''enable-notifications''), (''style'', button_style f)] @ ef_buttonText f @ js_of ''</button>''"

definition popupHtmlCode :: "embed_form \<Rightarrow> js_string" where
  "popupHtmlCode f =
     script_tag ([(''data-mode'', js_of ''popup'')] @ credential_attributes f @
       [(''data-title'', ef_popupTitle f), (''data-description'', ef_popupDescription f), (''data-confirm-label'', ef_popupConfirmLabel f),
        (''data-accent-color'', ef_bgColor f), (''data-theme'', ef_popupTheme f), (''data-position'', ef_popupPosition f),
        (''data-reprompt-interval-days'', js_of_nat (ef_repromptIntervalDays f))])"

definition htmlCode :: "embed_form \<Rightarrow> js_string" where
  "htmlCode f = (if ef_mode f = Popup_Mode then popupHtmlCode f else buttonHtmlCode f)"

section \<open>How a browser reads it\<close>

definition tag_space :: "code_unit \<Rightarrow> bool" where
  "tag_space u \<longleftrightarrow> u = 9 \<or> u = 10 \<or> u = 12 \<or> u = 13 \<or> u = 32"

definition name_unit :: "code_unit \<Rightarrow> bool" where
  "name_unit u \<longleftrightarrow> \<not> tag_space u \<and> u \<noteq> 47 \<and> u \<noteq> 62 \<and> u \<noteq> 61"

text \<open>The value after an equals sign, quoted or not, and what follows it; \<open>None\<close> if the text ends inside.\<close>

definition read_value :: "js_string \<Rightarrow> (js_string \<times> js_string) option" where
  "read_value s =
     (case dropWhile tag_space s of
        [] \<Rightarrow> None
      | q # w \<Rightarrow>
          if q = 34 \<or> q = 39
          then (if q \<in> set w then Some (takeWhile (\<lambda>u. u \<noteq> q) w, tl (dropWhile (\<lambda>u. u \<noteq> q) w)) else None)
          else Some (takeWhile (\<lambda>u. \<not> tag_space u \<and> u \<noteq> 62) (q # w), dropWhile (\<lambda>u. \<not> tag_space u \<and> u \<noteq> 62) (q # w)))"

lemma read_value_shorter:
  assumes "read_value s = Some (v, r)"
  shows "length r \<le> length s"
proof -
  have l: "length (dropWhile P x) \<le> length x" for P and x :: js_string by (rule length_dropWhile_le)
  obtain q w where w: "dropWhile tag_space s = q # w" using assms by (cases "dropWhile tag_space s") (simp_all add: read_value_def)
  have s: "length (q # w) \<le> length s" using l [of tag_space s] by (simp only: w)
  have "r = tl (dropWhile (\<lambda>u. u \<noteq> q) w) \<or> r = dropWhile (\<lambda>u. \<not> tag_space u \<and> u \<noteq> 62) (q # w)"
    using assms unfolding read_value_def w by (auto simp del: dropWhile.simps split: if_splits)
  then show ?thesis
  proof
    assume "r = tl (dropWhile (\<lambda>u. u \<noteq> q) w)"
    then have "length r \<le> length w" using l [of "\<lambda>u. u \<noteq> q" w] by simp
    then show ?thesis using s by simp
  next
    assume "r = dropWhile (\<lambda>u. \<not> tag_space u \<and> u \<noteq> 62) (q # w)"
    then have "length r \<le> length (q # w)" using l by (simp only:)
    then show ?thesis using s by (rule order_trans)
  qed
qed

function read_attributes :: "(js_string \<Rightarrow> js_string) \<Rightarrow> js_string \<Rightarrow> (js_string \<times> js_string) list option" where
  "read_attributes decode [] = None"
| "read_attributes decode (c # cs) =
     (if tag_space c \<or> c = 47 then read_attributes decode cs
      else if c = 62 then Some []
      else (let name = c # takeWhile name_unit cs;
                rest = dropWhile name_unit cs in
            case dropWhile tag_space rest of
              e # v \<Rightarrow>
                if e = 61
                then (case read_value v of
                    None \<Rightarrow> None
                  | Some (x, r) \<Rightarrow> map_option (Cons (name, decode x)) (read_attributes decode r))
                else map_option (Cons (name, [])) (read_attributes decode (e # v))
            | [] \<Rightarrow> None))"
  by pat_completeness auto
termination
proof (relation "measure (\<lambda>(_, s). length s)", goal_cases)
  case (3 decode c cs name rest e v xr x r)
  have "length r \<le> length v" using 3 read_value_shorter by auto
  moreover have "length (e # v) \<le> length rest" using 3 length_dropWhile_le [of tag_space rest] by simp
  moreover have "length rest \<le> length cs" using 3 length_dropWhile_le by auto
  ultimately show ?case by simp
next
  case (4 decode c cs name rest e v)
  have "length (e # v) \<le> length rest" using 4 length_dropWhile_le [of tag_space rest] by simp
  moreover have "length rest \<le> length cs" using 4 length_dropWhile_le by auto
  ultimately show ?case by simp
qed simp_all

text \<open>The data attributes of the first tag of a text, under the names \<open>dataset\<close> gives them; the first of two attributes with one name counts.\<close>

definition dataset_of :: "(js_string \<times> js_string) list \<Rightarrow> vapid_dataset" where
  "dataset_of attrs =
     (let attr = (\<lambda>name. map_of attrs (js_of name)) in
      \<lparr>vd_apiBaseUrl = attr ''data-api-base-url'', vd_tenantId = attr ''data-tenant-id'', vd_token = attr ''data-token'',
       vd_vapidPublicKey = attr ''data-vapid-public-key'', vd_mode = attr ''data-mode'', vd_button = attr ''data-button'',
       vd_channels = attr ''data-channels'', vd_swUrl = attr ''data-sw-url'', vd_deviceLabel = attr ''data-device-label'',
       vd_title = attr ''data-title'', vd_description = attr ''data-description'', vd_confirmLabel = attr ''data-confirm-label'',
       vd_dismissAriaLabel = attr ''data-dismiss-aria-label'', vd_accentColor = attr ''data-accent-color'', vd_theme = attr ''data-theme'',
       vd_position = attr ''data-position'', vd_repromptIntervalDays = attr ''data-reprompt-interval-days''\<rparr>)"

definition read_script :: "(js_string \<Rightarrow> js_string) \<Rightarrow> js_string \<Rightarrow> vapid_dataset option" where
  "read_script decode html = map_option dataset_of (read_attributes decode (drop (length (js_of ''<script'')) html))"

section \<open>What is configured is what runs\<close>

lemma dropWhile_stop: "list_all P xs \<Longrightarrow> \<not> P y \<Longrightarrow> dropWhile P (xs @ y # ys) = y # ys"
  by (induction xs) auto

lemma takeWhile_stop: "list_all P xs \<Longrightarrow> \<not> P y \<Longrightarrow> takeWhile P (xs @ y # ys) = xs"
  by (induction xs) auto

lemma name_unit_marks: "\<not> name_unit 61" "\<not> tag_space 61" "\<not> tag_space 34" "tag_space 32" "tag_space 10" "\<not> tag_space 62"
  by (simp_all add: name_unit_def tag_space_def)

lemma read_value_quoted: "34 \<notin> set v \<Longrightarrow> read_value ([34] @ v @ [34] @ r) = Some (v, r)"
proof -
  assume "34 \<notin> set v"
  then have "list_all (\<lambda>u. u \<noteq> 34) v" by (auto simp: list_all_iff)
  then show ?thesis by (simp add: read_value_def name_unit_marks takeWhile_stop dropWhile_stop)
qed

definition attribute_name :: "string \<Rightarrow> bool" where
  "attribute_name name \<longleftrightarrow> name \<noteq> [] \<and> list_all name_unit (js_of name)"

lemma js_of_Nil_iff: "js_of s = [] \<longleftrightarrow> s = []"
  by (cases s) simp_all

lemma read_attribute:
  assumes "attribute_name name" "34 \<notin> set v"
  shows "read_attributes decode (attribute name v @ r) = map_option (Cons (js_of name, decode v)) (read_attributes decode r)"
proof -
  obtain c cs where c: "js_of name = c # cs" using assms(1) js_of_Nil_iff [of name] by (cases "js_of name") (auto simp: attribute_name_def)
  have u: "name_unit c" "list_all name_unit cs" using assms(1) c by (simp_all add: attribute_name_def)
  then have "\<not> (tag_space c \<or> c = 47)" "c \<noteq> 62" by (auto simp: name_unit_def)
  moreover have "takeWhile name_unit (cs @ 61 # 34 # v @ 34 # r) = cs" "dropWhile name_unit (cs @ 61 # 34 # v @ 34 # r) = 61 # 34 # v @ 34 # r"
    using u(2) name_unit_marks(1) by (simp_all only: takeWhile_stop dropWhile_stop not_False_eq_True)
  moreover have "read_value (34 # v @ 34 # r) = Some (v, r)" using read_value_quoted [OF assms(2), of r] by simp
  ultimately have "read_attributes decode (c # cs @ 61 # 34 # v @ 34 # r) = map_option (Cons (c # cs, decode v)) (read_attributes decode r)"
    using read_attributes.simps(2) [of decode c "cs @ 61 # 34 # v @ 34 # r"] by (simp add: name_unit_marks Let_def del: read_attributes.simps)
  then show ?thesis by (simp only: attribute_def c append_Cons append_Nil append_assoc)
qed

lemma read_attributes_space: "tag_space c \<Longrightarrow> read_attributes decode (c # s) = read_attributes decode s"
  by simp

declare read_attributes.simps [simp del]

lemma read_attribute_lines:
  assumes "list_all (\<lambda>(name, v). attribute_name name \<and> 34 \<notin> set v) kvs"
  shows "read_attributes decode (attribute_lines kvs @ r) = Some (map (\<lambda>(name, v). (js_of name, decode v)) kvs)"
  using assms
proof (induction kvs)
  case Nil
  then show ?case by (simp add: read_attributes.simps name_unit_marks)
next
  case (Cons kv kvs)
  then show ?case
    by (cases kv) (simp add: read_attribute read_attributes_space name_unit_marks del: js_of_simps)
qed

lemma attribute_names:
  "list_all attribute_name [''src'', ''data-mode'', ''data-api-base-url'', ''data-tenant-id'', ''data-token'', ''data-vapid-public-key'', ''data-channels'',
     ''data-title'', ''data-description'', ''data-confirm-label'', ''data-accent-color'', ''data-theme'', ''data-position'', ''data-reprompt-interval-days'',
     ''data-button'', ''onload'']"
  by (simp add: attribute_name_def name_unit_def tag_space_def)

lemma clean_CDN: "34 \<notin> set MIO_VAPID_SUBSCRIPTION_CDN" "38 \<notin> set MIO_VAPID_SUBSCRIPTION_CDN"
  by (simp_all add: MIO_VAPID_SUBSCRIPTION_CDN_def)

lemma read_script_tag:
  assumes "list_all (\<lambda>(name, v). attribute_name name \<and> 34 \<notin> set v) kvs"
  shows "read_attributes decode (drop (length (js_of ''<script'')) (script_tag kvs @ rest)) =
    Some ((js_of ''src'', decode MIO_VAPID_SUBSCRIPTION_CDN) # map (\<lambda>(name, v). (js_of name, decode v)) kvs)"
proof -
  have d: "drop (length (js_of ''<script'')) (script_tag kvs @ rest) =
      32 # attribute ''src'' MIO_VAPID_SUBSCRIPTION_CDN @ attribute_lines kvs @ js_of ''</script>'' @ rest"
    by (simp add: script_tag_def)
  have "attribute_name ''src''" using attribute_names by (simp del: js_of_simps)
  then show ?thesis
    unfolding d using clean_CDN(1) read_attribute_lines [OF assms, of decode "js_of ''</script>'' @ rest"]
    by (simp add: read_attributes_space name_unit_marks read_attribute del: js_of_simps)
qed

text \<open>A text that a quoted attribute value holds as it is.\<close>

definition clean :: "js_string \<Rightarrow> bool" where
  "clean v \<longleftrightarrow> 34 \<notin> set v \<and> 38 \<notin> set v"

definition form_clean :: "embed_form \<Rightarrow> bool" where
  "form_clean f \<longleftrightarrow> list_all clean
     [ef_apiUrl f, or_dots (ef_tenantId f), or_dots (ef_token f), or_dots (ef_vapidPublicKey f), ef_channels f,
      ef_popupTitle f, ef_popupDescription f, ef_popupConfirmLabel f, ef_bgColor f, ef_popupTheme f, ef_popupPosition f] \<and>
     ef_apiUrl f \<noteq> [] \<and> ef_tenantId f \<noteq> Some [] \<and> ef_token f \<noteq> Some [] \<and> ef_vapidPublicKey f \<noteq> Some []"

definition configured_options :: "embed_form \<Rightarrow> vapid_options" where
  "configured_options f =
     \<lparr>po_apiBaseUrl = ef_apiUrl f, po_token = or_dots (ef_token f), po_tenantId = or_dots (ef_tenantId f),
      po_vapidPublicKey = or_dots (ef_vapidPublicKey f), po_channels = Some (map js_trim (js_split 44 (channels_or_all f))),
      po_swUrl = Some (js_of ''/sw.js''), po_deviceLabel = None,
      vo_title = or_undefined (Some (ef_popupTitle f)), vo_description = or_undefined (Some (ef_popupDescription f)),
      vo_confirmLabel = or_undefined (Some (ef_popupConfirmLabel f)), vo_dismissAriaLabel = None,
      vo_accentColor = or_undefined (Some (ef_bgColor f)), vo_theme = or_undefined (Some (ef_popupTheme f)),
      vo_position = or_undefined (Some (ef_popupPosition f)),
      vo_repromptIntervalDays = Some (js_Number (js_of_nat (ef_repromptIntervalDays f)))\<rparr>"

definition popup_attributes :: "embed_form \<Rightarrow> (string \<times> js_string) list" where
  "popup_attributes f =
     [(''data-mode'', js_of ''popup'')] @ credential_attributes f @
       [(''data-title'', ef_popupTitle f), (''data-description'', ef_popupDescription f), (''data-confirm-label'', ef_popupConfirmLabel f),
        (''data-accent-color'', ef_bgColor f), (''data-theme'', ef_popupTheme f), (''data-position'', ef_popupPosition f),
        (''data-reprompt-interval-days'', js_of_nat (ef_repromptIntervalDays f))]"

lemma clean_number: "clean (js_of_nat n)"
proof -
  have "\<not> is_digit 34" "\<not> is_digit 38" by (simp_all add: is_digit_def)
  then show ?thesis using js_of_nat_digits [of _ n] by (auto simp: clean_def)
qed

lemma popup_attributes_clean:
  assumes "form_clean f"
  shows "list_all (\<lambda>(name, v). attribute_name name \<and> clean v) (popup_attributes f)"
proof -
  have "clean (js_of ''popup'')" "clean (js_of ''*'')" by code_simp+
  then show ?thesis using assms attribute_names
    by (simp add: popup_attributes_def credential_attributes_def channels_or_all_def form_clean_def clean_number)
qed

lemma popup_script_read:
  assumes "\<And>v. 38 \<notin> set v \<Longrightarrow> decode v = v" "form_clean f"
  shows "read_script decode (popupHtmlCode f) =
    Some (dataset_of ((js_of ''src'', MIO_VAPID_SUBSCRIPTION_CDN) # map (\<lambda>(name, v). (js_of name, v)) (popup_attributes f)))"
proof -
  note c = popup_attributes_clean [OF assms(2)]
  then have q: "list_all (\<lambda>(name, v). attribute_name name \<and> 34 \<notin> set v) (popup_attributes f)" by (auto simp: list_all_iff clean_def)
  have "map (\<lambda>(name, v). (js_of name, decode v)) (popup_attributes f) = map (\<lambda>(name, v). (js_of name, v)) (popup_attributes f)"
    using c assms(1) by (auto simp: list_all_iff clean_def)
  moreover have "decode MIO_VAPID_SUBSCRIPTION_CDN = MIO_VAPID_SUBSCRIPTION_CDN" by (rule assms(1)) (rule clean_CDN(2))
  ultimately show ?thesis
    using read_script_tag [OF q, of decode "[]"] unfolding read_script_def popupHtmlCode_def popup_attributes_def [symmetric] by (simp only: append_Nil2 option.map)
qed

lemma popup_dataset_options:
  assumes "form_clean f"
  shows "vapid_autoInit True loading found
      (dataset_of ((js_of ''src'', MIO_VAPID_SUBSCRIPTION_CDN) # map (\<lambda>(name, v). (js_of name, v)) (popup_attributes f))) =
    Some (loading, Show_Popup (configured_options f))"
proof -
  have "or_dots v \<noteq> [] \<longleftrightarrow> v \<noteq> Some []" for v by (auto simp: or_dots_def or_default_def split: option.split)
  moreover have "channels_or_all f \<noteq> []" by (simp add: channels_or_all_def)
  ultimately show ?thesis using assms
    by (simp add: dataset_of_def Let_def popup_attributes_def credential_attributes_def vapid_autoInit_def vapid_init_def dataset_options_def
        configured_options_def or_undefined_def or_string_def split_channels_def form_clean_def)
qed

text \<open>
  C26. What a tenant configures is what runs on the tenant's site. For fields without double quotes and ampersands, a browser that reads the generated script tag makes the script show the popup with
  exactly the configured options: credentials, the channels split at commas and trimmed, the texts, the colour, the theme, the position and the number of days.
\<close>

theorem popup_code_configures:
  assumes "\<And>v. 38 \<notin> set v \<Longrightarrow> decode v = v" "form_clean f" "ef_repromptIntervalDays f < 2 ^ 53"
  shows "(case read_script decode (popupHtmlCode f) of
      None \<Rightarrow> False
    | Some ds \<Rightarrow> vapid_autoInit True loading found ds = Some (loading, Show_Popup (configured_options f))) \<and>
    map_option js_integer (vo_repromptIntervalDays (configured_options f)) = Some (Some (int (ef_repromptIntervalDays f)))"
  using popup_script_read [OF assms(1,2)] popup_dataset_options [OF assms(2), of loading found] js_Number_js_of_nat [OF assms(3)]
  by (simp add: configured_options_def)

definition sample_form :: embed_form where
  "sample_form = (embed_form_init (js_of ''https://h''))\<lparr>ef_mode := Popup_Mode, ef_tenantId := Some (js_of ''t''), ef_token := Some (js_of ''k''),
     ef_vapidPublicKey := Some (js_of ''v''), ef_channels := js_of ''orders:*, news''\<rparr>"

theorem popup_code_configures_witness:
  "case read_script (\<lambda>v. v) (htmlCode sample_form) of
     None \<Rightarrow> False
   | Some ds \<Rightarrow> vapid_autoInit True False (\<lambda>_. False) ds = Some (False, Show_Popup (configured_options sample_form))"
proof -
  have "form_clean sample_form" by code_simp
  then have "(case read_script (\<lambda>v. v) (popupHtmlCode sample_form) of
      None \<Rightarrow> False
    | Some ds \<Rightarrow> vapid_autoInit True False (\<lambda>_. False) ds = Some (False, Show_Popup (configured_options sample_form)))"
    using popup_code_configures [of "\<lambda>v. v" sample_form False "\<lambda>_. False"]
    by (simp add: sample_form_def embed_form_init_def)
  moreover have "htmlCode sample_form = popupHtmlCode sample_form" by (simp add: htmlCode_def sample_form_def)
  ultimately show ?thesis by simp
qed

section \<open>A quote in a field\<close>

lemma read_attribute_lines_prefix:
  assumes "list_all (\<lambda>(name, v). attribute_name name \<and> 34 \<notin> set v) kvs"
  shows "read_attributes decode (attribute_lines (kvs @ others) @ r) =
    map_option (append (map (\<lambda>(name, v). (js_of name, decode v)) kvs)) (read_attributes decode (attribute_lines others @ r))"
  using assms
proof (induction kvs)
  case Nil
  then show ?case by (simp add: option.map_id [unfolded id_def])
next
  case (Cons kv kvs)
  then show ?case
    by (cases kv) (simp add: read_attribute read_attributes_space name_unit_marks option.map_comp comp_def del: js_of_simps)
qed

text \<open>A quote inside a value ends it: the value is what stands before, and the browser goes on reading attributes in the rest of the field.\<close>

lemma read_broken_attribute:
  assumes "list_all (\<lambda>(name, v). attribute_name name \<and> 34 \<notin> set v) kvs" "attribute_name name" "34 \<notin> set a"
  shows "read_attributes decode (attribute_lines (kvs @ (name, a @ 34 # b) # others) @ r) =
    map_option (\<lambda>rest. map (\<lambda>(name, v). (js_of name, decode v)) kvs @ (js_of name, decode a) # rest)
      (read_attributes decode (b @ [34] @ attribute_lines others @ r))"
proof -
  have "attribute name (a @ 34 # b) @ w = attribute name a @ b @ [34] @ w" for w by (simp add: attribute_def)
  then show ?thesis
    using read_attribute_lines_prefix [OF assms(1), of decode "(name, a @ 34 # b) # others" r] assms(2,3)
    by (simp add: read_attribute read_attributes_space name_unit_marks option.map_comp comp_def del: js_of_simps)
qed

text \<open>The attributes before the title.\<close>

definition before_title :: "embed_form \<Rightarrow> (string \<times> js_string) list" where
  "before_title f = (''data-mode'', js_of ''popup'') # credential_attributes f"

text \<open>
  C30. The generator writes the fields into the tag as they are. Of a title \<open>a" n="c\<close> the script on the tenant's site shows \<open>a\<close> only, and the visitor's browser reads one more
  attribute \<open>n\<close> with the value \<open>c\<close> on the script tag, say an \<open>onload\<close> handler; all the other attributes are as configured.
\<close>

theorem popup_title_injects:
  assumes "form_clean (f\<lparr>ef_popupTitle := a\<rparr>)" "ef_popupTitle f = a @ [34, 32] @ js_of n @ [61, 34] @ c"
    and "attribute_name n" "34 \<notin> set c"
  shows "\<exists>others.
    read_attributes decode (drop (length (js_of ''<script'')) (popupHtmlCode (f\<lparr>ef_popupTitle := a\<rparr>))) =
      Some (map (\<lambda>(name, v). (js_of name, decode v)) ((''src'', MIO_VAPID_SUBSCRIPTION_CDN) # before_title f @ (''data-title'', a) # others)) \<and>
    read_attributes decode (drop (length (js_of ''<script'')) (popupHtmlCode f)) =
      Some (map (\<lambda>(name, v). (js_of name, decode v)) ((''src'', MIO_VAPID_SUBSCRIPTION_CDN) # before_title f @ (''data-title'', a) # (n, c) # others))"
proof -
  let ?g = "f\<lparr>ef_popupTitle := a\<rparr>"
  obtain others where o: "popup_attributes ?g = before_title ?g @ (''data-title'', a) # others"
    and m: "popup_attributes f = before_title f @ (''data-title'', a @ 34 # 32 # js_of n @ 61 # 34 # c) # others"
    using assms(2) by (simp add: popup_attributes_def before_title_def credential_attributes_def channels_or_all_def)
  have g: "before_title ?g = before_title f" by (simp add: before_title_def credential_attributes_def channels_or_all_def)
  have "list_all (\<lambda>(name, v). attribute_name name \<and> 34 \<notin> set v) (popup_attributes ?g)"
    using popup_attributes_clean [OF assms(1)] by (auto simp: list_all_iff clean_def)
  then have q: "list_all (\<lambda>(name, v). attribute_name name \<and> 34 \<notin> set v) (before_title f)" "34 \<notin> set a"
      "list_all (\<lambda>(name, v). attribute_name name \<and> 34 \<notin> set v) others" "attribute_name ''data-title''"
    unfolding o g using attribute_names by simp_all
  have p: "list_all (\<lambda>(name, v). attribute_name name \<and> 34 \<notin> set v) (before_title f @ (''data-title'', a) # others)" using q by simp
  have d: "drop (length (js_of ''<script'')) (popupHtmlCode h) =
      32 # attribute ''src'' MIO_VAPID_SUBSCRIPTION_CDN @ attribute_lines (popup_attributes h) @ js_of ''</script>''" for h
    by (simp add: popupHtmlCode_def popup_attributes_def script_tag_def)
  have src: "attribute_name ''src''" using attribute_names by (simp del: js_of_simps)
  have first: "read_attributes decode (32 # attribute ''src'' MIO_VAPID_SUBSCRIPTION_CDN @ w) =
      map_option (Cons (js_of ''src'', decode MIO_VAPID_SUBSCRIPTION_CDN)) (read_attributes decode w)" for w
    by (simp only: read_attributes_space name_unit_marks(4) read_attribute [OF src clean_CDN(1)])
  have spoiled: "read_attributes decode ((32 # js_of n @ 61 # 34 # c) @ [34] @ w) =
      map_option (Cons (js_of n, decode c)) (read_attributes decode w)" for w
    using read_attribute [OF assms(3,4), of decode w] by (simp add: read_attributes_space name_unit_marks attribute_def)
  show ?thesis
  proof (intro exI [of _ others] conjI)
    show "read_attributes decode (drop (length (js_of ''<script'')) (popupHtmlCode ?g)) =
        Some (map (\<lambda>(name, v). (js_of name, decode v)) ((''src'', MIO_VAPID_SUBSCRIPTION_CDN) # before_title f @ (''data-title'', a) # others))"
      unfolding d first o g read_attribute_lines [OF p] by simp
    show "read_attributes decode (drop (length (js_of ''<script'')) (popupHtmlCode f)) =
        Some (map (\<lambda>(name, v). (js_of name, decode v)) ((''src'', MIO_VAPID_SUBSCRIPTION_CDN) # before_title f @ (''data-title'', a) # (n, c) # others))"
      unfolding d first m read_broken_attribute [OF q(1,4,2)] spoiled read_attribute_lines [OF q(3)] by simp
  qed
qed

text \<open>A title that makes the visitor's browser run a handler.\<close>

definition quoting_form :: embed_form where
  "quoting_form = sample_form\<lparr>ef_popupTitle := js_of ''Hi'' @ [34, 32] @ js_of ''onload'' @ [61, 34] @ js_of ''run()''\<rparr>"

theorem popup_title_injects_witness:
  "\<exists>others. read_attributes (\<lambda>v. v) (drop (length (js_of ''<script'')) (popupHtmlCode quoting_form)) =
     Some (map (\<lambda>(name, v). (js_of name, v))
       ((''src'', MIO_VAPID_SUBSCRIPTION_CDN) # before_title quoting_form @ (''data-title'', js_of ''Hi'') # (''onload'', js_of ''run()'') # others))"
proof -
  have "form_clean (quoting_form\<lparr>ef_popupTitle := js_of ''Hi''\<rparr>)" by code_simp
  moreover have "ef_popupTitle quoting_form = js_of ''Hi'' @ [34, 32] @ js_of ''onload'' @ [61, 34] @ js_of ''run()''" by (simp add: quoting_form_def)
  moreover have "attribute_name ''onload''" "34 \<notin> set (js_of ''run()'')" using attribute_names by simp_all
  ultimately show ?thesis using popup_title_injects [of "js_of ''Hi''" quoting_form "''onload''" "js_of ''run()''" "\<lambda>v. v"] by blast
qed

end
