(* ===== verification/Sandbox_Session.thy ===== *)
theory Sandbox_Session
  imports Reconnection Push_Actions
begin

text \<open>
  The sandbox session of the admin console (\<open>admin/src/modules/sandbox/pages/SandboxSessionPage.tsx\<close> and \<open>mintTenantToken.action.ts\<close>): a page that joins the channels of a live
  session with a client of its own. The page holds a \<open>RealtimeClient\<close>; what the client emits and which of its handlers it calls reaches the page through the client's log.
\<close>

section \<open>The page\<close>

datatype sandbox_status = Sb_Connecting | Sb_Connected | Sb_Disconnected

record sandbox_message =
  sm_id :: js_string
  sm_channelId :: js_string
  sm_payload :: js_string
  sm_receivedAt :: int
  sm_mine :: bool

record sandbox_page =
  sp_status :: sandbox_status
  sp_messages :: "sandbox_message list"
  sp_channel :: js_string
  sp_draft :: js_string
  sp_client :: "client option"

text \<open>The channels of the address, and the state at first.\<close>

definition sandbox_channels :: "js_string option \<Rightarrow> js_string list" where
  "sandbox_channels param = filter (\<lambda>c. c \<noteq> []) (js_split 44 (or_default param []))"

definition sandbox_init :: "js_string list \<Rightarrow> sandbox_page" where
  "sandbox_init channels =
     \<lparr>sp_status = Sb_Connecting, sp_messages = [], sp_channel = (case channels of [] \<Rightarrow> [] | c # _ \<Rightarrow> c), sp_draft = [], sp_client = None\<rparr>"

section \<open>Joining\<close>

definition WS_PORT :: nat where "WS_PORT = 8080"

text \<open>\<open>hostname\<close> is \<open>new URL(url).hostname\<close>; \<open>None\<close> stands for an address the constructor rejects.\<close>

definition deriveWsHost :: "(js_string \<Rightarrow> js_string option) \<Rightarrow> js_string \<Rightarrow> js_string" where
  "deriveWsHost hostname adminApiUrl = (case hostname adminApiUrl of Some h \<Rightarrow> h | None \<Rightarrow> js_of ''localhost'')"

definition sandbox_wsUrl :: "(js_string \<Rightarrow> js_string option) \<Rightarrow> js_string \<Rightarrow> js_string" where
  "sandbox_wsUrl hostname apiUrl =
     (if starts_with (js_of ''https:'') apiUrl then js_of ''wss'' else js_of ''ws'') @ js_of ''://'' @ deriveWsHost hostname apiUrl @
     js_of '':'' @ js_of_nat WS_PORT @ js_of ''/ws''"

text \<open>The answer of the server; only a string counts as a token.\<close>

definition mintTenantTokenAction :: "axios_outcome \<Rightarrow> api_error + js_string option" where
  "mintTenantTokenAction outcome = map_sum (\<lambda>e. e)
     (\<lambda>j. case jfield (js_of ''token'') j of Some (JStr s) \<Rightarrow> Some s | _ \<Rightarrow> None) (response_object (apiRequest outcome))"

definition sandbox_config :: "js_string \<Rightarrow> js_string \<Rightarrow> js_string option \<Rightarrow> client_config" where
  "sandbox_config wsUrl tenantId token =
     \<lparr>cc_wsUrl = wsUrl, cc_tenantId = tenantId, cc_token = token, cc_getToken = False, cc_heartbeatIntervalMs = None, cc_reconnect = None,
      cc_reconnectBaseDelayMs = None, cc_reconnectMaxDelayMs = None, cc_maxMessageBytes = None, cc_webSocketImpl = False\<rparr>"

text \<open>The listeners are numbered 1, 2 and 3; the handler of each channel is a closure of its own, numbered by its place in the list.\<close>

definition sandbox_client :: "client_config \<Rightarrow> client" where
  "sandbox_client config = (new_client config)\<lparr>rc_listeners := on_event EvError 3 (on_event EvClose 2 (on_event EvOpen 1 []))\<rparr>"

definition sandbox_subscribe :: "js_string list \<Rightarrow> operation" where
  "sandbox_subscribe channels = for_each (\<lambda>(i, ch). subscribe ch i) (zip [0..<length channels] channels)"

definition join_client :: "platform \<Rightarrow> js_string list \<Rightarrow> operation" where
  "join_client pf channels =
     and_then (sandbox_subscribe channels)
     (and_then (\<lambda>c. (None, connect pf c))
     (for_each (\<lambda>ch. replay ch 0) channels))"

datatype sandbox_toast = Connection_Error client_error | Join_Failed api_error | Join_Threw client_error

text \<open>
  The effect: without a tenant, a channel or an address of the server it returns at once; otherwise \<open>join\<close> after its \<open>await\<close>. \<open>cancelled\<close> is set when
  the page has gone meanwhile.
\<close>

definition sandbox_joined ::
    "(js_string \<Rightarrow> js_string option) \<Rightarrow> platform \<Rightarrow> js_string option \<Rightarrow> js_string \<Rightarrow> js_string list \<Rightarrow> bool \<Rightarrow> axios_outcome \<Rightarrow> sandbox_page \<Rightarrow>
     sandbox_toast option \<times> sandbox_page" where
  "sandbox_joined hostname pf apiUrl tenantId channels cancelled outcome p =
     (let url = or_default apiUrl [] in
      if tenantId = [] \<or> channels = [] \<or> url = [] then (None, p)
      else (case mintTenantTokenAction outcome of
        Inl e \<Rightarrow> (if cancelled then None else Some (Join_Failed e), p)
      | Inr token \<Rightarrow>
          if cancelled then (None, p)
          else (case join_client pf channels (sandbox_client (sandbox_config (sandbox_wsUrl hostname url) tenantId token)) of
              (None, c) \<Rightarrow> (None, p\<lparr>sp_client := Some c\<rparr>)
            | (Some e, c) \<Rightarrow> (Some (Join_Threw e), p\<lparr>sp_client := Some c\<rparr>))))"

section \<open>While it is open\<close>

text \<open>What the client reports; \<open>mkid\<close> gives the identity of an entry from the length of the list.\<close>

fun sandbox_effect :: "(nat \<Rightarrow> js_string) \<Rightarrow> effect \<Rightarrow> sandbox_page \<Rightarrow> sandbox_page" where
  "sandbox_effect mkid (Emitted ev ls) p =
     (if 1 \<in> set ls then p\<lparr>sp_status := Sb_Connected\<rparr> else if 2 \<in> set ls then p\<lparr>sp_status := Sb_Disconnected\<rparr> else p)"
| "sandbox_effect mkid (Handled h m) p =
     p\<lparr>sp_messages := sp_messages p @ [\<lparr>sm_id = mkid (length (sp_messages p)), sm_channelId = rm_channelId m, sm_payload = rm_payload m,
        sm_receivedAt = rm_receivedAt m, sm_mine = False\<rparr>]\<rparr>"
| "sandbox_effect mkid _ p = p"

definition sandbox_event :: "(nat \<Rightarrow> js_string) \<Rightarrow> input \<Rightarrow> sandbox_page \<Rightarrow> sandbox_page" where
  "sandbox_event mkid i p =
     (case sp_client p of
        None \<Rightarrow> p
      | Some c \<Rightarrow>
          (let c' = snd (handle i c) in
           fold (sandbox_effect mkid) (drop (length (rc_log c)) (rc_log c')) (p\<lparr>sp_client := Some c'\<rparr>)))"

text \<open>The send button, and the form; what \<open>publish\<close> throws leaves the handler.\<close>

definition sandbox_disabled :: "sandbox_page \<Rightarrow> bool" where
  "sandbox_disabled p \<longleftrightarrow> sp_status p \<noteq> Sb_Connected \<or> js_trim (sp_draft p) = []"

definition handleSend :: "(nat \<Rightarrow> rat) \<Rightarrow> nat \<Rightarrow> sandbox_page \<Rightarrow> client_error option \<times> sandbox_page" where
  "handleSend rnd now p =
     (let text = js_trim (sp_draft p) in
      case sp_client p of
        None \<Rightarrow> (None, p)
      | Some c \<Rightarrow>
          if text = [] \<or> sp_channel p = [] then (None, p)
          else (case publish rnd (sp_channel p) text c of
              (Some e, c') \<Rightarrow> (Some e, p\<lparr>sp_client := Some c'\<rparr>)
            | (None, c') \<Rightarrow> (None, p\<lparr>sp_client := Some c', sp_messages := sp_messages p @
                [\<lparr>sm_id = js_of ''local-'' @ js_of_nat now, sm_channelId = sp_channel p, sm_payload = text, sm_receivedAt = int now, sm_mine = True\<rparr>],
                sp_draft := []\<rparr>)))"

text \<open>The cleanup of the effect, when the page goes.\<close>

definition sandbox_leave :: "sandbox_page \<Rightarrow> sandbox_page" where
  "sandbox_leave p = p\<lparr>sp_client := None\<rparr>"

definition sandbox_left_client :: "sandbox_page \<Rightarrow> client option" where
  "sandbox_left_client p = map_option disconnect (sp_client p)"

section \<open>The client of the page\<close>

definition sandbox_subs :: "js_string list \<Rightarrow> (js_string, handler list) jmap" where
  "sandbox_subs channels =
     fold (\<lambda>(i, ch) m. jset ch (set_add i (case jget m ch of Some s \<Rightarrow> s | None \<Rightarrow> [])) m) (zip [0..<length channels] channels) []"

lemma sandbox_subs_snoc:
  "sandbox_subs (channels @ [ch]) =
     jset ch (set_add (length channels) (case jget (sandbox_subs channels) ch of Some s \<Rightarrow> s | None \<Rightarrow> [])) (sandbox_subs channels)"
  by (simp add: sandbox_subs_def)

lemma jget_sandbox_subs:
  "jget (sandbox_subs channels) ch =
     (if ch \<in> set channels then Some (filter (\<lambda>i. channels ! i = ch) [0..<length channels]) else None)"
proof (induction channels rule: rev_induct)
  case Nil
  then show ?case by (simp add: sandbox_subs_def)
next
  case (snoc c cs)
  have "filter (\<lambda>i. (cs @ [c]) ! i = ch) [0..<length cs] = filter (\<lambda>i. cs ! i = ch) [0..<length cs]"
    by (rule filter_cong) (simp_all add: nth_append)
  moreover have "filter (\<lambda>i. cs ! i = ch) [0..<length cs] = []" if "ch \<notin> set cs" using that by (auto simp: filter_empty_conv)
  ultimately show ?case using snoc.IH by (cases "ch = c") (auto simp: sandbox_subs_snoc jmap_simps set_add_def)
qed

lemma jkeys_sandbox_subs: "jkeys (sandbox_subs channels) = fold set_add channels []"
proof (induction channels rule: rev_induct)
  case Nil
  then show ?case by (simp add: sandbox_subs_def)
next
  case (snoc c cs)
  then show ?case by (simp add: sandbox_subs_snoc jset_def jkeys_def jkeys_update set_add_def image_set)
qed

lemma sandbox_subscribe_eq:
  "rc_ws c = None \<Longrightarrow> for_each (\<lambda>(i, ch). subscribe ch i) zs c =
     (None, c\<lparr>rc_subscriptions := fold (\<lambda>(i, ch) m. jset ch (set_add i (case jget m ch of Some s \<Rightarrow> s | None \<Rightarrow> [])) m) zs (rc_subscriptions c)\<rparr>)"
  by (induction zs arbitrary: c) (auto simp: skip_def and_then_def subscribe_def Let_def ws_open_def)

lemma join_client_eq:
  "join_client pf channels (sandbox_client cfg) =
     (None, (sandbox_client cfg)\<lparr>rc_subscriptions := sandbox_subs channels, rc_closedByUser := False,
        rc_wsImplPromise := Some (resolveWebSocketImpl (cc_webSocketImpl cfg) (pf_global pf) (pf_ws pf)),
        rc_attempts := [(0, Await_Impl)], rc_next_attempt := 1,
        rc_pendingSends := map (\<lambda>ch. (Replay, ch, js_of_nat 0)) channels\<rparr>)"
  if "\<not> cc_getToken cfg"
  using that
  by (simp add: join_client_def and_then_def sandbox_subscribe_def sandbox_subscribe_eq sandbox_client_def new_client_def connect_def openSocket_def
      await_impl_def resolve_config_def Let_def replay_def for_each_queue ws_open_def sandbox_subs_def)

section \<open>Histories of the page\<close>

text \<open>What the runtime may do to the client, without the calls of the page.\<close>

fun runtime_input :: "input \<Rightarrow> bool" where
  "runtime_input (In_Impl _ _) = True"
| "runtime_input (In_Open _) = True"
| "runtime_input (In_Message _ _ _ _ _) = True"
| "runtime_input (In_Error _) = True"
| "runtime_input (In_Close _ _ _ _) = True"
| "runtime_input (In_Tick _) = True"
| "runtime_input (In_Timeout _ _) = True"
| "runtime_input _ = False"

datatype sandbox_op =
    Sb_Runtime input
  | Sb_Send "nat \<Rightarrow> rat" nat
  | Sb_Draft js_string
  | Sb_Select js_string

fun sandbox_step :: "(nat \<Rightarrow> js_string) \<Rightarrow> js_string list \<Rightarrow> sandbox_op \<Rightarrow> sandbox_page \<Rightarrow> sandbox_page" where
  "sandbox_step mkid channels (Sb_Runtime i) p =
     (if runtime_input i \<and> (case sp_client p of None \<Rightarrow> False | Some c \<Rightarrow> enabled i c) then sandbox_event mkid i p else p)"
| "sandbox_step mkid channels (Sb_Send rnd now) p = (if sandbox_disabled p then p else snd (handleSend rnd now p))"
| "sandbox_step mkid channels (Sb_Draft d) p = p\<lparr>sp_draft := d\<rparr>"
| "sandbox_step mkid channels (Sb_Select ch) p = (if ch \<in> set channels then p\<lparr>sp_channel := ch\<rparr> else p)"

section \<open>The handshake of a session\<close>

text \<open>The joined client when its socket has been constructed.\<close>

definition sandbox_connecting :: "platform \<Rightarrow> js_string list \<Rightarrow> client_config \<Rightarrow> client" where
  "sandbox_connecting pf channels cfg = snd (handle (In_Impl True 0) (snd (join_client pf channels (sandbox_client cfg))))"

lemma sandbox_connecting_eq:
  assumes "cfg = sandbox_config url tenantId (Some token)" "token \<noteq> []" "pf_global pf \<or> pf_ws pf"
  shows "sandbox_connecting pf channels cfg = (sandbox_client cfg)\<lparr>rc_subscriptions := sandbox_subs channels, rc_closedByUser := False,
      rc_wsImplPromise := Some (resolveWebSocketImpl False (pf_global pf) (pf_ws pf)), rc_next_attempt := 1,
      rc_pendingSends := map (\<lambda>ch. (Replay, ch, js_of_nat 0)) channels, rc_ws := Some 0,
      rc_sockets := [\<lparr>sk_readyState = Connecting, sk_url = url, sk_token = token\<rparr>]\<rparr>"
proof -
  have g: "\<not> cc_getToken cfg" "cc_webSocketImpl cfg = False" by (simp_all add: assms(1) sandbox_config_def)
  obtain impl where impl: "resolveWebSocketImpl False (pf_global pf) (pf_ws pf) = Inr impl"
    using assms(3) by (cases "pf_global pf") (auto simp: resolveWebSocketImpl_def)
  show ?thesis
    unfolding sandbox_connecting_def join_client_eq [OF g(1)] using assms(2)
    by (simp add: impl_settled_def drop_attempt_def impl Let_def g(2))
      (simp add: sandbox_client_def new_client_def resolve_config_def assms(1) sandbox_config_def)
qed

lemma sandbox_effect_sent [simp]: "fold (sandbox_effect mkid) (map (sent_entry c) as) x = x"
  by (induction as) (simp_all add: sent_entry_def)

lemma sandbox_connecting_parts:
  assumes "cfg = sandbox_config url tenantId (Some token)" "token \<noteq> []" "pf_global pf \<or> pf_ws pf" "UUID_RE tenantId"
  shows "rc_log (sandbox_connecting pf channels cfg) = []" "rc_ws (sandbox_connecting pf channels cfg) = Some 0"
    "valid_tenant (set_ready Open 0 (sandbox_connecting pf channels cfg))" "ws_open (set_ready Open 0 (sandbox_connecting pf channels cfg))"
    "open_frames 0 (set_ready Open 0 (sandbox_connecting pf channels cfg)) =
       (Auth, [], token) # map (\<lambda>ch. (Subscribe, ch, [])) (fold set_add channels []) @ map (\<lambda>ch. (Replay, ch, js_of ''0'')) channels"
    "rc_log (after_open 0 (set_ready Open 0 (sandbox_connecting pf channels cfg))) =
       map (sent_entry (set_ready Open 0 (sandbox_connecting pf channels cfg))) (open_frames 0 (set_ready Open 0 (sandbox_connecting pf channels cfg))) @
       [Emitted Opened [1], Emitted Authenticated []]"
proof -
  let ?d = "sandbox_connecting pf channels cfg"
  have d: "rc_log ?d = []" "rc_subscriptions ?d = sandbox_subs channels" "rc_pendingSends ?d = map (\<lambda>ch. (Replay, ch, js_of_nat 0)) channels"
      "rc_ws ?d = Some 0" "rc_sockets ?d = [\<lparr>sk_readyState = Connecting, sk_url = url, sk_token = token\<rparr>]"
      "rc_listeners ?d = on_event EvError 3 (on_event EvClose 2 (on_event EvOpen 1 []))" "rf_tenantId (rc_config ?d) = tenantId"
      "rc_heartbeatTimer ?d = None"
    using sandbox_connecting_eq [OF assms(1-3), of channels]
    by (simp_all add: sandbox_client_def new_client_def assms(1) sandbox_config_def resolve_config_def)
  show "rc_log ?d = []" "rc_ws ?d = Some 0" by (simp_all add: d)
  show "valid_tenant (set_ready Open 0 ?d)" "ws_open (set_ready Open 0 ?d)"
    using assms(4) d by (simp_all add: valid_tenant_def ws_open_def set_ready_def)
  have "sk_token (rc_sockets (set_ready Open 0 ?d) ! 0) = token" by (simp add: set_ready_def d(5))
  then show "open_frames 0 (set_ready Open 0 ?d) =
      (Auth, [], token) # map (\<lambda>ch. (Subscribe, ch, [])) (fold set_add channels []) @ map (\<lambda>ch. (Replay, ch, js_of ''0'')) channels"
    using d(2,3) jkeys_sandbox_subs [of channels] by (simp add: open_frames_def resub_args_def js_of_nat.simps)
  have "rc_listeners (set_ready Open 0 ?d) = rc_listeners ?d" "rc_heartbeatTimer (set_ready Open 0 ?d) = None" by (simp_all add: set_ready_def d)
  then show "rc_log (after_open 0 (set_ready Open 0 ?d)) =
      map (sent_entry (set_ready Open 0 ?d)) (open_frames 0 (set_ready Open 0 ?d)) @ [Emitted Opened [1], Emitted Authenticated []]"
    using d(1,6)
    by (simp add: after_open_def emit_def startHeartbeat_def stopHeartbeat_def Let_def emit_targets_def on_event_def jset_def jget_def set_add_def)
qed

text \<open>The page that has joined, and the same page when its socket is open.\<close>

lemma sandbox_joined_page:
  assumes "mintTenantTokenAction outcome = Inr (Some token)" "cfg = sandbox_config (sandbox_wsUrl hostname url) tenantId (Some token)"
    and "tenantId \<noteq> []" "channels \<noteq> []" "url \<noteq> []"
  shows "sandbox_joined hostname pf (Some url) tenantId channels False outcome (sandbox_init channels) =
    (None, (sandbox_init channels)\<lparr>sp_client := Some (snd (join_client pf channels (sandbox_client cfg)))\<rparr>)"
proof -
  have "\<not> cc_getToken cfg" by (simp add: assms(2) sandbox_config_def)
  from join_client_eq [OF this, of pf channels] show ?thesis using assms(3-5) by (simp add: sandbox_joined_def or_default_def assms(1,2))
qed

lemma sandbox_open_page:
  assumes "cfg = sandbox_config url tenantId (Some token)" "token \<noteq> []" "pf_global pf \<or> pf_ws pf" "UUID_RE tenantId"
    and "sp_client p = Some (snd (join_client pf channels (sandbox_client cfg)))"
  shows "fold (sandbox_step mkid channels) [Sb_Runtime (In_Impl True 0), Sb_Runtime (In_Open 0)] p =
    p\<lparr>sp_client := Some (after_open 0 (set_ready Open 0 (sandbox_connecting pf channels cfg))), sp_status := Sb_Connected\<rparr>"
proof -
  let ?c = "snd (join_client pf channels (sandbox_client cfg))" and ?d = "sandbox_connecting pf channels cfg"
  note parts = sandbox_connecting_parts [OF assms(1-4), of channels]
  have g: "\<not> cc_getToken cfg" by (simp add: assms(1) sandbox_config_def)
  have "enabled (In_Impl True 0) ?c" using join_client_eq [OF g, of pf channels] by simp
  then have first: "sandbox_step mkid channels (Sb_Runtime (In_Impl True 0)) p = p\<lparr>sp_client := Some ?d\<rparr>"
    using parts(1) by (simp add: sandbox_event_def assms(5) sandbox_connecting_def del: handle.simps)
  have "enabled (In_Open 0) ?d" using sandbox_connecting_eq [OF assms(1-3), of channels] by simp
  moreover have "snd (handle (In_Open 0) ?d) = after_open 0 (set_ready Open 0 ?d)" using parts(3,4) by (simp add: onopen_open as_callback_def)
  ultimately have "sandbox_step mkid channels (Sb_Runtime (In_Open 0)) (p\<lparr>sp_client := Some ?d\<rparr>) =
      p\<lparr>sp_client := Some (after_open 0 (set_ready Open 0 ?d)), sp_status := Sb_Connected\<rparr>"
    using parts(1,6) by (simp add: sandbox_event_def del: handle.simps)
  then show ?thesis using first by simp
qed

lemma uuid_not_Nil: "UUID_RE t \<Longrightarrow> t \<noteq> []"
  by (auto simp: UUID_RE_def)

lemma after_open_fields:
  "rc_closedByUser (after_open s c) = rc_closedByUser c" "rc_pendingSends (after_open s c) = []"
  by (simp_all add: after_open_def emit_def startHeartbeat_def stopHeartbeat_def Let_def split: option.split)

text \<open>
  C31. Joining a session, with a well-formed tenant id, at least one channel, the address of a server, a runtime that has a WebSocket and an answer of the server with a token. The page calls
  \<open>subscribe\<close>, \<open>connect\<close> and \<open>replay\<close> before there is a socket; nothing is thrown. When the socket has been constructed and opens, the page has a client that is not closed by it and
  has under each channel the handlers of the places where the channel stands in the address, one of its own for each place, and no other subscription; the server has got exactly AUTH with the
  minted token, a SUB for each channel, once, in the order of the address, and a REPLAY of the whole history for each place. The page then shows that it is connected, and no message yet.
\<close>

theorem sandbox_joins:
  assumes "UUID_RE tenantId" "token \<noteq> []" "pf_global pf \<or> pf_ws pf" "mintTenantTokenAction outcome = Inr (Some token)"
    and "channels \<noteq> []" "url \<noteq> []"
  shows "case sandbox_joined hostname pf (Some url) tenantId channels False outcome (sandbox_init channels) of (toast, p) \<Rightarrow>
    (let q = fold (sandbox_step mkid channels) [Sb_Runtime (In_Impl True 0), Sb_Runtime (In_Open 0)] p in
      toast = None \<and> sp_status q = Sb_Connected \<and> sp_messages q = [] \<and>
      (case sp_client q of
         None \<Rightarrow> False
       | Some c \<Rightarrow> \<not> rc_closedByUser c \<and> ws_open c \<and> rc_pendingSends c = [] \<and>
           (\<forall>ch. jget (rc_subscriptions c) ch =
              (if ch \<in> set channels then Some (filter (\<lambda>i. channels ! i = ch) [0..<length channels]) else None)) \<and>
           sends 0 (rc_log c) = (Auth, [], token) # map (\<lambda>ch. (Subscribe, ch, [])) (fold set_add channels []) @
             map (\<lambda>ch. (Replay, ch, js_of ''0'')) channels))"
proof -
  define cfg where "cfg = sandbox_config (sandbox_wsUrl hostname url) tenantId (Some token)"
  note parts = sandbox_connecting_parts [OF cfg_def assms(2,3,1), of channels]
  let ?d = "sandbox_connecting pf channels cfg"
  define c where "c = after_open 0 (set_ready Open 0 ?d)"
  have "rc_subscriptions ?d = sandbox_subs channels" "\<not> rc_closedByUser ?d"
    using sandbox_connecting_eq [OF cfg_def assms(2,3), of channels] by simp_all
  then have c: "\<not> rc_closedByUser c" "rc_pendingSends c = []" "ws_open c" "rc_subscriptions c = sandbox_subs channels"
    using parts(4) by (simp_all add: c_def after_open_fields after_open_parts ws_open_def split: option.splits)
  have s: "sends 0 (rc_log c) = open_frames 0 (set_ready Open 0 ?d)" using parts(2) by (simp add: c_def parts(6))
  define p where "p = (sandbox_init channels)\<lparr>sp_client := Some (snd (join_client pf channels (sandbox_client cfg)))\<rparr>"
  have q: "fold (sandbox_step mkid channels) [Sb_Runtime (In_Impl True 0), Sb_Runtime (In_Open 0)] p = p\<lparr>sp_client := Some c, sp_status := Sb_Connected\<rparr>"
    unfolding c_def by (rule sandbox_open_page [OF cfg_def assms(2,3,1)]) (simp add: p_def)
  have "sandbox_joined hostname pf (Some url) tenantId channels False outcome (sandbox_init channels) = (None, p)"
    unfolding p_def by (rule sandbox_joined_page [OF assms(4) cfg_def uuid_not_Nil [OF assms(1)] assms(5,6)])
  then show ?thesis
    by (simp only: split_conv Let_def q) (simp add: parts(5) sandbox_init_def p_def c s jget_sandbox_subs)
qed

definition sample_mint_answer :: axios_outcome where
  "sample_mint_answer = Http_Ok (JObj [(js_of ''success'', JBool True), (js_of ''data'', JObj [(js_of ''token'', JStr (js_of ''tok''))])])"

lemma sample_mint: "mintTenantTokenAction sample_mint_answer = Inr (Some (js_of ''tok''))"
  by code_simp

theorem sandbox_joins_witness:
  "case sandbox_joined (\<lambda>_. None) sample_platform (Some [104]) (cc_tenantId sample_config) [[97], [98], [97]] False sample_mint_answer (sandbox_init [[97], [98], [97]]) of (toast, p) \<Rightarrow>
    (case sp_client (fold (sandbox_step js_of_nat [[97], [98], [97]]) [Sb_Runtime (In_Impl True 0), Sb_Runtime (In_Open 0)] p) of
       None \<Rightarrow> False
     | Some c \<Rightarrow> map (jget (rc_subscriptions c)) [[97], [98], [99]] = [Some [0, 2], Some [1], None] \<and>
         map (\<lambda>(q, ch, _). (q, ch)) (sends 0 (rc_log c)) =
           [(Auth, []), (Subscribe, [97]), (Subscribe, [98]), (Replay, [97]), (Replay, [98]), (Replay, [97])])"
proof -
  have "UUID_RE (cc_tenantId sample_config)" using sample_tenant by (simp add: sample_config_def)
  moreover have "pf_global sample_platform \<or> pf_ws sample_platform" by (simp add: sample_platform_def)
  moreover have "js_of ''tok'' \<noteq> []" by simp
  ultimately show ?thesis
    using sandbox_joins [OF _ _ _ sample_mint, where tenantId = "cc_tenantId sample_config" and pf = sample_platform and hostname = "\<lambda>_. None"
        and url = "[104]" and channels = "[[97], [98], [97]]" and mkid = js_of_nat]
    by (simp add: Let_def split_beta set_add_def upt_rec del: fold_simps js_of_simps sandbox_step.simps split: option.splits)
qed

section \<open>Messages of a session\<close>

text \<open>The subscriptions and listeners of the client stay those of the beginning.\<close>

definition wiring :: "client \<Rightarrow> (js_string, handler list) jmap \<times> (event_name, nat) listeners" where
  "wiring c = (rc_subscriptions c, rc_listeners c)"

lemma wiring_simps [simp]:
  "wiring (emit ev c) = wiring c" "wiring (stopHeartbeat c) = wiring c" "wiring (startHeartbeat c) = wiring c"
  "wiring (scheduleReconnect rnd c) = wiring c" "wiring (openSocket pf c) = wiring c" "wiring (onclose rnd code reason c) = wiring c"
  "wiring (set_ready r s c) = wiring c" "wiring (onerror c) = wiring c"
  by (simp_all add: wiring_def emit_def stopHeartbeat_def startHeartbeat_def scheduleReconnect_def await_impl_def openSocket_def
      onclose_def set_ready_def onerror_def Let_def split: option.split)

lemma wiring_log [simp]: "wiring (c\<lparr>rc_log := l\<rparr>) = wiring c" "wiring (c\<lparr>rc_pendingSends := q\<rparr>) = wiring c"
  "wiring (c\<lparr>rc_timeouts := ts\<rparr>) = wiring c" "wiring (c\<lparr>rc_reassembler := r\<rparr>) = wiring c" "wiring (c\<lparr>rc_reconnectAttempt := n\<rparr>) = wiring c"
  by (simp_all add: wiring_def)

lemma wiring_send [simp]: "wiring (snd (send a c)) = wiring c"
  using send_writes_log [of a c] by auto

lemma wiring_send_chunks: "wiring (snd (send_chunks rnd q t pl c)) = wiring c"
  by (auto simp: send_chunks_def sendOrQueue_def intro!: for_each_keeps [where P = "\<lambda>d. wiring d = wiring c"] split: sum.split)

lemma wiring_onopen [simp]: "wiring (snd (onopen s c)) = wiring c"
  using onopen_open [of c s] onopen_not_open [of c s] onopen_invalid [of c s]
  by (cases "valid_tenant c"; cases "ws_open c") (auto simp: after_open_def)

lemma wiring_callback [simp]: "wiring (as_callback p c) = wiring (snd (p c))"
  by (simp add: as_callback_def split: prod.split option.split)

lemma wiring_dispatch [simp]: "wiring (dispatch n1 n2 n3 f c) = wiring c"
  by (auto simp: dispatch_def Let_def emit_def wiring_def split: option.split prod.split)

lemma wiring_impl_settled [simp]: "wiring (impl_settled b a c) = wiring c"
  by (rule impl_settled_cases [of b a c]) (auto simp: wiring_def drop_attempt_def with_socket_def)

lemma wiring_runtime: "runtime_input i \<Longrightarrow> wiring (snd (handle i c)) = wiring c"
  by (cases i) (auto simp: onmessage_def heartbeat_tick_def Let_def split: option.split sum.split)

definition sandbox_ok :: "js_string list \<Rightarrow> sandbox_page \<Rightarrow> bool" where
  "sandbox_ok channels p \<longleftrightarrow> (\<forall>c. sp_client p = Some c \<longrightarrow>
     wiring c = (sandbox_subs channels, on_event EvError 3 (on_event EvClose 2 (on_event EvOpen 1 [])))) \<and>
   (channels \<noteq> [] \<longrightarrow> sp_channel p \<in> set channels)"

lemma sandbox_effects_keep:
  "sp_client (fold (sandbox_effect mkid) es p) = sp_client p \<and> sp_channel (fold (sandbox_effect mkid) es p) = sp_channel p"
proof (induction es arbitrary: p)
  case (Cons e es)
  then show ?case by (cases e) simp_all
qed simp

lemma sandbox_ok_step: "sandbox_ok channels p \<Longrightarrow> sandbox_ok channels (sandbox_step mkid channels op p)"
proof (cases op)
  case (Sb_Runtime i)
  then show "sandbox_ok channels p \<Longrightarrow> ?thesis"
    using wiring_runtime [of i] by (auto simp: sandbox_ok_def sandbox_event_def sandbox_effects_keep Let_def split: option.splits)
next
  case (Sb_Send rnd now)
  have "wiring c' = wiring c" if "publish rnd ch t c = (e, c')" for ch t c e c'
    using wiring_send_chunks [of rnd Publish ch t c] that by (simp add: publish_def)
  then show "sandbox_ok channels p \<Longrightarrow> ?thesis" using Sb_Send
    by (auto simp: sandbox_ok_def handleSend_def Let_def split: option.splits prod.splits)
qed (auto simp: sandbox_ok_def)

lemma sandbox_ok_joined:
  "mintTenantTokenAction outcome = Inr token \<Longrightarrow>
   sandbox_ok channels (snd (sandbox_joined hostname pf apiUrl tenantId channels cancelled outcome (sandbox_init channels)))"
proof -
  assume m: "mintTenantTokenAction outcome = Inr token"
  have g: "\<not> cc_getToken (sandbox_config url tenantId token)" for url by (simp add: sandbox_config_def)
  show ?thesis unfolding sandbox_joined_def m join_client_eq [OF g] sum.case Let_def
    by (auto simp: sandbox_ok_def sandbox_init_def wiring_def split: list.split) (simp_all add: sandbox_client_def)
qed

lemma sandbox_ok_run: "sandbox_ok channels p \<Longrightarrow> sandbox_ok channels (fold (sandbox_step mkid channels) ops p)"
  by (induction ops arbitrary: p) (simp_all add: sandbox_ok_step)

text \<open>A message on a channel of the address is entered once for each time the channel stands there, a message on any other channel not at all.\<close>

lemma sandbox_message:
  assumes "sandbox_ok channels p" "sp_client p = Some c" "\<forall>ch \<in> set channels. star \<notin> set ch" "decodeFrame raw = Inr f" "parseChunk (df_payload f) = None"
  shows "map sm_payload (sp_messages (sandbox_event mkid (In_Message s n1 n2 n3 (Array_Buffer raw)) p)) =
      map sm_payload (sp_messages p) @ replicate (count_list channels (df_channelId f)) (df_payload f)"
    "map sm_mine (sp_messages (sandbox_event mkid (In_Message s n1 n2 n3 (Array_Buffer raw)) p)) =
      map sm_mine (sp_messages p) @ replicate (count_list channels (df_channelId f)) False"
proof -
  let ?m = "\<lparr>rm_channelId = df_channelId f, rm_payload = df_payload f, rm_tenantId = df_tenantId f, rm_receivedAt = n3\<rparr>"
  let ?hs = "case jget (sandbox_subs channels) (df_channelId f) of None \<Rightarrow> [] | Some hs \<Rightarrow> hs"
  have w: "rc_subscriptions c = sandbox_subs channels" "rc_listeners c = on_event EvError 3 (on_event EvClose 2 (on_event EvOpen 1 []))"
    using assms(1,2) by (simp_all add: sandbox_ok_def wiring_def)
  have "filter (\<lambda>(key, _). star \<in> set key \<and> globMatch key (df_channelId f)) (sandbox_subs channels) = []"
  proof -
    have "set (jkeys (sandbox_subs channels)) \<subseteq> set channels"
      by (auto simp: jm.key_iff jget_sandbox_subs split: if_splits)
    then show ?thesis using assms(3) by (force simp: filter_empty_conv jkeys_def)
  qed
  then have log: "rc_log (snd (handle (In_Message s n1 n2 n3 (Array_Buffer raw)) c)) = rc_log c @ Emitted (Received ?m) [] # map (\<lambda>h. Handled h ?m) ?hs"
    using w by (simp add: onmessage_def assms(4) dispatch_def Let_def assms(5) emit_def emit_targets_def on_event_def jset_def jget_def set_add_def)
  have "length ?hs = count_list channels (df_channelId f)"
    by (auto simp: jget_sandbox_subs count_list_eq_length_filter length_filter_conv_card intro: arg_cong [where f = card])
  moreover have "map sm_payload (sp_messages (fold (sandbox_effect mkid) (map (\<lambda>h. Handled h m) hs) x)) = map sm_payload (sp_messages x) @ replicate (length hs) (rm_payload m)"
      "map sm_mine (sp_messages (fold (sandbox_effect mkid) (map (\<lambda>h. Handled h m) hs) x)) = map sm_mine (sp_messages x) @ replicate (length hs) False"
    for m hs x by (induction hs arbitrary: x) simp_all
  ultimately show "map sm_payload (sp_messages (sandbox_event mkid (In_Message s n1 n2 n3 (Array_Buffer raw)) p)) =
      map sm_payload (sp_messages p) @ replicate (count_list channels (df_channelId f)) (df_payload f)"
    "map sm_mine (sp_messages (sandbox_event mkid (In_Message s n1 n2 n3 (Array_Buffer raw)) p)) =
      map sm_mine (sp_messages p) @ replicate (count_list channels (df_channelId f)) False"
    using log by (simp_all add: sandbox_event_def assms(2) Let_def)
qed

text \<open>
  The server delivers a message to every subscriber of its channel, the sender included. The page enters what it sends at once, and then a second time when it comes back, as a message of
  the other party: after a send and the arrival of the same message, in any history of the page, the list has grown by two entries with the same text, the second one not marked as its own.
\<close>

theorem sandbox_doubles_own_message:
  assumes "mintTenantTokenAction outcome = Inr token" "distinct channels" "channels \<noteq> []" "\<forall>ch \<in> set channels. star \<notin> set ch"
    and "p = fold (sandbox_step mkid channels) ops (snd (sandbox_joined hostname pf apiUrl tenantId channels False outcome (sandbox_init channels)))"
    and "handleSend rnd now p = (None, q)" "q \<noteq> p"
    and "decodeFrame raw = Inr f" "df_channelId f = sp_channel p" "df_payload f = js_trim (sp_draft p)" "parseChunk (df_payload f) = None"
  shows "map sm_payload (sp_messages (sandbox_event mkid (In_Message s n1 n2 n3 (Array_Buffer raw)) q)) =
      map sm_payload (sp_messages p) @ [js_trim (sp_draft p), js_trim (sp_draft p)] \<and>
    map sm_mine (sp_messages (sandbox_event mkid (In_Message s n1 n2 n3 (Array_Buffer raw)) q)) =
      map sm_mine (sp_messages p) @ [True, False]"
proof -
  have p: "sandbox_ok channels p" unfolding assms(5) by (rule sandbox_ok_run [OF sandbox_ok_joined [OF assms(1)]])
  obtain c c' where c: "sp_client p = Some c" "publish rnd (sp_channel p) (js_trim (sp_draft p)) c = (None, c')"
    and q: "q = p\<lparr>sp_client := Some c', sp_messages := sp_messages p @ [\<lparr>sm_id = js_of ''local-'' @ js_of_nat now, sm_channelId = sp_channel p,
        sm_payload = js_trim (sp_draft p), sm_receivedAt = int now, sm_mine = True\<rparr>], sp_draft := []\<rparr>"
    using assms(6,7) by (auto simp: handleSend_def Let_def simp del: js_of_simps split: option.splits if_splits prod.splits)
  have "wiring c' = wiring c" using wiring_send_chunks [of rnd Publish "sp_channel p" "js_trim (sp_draft p)" c] c(2) by (simp add: publish_def)
  then have ok: "sandbox_ok channels q" using p c(1) q by (simp add: sandbox_ok_def)
  have "sp_channel p \<in> set channels" using p assms(3) by (simp add: sandbox_ok_def)
  then have "count_list channels (df_channelId f) = 1" using assms(2,9) by (simp add: count_distinct)
  moreover have "sp_client q = Some c'" by (simp add: q)
  ultimately show ?thesis
    using sandbox_message [OF ok _ assms(4,8,11), of c' mkid s n1 n2 n3] assms(10) by (simp add: q)
qed

theorem sandbox_doubles_own_message_witness:
  "\<exists>q raw. handleSend (\<lambda>_. 0) 5 (fold (sandbox_step js_of_nat [[97]]) [Sb_Runtime (In_Impl True 0), Sb_Runtime (In_Open 0), Sb_Draft [72, 105]]
      (snd (sandbox_joined (\<lambda>_. None) sample_platform (Some [104]) (cc_tenantId sample_config) [[97]] False sample_mint_answer (sandbox_init [[97]])))) = (None, q) \<and>
    map sm_payload (sp_messages (sandbox_event js_of_nat (In_Message 0 0 0 0 (Array_Buffer raw)) q)) = [[72, 105], [72, 105]]"
proof -
  let ?t = "cc_tenantId sample_config" and ?ch = "[97] :: js_string" and ?hi = "[72, 105] :: js_string"
  define cfg where "cfg = sandbox_config (sandbox_wsUrl (\<lambda>_. None) [104]) ?t (Some (js_of ''tok''))"
  define p where "p = (sandbox_init [?ch])\<lparr>sp_client := Some (snd (join_client sample_platform [?ch] (sandbox_client cfg)))\<rparr>"
  define c where "c = after_open 0 (set_ready Open 0 (sandbox_connecting sample_platform [?ch] cfg))"
  have t: "UUID_RE ?t" using sample_tenant by (simp add: sample_config_def)
  have pf: "pf_global sample_platform \<or> pf_ws sample_platform" and tok: "js_of ''tok'' \<noteq> []" by (simp_all add: sample_platform_def)
  have joined: "snd (sandbox_joined (\<lambda>_. None) sample_platform (Some [104]) ?t [?ch] False sample_mint_answer (sandbox_init [?ch])) = p"
    using sandbox_joined_page [OF sample_mint cfg_def uuid_not_Nil [OF t], of "[?ch]" sample_platform] by (simp add: p_def)
  have open_page: "fold (sandbox_step js_of_nat [?ch]) [Sb_Runtime (In_Impl True 0), Sb_Runtime (In_Open 0)] p = p\<lparr>sp_client := Some c, sp_status := Sb_Connected\<rparr>"
    unfolding c_def by (rule sandbox_open_page [OF cfg_def tok pf t]) (simp add: p_def)
  let ?p = "p\<lparr>sp_client := Some c, sp_status := Sb_Connected, sp_draft := ?hi\<rparr>"
  have run: "fold (sandbox_step js_of_nat [?ch]) [Sb_Runtime (In_Impl True 0), Sb_Runtime (In_Open 0), Sb_Draft ?hi] p = ?p"
    using arg_cong [OF open_page, of "sandbox_step js_of_nat [?ch] (Sb_Draft ?hi)"] by (simp del: sandbox_step.simps(1))
  note parts = sandbox_connecting_parts [OF cfg_def tok pf t, of "[?ch]"]
  have c: "ws_open c" "valid_tenant c" "rf_maxMessageBytes (rc_config c) = DEFAULT_MAX_MESSAGE_BYTES"
  proof -
    show "ws_open c" "valid_tenant c" using parts(3,4)
      by (simp_all add: c_def after_open_def emit_def startHeartbeat_def stopHeartbeat_def Let_def ws_open_def valid_tenant_def split: option.splits)
    have "rc_config c = rc_config (sandbox_connecting sample_platform [?ch] cfg)" by (simp add: c_def after_open_def)
    also have "rf_maxMessageBytes \<dots> = DEFAULT_MAX_MESSAGE_BYTES"
      using sandbox_connecting_eq [OF cfg_def tok pf, of "[?ch]"] by (simp add: sandbox_client_def new_client_def resolve_config_def cfg_def sandbox_config_def or_default_def)
    finally show "rf_maxMessageBytes (rc_config c) = DEFAULT_MAX_MESSAGE_BYTES" by simp
  qed
  have "encodeChunks (\<lambda>_. 0) ?hi DEFAULT_MAX_MESSAGE_BYTES = Inr [?hi]" by code_simp
  then obtain c' where "publish (\<lambda>_. 0) ?ch ?hi c = (None, c')"
    using c for_each_sendOrQueue_open [of c "\<lambda>chunk. (Publish, ?ch, chunk)" "[?hi]"] by (simp add: publish_def send_chunks_def del: for_each.simps)
  moreover have trim: "js_trim ?hi = ?hi" by code_simp
  moreover have "sp_channel ?p = ?ch" by (simp add: p_def sandbox_init_def)
  ultimately obtain q where q: "handleSend (\<lambda>_. 0) 5 ?p = (None, q)" "q \<noteq> ?p"
    by (simp add: handleSend_def p_def sandbox_init_def)
  let ?ff = "\<lparr>ff_opcode = Message, ff_tenantId = ?t, ff_channelId = Some ?ch, ff_payload = Some ?hi\<rparr>"
  obtain raw where raw: "encodeFrame ?ff = Inr raw" using t encodeFrame_total [of ?ff] by auto
  have "fits LEN_CHANNEL ?ch" "fits LEN_PAYLOAD ?hi" by code_simp+
  then have f: "decodeFrame raw = Inr \<lparr>df_opcode = Message, df_tenantId = js_lower_hex ?t, df_channelId = ?ch, df_payload = ?hi, df_raw = raw\<rparr>"
    using decode_encode_frame [OF raw] by (simp add: or_empty_def)
  have stars: "\<forall>ch \<in> set [?ch]. star \<notin> set ch" by (simp add: star_def)
  have peq: "?p = fold (sandbox_step js_of_nat [?ch]) [Sb_Runtime (In_Impl True 0), Sb_Runtime (In_Open 0), Sb_Draft ?hi]
      (snd (sandbox_joined (\<lambda>_. None) sample_platform (Some [104]) ?t [?ch] False sample_mint_answer (sandbox_init [?ch])))"
    unfolding joined run ..
  have "distinct [?ch]" "[?ch] \<noteq> []" by simp_all
  note twice = sandbox_doubles_own_message [OF sample_mint this stars peq q f, unfolded decoded_frame.select_convs]
  have "parseChunk ?hi = None" "sp_messages ?p = []" "js_trim (sp_draft ?p) = ?hi" "?ch = sp_channel ?p" by (code_simp, simp_all add: p_def sandbox_init_def trim)
  then have "map sm_payload (sp_messages (sandbox_event js_of_nat (In_Message 0 0 0 0 (Array_Buffer raw)) q)) = [?hi, ?hi]"
    using twice [of 0 0 0 0] by simp
  with q(1) show ?thesis unfolding joined run by (intro exI [of _ q] exI [of _ raw] conjI)
qed

end
