(* ===== verification/Metrics.thy ===== *)
theory Metrics
  imports Console
begin

text \<open>
  The metrics of the admin console (\<open>admin/src/actions/system/getMetrics.action.ts\<close>): a reader of the text that the server exposes to Prometheus, and the addition of its numbers. The main fact
  says what is read from a text that is written as the exposition format prescribes.
\<close>

section \<open>Adding numbers\<close>

definition js_signed :: "bool \<Rightarrow> nat \<Rightarrow> int" where
  "js_signed neg n = (if neg then - int n else int n)"

text \<open>\<open>a + b\<close>: the nearest binary64 value of the exact sum, a fraction in lowest terms.\<close>

fun js_add :: "js_number \<Rightarrow> js_number \<Rightarrow> js_number" where
  "js_add NaN _ = NaN"
| "js_add _ NaN = NaN"
| "js_add (Infinite s) (Infinite t) = (if s = t then Infinite s else NaN)"
| "js_add (Infinite s) _ = Infinite s"
| "js_add _ (Infinite t) = Infinite t"
| "js_add (Fin s n d) (Fin t m e) =
     (let v = js_signed s n * int e + js_signed t m * int d; a = nat \<bar>v\<bar>; g = gcd a (d * e) in
      js_finite (v < 0) (a div g) (d * e div g))"

fun is_finite :: "js_number \<Rightarrow> bool" where
  "is_finite (Fin _ _ _) = True"
| "is_finite _ = False"

section \<open>The reader\<close>

text \<open>\<open>split(/\s+/)\<close>: a run of blanks separates two pieces.\<close>

fun split_blanks :: "js_string \<Rightarrow> js_string list" where
  "split_blanks [] = [[]]"
| "split_blanks (u # us) =
     (if is_blank u
      then (case us of v # _ \<Rightarrow> if is_blank v then split_blanks us else [] # split_blanks us | [] \<Rightarrow> [[], []])
      else (case split_blanks us of p # ps \<Rightarrow> (u # p) # ps | [] \<Rightarrow> [[u]]))"

definition metric_lines :: "js_string \<Rightarrow> js_string \<Rightarrow> js_string list" where
  "metric_lines raw metricName = filter (\<lambda>line. starts_with metricName line \<and> \<not> starts_with [35] line) (js_split 10 raw)"

definition line_value :: "js_string \<Rightarrow> js_number" where
  "line_value line = js_Number (last (split_blanks (js_trim line)))"

definition sumMetric :: "js_string \<Rightarrow> js_string \<Rightarrow> js_number option" where
  "sumMetric raw metricName =
     (let lines = metric_lines raw metricName in
      if lines = [] then None
      else Some (foldl (\<lambda>tot line. if is_finite (line_value line) then js_add tot (line_value line) else tot) (Fin False 0 1) lines))"

record metrics_snapshot =
  mx_wsConnectionsActive :: "js_number option"
  mx_tcpConnectionsActive :: "js_number option"
  mx_messagesTotal :: "js_number option"
  mx_pushFallbackTotal :: "js_number option"
  mx_rateLimitedTotal :: "js_number option"
  mx_raw :: js_string

definition parsePrometheusMetrics :: "js_string \<Rightarrow> metrics_snapshot" where
  "parsePrometheusMetrics raw =
     \<lparr>mx_wsConnectionsActive = sumMetric raw (js_of ''realtime_engine_ws_connections_active''),
      mx_tcpConnectionsActive = sumMetric raw (js_of ''realtime_engine_tcp_connections_active''),
      mx_messagesTotal = sumMetric raw (js_of ''realtime_engine_messages_total''),
      mx_pushFallbackTotal = sumMetric raw (js_of ''realtime_engine_push_fallback_total''),
      mx_rateLimitedTotal = sumMetric raw (js_of ''realtime_engine_rate_limited_total''),
      mx_raw = raw\<rparr>"

section \<open>Exact sums\<close>

text \<open>A number that stands for the natural \<open>n\<close>.\<close>

definition stands_for :: "js_number \<Rightarrow> nat \<Rightarrow> bool" where
  "stands_for x n \<longleftrightarrow> (\<exists>d. 0 < d \<and> x = Fin False (n * d) d)"

lemma stands_for_finite: "n < 2 ^ 53 \<Longrightarrow> stands_for (js_finite False n 1) n"
  by (erule round64_nat) (auto simp: js_finite_def stands_for_def)

lemma stands_for_integer: "stands_for x n \<Longrightarrow> js_integer x = Some (int n)"
  by (auto simp: stands_for_def)

lemma stands_for_add:
  assumes "stands_for x n" "stands_for y m" "n + m < 2 ^ 53"
  shows "stands_for (js_add x y) (n + m)"
proof -
  obtain d e where x: "x = Fin False (n * d) d" "0 < d" and y: "y = Fin False (m * e) e" "0 < e"
    using assms(1,2) by (auto simp: stands_for_def)
  have v: "js_signed False (n * d) * int e + js_signed False (m * e) * int d = int ((n + m) * (d * e))"
    by (simp add: js_signed_def algebra_simps)
  have g: "gcd ((n + m) * (d * e)) (d * e) = d * e" by simp
  have "js_add x y = js_finite False (n + m) 1"
    using x(2) y(2) unfolding x(1) y(1) js_add.simps Let_def v by (simp del: of_nat_mult of_nat_add add: g)
  then show ?thesis using stands_for_finite [OF assms(3)] by simp
qed

lemma stands_for_digits:
  assumes "v < 2 ^ 53"
  shows "stands_for (js_Number (js_of_nat v)) v"
proof -
  have d: "\<And>u. u \<in> set (js_of_nat v) \<Longrightarrow> is_digit u" by (rule js_of_nat_digits)
  have "read_signed (js_of_nat v) = js_finite False v 1"
    by (rule read_signed_digits [OF js_of_nat_not_Nil d digits_val_js_of_nat])
  moreover have "js_Number (js_of_nat v) = read_signed (js_of_nat v)"
    using d js_trim_digits [OF d] by (auto simp: js_Number_def radix_of_digit split: list.splits)
  ultimately show ?thesis using stands_for_finite [OF assms] by simp
qed

section \<open>What a server exposes\<close>

text \<open>A comment, or a sample: a name, labels in braces or nothing, a space, the word of a number and, as the format allows, a space and the word of a timestamp.\<close>

datatype exposition_line = Comment js_string | Sample js_string js_string js_string "js_string option"

fun line_text :: "exposition_line \<Rightarrow> js_string" where
  "line_text (Comment s) = 35 # s"
| "line_text (Sample name labels w t) = name @ labels @ [32] @ w @ (case t of None \<Rightarrow> [] | Some ts \<Rightarrow> 32 # ts)"

definition exposition_text :: "exposition_line list \<Rightarrow> js_string" where
  "exposition_text ls = concat (map (\<lambda>l. line_text l @ [10]) ls)"

text \<open>Names are non-empty words that do not begin with a hash; labels have no line feed, which the format escapes; numbers and timestamps are words.\<close>

definition metric_name :: "js_string \<Rightarrow> bool" where
  "metric_name name \<longleftrightarrow> name \<noteq> [] \<and> hd name \<noteq> 35 \<and> list_all (\<lambda>u. \<not> is_blank u \<and> u \<noteq> 123) name"

definition word_ok :: "js_string \<Rightarrow> bool" where
  "word_ok w \<longleftrightarrow> w \<noteq> [] \<and> list_all (\<lambda>u. \<not> is_blank u) w"

fun line_ok :: "exposition_line \<Rightarrow> bool" where
  "line_ok (Comment s) \<longleftrightarrow> 10 \<notin> set s"
| "line_ok (Sample name labels w t) \<longleftrightarrow>
     metric_name name \<and> 10 \<notin> set labels \<and> (labels = [] \<or> hd labels = 123) \<and> word_ok w \<and> (case t of None \<Rightarrow> True | Some ts \<Rightarrow> word_ok ts)"

text \<open>Name, number and timestamp of the samples whose name begins with the one that is asked for, and the last word of such a sample.\<close>

fun samples_of :: "js_string \<Rightarrow> exposition_line list \<Rightarrow> (js_string \<times> js_string \<times> js_string option) list" where
  "samples_of metric [] = []"
| "samples_of metric (Comment _ # ls) = samples_of metric ls"
| "samples_of metric (Sample name _ w t # ls) = (if starts_with metric name then (name, w, t) # samples_of metric ls else samples_of metric ls)"

definition last_word :: "js_string \<times> js_string \<times> js_string option \<Rightarrow> js_string" where
  "last_word x = (case x of (_, w, None) \<Rightarrow> w | (_, _, Some ts) \<Rightarrow> ts)"

lemma blank_units: "is_blank 10" "is_blank 32"
  by (simp_all add: is_blank_def)

lemma line_no_feed: "line_ok l \<Longrightarrow> 10 \<notin> set (line_text l)"
  by (cases l) (auto simp: metric_name_def word_ok_def list_all_iff is_blank_def split: option.splits)

lemma js_split_line: "10 \<notin> set l \<Longrightarrow> js_split 10 (l @ 10 # r) = l # js_split 10 r"
  by (induction l) auto

lemma split_exposition: "list_all line_ok ls \<Longrightarrow> js_split 10 (exposition_text ls) = map line_text ls @ [[]]"
proof (induction ls)
  case (Cons l ls)
  have "exposition_text (l # ls) = line_text l @ 10 # exposition_text ls" by (simp add: exposition_text_def)
  then show ?case using Cons line_no_feed [of l] js_split_line [of "line_text l" "exposition_text ls"] by simp
qed (simp add: exposition_text_def)

lemma starts_with_stop: "x \<notin> set m \<Longrightarrow> starts_with m (a @ x # r) \<longleftrightarrow> starts_with m a"
proof (induction a arbitrary: m)
  case Nil
  then show ?case by (cases m) (auto simp: starts_with_def)
next
  case (Cons u a)
  then show ?case by (cases m) (auto simp: starts_with_def)
qed

lemma starts_with_sample:
  assumes "metric_name metric" "line_ok (Sample name labels w t)"
  shows "starts_with metric (line_text (Sample name labels w t)) \<longleftrightarrow> starts_with metric name"
proof -
  have n: "123 \<notin> set metric" "32 \<notin> set metric" using assms(1) blank_units(2) by (auto simp: metric_name_def list_all_iff)
  show ?thesis
  proof (cases labels)
    case Nil
    then show ?thesis using starts_with_stop [OF n(2)] by simp
  next
    case (Cons b bs)
    then show ?thesis using assms(2) starts_with_stop [OF n(1), of name] by simp
  qed
qed

lemma hash_line: "metric_name metric \<Longrightarrow> starts_with metric (35 # s) = False"
  by (cases metric) (auto simp: metric_name_def starts_with_def)

lemma sample_no_hash: "metric_name name \<Longrightarrow> starts_with [35] (name @ r) = False"
  by (cases name) (auto simp: metric_name_def starts_with_def)

text \<open>The last word of a line.\<close>

declare split_blanks.simps(2) [simp del]

lemma split_blanks_not_Nil: "split_blanks s \<noteq> []"
proof (induction s)
  case (Cons u us)
  then obtain p ps where "split_blanks us = p # ps" by (cases "split_blanks us") auto
  then show ?case by (cases us) (simp_all add: split_blanks.simps(2) [of u])
qed simp

lemma split_plain: "list_all (\<lambda>u. \<not> is_blank u) s \<Longrightarrow> split_blanks s = [s]"
proof (induction s)
  case (Cons u us)
  then show ?case by (simp add: split_blanks.simps(2) [of u])
qed simp

lemma split_many: "\<not> list_all (\<lambda>u. \<not> is_blank u) s \<Longrightarrow> tl (split_blanks s) \<noteq> []"
proof (induction s)
  case (Cons u us)
  obtain p ps where p: "split_blanks us = p # ps" using split_blanks_not_Nil [of us] by (cases "split_blanks us") auto
  show ?case
  proof (cases us)
    case Nil
    then show ?thesis using Cons.prems by (simp add: split_blanks.simps(2))
  next
    case (Cons v vs)
    then show ?thesis using Cons.IH Cons.prems p by (auto simp: split_blanks.simps(2) [of u])
  qed
qed simp

text \<open>The last piece is what follows the last blank.\<close>

lemma last_split_blanks: "last (split_blanks s) = rev (takeWhile (\<lambda>u. \<not> is_blank u) (rev s))"
proof (induction s)
  case (Cons u us)
  obtain p ps where p: "split_blanks us = p # ps" using split_blanks_not_Nil [of us] by (cases "split_blanks us") auto
  show ?case
  proof (cases "list_all (\<lambda>u. \<not> is_blank u) us")
    case True
    then have "takeWhile (\<lambda>u. \<not> is_blank u) (rev us) = rev us" by (simp add: list_all_iff)
    then have "takeWhile (\<lambda>u. \<not> is_blank u) (rev us @ [u]) = rev us @ (if is_blank u then [] else [u])"
      using True by (simp add: takeWhile_append list_all_iff)
    moreover have "split_blanks us = [us]" using True by (rule split_plain)
    ultimately show ?thesis using True by (cases us) (auto simp: split_blanks.simps(2) [of u])
  next
    case False
    then have "takeWhile (\<lambda>u. \<not> is_blank u) (rev us @ [u]) = takeWhile (\<lambda>u. \<not> is_blank u) (rev us)"
      by (auto simp: takeWhile_append list_all_iff)
    moreover have "us \<noteq> []" "ps \<noteq> []" using False split_many [OF False] p by auto
    ultimately show ?thesis using Cons.IH p by (cases us) (auto simp: split_blanks.simps(2) [of u])
  qed
qed simp

lemma last_word_ok: "line_ok (Sample name labels w t) \<Longrightarrow> word_ok (last_word (name, w, t))"
  by (auto simp: last_word_def split: option.splits)

lemma line_value_word:
  assumes "word_ok w" "n \<noteq> [] \<and> \<not> is_blank (hd n)"
  shows "line_value (n @ 32 # w) = js_Number w"
proof -
  have d: "\<not> is_blank u" if "u \<in> set w" for u using assms(1) that by (auto simp: word_ok_def list_all_iff)
  obtain m ns where n: "n = m # ns" "\<not> is_blank m" using assms(2) by (cases n) auto
  obtain x xs where x: "rev w = x # xs" using assms(1) by (cases "rev w") (auto simp: word_ok_def)
  have "\<not> is_blank x" using d [of x] x by (metis list.set_intros(1) set_rev)
  then have t: "js_trim (n @ 32 # w) = n @ 32 # w"
    using n by (simp add: js_trim_def x) (metis append.assoc append_Cons rev_rev_ident rev_append rev.simps(2) x)
  have "takeWhile (\<lambda>u. \<not> is_blank u) (rev w @ 32 # r) = rev w" for r
    using d blank_units(2) by (simp add: takeWhile_append)
  then show ?thesis unfolding line_value_def t last_split_blanks by simp
qed

lemma line_value_sample:
  assumes "line_ok (Sample name labels w t)"
  shows "line_value (line_text (Sample name labels w t)) = js_Number (last_word (name, w, t))"
proof -
  have n: "name \<noteq> [] \<and> \<not> is_blank (hd name)" using assms by (cases name) (auto simp: metric_name_def)
  show ?thesis
  proof (cases t)
    case None
    then show ?thesis using line_value_word [of w "name @ labels"] last_word_ok [OF assms] n by (simp add: last_word_def)
  next
    case (Some ts)
    then show ?thesis using line_value_word [of ts "name @ labels @ 32 # w"] last_word_ok [OF assms] n by (simp add: last_word_def)
  qed
qed

section \<open>What is read is what was exposed\<close>

text \<open>The numbers of the lines that are read.\<close>

lemma metric_lines_values:
  assumes "metric_name metric" "list_all line_ok ls"
  shows "map line_value (metric_lines (exposition_text ls) metric) = map (\<lambda>x. js_Number (last_word x)) (samples_of metric ls)"
proof -
  have "map line_value (filter (\<lambda>line. starts_with metric line \<and> \<not> starts_with [35] line) (map line_text ls)) =
      map (\<lambda>x. js_Number (last_word x)) (samples_of metric ls)"
    using assms(2)
  proof (induction ls)
    case (Cons l ls)
    show ?case
    proof (cases l)
      case (Comment s)
      then show ?thesis using Cons hash_line [OF assms(1)] by simp
    next
      case (Sample name labels w t)
      then have ok: "line_ok (Sample name labels w t)" "metric_name name" using Cons.prems by simp_all
      show ?thesis
        using Cons Sample starts_with_sample [OF assms(1) ok(1)] line_value_sample [OF ok(1)] sample_no_hash [OF ok(2)] by simp
    qed
  qed simp
  moreover have "\<not> starts_with metric []" using assms(1) by (cases metric) (auto simp: starts_with_def metric_name_def)
  ultimately show ?thesis by (simp add: metric_lines_def split_exposition [OF assms(2)])
qed

text \<open>The loop adds the finite numbers, one after the other.\<close>

definition sum_finite :: "js_number list \<Rightarrow> js_number" where
  "sum_finite xs = foldl js_add (Fin False 0 1) (filter is_finite xs)"

lemma foldl_finite: "foldl (\<lambda>tot line. if is_finite (f line) then js_add tot (f line) else tot) z lines = foldl js_add z (filter is_finite (map f lines))"
  by (induction lines arbitrary: z) simp_all

lemma sumMetric_read:
  assumes "metric_name metric" "list_all line_ok ls"
  shows "sumMetric (exposition_text ls) metric =
    (if samples_of metric ls = [] then None else Some (sum_finite (map (\<lambda>x. js_Number (last_word x)) (samples_of metric ls))))"
proof -
  note m = metric_lines_values [OF assms]
  have "metric_lines (exposition_text ls) metric = [] \<longleftrightarrow> samples_of metric ls = []" using m by (metis map_is_Nil_conv)
  then show ?thesis by (simp add: sumMetric_def Let_def foldl_finite sum_finite_def m)
qed

lemma sum_stands_for:
  assumes "list_all2 stands_for xs vs" "stands_for tot n" "n + sum_list vs < 2 ^ 53"
  shows "stands_for (foldl js_add tot (filter is_finite xs)) (n + sum_list vs)"
  using assms
proof (induction arbitrary: tot n rule: list_all2_induct)
  case (Cons x xs v vs)
  have "is_finite x" using Cons.hyps(1) by (auto simp: stands_for_def)
  moreover have "stands_for (js_add tot x) (n + v)"
    by (rule stands_for_add [OF Cons.prems(1) Cons.hyps(1)]) (use Cons.prems(2) in simp)
  ultimately show ?case using Cons.IH [of "js_add tot x" "n + v"] Cons.prems(2) by (simp add: add.assoc)
qed simp

lemma sum_finite_whole:
  assumes "sum_list vs < 2 ^ 53"
  shows "js_integer (sum_finite (map (\<lambda>v. js_Number (js_of_nat v)) vs)) = Some (int (sum_list vs))"
proof -
  have "v < 2 ^ 53" if "v \<in> set vs" for v using member_le_sum_list [OF that] assms by simp
  then have "list_all2 stands_for (map (\<lambda>v. js_Number (js_of_nat v)) vs) vs"
    using stands_for_digits by (simp add: list_all2_conv_all_nth)
  moreover have "stands_for (Fin False 0 1) 0" by (auto simp: stands_for_def)
  ultimately show ?thesis
    using sum_stands_for [of _ vs "Fin False 0 1" 0] assms unfolding sum_finite_def by (intro stands_for_integer) simp
qed

text \<open>
  C33. What the console reads from a text in the exposition format, with comments, labels and timestamps anywhere and any words as numbers: nothing if no sample's name begins with the name asked
  for; otherwise the sum, rounded at each addition, of the finite ones among the last words of all samples whose name begins with it. The last word is the number of a sample without a timestamp
  and the timestamp of a sample that has one. So where the samples that are read have exactly the name asked for, no timestamp and whole numbers whose sum is below \<open>2^53\<close>, the result is their
  exact sum over all labels.
\<close>

theorem metrics_summed:
  assumes "metric_name metric" "list_all line_ok ls"
  shows "sumMetric (exposition_text ls) metric =
      (if samples_of metric ls = [] then None else Some (sum_finite (map (\<lambda>x. js_Number (last_word x)) (samples_of metric ls)))) \<and>
    (\<forall>vs. samples_of metric ls = map (\<lambda>v. (metric, js_of_nat v, None)) vs \<and> sum_list vs < 2 ^ 53 \<longrightarrow>
      map_option js_integer (sumMetric (exposition_text ls) metric) = (if vs = [] then None else Some (Some (int (sum_list vs)))))"
proof (intro conjI allI impI)
  show read: "sumMetric (exposition_text ls) metric =
      (if samples_of metric ls = [] then None else Some (sum_finite (map (\<lambda>x. js_Number (last_word x)) (samples_of metric ls))))"
    by (rule sumMetric_read [OF assms])
  fix vs :: "nat list"
  assume vs: "samples_of metric ls = map (\<lambda>v. (metric, js_of_nat v, None)) vs \<and> sum_list vs < 2 ^ 53"
  then show "map_option js_integer (sumMetric (exposition_text ls) metric) = (if vs = [] then None else Some (Some (int (sum_list vs))))"
    using sum_finite_whole [of vs] by (simp add: read last_word_def comp_def)
qed

definition sample_exposition :: "exposition_line list" where
  "sample_exposition =
     [Comment (js_of '' TYPE m counter''), Sample (js_of ''m'') (js_of ''{op=a b}'') (js_of_nat 5) None,
      Sample (js_of ''n'') [] (js_of ''NaN'') (Some (js_of_nat 9)), Sample (js_of ''m'') (js_of ''{op=c}'') (js_of_nat 30) None]"

theorem metrics_summed_witness:
  "map_option js_integer (sumMetric (exposition_text sample_exposition) (js_of ''m'')) = Some (Some 35)"
proof -
  have "metric_name (js_of ''m'')" "list_all line_ok sample_exposition"
    and "samples_of (js_of ''m'') sample_exposition = map (\<lambda>v. (js_of ''m'', js_of_nat v, None)) [5, 30]"
    by code_simp+
  with metrics_summed [OF this(1,2)] show ?thesis by fastforce
qed

text \<open>A metric whose name goes on after the name that is asked for is counted as well, and of a sample with a timestamp the timestamp.\<close>

lemma longer_name_counted:
  "map_option js_integer (sumMetric (exposition_text [Sample (js_of ''m'') [] (js_of_nat 5) None, Sample (js_of ''m_created'') [] (js_of_nat 30) None]) (js_of ''m'')) = Some (Some 35)"
proof -
  let ?ls = "[Sample (js_of ''m'') [] (js_of_nat 5) None, Sample (js_of ''m_created'') [] (js_of_nat 30) None]"
  have "metric_name (js_of ''m'')" "list_all line_ok ?ls" "map last_word (samples_of (js_of ''m'') ?ls) = map js_of_nat [5, 30]" by code_simp+
  moreover from this(3) have "samples_of (js_of ''m'') ?ls \<noteq> []" by force
  ultimately show ?thesis
    using sumMetric_read [of "js_of ''m''" ?ls] sum_finite_whole [of "[5, 30]"] by (simp add: map_map [symmetric, unfolded comp_def] del: map_map)
qed

lemma timestamp_counted:
  "map_option js_integer (sumMetric (exposition_text [Sample (js_of ''m'') [] (js_of_nat 5) (Some (js_of_nat 1700000000000))]) (js_of ''m'')) = Some (Some 1700000000000)"
proof -
  let ?ls = "[Sample (js_of ''m'') [] (js_of_nat 5) (Some (js_of_nat 1700000000000))]"
  have "metric_name (js_of ''m'')" "list_all line_ok ?ls" by code_simp+
  moreover have "samples_of (js_of ''m'') ?ls = [(js_of ''m'', js_of_nat 5, Some (js_of_nat 1700000000000))]" by (simp add: starts_with_def)
  ultimately show ?thesis
    using sumMetric_read [of "js_of ''m''" ?ls] sum_finite_whole [of "[1700000000000]"] by (simp add: last_word_def)
qed

end
