(* ===== verification/Dialogs.thy ===== *)
theory Dialogs
  imports Console
begin

text \<open>
  The dialogs of the console (\<open>admin/src/providers/DialogProvider.tsx\<close>) and the confirmation they carry (\<open>components/shared/ConfirmDialog.tsx\<close>): a stack of dialogs and, for each
  confirmation, the state of its component and the action that runs. The provider of the portal is the same without the Escape key, its confirmation the same without the text to type.
\<close>

section \<open>The stack\<close>

datatype dialog_animation = Slide_Up | Fade | Scale
datatype dialog_size = Sm | Md | Lg | Xl

record dialog_options =
  do_title :: "js_string option"
  do_description :: "js_string option"
  do_size :: "dialog_size option"
  do_animation :: "dialog_animation option"
  do_closable :: "bool option"
  do_persistent :: "bool option"

record resolved_options =
  ro_title :: "js_string option"
  ro_description :: "js_string option"
  ro_size :: dialog_size
  ro_animation :: dialog_animation
  ro_closable :: bool
  ro_persistent :: bool

definition resolve_options :: "dialog_options \<Rightarrow> resolved_options" where
  "resolve_options o' =
     \<lparr>ro_title = do_title o', ro_description = do_description o', ro_size = or_default (do_size o') Md,
      ro_animation = or_default (do_animation o') Scale, ro_closable = or_default (do_closable o') True,
      ro_persistent = or_default (do_persistent o') False\<rparr>"

text \<open>The state of a confirmation: the text that must be typed, if any, what is typed, and whether its action runs. Other components have none.\<close>

record confirm =
  cf_confirmationText :: "js_string option"
  cf_typedText :: js_string
  cf_isSubmitting :: bool

datatype component = Confirm_Dialog confirm | Other_Component

record dialog_instance =
  dl_id :: js_string
  dl_component :: component
  dl_options :: resolved_options

text \<open>\<open>dg_running\<close> are the dialogs whose \<open>onConfirm\<close> has not settled, \<open>dg_log\<close> the calls of \<open>onConfirm\<close> with the text that was typed.\<close>

record dialogs =
  dg_stack :: "dialog_instance list"
  dg_running :: "js_string list"
  dg_log :: "(js_string \<times> js_string) list"

definition dialogs_init :: dialogs where
  "dialogs_init = \<lparr>dg_stack = [], dg_running = [], dg_log = []\<rparr>"

text \<open>A component that is opened starts in its first state.\<close>

definition openDialog :: "js_string \<Rightarrow> component \<Rightarrow> dialog_options \<Rightarrow> dialogs \<Rightarrow> dialogs" where
  "openDialog did content o' g =
     g\<lparr>dg_stack := dg_stack g @ [\<lparr>dl_id = did, dl_component = content, dl_options = resolve_options o'\<rparr>]\<rparr>"

definition closeDialog :: "js_string \<Rightarrow> dialogs \<Rightarrow> dialogs" where
  "closeDialog did g = g\<lparr>dg_stack := filter (\<lambda>d. dl_id d \<noteq> did) (dg_stack g)\<rparr>"

definition closeAll :: "dialogs \<Rightarrow> dialogs" where
  "closeAll g = g\<lparr>dg_stack := []\<rparr>"

text \<open>The listener of the window; \<open>prev.at(-1)\<close> of an empty stack is \<open>undefined\<close>.\<close>

definition dialog_keydown :: "js_string \<Rightarrow> dialogs \<Rightarrow> dialogs" where
  "dialog_keydown key g =
     (if key \<noteq> js_of ''Escape'' then g
      else if dg_stack g = [] then g
      else let top = last (dg_stack g) in
        if ro_persistent (dl_options top) \<or> \<not> ro_closable (dl_options top) then g
        else g\<lparr>dg_stack := butlast (dg_stack g)\<rparr>)"

text \<open>The overlay belongs to the first dialog of the stack.\<close>

definition overlay_click :: "dialogs \<Rightarrow> dialogs" where
  "overlay_click g =
     (case dg_stack g of
        [] \<Rightarrow> g
      | d # _ \<Rightarrow> if \<not> ro_persistent (dl_options d) then closeDialog (dl_id d) g else g)"

text \<open>The close button of a dialog, which is there if the dialog is closable.\<close>

definition close_button :: "js_string \<Rightarrow> dialogs \<Rightarrow> dialogs" where
  "close_button did g =
     (if list_ex (\<lambda>d. dl_id d = did \<and> ro_closable (dl_options d)) (dg_stack g) then closeDialog did g else g)"

section \<open>Confirmations\<close>

definition confirm_init :: "js_string option \<Rightarrow> component" where
  "confirm_init confirmationText = Confirm_Dialog \<lparr>cf_confirmationText = confirmationText, cf_typedText = [], cf_isSubmitting = False\<rparr>"

definition isBlocked :: "confirm \<Rightarrow> bool" where
  "isBlocked c \<longleftrightarrow> (case cf_confirmationText c of None \<Rightarrow> False | Some t \<Rightarrow> cf_typedText c \<noteq> t)"

definition upd_confirm :: "js_string \<Rightarrow> (confirm \<Rightarrow> confirm) \<Rightarrow> dialogs \<Rightarrow> dialogs" where
  "upd_confirm did f g =
     g\<lparr>dg_stack := map (\<lambda>d. if dl_id d = did then (case dl_component d of Confirm_Dialog c \<Rightarrow> d\<lparr>dl_component := Confirm_Dialog (f c)\<rparr> | Other_Component \<Rightarrow> d) else d) (dg_stack g)\<rparr>"

definition find_confirm :: "js_string \<Rightarrow> dialogs \<Rightarrow> confirm option" where
  "find_confirm did g =
     (case find (\<lambda>d. dl_id d = did) (dg_stack g) of
        Some d \<Rightarrow> (case dl_component d of Confirm_Dialog c \<Rightarrow> Some c | Other_Component \<Rightarrow> None)
      | None \<Rightarrow> None)"

text \<open>The input for the text is there only if there is a text to type.\<close>

definition confirm_type :: "js_string \<Rightarrow> js_string \<Rightarrow> dialogs \<Rightarrow> dialogs" where
  "confirm_type did s g = upd_confirm did (\<lambda>c. if cf_confirmationText c = None then c else c\<lparr>cf_typedText := s\<rparr>) g"

text \<open>The button: disabled while the action runs or the text is not typed. A click sets the flag and calls \<open>onConfirm\<close>.\<close>

definition confirm_click :: "js_string \<Rightarrow> dialogs \<Rightarrow> dialogs" where
  "confirm_click did g =
     (case find_confirm did g of
        None \<Rightarrow> g
      | Some c \<Rightarrow>
          if cf_isSubmitting c \<or> isBlocked c then g
          else (upd_confirm did (\<lambda>c. c\<lparr>cf_isSubmitting := True\<rparr>) g)
            \<lparr>dg_running := dg_running g @ [did], dg_log := dg_log g @ [(did, cf_typedText c)]\<rparr>)"

text \<open>The action settles: \<open>closeAll\<close> after a success, and in any case the flag.\<close>

definition confirm_settled :: "bool \<Rightarrow> js_string \<Rightarrow> dialogs \<Rightarrow> dialogs" where
  "confirm_settled success did g =
     (let g1 = g\<lparr>dg_running := filter (\<lambda>i. i \<noteq> did) (dg_running g)\<rparr> in
      upd_confirm did (\<lambda>c. c\<lparr>cf_isSubmitting := False\<rparr>) (if success then closeAll g1 else g1))"

definition confirm_cancel :: "js_string \<Rightarrow> dialogs \<Rightarrow> dialogs" where
  "confirm_cancel did g = (if find_confirm did g = None then g else closeAll g)"

section \<open>Histories\<close>

text \<open>The identity of a dialog is new; an action can settle while it runs.\<close>

inductive dialog_step :: "dialogs \<Rightarrow> dialogs \<Rightarrow> bool" where
  opened: "did \<notin> dl_id ` set (dg_stack g) \<union> set (dg_running g) \<union> fst ` set (dg_log g) \<Longrightarrow>
     dialog_step g (openDialog did (confirm_init txt) o' g)"
| opened_other: "did \<notin> dl_id ` set (dg_stack g) \<union> set (dg_running g) \<union> fst ` set (dg_log g) \<Longrightarrow>
     dialog_step g (openDialog did Other_Component o' g)"
| closed: "dialog_step g (closeDialog did g)"
| all_closed: "dialog_step g (closeAll g)"
| key: "dialog_step g (dialog_keydown k g)"
| overlay: "dialog_step g (overlay_click g)"
| button: "dialog_step g (close_button did g)"
| typed: "dialog_step g (confirm_type did s g)"
| clicked: "dialog_step g (confirm_click did g)"
| settled: "did \<in> set (dg_running g) \<Longrightarrow> dialog_step g (confirm_settled success did g)"
| cancelled: "dialog_step g (confirm_cancel did g)"

inductive_cases dialog_stepE: "dialog_step g g'"

definition dialogs_reachable :: "dialogs \<Rightarrow> bool" where
  "dialogs_reachable g \<longleftrightarrow> dialog_step\<^sup>*\<^sup>* dialogs_init g"

interpretation dg: transition_system "\<lambda>g. g = dialogs_init" dialog_step dialogs_reachable
  by unfold_locales (simp add: dialogs_reachable_def)

section \<open>One action at a time\<close>

text \<open>Identities are distinct, no action runs twice at the same time, and a confirmation on the screen has its button disabled exactly while its action runs.\<close>

definition dialogs_ok :: "dialogs \<Rightarrow> bool" where
  "dialogs_ok g \<longleftrightarrow> distinct (map dl_id (dg_stack g)) \<and> distinct (dg_running g) \<and>
     (\<forall>d c. d \<in> set (dg_stack g) \<longrightarrow> dl_component d = Confirm_Dialog c \<longrightarrow> (cf_isSubmitting c \<longleftrightarrow> dl_id d \<in> set (dg_running g)))"

lemma dialogs_ok_sublist:
  "dialogs_ok g \<Longrightarrow> set ds \<subseteq> set (dg_stack g) \<Longrightarrow> distinct (map dl_id ds) \<Longrightarrow> dialogs_ok (g\<lparr>dg_stack := ds\<rparr>)"
  by (auto simp: dialogs_ok_def)

lemma dialogs_ok_closeDialog: "dialogs_ok g \<Longrightarrow> dialogs_ok (closeDialog did g)"
  unfolding closeDialog_def by (rule dialogs_ok_sublist) (auto simp: dialogs_ok_def distinct_map_filter)

lemma dialogs_ok_closeAll: "dialogs_ok g \<Longrightarrow> dialogs_ok (closeAll g)"
  unfolding closeAll_def by (rule dialogs_ok_sublist) auto

lemma map_id_upd_confirm [simp]: "map dl_id (dg_stack (upd_confirm did f g)) = map dl_id (dg_stack g)"
  by (simp add: upd_confirm_def split: component.split)

lemma find_confirm_Some:
  assumes "dialogs_ok g" "d \<in> set (dg_stack g)" "dl_component d = Confirm_Dialog c"
  shows "find_confirm (dl_id d) g = Some c"
proof -
  have "find (\<lambda>e. dl_id e = dl_id d) ds = Some d" if "d \<in> set ds" "distinct (map dl_id ds)" for ds
    using that by (induction ds) auto
  then show ?thesis using assms by (simp add: find_confirm_def dialogs_ok_def)
qed

lemma find_confirm_dialog:
  assumes "find_confirm did g = Some c"
  shows "\<exists>d. d \<in> set (dg_stack g) \<and> dl_id d = did \<and> dl_component d = Confirm_Dialog c"
proof -
  have f: "find (\<lambda>d. dl_id d = did) ds = Some d \<Longrightarrow> d \<in> set ds \<and> dl_id d = did" for ds d by (induction ds) (auto split: if_splits)
  show ?thesis using assms f by (fastforce simp: find_confirm_def split: option.splits component.splits)
qed

lemma upd_confirm_mem:
  assumes "d' \<in> set (dg_stack (upd_confirm did f g))" "dl_component d' = Confirm_Dialog c'"
  shows "\<exists>d c. d \<in> set (dg_stack g) \<and> dl_id d = dl_id d' \<and> dl_component d = Confirm_Dialog c \<and> c' = (if dl_id d' = did then f c else c)"
  using assms by (auto simp: upd_confirm_def split: if_splits component.splits)

lemma dialogs_ok_open:
  assumes "dialogs_ok g" "did \<notin> dl_id ` set (dg_stack g)" "did \<notin> set (dg_running g)"
  shows "dialogs_ok (openDialog did (confirm_init txt) o' g)" "dialogs_ok (openDialog did Other_Component o' g)"
  using assms by (auto simp: dialogs_ok_def openDialog_def confirm_init_def)

lemma dialogs_ok_keydown: "dialogs_ok g \<Longrightarrow> dialogs_ok (dialog_keydown k g)"
  by (auto simp: dialog_keydown_def Let_def intro!: dialogs_ok_sublist dest: in_set_butlastD)
    (metis dialogs_ok_def distinct_butlast map_butlast)

lemma dialogs_ok_type: "dialogs_ok g \<Longrightarrow> dialogs_ok (confirm_type did s g)"
proof -
  assume ok: "dialogs_ok g"
  have "dg_running (confirm_type did s g) = dg_running g" by (simp add: confirm_type_def upd_confirm_def)
  moreover have "cf_isSubmitting c' \<longleftrightarrow> dl_id d' \<in> set (dg_running g)"
    if "d' \<in> set (dg_stack (confirm_type did s g))" "dl_component d' = Confirm_Dialog c'" for d' c'
    using upd_confirm_mem [OF that(1) [unfolded confirm_type_def] that(2)] ok by (auto simp: dialogs_ok_def split: if_splits)
  ultimately show ?thesis using ok by (simp add: dialogs_ok_def confirm_type_def)
qed

lemma dialogs_ok_click: "dialogs_ok g \<Longrightarrow> dialogs_ok (confirm_click did g)"
proof (cases "find_confirm did g")
  case (Some c)
  assume ok: "dialogs_ok g"
  let ?g = "upd_confirm did (\<lambda>c. c\<lparr>cf_isSubmitting := True\<rparr>) g"
  show ?thesis
  proof (cases "cf_isSubmitting c \<or> isBlocked c")
    case False
    obtain d where d: "d \<in> set (dg_stack g)" "dl_id d = did" "dl_component d = Confirm_Dialog c"
      using find_confirm_dialog [OF Some] by blast
    then have "did \<notin> set (dg_running g)" using ok False by (auto simp: dialogs_ok_def)
    moreover have "cf_isSubmitting c' \<longleftrightarrow> dl_id d' = did \<or> dl_id d' \<in> set (dg_running g)"
      if mem: "d' \<in> set (dg_stack ?g)" "dl_component d' = Confirm_Dialog c'" for d' c'
    proof -
      obtain e b where e: "e \<in> set (dg_stack g)" "dl_id e = dl_id d'" "dl_component e = Confirm_Dialog b"
          "c' = (if dl_id d' = did then b\<lparr>cf_isSubmitting := True\<rparr> else b)"
        using upd_confirm_mem [OF mem] by blast
      then have "cf_isSubmitting b \<longleftrightarrow> dl_id e \<in> set (dg_running g)" using ok by (auto simp: dialogs_ok_def)
      then show ?thesis using e(2,4) by simp
    qed
    moreover have "dg_running ?g = dg_running g" by (simp add: upd_confirm_def)
    ultimately have "dialogs_ok (?g\<lparr>dg_running := dg_running g @ [did], dg_log := l\<rparr>)" for l
      using ok by (auto simp: dialogs_ok_def)
    then show ?thesis using Some False by (simp add: confirm_click_def)
  qed (simp add: confirm_click_def Some ok)
qed (simp add: confirm_click_def)

lemma dialogs_ok_settled: "dialogs_ok g \<Longrightarrow> dialogs_ok (confirm_settled success did g)"
proof -
  assume ok: "dialogs_ok g"
  let ?g1 = "if success then closeAll (g\<lparr>dg_running := filter (\<lambda>i. i \<noteq> did) (dg_running g)\<rparr>) else g\<lparr>dg_running := filter (\<lambda>i. i \<noteq> did) (dg_running g)\<rparr>"
  have r: "dg_running (upd_confirm did f ?g1) = filter (\<lambda>i. i \<noteq> did) (dg_running g)" for f by (simp add: upd_confirm_def closeAll_def)
  have sub: "set (dg_stack ?g1) \<subseteq> set (dg_stack g)" "distinct (map dl_id (dg_stack ?g1))" using ok by (auto simp: closeAll_def dialogs_ok_def)
  let ?g2 = "upd_confirm did (\<lambda>c. c\<lparr>cf_isSubmitting := False\<rparr>) ?g1"
  have flags: "cf_isSubmitting c' \<longleftrightarrow> dl_id d' \<noteq> did \<and> dl_id d' \<in> set (dg_running g)"
    if mem: "d' \<in> set (dg_stack ?g2)" "dl_component d' = Confirm_Dialog c'" for d' c'
  proof -
    obtain d c where d: "d \<in> set (dg_stack ?g1)" "dl_id d = dl_id d'" "dl_component d = Confirm_Dialog c"
        "c' = (if dl_id d' = did then c\<lparr>cf_isSubmitting := False\<rparr> else c)"
      using upd_confirm_mem [OF mem] by blast
    have "cf_isSubmitting c \<longleftrightarrow> dl_id d \<in> set (dg_running g)" using ok d(1,3) sub(1) by (auto simp: dialogs_ok_def)
    then show ?thesis using d(2,4) by simp
  qed
  have "distinct (dg_running ?g2)" using ok by (simp add: r dialogs_ok_def)
  then have "dialogs_ok ?g2" using sub(2) flags unfolding dialogs_ok_def r by (simp split del: if_split) blast
  then show ?thesis by (simp only: confirm_settled_def Let_def)
qed

lemma dialogs_ok_step: "dialog_step g g' \<Longrightarrow> dialogs_ok g \<Longrightarrow> dialogs_ok g'"
  by (erule dialog_stepE)
    (auto simp: dialogs_ok_open dialogs_ok_closeDialog dialogs_ok_closeAll dialogs_ok_keydown dialogs_ok_type dialogs_ok_click dialogs_ok_settled
      overlay_click_def close_button_def confirm_cancel_def split: list.split)

lemma reachable_dialogs_ok: "dialogs_reachable g \<Longrightarrow> dialogs_ok g"
proof (erule dg.reach_invariant [of dialogs_ok, rotated 2])
  show "dialogs_ok s" if "s = dialogs_init" for s by (simp add: that dialogs_ok_def dialogs_init_def)
  show "dialogs_ok t" if "dialogs_ok s" "dialog_step s t" for s t using dialogs_ok_step that by blast
qed

text \<open>
  C34. Whatever is opened, closed, typed and clicked, and in whatever order the actions settle: no action of a confirmation runs twice at the same time, the confirm button of a dialog on the
  screen is disabled while its action runs and enabled again after it, so that a further click of it has no effect meanwhile, and no two dialogs share an identity.
\<close>

theorem confirm_runs_once:
  assumes "dialogs_reachable g"
  shows "distinct (map dl_id (dg_stack g)) \<and> distinct (dg_running g) \<and>
    (\<forall>did c. find_confirm did g = Some c \<longrightarrow> (cf_isSubmitting c \<longleftrightarrow> did \<in> set (dg_running g)) \<and>
      (did \<in> set (dg_running g) \<longrightarrow> confirm_click did g = g))"
proof -
  have ok: "dialogs_ok g" by (rule reachable_dialogs_ok [OF assms])
  have "cf_isSubmitting c \<longleftrightarrow> did \<in> set (dg_running g)" if f: "find_confirm did g = Some c" for did c
  proof -
    obtain d where "d \<in> set (dg_stack g)" "dl_id d = did" "dl_component d = Confirm_Dialog c"
      using find_confirm_dialog [OF f] by blast
    then show ?thesis using ok by (auto simp: dialogs_ok_def)
  qed
  then show ?thesis using ok by (auto simp: dialogs_ok_def confirm_click_def)
qed

text \<open>A confirmation of a deletion whose text has been typed and confirmed; the user cancels, opens another dialog, and then the deletion is done.\<close>

definition no_options :: dialog_options where
  "no_options = \<lparr>do_title = None, do_description = None, do_size = None, do_animation = None, do_closable = None, do_persistent = None\<rparr>"

definition pending_dialogs :: dialogs where
  "pending_dialogs = confirm_click [1] (confirm_type [1] [65] (openDialog [1] (confirm_init (Some [65])) no_options dialogs_init))"

definition overtaken_dialogs :: dialogs where
  "overtaken_dialogs = openDialog [2] Other_Component (no_options\<lparr>do_persistent := Some True, do_closable := Some False\<rparr>) (confirm_cancel [1] pending_dialogs)"

lemma pending_reachable: "dialogs_reachable pending_dialogs"
proof -
  let ?a = "openDialog [1] (confirm_init (Some [65])) no_options dialogs_init"
  have "dialog_step dialogs_init ?a" by (rule dialog_step.opened) (simp add: dialogs_init_def)
  moreover have "dialog_step ?a (confirm_type [1] [65] ?a)" by (rule dialog_step.typed)
  moreover have "dialog_step (confirm_type [1] [65] ?a) pending_dialogs" unfolding pending_dialogs_def by (rule dialog_step.clicked)
  ultimately show ?thesis by (auto simp: dialogs_reachable_def intro: rtranclp.rtrancl_into_rtrancl)
qed

theorem confirm_runs_once_witness:
  "dg_running pending_dialogs = [[1]] \<and> confirm_click [1] pending_dialogs = pending_dialogs"
proof -
  have "dg_running pending_dialogs = [[1]]" "find_confirm [1] pending_dialogs \<noteq> None" by code_simp+
  then show ?thesis using confirm_runs_once [OF pending_reachable] by auto
qed

lemma overtaken_parts: "dg_running overtaken_dialogs = [[1]]" "map dl_id (dg_stack overtaken_dialogs) = [[2]]"
  "dg_stack (confirm_settled True [1] overtaken_dialogs) = []"
  by code_simp+

text \<open>
  A confirmation that was cancelled while its action runs still ends with \<open>closeAll\<close>: when the action is done it closes whatever is open by then, here a dialog that was opened
  afterwards, as persistent and not closable, for something else.
\<close>

theorem late_confirm_closes_other_dialog:
  "\<exists>g d. dialogs_reachable g \<and> [1] \<in> set (dg_running g) \<and> dg_stack g = [d] \<and> dl_id d \<noteq> [1] \<and>
     ro_persistent (dl_options d) \<and> \<not> ro_closable (dl_options d) \<and> dg_stack (confirm_settled True [1] g) = []"
proof -
  have "dialog_step pending_dialogs (confirm_cancel [1] pending_dialogs)" by (rule dialog_step.cancelled)
  moreover have "[2] \<notin> dl_id ` set (dg_stack (confirm_cancel [1] pending_dialogs)) \<union> set (dg_running (confirm_cancel [1] pending_dialogs)) \<union>
      fst ` set (dg_log (confirm_cancel [1] pending_dialogs))" by code_simp
  then have "dialog_step (confirm_cancel [1] pending_dialogs) overtaken_dialogs" unfolding overtaken_dialogs_def by (rule dialog_step.opened_other)
  ultimately have "dialogs_reachable overtaken_dialogs" using pending_reachable dg.reach_step by blast
  moreover have "dg_stack overtaken_dialogs = [\<lparr>dl_id = [2], dl_component = Other_Component,
      dl_options = resolve_options (no_options\<lparr>do_persistent := Some True, do_closable := Some False\<rparr>)\<rparr>]" by code_simp
  ultimately show ?thesis using overtaken_parts
    by (intro exI [of _ overtaken_dialogs] exI) (auto simp: resolve_options_def or_default_def)
qed

section \<open>Dialogs that must be answered\<close>

text \<open>Neither the Escape key nor the overlay nor a close button takes away a dialog that is persistent and not closable.\<close>

lemma protected_dialog_stays:
  assumes "d \<in> set (dg_stack g)" "ro_persistent (dl_options d)" "\<not> ro_closable (dl_options d)" "distinct (map dl_id (dg_stack g))"
  shows "d \<in> set (dg_stack (dialog_keydown k g))" "d \<in> set (dg_stack (overlay_click g))" "d \<in> set (dg_stack (close_button did g))"
proof -
  have same: "e = d" if "e \<in> set (dg_stack g)" "dl_id e = dl_id d" for e using assms(1,4) that by (auto simp: distinct_map inj_on_def)
  have "d \<in> set (butlast (dg_stack g))" if "d \<noteq> last (dg_stack g)"
    using assms(1) that by (cases "dg_stack g" rule: rev_cases) auto
  then show "d \<in> set (dg_stack (dialog_keydown k g))" using assms(1-3) by (auto simp: dialog_keydown_def Let_def)
  have closed: "d \<in> set (dg_stack (closeDialog i g))" if "i \<noteq> dl_id d" for i using assms(1) that by (simp add: closeDialog_def)
  show "d \<in> set (dg_stack (overlay_click g))"
  proof (cases "dg_stack g")
    case (Cons e es)
    then have "dl_id e \<noteq> dl_id d" if "\<not> ro_persistent (dl_options e)" using same [of e] assms(2) that by auto
    then show ?thesis using Cons closed assms(1) by (auto simp: overlay_click_def)
  qed (use assms(1) in simp)
  have "did \<noteq> dl_id d" if "e \<in> set (dg_stack g)" "dl_id e = did" "ro_closable (dl_options e)" for e using same [of e] assms(3) that by auto
  then show "d \<in> set (dg_stack (close_button did g))" using closed [of did] assms(1) by (auto simp: close_button_def list_ex_iff)
qed

end
