(* ===== verification/Portal_Tools.thy ===== *)
theory Portal_Tools
  imports Push_Actions
begin

text \<open>
  The helpers of the tenant portal (\<open>tenant-portal/src/lib/utils.ts\<close>, \<open>lib/credentialsFile.ts\<close>), the minted token and its card (\<open>store/mintedToken.store.ts\<close>,
  \<open>components/shared/MintTokenCard.tsx\<close>), and the recommendations of the assistant (\<open>components/shared/AiAssistantBlob.tsx\<close>), which are read off them.
\<close>

section \<open>Identifiers\<close>

text \<open>The bytes with the version and the variant of a random UUID, and their text as \<open>randomId\<close> builds it.\<close>

definition uuid_v4_bytes :: "bytes \<Rightarrow> bytes" where
  "uuid_v4_bytes bytes = (let b6 = bytes[6 := or (and (bytes ! 6) 0x0F) 0x40] in b6[8 := or (and (b6 ! 8) 0x3F) 0x80])"

definition random_uuid_text :: "bytes \<Rightarrow> js_string" where
  "random_uuid_text bytes =
     (let hex = concat (map byte_hex bytes) in
      js_slice 0 8 hex @ [dash] @ js_slice 8 12 hex @ [dash] @ js_slice 12 16 hex @ [dash] @ js_slice 16 20 hex @ [dash] @ drop 20 hex)"

text \<open>
  What the browser offers: \<open>crypto.randomUUID\<close>, else 16 random bytes, else a text of the clock and \<open>Math.random\<close>, here \<open>fallback\<close>.
\<close>

definition randomId :: "js_string option \<Rightarrow> bytes option \<Rightarrow> js_string \<Rightarrow> js_string" where
  "randomId uuid random_bytes fallback =
     (case uuid of
        Some s \<Rightarrow> s
      | None \<Rightarrow> (case random_bytes of Some bs \<Rightarrow> random_uuid_text (uuid_v4_bytes bs) | None \<Rightarrow> js_of ''id-'' @ fallback))"

lemma nibble_bounds: "drop_bit 4 (or (and (b :: 8 word) 0x0F) 0x40) = 4" "drop_bit 6 (or (and (b :: 8 word) 0x3F) 0x80) = 2"
  by (rule bit_word_eqI; auto simp: bit_simps less_Suc_eq numeral_eq_Suc)+

lemma length_hex: "length (concat (map byte_hex bs)) = 2 * length bs"
  by (induction bs) (simp_all add: byte_hex_def)

lemma random_uuid_text_eq: "length bs = 16 \<Longrightarrow> random_uuid_text bs = bytesToUuid bs"
  by (simp add: random_uuid_text_def bytesToUuid_def js_slice_def Let_def length_hex)

text \<open>
  The identifier made of random bytes is a version 4 UUID in the sense of the protocol: the reader of \<open>protocol.ts\<close> accepts it and gives back 16 bytes that agree with the random ones except
  for the four bits of the version and the two bits of the variant, which are set.
\<close>

theorem randomId_is_uuid_v4:
  assumes "length bs = 16"
  shows "\<exists>b. uuidToBytes (randomId None (Some bs) fallback) = Inr b \<and> length b = 16 \<and> drop_bit 4 (b ! 6) = 4 \<and> drop_bit 6 (b ! 8) = 2 \<and>
    (\<forall>i < 16. i \<noteq> 6 \<longrightarrow> i \<noteq> 8 \<longrightarrow> b ! i = bs ! i)"
proof -
  have l: "length (uuid_v4_bytes bs) = 16" using assms by (simp add: uuid_v4_bytes_def Let_def)
  have "uuidToBytes (randomId None (Some bs) fallback) = Inr (uuid_v4_bytes bs)"
    using uuidToBytes_bytesToUuid [OF l] by (simp add: randomId_def random_uuid_text_eq [OF l])
  moreover have "drop_bit 4 (uuid_v4_bytes bs ! 6) = 4" "drop_bit 6 (uuid_v4_bytes bs ! 8) = 2"
    using assms nibble_bounds by (simp_all add: uuid_v4_bytes_def Let_def)
  ultimately show ?thesis using l assms by (auto simp: uuid_v4_bytes_def Let_def)
qed

theorem randomId_is_uuid_v4_witness:
  "\<exists>b. uuidToBytes (randomId None (Some (replicate 16 0xFF)) []) = Inr b \<and> length b = 16"
  using randomId_is_uuid_v4 [of "replicate 16 0xFF" "[]"] by auto

section \<open>Texts\<close>

definition maskKey :: "js_string \<Rightarrow> js_string" where
  "maskKey key = (if length key \<le> 16 then key else js_slice 0 12 key @ replicate 20 0x2022 @ drop (length key - 4) key)"

text \<open>\<open>upper\<close> is \<open>toUpperCase\<close>. An absent email is \<open>null\<close>.\<close>

definition workspaceNameFromEmail :: "(js_string \<Rightarrow> js_string) \<Rightarrow> js_string option \<Rightarrow> js_string" where
  "workspaceNameFromEmail upper email =
     (if or_default email [] = [] then js_of ''Workspace''
      else let local = hd (js_split 64 (or_default email [])) in
        if local \<noteq> [] then upper (take 1 local) @ drop 1 local else js_of ''Workspace'')"

text \<open>A duration in whole seconds. \<open>Math.round\<close> rounds halves up.\<close>

definition js_round :: "int \<Rightarrow> int \<Rightarrow> int" where
  "js_round n d = (2 * n + d) div (2 * d)"

definition duration_units :: "(js_string \<times> int) list" where
  "duration_units = [(js_of ''day'', 86400), (js_of ''hour'', 3600), (js_of ''minute'', 60)]"

definition formatDuration :: "int \<Rightarrow> js_string" where
  "formatDuration totalSeconds =
     (case find (\<lambda>(_, secs). secs \<le> totalSeconds) duration_units of
        Some (label, secs) \<Rightarrow>
          (let count = js_round totalSeconds secs in js_of_nat (nat count) @ [32] @ label @ (if count = 1 then [] else js_of ''s''))
      | None \<Rightarrow> js_of_nat (nat (max 0 totalSeconds)) @ js_of '' second'' @ (if totalSeconds = 1 then [] else js_of ''s''))"

text \<open>The count is at least one and off by half a unit at most; just below a larger unit it is rounded up to as many small ones.\<close>

lemma duration_rounded:
  assumes "find (\<lambda>(_, secs). secs \<le> t) duration_units = Some (label, secs)"
  shows "1 \<le> js_round t secs" "\<bar>2 * (t - js_round t secs * secs)\<bar> \<le> secs"
proof -
  have s: "0 < secs" "secs \<le> t" using assms by (auto simp: duration_units_def split: if_splits)
  have "(2 * t + secs) mod (2 * secs) < 2 * secs" "0 \<le> (2 * t + secs) mod (2 * secs)" using s by simp_all
  moreover have "2 * t + secs = 2 * secs * js_round t secs + (2 * t + secs) mod (2 * secs)" by (simp add: js_round_def)
  ultimately show b: "\<bar>2 * (t - js_round t secs * secs)\<bar> \<le> secs" by (simp add: algebra_simps abs_le_iff)
  have "(2 * secs) div (2 * secs) \<le> (2 * t + secs) div (2 * secs)" using s by (intro zdiv_mono1) simp_all
  then show "1 \<le> js_round t secs" using s by (simp add: js_round_def)
qed

lemma sixty_minutes: "formatDuration 3599 = js_of ''60 minutes''"
  by code_simp

text \<open>One entry for each line that is not blank (\<open>admin/src/lib/utils.ts\<close>).\<close>

definition parseLineList :: "js_string \<Rightarrow> js_string list" where
  "parseLineList raw = filter (\<lambda>line. length line > 0) (map js_trim (js_split 10 raw))"

section \<open>Kinds of devices\<close>

datatype device_kind = Mobile | Desktop | Other_Kind

definition classifyDeviceKind :: "js_string option \<Rightarrow> device_kind" where
  "classifyDeviceKind deviceLabel =
     (let l = or_default deviceLabel [] in
      if l = [] then Other_Kind
      else if ua_has l ''iPhone'' \<or> ua_has l ''iPad'' \<or> ua_has l ''Android'' then Mobile
      else if ua_has l ''Windows'' \<or> ua_has l ''Mac'' \<or> ua_has l ''Linux'' then Desktop
      else Other_Kind)"

text \<open>
  The classification of a label and the guess of the label belong together: the kind that is read from the label that the SDK made up is the kind of the operating system that the browser named.
\<close>

definition system_kind :: "js_string option \<Rightarrow> device_kind" where
  "system_kind os =
     (case os of None \<Rightarrow> Other_Kind
      | Some s \<Rightarrow> if s \<in> set (map js_of [''iPhone'', ''iPad'', ''Android'']) then Mobile else Desktop)"

lemma device_os_range: "device_os ua \<in> set (None # map (Some \<circ> js_of) [''iPhone'', ''iPad'', ''Android'', ''Mac'', ''Windows'', ''Linux''])"
  by (simp add: device_os_def del: js_of_simps)

lemma device_browser_range: "device_browser ua \<in> set (None # map (Some \<circ> js_of) [''Edge'', ''Opera'', ''Chrome'', ''Firefox'', ''Safari''])"
  by (simp add: device_browser_def del: js_of_simps)

definition label_of :: "js_string option \<Rightarrow> js_string option \<Rightarrow> js_string" where
  "label_of br os =
     (case (br, os) of
        (Some b, Some s) \<Rightarrow> b @ js_of '' on '' @ s | (Some b, None) \<Rightarrow> b | (None, Some s) \<Rightarrow> s | (None, None) \<Rightarrow> js_of ''Unknown device'')"

lemma label_kinds:
  "list_all (\<lambda>br. list_all (\<lambda>os. classifyDeviceKind (Some (label_of br os)) = system_kind os)
      (None # map (Some \<circ> js_of) [''iPhone'', ''iPad'', ''Android'', ''Mac'', ''Windows'', ''Linux'']))
    (None # map (Some \<circ> js_of) [''Edge'', ''Opera'', ''Chrome'', ''Firefox'', ''Safari''])"
  by code_simp

theorem device_kind_of_label: "classifyDeviceKind (Some (guessDeviceLabel (Some ua))) = system_kind (device_os ua)"
proof -
  have "guessDeviceLabel (Some ua) = label_of (device_browser ua) (device_os ua)"
    by (simp add: guessDeviceLabel_def label_of_def)
  then show ?thesis using label_kinds device_os_range [of ua] device_browser_range [of ua] by (simp only: list_all_iff)
qed

section \<open>The clipboard\<close>

datatype clipboard_call = Write_Text js_string | Exec_Copy js_string
datatype clipboard_error = Copy_Failed

text \<open>\<open>written\<close> is \<open>None\<close> without a clipboard and otherwise tells whether the write succeeds; \<open>executed\<close> is the result of \<open>execCommand('copy')\<close>.\<close>

definition copyToClipboard :: "bool option \<Rightarrow> bool \<Rightarrow> js_string \<Rightarrow> (clipboard_error, clipboard_call, unit) run" where
  "copyToClipboard written executed txt =
     (let legacy = (if executed then Inr () else Inl Copy_Failed, [Exec_Copy txt]) in
      case written of
        Some True \<Rightarrow> (Inr (), [Write_Text txt])
      | Some False \<Rightarrow> (fst legacy, Write_Text txt # snd legacy)
      | None \<Rightarrow> legacy)"

section \<open>The minted token\<close>

record minted_credentials =
  mc_token :: js_string
  mc_expiresIn :: int
  mc_tenantId :: js_string
  mc_sub :: js_string
  mc_issuedAt :: js_string
  mc_wsUrl :: js_string

definition buildCredentialsFile :: "(int \<Rightarrow> js_number) \<Rightarrow> minted_credentials \<Rightarrow> json" where
  "buildCredentialsFile num creds = JObj
     [(js_of ''type'', JStr (js_of ''mio_client_credentials'')), (js_of ''tenant_id'', JStr (mc_tenantId creds)), (js_of ''sub'', JStr (mc_sub creds)),
      (js_of ''token'', JStr (mc_token creds)), (js_of ''expires_in'', JNum (num (mc_expiresIn creds))), (js_of ''issued_at'', JStr (mc_issuedAt creds)),
      (js_of ''ws_url'', JStr (mc_wsUrl creds))]"

text \<open>\<open>getTime\<close> is \<open>new Date(s).getTime()\<close>; \<open>None\<close> is \<open>NaN\<close>, with which no comparison holds.\<close>

definition isCredentialsExpired :: "(js_string \<Rightarrow> int option) \<Rightarrow> int \<Rightarrow> minted_credentials \<Rightarrow> bool" where
  "isCredentialsExpired getTime now creds =
     (case getTime (mc_issuedAt creds) of None \<Rightarrow> False | Some t \<Rightarrow> now > t + mc_expiresIn creds * 1000)"

text \<open>The slot of the store, and what the card shows as live.\<close>

definition setCredentials :: "minted_credentials \<Rightarrow> minted_credentials option \<Rightarrow> minted_credentials option" where
  "setCredentials creds slot = Some creds"

definition clearCredentials :: "minted_credentials option \<Rightarrow> minted_credentials option" where
  "clearCredentials slot = None"

definition live_credentials :: "(js_string \<Rightarrow> int option) \<Rightarrow> int \<Rightarrow> minted_credentials option \<Rightarrow> minted_credentials option" where
  "live_credentials getTime now slot =
     (case slot of Some c \<Rightarrow> if \<not> isCredentialsExpired getTime now c then Some c else None | None \<Rightarrow> None)"

section \<open>The assistant\<close>

record workspace_snapshot =
  ws_messagesTotal :: int
  ws_rateLimitedTotal :: int
  ws_channelCount :: nat
  ws_templateCount :: nat
  ws_vapidConfigured :: bool
  ws_deviceCount :: nat

text \<open>The five requests of the effect, each with its value or \<open>None\<close> if it was rejected; the VAPID key may also be \<open>null\<close>.\<close>

definition settled_snapshot :: "(int \<times> int) option \<Rightarrow> 'a list option \<Rightarrow> 'b list option \<Rightarrow> js_string option option \<Rightarrow> 'c list option \<Rightarrow> workspace_snapshot" where
  "settled_snapshot overview channels templates vapidKey devices =
     \<lparr>ws_messagesTotal = (case overview of Some (m, _) \<Rightarrow> m | None \<Rightarrow> 0), ws_rateLimitedTotal = (case overview of Some (_, r) \<Rightarrow> r | None \<Rightarrow> 0),
      ws_channelCount = (case channels of Some cs \<Rightarrow> length cs | None \<Rightarrow> 0), ws_templateCount = (case templates of Some ts \<Rightarrow> length ts | None \<Rightarrow> 0),
      ws_vapidConfigured = (case vapidKey of Some (Some _) \<Rightarrow> True | _ \<Rightarrow> False), ws_deviceCount = (case devices of Some ds \<Rightarrow> length ds | None \<Rightarrow> 0)\<rparr>"

definition DAY_MS :: int where "DAY_MS = 24 * 60 * 60 * 1000"

definition daysUntil :: "(js_string \<Rightarrow> int option) \<Rightarrow> int \<Rightarrow> js_string \<Rightarrow> int \<Rightarrow> int option" where
  "daysUntil getTime now issuedAt expiresInSeconds =
     (case getTime issuedAt of
        None \<Rightarrow> None
      | Some t \<Rightarrow> Some (max 0 (- ((- (t + expiresInSeconds * 1000 - now)) div DAY_MS))))"

text \<open>What is recommended; the number is the one in the text.\<close>

datatype recommendation =
    Token_Expired
  | Token_Expiring_Soon int
  | Web_Push_Not_Configured
  | No_Devices_Subscribed
  | No_Channels_Yet
  | No_Templates_Yet
  | Rate_Limited int
  | All_Good int

definition computeRecommendation :: "(js_string \<Rightarrow> int option) \<Rightarrow> int \<Rightarrow> workspace_snapshot \<Rightarrow> minted_credentials option \<Rightarrow> recommendation" where
  "computeRecommendation getTime now snapshot credentials =
     (let others =
        (if \<not> ws_vapidConfigured snapshot then Web_Push_Not_Configured
         else if ws_deviceCount snapshot = 0 then No_Devices_Subscribed
         else if ws_channelCount snapshot = 0 then No_Channels_Yet
         else if ws_templateCount snapshot = 0 then No_Templates_Yet
         else if ws_rateLimitedTotal snapshot > 0 then Rate_Limited (ws_rateLimitedTotal snapshot)
         else All_Good (ws_messagesTotal snapshot)) in
      case credentials of
        None \<Rightarrow> others
      | Some c \<Rightarrow>
          if isCredentialsExpired getTime now c then Token_Expired
          else (case daysUntil getTime now (mc_issuedAt c) (mc_expiresIn c) of
              Some days \<Rightarrow> if days \<le> 3 then Token_Expiring_Soon days else others
            | None \<Rightarrow> others))"

text \<open>The route of its link.\<close>

fun recommendation_to :: "recommendation \<Rightarrow> js_string" where
  "recommendation_to Token_Expired = js_of ''/keys''"
| "recommendation_to (Token_Expiring_Soon _) = js_of ''/keys''"
| "recommendation_to Web_Push_Not_Configured = js_of ''/docs''"
| "recommendation_to No_Devices_Subscribed = js_of ''/embed''"
| "recommendation_to No_Channels_Yet = js_of ''/broadcasting''"
| "recommendation_to No_Templates_Yet = js_of ''/templates''"
| "recommendation_to (Rate_Limited _) = js_of ''/broadcasting''"
| "recommendation_to (All_Good _) = js_of ''/overview''"

lemma days_at_most: "- ((- d) div DAY_MS) \<le> 3 \<longleftrightarrow> d \<le> 3 * DAY_MS" for d :: int
  unfolding DAY_MS_def by simp linarith

text \<open>
  The assistant sends the tenant to the keys exactly if a token with a readable date has expired or expires within three days, whatever else is missing in the workspace.
\<close>

theorem token_recommended_first:
  "recommendation_to (computeRecommendation getTime now snapshot credentials) = js_of ''/keys'' \<longleftrightarrow>
    (\<exists>c t. credentials = Some c \<and> getTime (mc_issuedAt c) = Some t \<and> t + mc_expiresIn c * 1000 - now \<le> 3 * DAY_MS)"
proof (cases credentials)
  case (Some c)
  show ?thesis
  proof (cases "getTime (mc_issuedAt c)")
    case None
    then show ?thesis using Some by (simp add: computeRecommendation_def isCredentialsExpired_def daysUntil_def Let_def)
  next
    case (Some t)
    let ?d = "t + mc_expiresIn c * 1000 - now"
    have "0 < DAY_MS" by (simp add: DAY_MS_def)
    then have "?d \<le> 3 * DAY_MS" if "?d < 0" using that by linarith
    moreover have "max 0 (- ((- ?d) div DAY_MS)) \<le> 3 \<longleftrightarrow> ?d \<le> 3 * DAY_MS" using days_at_most [of ?d] by simp
    ultimately show ?thesis using \<open>credentials = Some c\<close> Some
      by (simp add: computeRecommendation_def isCredentialsExpired_def daysUntil_def Let_def)
  qed
qed (simp add: computeRecommendation_def Let_def)

end
