(* ===== verification/Assistant_Window.thy ===== *)
theory Assistant_Window
  imports React_Push Template_Editor
begin

text \<open>
  The floating assistant of the React SDK (\<open>sdk-react/src/AiAssistantBlob.tsx\<close>): the state of the component, its effects with their cleanups, and what it renders. Coordinates are rational numbers;
  \<open>Math.hypot\<close> is an argument.
\<close>

section \<open>Colours and storage\<close>

text \<open>\<open>/^#([0-9a-fA-F]{6})$/\<close>, and the three bytes in decimal.\<close>

definition is_hex6 :: "js_string \<Rightarrow> bool" where
  "is_hex6 hex \<longleftrightarrow> length hex = 7 \<and> hd hex = 35 \<and> list_all (\<lambda>u. case digit_val u of Some d \<Rightarrow> d < 16 | None \<Rightarrow> False) (tl hex)"

definition hexToRgbTriplet :: "js_string \<Rightarrow> js_string" where
  "hexToRgbTriplet hex =
     (if \<not> is_hex6 hex then js_of ''17, 24, 39''
      else let v = tl hex; byte = (\<lambda>i. js_of_nat (unat (parse_hex (js_slice i (i + 2) v)))) in
        byte 0 @ js_of '', '' @ byte 2 @ js_of '', '' @ byte 4)"

definition docked_key :: "js_string \<Rightarrow> js_string" where
  "docked_key storageKey = storageKey @ js_of '':docked''"

definition readDocked :: "js_string option \<Rightarrow> local_storage \<Rightarrow> bool" where
  "readDocked storageKey st =
     (let k = or_default storageKey [] in
      k \<noteq> [] \<and> ls_readable st \<and> jget (ls_items st) (docked_key k) = Some (js_of ''1''))"

definition writeDocked :: "js_string option \<Rightarrow> bool \<Rightarrow> local_storage \<Rightarrow> local_storage" where
  "writeDocked storageKey docked st =
     (let k = or_default storageKey [] in
      if k \<noteq> [] \<and> ls_writable st then st\<lparr>ls_items := jset (docked_key k) (if docked then js_of ''1'' else js_of ''0'') (ls_items st)\<rparr> else st)"

section \<open>The eyes\<close>

definition EYE_ACTIVATION_RADIUS :: rat where "EYE_ACTIVATION_RADIUS = 160"
definition MAX_EYE_OFFSET :: rat where "MAX_EYE_OFFSET = 5 / 2"

text \<open>The rectangle of the blob: left, top, width and height.\<close>

type_synonym rect = "rat \<times> rat \<times> rat \<times> rat"

definition eye_offset :: "(rat \<Rightarrow> rat \<Rightarrow> rat) \<Rightarrow> rect \<Rightarrow> rat \<times> rat \<Rightarrow> rat \<times> rat" where
  "eye_offset hyp r mouse =
     (case r of (l, t, width, height) \<Rightarrow>
      let dx = fst mouse - (l + width / 2); dy = snd mouse - (t + height / 2); dist = hyp dx dy in
      if dist = 0 \<or> EYE_ACTIVATION_RADIUS \<le> dist then (0, 0)
      else let pull = 1 - dist / EYE_ACTIVATION_RADIUS in
        (dx / dist * MAX_EYE_OFFSET * pull, dy / dist * MAX_EYE_OFFSET * pull))"

section \<open>The component\<close>

text \<open>
  \<open>as_raf\<close> tells whether \<open>rafRef\<close> holds a frame request; \<open>as_frame\<close> is the request that the browser still has, with the position of the mouse. \<open>as_tasks\<close> are the calls of
  \<open>onTaskSubmit\<close>.
\<close>

record assistant =
  as_open :: bool
  as_docked :: bool
  as_eye :: "rat \<times> rat"
  as_draft :: js_string
  as_raf :: bool
  as_frame :: "(rat \<times> rat) option"
  as_storage :: local_storage
  as_tasks :: "js_string list"

text \<open>The state at first, with the effect that writes it.\<close>

definition assistant_mount :: "js_string option \<Rightarrow> local_storage \<Rightarrow> assistant" where
  "assistant_mount storageKey st =
     (let docked = readDocked storageKey st in
      \<lparr>as_open = False, as_docked = docked, as_eye = (0, 0), as_draft = [], as_raf = False, as_frame = None,
       as_storage = writeDocked storageKey docked st, as_tasks = []\<rparr>)"

text \<open>
  \<open>setDocked\<close> with the effects that depend on it: the state is written, and when the window is docked the cleanup removes the mouse listener and cancels the frame. The reference to the
  frame keeps its value.
\<close>

definition set_docked :: "js_string option \<Rightarrow> bool \<Rightarrow> assistant \<Rightarrow> assistant" where
  "set_docked storageKey docked a =
     (if docked = as_docked a then a
      else a\<lparr>as_docked := docked, as_storage := writeDocked storageKey docked (as_storage a), as_frame := (if docked then None else as_frame a)\<rparr>)"

definition handleMouseMove :: "rat \<times> rat \<Rightarrow> assistant \<Rightarrow> assistant" where
  "handleMouseMove mouse a = (if as_docked a \<or> as_raf a then a else a\<lparr>as_raf := True, as_frame := Some mouse\<rparr>)"

definition eye_frame :: "(rat \<Rightarrow> rat \<Rightarrow> rat) \<Rightarrow> rect \<Rightarrow> assistant \<Rightarrow> assistant" where
  "eye_frame hyp r a =
     (case as_frame a of None \<Rightarrow> a | Some mouse \<Rightarrow> a\<lparr>as_raf := False, as_frame := None, as_eye := eye_offset hyp r mouse\<rparr>)"

text \<open>The listeners for clicks outside and for Escape are there while the window is open.\<close>

definition handleClickOutside :: "bool \<Rightarrow> bool \<Rightarrow> assistant \<Rightarrow> assistant" where
  "handleClickOutside in_panel in_blob a = (if as_open a \<and> \<not> in_panel \<and> \<not> in_blob then a\<lparr>as_open := False\<rparr> else a)"

definition handleEscape :: "js_string \<Rightarrow> assistant \<Rightarrow> assistant" where
  "handleEscape key a = (if as_open a \<and> key = js_of ''Escape'' then a\<lparr>as_open := False\<rparr> else a)"

definition handleBlobClick :: "js_string option \<Rightarrow> assistant \<Rightarrow> assistant" where
  "handleBlobClick storageKey a = (if as_docked a then set_docked storageKey False a else a\<lparr>as_open := \<not> as_open a\<rparr>)"

definition handleKeepAside :: "js_string option \<Rightarrow> assistant \<Rightarrow> assistant" where
  "handleKeepAside storageKey a = set_docked storageKey True (a\<lparr>as_open := False\<rparr>)"

definition handleTaskSubmit :: "assistant \<Rightarrow> assistant" where
  "handleTaskSubmit a =
     (let task = js_trim (as_draft a) in if task = [] then a else a\<lparr>as_tasks := as_tasks a @ [task], as_draft := []\<rparr>)"

text \<open>A click on the link: whether the navigation is prevented, whether \<open>onClick\<close> is called, and the window closes.\<close>

definition cta_click :: "bool \<Rightarrow> js_string option \<Rightarrow> assistant \<Rightarrow> bool \<times> bool \<times> assistant" where
  "cta_click has_onClick href a = (has_onClick \<and> or_default href [] = [], has_onClick, a\<lparr>as_open := False\<rparr>)"

text \<open>What can happen; the buttons and the form of the panel are there only while it is shown.\<close>

datatype assistant_op =
    A_Mouse "rat \<times> rat"
  | A_Frame rect
  | A_Outside bool bool
  | A_Key js_string
  | A_Blob
  | A_Aside
  | A_Close
  | A_Cta bool "js_string option"
  | A_Draft js_string
  | A_Submit

fun assistant_step :: "(rat \<Rightarrow> rat \<Rightarrow> rat) \<Rightarrow> js_string option \<Rightarrow> assistant_op \<Rightarrow> assistant \<Rightarrow> assistant" where
  "assistant_step hyp key (A_Mouse mouse) a = handleMouseMove mouse a"
| "assistant_step hyp key (A_Frame r) a = eye_frame hyp r a"
| "assistant_step hyp key (A_Outside in_panel in_blob) a = handleClickOutside in_panel in_blob a"
| "assistant_step hyp key (A_Key k) a = handleEscape k a"
| "assistant_step hyp key A_Blob a = handleBlobClick key a"
| "assistant_step hyp key A_Aside a = (if as_open a \<and> \<not> as_docked a then handleKeepAside key a else a)"
| "assistant_step hyp key A_Close a = (if as_open a \<and> \<not> as_docked a then a\<lparr>as_open := False\<rparr> else a)"
| "assistant_step hyp key (A_Cta has_onClick href) a = (if as_open a \<and> \<not> as_docked a then snd (snd (cta_click has_onClick href a)) else a)"
| "assistant_step hyp key (A_Draft s) a = (if as_open a \<and> \<not> as_docked a then a\<lparr>as_draft := s\<rparr> else a)"
| "assistant_step hyp key A_Submit a = (if as_open a \<and> \<not> as_docked a then handleTaskSubmit a else a)"

section \<open>What it renders\<close>

text \<open>
  The properties of the component, with their defaults. The icons of the library \<open>lucide-react\<close> and the node given as \<open>ar_icon\<close> are elements like others; a text beside elements is an element named
  \<open>#text\<close>. A number in a style is written the way React writes it, in pixels.
\<close>

record assistant_stat =
  ar_value :: js_string
  ar_unit :: js_string

record assistant_cta =
  ar_label :: js_string
  ar_href :: "js_string option"
  ar_onClick :: bool

record assistant_recommendation =
  ar_icon :: "element option"
  ar_category :: js_string
  ar_stat :: "assistant_stat option"
  ar_description :: js_string
  ar_cta :: "assistant_cta option"

record assistant_props =
  ai_name :: js_string
  ai_greeting :: "(js_string \<Rightarrow> js_string) option"
  ai_subtitle :: "js_string option"
  ai_loadingText :: "js_string option"
  ai_recommendation :: "assistant_recommendation option"
  ai_position :: "js_string option"
  ai_taskPlaceholder :: "js_string option"
  ai_closeAriaLabel :: "js_string option"
  ai_keepAsideAriaLabel :: "js_string option"
  ai_accentFrom :: "js_string option"
  ai_accentTo :: "js_string option"
  ai_theme :: "js_string option"
  ai_className :: "js_string option"

definition p_greeting :: "assistant_props \<Rightarrow> js_string" where
  "p_greeting pr = or_default (ai_greeting pr) (\<lambda>n. js_of ''Hi, '' @ n @ js_of ''!'') (ai_name pr)"

definition p_subtitle :: "assistant_props \<Rightarrow> js_string" where
  "p_subtitle pr = or_default (ai_subtitle pr) (js_of ''I have a recommendation for you.'')"

definition p_loadingText :: "assistant_props \<Rightarrow> js_string" where
  "p_loadingText pr = or_default (ai_loadingText pr) (js_of ''Give me a second, I'' @ [39] @ js_of ''m looking around your workspace'' @ [0x2026])"

definition p_position :: "assistant_props \<Rightarrow> js_string" where
  "p_position pr = or_default (ai_position pr) (js_of ''bottom-right'')"

definition p_taskPlaceholder :: "assistant_props \<Rightarrow> js_string" where
  "p_taskPlaceholder pr = or_default (ai_taskPlaceholder pr) (js_of ''Describe your task'' @ [0x2026])"

definition p_closeAriaLabel :: "assistant_props \<Rightarrow> js_string" where
  "p_closeAriaLabel pr = or_default (ai_closeAriaLabel pr) (js_of ''Close'')"

definition p_keepAsideAriaLabel :: "assistant_props \<Rightarrow> js_string" where
  "p_keepAsideAriaLabel pr = or_default (ai_keepAsideAriaLabel pr) (js_of ''Keep aside'')"

definition p_accentFrom :: "assistant_props \<Rightarrow> js_string" where
  "p_accentFrom pr = or_default (ai_accentFrom pr) (js_of ''#ff2ea6'')"

definition p_accentTo :: "assistant_props \<Rightarrow> js_string" where
  "p_accentTo pr = or_default (ai_accentTo pr) (js_of ''#7c3aed'')"

definition p_dark :: "assistant_props \<Rightarrow> bool" where
  "p_dark pr \<longleftrightarrow> or_default (ai_theme pr) (js_of ''light'') = js_of ''dark''"

definition panelBg :: "bool \<Rightarrow> js_string" where "panelBg dark = js_of (if dark then ''#1e1f26'' else ''#ffffff'')"
definition panelFg :: "bool \<Rightarrow> js_string" where "panelFg dark = js_of (if dark then ''#f3f3f5'' else ''#1a1a1a'')"
definition panelMuted :: "bool \<Rightarrow> js_string" where "panelMuted dark = js_of (if dark then ''#a3a3ab'' else ''#6b7280'')"
definition panelBorder :: "bool \<Rightarrow> js_string" where "panelBorder dark = js_of (if dark then ''#33343d'' else ''#e5e5e5'')"
definition panelDivider :: "bool \<Rightarrow> js_string" where "panelDivider dark = js_of (if dark then ''#2c2d34'' else ''#eeeeee'')"
definition chipBg :: "bool \<Rightarrow> js_string" where "chipBg dark = js_of (if dark then ''#2a2b33'' else ''#f3f4f6'')"

definition inputClassName :: "bool \<Rightarrow> js_string" where
  "inputClassName dark = js_of (if dark then ''mio-ai-task-input-dark'' else ''mio-ai-task-input-light'')"

definition CORNER_STYLE :: "(js_string \<times> css) list" where
  "CORNER_STYLE =
     [(js_of ''bottom-right'', css_of [(''bottom'', ''24px''), (''right'', ''24px'')]),
      (js_of ''bottom-left'', css_of [(''bottom'', ''24px''), (''left'', ''24px'')]),
      (js_of ''top-right'', css_of [(''top'', ''24px''), (''right'', ''24px'')]),
      (js_of ''top-left'', css_of [(''top'', ''24px''), (''left'', ''24px'')])]"

definition PANEL_CORNER_STYLE :: "(js_string \<times> css) list" where
  "PANEL_CORNER_STYLE =
     [(js_of ''bottom-right'', css_of [(''bottom'', ''92px''), (''right'', ''24px'')]),
      (js_of ''bottom-left'', css_of [(''bottom'', ''92px''), (''left'', ''24px'')]),
      (js_of ''top-right'', css_of [(''top'', ''92px''), (''right'', ''24px'')]),
      (js_of ''top-left'', css_of [(''top'', ''92px''), (''left'', ''24px'')])]"

definition ends_right :: "js_string \<Rightarrow> bool" where
  "ends_right position \<longleftrightarrow> suffix (js_of ''right'') position"

definition dockedStyle :: "js_string \<Rightarrow> css" where
  "dockedStyle position =
     css_of [(''top'', ''50%''), (''transform'', ''translateY(-50%)''), if ends_right position then (''right'', ''-30px'') else (''left'', ''-30px'')]"

definition iconButtonStyle :: css where
  "iconButtonStyle =
     css_of [(''display'', ''flex''), (''height'', ''24px''), (''width'', ''24px''), (''alignItems'', ''center''), (''justifyContent'', ''center''),
       (''border'', ''none''), (''background'', ''transparent''), (''color'', ''#9ca3af''), (''fontSize'', ''16px''), (''lineHeight'', ''1''),
       (''cursor'', ''pointer''), (''borderRadius'', ''6px''), (''padding'', ''0'')]"

definition ChevronIcon :: "js_string \<Rightarrow> element" where
  "ChevronIcon position = Element ''span'' [] (css_of [(''fontSize'', ''13px'')]) [if ends_right position then 0x203A else 0x2039] []"

definition assistant_style_lines :: "string list" where
  "assistant_style_lines =
     [''@keyframes mio-ai-blob-float { 0%, 100% { transform: translateY(0) scale(1); } 50% { transform: translateY(-6px) scale(1.03); } }'',
      ''@keyframes mio-ai-blob-blink { 0%, 92%, 100% { transform: scaleY(1); } 96% { transform: scaleY(0.15); } }'',
      ''@keyframes mio-ai-panel-pop { from { opacity: 0; transform: scale(0.92) translateY(10px); } to { opacity: 1; transform: scale(1) translateY(0); } }'',
      ''.mio-ai-task-input-light::placeholder { color: #9ca3af; }'',
      ''.mio-ai-task-input-dark::placeholder { color: #6b7280; }'']"

text \<open>The lines stand indented by eight blanks between line breaks.\<close>

definition assistant_style :: element where
  "assistant_style =
     Element ''style'' [] [] (10 # concat (map (\<lambda>l. replicate 8 32 @ js_of l @ [10]) assistant_style_lines) @ replicate 6 32) []"

definition panel_button :: "bool \<Rightarrow> js_string \<Rightarrow> js_string \<Rightarrow> element list \<Rightarrow> element" where
  "panel_button dark label txt children =
     Element ''button'' [(''type'', js_of ''button''), (''aria-label'', label), (''title'', label)]
       (jset (js_of ''color'') (panelMuted dark) iconButtonStyle) txt children"

definition panel_head :: "assistant_props \<Rightarrow> element" where
  "panel_head pr =
     (let dark = p_dark pr in
      Element ''div'' [] (css_of [(''display'', ''flex''), (''alignItems'', ''flex-start''), (''justifyContent'', ''space-between''), (''gap'', ''8px''),
         (''padding'', ''20px 20px 12px'')]) []
       [Element ''div'' [] [] []
          [Element ''p'' [] (css_of [(''margin'', ''0''), (''fontSize'', ''16px''), (''fontWeight'', ''600'')]) (p_greeting pr) [],
           Element ''p'' [] (css_of [(''margin'', ''2px 0 0''), (''fontSize'', ''13px'')] @ [(js_of ''color'', panelMuted dark)]) (p_subtitle pr) []],
        Element ''div'' [] (css_of [(''display'', ''flex''), (''gap'', ''4px''), (''flexShrink'', ''0'')]) []
          [panel_button dark (p_keepAsideAriaLabel pr) [] [ChevronIcon (p_position pr)],
           panel_button dark (p_closeAriaLabel pr) [0xD7] []]])"

definition stat_row :: "assistant_props \<Rightarrow> assistant_stat \<Rightarrow> element" where
  "stat_row pr stat =
     Element ''p'' [] (css_of [(''margin'', ''16px 0 0''), (''display'', ''flex''), (''alignItems'', ''baseline''), (''gap'', ''8px'')]) []
       [Element ''span'' [] (css_of [(''fontSize'', ''44px''), (''fontWeight'', ''700''), (''lineHeight'', ''1'')] @
          [(js_of ''backgroundImage'', js_of ''linear-gradient(135deg, '' @ p_accentFrom pr @ js_of '', '' @ p_accentTo pr @ js_of '')'')] @
          css_of [(''WebkitBackgroundClip'', ''text''), (''backgroundClip'', ''text''), (''color'', ''transparent''), (''fontVariantNumeric'', ''tabular-nums'')])
          (ar_value stat) [],
        Element ''span'' [] (css_of [(''fontSize'', ''13px'')] @ [(js_of ''color'', panelMuted (p_dark pr))]) (ar_unit stat) []]"

definition cta_link :: "bool \<Rightarrow> assistant_cta \<Rightarrow> element" where
  "cta_link dark cta =
     Element ''a'' [(''href'', or_default (ar_href cta) (js_of ''#''))]
       (css_of [(''display'', ''inline-block''), (''marginTop'', ''16px''), (''marginBottom'', ''20px''), (''padding'', ''8px 16px''), (''borderRadius'', ''999px'')] @
        [(js_of ''background'', chipBg dark), (js_of ''color'', panelFg dark)] @
        css_of [(''fontSize'', ''13px''), (''fontWeight'', ''600''), (''textDecoration'', ''none''), (''cursor'', ''pointer'')])
       (ar_label cta) []"

definition panel_body :: "assistant_props \<Rightarrow> element" where
  "panel_body pr =
     (let dark = p_dark pr in
      Element ''div'' [] (css_of [(''padding'', ''0 20px'')]) []
       (case ai_recommendation pr of
          None \<Rightarrow> [Element ''p'' [] (css_of [(''margin'', ''8px 0 24px''), (''fontSize'', ''13px'')] @ [(js_of ''color'', panelMuted dark)]) (p_loadingText pr) []]
        | Some r \<Rightarrow>
            [Element ''div'' [] (css_of [(''display'', ''flex''), (''alignItems'', ''center''), (''gap'', ''8px''), (''fontSize'', ''13px'')] @
               [(js_of ''color'', panelMuted dark)]) []
               ((case ar_icon r of None \<Rightarrow> []
                 | Some icon \<Rightarrow>
                     [Element ''span'' [] (css_of [(''display'', ''flex''), (''height'', ''24px''), (''width'', ''24px''), (''alignItems'', ''center''),
                        (''justifyContent'', ''center''), (''borderRadius'', ''6px'')] @ [(js_of ''background'', chipBg dark)]) [] [icon]]) @
                [Element ''#text'' [] [] (ar_category r) []])] @
            (case ar_stat r of None \<Rightarrow> [] | Some stat \<Rightarrow> [stat_row pr stat]) @
            [Element ''p'' [] (css_of [(''margin'', ''16px 0 0''), (''fontSize'', ''14px''), (''lineHeight'', ''1.5'')]) (ar_description r) []] @
            (case ar_cta r of None \<Rightarrow> [] | Some cta \<Rightarrow> [cta_link dark cta])))"

definition panel_form :: "assistant_props \<Rightarrow> js_string \<Rightarrow> element" where
  "panel_form pr taskDraft =
     (let dark = p_dark pr; ready = js_trim taskDraft \<noteq> [] in
      Element ''form'' []
       (css_of [(''display'', ''flex''), (''alignItems'', ''center''), (''gap'', ''8px'')] @
        [(js_of ''borderTop'', js_of ''1px solid '' @ panelDivider dark)] @ css_of [(''padding'', ''12px'')]) []
       [Element ''span'' [] ([(js_of ''color'', panelMuted dark)] @ css_of [(''fontSize'', ''16px''), (''flexShrink'', ''0'')]) (js_of ''+'') [],
        Element ''input'' [(''value'', taskDraft), (''placeholder'', p_taskPlaceholder pr), (''class'', inputClassName dark)]
          (css_of [(''flex'', ''1''), (''minWidth'', ''0''), (''border'', ''none''), (''outline'', ''none''), (''background'', ''transparent''), (''fontSize'', ''13px'')] @
           [(js_of ''color'', panelFg dark)]) [] [],
        Element ''button'' [(''type'', js_of ''submit''), (''aria-label'', js_of ''Send'')]
          (css_of [(''border'', ''none''), (''background'', ''transparent'')] @ [(js_of ''color'', panelMuted dark)] @
           css_of [(''cursor'', if ready then ''pointer'' else ''default''), (''padding'', ''0'')]) []
          [Element (if ready then ''Send'' else ''Mic'') [(''size'', js_of ''14'')] [] [] []]])"

definition assistant_panel :: "assistant_props \<Rightarrow> assistant \<Rightarrow> element" where
  "assistant_panel pr a =
     (let dark = p_dark pr in
      Element ''div'' [(''role'', js_of ''dialog''), (''aria-label'', p_subtitle pr)]
       (css_of [(''position'', ''fixed''), (''zIndex'', ''2147483000''), (''width'', ''352px''), (''maxWidth'', ''calc(100vw - 48px)'')] @
        [(js_of ''background'', panelBg dark), (js_of ''color'', panelFg dark), (js_of ''border'', js_of ''1px solid '' @ panelBorder dark)] @
        css_of [(''borderRadius'', ''16px''), (''boxShadow'', ''0 20px 48px rgba(0,0,0,0.2)''),
          (''fontFamily'', ''system-ui, -apple-system, Segoe UI, Roboto, sans-serif''),
          (''animation'', ''mio-ai-panel-pop 0.18s cubic-bezier(0.16, 1, 0.3, 1)''), (''boxSizing'', ''border-box'')] @
        or_default (jget PANEL_CORNER_STYLE (p_position pr)) []) []
       [panel_head pr, panel_body pr, panel_form pr (as_draft a)])"

definition blob_eye :: "string \<Rightarrow> element" where
  "blob_eye px =
     Element ''span'' [] (css_of [(''height'', px), (''width'', px), (''borderRadius'', ''50%''), (''background'', ''#fff''),
       (''animation'', ''mio-ai-blob-blink 4.5s ease-in-out infinite'')]) [] []"

text \<open>\<open>num\<close> writes a number as text.\<close>

definition assistant_blob :: "(rat \<Rightarrow> js_string) \<Rightarrow> assistant_props \<Rightarrow> assistant \<Rightarrow> element" where
  "assistant_blob num pr a =
     Element ''button'' [(''type'', js_of ''button''), (''aria-label'', p_subtitle pr)]
       (css_of [(''position'', ''fixed''), (''zIndex'', ''2147483000''), (''height'', ''56px''), (''width'', ''56px''), (''padding'', ''0''), (''border'', ''none''),
          (''borderRadius'', ''50%''), (''cursor'', ''pointer''), (''background'', ''transparent''),
          (''transition'', ''top 0.3s ease, right 0.3s ease, bottom 0.3s ease, left 0.3s ease, transform 0.15s ease'')] @
        (if as_docked a then dockedStyle (p_position pr)
         else css_of [(''animation'', ''mio-ai-blob-float 3.2s ease-in-out infinite'')] @ or_default (jget CORNER_STYLE (p_position pr)) [])) []
       [Element ''span'' []
          (css_of [(''position'', ''relative''), (''display'', ''block''), (''height'', ''100%''), (''width'', ''100%''), (''borderRadius'', ''50%'')] @
           [(js_of ''background'', js_of ''radial-gradient(circle at 30% 28%, '' @ p_accentFrom pr @ js_of '' 0%, '' @ p_accentTo pr @ js_of '' 100%)''),
            (js_of ''boxShadow'', js_of ''0 8px 24px -4px rgba('' @ hexToRgbTriplet (p_accentTo pr) @ js_of '', 0.5)'')]) []
          [Element ''span'' []
             (css_of [(''position'', ''absolute''), (''inset'', ''0''), (''borderRadius'', ''50%''),
               (''background'', ''radial-gradient(circle at 32% 24%, rgba(255,255,255,0.55), transparent 45%)''), (''pointerEvents'', ''none'')]) [] [],
           Element ''span'' []
             (css_of [(''position'', ''absolute''), (''left'', ''50%''), (''top'', ''50%''), (''display'', ''flex''), (''alignItems'', ''center''), (''gap'', ''6px'')] @
              [(js_of ''transform'', js_of ''translate(calc(-50% + '' @ num (fst (as_eye a)) @ js_of ''px), calc(-50% + '' @ num (snd (as_eye a)) @ js_of ''px))'')]) []
             [blob_eye ''8px'', blob_eye ''10px'']]]"

definition AiAssistantBlob :: "(rat \<Rightarrow> js_string) \<Rightarrow> assistant_props \<Rightarrow> assistant \<Rightarrow> element" where
  "AiAssistantBlob num pr a =
     Element ''div'' (case ai_className pr of None \<Rightarrow> [] | Some c \<Rightarrow> [(''class'', c)]) [] []
       ([assistant_style] @ (if as_open a \<and> \<not> as_docked a then [assistant_panel pr a] else []) @ [assistant_blob num pr a])"

section \<open>What always holds\<close>

definition near :: "rat \<times> rat \<Rightarrow> bool" where
  "near e \<longleftrightarrow> \<bar>fst e\<bar> \<le> MAX_EYE_OFFSET \<and> \<bar>snd e\<bar> \<le> MAX_EYE_OFFSET"

definition assistant_ok :: "js_string option \<Rightarrow> assistant \<Rightarrow> bool" where
  "assistant_ok key a \<longleftrightarrow> (as_docked a \<longrightarrow> \<not> as_open a) \<and> near (as_eye a) \<and> list_all (\<lambda>t. t \<noteq> [] \<and> js_trim t = t) (as_tasks a) \<and>
     (or_default key [] \<noteq> [] \<longrightarrow> ls_readable (as_storage a) \<longrightarrow> ls_writable (as_storage a) \<longrightarrow> readDocked key (as_storage a) = as_docked a)"

lemma pulled:
  fixes d x :: rat
  assumes "\<bar>x\<bar> \<le> d" "0 < d" "d < 160"
  shows "\<bar>x / d * (5 / 2) * (1 - d / 160)\<bar> \<le> 5 / 2"
proof -
  have "\<bar>x / d\<bar> \<le> 1" "\<bar>1 - d / 160\<bar> \<le> 1" using assms by (simp_all add: abs_le_iff field_simps)
  then have "\<bar>x / d\<bar> * \<bar>1 - d / 160\<bar> \<le> 1 * 1" by (intro mult_mono) simp_all
  then show ?thesis by (simp add: abs_mult)
qed

lemma near_eye_offset:
  assumes "\<And>x y. \<bar>x\<bar> \<le> hyp x y \<and> \<bar>y\<bar> \<le> hyp x y"
  shows "near (eye_offset hyp r mouse)"
proof -
  obtain l t width height where r: "r = (l, t, width, height)" by (metis prod_cases4)
  let ?dx = "fst mouse - (l + width / 2)" and ?dy = "snd mouse - (t + height / 2)"
  let ?d = "hyp ?dx ?dy"
  show ?thesis
  proof (cases "?d = 0 \<or> 160 \<le> ?d")
    case False
    have "\<bar>?dx\<bar> \<le> ?d" "\<bar>?dy\<bar> \<le> ?d" using assms by blast+
    moreover from this have "0 < ?d" using False by linarith
    ultimately show ?thesis using False pulled [of ?dx ?d] pulled [of ?dy ?d]
      by (simp add: r eye_offset_def Let_def near_def EYE_ACTIVATION_RADIUS_def MAX_EYE_OFFSET_def)
  qed (simp add: r eye_offset_def Let_def near_def EYE_ACTIVATION_RADIUS_def MAX_EYE_OFFSET_def)
qed

lemma read_written:
  "or_default key [] \<noteq> [] \<Longrightarrow> ls_readable st \<Longrightarrow> ls_writable st \<Longrightarrow> readDocked key (writeDocked key d st) = d"
  by (simp add: readDocked_def writeDocked_def Let_def jmap_simps)

lemma written_access [simp]: "ls_readable (writeDocked key d st) = ls_readable st" "ls_writable (writeDocked key d st) = ls_writable st"
  by (simp_all add: writeDocked_def Let_def)

lemma assistant_ok_set_docked: "assistant_ok key a \<Longrightarrow> (d \<Longrightarrow> \<not> as_open a) \<Longrightarrow> assistant_ok key (set_docked key d a)"
  by (auto simp: assistant_ok_def set_docked_def read_written)

lemma assistant_ok_step:
  assumes "\<And>x y. \<bar>x\<bar> \<le> hyp x y \<and> \<bar>y\<bar> \<le> hyp x y" "assistant_ok key a"
  shows "assistant_ok key (assistant_step hyp key op a)"
proof (cases op)
  case (A_Frame r)
  then show ?thesis using assms near_eye_offset [of hyp] by (auto simp: assistant_ok_def eye_frame_def split: option.split)
next
  case A_Blob
  then show ?thesis using assms(2) assistant_ok_set_docked [of key a False] by (auto simp: handleBlobClick_def) (auto simp: assistant_ok_def)
next
  case A_Aside
  have "assistant_ok key (a\<lparr>as_open := False\<rparr>)" using assms(2) by (auto simp: assistant_ok_def)
  then show ?thesis using A_Aside assms(2) assistant_ok_set_docked [of key "a\<lparr>as_open := False\<rparr>" True] by (simp add: handleKeepAside_def)
next
  case A_Submit
  then show ?thesis using assms(2) trim_ends(2) by (auto simp: assistant_ok_def handleTaskSubmit_def Let_def)
qed (use assms(2) in \<open>auto simp: assistant_ok_def handleMouseMove_def handleClickOutside_def handleEscape_def cta_click_def\<close>)

lemma assistant_ok_mount: "assistant_ok key (assistant_mount key st)"
  by (auto simp: assistant_ok_def assistant_mount_def Let_def near_def MAX_EYE_OFFSET_def read_written)

text \<open>
  Whatever the visitor does, from the first rendering on: the window is never open while the assistant is kept aside, the eyes stay within 2.5 pixels of their place in both
  directions, every task handed to the application is a trimmed text that is not empty, and where the storage can be read and written it says whether the assistant is kept aside, so
  that a reload finds the same.
\<close>

theorem assistant_invariant:
  assumes "\<And>x y. \<bar>x\<bar> \<le> hyp x y \<and> \<bar>y\<bar> \<le> hyp x y"
  shows "assistant_ok key (fold (assistant_step hyp key) ops (assistant_mount key st))"
proof (rule fold_invariant [where P = "assistant_ok key" and Q = "\<lambda>_. True"])
  show "assistant_ok key (assistant_step hyp key op a)" if "assistant_ok key a" for op a
    using assistant_ok_step [OF assms that] .
qed (simp_all add: assistant_ok_mount)

definition max_norm :: "rat \<Rightarrow> rat \<Rightarrow> rat" where
  "max_norm x y = max \<bar>x\<bar> \<bar>y\<bar>"

lemma assistant_invariant_witness:
  "assistant_ok None (fold (assistant_step max_norm None) [A_Blob, A_Draft (js_of '' hi ''), A_Submit, A_Mouse (60, 70), A_Frame (0, 0, 56, 56)]
     (assistant_mount None \<lparr>ls_items = [], ls_readable = True, ls_writable = True\<rparr>))"
  by (rule assistant_invariant) (simp add: max_norm_def)

section \<open>A frame that is cancelled\<close>

definition frozen :: "assistant \<Rightarrow> bool" where
  "frozen a \<longleftrightarrow> as_raf a \<and> as_frame a = None"

lemma frozen_step:
  assumes "frozen a"
  shows "frozen (assistant_step hyp key op a) \<and> as_eye (assistant_step hyp key op a) = as_eye a"
  using assms
  by (cases op) (auto simp: frozen_def handleMouseMove_def eye_frame_def handleClickOutside_def handleEscape_def handleBlobClick_def set_docked_def handleKeepAside_def
      cta_click_def handleTaskSubmit_def Let_def)

lemma frozen_forever: "frozen a \<Longrightarrow> as_eye (fold (assistant_step hyp key) ops a) = as_eye a"
  by (induction ops arbitrary: a) (simp_all add: frozen_step)

text \<open>
  Opening the window, moving the mouse, keeping the assistant aside before the next frame is drawn and taking it back leaves its eyes at rest for good: the cleanup of the
  listener cancels the frame but \<open>rafRef\<close> keeps its number, and every later move of the mouse takes that for a frame to come.
\<close>

theorem eyes_freeze:
  "as_eye (fold (assistant_step hyp None) ([A_Blob, A_Mouse m, A_Aside, A_Blob] @ ops) (assistant_mount None st)) = (0, 0)"
proof -
  let ?a = "fold (assistant_step hyp None) [A_Blob, A_Mouse m, A_Aside, A_Blob] (assistant_mount None st)"
  have "frozen ?a" "as_eye ?a = (0, 0)"
    by (simp_all add: assistant_mount_def readDocked_def or_default_def Let_def handleBlobClick_def handleMouseMove_def handleKeepAside_def set_docked_def frozen_def)
  then show ?thesis using frozen_forever [of ?a hyp None ops] by (simp only: fold_append o_apply)
qed

section \<open>The page and the state\<close>

text \<open>The elements of a tree.\<close>

fun tree_elements :: "element \<Rightarrow> element list" where
  "tree_elements (Element tag attrs style txt children) = Element tag attrs style txt children # concat (map tree_elements children)"

definition shows_tag :: "string \<Rightarrow> element \<Rightarrow> bool" where
  "shows_tag tag e \<longleftrightarrow> list_ex (\<lambda>c. el_tag c = tag) (tree_elements e)"

lemmas assistant_page_defs = AiAssistantBlob_def assistant_style_def assistant_panel_def panel_head_def panel_body_def panel_form_def panel_button_def ChevronIcon_def
  stat_row_def cta_link_def assistant_blob_def blob_eye_def shows_tag_def Let_def

text \<open>
  While the application gives no icon of its own, the page shows the icon of the paper plane exactly when the window is open and pressing the button would hand a task to the
  application and empty the field.
\<close>

theorem send_icon_sends:
  assumes "\<forall>r. ai_recommendation pr = Some r \<longrightarrow> ar_icon r = None" "assistant_ok key a"
  shows "shows_tag ''Send'' (AiAssistantBlob num pr a) \<longleftrightarrow>
    as_open a \<and> as_tasks (assistant_step hyp key A_Submit a) = as_tasks a @ [js_trim (as_draft a)] \<and> as_draft (assistant_step hyp key A_Submit a) = []"
  using assms
  by (auto simp: assistant_page_defs handleTaskSubmit_def assistant_ok_def split: option.splits)

end
