(* ===== verification/URL_Query.thy ===== *)
theory URL_Query
  imports Popup
begin

text \<open>
  \<open>URLSearchParams\<close>: the query of an address as a list of names and values, in the format \<open>application/x-www-form-urlencoded\<close>, written and read back. The input of the reader is cut before it is
  encoded as UTF-8, which is the same as after it, since the separators are ASCII.
\<close>

section \<open>Writing\<close>

definition form_unreserved :: "byte \<Rightarrow> bool" where
  "form_unreserved b \<longleftrightarrow> (let n = unat b in
     48 \<le> n \<and> n < 58 \<or> 65 \<le> n \<and> n < 91 \<or> 97 \<le> n \<and> n < 123 \<or> n = 42 \<or> n = 45 \<or> n = 46 \<or> n = 95)"

definition upper_hex :: "nat \<Rightarrow> code_unit" where
  "upper_hex n = (if n < 10 then of_nat (48 + n) else of_nat (55 + n))"

definition form_byte :: "byte \<Rightarrow> js_string" where
  "form_byte b =
     (if b = 0x20 then [43]
      else if form_unreserved b then [ucast b]
      else [37, upper_hex (unat b div 16), upper_hex (unat b mod 16)])"

definition form_encode :: "js_string \<Rightarrow> js_string" where
  "form_encode s = concat (map form_byte (text_encode s))"

fun js_join :: "code_unit \<Rightarrow> js_string list \<Rightarrow> js_string" where
  "js_join sep [] = []"
| "js_join sep [s] = s"
| "js_join sep (s # t # ss) = s @ sep # js_join sep (t # ss)"

definition search_of :: "(js_string \<times> js_string) list \<Rightarrow> js_string" where
  "search_of kvs = js_join 38 (map (\<lambda>(k, v). form_encode k @ 61 # form_encode v) kvs)"

section \<open>Reading\<close>

definition byte_digit :: "byte \<Rightarrow> nat option" where
  "byte_digit b = digit_val (ucast b)"

fun percent_decode :: "bytes \<Rightarrow> bytes" where
  "percent_decode (b # h # l # bs) =
     (if b = 0x25 then
        (case (byte_digit h, byte_digit l) of
           (Some x, Some y) \<Rightarrow> of_nat (16 * x + y) # percent_decode bs
         | _ \<Rightarrow> b # percent_decode (h # l # bs))
      else b # percent_decode (h # l # bs))"
| "percent_decode bs = bs"

definition form_decode :: "js_string \<Rightarrow> js_string" where
  "form_decode s = of_scalars (utf8_decode (percent_decode (text_encode (map (\<lambda>u. if u = 43 then 32 else u) s))))"

definition split_pair :: "js_string \<Rightarrow> js_string \<times> js_string" where
  "split_pair piece =
     (case index_of 61 piece of
        Some i \<Rightarrow> (form_decode (take i piece), form_decode (drop (i + 1) piece))
      | None \<Rightarrow> (form_decode piece, form_decode []))"

definition parse_search :: "js_string \<Rightarrow> (js_string \<times> js_string) list" where
  "parse_search s = map split_pair (filter (\<lambda>piece. piece \<noteq> []) (js_split 38 s))"

section \<open>One component\<close>

lemma unat_numeral_43: "unat (43 :: code_unit) = 43"
  by simp

lemma js_split_no_sep: "sep \<notin> set s \<Longrightarrow> js_split sep s = [s]"
  by (induction s) auto

lemma js_split_append_sep: "sep \<notin> set s \<Longrightarrow> js_split sep (s @ sep # r) = s # js_split sep r"
  by (induction s) auto

lemma ascii_text_encode:
  assumes "list_all (\<lambda>u. unat u < 0x80) s"
  shows "text_encode s = map (\<lambda>u. ucast u) s"
  using assms
proof (induction s)
  case (Cons u s)
  have "\<not> cuts_pair [u] s" using Cons.prems by (intro ascii_no_cut) auto
  then have "text_encode (u # s) = text_encode [u] @ text_encode s" using text_encode_append [of "[u]" s] by simp
  moreover have "text_encode [u] = [ucast u]"
    using Cons.prems by (simp add: text_encode_def unit_scalar_def utf8_scalar_def is_high_def is_low_def)
  ultimately show ?case using Cons by simp
qed (simp add: text_encode_def)

lemma unat_upper_hex: "n < 16 \<Longrightarrow> unat (upper_hex n) = (if n < 10 then 48 + n else 55 + n)"
  by (simp add: upper_hex_def unat_of_nat_unit del: of_nat_add)

lemma digit_val_upper_hex: "n < 16 \<Longrightarrow> digit_val (upper_hex n) = Some n"
  by (auto simp: digit_val_def unat_upper_hex Let_def)

text \<open>What a byte is written as, after the blanks are put back and the text is encoded.\<close>

definition byte_text :: "byte \<Rightarrow> bytes" where
  "byte_text b = map (\<lambda>u. ucast (if u = 43 then 32 else u)) (form_byte b)"

lemma unat_unit_of_byte: "unat (ucast (b :: byte) :: code_unit) = unat b"
  by transfer simp

lemma unat_byte_of_unit: "unat (u :: code_unit) < 0x80 \<Longrightarrow> unat (ucast u :: byte) = unat u"
  using unat_of_nat_byte [of "unat u"] by simp

lemma byte_unit: "unat (u :: code_unit) < 0x80 \<Longrightarrow> ucast (ucast u :: byte) = u"
  by (simp add: word_unat_eq_iff unat_unit_of_byte unat_byte_of_unit)

lemma unit_byte: "ucast (ucast (b :: byte) :: code_unit) = b"
  by transfer simp

lemma form_byte_ascii: "list_all (\<lambda>u. unat u < 0x80 \<and> u \<noteq> 38 \<and> u \<noteq> 61) (form_byte b)"
proof -
  have ne: "u \<noteq> 38 \<and> u \<noteq> 61" if "unat u \<noteq> 38" "unat u \<noteq> 61" for u :: code_unit using that by auto
  show ?thesis
  proof (cases "form_unreserved b")
    case True
    then have "unat (ucast b :: code_unit) = unat b" "unat b < 0x80" "unat b \<noteq> 38" "unat b \<noteq> 61"
      by (auto simp: form_unreserved_def Let_def unat_unit_of_byte)
    then show ?thesis using True ne by (simp add: form_byte_def)
  next
    case False
    have "unat (upper_hex n) < 0x80 \<and> upper_hex n \<noteq> 38 \<and> upper_hex n \<noteq> 61" if "n < 16" for n
      using unat_upper_hex [OF that] that ne [of "upper_hex n"] by (auto split: if_splits)
    then show ?thesis using False by (simp add: form_byte_def byte_nibbles)
  qed
qed

lemma decode_byte_text: "percent_decode (byte_text b @ bs) = b # percent_decode bs"
proof -
  have literal: "percent_decode (c # bs) = c # percent_decode bs" if "c \<noteq> 0x25" for c
    using that by (cases bs rule: percent_decode.cases) auto
  consider (blank) "b = 0x20" | (plain) "b \<noteq> 0x20" "form_unreserved b" | (hex) "b \<noteq> 0x20" "\<not> form_unreserved b" by blast
  then show ?thesis
  proof cases
    case blank
    then show ?thesis using literal [of "0x20"] by (simp add: byte_text_def form_byte_def)
  next
    case plain
    then have u: "unat (ucast b :: code_unit) = unat b" "unat b \<noteq> 43" "b \<noteq> 0x25"
      by (auto simp: form_unreserved_def Let_def unat_unit_of_byte)
    then have "(ucast b :: code_unit) \<noteq> 43" by (metis unat_numeral_43)
    then show ?thesis using plain literal [OF u(3)] by (simp add: byte_text_def form_byte_def unit_byte)
  next
    case hex
    let ?h = "upper_hex (unat b div 16)" and ?l = "upper_hex (unat b mod 16)"
    have "unat (upper_hex n) < 0x80 \<and> unat (upper_hex n) \<noteq> 43" if "n < 16" for n
      using unat_upper_hex [OF that] that by (auto split: if_splits)
    then have r: "unat ?h < 0x80" "unat ?l < 0x80" "?h \<noteq> 43" "?l \<noteq> 43"
      using byte_nibbles [of b] by (metis unat_numeral_43)+
    then have "byte_text b = [0x25, ucast ?h, ucast ?l]" using hex by (simp add: byte_text_def form_byte_def)
    moreover have "byte_digit (ucast ?h) = Some (unat b div 16)" "byte_digit (ucast ?l) = Some (unat b mod 16)"
      using r byte_nibbles [of b] by (simp_all add: byte_digit_def byte_unit digit_val_upper_hex)
    ultimately show ?thesis by (simp del: of_nat_add of_nat_mult)
  qed
qed

lemma form_encode_ascii: "list_all (\<lambda>u. unat u < 0x80 \<and> u \<noteq> 38 \<and> u \<noteq> 61) (form_encode s)"
  using form_byte_ascii by (auto simp: form_encode_def list_all_iff)

lemma decode_bytes: "percent_decode (concat (map byte_text bs)) = bs"
  by (induction bs) (simp_all add: decode_byte_text)

lemma form_roundtrip: "well_formed s \<Longrightarrow> form_decode (form_encode s) = s"
proof -
  let ?sp = "\<lambda>u :: code_unit. if u = 43 then 32 else u"
  have "list_all (\<lambda>u. unat u < 0x80) (map ?sp (form_encode s))" using form_encode_ascii [of s] by (auto simp: list_all_iff)
  then have "text_encode (map ?sp (form_encode s)) = concat (map byte_text (text_encode s))"
    by (simp add: ascii_text_encode form_encode_def byte_text_def [abs_def] map_concat o_def)
  then show "form_decode (form_encode s) = s" if "well_formed s"
    using that by (simp add: form_decode_def decode_bytes utf8_decode_encode of_scalars_to_scalars)
qed

section \<open>A whole query\<close>

lemma js_split_join:
  "ss \<noteq> [] \<Longrightarrow> list_all (\<lambda>s. sep \<notin> set s) ss \<Longrightarrow> js_split sep (js_join sep ss) = ss"
proof (induction sep ss rule: js_join.induct)
  case (2 sep s)
  then show ?case by (simp add: js_split_no_sep)
next
  case (3 sep s t ss)
  then show ?case by (simp add: js_split_append_sep)
qed simp

lemma split_pair_written:
  assumes "well_formed k" "well_formed v"
  shows "split_pair (form_encode k @ 61 # form_encode v) = (k, v)"
proof -
  have "61 \<notin> set (form_encode k)" using form_encode_ascii [of k] by (auto simp: list_all_iff)
  then show ?thesis using assms by (simp add: split_pair_def form_roundtrip)
qed

text \<open>
  What \<open>URLSearchParams\<close> writes, it reads back: the same names with the same values in the same order.
\<close>

theorem search_roundtrip:
  assumes "list_all (\<lambda>(k, v). well_formed k \<and> well_formed v) kvs"
  shows "parse_search (search_of kvs) = kvs"
proof (cases "kvs = []")
  case False
  let ?ps = "map (\<lambda>(k, v). form_encode k @ 61 # form_encode v) kvs"
  have "list_all (\<lambda>p. 38 \<notin> set p) ?ps"
    using form_encode_ascii by (auto simp: list_all_iff)
  then have "js_split 38 (search_of kvs) = ?ps" using False by (simp add: search_of_def js_split_join)
  moreover have "filter (\<lambda>p. p \<noteq> []) ?ps = ?ps" by (auto simp: filter_id_conv)
  ultimately have "parse_search (search_of kvs) = map split_pair ?ps" by (simp add: parse_search_def)
  also have "\<dots> = kvs" using assms by (induction kvs) (auto simp: split_pair_written)
  finally show ?thesis .
qed (simp add: search_of_def parse_search_def)

end
