(* ===== verification/Live_Pages.thy ===== *)
theory Live_Pages
  imports URL_Query Sandbox_Session Data_Table Portal_Tools
begin

text \<open>
  Pages that ask the server again and again: the list of live sessions of the admin console (\<open>admin/src/modules/sandbox/pages/SandboxPage.tsx\<close>), which opens the sandbox session in a new tab, and the
  overview of the tenant portal (\<open>tenant-portal/src/modules/overview/pages/OverviewPage.tsx\<close>) with its tiles (\<open>components/shared/Sparkline.tsx\<close>) and its setup guide
  (\<open>components/shared/SetupGuideCard.tsx\<close>).
\<close>

section \<open>A poll that can be cancelled\<close>

text \<open>
  Each run of the effect has a number and a flag \<open>cancelled\<close> of its own; \<open>po_open\<close> are the requests without an answer, each with the run it belongs to and the key it was made for. A run
  other than the last one is cancelled, and the last one is while \<open>po_live\<close> is false.
\<close>

record 'k poll =
  po_key :: 'k
  po_run :: nat
  po_live :: bool
  po_open :: "(nat \<times> 'k) list"

definition poll_init :: "'k \<Rightarrow> 'k poll" where
  "poll_init key = \<lparr>po_key = key, po_run = 0, po_live = False, po_open = []\<rparr>"

definition poll_start :: "'k \<Rightarrow> 'k poll \<Rightarrow> 'k poll" where
  "poll_start key q = q\<lparr>po_key := key, po_run := po_run q + 1, po_live := True, po_open := po_open q @ [(po_run q + 1, key)]\<rparr>"

definition poll_tick :: "'k poll \<Rightarrow> 'k poll" where
  "poll_tick q = (if po_live q then q\<lparr>po_open := po_open q @ [(po_run q, po_key q)]\<rparr> else q)"

definition poll_stop :: "'k poll \<Rightarrow> 'k poll" where
  "poll_stop q = q\<lparr>po_live := False\<rparr>"

text \<open>The \<open>i\<close>-th open request is answered; the flag says whether its run is not cancelled.\<close>

definition poll_settle :: "nat \<Rightarrow> 'k poll \<Rightarrow> bool \<times> 'k poll" where
  "poll_settle i q =
     (i < length (po_open q) \<and> po_live q \<and> fst (po_open q ! i) = po_run q,
      q\<lparr>po_open := take i (po_open q) @ drop (i + 1) (po_open q)\<rparr>)"

definition poll_ok :: "'k poll \<Rightarrow> bool" where
  "poll_ok q \<longleftrightarrow> list_all (\<lambda>(r, k). r \<le> po_run q \<and> (r = po_run q \<longrightarrow> k = po_key q)) (po_open q)"

lemmas poll_defs = poll_init_def poll_start_def poll_tick_def poll_stop_def poll_settle_def

lemma poll_ok_steps:
  "poll_ok (poll_init key)" "poll_ok q \<Longrightarrow> poll_ok (poll_start key q)" "poll_ok q \<Longrightarrow> poll_ok (poll_tick q)"
  "poll_ok q \<Longrightarrow> poll_ok (poll_stop q)" "poll_ok q \<Longrightarrow> poll_ok (snd (poll_settle i q))"
  by (auto simp: poll_ok_def poll_defs list_all_iff dest: in_set_takeD in_set_dropD)

lemma settle_key:
  assumes "poll_ok q" "fst (poll_settle i q)"
  shows "i < length (po_open q) \<and> snd (po_open q ! i) = po_key q \<and> po_live q"
proof -
  have i: "i < length (po_open q)" "po_live q" "fst (po_open q ! i) = po_run q" using assms(2) by (simp_all add: poll_settle_def)
  have "(\<lambda>(r, k). r \<le> po_run q \<and> (r = po_run q \<longrightarrow> k = po_key q)) (po_open q ! i)"
    using assms(1) i(1) by (simp add: poll_ok_def list_all_length)
  then show ?thesis using i by (simp add: case_prod_beta)
qed

lemma settle_state [simp]: "po_key (snd (poll_settle i q)) = po_key q" "po_live (snd (poll_settle i q)) = po_live q"
  "po_live (poll_start key q)" "po_live (poll_tick q) = po_live q"
  by (simp_all add: poll_settle_def poll_start_def poll_tick_def)

section \<open>The list of live sessions\<close>

record live_session =
  lv_session_id :: js_string
  lv_sub :: js_string
  lv_channels :: "js_string list"
  lv_connected_at :: js_string

text \<open>\<open>sl_answers\<close> is the history of the answers, with the tenant each was asked for.\<close>

record sandbox_list =
  sl_tenant :: "js_string option"
  sl_sessions :: "live_session list option"
  sl_toasts :: nat
  sl_poll :: "js_string poll"
  sl_answers :: "(js_string \<times> live_session list) list"

text \<open>The effect that depends on the tenant; without one it does nothing.\<close>

definition list_effect :: "sandbox_list \<Rightarrow> sandbox_list" where
  "list_effect p =
     (let k = or_default (sl_tenant p) [] in
      if k = [] then p else p\<lparr>sl_sessions := None, sl_poll := poll_start k (sl_poll p)\<rparr>)"

definition list_mount :: "js_string list \<Rightarrow> sandbox_list" where
  "list_mount tenants = list_effect
     \<lparr>sl_tenant = (case tenants of [] \<Rightarrow> None | t # _ \<Rightarrow> Some t), sl_sessions = None, sl_toasts = 0, sl_poll = poll_init [], sl_answers = []\<rparr>"

definition select_tenant :: "js_string \<Rightarrow> sandbox_list \<Rightarrow> sandbox_list" where
  "select_tenant k p =
     (if sl_tenant p = Some k then p else list_effect (p\<lparr>sl_tenant := Some k, sl_poll := poll_stop (sl_poll p)\<rparr>))"

definition list_tick :: "sandbox_list \<Rightarrow> sandbox_list" where
  "list_tick p = p\<lparr>sl_poll := poll_tick (sl_poll p)\<rparr>"

text \<open>\<open>None\<close> is a request that failed.\<close>

definition list_answer :: "nat \<Rightarrow> live_session list option \<Rightarrow> sandbox_list \<Rightarrow> sandbox_list" where
  "list_answer i outcome p =
     (if i < length (po_open (sl_poll p)) then
        (let (mine, q) = poll_settle i (sl_poll p);
             p1 = p\<lparr>sl_poll := q, sl_answers := sl_answers p @ (case outcome of Some ss \<Rightarrow> [(snd (po_open (sl_poll p) ! i), ss)] | None \<Rightarrow> [])\<rparr> in
         if \<not> mine then p1
         else (case outcome of Some ss \<Rightarrow> p1\<lparr>sl_sessions := Some ss\<rparr> | None \<Rightarrow> p1\<lparr>sl_toasts := sl_toasts p1 + 1\<rparr>))
      else p)"

text \<open>The address that is opened for a session, and what the page at that address reads from it.\<close>

definition openSession :: "js_string \<Rightarrow> live_session \<Rightarrow> js_string" where
  "openSession tenantId s =
     js_of ''/sandbox/session?'' @ search_of
       [(js_of ''tenantId'', tenantId), (js_of ''sub'', lv_sub s), (js_of ''channels'', js_join 44 (lv_channels s))]"

definition session_params :: "js_string \<Rightarrow> js_string \<times> js_string \<times> js_string list" where
  "session_params search =
     (let params = parse_search search in
      (or_default (map_of params (js_of ''tenantId'')) [],
       or_default (map_of params (js_of ''sub'')) (js_of ''unknown''),
       sandbox_channels (map_of params (js_of ''channels''))))"

datatype list_op = List_Select js_string | List_Tick | List_Answer nat "live_session list option"

fun list_step :: "list_op \<Rightarrow> sandbox_list \<Rightarrow> sandbox_list" where
  "list_step (List_Select k) p = select_tenant k p"
| "list_step List_Tick p = list_tick p"
| "list_step (List_Answer i outcome) p = list_answer i outcome p"

definition list_ok :: "sandbox_list \<Rightarrow> bool" where
  "list_ok p \<longleftrightarrow> poll_ok (sl_poll p) \<and> (po_live (sl_poll p) \<longrightarrow> sl_tenant p = Some (po_key (sl_poll p))) \<and>
     (\<forall>ss. sl_sessions p = Some ss \<longrightarrow> (\<exists>k. sl_tenant p = Some k \<and> (k, ss) \<in> set (sl_answers p)))"

lemma list_ok_effect:
  assumes "poll_ok (sl_poll p)" "\<not> po_live (sl_poll p)" "sl_tenant p \<noteq> Some []" "sl_tenant p = None \<longrightarrow> sl_sessions p = None"
  shows "list_ok (list_effect p)"
  using assms poll_ok_steps(2) [OF assms(1)]
  by (cases "sl_tenant p") (auto simp: list_ok_def list_effect_def or_default_def poll_start_def)

lemma list_ok_answer: "list_ok p \<Longrightarrow> list_ok (list_answer i outcome p)"
proof -
  assume ok: "list_ok p"
  then have q: "poll_ok (snd (poll_settle i (sl_poll p)))" using poll_ok_steps(5) by (auto simp: list_ok_def)
  show ?thesis
  proof (cases "fst (poll_settle i (sl_poll p)) \<and> (\<exists>ss. outcome = Some ss)")
    case True
    then obtain ss where "outcome = Some ss" by blast
    moreover have "i < length (po_open (sl_poll p)) \<and> snd (po_open (sl_poll p) ! i) = po_key (sl_poll p) \<and> po_live (sl_poll p)"
      using settle_key ok True by (auto simp: list_ok_def)
    ultimately show ?thesis using ok q True by (auto simp: list_ok_def list_answer_def case_prod_beta Let_def)
  next
    case False
    then show ?thesis using ok q by (auto simp: list_ok_def list_answer_def case_prod_beta Let_def split: option.split)
  qed
qed

lemma list_ok_step: "list_ok p \<Longrightarrow> List_Select [] \<noteq> op \<Longrightarrow> list_ok (list_step op p)"
proof (cases op)
  case (List_Select k)
  moreover assume "list_ok p" "List_Select [] \<noteq> op"
  ultimately show ?thesis
    using list_ok_effect [of "p\<lparr>sl_tenant := Some k, sl_poll := poll_stop (sl_poll p)\<rparr>"] poll_ok_steps(4) [of "sl_poll p"]
    by (auto simp: select_tenant_def list_ok_def [of p] poll_stop_def)
next
  case List_Tick
  moreover assume "list_ok p"
  ultimately show ?thesis using poll_ok_steps(3) [of "sl_poll p"] by (auto simp: list_ok_def list_tick_def) (simp_all add: poll_tick_def)
qed (simp add: list_ok_answer)

lemma list_ok_mount: "[] \<notin> set tenants \<Longrightarrow> list_ok (list_mount tenants)"
  unfolding list_mount_def by (rule list_ok_effect) (auto simp: poll_ok_def poll_init_def split: list.splits)

text \<open>
  C39. Whatever the user selects and in whatever order the answers come in: the sessions on the page are an answer that the server gave for the tenant that is selected, never one for a tenant
  selected before.
\<close>

theorem sessions_of_selected_tenant:
  assumes "[] \<notin> set tenants" "List_Select [] \<notin> set ops" "sl_sessions (fold list_step ops (list_mount tenants)) = Some ss"
  shows "\<exists>k. sl_tenant (fold list_step ops (list_mount tenants)) = Some k \<and> (k, ss) \<in> set (sl_answers (fold list_step ops (list_mount tenants)))"
proof -
  have "list_ok (fold list_step ops p)" if "list_ok p" "List_Select [] \<notin> set ops" for p
    using that by (induction ops arbitrary: p) (auto intro: list_ok_step)
  from this [OF list_ok_mount [OF assms(1)] assms(2)] show ?thesis using assms(3) by (auto simp: list_ok_def)
qed

definition one_session :: live_session where
  "one_session = \<lparr>lv_session_id = [1], lv_sub = [2], lv_channels = [[3]], lv_connected_at = []\<rparr>"

lemma sessions_of_selected_tenant_witness:
  "\<exists>k. sl_tenant (fold list_step [List_Select [66], List_Answer 0 (Some []), List_Answer 0 (Some [one_session])] (list_mount [[65]])) = Some k \<and>
    (k, [one_session]) \<in> set (sl_answers (fold list_step [List_Select [66], List_Answer 0 (Some []), List_Answer 0 (Some [one_session])] (list_mount [[65]])))"
  by (rule sessions_of_selected_tenant)
    (simp_all add: list_mount_def list_effect_def or_default_def Let_def select_tenant_def list_answer_def poll_defs)

text \<open>An answer that is overtaken replaces the newer one: here the page shows no session again although the second answer had one.\<close>

lemma late_answer_overwrites:
  "sl_sessions (fold list_step [List_Tick, List_Answer 1 (Some [one_session]), List_Answer 0 (Some [])] (list_mount [[65]])) = Some []"
  by (simp add: list_mount_def list_effect_def or_default_def Let_def list_tick_def list_answer_def poll_defs)

section \<open>Opening a session\<close>

lemma well_formed_join: "list_all well_formed ss \<Longrightarrow> well_formed (js_join 44 ss)"
proof (induction "44 :: code_unit" ss rule: js_join.induct)
  case (3 s t ss)
  have "well_formed (44 # x) = well_formed x" for x using well_formed_append [of "[44]" x] by (simp add: is_high_def is_low_def)
  then show ?case using 3 by (simp add: well_formed_append)
qed simp_all

text \<open>
  C40. The tab that is opened for a session reads from its address the tenant, the subject and the channels of that session, whatever characters they hold, provided the texts are well-formed and no
  channel is empty or has a comma.
\<close>

theorem session_link_roundtrip:
  assumes "well_formed tenant" "well_formed (lv_sub s)" "list_all well_formed (lv_channels s)"
    and "list_all (\<lambda>c. c \<noteq> [] \<and> 44 \<notin> set c) (lv_channels s)"
  shows "openSession tenant s = js_of ''/sandbox/session?'' @ drop 17 (openSession tenant s) \<and>
    session_params (drop 17 (openSession tenant s)) = (tenant, lv_sub s, lv_channels s)"
proof -
  let ?kvs = "[(js_of ''tenantId'', tenant), (js_of ''sub'', lv_sub s), (js_of ''channels'', js_join 44 (lv_channels s))]"
  have d: "drop 17 (openSession tenant s) = search_of ?kvs" by (simp add: openSession_def)
  have "well_formed (js_of ''tenantId'')" "well_formed (js_of ''sub'')" "well_formed (js_of ''channels'')"
    by (simp_all add: is_high_def is_low_def)
  then have p: "parse_search (search_of ?kvs) = ?kvs" using assms well_formed_join [of "lv_channels s"] by (intro search_roundtrip) (simp del: js_of_simps)
  have "sandbox_channels (Some (js_join 44 (lv_channels s))) = lv_channels s"
  proof (cases "lv_channels s = []")
    case False
    then have "js_split 44 (js_join 44 (lv_channels s)) = lv_channels s"
      using assms(4) by (intro js_split_join) (auto simp: list_all_iff)
    then show ?thesis using assms(4) by (simp add: sandbox_channels_def or_default_def list_all_iff filter_id_conv)
  qed (simp add: sandbox_channels_def or_default_def)
  then have "session_params (search_of ?kvs) = (tenant, lv_sub s, lv_channels s)"
    unfolding session_params_def p by (simp add: or_default_def)
  then show ?thesis by (simp add: d [symmetric] openSession_def)
qed

lemma session_link_roundtrip_witness:
  "session_params (drop 17 (openSession [65] \<lparr>lv_session_id = [], lv_sub = [0xE9, 38], lv_channels = [[97, 32], [98]], lv_connected_at = []\<rparr>)) =
    ([65], [0xE9, 38], [[97, 32], [98]])"
  using session_link_roundtrip [of "[65]" "\<lparr>lv_session_id = [], lv_sub = [0xE9, 38], lv_channels = [[97, 32], [98]], lv_connected_at = []\<rparr>"]
  by (simp add: is_high_def is_low_def)

text \<open>A channel with a comma is joined as two others.\<close>

lemma comma_channel_split: "sandbox_channels (Some (js_join 44 [js_of ''a,b''])) = [js_of ''a'', js_of ''b'']"
  by (simp add: sandbox_channels_def or_default_def)

end
