(* ===== verification/Overview.thy ===== *)
theory Overview
  imports Live_Pages Template_Editor
begin

text \<open>
  The overview of the tenant portal (\<open>tenant-portal/src/modules/overview/pages/OverviewPage.tsx\<close>): its poll, the history that feeds the tiles and the chart, the channels, recommendations and bars
  that are derived from it (\<open>components/shared/Sparkline.tsx\<close>), and the setup guide (\<open>components/shared/SetupGuideCard.tsx\<close>).
\<close>

section \<open>The poll and the history\<close>

record overview =
  ov_tenant_id :: js_string
  ov_active_sessions :: int
  ov_messages_total :: int
  ov_rate_limited_total :: int
  ov_realtime_messages_total :: int
  ov_push_messages_total :: int

record channel_summary =
  cl_channel_id :: js_string
  cl_subscriber_count :: int

record activity_sample =
  ac_label :: js_string
  ac_sessions :: int
  ac_realtimeMessages :: int
  ac_pushMessages :: int
  ac_rateLimited :: int

definition SAMPLE_HISTORY_SIZE :: nat where "SAMPLE_HISTORY_SIZE = 20"

text \<open>\<open>xs.slice(-n)\<close>\<close>

definition last_of :: "nat \<Rightarrow> 'a list \<Rightarrow> 'a list" where
  "last_of n xs = drop (length xs - n) xs"

definition sample_of :: "js_string \<Rightarrow> overview \<Rightarrow> activity_sample" where
  "sample_of label ov =
     \<lparr>ac_label = label, ac_sessions = ov_active_sessions ov, ac_realtimeMessages = ov_realtime_messages_total ov,
      ac_pushMessages = ov_push_messages_total ov, ac_rateLimited = ov_rate_limited_total ov\<rparr>"

definition activity_effect :: "js_string \<Rightarrow> overview \<Rightarrow> activity_sample list \<Rightarrow> activity_sample list" where
  "activity_effect label ov history = last_of SAMPLE_HISTORY_SIZE (history @ [sample_of label ov])"

text \<open>The key of the poll is its interval; \<open>oi_accepted\<close> is the history of the answers that were shown, with the label of their sample.\<close>

record overview_page =
  oi_overview :: "overview option"
  oi_channels :: "channel_summary list option"
  oi_templates :: "template list option"
  oi_history :: "activity_sample list"
  oi_poll :: "nat poll"
  oi_accepted :: "(js_string \<times> overview) list"

definition overview_mount :: "nat \<Rightarrow> overview_page" where
  "overview_mount pollIntervalMs =
     \<lparr>oi_overview = None, oi_channels = None, oi_templates = None, oi_history = [],
      oi_poll = poll_start pollIntervalMs (poll_init pollIntervalMs), oi_accepted = []\<rparr>"

definition overview_interval :: "nat \<Rightarrow> overview_page \<Rightarrow> overview_page" where
  "overview_interval ms p = (if ms = po_key (oi_poll p) then p else p\<lparr>oi_poll := poll_start ms (poll_stop (oi_poll p))\<rparr>)"

definition overview_tick :: "overview_page \<Rightarrow> overview_page" where
  "overview_tick p = p\<lparr>oi_poll := poll_tick (oi_poll p)\<rparr>"

text \<open>The three requests of a poll settle together; \<open>None\<close> if one failed. \<open>label\<close> is the time at which the effect runs.\<close>

definition overview_answer :: "js_string \<Rightarrow> nat \<Rightarrow> (overview \<times> channel_summary list \<times> template list) option \<Rightarrow> overview_page \<Rightarrow> overview_page" where
  "overview_answer label i outcome p =
     (let (mine, q) = poll_settle i (oi_poll p); p1 = p\<lparr>oi_poll := q\<rparr> in
      case outcome of
        None \<Rightarrow> p1
      | Some (ov, ch, tp) \<Rightarrow>
          if \<not> mine then p1
          else p1\<lparr>oi_overview := Some ov, oi_channels := Some ch, oi_templates := Some tp,
            oi_history := activity_effect label ov (oi_history p), oi_accepted := oi_accepted p @ [(label, ov)]\<rparr>)"

datatype overview_op =
    Ov_Interval nat
  | Ov_Tick
  | Ov_Answer js_string nat "(overview \<times> channel_summary list \<times> template list) option"

fun overview_step :: "overview_op \<Rightarrow> overview_page \<Rightarrow> overview_page" where
  "overview_step (Ov_Interval ms) p = overview_interval ms p"
| "overview_step Ov_Tick p = overview_tick p"
| "overview_step (Ov_Answer label i outcome) p = overview_answer label i outcome p"

definition overview_ok :: "overview_page \<Rightarrow> bool" where
  "overview_ok p \<longleftrightarrow>
     oi_history p = last_of SAMPLE_HISTORY_SIZE (map (\<lambda>(l, ov). sample_of l ov) (oi_accepted p)) \<and>
     oi_overview p = (if oi_accepted p = [] then None else Some (snd (last (oi_accepted p)))) \<and>
     poll_ok (oi_poll p) \<and> po_live (oi_poll p)"

lemma last_of_snoc: "last_of n (last_of n xs @ [x]) = last_of n (xs @ [x])"
proof (cases "n = 0")
  case False
  then show ?thesis by (cases "length xs \<le> n") (simp_all add: last_of_def Suc_diff_le)
qed (simp add: last_of_def)

lemma overview_ok_step: "overview_ok p \<Longrightarrow> overview_ok (overview_step op p)"
proof (cases op)
  case (Ov_Interval ms)
  moreover assume "overview_ok p"
  ultimately show ?thesis by (auto simp: overview_ok_def overview_interval_def intro!: poll_ok_steps)
next
  case Ov_Tick
  moreover assume "overview_ok p"
  ultimately show ?thesis using poll_ok_steps(3) by (auto simp: overview_ok_def overview_tick_def)
next
  case (Ov_Answer label i outcome)
  moreover assume "overview_ok p"
  ultimately show ?thesis using poll_ok_steps(5) [of "oi_poll p" i]
    by (auto simp: overview_ok_def overview_answer_def activity_effect_def last_of_snoc case_prod_beta Let_def split: option.split)
qed

interpretation ov: guarded_machine "overview_mount ms" overview_step overview_ok for ms
proof
  show "overview_ok (overview_mount ms)" by (auto simp: overview_ok_def overview_mount_def last_of_def intro!: poll_ok_steps)
qed (rule overview_ok_step)

text \<open>
  After any history of ticks, answers in any order, failures and changes of the interval, the history that feeds the tiles and the chart consists of the last twenty answers that were shown,
  one sample for each in the order in which they came in, and the figures on the tiles are those of its last sample.
\<close>

theorem overview_history:
  fixes ops :: "overview_op list" and ms :: nat
  defines "p \<equiv> fold overview_step ops (overview_mount ms)"
  shows "oi_history p = last_of SAMPLE_HISTORY_SIZE (map (\<lambda>(l, ov). sample_of l ov) (oi_accepted p)) \<and>
    length (oi_history p) = min SAMPLE_HISTORY_SIZE (length (oi_accepted p)) \<and>
    (case oi_overview p of None \<Rightarrow> oi_history p = [] | Some ov \<Rightarrow> \<exists>l. last (oi_history p) = sample_of l ov)"
proof -
  have ok: "overview_ok p" unfolding p_def by (rule ov.inv_run)
  have "last (last_of SAMPLE_HISTORY_SIZE xs) = last xs" if "xs \<noteq> []" for xs :: "activity_sample list"
    using that by (simp add: last_of_def SAMPLE_HISTORY_SIZE_def last_drop)
  then show ?thesis using ok
    by (auto simp: overview_ok_def last_of_def last_map case_prod_beta SAMPLE_HISTORY_SIZE_def)
qed

section \<open>What is derived\<close>

definition topChannels :: "overview_page \<Rightarrow> channel_summary list" where
  "topChannels p = take 5 (js_sort (\<lambda>a b. cl_subscriber_count b - cl_subscriber_count a) (or_default (oi_channels p) []))"

definition recentTemplates :: "overview_page \<Rightarrow> template list" where
  "recentTemplates p = take 5 (or_default (oi_templates p) [])"

datatype overview_hint = Hint_No_Channels | Hint_No_Templates | Hint_Rate_Limited int

definition recommendations :: "overview_page \<Rightarrow> overview_hint list" where
  "recommendations p =
     (if oi_channels p = Some [] then [Hint_No_Channels] else []) @
     (if oi_templates p = Some [] then [Hint_No_Templates] else []) @
     (case oi_overview p of Some ov \<Rightarrow> if ov_rate_limited_total ov > 0 then [Hint_Rate_Limited (ov_rate_limited_total ov)] else [] | None \<Rightarrow> [])"

text \<open>
  The list of channels on the overview shows five channels or all of them, the busiest first, and no channel that is left out has more subscribers than one that is shown.
\<close>

theorem top_channels_busiest:
  assumes "oi_channels p = Some cs"
  shows "\<exists>rest. mset cs = mset (topChannels p) + mset rest \<and> length (topChannels p) = min 5 (length cs) \<and>
    sorted_wrt (\<lambda>a b. cl_subscriber_count b \<le> cl_subscriber_count a) (topChannels p) \<and>
    list_all (\<lambda>c. list_all (\<lambda>d. cl_subscriber_count d \<le> cl_subscriber_count c) rest) (topChannels p)"
proof -
  let ?cmp = "\<lambda>a b. cl_subscriber_count b - cl_subscriber_count a"
  let ?s = "js_sort ?cmp cs"
  have "collation ?cmp" by (auto simp: collation_def)
  then have "sorted_wrt (\<lambda>a b. ?cmp a b \<le> 0) ?s" by (rule sorted_js_sort)
  then have "sorted_wrt (\<lambda>a b. cl_subscriber_count b \<le> cl_subscriber_count a) (take 5 ?s @ drop 5 ?s)" by simp
  moreover have "mset cs = mset (take 5 ?s) + mset (drop 5 ?s)"
    by (metis append_take_drop_id mset_append mset_js_sort)
  moreover have "length ?s = length cs" by (metis mset_js_sort mset_eq_length)
  ultimately show ?thesis unfolding sorted_wrt_append
    by (intro exI [of _ "drop 5 ?s"]) (auto simp: topChannels_def assms or_default_def list_all_iff)
qed

definition sample_overview_page :: overview_page where
  "sample_overview_page = (overview_mount 0)\<lparr>oi_channels := Some [\<lparr>cl_channel_id = [], cl_subscriber_count = 1\<rparr>]\<rparr>"

lemma top_channels_busiest_witness:
  "\<exists>rest. mset [\<lparr>cl_channel_id = [], cl_subscriber_count = 1\<rparr>] = mset (topChannels sample_overview_page) + mset rest"
  using top_channels_busiest [of sample_overview_page "[\<lparr>cl_channel_id = [], cl_subscriber_count = 1\<rparr>]"]
  by (auto simp: sample_overview_page_def)

section \<open>Bars\<close>

record bar =
  br_x :: rat
  br_y :: rat
  br_width :: rat
  br_height :: rat

definition Sparkline :: "rat list \<Rightarrow> (rat \<times> bar list) option" where
  "Sparkline values =
     (if values = [] then None
      else (let mx = fold max values 1; barWidth = 8; gap = 4 in
        Some (of_nat (length values) * (barWidth + gap),
          map (\<lambda>(i, v). let height = max (v / mx * 28) 2 in
            \<lparr>br_x = of_nat i * (barWidth + gap), br_y = 32 - height, br_width = barWidth, br_height = height\<rparr>)
            (zip [0..<length values] values))))"

lemma fold_max_ge: "m \<le> fold max xs m" "x \<in> set xs \<Longrightarrow> x \<le> fold max xs m" for m :: rat
proof (induction xs arbitrary: m)
  case (Cons y ys)
  { case 1 then show ?case using Cons.IH(1) [of "max y m"] by simp }
  { case 2 then show ?case using Cons.IH(1) [of "max y m"] Cons.IH(2) [of "max y m"] by auto }
qed auto

text \<open>
  Every bar of a tile lies inside its drawing area, which is 32 high: between its lower edge and four units below the upper one, at least two units high, and no two bars overlap.
\<close>

theorem bars_inside:
  assumes "Sparkline values = Some (width, bars)" "i < length bars"
  shows "length bars = length values \<and> 0 \<le> br_x (bars ! i) \<and> br_x (bars ! i) + br_width (bars ! i) \<le> width \<and>
    4 \<le> br_y (bars ! i) \<and> 2 \<le> br_height (bars ! i) \<and> br_y (bars ! i) + br_height (bars ! i) = 32 \<and>
    list_all (\<lambda>j. br_x (bars ! j) + br_width (bars ! j) < br_x (bars ! i)) [0..<i]"
proof -
  let ?m = "fold max values 1"
  have b: "bars = map (\<lambda>(i, v). let height = max (v / ?m * 28) 2 in
      \<lparr>br_x = of_nat i * 12, br_y = 32 - height, br_width = 8, br_height = height\<rparr>) (zip [0..<length values] values)"
    and w: "width = of_nat (length values) * 12" using assms(1) by (auto simp: Sparkline_def Let_def split: if_splits)
  have len: "length bars = length values" by (simp add: b)
  then have i: "i < length values" using assms(2) by simp
  have bar: "bars ! j = \<lparr>br_x = of_nat j * 12, br_y = 32 - max (values ! j / ?m * 28) 2, br_width = 8, br_height = max (values ! j / ?m * 28) 2\<rparr>"
    if "j < length values" for j using that by (simp add: b Let_def)
  have "values ! i \<le> ?m" "1 \<le> ?m" using fold_max_ge i by simp_all
  then have h: "max (values ! i / ?m * 28) 2 \<le> 28" by (simp add: field_simps)
  have step: "(of_nat j :: rat) + 1 \<le> of_nat k" if "j < k" for j k using that by (metis Suc_leI of_nat_Suc of_nat_le_iff add.commute)
  have "br_x (bars ! j) + br_width (bars ! j) < br_x (bars ! i)" if "j < i" for j
    using step [OF that] bar [of j] bar [OF i] that i by simp
  then show ?thesis using h step [OF i] by (simp add: bar [OF i] len w list_all_iff)
qed

lemma bars_inside_witness: "br_height (snd (the (Sparkline [3, 6])) ! 0) = 14 \<and> 4 \<le> br_y (snd (the (Sparkline [3, 6])) ! 0)"
proof -
  have s: "Sparkline [3, 6] = Some (24, [\<lparr>br_x = 0, br_y = 18, br_width = 8, br_height = 14\<rparr>, \<lparr>br_x = 12, br_y = 4, br_width = 8, br_height = 28\<rparr>])"
    by (simp add: Sparkline_def Let_def)
  show ?thesis using bars_inside [OF s, of 0] by (simp add: s)
qed

section \<open>The setup guide\<close>

record setup_step =
  ss_done :: bool
  ss_to :: js_string

text \<open>Whether the keys can be read, and the channels and templates, none if the request failed.\<close>

definition setup_steps :: "bool \<Rightarrow> 'a list option \<Rightarrow> 'b list option \<Rightarrow> setup_step list" where
  "setup_steps hasKeys channels templates =
     [\<lparr>ss_done = hasKeys, ss_to = js_of ''/settings''\<rparr>,
      \<lparr>ss_done = length (or_default channels []) > 0, ss_to = js_of ''/channels''\<rparr>,
      \<lparr>ss_done = length (or_default templates []) > 0, ss_to = js_of ''/templates''\<rparr>]"

definition setup_percent :: "setup_step list option \<Rightarrow> int" where
  "setup_percent steps =
     (case steps of None \<Rightarrow> 0
      | Some ss \<Rightarrow> if length ss > 0 then js_round (int (length (filter ss_done ss)) * 100) (int (length ss)) else 0)"

definition setup_shown :: "bool \<Rightarrow> setup_step list option \<Rightarrow> bool" where
  "setup_shown dismissed steps \<longleftrightarrow> \<not> (dismissed \<or> steps = None \<or> setup_percent steps = 100)"

lemma setup_guide_shown:
  "setup_shown dismissed (Some (setup_steps hasKeys channels templates)) \<longleftrightarrow>
    \<not> dismissed \<and> \<not> (hasKeys \<and> or_default channels [] \<noteq> [] \<and> or_default templates [] \<noteq> [])"
  by (simp add: setup_shown_def setup_percent_def setup_steps_def js_round_def)

end
