(* ===== verification/Portal_Auth.thy ===== *)
theory Portal_Auth
  imports Push_Actions
begin

text \<open>
  Signing in to the tenant portal: the three forms of \<open>tenant-portal/src/modules/auth/components\<close> with their actions (\<open>tenant-portal/src/actions/auth\<close>), and the change of the
  password in the settings (\<open>SecurityTab\<close> of \<open>SettingsPage.tsx\<close>, \<open>changePassword.action.ts\<close>). A handler has two parts, before and after its \<open>await\<close>; the session store and the interceptor of
  the HTTP layer are those of \<open>Console\<close>.
\<close>

section \<open>The actions\<close>

text \<open>\<open>response.access_token\<close>; \<open>None\<close> is \<open>undefined\<close>.\<close>

definition loginAction :: "axios_outcome \<Rightarrow> api_error + json option" where
  "loginAction outcome = map_sum (\<lambda>e. e) (jfield (js_of ''access_token'')) (response_object (apiRequest outcome))"

definition registerAction :: "axios_outcome \<Rightarrow> api_error + json option" where
  "registerAction outcome = map_sum (\<lambda>e. e) (jfield (js_of ''access_token'')) (response_object (apiRequest outcome))"

text \<open>The keys are read as well; where there are none that throws.\<close>

definition signupAction :: "axios_outcome \<Rightarrow> api_error + json option \<times> json option \<times> json option" where
  "signupAction outcome =
     (case response_object (apiRequest outcome) of
        Inl e \<Rightarrow> Inl e
      | Inr j \<Rightarrow> (case nullish (jfield (js_of ''keys'') j) of
            None \<Rightarrow> Inl Uncaught_Type_Error
          | Some keys \<Rightarrow> Inr (jfield (js_of ''access_token'') j, jfield (js_of ''tenant_id'') keys, jfield (js_of ''secret_key'') keys)))"

definition login_body :: "js_string \<Rightarrow> js_string \<Rightarrow> json" where
  "login_body email password = JObj [(js_of ''email'', JStr email), (js_of ''password'', JStr password)]"

definition register_body :: "js_string \<Rightarrow> js_string \<Rightarrow> js_string \<Rightarrow> js_string \<Rightarrow> json" where
  "register_body tenantId secret email password = JObj
     [(js_of ''tenant_id'', JStr tenantId), (js_of ''secret'', JStr secret), (js_of ''email'', JStr email), (js_of ''password'', JStr password)]"

section \<open>The forms\<close>

datatype form_error =
    Password_Too_Short
  | Password_Mismatch
  | Action_Failed api_error
  | Session_Failed session_error
  | No_Token

record login_form =
  fm_email :: js_string
  fm_password :: js_string
  fm_isSubmitting :: bool
  fm_error :: "form_error option"

record signup_form = login_form +
  fm_confirmPassword :: js_string

record register_form = login_form +
  fm_tenantId :: js_string
  fm_secret :: js_string

definition login_form_init :: login_form where
  "login_form_init = \<lparr>fm_email = [], fm_password = [], fm_isSubmitting = False, fm_error = None\<rparr>"

definition signup_form_init :: signup_form where
  "signup_form_init = login_form.extend login_form_init (signup_form.fields [])"

definition register_form_init :: register_form where
  "register_form_init = login_form.extend login_form_init (register_form.fields [] [])"

text \<open>\<open>usePortalAuthStore.setState({ apiUrl })\<close>\<close>

definition set_apiUrl :: "js_string \<Rightarrow> portal_auth \<Rightarrow> portal_auth" where
  "set_apiUrl apiUrl st = st\<lparr>pa_apiUrl := Some apiUrl\<rparr>"

text \<open>
  What follows the action in each of the forms, in its \<open>try\<close> block, with the handlers after it. The interceptor has seen the outcome before. The last component is the page to which the form
  navigates.
\<close>

definition session_settled ::
    "(json option \<Rightarrow> js_string option) \<Rightarrow> js_string \<Rightarrow> axios_outcome \<Rightarrow> api_error + json option \<Rightarrow> 'a login_form_scheme \<times> portal_auth \<Rightarrow>
     'a login_form_scheme \<times> portal_auth \<times> js_string option" where
  "session_settled toISO apiUrl outcome result s =
     (let (f, st) = s; st1 = portal_rejected outcome st; failed = (\<lambda>e st'. (f\<lparr>fm_error := Some e, fm_isSubmitting := False\<rparr>, st', None)) in
      case result of
        Inl e \<Rightarrow> failed (Action_Failed e) st1
      | Inr (Some (JStr token)) \<Rightarrow>
          (case setSession toISO apiUrl token st1 of
             (Some e, st2) \<Rightarrow> failed (Session_Failed e) st2
           | (None, st2) \<Rightarrow> (f\<lparr>fm_isSubmitting := False\<rparr>, st2, Some (js_of ''/overview'')))
      | Inr _ \<Rightarrow> failed No_Token st1)"

definition login_submit :: "js_string \<Rightarrow> login_form \<times> portal_auth \<Rightarrow> json \<times> login_form \<times> portal_auth" where
  "login_submit apiUrl s =
     (let (f, st) = s in
      (login_body (js_trim (fm_email f)) (fm_password f), f\<lparr>fm_isSubmitting := True, fm_error := None\<rparr>, set_apiUrl apiUrl st))"

definition login_settled ::
    "(json option \<Rightarrow> js_string option) \<Rightarrow> js_string \<Rightarrow> axios_outcome \<Rightarrow> login_form \<times> portal_auth \<Rightarrow> login_form \<times> portal_auth \<times> js_string option" where
  "login_settled toISO apiUrl outcome s = session_settled toISO apiUrl outcome (loginAction outcome) s"

text \<open>\<open>None\<close> is a submission that ends before the request.\<close>

definition signup_submit :: "js_string \<Rightarrow> signup_form \<times> portal_auth \<Rightarrow> json option \<times> signup_form \<times> portal_auth" where
  "signup_submit apiUrl s =
     (let (f, st) = s in
      if length (fm_password f) < 8 then (None, f\<lparr>fm_error := Some Password_Too_Short\<rparr>, st)
      else if fm_password f \<noteq> fm_confirmPassword f then (None, f\<lparr>fm_error := Some Password_Mismatch\<rparr>, st)
      else (Some (login_body (js_trim (fm_email f)) (fm_password f)), f\<lparr>fm_error := None, fm_isSubmitting := True\<rparr>, set_apiUrl apiUrl st))"

definition signup_settled ::
    "(json option \<Rightarrow> js_string option) \<Rightarrow> js_string \<Rightarrow> axios_outcome \<Rightarrow> signup_form \<times> portal_auth \<Rightarrow> signup_form \<times> portal_auth \<times> js_string option" where
  "signup_settled toISO apiUrl outcome s = session_settled toISO apiUrl outcome (map_sum (\<lambda>e. e) fst (signupAction outcome)) s"

definition register_submit :: "js_string \<Rightarrow> register_form \<times> portal_auth \<Rightarrow> json \<times> register_form \<times> portal_auth" where
  "register_submit apiUrl s =
     (let (f, st) = s in
      (register_body (js_trim (fm_tenantId f)) (fm_secret f) (js_trim (fm_email f)) (fm_password f),
       f\<lparr>fm_isSubmitting := True, fm_error := None\<rparr>, set_apiUrl apiUrl st))"

definition register_settled ::
    "(json option \<Rightarrow> js_string option) \<Rightarrow> js_string \<Rightarrow> axios_outcome \<Rightarrow> register_form \<times> portal_auth \<Rightarrow> register_form \<times> portal_auth \<times> js_string option" where
  "register_settled toISO apiUrl outcome s = session_settled toISO apiUrl outcome (registerAction outcome) s"

section \<open>What a form leaves behind\<close>

text \<open>The session that a token stands for.\<close>

definition session_of :: "(json option \<Rightarrow> js_string option) \<Rightarrow> js_string \<Rightarrow> js_string \<Rightarrow> portal_auth option" where
  "session_of toISO apiUrl token =
     (case decodeSessionPayload token of
        Inr claims \<Rightarrow>
          if claims = JNull then None
          else map_option (\<lambda>t. \<lparr>pa_apiUrl = Some apiUrl, pa_accessToken = Some token, pa_tenantId = jfield (js_of ''tenant_id'') claims,
            pa_email = jfield (js_of ''email'') claims, pa_expiresAt = Some t, pa_isAuthenticated = True\<rparr>) (toISO (jfield (js_of ''exp'') claims))
      | Inl _ \<Rightarrow> None)"

lemma setSession_session:
  "session_of toISO apiUrl token = Some s' \<Longrightarrow> setSession toISO apiUrl token st = (None, s')"
  "session_of toISO apiUrl token = None \<Longrightarrow> \<exists>e. setSession toISO apiUrl token st = (Some e, st)"
  by (auto simp: session_of_def setSession_def split: sum.splits json.splits option.splits if_splits)

definition form_outcome_ok ::
    "(json option \<Rightarrow> js_string option) \<Rightarrow> js_string \<Rightarrow> api_error + json option \<Rightarrow> portal_auth \<Rightarrow> 'a login_form_scheme \<times> portal_auth \<times> js_string option \<Rightarrow> bool" where
  "form_outcome_ok toISO apiUrl result st r \<longleftrightarrow>
     (let granted = (case result of Inr (Some (JStr token)) \<Rightarrow> session_of toISO apiUrl token | _ \<Rightarrow> None) in
      \<not> fm_isSubmitting (fst r) \<and>
      (case granted of
         Some session \<Rightarrow> snd r = (session, Some (js_of ''/overview''))
       | None \<Rightarrow> fm_error (fst r) \<noteq> None \<and> snd (snd r) = None \<and> fst (snd r) \<in> {st, portal_logout st}))"

lemma session_settled_ok: "form_outcome_ok toISO apiUrl result st (session_settled toISO apiUrl outcome result (f, st))"
proof -
  let ?st = "portal_rejected outcome st"
  have st: "?st = st \<or> ?st = portal_logout st" by (auto simp: portal_rejected_def split: axios_outcome.split option.split)
  have granted: "form_outcome_ok toISO apiUrl (Inr (Some (JStr t))) st (session_settled toISO apiUrl outcome (Inr (Some (JStr t))) (f, st))" for t
  proof (cases "session_of toISO apiUrl t")
    case None
    then obtain e where "setSession toISO apiUrl t ?st = (Some e, ?st)" using setSession_session(2) by blast
    then show ?thesis using None st by (simp add: form_outcome_ok_def session_settled_def Let_def)
  next
    case (Some s')
    then show ?thesis using setSession_session(1) [OF Some, of ?st] by (simp add: form_outcome_ok_def session_settled_def Let_def)
  qed
  consider t where "result = Inr (Some (JStr t))" | (other) "\<not> (\<exists>t. result = Inr (Some (JStr t)))" by blast
  then show ?thesis
  proof cases
    case other
    then show ?thesis using st by (auto simp: form_outcome_ok_def session_settled_def Let_def split: sum.split option.split json.split)
  qed (simp add: granted)
qed

text \<open>
  In each of the three forms: once the server has answered, the form can be used again. If the answer grants a token that can be read, the store holds exactly the session of that token for the
  address asked, and the form goes to the overview; in every other case it stays, shows an error, and the store is as before or signed out. The form to sign up asks the server only for a
  password of at least eight units that was typed twice alike.
\<close>

theorem portal_sign_in:
  "form_outcome_ok toISO apiUrl (loginAction outcome) st (login_settled toISO apiUrl outcome (f, st)) \<and>
   form_outcome_ok toISO apiUrl (registerAction outcome) st (register_settled toISO apiUrl outcome (g, st)) \<and>
   form_outcome_ok toISO apiUrl (map_sum (\<lambda>e. e) fst (signupAction outcome)) st (signup_settled toISO apiUrl outcome (h, st)) \<and>
   (fst (signup_submit apiUrl (h, st)) \<noteq> None) = (8 \<le> length (fm_password h) \<and> fm_password h = fm_confirmPassword h)"
  unfolding login_settled_def register_settled_def signup_settled_def
  by (auto simp: session_settled_ok signup_submit_def Let_def)

section \<open>Changing the password\<close>

datatype security_toast = Toast_Too_Short | Toast_Mismatch | Toast_Changed | Toast_Change_Failed api_error

record security_tab =
  sy_currentPassword :: js_string
  sy_newPassword :: js_string
  sy_confirmPassword :: js_string
  sy_saving :: bool
  sy_toasts :: "security_toast list"

definition security_init :: security_tab where
  "security_init = \<lparr>sy_currentPassword = [], sy_newPassword = [], sy_confirmPassword = [], sy_saving = False, sy_toasts = []\<rparr>"

definition change_disabled :: "security_tab \<Rightarrow> bool" where
  "change_disabled s \<longleftrightarrow> sy_saving s \<or> sy_currentPassword s = [] \<or> sy_newPassword s = []"

definition change_body :: "js_string \<Rightarrow> js_string \<Rightarrow> json" where
  "change_body currentPassword newPassword =
     JObj [(js_of ''current_password'', JStr currentPassword), (js_of ''new_password'', JStr newPassword)]"

definition changePasswordAction :: "axios_outcome \<Rightarrow> api_error option" where
  "changePasswordAction outcome = (case apiRequest outcome of Inl e \<Rightarrow> Some e | Inr _ \<Rightarrow> None)"

definition handleChangePassword :: "security_tab \<Rightarrow> json option \<times> security_tab" where
  "handleChangePassword s =
     (if length (sy_newPassword s) < 8 then (None, s\<lparr>sy_toasts := sy_toasts s @ [Toast_Too_Short]\<rparr>)
      else if sy_newPassword s \<noteq> sy_confirmPassword s then (None, s\<lparr>sy_toasts := sy_toasts s @ [Toast_Mismatch]\<rparr>)
      else (Some (change_body (sy_currentPassword s) (sy_newPassword s)), s\<lparr>sy_saving := True\<rparr>))"

definition change_settled :: "axios_outcome \<Rightarrow> security_tab \<times> portal_auth \<Rightarrow> security_tab \<times> portal_auth" where
  "change_settled outcome p =
     (let (s, st) = p; st1 = portal_rejected outcome st in
      case changePasswordAction outcome of
        None \<Rightarrow> (s\<lparr>sy_toasts := sy_toasts s @ [Toast_Changed], sy_currentPassword := [], sy_newPassword := [], sy_confirmPassword := [], sy_saving := False\<rparr>, st1)
      | Some e \<Rightarrow> (s\<lparr>sy_toasts := sy_toasts s @ [Toast_Change_Failed e], sy_saving := False\<rparr>, st1))"

text \<open>How the server answers a wrong current password: status 401 with an error body.\<close>

definition wrong_password_answer :: "js_string \<Rightarrow> axios_outcome" where
  "wrong_password_answer message =
     Http_Failed (Some (401, JObj [(js_of ''success'', JBool False),
       (js_of ''error'', JObj [(js_of ''code'', JStr (js_of ''INVALID_CREDENTIALS'')), (js_of ''message'', JStr message)])])) []"

text \<open>
  A user who mistypes the current password in the settings is signed out: the server rejects it with status 401, which the interceptor takes for the end of the session. The message reaches the
  page, but the store has lost the token.
\<close>

theorem wrong_password_signs_out:
  "let (s', st') = change_settled (wrong_password_answer message) (s, st) in
     \<not> pa_isAuthenticated st' \<and> pa_accessToken st' = None \<and>
     last (sy_toasts s') = Toast_Change_Failed (App_Error (Some (JStr (js_of ''INVALID_CREDENTIALS''))) (Some (JStr message)) None)"
  by (simp add: change_settled_def wrong_password_answer_def portal_rejected_def portal_logout_def changePasswordAction_def apiRequest_def axios_error_def
      error_of_def nullish_def jget_def)

end
