(* ===== verification/Settings.thy ===== *)
theory Settings
  imports Portal_Tools Live_Pages
begin

text \<open>
  The settings of the tenant portal (\<open>tenant-portal/src/modules/settings/pages/SettingsPage.tsx\<close>): profile, key pair, connected sessions and preferences. Each tab is a state with one
  operation per handler, cut at its \<open>await\<close>; errors of the actions are those of the HTTP layer. The security tab is in \<open>Portal_Auth\<close>.
\<close>

section \<open>The profile\<close>

record workspace_profile =
  wp_name :: "js_string option"
  wp_website_url :: "js_string option"
  wp_logo_data_uri :: "js_string option"

datatype profile_toast = Load_Failed api_error | Logo_Updated | Logo_Failed api_error | Name_Updated | Name_Failed api_error | Website_Updated | Website_Failed api_error

record profile_tab =
  pf_profile :: "workspace_profile option"
  pf_name :: js_string
  pf_websiteUrl :: js_string
  pf_savingName :: bool
  pf_savingWebsite :: bool
  pf_uploading :: bool
  pf_toasts :: "profile_toast list"

definition profile_init :: profile_tab where
  "profile_init = \<lparr>pf_profile = None, pf_name = [], pf_websiteUrl = [], pf_savingName = False, pf_savingWebsite = False, pf_uploading = False, pf_toasts = []\<rparr>"

definition profile_toast_add :: "profile_toast \<Rightarrow> profile_tab \<Rightarrow> profile_tab" where
  "profile_toast_add x p = p\<lparr>pf_toasts := pf_toasts p @ [x]\<rparr>"

definition profile_loaded :: "api_error + workspace_profile \<Rightarrow> profile_tab \<Rightarrow> profile_tab" where
  "profile_loaded r p =
     (case r of
        Inr d \<Rightarrow> p\<lparr>pf_profile := Some d, pf_name := or_default (wp_name d) [], pf_websiteUrl := or_default (wp_website_url d) []\<rparr>
      | Inl e \<Rightarrow> profile_toast_add (Load_Failed e) p)"

definition upload_settled :: "api_error + workspace_profile \<Rightarrow> profile_tab \<Rightarrow> profile_tab" where
  "upload_settled r p =
     (case r of Inr d \<Rightarrow> profile_toast_add Logo_Updated (p\<lparr>pf_profile := Some d\<rparr>) | Inl e \<Rightarrow> profile_toast_add (Logo_Failed e) p)\<lparr>pf_uploading := False\<rparr>"

text \<open>The body of the request, and the state that waits for it.\<close>

definition handleSaveName :: "profile_tab \<Rightarrow> json \<times> profile_tab" where
  "handleSaveName p = (JObj [(js_of ''name'', JStr (pf_name p))], p\<lparr>pf_savingName := True\<rparr>)"

definition name_settled :: "api_error + workspace_profile \<Rightarrow> profile_tab \<Rightarrow> profile_tab" where
  "name_settled r p =
     (case r of Inr d \<Rightarrow> profile_toast_add Name_Updated (p\<lparr>pf_profile := Some d\<rparr>) | Inl e \<Rightarrow> profile_toast_add (Name_Failed e) p)\<lparr>pf_savingName := False\<rparr>"

definition handleSaveWebsite :: "profile_tab \<Rightarrow> json \<times> profile_tab" where
  "handleSaveWebsite p = (JObj [(js_of ''website_url'', JStr (js_trim (pf_websiteUrl p)))], p\<lparr>pf_savingWebsite := True\<rparr>)"

definition website_settled :: "api_error + workspace_profile \<Rightarrow> profile_tab \<Rightarrow> profile_tab" where
  "website_settled r p =
     (case r of Inr d \<Rightarrow> profile_toast_add Website_Updated (p\<lparr>pf_profile := Some d\<rparr>) | Inl e \<Rightarrow> profile_toast_add (Website_Failed e) p)\<lparr>pf_savingWebsite := False\<rparr>"

definition name_disabled :: "profile_tab \<Rightarrow> bool" where
  "name_disabled p \<longleftrightarrow> pf_savingName p \<or> pf_name p = or_default (Option.bind (pf_profile p) wp_name) []"

definition website_disabled :: "profile_tab \<Rightarrow> bool" where
  "website_disabled p \<longleftrightarrow> pf_savingWebsite p \<or> pf_websiteUrl p = or_default (Option.bind (pf_profile p) wp_website_url) []"

definition displayName :: "(js_string \<Rightarrow> js_string) \<Rightarrow> js_string option \<Rightarrow> profile_tab \<Rightarrow> js_string" where
  "displayName upper email p =
     (let n = or_default (Option.bind (pf_profile p) wp_name) [] in if n \<noteq> [] then n else workspaceNameFromEmail upper email)"

text \<open>After the name is saved and the server answers with what it was sent, there is nothing left to save.\<close>

lemma saved_name_is_saved: "wp_name d = Some (pf_name p) \<Longrightarrow> name_disabled (name_settled (Inr d) (snd (handleSaveName p)))"
  by (simp add: name_disabled_def name_settled_def handleSaveName_def profile_toast_add_def or_default_def)

text \<open>With the website that holds unless there are blanks around it: then the button stays enabled for ever.\<close>

lemma saved_website_is_saved:
  "wp_website_url d = Some (js_trim (pf_websiteUrl p)) \<Longrightarrow>
    website_disabled (website_settled (Inr d) (snd (handleSaveWebsite p))) \<longleftrightarrow> js_trim (pf_websiteUrl p) = pf_websiteUrl p"
  by (auto simp: website_disabled_def website_settled_def handleSaveWebsite_def profile_toast_add_def or_default_def)

section \<open>The key pair\<close>

record key_pair =
  kp_tenantId :: js_string
  kp_secretKey :: js_string

datatype keys_toast = Keys_Failed js_string | Keys_Rotated | Rotate_Failed js_string

record keys_tab =
  kt_keys :: "key_pair option"
  kt_revealed :: bool
  kt_isRotating :: bool
  kt_notFound :: bool
  kt_toasts :: "keys_toast list"

definition keys_init :: keys_tab where
  "keys_init = \<lparr>kt_keys = None, kt_revealed = False, kt_isRotating = False, kt_notFound = False, kt_toasts = []\<rparr>"

text \<open>\<open>Inl\<close> is the message of the error.\<close>

definition keys_loaded :: "js_string + key_pair \<Rightarrow> keys_tab \<Rightarrow> keys_tab" where
  "keys_loaded r t =
     (case r of
        Inr k \<Rightarrow> t\<lparr>kt_keys := Some k, kt_notFound := False\<rparr>
      | Inl m \<Rightarrow> if js_includes m (js_of ''rotate'') then t\<lparr>kt_notFound := True\<rparr> else t\<lparr>kt_toasts := kt_toasts t @ [Keys_Failed m]\<rparr>)"

definition doRotate :: "keys_tab \<Rightarrow> keys_tab" where
  "doRotate t = t\<lparr>kt_isRotating := True\<rparr>"

definition rotate_settled :: "js_string + key_pair \<Rightarrow> keys_tab \<Rightarrow> keys_tab" where
  "rotate_settled r t =
     (case r of
        Inr k \<Rightarrow> t\<lparr>kt_keys := Some k, kt_notFound := False, kt_revealed := True, kt_toasts := kt_toasts t @ [Keys_Rotated]\<rparr>
      | Inl m \<Rightarrow> t\<lparr>kt_toasts := kt_toasts t @ [Rotate_Failed m]\<rparr>)\<lparr>kt_isRotating := False\<rparr>"

definition toggle_revealed :: "keys_tab \<Rightarrow> keys_tab" where
  "toggle_revealed t = t\<lparr>kt_revealed := \<not> kt_revealed t\<rparr>"

definition shown_secret :: "keys_tab \<Rightarrow> js_string" where
  "shown_secret t =
     (case kt_keys t of Some k \<Rightarrow> if kt_revealed t then kp_secretKey k else maskKey (kp_secretKey k) | None \<Rightarrow> [0x2026])"

definition shown_public :: "keys_tab \<Rightarrow> js_string" where
  "shown_public t = (case kt_keys t of Some k \<Rightarrow> kp_tenantId k | None \<Rightarrow> [0x2026])"

datatype keys_op = Keys_Loaded "js_string + key_pair" | Keys_Rotate | Keys_Settled "js_string + key_pair" | Keys_Toggle

text \<open>The buttons: to reveal only where a pair may be, to rotate only while no rotation runs.\<close>

fun keys_step :: "keys_op \<Rightarrow> keys_tab \<Rightarrow> keys_tab" where
  "keys_step (Keys_Loaded r) t = keys_loaded r t"
| "keys_step Keys_Rotate t = (if kt_isRotating t then t else doRotate t)"
| "keys_step (Keys_Settled r) t = (if kt_isRotating t then rotate_settled r t else t)"
| "keys_step Keys_Toggle t = (if kt_notFound t then t else toggle_revealed t)"

text \<open>What the operations would be with other secrets that a mask does not tell apart.\<close>

definition same_mask :: "key_pair \<Rightarrow> key_pair \<Rightarrow> bool" where
  "same_mask k l \<longleftrightarrow> kp_tenantId k = kp_tenantId l \<and> length (kp_secretKey k) > 16 \<and> length (kp_secretKey l) > 16 \<and>
     take 12 (kp_secretKey k) = take 12 (kp_secretKey l) \<and>
     drop (length (kp_secretKey k) - 4) (kp_secretKey k) = drop (length (kp_secretKey l) - 4) (kp_secretKey l)"

fun same_look :: "keys_op \<Rightarrow> keys_op \<Rightarrow> bool" where
  "same_look (Keys_Loaded (Inr k)) (Keys_Loaded (Inr l)) = same_mask k l"
| "same_look (Keys_Loaded (Inl m)) (Keys_Loaded (Inl m')) = (m = m')"
| "same_look (Keys_Settled (Inl m)) (Keys_Settled (Inl m')) = (m = m')"
| "same_look Keys_Rotate Keys_Rotate = True"
| "same_look _ _ = False"

definition look_alike :: "keys_tab \<Rightarrow> keys_tab \<Rightarrow> bool" where
  "look_alike t u \<longleftrightarrow> rel_option same_mask (kt_keys t) (kt_keys u) \<and> \<not> kt_revealed t \<and> \<not> kt_revealed u \<and>
     kt_isRotating t = kt_isRotating u \<and> kt_notFound t = kt_notFound u \<and> kt_toasts t = kt_toasts u"

lemma mask_same: "same_mask k l \<Longrightarrow> maskKey (kp_secretKey k) = maskKey (kp_secretKey l)"
  by (simp add: same_mask_def maskKey_def js_slice_def)

lemma look_alike_step: "look_alike t u \<Longrightarrow> same_look op op' \<Longrightarrow> look_alike (keys_step op t) (keys_step op' u)"
  by (induction op op' rule: same_look.induct)
    (auto simp: look_alike_def keys_loaded_def doRotate_def rotate_settled_def)

lemma look_alike_run: "list_all2 same_look ops ops' \<Longrightarrow> look_alike t u \<Longrightarrow> look_alike (fold keys_step ops t) (fold keys_step ops' u)"
  by (induction arbitrary: t u rule: list_all2_induct) (auto intro: look_alike_step)

text \<open>
  C38. As long as the user neither reveals the secret nor rotates it, the page depends on nothing of the secret but its first twelve and last four characters: two histories that differ only in secrets
  that agree there show the same.
\<close>

theorem secret_stays_masked:
  assumes "list_all2 same_look ops ops'"
  shows "shown_secret (fold keys_step ops keys_init) = shown_secret (fold keys_step ops' keys_init) \<and>
    shown_public (fold keys_step ops keys_init) = shown_public (fold keys_step ops' keys_init)"
proof -
  have "look_alike keys_init keys_init" by (simp add: look_alike_def keys_init_def)
  then have "look_alike (fold keys_step ops keys_init) (fold keys_step ops' keys_init)" using look_alike_run assms by blast
  then show ?thesis
    by (auto simp: look_alike_def shown_secret_def shown_public_def mask_same rel_option_iff same_mask_def split: option.splits)
qed

definition long_key :: "js_string \<Rightarrow> key_pair" where
  "long_key mid = \<lparr>kp_tenantId = [84], kp_secretKey = replicate 12 65 @ mid @ replicate 4 90\<rparr>"

lemma secret_stays_masked_witness:
  "shown_secret (fold keys_step [Keys_Loaded (Inr (long_key [49, 50]))] keys_init) =
   shown_secret (fold keys_step [Keys_Loaded (Inr (long_key [51]))] keys_init)"
  by (rule secret_stays_masked [THEN conjunct1]) (simp add: same_mask_def long_key_def)

text \<open>
  The pair can be rotated before the first request for it is answered. If that answer comes last, the page goes back to the old secret, which the server no longer accepts, and shows it in clear.
\<close>

lemma late_load_shows_old_secret:
  "shown_secret (fold keys_step [Keys_Rotate, Keys_Settled (Inr k'), Keys_Loaded (Inr k)] keys_init) = kp_secretKey k"
  by (simp add: keys_init_def doRotate_def rotate_settled_def keys_loaded_def shown_secret_def)

section \<open>Connected sessions\<close>

text \<open>The tab is a poll without a key; an answer that fails is dropped.\<close>

record 'd sessions_tab =
  st_devices :: "'d list option"
  st_poll :: "unit poll"

definition sessions_mount :: "'d sessions_tab" where
  "sessions_mount = \<lparr>st_devices = None, st_poll = poll_start () (poll_init ())\<rparr>"

definition sessions_answer :: "nat \<Rightarrow> 'd list option \<Rightarrow> 'd sessions_tab \<Rightarrow> 'd sessions_tab" where
  "sessions_answer i outcome s =
     (let (mine, q) = poll_settle i (st_poll s); s1 = s\<lparr>st_poll := q\<rparr> in
      case outcome of Some ds \<Rightarrow> if mine then s1\<lparr>st_devices := Some ds\<rparr> else s1 | None \<Rightarrow> s1)"

definition sessions_leave :: "'d sessions_tab \<Rightarrow> 'd sessions_tab" where
  "sessions_leave s = s\<lparr>st_poll := poll_stop (st_poll s)\<rparr>"

text \<open>The number on the badge.\<close>

definition sessions_count :: "'d sessions_tab \<Rightarrow> nat" where
  "sessions_count s = (case st_devices s of Some ds \<Rightarrow> length ds | None \<Rightarrow> 0)"

text \<open>After the tab is left no answer changes it any more.\<close>

lemma left_sessions_stay: "st_devices (sessions_answer i outcome (sessions_leave s)) = st_devices s"
  by (simp add: sessions_answer_def sessions_leave_def poll_settle_def poll_stop_def Let_def split: option.split)

section \<open>Preferences\<close>

record push_summary =
  psu_endpoint :: js_string
  psu_sub :: js_string
  psu_channels :: "js_string list"
  psu_device_label :: "js_string option"
  psu_created_at :: js_string

datatype preferences_toast =
    Devices_Failed | Push_Enabled | Push_Enable_Failed | Push_Disabled | Push_Disable_Failed
  | Device_Revoked | Device_Revoke_Failed | Test_Sent | Test_Failed

text \<open>\<open>px_loads\<close> counts the open requests for the list of devices.\<close>

record preferences_tab =
  px_vapidPublicKey :: "js_string option"
  px_permission :: js_string
  px_isBusy :: bool
  px_devices :: "push_summary list option"
  px_revokingEndpoint :: "js_string option"
  px_testingEndpoint :: "js_string option"
  px_loads :: nat
  px_toasts :: "preferences_toast list"

definition prefs_toast :: "preferences_toast \<Rightarrow> preferences_tab \<Rightarrow> preferences_tab" where
  "prefs_toast x p = p\<lparr>px_toasts := px_toasts p @ [x]\<rparr>"

definition loadDevices :: "preferences_tab \<Rightarrow> preferences_tab" where
  "loadDevices p = p\<lparr>px_loads := px_loads p + 1\<rparr>"

definition devices_loaded :: "push_summary list option \<Rightarrow> preferences_tab \<Rightarrow> preferences_tab" where
  "devices_loaded outcome p =
     (if px_loads p = 0 then p
      else (let p1 = p\<lparr>px_loads := px_loads p - 1\<rparr> in
        case outcome of Some ds \<Rightarrow> p1\<lparr>px_devices := Some ds\<rparr> | None \<Rightarrow> prefs_toast Devices_Failed p1))"

text \<open>\<open>permission\<close> is \<open>Notification.permission\<close> of the browser at the time.\<close>

definition preferences_mount :: "bool \<Rightarrow> js_string \<Rightarrow> preferences_tab" where
  "preferences_mount supported permission =
     loadDevices \<lparr>px_vapidPublicKey = None, px_permission = (if supported then permission else js_of ''default''), px_isBusy = False, px_devices = None,
       px_revokingEndpoint = None, px_testingEndpoint = None, px_loads = 0, px_toasts = []\<rparr>"

definition vapid_loaded :: "js_string option option \<Rightarrow> preferences_tab \<Rightarrow> preferences_tab" where
  "vapid_loaded outcome p = p\<lparr>px_vapidPublicKey := or_default outcome None\<rparr>"

definition handleEnable :: "preferences_tab \<Rightarrow> preferences_tab" where
  "handleEnable p = (if or_default (px_vapidPublicKey p) [] = [] then p else p\<lparr>px_isBusy := True\<rparr>)"

definition enable_settled :: "bool \<Rightarrow> js_string \<Rightarrow> preferences_tab \<Rightarrow> preferences_tab" where
  "enable_settled success permission p =
     (if success then loadDevices (prefs_toast Push_Enabled (p\<lparr>px_permission := permission\<rparr>)) else prefs_toast Push_Enable_Failed p)\<lparr>px_isBusy := False\<rparr>"

definition handleDisable :: "preferences_tab \<Rightarrow> preferences_tab" where
  "handleDisable p = p\<lparr>px_isBusy := True\<rparr>"

definition disable_settled :: "bool \<Rightarrow> preferences_tab \<Rightarrow> preferences_tab" where
  "disable_settled success p =
     (if success then loadDevices (prefs_toast Push_Disabled p) else prefs_toast Push_Disable_Failed p)\<lparr>px_isBusy := False\<rparr>"

definition doRevokeDevice :: "push_summary \<Rightarrow> preferences_tab \<Rightarrow> preferences_tab" where
  "doRevokeDevice d p = p\<lparr>px_revokingEndpoint := Some (psu_endpoint d)\<rparr>"

definition device_revoke_settled :: "bool \<Rightarrow> push_summary \<Rightarrow> preferences_tab \<Rightarrow> preferences_tab" where
  "device_revoke_settled success d p =
     (if success then (prefs_toast Device_Revoked p)\<lparr>px_devices := map_option (filter (\<lambda>e. psu_endpoint e \<noteq> psu_endpoint d)) (px_devices p)\<rparr>
      else prefs_toast Device_Revoke_Failed p)\<lparr>px_revokingEndpoint := None\<rparr>"

definition handleSendTest :: "push_summary \<Rightarrow> preferences_tab \<Rightarrow> preferences_tab" where
  "handleSendTest d p = p\<lparr>px_testingEndpoint := Some (psu_endpoint d)\<rparr>"

definition test_settled :: "bool \<Rightarrow> preferences_tab \<Rightarrow> preferences_tab" where
  "test_settled success p = (prefs_toast (if success then Test_Sent else Test_Failed) p)\<lparr>px_testingEndpoint := None\<rparr>"

datatype push_notice = Notice_Enabled | Notice_Blocked | Notice_Offer

definition push_notice_of :: "bool \<Rightarrow> preferences_tab \<Rightarrow> push_notice option" where
  "push_notice_of supported p =
     (if \<not> supported \<or> or_default (px_vapidPublicKey p) [] = [] then None
      else if px_permission p = js_of ''granted'' then Some Notice_Enabled
      else if px_permission p = js_of ''denied'' then Some Notice_Blocked
      else Some Notice_Offer)"

text \<open>
  The notice about notifications in the preferences goes stale. When the user denies the permission at the prompt, the page goes on offering to enable them, since only a success reads the
  permission again; and after notifications are disabled the page goes on saying that they are enabled and offers only to disable them.
\<close>

theorem push_notice_stale:
  "key \<noteq> [] \<Longrightarrow>
   push_notice_of True (enable_settled False (js_of ''denied'') (handleEnable (vapid_loaded (Some (Some key)) (preferences_mount True (js_of ''default''))))) = Some Notice_Offer \<and>
   push_notice_of True (disable_settled True (handleDisable (vapid_loaded (Some (Some key)) (preferences_mount True (js_of ''granted''))))) = Some Notice_Enabled"
  by (simp add: push_notice_of_def enable_settled_def handleEnable_def vapid_loaded_def preferences_mount_def disable_settled_def handleDisable_def loadDevices_def
      prefs_toast_def or_default_def)

lemma push_notice_stale_witness:
  "push_notice_of True (enable_settled False (js_of ''denied'') (handleEnable (vapid_loaded (Some (Some [75])) (preferences_mount True (js_of ''default''))))) = Some Notice_Offer"
  using push_notice_stale [of "[75]"] by simp

text \<open>A device that was revoked is listed again by an answer that was under way.\<close>

lemma late_list_restores_revoked:
  "px_devices (fold (\<lambda>f. f) [device_revoke_settled True d, devices_loaded (Some [d])] (doRevokeDevice d (preferences_mount True perm))) = Some [d]"
  by (simp add: preferences_mount_def loadDevices_def doRevokeDevice_def device_revoke_settled_def devices_loaded_def prefs_toast_def)

section \<open>Display preferences\<close>

text \<open>The store \<open>ui.store.ts\<close>; a reload takes the persisted fields over the initial ones.\<close>

record ui_state =
  ui_sidebarOpen :: bool
  ui_pageSize :: nat
  ui_metricsRefreshIntervalMs :: nat
  ui_focusMode :: bool
  ui_aiAssistantPosition :: js_string

definition ui_init :: ui_state where
  "ui_init = \<lparr>ui_sidebarOpen = True, ui_pageSize = 10, ui_metricsRefreshIntervalMs = 5000, ui_focusMode = False,
     ui_aiAssistantPosition = js_of ''bottom-right''\<rparr>"

definition PAGE_SIZE_OPTIONS :: "nat list" where "PAGE_SIZE_OPTIONS = [10, 20, 30, 50, 100]"
definition METRICS_REFRESH_INTERVAL_OPTIONS_MS :: "nat list" where "METRICS_REFRESH_INTERVAL_OPTIONS_MS = [3000, 5000, 10000, 30000, 60000]"

datatype ui_op = Toggle_Sidebar | Set_Sidebar bool | Set_Page_Size nat | Set_Refresh nat | Toggle_Focus | Set_Focus bool | Set_Position js_string | Reload

definition partialize :: "ui_state \<Rightarrow> bool \<times> nat \<times> nat \<times> js_string" where
  "partialize u = (ui_sidebarOpen u, ui_pageSize u, ui_metricsRefreshIntervalMs u, ui_aiAssistantPosition u)"

definition rehydrate :: "bool \<times> nat \<times> nat \<times> js_string \<Rightarrow> ui_state" where
  "rehydrate p = (case p of (b, n, ms, pos) \<Rightarrow>
     ui_init\<lparr>ui_sidebarOpen := b, ui_pageSize := n, ui_metricsRefreshIntervalMs := ms, ui_aiAssistantPosition := pos\<rparr>)"

text \<open>The size of a page and the interval are chosen from the lists of the settings.\<close>

fun ui_step :: "ui_op \<Rightarrow> ui_state \<Rightarrow> ui_state" where
  "ui_step Toggle_Sidebar u = u\<lparr>ui_sidebarOpen := \<not> ui_sidebarOpen u\<rparr>"
| "ui_step (Set_Sidebar b) u = u\<lparr>ui_sidebarOpen := b\<rparr>"
| "ui_step (Set_Page_Size n) u = (if n \<in> set PAGE_SIZE_OPTIONS then u\<lparr>ui_pageSize := n\<rparr> else u)"
| "ui_step (Set_Refresh ms) u = (if ms \<in> set METRICS_REFRESH_INTERVAL_OPTIONS_MS then u\<lparr>ui_metricsRefreshIntervalMs := ms\<rparr> else u)"
| "ui_step Toggle_Focus u = u\<lparr>ui_focusMode := \<not> ui_focusMode u\<rparr>"
| "ui_step (Set_Focus b) u = u\<lparr>ui_focusMode := b\<rparr>"
| "ui_step (Set_Position pos) u = u\<lparr>ui_aiAssistantPosition := pos\<rparr>"
| "ui_step Reload u = rehydrate (partialize u)"

lemma reload_keeps: "rehydrate (partialize u) = u\<lparr>ui_focusMode := False\<rparr>"
  by (simp add: rehydrate_def partialize_def ui_init_def)

interpretation ui: guarded_machine ui_init ui_step
  "\<lambda>u. ui_pageSize u \<in> set PAGE_SIZE_OPTIONS \<and> ui_metricsRefreshIntervalMs u \<in> set METRICS_REFRESH_INTERVAL_OPTIONS_MS"
proof
  show "ui_pageSize (ui_step op u) \<in> set PAGE_SIZE_OPTIONS \<and> ui_metricsRefreshIntervalMs (ui_step op u) \<in> set METRICS_REFRESH_INTERVAL_OPTIONS_MS"
    if "ui_pageSize u \<in> set PAGE_SIZE_OPTIONS \<and> ui_metricsRefreshIntervalMs u \<in> set METRICS_REFRESH_INTERVAL_OPTIONS_MS" for u op
    using that by (cases op) (simp_all add: reload_keeps)
qed (simp add: ui_init_def PAGE_SIZE_OPTIONS_def METRICS_REFRESH_INTERVAL_OPTIONS_MS_def)

end
