(* ===== verification/Tenant_Admin.thy ===== *)
theory Tenant_Admin
  imports Dialogs
begin

text \<open>
  The tenants page of the admin console (\<open>admin/src/modules/tenants/pages/TenantsPage.tsx\<close>) with its dialogs to create, track and limit a tenant (\<open>admin/src/modules/tenants/components\<close>), over the
  list of known tenants of \<open>Console\<close> and the dialogs of \<open>Dialogs\<close>, and the two forms that connect the console (\<open>LoginForm.tsx\<close>, \<open>AdminSettingsPage.tsx\<close>). A handler is cut at its \<open>await\<close>; the
  response of a request has the shape of its type.
\<close>

section \<open>Connecting\<close>

text \<open>\<open>replace(/\/$/, '')\<close>\<close>

definition drop_last_slash :: "js_string \<Rightarrow> js_string" where
  "drop_last_slash s = (if s \<noteq> [] \<and> last s = 47 then butlast s else s)"

text \<open>\<open>from\<close> is the path that led to the form.\<close>

definition console_login :: "js_string \<Rightarrow> js_string \<Rightarrow> js_string option \<Rightarrow> admin_auth \<Rightarrow> admin_auth \<times> js_string option" where
  "console_login apiUrl token from_path st =
     (if js_trim apiUrl = [] \<or> js_trim token = [] then (st, None)
      else (admin_connect (drop_last_slash (js_trim apiUrl)) (js_trim token) st, Some (or_default from_path (js_of ''/admin''))))"

definition console_save :: "js_string \<Rightarrow> js_string \<Rightarrow> admin_auth \<Rightarrow> admin_auth \<times> bool" where
  "console_save urlDraft tokenDraft st =
     (if js_trim urlDraft = [] \<or> js_trim tokenDraft = [] then (st, False)
      else (admin_connect (drop_last_slash (js_trim urlDraft)) (js_trim tokenDraft) st, True))"

text \<open>Both forms connect in the same way, and a session always has an address and a token that are not empty, unless the address is a single slash.\<close>

lemma console_forms_agree: "fst (console_login u t from_path st) = fst (console_save u t st)"
  by (simp add: console_login_def console_save_def)

lemma console_connected:
  "snd (console_save u t st) \<Longrightarrow> js_trim u \<noteq> [47] \<Longrightarrow>
    request_base (aa_apiUrl (fst (console_save u t st))) (aa_token (fst (console_save u t st))) =
    (Some (drop_last_slash (js_trim u)), Some (js_of ''Bearer '' @ js_trim t))"
  by (cases "js_trim u" rule: rev_cases)
    (auto simp: console_save_def admin_connect_def request_base_def given_text_def drop_last_slash_def split: if_splits)

section \<open>Creating and tracking\<close>

record create_dialog =
  cd_label :: js_string
  cd_tenantId :: js_string
  cd_secret :: js_string
  cd_isSubmitting :: bool
  cd_error :: "api_error option"

definition create_init :: create_dialog where
  "create_init = \<lparr>cd_label = [], cd_tenantId = [], cd_secret = [], cd_isSubmitting = False, cd_error = None\<rparr>"

definition plain_dialog :: "js_string \<Rightarrow> js_string option \<Rightarrow> dialog_size option \<Rightarrow> dialog_options" where
  "plain_dialog title description dsize =
     \<lparr>do_title = Some title, do_description = description, do_size = dsize, do_animation = None, do_closable = None, do_persistent = None\<rparr>"

definition create_submit :: "create_dialog \<Rightarrow> json \<times> create_dialog" where
  "create_submit f =
     (let trimmedId = js_trim (cd_tenantId f); trimmedSecret = js_trim (cd_secret f) in
      (JObj ((if trimmedId \<noteq> [] then [(js_of ''tenant_id'', JStr trimmedId)] else []) @
             (if trimmedSecret \<noteq> [] then [(js_of ''secret'', JStr trimmedSecret)] else [])),
       f\<lparr>cd_isSubmitting := True, cd_error := None\<rparr>))"

record tenant_secret =
  tr_tenant_id :: js_string
  tr_secret :: js_string

definition or_label :: "js_string \<Rightarrow> js_string \<Rightarrow> js_string" where
  "or_label label tid = (if js_trim label \<noteq> [] then js_trim label else tid)"

text \<open>The identity of the dialog that shows the secret is \<open>did\<close>.\<close>

definition create_settled ::
    "js_string \<Rightarrow> js_string \<Rightarrow> api_error + tenant_secret \<Rightarrow> create_dialog \<times> known_tenant list \<times> dialogs \<Rightarrow> create_dialog \<times> known_tenant list \<times> dialogs" where
  "create_settled now did outcome s =
     (let (f, ts, g) = s in
      case outcome of
        Inr r \<Rightarrow>
          (f\<lparr>cd_isSubmitting := False\<rparr>, tenants_add now (tr_tenant_id r) (or_label (cd_label f) (tr_tenant_id r)) None ts,
           openDialog did Other_Component (plain_dialog (js_of ''Tenant secret'') None (Some Md)) (closeAll g))
      | Inl e \<Rightarrow> (f\<lparr>cd_error := Some e, cd_isSubmitting := False\<rparr>, ts, g))"

definition track_submit :: "js_string \<Rightarrow> js_string \<Rightarrow> js_string \<Rightarrow> known_tenant list \<times> dialogs \<Rightarrow> known_tenant list \<times> dialogs" where
  "track_submit now tenantId label s =
     (let (ts, g) = s; tid = js_trim tenantId in
      if tid = [] then (ts, g) else (tenants_add now tid (or_label label tid) None ts, closeAll g))"

section \<open>Limits\<close>

text \<open>The values are an object with four numbers; a field is written with \<open>Number(e.target.value)\<close>.\<close>

definition DEFAULT_RATE_LIMITS :: json where
  "DEFAULT_RATE_LIMITS = JObj
     [(js_of ''session_capacity'', json_nat 20), (js_of ''session_refill_per_sec'', json_nat 10),
      (js_of ''tenant_capacity'', json_nat 2000), (js_of ''tenant_refill_per_sec'', json_nat 500)]"

definition LIMIT_FIELDS :: "js_string list" where
  "LIMIT_FIELDS = map js_of [''session_capacity'', ''session_refill_per_sec'', ''tenant_capacity'', ''tenant_refill_per_sec'']"

record limits_dialog =
  lm_values :: json
  lm_isSubmitting :: bool
  lm_error :: "api_error option"

definition limits_init :: "json option \<Rightarrow> limits_dialog" where
  "limits_init initial = \<lparr>lm_values = or_default initial DEFAULT_RATE_LIMITS, lm_isSubmitting = False, lm_error = None\<rparr>"

fun with_member :: "js_string \<Rightarrow> json \<Rightarrow> json \<Rightarrow> json" where
  "with_member k v (JObj ms) = JObj (jset k v ms)"
| "with_member k v j = JObj [(k, v)]"

definition limits_edit :: "js_string \<Rightarrow> js_string \<Rightarrow> limits_dialog \<Rightarrow> limits_dialog" where
  "limits_edit field txt d = (if field \<in> set LIMIT_FIELDS then d\<lparr>lm_values := with_member field (JNum (js_Number txt)) (lm_values d)\<rparr> else d)"

definition limits_submit :: "limits_dialog \<Rightarrow> json \<times> limits_dialog" where
  "limits_submit d = (lm_values d, d\<lparr>lm_isSubmitting := True, lm_error := None\<rparr>)"

definition setTenantLimitsAction :: "axios_outcome \<Rightarrow> api_error option" where
  "setTenantLimitsAction outcome = apiRequestVoid outcome"

text \<open>\<open>sent\<close> are the values of the request, those of the dialog when it was submitted.\<close>

definition limits_settled ::
    "js_string \<Rightarrow> json \<Rightarrow> axios_outcome \<Rightarrow> limits_dialog \<times> known_tenant list \<times> dialogs \<Rightarrow> limits_dialog \<times> known_tenant list \<times> dialogs" where
  "limits_settled tenantId sent outcome s =
     (let (d, ts, g) = s in
      case setTenantLimitsAction outcome of
        None \<Rightarrow> (d\<lparr>lm_isSubmitting := False\<rparr>, tenants_updateLimits tenantId sent ts, closeAll g)
      | Some e \<Rightarrow> (d\<lparr>lm_error := Some e, lm_isSubmitting := False\<rparr>, ts, g))"

text \<open>Opened again, the dialog shows the values that the server accepted.\<close>

lemma limits_reopened:
  assumes "t \<in> set ts" "kt_tenantId t = tid" "setTenantLimitsAction outcome = None"
  shows "\<exists>t' \<in> set (fst (snd (limits_settled tid (fst (limits_submit d)) outcome (snd (limits_submit d), ts, g)))).
    kt_tenantId t' = tid \<and> lm_values (limits_init (kt_limits t')) = lm_values d"
  using assms
  by (intro bexI [of _ "t\<lparr>kt_limits := Some (lm_values d)\<rparr>"])
    (auto simp: limits_settled_def limits_submit_def tenants_updateLimits_def limits_init_def or_default_def)

section \<open>Rotating and revoking\<close>

definition handleRotate :: "js_string \<Rightarrow> api_error + tenant_secret \<Rightarrow> dialogs \<Rightarrow> dialogs" where
  "handleRotate did outcome g =
     (case outcome of Inr r \<Rightarrow> openDialog did Other_Component (plain_dialog (js_of ''New tenant secret'') None None) g | Inl e \<Rightarrow> g)"

definition handleLimits :: "js_string \<Rightarrow> known_tenant \<Rightarrow> dialogs \<Rightarrow> dialogs" where
  "handleLimits did t g = openDialog did Other_Component (plain_dialog (js_of ''Rate limits'') (Some (kt_label t)) None) g"

definition handleRevoke :: "js_string \<Rightarrow> known_tenant \<Rightarrow> dialogs \<Rightarrow> dialogs" where
  "handleRevoke did t g = openDialog did (confirm_init (Some (kt_tenantId t))) (plain_dialog (js_of ''Revoke tenant?'') None None) g"

definition revokeTenantAction :: "axios_outcome \<Rightarrow> api_error option" where
  "revokeTenantAction outcome = apiRequestVoid outcome"

text \<open>\<open>onConfirm\<close> of the revocation and what the dialog does after it; an error leaves the list and the dialog.\<close>

definition revoke_settled :: "js_string \<Rightarrow> js_string \<Rightarrow> axios_outcome \<Rightarrow> known_tenant list \<times> dialogs \<Rightarrow> known_tenant list \<times> dialogs" where
  "revoke_settled did tenantId outcome s =
     (let (ts, g) = s in
      case revokeTenantAction outcome of
        None \<Rightarrow> (tenants_remove tenantId ts, confirm_settled True did g)
      | Some e \<Rightarrow> (ts, confirm_settled False did g))"

lemma find_snoc: "find P xs = None \<Longrightarrow> find P (xs @ [x]) = (if P x then Some x else None)"
  by (induction xs) (auto split: if_splits)

text \<open>The button of the dialog calls the server only after the identifier of the tenant was typed.\<close>

lemma revoke_needs_identifier:
  assumes "did \<notin> dl_id ` set (dg_stack g)"
  shows "dg_log (confirm_click did (confirm_type did txt (handleRevoke did t g))) =
    (if txt = kt_tenantId t then dg_log g @ [(did, txt)] else dg_log g)"
proof -
  have f: "find (\<lambda>d. dl_id d = did) (dg_stack g) = None" using assms by (auto simp: find_None_iff)
  have m: "map (\<lambda>d. if dl_id d = did then h d else d) (dg_stack g) = dg_stack g" for h
    using assms by (intro map_idI) auto
  have "find_confirm did (confirm_type did txt (handleRevoke did t g)) =
      Some \<lparr>cf_confirmationText = Some (kt_tenantId t), cf_typedText = txt, cf_isSubmitting = False\<rparr>"
    using f by (simp add: find_confirm_def confirm_type_def handleRevoke_def upd_confirm_def openDialog_def confirm_init_def m find_snoc)
  then show ?thesis
    by (simp add: confirm_click_def isBlocked_def) (simp add: confirm_type_def upd_confirm_def handleRevoke_def openDialog_def)
qed

section \<open>The list against what the server acknowledged\<close>

text \<open>What the page does to the list, with the answers; and what each is worth to the user: an entry created, tracked, limited or revoked.\<close>

datatype admin_op =
    Admin_Created js_string js_string js_string "api_error + tenant_secret"
  | Admin_Track js_string js_string js_string
  | Admin_Limits js_string json axios_outcome
  | Admin_Revoke js_string axios_outcome

datatype ledger_entry = Entered js_string | Limited js_string json | Revoked js_string

fun admin_step :: "admin_op \<Rightarrow> known_tenant list \<Rightarrow> known_tenant list" where
  "admin_step (Admin_Created now did label outcome) ts =
     fst (snd (create_settled now did outcome (create_init\<lparr>cd_label := label\<rparr>, ts, dialogs_init)))"
| "admin_step (Admin_Track now tid label) ts = fst (track_submit now tid label (ts, dialogs_init))"
| "admin_step (Admin_Limits tid values outcome) ts = fst (snd (limits_settled tid values outcome (limits_init None, ts, dialogs_init)))"
| "admin_step (Admin_Revoke tid outcome) ts = fst (revoke_settled [] tid outcome (ts, dialogs_init))"

fun acknowledged :: "admin_op \<Rightarrow> ledger_entry list" where
  "acknowledged (Admin_Created now did label outcome) = (case outcome of Inr r \<Rightarrow> [Entered (tr_tenant_id r)] | Inl e \<Rightarrow> [])"
| "acknowledged (Admin_Track now tid label) = (if js_trim tid = [] then [] else [Entered (js_trim tid)])"
| "acknowledged (Admin_Limits tid values outcome) = (if apiRequestVoid outcome = None then [Limited tid values] else [])"
| "acknowledged (Admin_Revoke tid outcome) = (if apiRequestVoid outcome = None then [Revoked tid] else [])"

text \<open>The ledger: the limits that are known of each tenant on the list.\<close>

fun ledger_step :: "ledger_entry \<Rightarrow> (js_string \<rightharpoonup> json option) \<Rightarrow> (js_string \<rightharpoonup> json option)" where
  "ledger_step (Entered i) m = (if i \<in> dom m then m else m(i \<mapsto> None))"
| "ledger_step (Limited i v) m = (if i \<in> dom m then m(i \<mapsto> Some v) else m)"
| "ledger_step (Revoked i) m = m(i := None)"

definition tenant_view :: "known_tenant list \<Rightarrow> (js_string \<rightharpoonup> json option)" where
  "tenant_view ts = map_of (map (\<lambda>t. (kt_tenantId t, kt_limits t)) ts)"

lemma dom_view: "dom (tenant_view ts) = kt_tenantId ` set ts"
  by (simp add: tenant_view_def dom_map_of_conv_image_fst image_image)

lemma view_add: "tenant_view (tenants_add now i l None ts) = ledger_step (Entered i) (tenant_view ts)"
  by (auto simp: tenants_add_def dom_view list_ex_iff) (simp add: tenant_view_def)

lemma view_remove: "tenant_view (tenants_remove i ts) = ledger_step (Revoked i) (tenant_view ts)"
  unfolding tenant_view_def tenants_remove_def by (induction ts) (auto simp: fun_eq_iff)

lemma view_limits: "tenant_view (tenants_updateLimits i v ts) = ledger_step (Limited i v) (tenant_view ts)"
proof (induction ts)
  case (Cons t ts)
  have "tenant_view (t # us) = (tenant_view us)(kt_tenantId t \<mapsto> kt_limits t)" for t us by (simp add: tenant_view_def)
  moreover have "tenants_updateLimits i v (t # ts) = (if kt_tenantId t = i then t\<lparr>kt_limits := Some v\<rparr> else t) # tenants_updateLimits i v ts"
    by (simp add: tenants_updateLimits_def)
  ultimately show ?case using Cons by (auto simp: fun_eq_iff domIff)
qed (simp add: tenant_view_def tenants_updateLimits_def)

lemma admin_step_view: "tenant_view (admin_step op ts) = fold ledger_step (acknowledged op) (tenant_view ts)"
  by (cases op)
    (auto simp: create_settled_def track_submit_def limits_settled_def revoke_settled_def setTenantLimitsAction_def revokeTenantAction_def
      view_add view_remove view_limits Let_def simp del: ledger_step.simps split: sum.split option.split)

interpretation ta: guarded_machine "[]" admin_step "\<lambda>ts. distinct (map kt_tenantId ts)"
proof
  show "distinct (map kt_tenantId (admin_step op ts))" if "distinct (map kt_tenantId ts)" for op ts
    using that by (cases op) (auto simp: create_settled_def track_submit_def limits_settled_def revoke_settled_def tenants_add_def tenants_remove_def
      tenant_ids distinct_map_filter list_ex_iff Let_def split: sum.split option.split)
qed simp

text \<open>
  C35. After any work on the tenants page, whatever requests failed in between, the list names exactly the tenants that were created or tracked and not revoked since, each with the limits that the
  server accepted last, and no tenant twice: the list implements the ledger of what was acknowledged.
\<close>

theorem tenant_list_refines_ledger:
  "tenant_view (fold admin_step ops []) = fold ledger_step (concat (map acknowledged ops)) Map.empty \<and>
   distinct (map kt_tenantId (fold admin_step ops []))"
proof -
  have "tenant_view (fold admin_step ops ts) = fold ledger_step (concat (map acknowledged ops)) (tenant_view ts)" for ts
    by (induction ops arbitrary: ts) (simp_all add: admin_step_view)
  from this [of "[]"] have "tenant_view (fold admin_step ops []) = fold ledger_step (concat (map acknowledged ops)) Map.empty"
    by (simp add: tenant_view_def)
  then show ?thesis using ta.inv_run by blast
qed

end
