(* ===== verification/Chat_Page.thy ===== *)
theory Chat_Page
  imports Push_Actions
begin

text \<open>
  The pages of the chat application over its stores: the form that connects (\<open>ConnectPage.tsx\<close>), the guard of the chat route
  (\<open>ConnectedRoute.tsx\<close>), the list of channels (\<open>ChannelList.tsx\<close>), the composer with its byte counter (\<open>MessageInput.tsx\<close>,
  \<open>ChatPage.tsx\<close>) and what the history shows of each message (\<open>MessageList.tsx\<close>). Times are formatted by the browser and are left out, as is the markup.
\<close>

section \<open>The connect page\<close>

record environment =
  env_defaultWsUrl :: js_string
  env_defaultTenantId :: js_string
  env_vapidPublicKey :: "js_string option"

text \<open>What \<open>env.ts\<close> makes of the variables of the build; \<open>||\<close> takes an empty key for none.\<close>

definition env_of :: "js_string option \<Rightarrow> js_string option \<Rightarrow> js_string option \<Rightarrow> environment" where
  "env_of wsUrl tenantId vapid =
     \<lparr>env_defaultWsUrl = or_default wsUrl (js_of ''ws://localhost:8080/ws''),
      env_defaultTenantId = or_default tenantId (js_of ''00000000-0000-0000-0000-000000000001''),
      env_vapidPublicKey = (if vapid = Some [] then None else vapid)\<rparr>"

record connect_form =
  cf_wsUrl :: js_string
  cf_tenantId :: js_string
  cf_token :: js_string
  cf_displayName :: js_string

definition connect_form_init :: "environment \<Rightarrow> credentials option \<Rightarrow> connect_form" where
  "connect_form_init env creds =
     \<lparr>cf_wsUrl = or_default (map_option cr_wsUrl creds) (env_defaultWsUrl env),
      cf_tenantId = or_default (map_option cr_tenantId creds) (env_defaultTenantId env),
      cf_token = or_default (map_option cr_token creds) [],
      cf_displayName = or_default (map_option cr_displayName creds) []\<rparr>"

text \<open>
  What the submit handler starts and does not wait for: the registration of Web Push, or the prompt alone when no VAPID key is configured. An error is swallowed.
\<close>

definition requestNotificationsOnConnect ::
    "'u url_class \<Rightarrow> (js_number \<Rightarrow> js_string) \<Rightarrow> environment \<Rightarrow> push_env \<Rightarrow> credentials \<Rightarrow> push_call list" where
  "requestNotificationsOnConnect U fmt env pe creds =
     (if \<not> isNotificationSupported (pe_browser pe) \<or> bw_permission (pe_browser pe) \<noteq> Default then []
      else (case env_vapidPublicKey env of
          Some k \<Rightarrow> snd (registerPushSubscriptionAction U fmt pe creds k)
        | None \<Rightarrow> [Ask_Permission]))"

definition trimmed_credentials :: "connect_form \<Rightarrow> credentials" where
  "trimmed_credentials f = \<lparr>cr_wsUrl = js_trim (cf_wsUrl f), cr_tenantId = js_trim (cf_tenantId f), cr_token = js_trim (cf_token f),
     cr_displayName = js_trim (cf_displayName f)\<rparr>"

text \<open>The two paths of the router. The submit handler gives the calls of the browser it starts, the path it navigates to, if any, and the stores.\<close>

datatype chat_path = Root_Path | Chat_Path

definition connect_disabled :: "app \<Rightarrow> bool" where
  "connect_disabled a \<longleftrightarrow> cn_status (ap_connection a) = St_Connecting"

definition connect_submit ::
    "'u url_class \<Rightarrow> (js_number \<Rightarrow> js_string) \<Rightarrow> environment \<Rightarrow> platform \<Rightarrow> push_env \<Rightarrow> connect_form \<Rightarrow> app \<Rightarrow>
     push_call list \<times> chat_path option \<times> app" where
  "connect_submit U fmt env pf pe f a =
     (if js_trim (cf_wsUrl f) = [] \<or> js_trim (cf_tenantId f) = [] \<or> js_trim (cf_token f) = [] \<or> js_trim (cf_displayName f) = [] then ([], None, a)
      else (let creds = trimmed_credentials f in
        (requestNotificationsOnConnect U fmt env pe creds, Some Chat_Path,
         a\<lparr>ap_connection := connection_connect pf (pe_browser pe) creds (ap_connection a)\<rparr>)))"

section \<open>The routes\<close>

text \<open>\<open>ConnectedRoute\<close> sends the address back to the connect page while the status is \<open>idle\<close>.\<close>

datatype chat_screen = Connect_Screen | Chat_Screen

definition chat_route :: "connection_status \<Rightarrow> chat_path \<Rightarrow> chat_screen" where
  "chat_route st path =
     (case path of Root_Path \<Rightarrow> Connect_Screen | Chat_Path \<Rightarrow> if st = St_Idle then Connect_Screen else Chat_Screen)"

section \<open>The list of channels\<close>

text \<open>\<open>handleJoin\<close>: an error of \<open>join\<close> leaves the draft; otherwise it is cleared, and the drawer closes. The last component tells whether it does.\<close>

definition handleJoin :: "js_string \<times> app \<Rightarrow> client_error option \<times> (js_string \<times> app) \<times> bool" where
  "handleJoin p =
     (case p of (draft, a) \<Rightarrow>
       (let name = js_trim draft in
        if name = [] \<or> chat_utf8ByteLength name > MAX_CHANNEL_ID_BYTES then (None, (draft, a), False)
        else (case useChannelList_join name a of
            (Some e, b) \<Rightarrow> (Some e, (draft, b), False)
          | (None, b) \<Rightarrow> (None, ([], b), True))))"

text \<open>The badge beside a channel: \<open>unreadCount > 0\<close> is false for what is no number.\<close>

fun unread_badge :: "unread \<Rightarrow> js_string option" where
  "unread_badge (Count n) = (if 0 < n then Some (if 99 < n then js_of ''99+'' else js_of_nat n) else None)"
| "unread_badge Not_A_Count = None"

definition channel_rows :: "app \<Rightarrow> (js_string \<times> bool \<times> js_string option) list" where
  "channel_rows a = map (\<lambda>(ch, u). (ch, ct_activeChannelId (ap_chat a) = Some ch, unread_badge u)) (channel_list a)"

section \<open>The composer\<close>

text \<open>The component is told how many bytes a text leaves and what to do with a text that is sent.\<close>

definition canSend :: "(js_string \<Rightarrow> int) \<Rightarrow> bool \<Rightarrow> js_string \<Rightarrow> bool" where
  "canSend remaining disabled text \<longleftrightarrow> js_trim text \<noteq> [] \<and> \<not> remaining text < 0 \<and> \<not> disabled"

definition input_submit :: "(js_string \<Rightarrow> int) \<Rightarrow> bool \<Rightarrow> (js_string \<Rightarrow> 'a \<Rightarrow> 'a) \<Rightarrow> js_string \<times> 'a \<Rightarrow> js_string \<times> 'a" where
  "input_submit remaining disabled onSend p =
     (case p of (text, a) \<Rightarrow> if canSend remaining disabled text then ([], onSend text a) else (text, a))"

text \<open>A key in the text field; the first component tells whether the browser's own reaction, a line break, is prevented.\<close>

definition handleKeyDown ::
    "(js_string \<Rightarrow> int) \<Rightarrow> bool \<Rightarrow> (js_string \<Rightarrow> 'a \<Rightarrow> 'a) \<Rightarrow> js_string \<Rightarrow> bool \<Rightarrow> js_string \<times> 'a \<Rightarrow> bool \<times> js_string \<times> 'a" where
  "handleKeyDown remaining disabled onSend key shiftKey p =
     (if key = js_of ''Enter'' \<and> \<not> shiftKey then (True, input_submit remaining disabled onSend p) else (False, p))"

text \<open>\<open>ChatPage\<close> shows the composer when there is an active channel, and gives it the functions of \<open>useChannel\<close>.\<close>

definition page_channel :: "app \<Rightarrow> js_string option" where
  "page_channel a = (case ct_activeChannelId (ap_chat a) of Some ch \<Rightarrow> if ch = [] then None else Some ch | None \<Rightarrow> None)"

definition page_submit :: "(nat \<Rightarrow> rat) \<Rightarrow> (js_number \<Rightarrow> js_string) \<Rightarrow> js_string \<Rightarrow> int \<Rightarrow> js_string \<times> app \<Rightarrow> js_string \<times> app" where
  "page_submit rnd fmt rid now p =
     (case page_channel (snd p) of
        None \<Rightarrow> p
      | Some ch \<Rightarrow> input_submit (remainingBytes fmt (snd p)) False (useChannel_send rnd fmt rid now (Some ch)) p)"

section \<open>The history\<close>

definition initials :: "(js_string \<Rightarrow> js_string) \<Rightarrow> js_string \<Rightarrow> js_string" where
  "initials upper name = upper (take 2 name)"

text \<open>\<open>previous?.from === message.from && previous?.direction === message.direction\<close>; before the first message there is none, and no sender is \<open>undefined\<close>.\<close>

definition groupedWithPrevious :: "chat_message option \<Rightarrow> chat_message \<Rightarrow> bool" where
  "groupedWithPrevious previous m =
     (case previous of None \<Rightarrow> False | Some q \<Rightarrow> cm_from q = cm_from m \<and> cm_out q = cm_out m)"

definition sender_name :: "chat_message \<Rightarrow> js_string" where
  "sender_name m = or_default (cm_from m) (js_of ''anonymous'')"

text \<open>What is shown of a message: the initials in its avatar, the name above it, its side and its text.\<close>

record bubble =
  bb_avatar :: "js_string option"
  bb_sender :: "js_string option"
  bb_right :: bool
  bb_text :: js_string

definition bubble_of :: "(js_string \<Rightarrow> js_string) \<Rightarrow> chat_message option \<Rightarrow> chat_message \<Rightarrow> bubble" where
  "bubble_of upper previous m =
     (let grouped = groupedWithPrevious previous m; sender = sender_name m in
      \<lparr>bb_avatar = (if \<not> grouped then Some (initials upper sender) else None),
       bb_sender = (if \<not> grouped \<and> \<not> cm_out m then Some sender else None),
       bb_right = cm_out m, bb_text = cm_text m\<rparr>)"

definition message_list :: "(js_string \<Rightarrow> js_string) \<Rightarrow> chat_message list \<Rightarrow> bubble list" where
  "message_list upper ms = map (\<lambda>i. bubble_of upper (if i = 0 then None else Some (ms ! (i - 1))) (ms ! i)) [0..<length ms]"

section \<open>The length of an envelope\<close>

text \<open>JSON text is well formed and without NUL, so its length in bytes adds up.\<close>

definition clean_text :: "js_string \<Rightarrow> bool" where
  "clean_text s \<longleftrightarrow> well_formed s \<and> 0 \<notin> set s"

lemma clean_Cons: "\<not> is_high u \<Longrightarrow> \<not> is_low u \<Longrightarrow> clean_text (u # s) \<longleftrightarrow> u \<noteq> 0 \<and> clean_text s"
  by (cases s) (auto simp: clean_text_def)

lemma clean_simps [simp]: "clean_text []" "clean_text s \<Longrightarrow> clean_text (s @ t) \<longleftrightarrow> clean_text t" "u < 0x80 \<Longrightarrow> clean_text (u # s) \<longleftrightarrow> u \<noteq> 0 \<and> clean_text s"
proof -
  show "clean_text []" "clean_text s \<Longrightarrow> clean_text (s @ t) \<longleftrightarrow> clean_text t" by (auto simp: clean_text_def well_formed_append)
  show "u < 0x80 \<Longrightarrow> clean_text (u # s) \<longleftrightarrow> u \<noteq> 0 \<and> clean_text s" by (rule clean_Cons) (simp_all add: word_less_nat_alt is_high_def is_low_def)
qed

lemma clean_ascii: "(\<And>u. u \<in> set s \<Longrightarrow> u \<noteq> 0 \<and> unat u < 0x80) \<Longrightarrow> clean_text s"
  by (auto simp: clean_text_def intro: bmp_only_well_formed ascii_bmp_only)

lemma bytes_append: "clean_text s \<Longrightarrow> chat_utf8ByteLength (s @ t) = chat_utf8ByteLength s + chat_utf8ByteLength t"
  by (simp add: chat_utf8ByteLength_def clean_text_def text_encode_append well_formed_no_cut)

lemma hex_unit_ascii: "n < 16 \<Longrightarrow> hex_unit n \<noteq> 0 \<and> unat (hex_unit n) < 0x80"
proof -
  assume "n < 16"
  then have "n \<in> set [0..<16]" by simp
  then show ?thesis by (simp add: upt_rec hex_unit_def) auto
qed

lemma unit_div_4096: "unat (u :: code_unit) div 4096 < 16"
  using unat_unit_less [of u] by simp

lemma clean_hex4: "clean_text (hex4 u)"
  using unit_div_4096 [of u] by (intro clean_ascii) (auto simp: hex4_def Let_def hex_unit_ascii)

lemma clean_quote_unit: "clean_text (quote_unit u)"
proof (cases "unat u < 32 \<or> surrogate u")
  case True
  then show ?thesis using clean_hex4 [of u] by (simp add: quote_unit_def)
next
  case False
  then have "u \<noteq> 0" by auto
  then show ?thesis using False by (simp add: quote_unit_def clean_Cons surrogate_def)
qed

lemma clean_quote_units: "clean_text (quote_units s)"
proof (induction s rule: quote_units.induct)
  case (3 u v s)
  show ?case
  proof (cases "is_high u \<and> is_low v")
    case True
    then have "u \<noteq> 0" "v \<noteq> 0" by (auto simp: is_high_def is_low_def)
    then show ?thesis using True "3.IH"(1) by (simp add: clean_text_def)
  next
    case False
    then have "quote_units (u # v # s) = quote_unit u @ quote_units (v # s)" by auto
    then show ?thesis using "3.IH"(2) [OF False] clean_quote_unit by (simp only: clean_simps)
  qed
qed (simp_all add: clean_quote_unit)

lemma clean_quote_json: "clean_text (quote_json s)"
  by (simp add: quote_json_def clean_quote_units)

lemma blank_no_surrogate: "is_blank u \<Longrightarrow> \<not> is_high u \<and> \<not> is_low u"
  by (auto simp: is_blank_def is_high_def is_low_def Let_def)

lemma quote_units_Cons: "\<not> is_high u \<Longrightarrow> quote_units (u # s) = quote_unit u @ quote_units s"
  by (cases s) simp_all

lemma quote_units_snoc: "\<not> is_low u \<Longrightarrow> quote_units (s @ [u]) = quote_units s @ quote_unit u"
  by (induction s rule: quote_units.induct) simp_all

lemma json_chat_split:
  "json_stringify fmt (chat_json d t) =
     ([123] @ quote_json (js_of ''from'') @ [58] @ quote_json d @ [44] @ quote_json (js_of ''text'') @ [58, 34]) @ quote_units t @ [34, 125]"
  by (simp add: chat_json_def quote_json_def)

lemma clean_json_chat: "clean_text (json_stringify fmt (chat_json d t))"
  unfolding json_chat_split by (simp add: clean_quote_json clean_quote_units del: js_of_simps)

text \<open>What the text adds to the envelope, and what is left of that without the blanks around it.\<close>

lemma bytes_json_chat:
  obtains k where "\<And>t. chat_utf8ByteLength (json_stringify fmt (chat_json d t)) = k + chat_utf8ByteLength (quote_units t)"
proof -
  let ?p = "[123] @ quote_json (js_of ''from'') @ [58] @ quote_json d @ [44] @ quote_json (js_of ''text'') @ [58, 34]"
  have "clean_text ?p" by (simp add: clean_quote_json del: js_of_simps)
  then have "chat_utf8ByteLength (json_stringify fmt (chat_json d t)) =
      (chat_utf8ByteLength ?p + chat_utf8ByteLength [34, 125]) + chat_utf8ByteLength (quote_units t)" for t
    unfolding json_chat_split by (simp only: bytes_append clean_quote_units)
  then show ?thesis by (rule that)
qed

lemma bytes_drop_blanks: "chat_utf8ByteLength (quote_units (dropWhile is_blank t)) \<le> chat_utf8ByteLength (quote_units t)"
  by (induction t) (auto simp: quote_units_Cons blank_no_surrogate bytes_append clean_quote_unit)

lemma bytes_drop_blanks_end:
  "chat_utf8ByteLength (quote_units (rev (dropWhile is_blank (rev t)))) \<le> chat_utf8ByteLength (quote_units t)"
  by (induction t rule: rev_induct) (auto simp: quote_units_snoc blank_no_surrogate bytes_append clean_quote_units)

lemma bytes_trim: "chat_utf8ByteLength (quote_units (js_trim t)) \<le> chat_utf8ByteLength (quote_units t)"
  unfolding js_trim_def using bytes_drop_blanks_end bytes_drop_blanks by (rule le_trans)

section \<open>What the composer sends arrives whole\<close>

lemma envelope_whole:
  "chat_utf8ByteLength (json_stringify fmt (chat_json d t)) \<le> MAX_PAYLOAD_BYTES \<Longrightarrow>
     encodeChatEnvelope fmt \<lparr>ce_from = d, ce_text = t\<rparr> = json_stringify fmt (chat_json d t)"
  by (subst encodeChatEnvelope_def, subst shrink_text.simps) (simp add: Let_def)

lemma canSend_envelope:
  assumes "own_display_name a = Some d" "canSend (remainingBytes fmt a) False text"
  shows "chat_utf8ByteLength (json_stringify fmt (chat_json d (js_trim text))) \<le> MAX_PAYLOAD_BYTES"
proof -
  obtain k where k: "\<And>t. chat_utf8ByteLength (json_stringify fmt (chat_json d t)) = k + chat_utf8ByteLength (quote_units t)"
    using bytes_json_chat [of fmt d] by blast
  have "chat_utf8ByteLength (json_stringify fmt (chat_json d text)) \<le> MAX_PAYLOAD_BYTES"
    using assms by (simp add: canSend_def remainingBytes_def or_default_def)
  then show ?thesis using bytes_trim [of "text"] by (simp add: k)
qed

text \<open>
  The counter is exact: of the texts without blanks around them, the composer refuses just those that the envelope would cut.
\<close>

theorem composer_refuses_what_is_cut:
  assumes "own_display_name a = Some d" "text \<noteq> []" "js_trim text = text"
  shows "canSend (remainingBytes fmt a) False text \<longleftrightarrow>
    decodeChatEnvelope (encodeChatEnvelope fmt \<lparr>ce_from = d, ce_text = text\<rparr>) = Some \<lparr>ce_from = d, ce_text = text\<rparr>"
proof
  assume "canSend (remainingBytes fmt a) False text"
  from canSend_envelope [OF assms(1) this] show "decodeChatEnvelope (encodeChatEnvelope fmt \<lparr>ce_from = d, ce_text = text\<rparr>) = Some \<lparr>ce_from = d, ce_text = text\<rparr>"
    by (simp add: assms(3) envelope_whole decode_chat_json)
next
  assume "decodeChatEnvelope (encodeChatEnvelope fmt \<lparr>ce_from = d, ce_text = text\<rparr>) = Some \<lparr>ce_from = d, ce_text = text\<rparr>"
  moreover obtain k where k: "k \<le> length text" "shrink_text fmt d text = json_stringify fmt (chat_json d (take k text))"
      "k = 0 \<or> chat_utf8ByteLength (shrink_text fmt d text) \<le> MAX_PAYLOAD_BYTES"
    using shrink_text_spec [of "text" fmt d] by blast
  ultimately have "take k text = text" by (simp add: encodeChatEnvelope_def decode_chat_json)
  then show "canSend (remainingBytes fmt a) False text"
    using k assms by (auto simp: canSend_def remainingBytes_def or_default_def)
qed

lemma envelope_payload:
  assumes "chat_utf8ByteLength (json_stringify fmt (chat_json d t)) \<le> MAX_PAYLOAD_BYTES"
  shows "fits LEN_PAYLOAD (json_stringify fmt (chat_json d t))" "parseChunk (json_stringify fmt (chat_json d t)) = None"
    and "encodeChunks rnd (json_stringify fmt (chat_json d t)) mx = Inr [json_stringify fmt (chat_json d t)]"
proof -
  have hd: "\<exists>r. json_stringify fmt (chat_json d t) = 123 # r" by (simp add: chat_json_def)
  show "fits LEN_PAYLOAD (json_stringify fmt (chat_json d t))"
    using assms clean_json_chat [of fmt d t] hd
    by (auto simp: fits_def clean_text_def no_bom_def chat_utf8ByteLength_def MAX_PAYLOAD_BYTES_def LEN_PAYLOAD_def)
  show "parseChunk (json_stringify fmt (chat_json d t)) = None" using hd by (auto simp: parseChunk_def CHUNK_MARKER_def)
  show "encodeChunks rnd (json_stringify fmt (chat_json d t)) mx = Inr [json_stringify fmt (chat_json d t)]"
    using assms by (simp add: encodeChunks_def utf8ByteLength_def chat_utf8ByteLength_def MAX_PAYLOAD_BYTES_def LEN_PAYLOAD_def)
qed

lemma publish_one_frame:
  assumes "valid_tenant c" "ws_open c" "encodeChunks rnd payload (rf_maxMessageBytes (rc_config c)) = Inr [payload]"
  shows "publish rnd ch payload c = (None, c\<lparr>rc_log := rc_log c @ [sent_entry c (Publish, ch, payload)]\<rparr>)"
  using for_each_sendOrQueue_open [of c "\<lambda>chunk. (Publish, ch, chunk)" "[payload]"] assms
  by (simp add: publish_def send_chunks_def)

lemma sent_frame_decodes:
  assumes "valid_tenant c" "fits LEN_CHANNEL ch" "fits LEN_PAYLOAD payload"
  obtains frame f where "sent_entry c (q, ch, payload) = Sent (the (rc_ws c)) (q, ch, payload) frame" "decodeFrame frame = Inr f"
    "df_opcode f = q" "df_channelId f = ch" "df_payload f = payload"
proof -
  obtain frame where f: "frame_for (rc_config c) (q, ch, payload) = Inr frame" using frame_for_Inr [OF assms(1)] by blast
  show ?thesis
    using decode_encode_frame [OF f [unfolded frame_for_def, simplified]] assms(2,3) that f
    by (simp add: sent_entry_def or_empty_def)
qed

text \<open>The newest message of a channel.\<close>

definition last_message :: "app \<Rightarrow> js_string \<Rightarrow> chat_message option" where
  "last_message a ch =
     (case jget (ct_messages (ap_chat a)) ch of None \<Rightarrow> None | Some ms \<Rightarrow> if ms = [] then None else Some (last ms))"

lemma last_keep_last: "0 < n \<Longrightarrow> keep_last n (xs @ [x]) \<noteq> [] \<and> last (keep_last n (xs @ [x])) = x"
  by (simp add: keep_last_def)

lemma last_appended:
  assumes "oget msgs ch \<noteq> Inherited"
  obtains msgs' ms where "appended ch m msgs = Some msgs'" "jget msgs' ch = Some ms" "ms \<noteq> []" "last ms = m"
proof -
  obtain ms where ms: "appended ch m msgs = Some (jset ch (keep_last MAX_MESSAGES_PER_CHANNEL (ms @ [m])) msgs)"
    using assms by (cases "oget msgs ch") (auto simp: appended_def, metis append_Nil)
  moreover have "keep_last MAX_MESSAGES_PER_CHANNEL (ms @ [m]) \<noteq> [] \<and> last (keep_last MAX_MESSAGES_PER_CHANNEL (ms @ [m])) = m"
    by (rule last_keep_last) (simp add: MAX_MESSAGES_PER_CHANNEL_def)
  ultimately show ?thesis using that by (simp add: jmap_simps)
qed

lemma last_message_incoming:
  assumes "decodeChatEnvelope (rm_payload raw) = Some \<lparr>ce_from = d, ce_text = t\<rparr>" "own_display_name p \<noteq> Some d"
    and "oget (ct_messages (ap_chat p)) (rm_channelId raw) \<noteq> Inherited"
  shows "last_message (handleIncoming rid rid' now raw p) (rm_channelId raw) =
    Some \<lparr>cm_id = rid, cm_channelId = rm_channelId raw, cm_from = Some d, cm_text = t, cm_out = False, cm_receivedAt = rm_receivedAt raw\<rparr>"
proof -
  let ?m = "\<lparr>cm_id = rid, cm_channelId = rm_channelId raw, cm_from = Some d, cm_text = t, cm_out = False, cm_receivedAt = rm_receivedAt raw\<rparr>"
  have m: "toChatMessage rid raw = ?m" using assms(1) by (simp add: toChatMessage_def)
  from last_appended [OF assms(3), of ?m] obtain msgs' ms where
    "appended (rm_channelId raw) ?m (ct_messages (ap_chat p)) = Some msgs'" "jget msgs' (rm_channelId raw) = Some ms" "ms \<noteq> []" "last ms = ?m"
    by blast
  then show ?thesis using assms(2) by (cases "own_display_name p") (auto simp: handleIncoming_def m Let_def last_message_def)
qed

lemma page_submit_sends:
  assumes "page_channel a = Some ch" "own_display_name a = Some d" "canSend (remainingBytes fmt a) False text"
    and "oget (ct_messages (ap_chat a)) ch \<noteq> Inherited"
  obtains b where "page_submit rnd fmt rid now (text, a) = ([], b)"
    "last_message b ch = Some \<lparr>cm_id = rid, cm_channelId = ch, cm_from = Some d, cm_text = js_trim text, cm_out = True, cm_receivedAt = now\<rparr>"
    "ap_connection b = snd (connection_publish rnd ch (json_stringify fmt (chat_json d (js_trim text))) (ap_connection a))"
proof -
  let ?m = "\<lparr>cm_id = rid, cm_channelId = ch, cm_from = Some d, cm_text = js_trim text, cm_out = True, cm_receivedAt = now\<rparr>"
  let ?b = "sendMessage rnd fmt rid now ch (js_trim text) a"
  have ch: "ch \<noteq> []" using assms(1) by (auto simp: page_channel_def split: option.splits if_splits)
  have e: "encodeChatEnvelope fmt \<lparr>ce_from = d, ce_text = js_trim text\<rparr> = json_stringify fmt (chat_json d (js_trim text))"
    using canSend_envelope [OF assms(2,3)] by (rule envelope_whole)
  from last_appended [OF assms(4), of ?m] obtain msgs' ms where
    *: "appended ch ?m (ct_messages (ap_chat a)) = Some msgs'" "jget msgs' ch = Some ms" "ms \<noteq> []" "last ms = ?m" by blast
  have "js_trim text \<noteq> []" using assms(3) by (simp add: canSend_def)
  then have "page_submit rnd fmt rid now (text, a) = ([], ?b)"
    using assms(1,3) ch by (simp add: page_submit_def input_submit_def useChannel_send_def)
  then show ?thesis by (rule that) (simp_all add: sendMessage_def assms(2) or_default_def e * last_message_def)
qed

text \<open>
  C32. A message that the composer lets through, sent over an open connection, leaves in exactly one frame; the frame is decoded to the channel of the page and to a payload that is no
  part of a longer message; and a participant under another name who receives it sees the sender's name with the whole text without the blanks around it, as
  the sender does. So the byte counter of the composer, the envelope, the chunking and the frame agree.
\<close>

theorem composed_message_arrives:
  assumes "page_channel a = Some ch" "own_display_name a = Some d" "canSend (remainingBytes fmt a) False text"
    and "oget (ct_messages (ap_chat a)) ch \<noteq> Inherited" "fits LEN_CHANNEL ch"
    and "cn_activeClient (ap_connection a) = Some i" "i < length (cn_clients (ap_connection a))" "cn_clients (ap_connection a) ! i = c"
    and "valid_tenant c" "ws_open c"
    and "own_display_name peer \<noteq> Some d" "oget (ct_messages (ap_chat peer)) ch \<noteq> Inherited"
  shows "\<exists>b frame f. page_submit rnd fmt rid now (text, a) = ([], b) \<and>
    rc_log (cn_clients (ap_connection b) ! i) = rc_log c @ [Sent (the (rc_ws c)) (Publish, ch, df_payload f) frame] \<and>
    decodeFrame frame = Inr f \<and> df_opcode f = Publish \<and> df_channelId f = ch \<and> parseChunk (df_payload f) = None \<and>
    last_message b ch = Some \<lparr>cm_id = rid, cm_channelId = ch, cm_from = Some d, cm_text = js_trim text, cm_out = True, cm_receivedAt = now\<rparr> \<and>
    last_message (handleIncoming rid1 rid2 t
        \<lparr>rm_channelId = df_channelId f, rm_payload = df_payload f, rm_tenantId = df_tenantId f, rm_receivedAt = t\<rparr> peer) ch =
      Some \<lparr>cm_id = rid1, cm_channelId = ch, cm_from = Some d, cm_text = js_trim text, cm_out = False, cm_receivedAt = t\<rparr>"
proof -
  let ?json = "json_stringify fmt (chat_json d (js_trim text))"
  note payload = envelope_payload [OF canSend_envelope [OF assms(2,3)]]
  obtain b where b: "page_submit rnd fmt rid now (text, a) = ([], b)"
      "last_message b ch = Some \<lparr>cm_id = rid, cm_channelId = ch, cm_from = Some d, cm_text = js_trim text, cm_out = True, cm_receivedAt = now\<rparr>"
      "ap_connection b = snd (connection_publish rnd ch ?json (ap_connection a))"
    using page_submit_sends [OF assms(1-4)] .
  obtain frame f where f: "sent_entry c (Publish, ch, ?json) = Sent (the (rc_ws c)) (Publish, ch, ?json) frame" "decodeFrame frame = Inr f"
      "df_opcode f = Publish" "df_channelId f = ch" "df_payload f = ?json"
    using sent_frame_decodes [OF assms(9,5) payload(1)] .
  have "rc_log (cn_clients (ap_connection b) ! i) = rc_log c @ [Sent (the (rc_ws c)) (Publish, ch, ?json) frame]"
    using publish_one_frame [OF assms(9,10) payload(3)] assms(6-8) f(1) by (simp add: b(3) connection_publish_def upd_client_def)
  moreover have "decodeChatEnvelope (df_payload f) = Some \<lparr>ce_from = d, ce_text = js_trim text\<rparr>" by (simp add: f(5) decode_chat_json)
  then have "last_message (handleIncoming rid1 rid2 t
        \<lparr>rm_channelId = df_channelId f, rm_payload = df_payload f, rm_tenantId = df_tenantId f, rm_receivedAt = t\<rparr> peer) ch =
      Some \<lparr>cm_id = rid1, cm_channelId = ch, cm_from = Some d, cm_text = js_trim text, cm_out = False, cm_receivedAt = t\<rparr>"
    using last_message_incoming [of "\<lparr>rm_channelId = ch, rm_payload = df_payload f, rm_tenantId = df_tenantId f, rm_receivedAt = t\<rparr>"] assms(11,12)
    by (simp add: f(4))
  ultimately show ?thesis using b(1,2) f payload(2) by auto
qed

definition sample_page :: app where
  "sample_page = sample_app\<lparr>ap_connection := (ap_connection sample_app)\<lparr>cn_status := St_Open, cn_activeClient := Some 0, cn_clients := [sample_open]\<rparr>,
     ap_chat := chat_init\<lparr>ct_channelIds := [js_of ''c''], ct_activeChannelId := Some (js_of ''c'')\<rparr>\<rparr>"

lemma sample_page_sends:
  "page_channel sample_page = Some (js_of ''c'')" "own_display_name sample_page = Some (js_of ''ann'')"
  "canSend (remainingBytes fmt sample_page) False (js_of '' hi'')" "js_trim (js_of '' hi'') = js_of ''hi''"
proof -
  show "page_channel sample_page = Some (js_of ''c'')" "own_display_name sample_page = Some (js_of ''ann'')"
    by (simp_all add: sample_page_def page_channel_def own_display_name_def sample_app_def sample_credentials_def)
  show t: "js_trim (js_of '' hi'') = js_of ''hi''" by code_simp
  have "json_stringify fmt (chat_json (js_of ''ann'') (js_of '' hi'')) = json_stringify (\<lambda>_. []) (chat_json (js_of ''ann'') (js_of '' hi''))"
    by (simp add: chat_json_def)
  moreover have "chat_utf8ByteLength (json_stringify (\<lambda>_. []) (chat_json (js_of ''ann'') (js_of '' hi''))) = 27" by code_simp
  ultimately show "canSend (remainingBytes fmt sample_page) False (js_of '' hi'')"
    unfolding canSend_def t
    by (simp add: remainingBytes_def own_display_name_def sample_page_def sample_app_def sample_credentials_def or_default_def MAX_PAYLOAD_BYTES_def)
qed

theorem composed_message_arrives_witness:
  "\<exists>b frame f. page_submit (\<lambda>_. 0) fmt_nat [49] 5 (js_of '' hi'', sample_page) = ([], b) \<and>
    rc_log (cn_clients (ap_connection b) ! 0) = rc_log sample_open @ [Sent 0 (Publish, js_of ''c'', df_payload f) frame] \<and>
    decodeFrame frame = Inr f \<and>
    last_message (handleIncoming [50] [51] 6
        \<lparr>rm_channelId = df_channelId f, rm_payload = df_payload f, rm_tenantId = df_tenantId f, rm_receivedAt = 6\<rparr> app_init) (js_of ''c'') =
      Some \<lparr>cm_id = [50], cm_channelId = js_of ''c'', cm_from = Some (js_of ''ann''), cm_text = js_of ''hi'', cm_out = False, cm_receivedAt = 6\<rparr>"
proof -
  have fits: "fits LEN_CHANNEL (js_of ''c'')" by code_simp
  have "js_of ''c'' \<notin> set prototype_keys" by code_simp
  then have proto: "[99] \<notin> set prototype_keys" by simp
  have con: "cn_activeClient (ap_connection sample_page) = Some 0" "0 < length (cn_clients (ap_connection sample_page))"
      "cn_clients (ap_connection sample_page) ! 0 = sample_open" "oget (ct_messages (ap_chat sample_page)) (js_of ''c'') \<noteq> Inherited"
    by (simp_all add: sample_page_def chat_init_def oget_def jget_def proto)
  have peer: "own_display_name app_init \<noteq> Some (js_of ''ann'')" "oget (ct_messages (ap_chat app_init)) (js_of ''c'') \<noteq> Inherited"
    by (simp_all add: app_init_def own_display_name_def connection_init_def chat_init_def oget_def jget_def proto)
  from composed_message_arrives [OF sample_page_sends(1-3) con(4) fits con(1-3) sample_open_parts(1,3) peer, of "\<lambda>_. 0" fmt_nat "[49]" 5 "[50]" "[51]" 6]
  show ?thesis unfolding sample_page_sends(4) sample_open_parts(2) option.sel by blast
qed

section \<open>Connecting and joining\<close>

lemma run_bind_count:
  "(\<And>a. fst p = Inr a \<Longrightarrow> count_list (snd (f a)) x = 0) \<Longrightarrow> count_list (snd (run_bind p f)) x = count_list (snd p) x"
  by (cases p; cases "fst p") auto

lemma register_asks_once:
  "count_list (snd (registerPushSubscriptionAction U fmt pe creds k)) Ask_Permission = (if isNotificationSupported (pe_browser pe) then 1 else 0)"
proof -
  have w: "count_list (snd (registerPushServiceWorker pe u)) Ask_Permission = 0" for u
    by (simp add: registerPushServiceWorker_def)
  have s: "count_list (snd (subscribeToPush pe k)) Ask_Permission = 0"
    by (simp add: subscribeToPush_calls split: option.split)
  have f: "count_list (snd (web_fetch U fmt pe creds POST body err)) Ask_Permission = 0" for body err
    by (simp add: web_fetch_def split: option.split)
  have "count_list (snd (registerPushSubscriptionAction U fmt pe creds k)) Ask_Permission = count_list (snd (run_lift Sdk_Error id (ask_permission pe))) (Ask_Permission :: push_call)"
    unfolding registerPushSubscriptionAction_def by (simp add: run_bind_count w s f)
  then show ?thesis by (simp add: ask_permission_def Let_def)
qed

text \<open>
  A complete form starts one connection with the trimmed values and leads to the chat, which the guard of the route lets through; an incomplete one does nothing. The permission is asked for
  just once, and only while the user has not decided.
\<close>

theorem connect_leads_to_chat:
  "case connect_submit U fmt env pf pe f a of (calls, path, b) \<Rightarrow>
     if [] \<in> js_trim ` {cf_wsUrl f, cf_tenantId f, cf_token f, cf_displayName f} then calls = [] \<and> path = None \<and> b = a
     else path = Some Chat_Path \<and> chat_route (cn_status (ap_connection b)) Chat_Path = Chat_Screen \<and> connect_disabled b \<and>
       cn_credentials (ap_connection b) = Some (trimmed_credentials f) \<and> cn_activeClient (ap_connection b) = Some (length (cn_clients (ap_connection a))) \<and>
       ap_chat b = ap_chat a \<and>
       count_list calls Ask_Permission = (if isNotificationSupported (pe_browser pe) \<and> bw_permission (pe_browser pe) = Default then 1 else 0)"
proof -
  have n: "length (cn_clients (release_client s)) = length (cn_clients s)" "length (cn_clients (detachBackgroundNotifications s)) = length (cn_clients s)" for s
    by (simp_all add: release_client_def detachBackgroundNotifications_def upd_client_def split: option.split)
  have c: "cn_status (connection_connect pf br cr s) = St_Connecting" "cn_credentials (connection_connect pf br cr s) = Some cr"
      "cn_activeClient (connection_connect pf br cr s) = Some (length (cn_clients s))" for br cr s
    by (simp_all add: connection_connect_def Let_def upd_client_def n)
  show ?thesis
    by (auto simp: connect_submit_def Let_def c chat_route_def connect_disabled_def requestNotificationsOnConnect_def register_asks_once split: option.split)
qed

lemma clean_drop_blanks: "clean_text t \<Longrightarrow> clean_text (dropWhile is_blank t)"
  by (induction t) (auto simp: clean_Cons blank_no_surrogate)

lemma well_formed_butlast: "well_formed (s @ [u]) \<Longrightarrow> \<not> is_low u \<Longrightarrow> well_formed s"
proof (induction s rule: well_formed.induct)
  case (3 v w us)
  then show ?case by (cases "is_high v \<and> is_low w") auto
qed auto

lemma clean_drop_blanks_end: "clean_text t \<Longrightarrow> clean_text (rev (dropWhile is_blank (rev t)))"
  by (induction t rule: rev_induct) (auto simp: clean_text_def blank_no_surrogate dest: well_formed_butlast)

lemma clean_trim: "clean_text t \<Longrightarrow> clean_text (js_trim t)"
  unfolding js_trim_def by (intro clean_drop_blanks_end clean_drop_blanks)

lemma join_active:
  assumes "joinChannel ch a = (None, b)"
  shows "ct_activeChannelId (ap_chat b) = Some ch \<and> ch \<in> set (ct_channelIds (ap_chat b))"
  using assms
  by (auto simp: joinChannel_def subscribeToChannel_def Let_def split: if_splits option.splits prod.splits)

text \<open>A channel that is joined through the field has a name that fits a frame, provided its surrogates are paired and it holds no NUL; it is then the channel of the page.\<close>

theorem joined_channel_fits:
  assumes "handleJoin (draft, a) = (None, (draft', b), True)" "well_formed draft" "0 \<notin> set draft"
  shows "draft' = [] \<and> fits LEN_CHANNEL (js_trim draft) \<and> page_channel b = Some (js_trim draft) \<and> js_trim draft \<in> set (ct_channelIds (ap_chat b))"
proof -
  have j: "js_trim draft \<noteq> []" "chat_utf8ByteLength (js_trim draft) \<le> MAX_CHANNEL_ID_BYTES" "draft' = []" "joinChannel (js_trim draft) a = (None, b)"
    using assms(1) by (auto simp: handleJoin_def Let_def useChannelList_join_def trim_ends(2) split: if_splits prod.splits option.splits)
  have "is_blank 0xFEFF" by (simp add: is_blank_def)
  then have "no_bom (js_trim draft)" using trim_ends(1) [of draft] j(1) by (cases "js_trim draft") (auto simp: no_bom_def)
  moreover have "clean_text (js_trim draft)" using assms(2,3) by (intro clean_trim) (simp add: clean_text_def)
  ultimately show ?thesis
    using j join_active [OF j(4)]
    by (simp add: fits_def clean_text_def page_channel_def chat_utf8ByteLength_def MAX_CHANNEL_ID_BYTES_def LEN_CHANNEL_def)
qed

section \<open>Who said what\<close>

text \<open>
  The name of the sender stands above the first of consecutive messages. For each received message of the history some bubble at or before it bears its sender's name, and between the two there are only
  messages of the same sender: the name read above a message is the right one.
\<close>

theorem name_above_is_sender:
  assumes "i < length ms" "\<not> cm_out (ms ! i)"
  shows "\<exists>j \<le> i. bb_sender (message_list upper ms ! j) = Some (sender_name (ms ! i)) \<and>
    (\<forall>k. j \<le> k \<longrightarrow> k \<le> i \<longrightarrow> cm_from (ms ! k) = cm_from (ms ! i) \<and> \<not> cm_out (ms ! k) \<and> (j < k \<longrightarrow> bb_sender (message_list upper ms ! k) = None))"
  using assms
proof (induction i)
  case 0
  then show ?case by (intro exI [of _ 0]) (auto simp: message_list_def bubble_of_def groupedWithPrevious_def Let_def)
next
  case (Suc i)
  show ?case
  proof (cases "groupedWithPrevious (Some (ms ! i)) (ms ! Suc i)")
    case True
    then have same: "cm_from (ms ! i) = cm_from (ms ! Suc i)" "\<not> cm_out (ms ! i)" using Suc.prems by (auto simp: groupedWithPrevious_def)
    have none: "bb_sender (message_list upper ms ! Suc i) = None" using True Suc.prems by (simp add: message_list_def bubble_of_def Let_def)
    from Suc.IH Suc.prems same obtain j where "j \<le> i" "bb_sender (message_list upper ms ! j) = Some (sender_name (ms ! i))"
      "\<forall>k. j \<le> k \<longrightarrow> k \<le> i \<longrightarrow> cm_from (ms ! k) = cm_from (ms ! i) \<and> \<not> cm_out (ms ! k) \<and> (j < k \<longrightarrow> bb_sender (message_list upper ms ! k) = None)"
      by auto
    then show ?thesis using same none Suc.prems by (intro exI [of _ j]) (auto simp: le_Suc_eq sender_name_def)
  next
    case False
    then have "bb_sender (message_list upper ms ! Suc i) = Some (sender_name (ms ! Suc i))"
      using Suc.prems by (simp add: message_list_def bubble_of_def Let_def)
    then show ?thesis using Suc.prems by (intro exI [of _ "Suc i"]) auto
  qed
qed

end
