(* ===== verification/Key_Pages.thy ===== *)
theory Key_Pages
  imports Data_Table Portal_Tools
begin

text \<open>
  The page of the API keys of the tenant portal, a table over one list of the server: \<open>ApiKeysPage.tsx\<close> with the actions under \<open>actions/keys\<close>.
  The page is modelled together with its requests and the server's list, so that what the table
  shows can be compared with what the server has. A handler is cut at its \<open>await\<close>; a dialog has an identity, and there is one at a time because its overlay covers the page.
\<close>

section \<open>Keys\<close>

datatype key_status = Key_Active | Key_Revoked

record api_key =
  ak_id :: js_string
  ak_name :: js_string
  ak_publicKey :: js_string
  ak_status :: key_status
  ak_createdAt :: js_string
  ak_revokedAt :: "js_string option"

record generated_key =
  gk_id :: js_string
  gk_name :: js_string
  gk_publicKey :: js_string
  gk_secret :: js_string
  gk_createdAt :: js_string

text \<open>The responses of the server, with its names of the fields.\<close>

record api_key_response =
  kr_id :: js_string
  kr_name :: js_string
  kr_public_key :: js_string
  kr_status :: key_status
  kr_created_at :: js_string
  kr_revoked_at :: "js_string option"

record generated_response =
  gr_id :: js_string
  gr_name :: js_string
  gr_public_key :: js_string
  gr_secret :: js_string
  gr_created_at :: js_string

definition api_key_of :: "api_key_response \<Rightarrow> api_key" where
  "api_key_of k = \<lparr>ak_id = kr_id k, ak_name = kr_name k, ak_publicKey = kr_public_key k, ak_status = kr_status k, ak_createdAt = kr_created_at k,
     ak_revokedAt = kr_revoked_at k\<rparr>"

definition getApiKeysAction :: "'e + api_key_response list \<Rightarrow> 'e + api_key list" where
  "getApiKeysAction response = map_sum id (map api_key_of) response"

definition generateApiKeyAction :: "'e + generated_response \<Rightarrow> 'e + generated_key" where
  "generateApiKeyAction response = map_sum id (\<lambda>r. \<lparr>gk_id = gr_id r, gk_name = gr_name r, gk_publicKey = gr_public_key r, gk_secret = gr_secret r,
     gk_createdAt = gr_created_at r\<rparr>) response"

text \<open>A row of the table.\<close>

definition key_status_text :: "key_status \<Rightarrow> js_string" where
  "key_status_text st = (case st of Key_Active \<Rightarrow> js_of ''active'' | Key_Revoked \<Rightarrow> js_of ''revoked'')"

definition key_row :: "api_key \<Rightarrow> row" where
  "key_row k =
     [(js_of ''id'', Cell_Text (ak_id k)), (js_of ''name'', Cell_Text (ak_name k)), (js_of ''publicKey'', Cell_Text (ak_publicKey k)),
      (js_of ''status'', Cell_Text (key_status_text (ak_status k))), (js_of ''createdAt'', Cell_Text (ak_createdAt k)),
      (js_of ''revokedAt'', case ak_revokedAt k of None \<Rightarrow> Cell_Null | Some t \<Rightarrow> Cell_Text t)]"

section \<open>The page of the keys\<close>

datatype key_dialog =
    Generate_Form js_string bool
  | Reveal generated_key
  | Confirm_Revoke api_key bool

datatype 'e key_toast = Generate_Failed 'e | Key_Was_Revoked | Revoke_Failed 'e

record 'e key_page =
  kp_table :: table
  kp_dialog :: "(nat \<times> key_dialog) option"
  kp_nextDialog :: nat
  kp_toasts :: "'e key_toast list"

definition key_page_init :: "'e key_page" where
  "key_page_init = \<lparr>kp_table = table_init, kp_dialog = None, kp_nextDialog = 0, kp_toasts = []\<rparr>"

text \<open>\<open>setRefreshKey((k) => k + 1)\<close>, on which the table loads again.\<close>

definition refresh_keys :: "'e key_page \<Rightarrow> 'e key_page" where
  "refresh_keys p = p\<lparr>kp_table := load_start (kp_table p)\<rparr>"

definition open_dialog :: "key_dialog \<Rightarrow> 'e key_page \<Rightarrow> 'e key_page" where
  "open_dialog d p = (if kp_dialog p = None then p\<lparr>kp_dialog := Some (kp_nextDialog p, d), kp_nextDialog := kp_nextDialog p + 1\<rparr> else p)"

definition openGenerateDialog :: "'e key_page \<Rightarrow> 'e key_page" where
  "openGenerateDialog p = open_dialog (Generate_Form [] False) p"

text \<open>The action is hidden in the row of a revoked key.\<close>

definition confirmRevoke :: "api_key \<Rightarrow> 'e key_page \<Rightarrow> 'e key_page" where
  "confirmRevoke k p = (if ak_status k = Key_Revoked then p else open_dialog (Confirm_Revoke k False) p)"

definition key_name_change :: "js_string \<Rightarrow> 'e key_page \<Rightarrow> 'e key_page" where
  "key_name_change name p =
     (case kp_dialog p of Some (d, Generate_Form _ sub) \<Rightarrow> p\<lparr>kp_dialog := Some (d, Generate_Form name sub)\<rparr> | _ \<Rightarrow> p)"

text \<open>The button is disabled while a request runs or the name is blank. The first component is the request: the dialog and the name.\<close>

definition generate_submit :: "'e key_page \<Rightarrow> (nat \<times> js_string) option \<times> 'e key_page" where
  "generate_submit p =
     (case kp_dialog p of
        Some (d, Generate_Form name sub) \<Rightarrow>
          if sub \<or> js_trim name = [] then (None, p)
          else (Some (d, js_trim name), p\<lparr>kp_dialog := Some (d, Generate_Form name True)\<rparr>)
      | _ \<Rightarrow> (None, p))"

text \<open>The request of dialog \<open>d\<close> settles. A form that is gone does not show the key; the toast of an error does not depend on the form.\<close>

definition generate_settled :: "nat \<Rightarrow> 'e + generated_key \<Rightarrow> 'e key_page \<Rightarrow> 'e key_page" where
  "generate_settled d outcome p =
     (case outcome of
        Inr g \<Rightarrow> (case kp_dialog p of Some (d', Generate_Form _ _) \<Rightarrow> if d' = d then p\<lparr>kp_dialog := Some (d, Reveal g)\<rparr> else p | _ \<Rightarrow> p)
      | Inl e \<Rightarrow>
          (case kp_dialog p of
             Some (d', Generate_Form name _) \<Rightarrow> if d' = d then p\<lparr>kp_dialog := Some (d, Generate_Form name False)\<rparr> else p
           | _ \<Rightarrow> p)\<lparr>kp_toasts := kp_toasts p @ [Generate_Failed e]\<rparr>)"

text \<open>The button \<open>Done\<close>, the only call of \<open>onGenerated\<close> of the page.\<close>

definition key_done :: "'e key_page \<Rightarrow> 'e key_page" where
  "key_done p = (case kp_dialog p of Some (_, Reveal _) \<Rightarrow> refresh_keys (p\<lparr>kp_dialog := None\<rparr>) | _ \<Rightarrow> p)"

text \<open>The close button, the overlay and \<open>Cancel\<close>.\<close>

definition dismiss :: "'e key_page \<Rightarrow> 'e key_page" where
  "dismiss p = p\<lparr>kp_dialog := None\<rparr>"

definition revoke_click :: "'e key_page \<Rightarrow> (nat \<times> js_string) option \<times> 'e key_page" where
  "revoke_click p =
     (case kp_dialog p of
        Some (d, Confirm_Revoke k sub) \<Rightarrow>
          if sub then (None, p) else (Some (d, ak_id k), p\<lparr>kp_dialog := Some (d, Confirm_Revoke k True)\<rparr>)
      | _ \<Rightarrow> (None, p))"

text \<open>\<open>onConfirm\<close> catches its error, so \<open>ConfirmDialog\<close> closes every dialog in either case, also one that was opened since.\<close>

definition key_revoke_settled :: "'e option \<Rightarrow> 'e key_page \<Rightarrow> 'e key_page" where
  "key_revoke_settled outcome p =
     (case outcome of
        None \<Rightarrow> (refresh_keys p)\<lparr>kp_toasts := kp_toasts p @ [Key_Was_Revoked]\<rparr>
      | Some e \<Rightarrow> p\<lparr>kp_toasts := kp_toasts p @ [Revoke_Failed e]\<rparr>)\<lparr>kp_dialog := None\<rparr>"

definition table_keys_loaded :: "nat \<Rightarrow> js_string + api_key list \<Rightarrow> 'e key_page \<Rightarrow> 'e key_page" where
  "table_keys_loaded n outcome p = p\<lparr>kp_table := load_settled n (map_sum id (map key_row) outcome) (kp_table p)\<rparr>"

section \<open>The page, its requests and the server\<close>

text \<open>
  A request is in flight from the call to its settling; meanwhile the server serves it, or it does not. Loads are numbered as in the table, the other requests by their dialog. The last component
  is set when a change of the list has been served whose success never calls \<open>setRefreshKey\<close>, and reset by the next load.
\<close>

record 'e key_world =
  kw_keys :: "api_key_response list"
  kw_loads :: "nat \<Rightarrow> api_key_response list option option"
  kw_generates :: "nat \<Rightarrow> (js_string \<times> generated_response option) option"
  kw_revokes :: "nat \<Rightarrow> (js_string \<times> bool) option"
  kw_page :: "'e key_page"
  kw_missed :: bool

definition key_world_init :: "api_key_response list \<Rightarrow> 'e key_world" where
  "key_world_init ks = \<lparr>kw_keys = ks, kw_loads = [0 \<mapsto> None], kw_generates = Map.empty, kw_revokes = Map.empty, kw_page = key_page_init, kw_missed = False\<rparr>"

text \<open>The page moves; if its table starts a load, the request goes out.\<close>

definition page_moves :: "('e key_page \<Rightarrow> 'e key_page) \<Rightarrow> bool \<Rightarrow> 'e key_world \<Rightarrow> 'e key_world" where
  "page_moves f missed w =
     (let p = f (kw_page w); n = tb_load (kp_table p) in
      if n = tb_load (kp_table (kw_page w)) then w\<lparr>kw_page := p, kw_missed := kw_missed w \<or> missed\<rparr>
      else w\<lparr>kw_page := p, kw_loads := (kw_loads w)(n \<mapsto> None), kw_missed := False\<rparr>)"

fun is_reveal :: "(nat \<times> key_dialog) option \<Rightarrow> bool" where
  "is_reveal (Some (_, Reveal _)) = True"
| "is_reveal _ = False"

definition revealing :: "'e key_page \<Rightarrow> bool" where
  "revealing p = is_reveal (kp_dialog p)"

fun is_form :: "nat \<Rightarrow> (nat \<times> key_dialog) option \<Rightarrow> bool" where
  "is_form d (Some (d', Generate_Form _ _)) \<longleftrightarrow> d' = d"
| "is_form d _ = False"

lemma is_reveal_iff: "is_reveal x \<longleftrightarrow> (\<exists>d g. x = Some (d, Reveal g))"
  by (cases x rule: is_reveal.cases) auto

lemma is_form_iff: "is_form d x \<longleftrightarrow> (\<exists>name sub. x = Some (d, Generate_Form name sub))"
  by (cases "(d, x)" rule: is_form.cases) auto

definition form_open :: "nat \<Rightarrow> 'e key_page \<Rightarrow> bool" where
  "form_open d p = is_form d (kp_dialog p)"

definition revoke_on_server :: "js_string \<Rightarrow> js_string \<Rightarrow> api_key_response list \<Rightarrow> api_key_response list" where
  "revoke_on_server kid now ks = map (\<lambda>k. if kr_id k = kid then k\<lparr>kr_status := Key_Revoked, kr_revoked_at := Some now\<rparr> else k) ks"

text \<open>What the user does with the table alone.\<close>

definition table_uses :: "table_env \<Rightarrow> js_string \<Rightarrow> js_string \<Rightarrow> table \<Rightarrow> table list" where
  "table_uses te k v t =
     [set_search v t, set_filter_value k v t, handleSort k t, previous_page t, next_page te t, toggleSelectAllOnPage te t, toggleSelectRow k t]"

inductive key_step :: "'e key_world \<Rightarrow> 'e key_world \<Rightarrow> bool" where
  user: "f \<in> {openGenerateDialog, confirmRevoke k, key_name_change name} \<Longrightarrow> key_step w (page_moves f False w)"
| was_done: "key_step w (page_moves key_done False w)"
| dismissed: "key_step w (page_moves dismiss (revealing (kw_page w)) w)"
| table_used: "t \<in> set (table_uses te k v (kp_table (kw_page w))) \<Longrightarrow> key_step w (page_moves (\<lambda>p. p\<lparr>kp_table := t\<rparr>) False w)"
| generate_sent: "generate_submit (kw_page w) = (Some (d, name), p) \<Longrightarrow>
     key_step w (w\<lparr>kw_page := p, kw_generates := (kw_generates w)(d \<mapsto> (name, None))\<rparr>)"
| revoke_sent: "revoke_click (kw_page w) = (Some (d, kid), p) \<Longrightarrow>
     key_step w (w\<lparr>kw_page := p, kw_revokes := (kw_revokes w)(d \<mapsto> (kid, False))\<rparr>)"
| load_served: "kw_loads w n = Some None \<Longrightarrow> key_step w (w\<lparr>kw_loads := (kw_loads w)(n \<mapsto> Some (kw_keys w))\<rparr>)"
| generate_served: "kw_generates w d = Some (name, None) \<Longrightarrow> gr_name r = name \<Longrightarrow>
     k = \<lparr>kr_id = gr_id r, kr_name = name, kr_public_key = gr_public_key r, kr_status = Key_Active, kr_created_at = gr_created_at r, kr_revoked_at = None\<rparr> \<Longrightarrow>
     set ks = insert k (set (kw_keys w)) \<Longrightarrow>
     key_step w (w\<lparr>kw_keys := ks, kw_generates := (kw_generates w)(d \<mapsto> (name, Some r))\<rparr>)"
| revoke_served: "kw_revokes w d = Some (kid, False) \<Longrightarrow>
     key_step w (w\<lparr>kw_keys := revoke_on_server kid now (kw_keys w), kw_revokes := (kw_revokes w)(d \<mapsto> (kid, True))\<rparr>)"
| load_answered: "kw_loads w n = Some (Some ks) \<Longrightarrow>
     key_step w (page_moves (table_keys_loaded n (getApiKeysAction (Inr ks))) False (w\<lparr>kw_loads := (kw_loads w)(n := None)\<rparr>))"
| load_failed: "kw_loads w n \<noteq> None \<Longrightarrow>
     key_step w (page_moves (table_keys_loaded n (Inl msg)) False (w\<lparr>kw_loads := (kw_loads w)(n := None)\<rparr>))"
| generate_answered: "kw_generates w d = Some (name, Some r) \<Longrightarrow>
     key_step w (page_moves (generate_settled d (generateApiKeyAction (Inr r))) (\<not> form_open d (kw_page w)) (w\<lparr>kw_generates := (kw_generates w)(d := None)\<rparr>))"
| generate_failed: "kw_generates w d = Some (name, reply) \<Longrightarrow>
     key_step w (page_moves (generate_settled d (generateApiKeyAction (Inl e))) (reply \<noteq> None) (w\<lparr>kw_generates := (kw_generates w)(d := None)\<rparr>))"
| revoke_answered: "kw_revokes w d = Some (kid, True) \<Longrightarrow>
     key_step w (page_moves (key_revoke_settled None) False (w\<lparr>kw_revokes := (kw_revokes w)(d := None)\<rparr>))"
| revoke_failed: "kw_revokes w d = Some (kid, served) \<Longrightarrow>
     key_step w (page_moves (key_revoke_settled (Some e)) (served \<or> revealing (kw_page w)) (w\<lparr>kw_revokes := (kw_revokes w)(d := None)\<rparr>))"

definition key_reachable :: "'e key_world \<Rightarrow> bool" where
  "key_reachable w \<longleftrightarrow> (\<exists>ks. key_step\<^sup>*\<^sup>* (key_world_init ks) w)"

interpretation kw: transition_system "\<lambda>w. \<exists>ks. w = key_world_init ks" key_step key_reachable
  by unfold_locales (auto simp: key_reachable_def)

section \<open>What the table shows\<close>

text \<open>A change that was served and that the page does not know yet, or that waits for the button \<open>Done\<close>.\<close>

definition any_served :: "('b \<Rightarrow> bool) \<Rightarrow> (nat \<Rightarrow> ('a \<times> 'b) option) \<Rightarrow> bool" where
  "any_served P m \<longleftrightarrow> (\<exists>d x y. m d = Some (x, y) \<and> P y)"

definition change_open :: "'e key_world \<Rightarrow> bool" where
  "change_open w \<longleftrightarrow> revealing (kw_page w) \<or> any_served (\<lambda>r. r \<noteq> None) (kw_generates w) \<or> any_served (\<lambda>b. b) (kw_revokes w)"

lemma any_served_upd:
  "m d = None \<Longrightarrow> \<not> P y \<Longrightarrow> any_served P (m(d \<mapsto> (x, y))) = any_served P m"
  "P y \<Longrightarrow> any_served P (m(d \<mapsto> (x, y)))"
  "m d = Some (x', y') \<Longrightarrow> any_served P m \<longleftrightarrow> P y' \<or> any_served P (m(d := None))"
proof -
  show "any_served P (m(d \<mapsto> (x, y))) = any_served P m" if "m d = None" "\<not> P y"
    using that unfolding any_served_def by (metis fun_upd_apply option.distinct(1) option.sel prod.sel(2))
  show "any_served P (m(d \<mapsto> (x, y)))" if "P y" using that by (auto simp: any_served_def)
  show "any_served P m \<longleftrightarrow> P y' \<or> any_served P (m(d := None))" if "m d = Some (x', y')"
    using that unfolding any_served_def by (metis fun_upd_apply option.distinct(1) option.sel prod.sel(2))
qed

fun dialog_ok :: "nat \<Rightarrow> (nat \<Rightarrow> 'a option) \<Rightarrow> (nat \<Rightarrow> 'b option) \<Rightarrow> (nat \<times> key_dialog) option \<Rightarrow> bool" where
  "dialog_ok n gs rs None \<longleftrightarrow> True"
| "dialog_ok n gs rs (Some (d, Generate_Form _ sub)) \<longleftrightarrow> d < n \<and> (sub \<or> gs d = None)"
| "dialog_ok n gs rs (Some (d, Reveal _)) \<longleftrightarrow> d < n"
| "dialog_ok n gs rs (Some (d, Confirm_Revoke _ sub)) \<longleftrightarrow> d < n \<and> (sub \<or> rs d = None)"

definition requests_ok :: "'e key_world \<Rightarrow> bool" where
  "requests_ok w \<longleftrightarrow>
     (let p = kw_page w; t = kp_table p in
      (tb_isLoading t \<longleftrightarrow> kw_loads w (tb_load t) \<noteq> None) \<and> (\<forall>n. kw_loads w n \<noteq> None \<longrightarrow> n \<le> tb_load t) \<and>
      (\<forall>d. kp_nextDialog p \<le> d \<longrightarrow> kw_generates w d = None \<and> kw_revokes w d = None) \<and>
      dialog_ok (kp_nextDialog p) (kw_generates w) (kw_revokes w) (kp_dialog p))"

definition listing_ok :: "'e key_world \<Rightarrow> bool" where
  "listing_ok w \<longleftrightarrow> kw_missed w \<or> change_open w \<or>
     (let t = kp_table (kw_page w) in
      (\<forall>ks. kw_loads w (tb_load t) = Some (Some ks) \<longrightarrow> ks = kw_keys w) \<and>
      (\<not> tb_isLoading t \<longrightarrow> tb_error t = None \<longrightarrow> tb_data t = map (key_row \<circ> api_key_of) (kw_keys w)))"

lemma page_moves_same:
  "tb_load (kp_table (f (kw_page w))) = tb_load (kp_table (kw_page w)) \<Longrightarrow>
     page_moves f m w = w\<lparr>kw_page := f (kw_page w), kw_missed := kw_missed w \<or> m\<rparr>"
  by (simp add: page_moves_def Let_def)

lemma page_moves_plain:
  "tb_load (kp_table (f (kw_page w))) = tb_load (kp_table (kw_page w)) \<Longrightarrow> page_moves f False w = w\<lparr>kw_page := f (kw_page w)\<rparr>"
  by (cases w) (simp add: page_moves_same)

lemma page_moves_load:
  "kp_table (f (kw_page w)) = load_start (kp_table (kw_page w)) \<Longrightarrow>
     page_moves f m w = w\<lparr>kw_page := f (kw_page w), kw_loads := (kw_loads w)(tb_load (kp_table (kw_page w)) + 1 \<mapsto> None), kw_missed := False\<rparr>"
  by (simp add: page_moves_def Let_def load_start_def)

text \<open>What the operations on the table leave alone.\<close>

lemma table_uses_keep:
  assumes "t' \<in> set (table_uses te k v t)"
  shows "tb_load t' = tb_load t \<and> tb_isLoading t' = tb_isLoading t \<and> tb_error t' = tb_error t \<and> tb_data t' = tb_data t"
proof -
  from assms consider "t' = set_search v t" | "t' = set_filter_value k v t" | "t' = handleSort k t" | "t' = previous_page t" | "t' = next_page te t"
    | "t' = toggleSelectAllOnPage te t" | "t' = toggleSelectRow k t"
    by (auto simp: table_uses_def)
  then show ?thesis
    by cases (simp_all add: set_search_def set_filter_value_def handleSort_def toggleSelectRow_def previous_page_def next_page_def
      toggleSelectAllOnPage_def Let_def split: option.split sort_direction.split)
qed

lemma ok_table_used:
  assumes "requests_ok w" "listing_ok w" "t \<in> set (table_uses te k v (kp_table (kw_page w)))"
  shows "requests_ok (page_moves (\<lambda>p. p\<lparr>kp_table := t\<rparr>) False w) \<and> listing_ok (page_moves (\<lambda>p. p\<lparr>kp_table := t\<rparr>) False w)"
proof -
  note keep = table_uses_keep [OF assms(3)]
  have "page_moves (\<lambda>p. p\<lparr>kp_table := t\<rparr>) False w = w\<lparr>kw_page := (kw_page w)\<lparr>kp_table := t\<rparr>\<rparr>"
    by (rule page_moves_plain) (simp add: keep)
  moreover have "requests_ok (w\<lparr>kw_page := (kw_page w)\<lparr>kp_table := t\<rparr>\<rparr>)" using assms(1) by (simp add: requests_ok_def Let_def keep)
  moreover have "listing_ok (w\<lparr>kw_page := (kw_page w)\<lparr>kp_table := t\<rparr>\<rparr>)"
    using assms(2) by (simp add: listing_ok_def change_open_def revealing_def Let_def keep)
  ultimately show ?thesis by simp
qed

text \<open>Every move of a dialog; a load that starts sees every change that was served.\<close>

lemma ok_refresh:
  assumes "requests_ok w" "kp_table (f (kw_page w)) = load_start (kp_table (kw_page w))"
    and "kp_dialog (f (kw_page w)) = None" "kp_nextDialog (f (kw_page w)) = kp_nextDialog (kw_page w)"
  shows "requests_ok (page_moves f m w) \<and> listing_ok (page_moves f m w)"
  using assms by (auto simp: page_moves_load requests_ok_def listing_ok_def Let_def load_start_def)

lemma ok_opens:
  assumes "requests_ok w" "listing_ok w" "f = openGenerateDialog \<or> f = confirmRevoke k \<or> f = key_name_change name"
  shows "requests_ok (page_moves f False w) \<and> listing_ok (page_moves f False w)"
proof -
  let ?p = "f (kw_page w)"
  have keep: "kp_table ?p = kp_table (kw_page w)" "kp_nextDialog (kw_page w) \<le> kp_nextDialog ?p" "revealing ?p = revealing (kw_page w)"
    using assms(3) by (auto simp: openGenerateDialog_def confirmRevoke_def open_dialog_def key_name_change_def revealing_def is_reveal_iff split: option.splits key_dialog.splits if_splits)
  moreover have "listing_ok (w\<lparr>kw_page := ?p\<rparr>)" using keep assms(2) by (simp add: listing_ok_def change_open_def)
  moreover have "requests_ok (w\<lparr>kw_page := ?p\<rparr>)"
    using assms(1,3)
    by (auto simp: requests_ok_def Let_def openGenerateDialog_def confirmRevoke_def open_dialog_def key_name_change_def less_Suc_eq
        split: option.splits key_dialog.splits if_splits)
  ultimately show ?thesis by (simp add: page_moves_plain)
qed

lemma ok_done:
  assumes "requests_ok w" "listing_ok w"
  shows "requests_ok (page_moves key_done False w) \<and> listing_ok (page_moves key_done False w)"
proof (cases "revealing (kw_page w)")
  case True
  then obtain d g where "kp_dialog (kw_page w) = Some (d, Reveal g)" by (auto simp: revealing_def is_reveal_iff)
  then show ?thesis by (intro ok_refresh [OF assms(1)]) (simp_all add: key_done_def refresh_keys_def)
next
  case False
  then have "key_done (kw_page w) = kw_page w"
    by (auto simp: key_done_def revealing_def is_reveal_iff split: option.split key_dialog.split)
  then show ?thesis using assms by (simp add: page_moves_plain)
qed

lemma ok_dismissed:
  assumes "requests_ok w" "listing_ok w"
  shows "requests_ok (page_moves dismiss (revealing (kw_page w)) w) \<and> listing_ok (page_moves dismiss (revealing (kw_page w)) w)"
proof -
  have m: "page_moves dismiss (revealing (kw_page w)) w = w\<lparr>kw_page := dismiss (kw_page w), kw_missed := kw_missed w \<or> revealing (kw_page w)\<rparr>"
    by (rule page_moves_same) (simp add: dismiss_def)
  show ?thesis using assms unfolding m
    by (auto simp: requests_ok_def listing_ok_def change_open_def revealing_def dismiss_def Let_def)
qed

lemma ok_generate_sent:
  assumes "requests_ok w" "listing_ok w" "generate_submit (kw_page w) = (Some (d, name), p)"
  shows "requests_ok (w\<lparr>kw_page := p, kw_generates := (kw_generates w)(d \<mapsto> (name, None))\<rparr>) \<and>
    listing_ok (w\<lparr>kw_page := p, kw_generates := (kw_generates w)(d \<mapsto> (name, None))\<rparr>)"
proof -
  obtain x where x: "kp_dialog (kw_page w) = Some (d, Generate_Form x False)" "p = (kw_page w)\<lparr>kp_dialog := Some (d, Generate_Form x True)\<rparr>"
    using assms(3) by (auto simp: generate_submit_def split: option.splits key_dialog.splits if_splits)
  then have "kw_generates w d = None" "d < kp_nextDialog (kw_page w)" using assms(1) by (auto simp: requests_ok_def Let_def)
  then show ?thesis using assms(1,2) x
    by (auto simp: requests_ok_def listing_ok_def change_open_def any_served_upd revealing_def Let_def)
qed

lemma ok_revoke_sent:
  assumes "requests_ok w" "listing_ok w" "revoke_click (kw_page w) = (Some (d, kid), p)"
  shows "requests_ok (w\<lparr>kw_page := p, kw_revokes := (kw_revokes w)(d \<mapsto> (kid, False))\<rparr>) \<and>
    listing_ok (w\<lparr>kw_page := p, kw_revokes := (kw_revokes w)(d \<mapsto> (kid, False))\<rparr>)"
proof -
  obtain k where k: "kp_dialog (kw_page w) = Some (d, Confirm_Revoke k False)" "p = (kw_page w)\<lparr>kp_dialog := Some (d, Confirm_Revoke k True)\<rparr>"
    using assms(3) by (auto simp: revoke_click_def split: option.splits key_dialog.splits if_splits)
  then have "kw_revokes w d = None" "d < kp_nextDialog (kw_page w)" using assms(1) by (auto simp: requests_ok_def Let_def)
  then show ?thesis using assms(1,2) k
    by (auto simp: requests_ok_def listing_ok_def change_open_def any_served_upd revealing_def Let_def)
qed

lemma dialog_ok_keep:
  "dialog_ok n gs rs x \<Longrightarrow> gs d = Some y'  \<Longrightarrow> dialog_ok n (gs(d \<mapsto> y)) rs x"
  "dialog_ok n gs rs x \<Longrightarrow> rs d = Some z'  \<Longrightarrow> dialog_ok n gs (rs(d \<mapsto> z)) x"
  "dialog_ok n gs rs x \<Longrightarrow> dialog_ok n (gs(d := None)) rs x"
  "dialog_ok n gs rs x \<Longrightarrow> dialog_ok n gs (rs(d := None)) x"
  by (cases "(n, gs, rs, x)" rule: dialog_ok.cases; auto)+

lemma ok_served:
  assumes "requests_ok w" "listing_ok w"
  shows "kw_loads w n = Some None \<Longrightarrow> requests_ok (w\<lparr>kw_loads := (kw_loads w)(n \<mapsto> Some (kw_keys w))\<rparr>) \<and>
      listing_ok (w\<lparr>kw_loads := (kw_loads w)(n \<mapsto> Some (kw_keys w))\<rparr>)"
    and "kw_generates w d = Some (name, None) \<Longrightarrow> requests_ok (w\<lparr>kw_keys := ks, kw_generates := (kw_generates w)(d \<mapsto> (name, Some r))\<rparr>) \<and>
      listing_ok (w\<lparr>kw_keys := ks, kw_generates := (kw_generates w)(d \<mapsto> (name, Some r))\<rparr>)"
    and "kw_revokes w d = Some (kid, False) \<Longrightarrow> requests_ok (w\<lparr>kw_keys := ks, kw_revokes := (kw_revokes w)(d \<mapsto> (kid, True))\<rparr>) \<and>
      listing_ok (w\<lparr>kw_keys := ks, kw_revokes := (kw_revokes w)(d \<mapsto> (kid, True))\<rparr>)"
proof -
  show "requests_ok (w\<lparr>kw_loads := (kw_loads w)(n \<mapsto> Some (kw_keys w))\<rparr>) \<and> listing_ok (w\<lparr>kw_loads := (kw_loads w)(n \<mapsto> Some (kw_keys w))\<rparr>)"
    if "kw_loads w n = Some None" using assms that by (auto simp: requests_ok_def listing_ok_def change_open_def Let_def)
  show "requests_ok (w\<lparr>kw_keys := ks, kw_generates := (kw_generates w)(d \<mapsto> (name, Some r))\<rparr>) \<and>
      listing_ok (w\<lparr>kw_keys := ks, kw_generates := (kw_generates w)(d \<mapsto> (name, Some r))\<rparr>)" if "kw_generates w d = Some (name, None)"
  proof
    show "requests_ok (w\<lparr>kw_keys := ks, kw_generates := (kw_generates w)(d \<mapsto> (name, Some r))\<rparr>)"
      using assms(1) that by (auto simp: requests_ok_def Let_def dialog_ok_keep)
  qed (auto simp: listing_ok_def change_open_def any_served_upd)
  show "requests_ok (w\<lparr>kw_keys := ks, kw_revokes := (kw_revokes w)(d \<mapsto> (kid, True))\<rparr>) \<and>
      listing_ok (w\<lparr>kw_keys := ks, kw_revokes := (kw_revokes w)(d \<mapsto> (kid, True))\<rparr>)" if "kw_revokes w d = Some (kid, False)"
  proof
    show "requests_ok (w\<lparr>kw_keys := ks, kw_revokes := (kw_revokes w)(d \<mapsto> (kid, True))\<rparr>)"
      using assms(1) that by (auto simp: requests_ok_def Let_def dialog_ok_keep)
  qed (auto simp: listing_ok_def change_open_def any_served_upd)
qed

lemma ok_load_settled:
  assumes "requests_ok w" "listing_ok w" "kw_loads w n = Some reply" "case outcome of Inl _ \<Rightarrow> True | Inr ks \<Rightarrow> reply = Some ks"
  shows "requests_ok (page_moves (table_keys_loaded n (getApiKeysAction outcome)) False (w\<lparr>kw_loads := (kw_loads w)(n := None)\<rparr>)) \<and>
    listing_ok (page_moves (table_keys_loaded n (getApiKeysAction outcome)) False (w\<lparr>kw_loads := (kw_loads w)(n := None)\<rparr>))"
proof -
  let ?w = "w\<lparr>kw_loads := (kw_loads w)(n := None)\<rparr>"
  let ?f = "table_keys_loaded n (getApiKeysAction outcome) :: 'a key_page \<Rightarrow> 'a key_page"
  have m: "page_moves ?f False ?w = ?w\<lparr>kw_page := ?f (kw_page ?w)\<rparr>"
    by (rule page_moves_plain) (simp add: table_keys_loaded_def load_settled_def split: sum.split)
  show ?thesis
  proof (cases "n = tb_load (kp_table (kw_page w))")
    case True
    then show ?thesis using assms unfolding m
      by (cases outcome) (auto simp: requests_ok_def listing_ok_def change_open_def revealing_def table_keys_loaded_def load_settled_def getApiKeysAction_def Let_def)
  next
    case False
    then have "?f (kw_page w) = kw_page w" by (simp add: table_keys_loaded_def load_settled_def)
    then show ?thesis using assms False unfolding m
      by (auto simp: requests_ok_def listing_ok_def change_open_def Let_def)
  qed
qed

lemma requests_ok_drop:
  "requests_ok w \<Longrightarrow> requests_ok (w\<lparr>kw_generates := (kw_generates w)(d := None)\<rparr>)"
  "requests_ok w \<Longrightarrow> requests_ok (w\<lparr>kw_revokes := (kw_revokes w)(d := None)\<rparr>)"
  by (auto simp: requests_ok_def Let_def dialog_ok_keep)

text \<open>A generation settles: with its form on the screen the key is revealed, otherwise nobody is told.\<close>

lemma ok_generate_settled:
  assumes "requests_ok w" "listing_ok w" "kw_generates w d = Some (name, reply)"
    and "case outcome of Inl _ \<Rightarrow> m = (reply \<noteq> None) | Inr _ \<Rightarrow> reply \<noteq> None \<and> m = (\<not> form_open d (kw_page w))"
  shows "requests_ok (page_moves (generate_settled d outcome) m (w\<lparr>kw_generates := (kw_generates w)(d := None)\<rparr>)) \<and>
    listing_ok (page_moves (generate_settled d outcome) m (w\<lparr>kw_generates := (kw_generates w)(d := None)\<rparr>))"
proof -
  let ?w = "w\<lparr>kw_generates := (kw_generates w)(d := None)\<rparr>" and ?p = "generate_settled d outcome (kw_page w)"
  have same: "kp_table ?p = kp_table (kw_page w)" "kp_nextDialog ?p = kp_nextDialog (kw_page w)"
    by (auto simp: generate_settled_def split: sum.split option.split key_dialog.split)
  then have e: "page_moves (generate_settled d outcome) m ?w = ?w\<lparr>kw_page := ?p, kw_missed := kw_missed w \<or> m\<rparr>" by (simp add: page_moves_same)
  have "dialog_ok (kp_nextDialog (kw_page w)) (kw_generates ?w) (kw_revokes w) (kp_dialog (kw_page w))"
    using requests_ok_drop(1) [OF assms(1), of d] by (simp add: requests_ok_def Let_def)
  then have "dialog_ok (kp_nextDialog (kw_page w)) (kw_generates ?w) (kw_revokes w) (kp_dialog ?p)"
    by (auto simp: generate_settled_def split: sum.split option.split key_dialog.split)
  then have "requests_ok (?w\<lparr>kw_page := ?p, kw_missed := kw_missed w \<or> m\<rparr>)"
    using requests_ok_drop(1) [OF assms(1), of d] by (simp add: requests_ok_def Let_def same)
  moreover have "revealing (kw_page w) \<Longrightarrow> revealing ?p" "form_open d (kw_page w) \<Longrightarrow> outcome = Inr g \<Longrightarrow> revealing ?p" for g
    by (auto simp: generate_settled_def revealing_def is_reveal_iff form_open_def is_form_iff split: sum.split option.split key_dialog.split)
  then have "listing_ok (?w\<lparr>kw_page := ?p, kw_missed := kw_missed w \<or> m\<rparr>)"
    using assms(2,4) assms(3) any_served_upd(3) [of "kw_generates w" d name reply "\<lambda>r. r \<noteq> None"] same
    by (cases outcome) (auto simp: listing_ok_def change_open_def Let_def)
  ultimately show ?thesis unfolding e by blast
qed

lemma ok_revoke_failed:
  assumes "requests_ok w" "listing_ok w" "kw_revokes w d = Some (kid, served)"
  shows "requests_ok (page_moves (key_revoke_settled (Some e)) (served \<or> revealing (kw_page w)) (w\<lparr>kw_revokes := (kw_revokes w)(d := None)\<rparr>)) \<and>
    listing_ok (page_moves (key_revoke_settled (Some e)) (served \<or> revealing (kw_page w)) (w\<lparr>kw_revokes := (kw_revokes w)(d := None)\<rparr>))"
proof -
  let ?w = "w\<lparr>kw_revokes := (kw_revokes w)(d := None)\<rparr>" and ?p = "key_revoke_settled (Some e) (kw_page w)"
  have p: "kp_table ?p = kp_table (kw_page w)" "kp_nextDialog ?p = kp_nextDialog (kw_page w)" "kp_dialog ?p = None"
    by (simp_all add: key_revoke_settled_def)
  then have e: "page_moves (key_revoke_settled (Some e)) (served \<or> revealing (kw_page w)) ?w =
      ?w\<lparr>kw_page := ?p, kw_missed := kw_missed w \<or> (served \<or> revealing (kw_page w))\<rparr>" by (simp add: page_moves_same)
  have "requests_ok (?w\<lparr>kw_page := ?p, kw_missed := x\<rparr>)" for x
    using requests_ok_drop(2) [OF assms(1), of d] by (simp add: requests_ok_def Let_def p)
  moreover have "listing_ok (?w\<lparr>kw_page := ?p, kw_missed := kw_missed w \<or> (served \<or> revealing (kw_page w))\<rparr>)"
    using assms(2) assms(3) any_served_upd(3) [of "kw_revokes w" d kid served "\<lambda>b. b"]
    by (auto simp: listing_ok_def change_open_def Let_def p)
  ultimately show ?thesis unfolding e by blast
qed

lemma listing_step:
  assumes "key_step w w'" "requests_ok w \<and> listing_ok w"
  shows "requests_ok w' \<and> listing_ok w'"
  using assms(1)
proof cases
  case (user f k name)
  then show ?thesis using ok_opens [of w f k name] assms(2) by simp
next
  case (load_answered n ks)
  then show ?thesis using ok_load_settled [of w n "Some ks" "Inr ks"] assms(2) by simp
next
  case (load_failed n msg)
  then show ?thesis using ok_load_settled [of w n _ "Inl msg"] assms(2) by (auto simp: getApiKeysAction_def)
next
  case (generate_answered d name r)
  then show ?thesis using ok_generate_settled [of w d name "Some r" _ "generateApiKeyAction (Inr r)"] assms(2)
    by (simp add: generateApiKeyAction_def)
next
  case (generate_failed d name reply e)
  then show ?thesis using ok_generate_settled [of w d name reply _ "generateApiKeyAction (Inl e)"] assms(2)
    by (simp add: generateApiKeyAction_def)
next
  case (revoke_answered d kid)
  then show ?thesis using ok_refresh [OF requests_ok_drop(2) [of w d], of "key_revoke_settled None" False] assms(2)
    by (simp add: key_revoke_settled_def refresh_keys_def)
next
  case was_done
  then show ?thesis using ok_done [of w] assms(2) by simp
next
  case dismissed
  then show ?thesis using ok_dismissed [of w] assms(2) by simp
next
  case (table_used t te k v)
  then show ?thesis using ok_table_used [of w] assms(2) by simp
next
  case (generate_sent d name p)
  then show ?thesis using ok_generate_sent [of w] assms(2) by simp
next
  case (revoke_sent d kid p)
  then show ?thesis using ok_revoke_sent [of w] assms(2) by simp
next
  case (load_served n)
  then show ?thesis using ok_served(1) [of w] assms(2) by simp
next
  case (generate_served d name r k ks)
  then show ?thesis using ok_served(2) [of w] assms(2) by simp
next
  case (revoke_served d kid now)
  then show ?thesis using ok_served(3) [of w] assms(2) by simp
next
  case (revoke_failed d kid served e)
  then show ?thesis using ok_revoke_failed [of w] assms(2) by simp
qed

lemma listing_start: "requests_ok (key_world_init ks) \<and> listing_ok (key_world_init ks)"
  by (simp add: key_world_init_def key_page_init_def table_init_def requests_ok_def listing_ok_def Let_def)

text \<open>
  C36. Whatever the user does and in whatever order the server serves and answers: when the table of the keys is not loading and shows no error, it lists exactly the keys that the server has, unless a
  change that the server made is still to be answered, or its key is still on the screen, or the change was missed: its success did not reach the page, because the request failed
  after all or because the dialog was closed without the button \<open>Done\<close>.
\<close>

theorem key_table_lists_server_keys:
  assumes "key_reachable w" "\<not> tb_isLoading (kp_table (kw_page w))" "tb_error (kp_table (kw_page w)) = None"
    and "\<not> change_open w" "\<not> kw_missed w"
  shows "tb_data (kp_table (kw_page w)) = map (key_row \<circ> api_key_of) (kw_keys w)"
proof -
  have "requests_ok w \<and> listing_ok w"
    by (rule kw.reach_invariant [OF _ _ assms(1)]) (use listing_start listing_step in auto)
  then show ?thesis using assms(2-5) by (simp add: listing_ok_def Let_def)
qed

lemma key_reach_start: "key_reachable (key_world_init ks)"
  by (auto simp: key_reachable_def)

lemma key_reach_step: "key_reachable w \<Longrightarrow> key_step w w' \<Longrightarrow> key_reachable w'"
  by (auto simp: key_reachable_def intro: rtranclp.rtrancl_into_rtrancl)

text \<open>The first load, answered.\<close>

definition keys_shown :: "api_key_response list \<Rightarrow> 'e key_world" where
  "keys_shown ks = (key_world_init ks)\<lparr>kw_loads := Map.empty,
     kw_page := key_page_init\<lparr>kp_table := table_init\<lparr>tb_data := map (key_row \<circ> api_key_of) ks, tb_isLoading := False\<rparr>\<rparr>\<rparr>"

lemma reach_keys_shown: "key_reachable (keys_shown ks :: 'e key_world)"
proof -
  let ?i = "key_world_init ks :: 'e key_world"
  let ?w = "?i\<lparr>kw_loads := (kw_loads ?i)(0 \<mapsto> Some (kw_keys ?i))\<rparr>"
  have "key_reachable ?w" by (rule key_reach_step [OF key_reach_start key_step.load_served]) (simp add: key_world_init_def)
  moreover have "key_step ?w (page_moves (table_keys_loaded 0 (getApiKeysAction (Inr ks))) False (?w\<lparr>kw_loads := (kw_loads ?w)(0 := None)\<rparr>))"
    by (rule key_step.load_answered) (simp add: key_world_init_def)
  moreover have "page_moves (table_keys_loaded 0 (getApiKeysAction (Inr ks))) False (?w\<lparr>kw_loads := (kw_loads ?w)(0 := None)\<rparr>) = keys_shown ks"
    by (simp add: page_moves_def table_keys_loaded_def load_settled_def key_world_init_def key_page_init_def table_init_def getApiKeysAction_def keys_shown_def)
  ultimately show ?thesis using key_reach_step by metis
qed

definition sample_key :: api_key_response where
  "sample_key = \<lparr>kr_id = [49], kr_name = [97], kr_public_key = [112], kr_status = Key_Active, kr_created_at = [], kr_revoked_at = None\<rparr>"

theorem key_table_lists_server_keys_witness:
  "tb_data (kp_table (kw_page (keys_shown [sample_key] :: nat key_world))) = [key_row (api_key_of sample_key)]"
  using key_table_lists_server_keys [OF reach_keys_shown, of "[sample_key]"]
  by (simp add: keys_shown_def key_world_init_def key_page_init_def change_open_def revealing_def any_served_def)

text \<open>
  A key can be missed without any failure. The user submits the form and closes the dialog before the answer, which nothing prevents: the server has a new active key, its secret was never on the
  screen, and the table, with nothing left to happen, does not list it.
\<close>

definition quiet_world :: "api_key_response list \<Rightarrow> (nat \<Rightarrow> (js_string \<times> generated_response option) option) \<Rightarrow> (nat \<times> key_dialog) option \<Rightarrow> nat \<Rightarrow> bool \<Rightarrow>
    api_key_response list \<Rightarrow> 'e key_world" where
  "quiet_world ks gs dl n missed listed = \<lparr>kw_keys = ks, kw_loads = Map.empty, kw_generates = gs, kw_revokes = Map.empty,
     kw_page = \<lparr>kp_table = table_init\<lparr>tb_data := map (key_row \<circ> api_key_of) listed, tb_isLoading := False\<rparr>, kp_dialog = dl, kp_nextDialog = n, kp_toasts = []\<rparr>,
     kw_missed = missed\<rparr>"

lemma quiet_world_simps [simp]:
  "kw_page (quiet_world ks gs dl n m ls) = \<lparr>kp_table = table_init\<lparr>tb_data := map (key_row \<circ> api_key_of) ls, tb_isLoading := False\<rparr>, kp_dialog = dl, kp_nextDialog = n, kp_toasts = []\<rparr>"
  "kw_generates (quiet_world ks gs dl n m ls) = gs" "kw_keys (quiet_world ks gs dl n m ls) = ks"
  "keys_shown ks = quiet_world ks Map.empty None 0 False ks"
  by (simp_all add: quiet_world_def keys_shown_def key_world_init_def key_page_init_def)

theorem closed_form_hides_new_key:
  fixes r :: generated_response
  assumes "gr_name r = js_trim name" "js_trim name \<noteq> []"
    and "k = \<lparr>kr_id = gr_id r, kr_name = gr_name r, kr_public_key = gr_public_key r, kr_status = Key_Active, kr_created_at = gr_created_at r, kr_revoked_at = None\<rparr>"
  shows "key_reachable (quiet_world (ks @ [k]) Map.empty None 1 True ks :: 'e key_world)"
proof -
  let ?n = "gr_name r"
  have 1: "key_step (quiet_world ks Map.empty None 0 False ks) (quiet_world ks Map.empty (Some (0, Generate_Form [] False)) 1 False ks :: 'e key_world)"
    using key_step.user [of openGenerateDialog _ _ "quiet_world ks Map.empty None 0 False ks"]
    by (simp add: page_moves_plain openGenerateDialog_def open_dialog_def) (simp add: quiet_world_def)
  have 2: "key_step (quiet_world ks Map.empty (Some (0, Generate_Form [] False)) 1 False ks) (quiet_world ks Map.empty (Some (0, Generate_Form name False)) 1 False ks :: 'e key_world)"
    using key_step.user [of "key_name_change name" _ name "quiet_world ks Map.empty (Some (0, Generate_Form [] False)) 1 False ks"]
    by (simp add: page_moves_plain key_name_change_def) (simp add: quiet_world_def)
  have 3: "key_step (quiet_world ks Map.empty (Some (0, Generate_Form name False)) 1 False ks) (quiet_world ks [0 \<mapsto> (?n, None)] (Some (0, Generate_Form name True)) 1 False ks :: 'e key_world)"
    using key_step.generate_sent [of "quiet_world ks Map.empty (Some (0, Generate_Form name False)) 1 False ks :: 'e key_world" 0 ?n] assms
    by (simp add: generate_submit_def) (simp add: quiet_world_def)
  have 4: "key_step (quiet_world ks [0 \<mapsto> (?n, None)] (Some (0, Generate_Form name True)) 1 False ks)
      (quiet_world (ks @ [k]) [0 \<mapsto> (?n, Some r)] (Some (0, Generate_Form name True)) 1 False ks :: 'e key_world)"
    using key_step.generate_served [of "quiet_world ks [0 \<mapsto> (?n, None)] (Some (0, Generate_Form name True)) 1 False ks :: 'e key_world" 0 ?n r k "ks @ [k]"] assms(3)
    by (simp add: quiet_world_def)
  have 5: "key_step (quiet_world (ks @ [k]) [0 \<mapsto> (?n, Some r)] (Some (0, Generate_Form name True)) 1 False ks)
      (quiet_world (ks @ [k]) [0 \<mapsto> (?n, Some r)] None 1 False ks :: 'e key_world)"
    using key_step.dismissed [of "quiet_world (ks @ [k]) [0 \<mapsto> (?n, Some r)] (Some (0, Generate_Form name True)) 1 False ks :: 'e key_world"]
    by (simp add: page_moves_plain dismiss_def revealing_def) (simp add: quiet_world_def)
  have 6: "key_step (quiet_world (ks @ [k]) [0 \<mapsto> (?n, Some r)] None 1 False ks) (quiet_world (ks @ [k]) Map.empty None 1 True ks :: 'e key_world)"
    using key_step.generate_answered [of "quiet_world (ks @ [k]) [0 \<mapsto> (?n, Some r)] None 1 False ks :: 'e key_world" 0 ?n r]
    by (simp add: page_moves_same generate_settled_def generateApiKeyAction_def form_open_def) (simp add: quiet_world_def)
  show ?thesis
    using reach_keys_shown [where 'e = 'e and ks = ks] key_reach_step [OF key_reach_step [OF key_reach_step [OF key_reach_step [OF key_reach_step [OF key_reach_step [OF _ 1] 2] 3] 4] 5] 6]
    by simp
qed

text \<open>In the world that is reached no request is under way and no dialog is open, nothing failed, and the table shows no error: it lists \<open>ks\<close> for the server's \<open>ks @ [k]\<close>.\<close>

lemma hidden_key_is_final:
  fixes w :: "'e key_world"
  assumes "w = quiet_world (ks @ [k]) Map.empty None 1 True ks"
  shows "kw_loads w = Map.empty" "kw_generates w = Map.empty" "kw_revokes w = Map.empty" "kp_dialog (kw_page w) = None" "kp_toasts (kw_page w) = []"
    "\<not> tb_isLoading (kp_table (kw_page w))" "tb_error (kp_table (kw_page w)) = None" "tb_data (kp_table (kw_page w)) = map (key_row \<circ> api_key_of) ks"
  using assms by (simp_all add: quiet_world_def table_init_def)

end
