(* ===== verification/Table_Pages.thy ===== *)
theory Table_Pages
  imports Key_Pages Settings Overview
begin

text \<open>
  Two more pages of the tenant portal over the table of \<open>Data_Table\<close>: the devices (\<open>DevicesPage.tsx\<close>), with the kind of a device read from its label, and the channels
  (\<open>ChannelsPage.tsx\<close>), which load again every five seconds.
\<close>

section \<open>Devices\<close>

text \<open>The rows: a summary of the server with the kind; \<open>String\<close> of a list joins it with commas.\<close>

definition device_kind_text :: "device_kind \<Rightarrow> js_string" where
  "device_kind_text k = (case k of Mobile \<Rightarrow> js_of ''mobile'' | Desktop \<Rightarrow> js_of ''desktop'' | Other_Kind \<Rightarrow> js_of ''other'')"

definition device_row :: "push_summary \<Rightarrow> row" where
  "device_row d =
     [(js_of ''endpoint'', Cell_Text (psu_endpoint d)), (js_of ''sub'', Cell_Text (psu_sub d)), (js_of ''channels'', Cell_Object (js_join 44 (psu_channels d))),
      (js_of ''device_label'', case psu_device_label d of None \<Rightarrow> Cell_Null | Some l \<Rightarrow> Cell_Text l), (js_of ''created_at'', Cell_Text (psu_created_at d)),
      (js_of ''deviceKind'', Cell_Text (device_kind_text (classifyDeviceKind (psu_device_label d))))]"

definition load_devices :: "js_string + push_summary list \<Rightarrow> js_string + row list" where
  "load_devices response = map_sum id (map device_row) response"

datatype device_toast = Test_Was_Sent | Test_Send_Failed | Device_Was_Revoked | Device_Not_Revoked

record devices_page =
  dp_table :: table
  dp_testingEndpoint :: "js_string option"
  dp_toasts :: "device_toast list"

definition devices_init :: devices_page where
  "devices_init = \<lparr>dp_table = table_init, dp_testingEndpoint = None, dp_toasts = []\<rparr>"

text \<open>The action of a row is disabled while a test for its endpoint is recorded; the first component tells whether a request goes out.\<close>

definition send_test_click :: "js_string \<Rightarrow> devices_page \<Rightarrow> bool \<times> devices_page" where
  "send_test_click endpoint p =
     (if dp_testingEndpoint p = Some endpoint then (False, p) else (True, p\<lparr>dp_testingEndpoint := Some endpoint\<rparr>))"

definition send_test_settled :: "bool \<Rightarrow> devices_page \<Rightarrow> devices_page" where
  "send_test_settled success p =
     p\<lparr>dp_toasts := dp_toasts p @ [if success then Test_Was_Sent else Test_Send_Failed], dp_testingEndpoint := None\<rparr>"

definition device_revoked :: "bool \<Rightarrow> devices_page \<Rightarrow> devices_page" where
  "device_revoked success p =
     (if success then p\<lparr>dp_toasts := dp_toasts p @ [Device_Was_Revoked], dp_table := load_start (dp_table p)\<rparr>
      else p\<lparr>dp_toasts := dp_toasts p @ [Device_Not_Revoked]\<rparr>)"

text \<open>The three choices of the filter part the devices: every row is under one of them, and under no other.\<close>

lemma kind_field: "field_text fmt (device_row d) (js_of ''deviceKind'') = device_kind_text (classifyDeviceKind (psu_device_label d))"
proof -
  have "jget (device_row d) (js_of ''deviceKind'') = Some (Cell_Text (device_kind_text (classifyDeviceKind (psu_device_label d))))"
    by (simp add: device_row_def jget_def)
  then show ?thesis by (simp add: field_text_def)
qed

definition under_kind :: "(js_number \<Rightarrow> js_string) \<Rightarrow> device_kind \<Rightarrow> row list \<Rightarrow> row list" where
  "under_kind fmt k rows = filter_rows fmt [js_of ''deviceKind''] [(js_of ''deviceKind'', device_kind_text k)] rows"

lemma kind_texts:
  "device_kind_text k \<noteq> []" "device_kind_text k \<noteq> js_of ''all''" "device_kind_text k = device_kind_text k' \<longleftrightarrow> k = k'"
  by (cases k; cases k'; simp add: device_kind_text_def)+

theorem device_filter_partitions:
  "mset (map device_row ds) =
     mset (under_kind fmt Mobile (map device_row ds)) + mset (under_kind fmt Desktop (map device_row ds)) + mset (under_kind fmt Other_Kind (map device_row ds))"
proof -
  have u: "under_kind fmt k (map device_row ds) = map device_row (filter (\<lambda>d. classifyDeviceKind (psu_device_label d) = k) ds)" for k ds
    by (simp add: under_kind_def jget_def kind_texts kind_field filter_map o_def del: js_of_simps)
  show ?thesis unfolding u
  proof (induction ds)
    case (Cons d ds)
    then show ?case by (cases "classifyDeviceKind (psu_device_label d)") simp_all
  qed simp
qed

text \<open>
  The state remembers one test only. While the test of a device runs its action is disabled, but after a test of another device it is enabled again, although the first one still runs.
\<close>

theorem second_test_reenables:
  assumes "dp_testingEndpoint p = None" "a \<noteq> b"
  shows "let p1 = snd (send_test_click a p); p2 = snd (send_test_click b p1) in
    send_test_click a p1 = (False, p1) \<and> fst (send_test_click b p1) \<and> fst (send_test_click a p2) \<and>
    fst (send_test_click b (send_test_settled success p2))"
  using assms by (simp add: send_test_click_def send_test_settled_def Let_def)

section \<open>Channels\<close>

datatype channel_status = Ch_Active | Ch_Idle

definition channel_status_of :: "channel_summary \<Rightarrow> channel_status" where
  "channel_status_of c = (if cl_subscriber_count c > 0 then Ch_Active else Ch_Idle)"

definition loadChannels :: "js_string + channel_summary list \<Rightarrow> js_string + (channel_summary \<times> channel_status) list" where
  "loadChannels response = map_sum id (map (\<lambda>c. (c, channel_status_of c))) response"

definition channel_row :: "(int \<Rightarrow> js_number) \<Rightarrow> channel_summary \<times> channel_status \<Rightarrow> row" where
  "channel_row num c =
     [(js_of ''channel_id'', Cell_Text (cl_channel_id (fst c))), (js_of ''subscriber_count'', Cell_Number (num (cl_subscriber_count (fst c)))),
      (js_of ''status'', Cell_Text (case snd c of Ch_Active \<Rightarrow> js_of ''active'' | Ch_Idle \<Rightarrow> js_of ''idle''))]"

text \<open>The interval of the effect: \<open>setRefreshKey((k) => k + 1)\<close>.\<close>

definition CHANNELS_POLL_MS :: nat where "CHANNELS_POLL_MS = 5000"

definition channels_tick :: "table \<Rightarrow> table" where
  "channels_tick t = load_start t"

definition channels_answer :: "(int \<Rightarrow> js_number) \<Rightarrow> nat \<Rightarrow> js_string + channel_summary list \<Rightarrow> table \<Rightarrow> table" where
  "channels_answer num n response t = load_settled n (map_sum id (map (channel_row num)) (loadChannels response)) t"

datatype copy_toast = Copied_Id | Copy_Id_Failed

definition copy_channel :: "bool option \<Rightarrow> bool \<Rightarrow> channel_summary \<Rightarrow> copy_toast \<times> clipboard_call list" where
  "copy_channel written executed c =
     (case copyToClipboard written executed (cl_channel_id c) of (Inr _, calls) \<Rightarrow> (Copied_Id, calls) | (Inl _, calls) \<Rightarrow> (Copy_Id_Failed, calls))"

text \<open>With one answer between two ticks the table shows the channels of that answer; a tick takes them off the screen again, and takes away every selection.\<close>

theorem channels_between_ticks:
  "tb_data (channels_answer num (tb_load (channels_tick t)) (Inr cs) (channels_tick t)) = map (\<lambda>c. channel_row num (c, channel_status_of c)) cs"
  "\<not> tb_isLoading (channels_answer num (tb_load (channels_tick t)) (Inr cs) (channels_tick t))"
  "tb_selectedIds (channels_tick t) = []" "tb_isLoading (channels_tick t)"
  by (simp_all add: channels_answer_def channels_tick_def loadChannels_def load_settled_def load_start_def)

text \<open>
  A tick cancels the request before it. If every answer takes longer than the interval, so that each comes just after the next tick, the table never shows a channel, whatever the
  answers are and however long the page stays open.
\<close>

definition slow_round :: "(int \<Rightarrow> js_number) \<Rightarrow> channel_summary list \<Rightarrow> table \<Rightarrow> table" where
  "slow_round num cs t = channels_answer num (tb_load t) (Inr cs) (channels_tick t)"

theorem slow_server_starves_channels:
  "tb_data (fold (slow_round num) answers table_init) = [] \<and> tb_isLoading (fold (slow_round num) answers table_init)"
proof -
  have "tb_data (slow_round num cs t) = tb_data t" "tb_isLoading (slow_round num cs t)" for cs t
    by (simp_all add: slow_round_def channels_answer_def channels_tick_def load_settled_def load_start_def)
  then have "tb_data (fold (slow_round num) answers t) = tb_data t \<and> (tb_isLoading t \<longrightarrow> tb_isLoading (fold (slow_round num) answers t))" for t
    by (induction answers arbitrary: t) simp_all
  then show ?thesis by (simp add: table_init_def)
qed

end
