(* ===== verification/Console_Access.thy ===== *)
theory Console_Access
  imports Tenant_Admin Live_Pages
begin

text \<open>
  Who sees which page of the admin console: the routes (\<open>admin/src/router/index.tsx\<close>) with their guard (\<open>router/guards/ProtectedRoute.tsx\<close>), the way through the login
  form and back, and the end of a session by inactivity (\<open>hooks/useIdleLogout.ts\<close>, mounted by \<open>AdminLayout.tsx\<close>). How React Router matches a path is an argument.
\<close>

section \<open>Routes\<close>

datatype console_page = To_Admin | Login_Page | Dashboard_Page | Tenants_Page | Sandbox_Page | Admin_Settings_Page | Sandbox_Session_Page | Not_Found_Page

record location =
  lo_pathname :: js_string
  lo_search :: js_string

text \<open>The paths of the table of routes; any other path is \<open>*\<close>.\<close>

definition console_paths :: "(js_string \<times> console_page) list" where
  "console_paths =
     [(js_of ''/'', To_Admin), (js_of ''/login'', Login_Page), (js_of ''/admin'', Dashboard_Page), (js_of ''/admin/tenants'', Tenants_Page),
      (js_of ''/admin/sandbox'', Sandbox_Page), (js_of ''/admin/settings'', Admin_Settings_Page), (js_of ''/sandbox/session'', Sandbox_Session_Page)]"

text \<open>What is assumed of the matching: the paths of the table lead to their pages.\<close>

definition matches_routes :: "(js_string \<Rightarrow> console_page) \<Rightarrow> bool" where
  "matches_routes match \<longleftrightarrow> list_all (\<lambda>(path, page). match path = page) console_paths"

definition exact_match :: "js_string \<Rightarrow> console_page" where
  "exact_match path = or_default (map_of console_paths path) Not_Found_Page"

text \<open>A page with the layout of the console runs \<open>useIdleLogout\<close>.\<close>

definition has_layout :: "console_page \<Rightarrow> bool" where
  "has_layout p \<longleftrightarrow> p \<in> {Dashboard_Page, Tenants_Page, Sandbox_Page, Admin_Settings_Page}"

definition is_protected :: "console_page \<Rightarrow> bool" where
  "is_protected p \<longleftrightarrow> has_layout p \<or> p = Sandbox_Session_Page"

text \<open>What is shown at a location; a redirection to the login form hands on the location as \<open>from\<close>.\<close>

datatype route_view = Shows console_page location | Login_From "location option"

definition console_view :: "(js_string \<Rightarrow> console_page) \<Rightarrow> admin_auth \<Rightarrow> location \<Rightarrow> route_view" where
  "console_view match st loc =
     (let to_page = (\<lambda>page loc. if page = Login_Page then Login_From None
                else if is_protected page \<and> \<not> aa_isAuthenticated st then Login_From (Some loc) else Shows page loc) in
      if match (lo_pathname loc) = To_Admin then to_page Dashboard_Page \<lparr>lo_pathname = js_of ''/admin'', lo_search = []\<rparr>
      else to_page (match (lo_pathname loc)) loc)"

text \<open>The login form goes on to the path of \<open>from\<close>, without its search.\<close>

definition login_from :: "js_string \<Rightarrow> js_string \<Rightarrow> location option \<Rightarrow> admin_auth \<Rightarrow> admin_auth \<times> location option" where
  "login_from apiUrl token from_loc st =
     (case console_login apiUrl token (map_option lo_pathname from_loc) st of
        (st', None) \<Rightarrow> (st', None)
      | (st', Some path) \<Rightarrow> (st', Some \<lparr>lo_pathname = path, lo_search = []\<rparr>))"

lemma protected_needs_session: "console_view match st loc = Shows page l \<Longrightarrow> is_protected page \<Longrightarrow> aa_isAuthenticated st"
  by (auto simp: console_view_def Let_def split: if_splits)

lemma match_paths:
  assumes "matches_routes match"
  shows "match (js_of ''/admin'') = Dashboard_Page" "match (js_of ''/sandbox/session'') = Sandbox_Session_Page"
  using assms by (simp_all add: matches_routes_def console_paths_def)

text \<open>
  A visitor without a session who asks for a protected page gets it after the login, at the same path, but without the search part of its address.
\<close>

theorem login_returns_to_page:
  assumes "console_view match st loc = Login_From (Some l)" "js_trim apiUrl \<noteq> []" "js_trim token \<noteq> []" "matches_routes match"
  shows "\<exists>st'. login_from apiUrl token (Some l) st = (st', Some (l\<lparr>lo_search := []\<rparr>)) \<and> aa_isAuthenticated st' \<and>
    console_view match st' (l\<lparr>lo_search := []\<rparr>) = Shows (match (lo_pathname l)) (l\<lparr>lo_search := []\<rparr>)"
proof -
  have l: "is_protected (match (lo_pathname l))" "match (lo_pathname l) \<noteq> Login_Page" "match (lo_pathname l) \<noteq> To_Admin"
    using assms(1) match_paths [OF assms(4)]
    by (auto simp: console_view_def Let_def is_protected_def has_layout_def simp del: js_of_simps split: if_splits)
  then show ?thesis
    using assms(2,3) by (simp add: login_from_def console_login_def or_default_def admin_connect_def console_view_def Let_def)
qed

theorem login_returns_to_page_witness:
  "console_view exact_match (admin_connect [104] [116] admin_auth_init) \<lparr>lo_pathname = js_of ''/admin/tenants'', lo_search = []\<rparr> =
     Shows Tenants_Page \<lparr>lo_pathname = js_of ''/admin/tenants'', lo_search = []\<rparr>"
proof -
  have m: "matches_routes exact_match" by code_simp
  have e: "exact_match (js_of ''/admin/tenants'') = Tenants_Page" by code_simp
  let ?l = "\<lparr>lo_pathname = js_of ''/admin/tenants'', lo_search = [63]\<rparr>"
  have "console_view exact_match admin_auth_init ?l = Login_From (Some ?l)"
    by (simp add: console_view_def e is_protected_def has_layout_def admin_auth_init_def del: js_of_simps)
  moreover have "js_trim [104] = [104]" "js_trim [116] = [116]" by code_simp+
  ultimately show ?thesis
    using login_returns_to_page [OF _ _ _ m, of admin_auth_init ?l ?l "[104]" "[116]"] e
    by (auto simp: login_from_def console_login_def drop_last_slash_def or_default_def simp del: js_of_simps)
qed

text \<open>
  So the address of a live session, opened by a visitor without a session, loses the tenant, the subject and the channels on the way through the login form: the page that comes up has none.
\<close>

theorem login_drops_session_link:
  assumes "aa_isAuthenticated st = False" "js_trim apiUrl \<noteq> []" "js_trim token \<noteq> []" "matches_routes match"
    and "loc = \<lparr>lo_pathname = js_of ''/sandbox/session'', lo_search = drop 17 (openSession tenant s)\<rparr>"
  shows "console_view match st loc = Login_From (Some loc) \<and>
    (\<exists>st' loc'. login_from apiUrl token (Some loc) st = (st', Some loc') \<and> console_view match st' loc' = Shows Sandbox_Session_Page loc' \<and>
      session_params (lo_search loc') = ([], js_of ''unknown'', []))"
proof -
  have v: "console_view match st loc = Login_From (Some loc)"
    using assms(1,5) match_paths [OF assms(4)] by (simp add: console_view_def Let_def is_protected_def del: js_of_simps)
  have p: "session_params [] = ([], js_of ''unknown'', [])" by code_simp
  from login_returns_to_page [OF v assms(2-4)] obtain st' where "login_from apiUrl token (Some loc) st = (st', Some (loc\<lparr>lo_search := []\<rparr>))"
      "console_view match st' (loc\<lparr>lo_search := []\<rparr>) = Shows (match (lo_pathname loc)) (loc\<lparr>lo_search := []\<rparr>)" by blast
  then show ?thesis using v p match_paths [OF assms(4)] assms(5) by auto
qed

section \<open>Inactivity\<close>

definition IDLE_TIMEOUT_MS :: nat where "IDLE_TIMEOUT_MS = 15 * 60 * 1000"

text \<open>The timer is the time at which it fires. After the timeout the user is on the login page, and the layout with its listeners is gone.\<close>

record idle_session =
  is_timer :: "nat option"
  is_mounted :: bool
  is_auth :: admin_auth
  is_signedOutAt :: "nat option"

definition handleIdle :: "nat \<Rightarrow> idle_session \<Rightarrow> idle_session" where
  "handleIdle now s = s\<lparr>is_auth := admin_logout (is_auth s), is_mounted := False, is_timer := None, is_signedOutAt := Some now\<rparr>"

definition resetTimer :: "nat \<Rightarrow> nat \<Rightarrow> idle_session \<Rightarrow> idle_session" where
  "resetTimer timeoutMs now s = s\<lparr>is_timer := Some (now + timeoutMs)\<rparr>"

definition idle_mount :: "nat \<Rightarrow> nat \<Rightarrow> admin_auth \<Rightarrow> idle_session" where
  "idle_mount timeoutMs now st = resetTimer timeoutMs now \<lparr>is_timer = None, is_mounted = True, is_auth = st, is_signedOutAt = None\<rparr>"

definition idle_unmount :: "idle_session \<Rightarrow> idle_session" where
  "idle_unmount s = s\<lparr>is_timer := None, is_mounted := False\<rparr>"

text \<open>Time passes: a timer that is due has fired. Activity is an event of the window, which the hook hears while it is mounted.\<close>

definition idle_wait :: "nat \<Rightarrow> idle_session \<Rightarrow> idle_session" where
  "idle_wait now s = (case is_timer s of Some d \<Rightarrow> if d \<le> now then handleIdle d s else s | None \<Rightarrow> s)"

definition idle_activity :: "nat \<Rightarrow> nat \<Rightarrow> idle_session \<Rightarrow> idle_session" where
  "idle_activity timeoutMs now s = (let s1 = idle_wait now s in if is_mounted s1 then resetTimer timeoutMs now s1 else s1)"

lemma idle_gone: "is_timer s = None \<Longrightarrow> \<not> is_mounted s \<Longrightarrow> fold (idle_activity T) acts s = s \<and> idle_wait now s = s"
  by (induction acts) (simp_all add: idle_activity_def idle_wait_def)

text \<open>The first time that is \<open>T\<close> after an activity without another one before.\<close>

fun quiet_at :: "nat \<Rightarrow> nat \<Rightarrow> nat \<Rightarrow> nat list \<Rightarrow> nat option" where
  "quiet_at T now x [] = (if x + T \<le> now then Some (x + T) else None)"
| "quiet_at T now x (y # ys) = (if x + T \<le> y then Some (x + T) else quiet_at T now y ys)"

lemma quiet_at_None:
  assumes "sorted (x # acts)" "\<forall>y \<in> set acts. y \<le> now" "quiet_at T now x acts = None"
  shows "\<forall>z \<in> set (x # acts). z + T \<le> now \<longrightarrow> (\<exists>y \<in> set acts. z < y \<and> y < z + T)"
  using assms
proof (induction acts arbitrary: x)
  case (Cons y acts)
  then have ih: "\<forall>z \<in> set (y # acts). z + T \<le> now \<longrightarrow> (\<exists>y \<in> set acts. z < y \<and> y < z + T)" by (auto split: if_splits)
  show ?case
  proof (cases "x = y")
    case True
    then show ?thesis using ih by auto
  next
    case False
    then have "x < y" "y < x + T" using Cons.prems by (auto split: if_splits)
    then show ?thesis using ih by auto
  qed
qed (auto split: if_splits)

lemma quiet_at_Some:
  assumes "sorted (x # acts)" "\<forall>y \<in> set acts. y \<le> now" "quiet_at T now x acts = Some d"
  shows "\<exists>z \<in> set (x # acts). d = z + T \<and> d \<le> now \<and> (\<forall>y \<in> set acts. \<not> (z < y \<and> y < d))"
  using assms
proof (induction acts arbitrary: x)
  case (Cons y acts)
  show ?case
  proof (cases "x + T \<le> y")
    case True
    then show ?thesis using Cons.prems by auto
  next
    case False
    with Cons obtain z where z: "z \<in> set (y # acts)" "d = z + T" "d \<le> now" "\<forall>y \<in> set acts. \<not> (z < y \<and> y < d)" by auto
    then have "y \<le> z" using Cons.prems by auto
    then show ?thesis using z by (intro bexI [of _ z]) auto
  qed
qed (auto split: if_splits)

lemma idle_run:
  assumes "is_timer s = Some (x + T)" "is_mounted s"
  shows "idle_wait now (fold (idle_activity T) acts s) =
    (case quiet_at T now x acts of None \<Rightarrow> s\<lparr>is_timer := Some (last (x # acts) + T)\<rparr> | Some d \<Rightarrow> handleIdle d s)"
  using assms
proof (induction acts arbitrary: x s)
  case Nil
  then show ?case by (cases s) (auto simp: idle_wait_def)
next
  case (Cons y acts)
  show ?case
  proof (cases "x + T \<le> y")
    case True
    then have "idle_activity T y s = handleIdle (x + T) s" using Cons.prems by (simp add: idle_activity_def idle_wait_def handleIdle_def Let_def)
    moreover have "fold (idle_activity T) acts (handleIdle (x + T) s) = handleIdle (x + T) s \<and> idle_wait now (handleIdle (x + T) s) = handleIdle (x + T) s"
      by (rule idle_gone) (simp_all add: handleIdle_def)
    ultimately show ?thesis using True by simp
  next
    case False
    then have "idle_activity T y s = resetTimer T y s" using Cons.prems by (simp add: idle_activity_def idle_wait_def Let_def)
    moreover have "is_timer (resetTimer T y s) = Some (y + T)" "is_mounted (resetTimer T y s)" using Cons.prems by (simp_all add: resetTimer_def)
    ultimately show ?thesis using False Cons.IH [of "resetTimer T y s" y]
      by (simp add: resetTimer_def handleIdle_def split: option.split)
  qed
qed

text \<open>
  The console signs the user out exactly when there was no activity for the time of the timeout: the session is kept as long as every activity, and the arrival on the page, is followed by another one
  in time; otherwise it ends, with its token, just when the timeout has passed since an activity.
\<close>

theorem idle_logout_exact:
  assumes "sorted (start # acts)" "\<forall>y \<in> set acts. y \<le> now"
  shows "case is_signedOutAt (idle_wait now (fold (idle_activity T) acts (idle_mount T start st))) of
      None \<Rightarrow> is_auth (idle_wait now (fold (idle_activity T) acts (idle_mount T start st))) = st \<and>
        (\<forall>z \<in> set (start # acts). z + T \<le> now \<longrightarrow> (\<exists>y \<in> set acts. z < y \<and> y < z + T))
    | Some d \<Rightarrow> is_auth (idle_wait now (fold (idle_activity T) acts (idle_mount T start st))) = admin_logout st \<and>
        (\<exists>z \<in> set (start # acts). d = z + T \<and> d \<le> now \<and> (\<forall>y \<in> set acts. \<not> (z < y \<and> y < d)))"
proof -
  have m: "is_timer (idle_mount T start st) = Some (start + T)" "is_mounted (idle_mount T start st)" "is_auth (idle_mount T start st) = st"
      "is_signedOutAt (idle_mount T start st) = None"
    by (simp_all add: idle_mount_def resetTimer_def)
  show ?thesis
    using quiet_at_None [OF assms] quiet_at_Some [OF assms]
    by (cases "quiet_at T now start acts") (simp_all add: idle_run [OF m(1,2)] m handleIdle_def)
qed

theorem idle_logout_exact_witness:
  "is_signedOutAt (idle_wait 2000000 (fold (idle_activity IDLE_TIMEOUT_MS) [100, 899999, 1000000] (idle_mount IDLE_TIMEOUT_MS 0 admin_auth_init))) \<noteq> None"
proof
  assume n: "is_signedOutAt (idle_wait 2000000 (fold (idle_activity IDLE_TIMEOUT_MS) [100, 899999, 1000000] (idle_mount IDLE_TIMEOUT_MS 0 admin_auth_init))) = None"
  from idle_logout_exact [of 0 "[100, 899999, 1000000]" 2000000 IDLE_TIMEOUT_MS admin_auth_init] n
  have "\<exists>y \<in> set [100, 899999, 1000000 :: nat]. 1000000 < y" by (auto simp: IDLE_TIMEOUT_MS_def)
  then show False by simp
qed

text \<open>A tenant's live session has no layout of the console around it: while its page is open nothing ends the session for inactivity.\<close>

lemma session_page_never_idles: "is_protected Sandbox_Session_Page \<and> \<not> has_layout Sandbox_Session_Page"
  by (simp add: is_protected_def has_layout_def)

end
