(* ===== verification/App_Update.thy ===== *)
theory App_Update
  imports Service_Worker
begin

text \<open>
  How an open page learns of a new version: the registration of the service worker in \<open>web-client/src/main.tsx\<close> and \<open>tenant-portal/src/main.tsx\<close>, which are the same, together with the
  workers of \<open>Service_Worker\<close> and the browser's registration with its three places. Several pages may be open. The events that a step of the browser sends to the pages are handled in that
  step.
\<close>

section \<open>The page\<close>

text \<open>
  \<open>up_controller\<close> is \<open>navigator.serviceWorker.controller\<close>, \<open>up_watched\<close> are the workers with a \<open>statechange\<close> listener, \<open>up_prompts\<close> the toasts so far, each for a worker, and
  \<open>up_reloads\<close> counts the calls of \<open>reload\<close>. The last two fields are no state of the code: the first controller, and the worker that was installing when the registration
  was answered.
\<close>

record update_page =
  up_controller :: "nat option"
  up_registered :: bool
  up_watched :: "nat list"
  up_prompts :: "nat list"
  up_reloading :: bool
  up_reloads :: nat
  up_first :: "nat option"
  up_early :: "nat option"

definition page_load :: "nat option \<Rightarrow> update_page" where
  "page_load c = \<lparr>up_controller = c, up_registered = False, up_watched = [], up_prompts = [], up_reloading = False, up_reloads = 0, up_first = c, up_early = None\<rparr>"

definition promptUpdate :: "nat \<Rightarrow> update_page \<Rightarrow> update_page" where
  "promptUpdate waitingWorker p = p\<lparr>up_prompts := up_prompts p @ [waitingWorker]\<rparr>"

text \<open>The callback of \<open>register\<close>, with what the registration has in its places \<open>waiting\<close> and \<open>installing\<close>; the callback looks only at the first.\<close>

definition on_registered :: "nat option \<Rightarrow> nat option \<Rightarrow> update_page \<Rightarrow> update_page" where
  "on_registered waiting installing p =
     (case waiting of
        Some n \<Rightarrow> if up_controller p \<noteq> None then promptUpdate n p else p
      | None \<Rightarrow> p)\<lparr>up_registered := True, up_early := installing\<rparr>"

text \<open>\<open>updatefound\<close> is heard once the callback has run.\<close>

definition on_updatefound :: "nat option \<Rightarrow> update_page \<Rightarrow> update_page" where
  "on_updatefound installing p =
     (if \<not> up_registered p then p
      else (case installing of None \<Rightarrow> p | Some n \<Rightarrow> p\<lparr>up_watched := up_watched p @ [n]\<rparr>))"

definition on_statechange :: "nat \<Rightarrow> phase \<Rightarrow> update_page \<Rightarrow> update_page" where
  "on_statechange n state p =
     (if n \<in> set (up_watched p) \<and> state = Waiting \<and> up_controller p \<noteq> None then promptUpdate n p else p)"

definition on_controllerchange :: "update_page \<Rightarrow> update_page" where
  "on_controllerchange p = (if up_reloading p then p else p\<lparr>up_reloading := True, up_reloads := up_reloads p + 1\<rparr>)"

text \<open>The button of the toast: the toasts share an identity, so that the last one is there to click. The result is the worker to which \<open>SKIP_WAITING\<close> is posted.\<close>

definition update_click :: "update_page \<Rightarrow> nat option" where
  "update_click p = (if up_prompts p = [] then None else Some (last (up_prompts p)))"

section \<open>The browser\<close>

record update_world =
  uw_installing :: "(nat \<times> worker) option"
  uw_waiting :: "(nat \<times> worker) option"
  uw_active :: "(nat \<times> worker) option"
  uw_next :: nat
  uw_pages :: "nat \<Rightarrow> update_page option"
  uw_clicked :: "nat set"

definition each_page :: "(update_page \<Rightarrow> update_page) \<Rightarrow> update_world \<Rightarrow> update_world" where
  "each_page f u = u\<lparr>uw_pages := \<lambda>i. map_option f (uw_pages u i)\<rparr>"

text \<open>A page gets a new controller when the worker takes over, whether it had one or is claimed.\<close>

definition taken_over :: "nat \<Rightarrow> update_page \<Rightarrow> update_page" where
  "taken_over n p = (if up_controller p = Some n then p else on_controllerchange (p\<lparr>up_controller := Some n\<rparr>))"

definition post_to :: "nat \<Rightarrow> js_string \<Rightarrow> (nat \<times> worker) option \<Rightarrow> (nat \<times> worker) option" where
  "post_to n type place = map_option (\<lambda>(m, s). (m, if m = n then on_message (Some type) s else s)) place"

definition post_message :: "nat \<Rightarrow> js_string \<Rightarrow> update_world \<Rightarrow> update_world" where
  "post_message n type u = u\<lparr>uw_installing := post_to n type (uw_installing u), uw_waiting := post_to n type (uw_waiting u), uw_active := post_to n type (uw_active u)\<rparr>"

text \<open>An installed worker takes the place of a waiting one; a failed installation leaves nothing.\<close>

definition install_done :: "worker_texts \<Rightarrow> web \<Rightarrow> nat \<Rightarrow> worker \<Rightarrow> update_world \<Rightarrow> update_world" where
  "install_done w web n s u =
     (let s' = on_install w web s; u1 = u\<lparr>uw_installing := None\<rparr> in
      each_page (on_statechange n (wk_phase s')) (if wk_phase s' = Waiting then u1\<lparr>uw_waiting := Some (n, s')\<rparr> else u1))"

definition take_over :: "worker_texts \<Rightarrow> nat \<Rightarrow> worker \<Rightarrow> update_world \<Rightarrow> update_world" where
  "take_over w n s u = each_page (taken_over n) (u\<lparr>uw_waiting := None, uw_active := Some (n, on_activate w s)\<rparr>)"

definition no_controlled_page :: "update_world \<Rightarrow> bool" where
  "no_controlled_page u \<longleftrightarrow> (\<forall>p \<in> ran (uw_pages u). up_controller p = None)"

definition no_clients :: update_world where
  "no_clients = \<lparr>uw_installing = None, uw_waiting = None, uw_active = None, uw_next = 0, uw_pages = Map.empty, uw_clicked = {}\<rparr>"

text \<open>
  A page is opened under the control of the active worker, if there is one, or without control by a forced reload. A version is found when the browser looks for one, at any time. The waiting worker
  takes over after \<open>skipWaiting\<close>, or when no page is controlled.
\<close>

inductive update_step :: "worker_texts \<Rightarrow> update_world \<Rightarrow> update_world \<Rightarrow> bool" for w where
  opened: "c = None \<or> c = map_option fst (uw_active u) \<Longrightarrow> uw_pages u i = None \<or> (\<exists>p. uw_pages u i = Some p \<and> up_reloads p > 0) \<Longrightarrow>
     update_step w u (u\<lparr>uw_pages := (uw_pages u)(i \<mapsto> page_load c)\<rparr>)"
| closed: "update_step w u (u\<lparr>uw_pages := (uw_pages u)(i := None)\<rparr>)"
| registered: "uw_pages u i = Some p \<Longrightarrow> \<not> up_registered p \<Longrightarrow>
     update_step w u (u\<lparr>uw_pages := (uw_pages u)(i \<mapsto> on_registered (map_option fst (uw_waiting u)) (map_option fst (uw_installing u)) p)\<rparr>)"
| found: "uw_installing u = None \<Longrightarrow> worker_init s \<Longrightarrow>
     update_step w u (each_page (on_updatefound (Some (uw_next u))) (u\<lparr>uw_installing := Some (uw_next u, s), uw_next := uw_next u + 1\<rparr>))"
| installed: "uw_installing u = Some (n, s) \<Longrightarrow> update_step w u (install_done w web n s u)"
| activated: "uw_waiting u = Some (n, s) \<Longrightarrow> wk_skip s \<or> no_controlled_page u \<Longrightarrow> update_step w u (take_over w n s u)"
| clicked: "uw_pages u i = Some p \<Longrightarrow> update_click p = Some n \<Longrightarrow>
     update_step w u (post_message n (js_of ''SKIP_WAITING'') (u\<lparr>uw_clicked := insert n (uw_clicked u)\<rparr>))"

definition update_reachable :: "worker_texts \<Rightarrow> update_world \<Rightarrow> bool" where
  "update_reachable w u \<longleftrightarrow> (\<exists>s. s = no_clients \<and> (update_step w)\<^sup>*\<^sup>* s u)"

interpretation up: transition_system "\<lambda>u. u = no_clients" "update_step w" "update_reachable w" for w
  by unfold_locales (rule update_reachable_def)

section \<open>No reload on its own\<close>

text \<open>
  \<open>SKIP_WAITING\<close> was posted only to workers whose button was clicked, a worker in its place has its number, and a page that started under control and was reloaded is under the control of a worker
  for which it was.
\<close>

definition skip_clicked :: "nat set \<Rightarrow> (nat \<times> worker) option \<Rightarrow> bool" where
  "skip_clicked C place \<longleftrightarrow> (\<forall>n s. place = Some (n, s) \<longrightarrow> wk_skip s \<longrightarrow> n \<in> C)"

definition page_asked :: "update_world \<Rightarrow> update_page \<Rightarrow> bool" where
  "page_asked u p \<longleftrightarrow> (up_reloads p = (if up_reloading p then 1 else 0)) \<and>
     (up_first p \<noteq> None \<longrightarrow> up_controller p \<noteq> None \<and> (up_reloading p \<longrightarrow> (\<exists>n. up_controller p = Some n \<and> n \<in> uw_clicked u)))"

definition update_ok :: "update_world \<Rightarrow> bool" where
  "update_ok u \<longleftrightarrow> skip_clicked (uw_clicked u) (uw_installing u) \<and> skip_clicked (uw_clicked u) (uw_waiting u) \<and>
     (\<forall>i p. uw_pages u i = Some p \<longrightarrow> page_asked u p)"

lemma each_page_simps [simp]:
  "uw_pages (each_page f u) i = map_option f (uw_pages u i)" "uw_installing (each_page f u) = uw_installing u" "uw_waiting (each_page f u) = uw_waiting u"
  "uw_active (each_page f u) = uw_active u" "uw_clicked (each_page f u) = uw_clicked u" "uw_next (each_page f u) = uw_next u"
  by (simp_all add: each_page_def)

lemma install_skip: "wk_skip (on_install w web s) = wk_skip s"
  by (simp add: on_install_def Let_def split: option.split)

lemma skip_clicked_post: "skip_clicked C place \<Longrightarrow> skip_clicked (insert n C) (post_to n type place)"
  by (cases place) (auto simp: skip_clicked_def post_to_def on_message_def split: if_splits)

lemma page_asked_handlers:
  "page_asked u p \<Longrightarrow> page_asked u (on_registered a b p)" "page_asked u p \<Longrightarrow> page_asked u (on_updatefound a p)"
  "page_asked u p \<Longrightarrow> page_asked u (on_statechange n st p)"
  by (auto simp: page_asked_def on_registered_def on_updatefound_def on_statechange_def promptUpdate_def split: option.split)

lemma page_asked_cong: "uw_clicked u = uw_clicked v \<Longrightarrow> page_asked u p = page_asked v p"
  by (simp add: page_asked_def)

lemma update_ok_reach: "update_reachable w u \<Longrightarrow> update_ok u"
proof (rule up.reach_invariant)
  show "update_ok u" if "u = no_clients" for u using that by (simp add: update_ok_def no_clients_def skip_clicked_def)
  show "update_ok v" if "update_step w u v" "update_ok u" for u v
    using that
  proof cases
    case (opened c i)
    then show ?thesis using that(2) by (auto simp: update_ok_def page_asked_def page_load_def split: if_splits)
  next
    case (closed i)
    then show ?thesis using that(2) by (auto simp: update_ok_def page_asked_def)
  next
    case (registered i p)
    then have "page_asked u (on_registered (map_option fst (uw_waiting u)) (map_option fst (uw_installing u)) p)"
      using that(2) by (auto simp: update_ok_def intro: page_asked_handlers)
    then show ?thesis using registered that(2) by (auto simp: update_ok_def page_asked_def)
  next
    case (found s)
    have "page_asked v (on_updatefound (Some (uw_next u)) p)" if "uw_pages u i = Some p" for i p
      using page_asked_handlers(2) [of u p "Some (uw_next u)"] that \<open>update_ok u\<close> found page_asked_cong [of v u] by (auto simp: update_ok_def)
    then show ?thesis using found that(2) by (auto simp: update_ok_def skip_clicked_def worker_init_def)
  next
    case (installed n s web)
    have "page_asked v (on_statechange n st p)" if "uw_pages u i = Some p" for i p st
      using page_asked_handlers(3) [of u p n st] that \<open>update_ok u\<close> installed page_asked_cong [of v u]
      by (auto simp: update_ok_def install_done_def Let_def)
    then show ?thesis using installed that(2) by (auto simp: update_ok_def install_done_def Let_def skip_clicked_def install_skip)
  next
    case (activated n s)
    have "page_asked v (taken_over n p)" if p: "uw_pages u i = Some p" for i p
    proof -
      have a: "page_asked u p" using p \<open>update_ok u\<close> by (simp add: update_ok_def)
      have "n \<in> uw_clicked u" if "up_first p \<noteq> None"
      proof -
        have "up_controller p \<noteq> None" using a that by (simp add: page_asked_def)
        then have "\<not> no_controlled_page u" using p by (auto simp: no_controlled_page_def ran_def)
        then show ?thesis using activated \<open>update_ok u\<close> by (auto simp: update_ok_def skip_clicked_def)
      qed
      then show ?thesis using a activated by (auto simp: page_asked_def taken_over_def on_controllerchange_def take_over_def)
    qed
    then show ?thesis using activated that(2) by (auto simp: update_ok_def take_over_def skip_clicked_def)
  next
    case (clicked i p n)
    then show ?thesis using that(2) by (auto simp: update_ok_def post_message_def skip_clicked_post page_asked_def)
  qed
qed

lemma reload_needs_click:
  assumes "update_reachable w u" "uw_pages u i = Some p" "up_first p \<noteq> None"
  shows "up_controller p \<noteq> None \<and> up_reloads p \<le> 1 \<and> (up_reloads p = 1 \<longrightarrow> (\<exists>n. up_controller p = Some n \<and> n \<in> uw_clicked u))"
  using update_ok_reach [OF assms(1)] assms(2,3) by (auto simp: update_ok_def page_asked_def split: if_splits)

text \<open>A page opened while no worker was active, which is loaded, registers a worker and is reloaded as soon as that worker is active.\<close>

definition opened_page :: "nat option \<Rightarrow> update_world \<Rightarrow> update_world" where
  "opened_page c u = u\<lparr>uw_pages := (uw_pages u)(0 \<mapsto> page_load c)\<rparr>"

definition registered_page :: "update_world \<Rightarrow> update_world" where
  "registered_page u = u\<lparr>uw_pages := (uw_pages u)(0 \<mapsto> on_registered (map_option fst (uw_waiting u)) (map_option fst (uw_installing u)) (the (uw_pages u 0)))\<rparr>"

definition found_worker :: "worker \<Rightarrow> update_world \<Rightarrow> update_world" where
  "found_worker s u = each_page (on_updatefound (Some (uw_next u))) (u\<lparr>uw_installing := Some (uw_next u, s), uw_next := uw_next u + 1\<rparr>)"

definition first_visit :: "worker_texts \<Rightarrow> web \<Rightarrow> worker \<Rightarrow> update_world" where
  "first_visit w web s = take_over w 0 (on_install w web s) (install_done w web 0 s (registered_page (found_worker s (opened_page None no_clients))))"

lemma update_reach_step: "update_reachable w u \<Longrightarrow> update_step w u v \<Longrightarrow> update_reachable w v"
  by (meson update_reachable_def rtranclp.rtrancl_into_rtrancl)

lemma update_reach_start: "update_reachable w no_clients"
  by (auto simp: update_reachable_def)

theorem first_visit_reloads:
  assumes "worker_init s" "wk_phase (on_install w web s) = Waiting"
  shows "update_reachable w (first_visit w web s) \<and> uw_clicked (first_visit w web s) = {} \<and>
    (\<exists>p. uw_pages (first_visit w web s) 0 = Some p \<and> up_prompts p = [] \<and> up_reloads p = 1)"
proof -
  let ?a = "opened_page None no_clients"
  let ?b = "found_worker s ?a"
  let ?c = "registered_page ?b"
  let ?d = "install_done w web 0 s ?c"
  note defs = opened_page_def found_worker_def registered_page_def no_clients_def on_updatefound_def page_load_def install_done_def on_registered_def
    on_statechange_def Let_def
  have "update_step w no_clients ?a" unfolding opened_page_def by (rule update_step.opened) (simp_all add: no_clients_def)
  moreover have "update_step w ?a ?b" unfolding found_worker_def by (rule update_step.found) (simp_all add: opened_page_def no_clients_def assms(1))
  moreover have "update_step w ?b ?c" unfolding registered_page_def
    by (rule update_step.registered) (simp_all add: found_worker_def opened_page_def on_updatefound_def page_load_def)
  moreover have "update_step w ?c ?d" by (rule update_step.installed) (simp add: registered_page_def found_worker_def opened_page_def no_clients_def)
  moreover have "update_step w ?d (first_visit w web s)" unfolding first_visit_def
    by (rule update_step.activated) (auto simp: defs assms(2) no_controlled_page_def ran_def)
  ultimately have "update_reachable w (first_visit w web s)" using update_reach_start update_reach_step by metis
  then show ?thesis by (simp add: first_visit_def take_over_def taken_over_def on_controllerchange_def defs assms(2))
qed

section \<open>No missed update\<close>

definition prompted :: "nat \<Rightarrow> update_page \<Rightarrow> bool" where
  "prompted n p \<longleftrightarrow> update_click p = Some n \<or> up_early p = Some n"

definition page_told :: "update_world \<Rightarrow> update_page \<Rightarrow> bool" where
  "page_told u p \<longleftrightarrow> (up_registered p \<longrightarrow>
     (\<forall>n s. uw_installing u = Some (n, s) \<longrightarrow> n \<in> set (up_watched p) \<or> up_early p = Some n) \<and>
     (\<forall>n s. uw_waiting u = Some (n, s) \<longrightarrow> up_controller p \<noteq> None \<longrightarrow> prompted n p))"

lemma post_to_fst: "post_to n type place = Some (m, s) \<Longrightarrow> \<exists>s'. place = Some (m, s')"
  by (cases place) (auto simp: post_to_def)

lemma update_told_reach: "update_reachable w u \<Longrightarrow> \<forall>i p. uw_pages u i = Some p \<longrightarrow> page_told u p"
proof (rule up.reach_invariant [where I = "\<lambda>u. \<forall>i p. uw_pages u i = Some p \<longrightarrow> page_told u p"])
  show "\<forall>i p. uw_pages u i = Some p \<longrightarrow> page_told u p" if "u = no_clients" for u using that by (simp add: no_clients_def)
  show "\<forall>i p. uw_pages v i = Some p \<longrightarrow> page_told v p" if "update_step w u v" "\<forall>i p. uw_pages u i = Some p \<longrightarrow> page_told u p" for u v
    using that
  proof cases
    case (opened c i)
    then show ?thesis using that(2) by (auto simp: page_told_def page_load_def)
  next
    case (closed i)
    then show ?thesis using that(2) by (auto simp: page_told_def)
  next
    case (registered i p)
    then show ?thesis using that(2) by (auto simp: page_told_def on_registered_def promptUpdate_def prompted_def update_click_def split: option.split)
  next
    case (found s)
    have "page_told v (on_updatefound (Some (uw_next u)) p)" if "page_told u p" for p
      using that found by (cases "up_registered p") (auto simp: page_told_def on_updatefound_def prompted_def update_click_def)
    then show ?thesis using found that(2) by auto
  next
    case (installed n s web)
    have "page_told v (on_statechange n (wk_phase (on_install w web s)) p)" if "page_told u p" for p
      using that installed by (auto simp: page_told_def install_done_def Let_def on_statechange_def promptUpdate_def prompted_def update_click_def)
    then show ?thesis using installed that(2) by (auto simp: install_done_def Let_def)
  next
    case (activated n s)
    have "page_told v (taken_over n p)" if "page_told u p" for p
      using that activated by (auto simp: page_told_def take_over_def taken_over_def on_controllerchange_def)
    then show ?thesis using activated that(2) by (auto simp: take_over_def)
  next
    case (clicked i p n)
    then show ?thesis using that(2) by (auto simp: page_told_def post_message_def dest!: post_to_fst)
  qed
qed

text \<open>
  C37. A page that was loaded under the control of a service worker is neither updated behind the user's back nor left without the offer. It is reloaded at most once, and only
  when the worker that now controls it is one for which the user has clicked the button of an update toast, in this page or in another one. And whenever a new version waits, the page, once registered, shows the toast
  whose button activates that version, unless the version was already being installed when the registration was answered.
\<close>

theorem update_is_users_choice:
  assumes "update_reachable w u" "uw_pages u i = Some p" "up_first p \<noteq> None"
  shows "up_reloads p \<le> 1 \<and> (up_reloads p = 1 \<longrightarrow> (\<exists>n. up_controller p = Some n \<and> n \<in> uw_clicked u)) \<and>
    (up_registered p \<longrightarrow> (\<forall>n s. uw_waiting u = Some (n, s) \<longrightarrow> update_click p = Some n \<or> up_early p = Some n))"
  using reload_needs_click [OF assms] update_told_reach [OF assms(1)] assms(2) by (auto simp: page_told_def prompted_def)

text \<open>The toast comes when the next version is found after the registration was answered.\<close>

definition next_version :: "worker_texts \<Rightarrow> web \<Rightarrow> worker \<Rightarrow> update_world" where
  "next_version w web s = install_done w web 1 s (found_worker s (registered_page (opened_page (Some 0) (first_visit w web s))))"

lemma first_visit_state:
  assumes "wk_phase (on_install w web s) = Waiting"
  shows "uw_installing (first_visit w web s) = None" "uw_waiting (first_visit w web s) = None" "map_option fst (uw_active (first_visit w web s)) = Some 0"
    "uw_next (first_visit w web s) = 1"
  by (simp_all add: first_visit_def take_over_def install_done_def registered_page_def found_worker_def opened_page_def no_clients_def Let_def assms)

lemma next_version_reached:
  assumes "worker_init s" "wk_phase (on_install w web s) = Waiting"
  shows "update_reachable w (next_version w web s)"
proof -
  let ?u = "first_visit w web s"
  let ?a = "opened_page (Some 0) ?u"
  let ?b = "registered_page ?a"
  let ?c = "found_worker s ?b"
  note u = first_visit_state [OF assms(2)]
  have r: "update_reachable w ?u" and p: "\<exists>p. uw_pages ?u 0 = Some p \<and> up_reloads p > 0" using first_visit_reloads [OF assms] by auto
  have "update_step w ?u ?a" unfolding opened_page_def using u(3) p by (intro update_step.opened) auto
  moreover have "update_step w ?a ?b" unfolding registered_page_def by (rule update_step.registered) (simp_all add: opened_page_def page_load_def)
  moreover have "update_step w ?b ?c" unfolding found_worker_def by (rule update_step.found) (simp_all add: registered_page_def opened_page_def u assms(1))
  moreover have "update_step w ?c (next_version w web s)" unfolding next_version_def
    by (rule update_step.installed) (simp add: registered_page_def found_worker_def opened_page_def u)
  ultimately show ?thesis using r update_reach_step by metis
qed

lemma sample_installs: "worker_init sample_worker" "wk_phase (on_install chat_worker sample_web sample_worker) = Waiting"
  by (simp_all add: worker_init_def sample_worker_def jmap_ok_def jkeys_def on_install_def Let_def cache_addAll_def SHELL_URLS_def sample_web_def del: js_of_simps)

theorem update_is_users_choice_witness:
  "\<exists>p. uw_pages (next_version chat_worker sample_web sample_worker) 0 = Some p \<and> update_click p = Some 1 \<and> up_reloads p = 0"
proof -
  let ?v = "next_version chat_worker sample_web sample_worker"
  obtain p where p: "uw_pages ?v 0 = Some p" "up_first p \<noteq> None" "up_registered p" "up_early p = None" "up_controller p = Some 0" "uw_clicked ?v = {}"
      "uw_waiting ?v = Some (1, on_install chat_worker sample_web sample_worker)"
    using first_visit_state [OF sample_installs(2)] first_visit_reloads [OF sample_installs]
    by (simp add: next_version_def install_done_def found_worker_def registered_page_def opened_page_def Let_def on_registered_def on_updatefound_def page_load_def
        on_statechange_def promptUpdate_def sample_installs(2))
  from update_is_users_choice [OF next_version_reached [OF sample_installs] p(1,2)] p show ?thesis by (cases "up_reloads p") auto
qed

theorem click_updates:
  assumes "update_reachable w u" "uw_waiting u = Some (n, s)" "uw_pages u i = Some p" "update_click p = Some n" "up_controller p \<noteq> Some n" "\<not> up_reloading p"
  shows "\<exists>v p'. (update_step w)\<^sup>*\<^sup>* u v \<and> map_option fst (uw_active v) = Some n \<and> uw_pages v i = Some p' \<and> up_controller p' = Some n \<and> up_reloads p' = 1"
proof -
  let ?u = "post_message n (js_of ''SKIP_WAITING'') (u\<lparr>uw_clicked := insert n (uw_clicked u)\<rparr>)"
  have 1: "update_step w u ?u" by (rule update_step.clicked [OF assms(3,4)])
  have wt: "uw_waiting ?u = Some (n, s\<lparr>wk_skip := True\<rparr>)" using assms(2) by (simp add: post_message_def post_to_def on_message_def)
  have 2: "update_step w ?u (take_over w n (s\<lparr>wk_skip := True\<rparr>) ?u)" by (rule update_step.activated [OF wt]) simp
  have "up_reloads p = 0" using update_ok_reach [OF assms(1)] assms(3,6) by (auto simp: update_ok_def page_asked_def)
  then have "\<exists>p'. uw_pages (take_over w n (s\<lparr>wk_skip := True\<rparr>) ?u) i = Some p' \<and> up_controller p' = Some n \<and> up_reloads p' = 1"
    using assms(3,5,6) by (simp add: take_over_def taken_over_def on_controllerchange_def post_message_def)
  moreover have "map_option fst (uw_active (take_over w n (s\<lparr>wk_skip := True\<rparr>) ?u)) = Some n" by (simp add: take_over_def)
  ultimately show ?thesis using 1 2 by (meson r_into_rtranclp rtranclp.rtrancl_into_rtrancl)
qed

text \<open>The exception happens. A page loads under control; the browser finds the next version before the registration is answered; the version waits, and the page, which has no listener for it, never asks.\<close>

definition late_registration :: "worker_texts \<Rightarrow> web \<Rightarrow> worker \<Rightarrow> update_world" where
  "late_registration w web s =
     (let u = first_visit w web s; v = registered_page (found_worker s (opened_page (Some 0) u)) in install_done w web 1 s v)"

theorem update_can_be_missed:
  assumes "worker_init s" "wk_phase (on_install w web s) = Waiting"
  shows "update_reachable w (late_registration w web s) \<and> uw_waiting (late_registration w web s) = Some (1, on_install w web s) \<and>
    (\<exists>p. uw_pages (late_registration w web s) 0 = Some p \<and> up_registered p \<and> up_controller p = Some 0 \<and> up_watched p = [] \<and> up_prompts p = [])"
proof -
  let ?u = "first_visit w web s"
  let ?a = "opened_page (Some 0) ?u"
  let ?b = "found_worker s ?a"
  let ?c = "registered_page ?b"
  have r: "update_reachable w ?u" and p: "\<exists>p. uw_pages ?u 0 = Some p \<and> up_reloads p > 0" using first_visit_reloads [OF assms] by auto
  note u = first_visit_state [OF assms(2)]
  have "update_step w ?u ?a" unfolding opened_page_def using u(3) p by (intro update_step.opened) auto
  moreover have "update_step w ?a ?b" unfolding found_worker_def by (rule update_step.found) (simp_all add: opened_page_def u assms(1))
  moreover have "update_step w ?b ?c" unfolding registered_page_def
    by (rule update_step.registered) (simp_all add: found_worker_def opened_page_def on_updatefound_def page_load_def)
  moreover have "update_step w ?c (install_done w web 1 s ?c)" by (rule update_step.installed) (simp add: registered_page_def found_worker_def opened_page_def u)
  ultimately have "update_reachable w (late_registration w web s)" using r update_reach_step unfolding late_registration_def Let_def by metis
  then show ?thesis
    by (simp add: late_registration_def Let_def install_done_def registered_page_def found_worker_def opened_page_def on_updatefound_def page_load_def
        on_registered_def on_statechange_def u assms(2))
qed

end
