(* ===== verification/Embed_Page.thy ===== *)
theory Embed_Page
  imports Embed_Generator Settings
begin

text \<open>
  The rest of the embed page (\<open>tenant-portal/src/modules/embed/pages/EmbedPage.tsx\<close>): its state, which puts the credentials into the form of \<open>Embed_Generator\<close>, and the React code it
  generates; and the card that mints the token (\<open>components/shared/MintTokenCard.tsx\<close>).
\<close>

section \<open>Minting a token\<close>

definition TTL_PRESETS :: "nat list" where
  "TTL_PRESETS = [3600, 24 * 3600, 7 * 24 * 3600, 30 * 24 * 3600]"

text \<open>The state of the card and the slot of the store, which other pages share.\<close>

record mint_card =
  md_sub :: js_string
  md_ttlSecs :: nat
  md_isSubmitting :: bool
  md_failures :: "api_error list"
  md_slot :: "minted_credentials option"

definition mint_card_init :: "minted_credentials option \<Rightarrow> mint_card" where
  "mint_card_init slot = \<lparr>md_sub = js_of ''demo-user'', md_ttlSecs = TTL_PRESETS ! 0, md_isSubmitting = False, md_failures = [], md_slot = slot\<rparr>"

text \<open>The button is disabled while a request runs. The request has the subject and the time to live; the key pair is asked for beside it.\<close>

definition mint_click :: "mint_card \<Rightarrow> (js_string \<times> nat) option \<times> mint_card" where
  "mint_click m =
     (if md_isSubmitting m then (None, m)
      else (Some (if js_trim (md_sub m) = [] then js_of ''demo-user'' else js_trim (md_sub m), md_ttlSecs m), m\<lparr>md_isSubmitting := True\<rparr>))"

record mint_reply =
  mr_token :: js_string
  mr_expiresIn :: int
  mr_wsUrl :: js_string

text \<open>\<open>Promise.all\<close> has settled: with both answers, or with the first rejection.\<close>

definition mint_settled :: "js_string \<Rightarrow> js_string \<Rightarrow> api_error + mint_reply \<times> js_string \<Rightarrow> mint_card \<Rightarrow> mint_card" where
  "mint_settled sub issuedAt outcome m =
     (case outcome of
        Inr (minted, tenantId) \<Rightarrow>
          m\<lparr>md_slot := setCredentials \<lparr>mc_token = mr_token minted, mc_expiresIn = mr_expiresIn minted, mc_tenantId = tenantId, mc_sub = sub, mc_issuedAt = issuedAt,
             mc_wsUrl = mr_wsUrl minted\<rparr> (md_slot m)\<rparr>
      | Inl e \<Rightarrow> m\<lparr>md_failures := md_failures m @ [e]\<rparr>)\<lparr>md_isSubmitting := False\<rparr>"

definition downloadCredentials :: "(js_string \<Rightarrow> int option) \<Rightarrow> (int \<Rightarrow> js_number) \<Rightarrow> int \<Rightarrow> mint_card \<Rightarrow> (json \<times> js_string) option" where
  "downloadCredentials getTime num now m =
     map_option (\<lambda>live. (buildCredentialsFile num live, js_of ''mio-credentials.json'')) (live_credentials getTime now (md_slot m))"

text \<open>A minted token is offered, with its file, from its minting until its time to live is over and not longer. A failure leaves the last token as it was.\<close>

theorem minted_until_expiry:
  assumes "getTime issuedAt = Some t"
  shows "map_option mc_token (live_credentials getTime now (md_slot (mint_settled sub issuedAt (Inr (minted, tid)) m))) =
      (if now \<le> t + mr_expiresIn minted * 1000 then Some (mr_token minted) else None)"
    and "(downloadCredentials getTime num now (mint_settled sub issuedAt (Inr (minted, tid)) m) \<noteq> None) = (now \<le> t + mr_expiresIn minted * 1000)"
    and "md_slot (mint_settled sub issuedAt (Inl e) m) = md_slot m"
  using assms by (simp_all add: mint_settled_def setCredentials_def live_credentials_def isCredentialsExpired_def downloadCredentials_def not_less)

section \<open>The page\<close>

datatype embed_toast = Icon_Updated | Icon_Upload_Failed api_error | Sw_Downloaded

record embed_page =
  ey_form :: embed_form
  ey_profile :: "workspace_profile option"
  ey_uploadingLogo :: bool
  ey_sampleTitle :: js_string
  ey_sampleBody :: js_string
  ey_toasts :: "embed_toast list"

definition embed_page_init :: "js_string \<Rightarrow> embed_page" where
  "embed_page_init apiUrl = \<lparr>ey_form = embed_form_init apiUrl, ey_profile = None, ey_uploadingLogo = False, ey_sampleTitle = js_of ''New order received'',
     ey_sampleBody = js_of ''Order #1042 was just placed.'', ey_toasts = []\<rparr>"

text \<open>The three requests of the effect; a failure is taken for an absent value.\<close>

definition vapid_key_loaded :: "api_error + js_string option \<Rightarrow> embed_page \<Rightarrow> embed_page" where
  "vapid_key_loaded r p = p\<lparr>ey_form := (ey_form p)\<lparr>ef_vapidPublicKey := (case r of Inr k \<Rightarrow> k | Inl _ \<Rightarrow> None)\<rparr>\<rparr>"

definition tenant_loaded :: "api_error + js_string \<Rightarrow> embed_page \<Rightarrow> embed_page" where
  "tenant_loaded r p = p\<lparr>ey_form := (ey_form p)\<lparr>ef_tenantId := (case r of Inr t \<Rightarrow> Some t | Inl _ \<Rightarrow> None)\<rparr>\<rparr>"

definition embed_profile_loaded :: "api_error + workspace_profile \<Rightarrow> embed_page \<Rightarrow> embed_page" where
  "embed_profile_loaded r p = p\<lparr>ey_profile := (case r of Inr d \<Rightarrow> Some d | Inl _ \<Rightarrow> None)\<rparr>"

text \<open>Choosing a file starts the upload; the first component tells whether a request goes out.\<close>

definition handleLogoChange :: "bool \<Rightarrow> embed_page \<Rightarrow> bool \<times> embed_page" where
  "handleLogoChange chosen p = (if \<not> chosen then (False, p) else (True, p\<lparr>ey_uploadingLogo := True\<rparr>))"

definition logo_settled :: "api_error + workspace_profile \<Rightarrow> embed_page \<Rightarrow> embed_page" where
  "logo_settled r p =
     (case r of
        Inr d \<Rightarrow> p\<lparr>ey_profile := Some d, ey_toasts := ey_toasts p @ [Icon_Updated]\<rparr>
      | Inl e \<Rightarrow> p\<lparr>ey_toasts := ey_toasts p @ [Icon_Upload_Failed e]\<rparr>)\<lparr>ey_uploadingLogo := False\<rparr>"

definition embed_displayName :: "(js_string \<Rightarrow> js_string) \<Rightarrow> js_string option \<Rightarrow> embed_page \<Rightarrow> js_string" where
  "embed_displayName upper email p =
     (let name = or_default (Option.bind (ey_profile p) wp_name) [] in if name \<noteq> [] then name else workspaceNameFromEmail upper email)"

text \<open>At each rendering the token is read off the store, unless it has expired.\<close>

definition rendered_form :: "(js_string \<Rightarrow> int option) \<Rightarrow> int \<Rightarrow> minted_credentials option \<Rightarrow> embed_page \<Rightarrow> embed_form" where
  "rendered_form getTime now slot p = (ey_form p)\<lparr>ef_token := map_option mc_token (live_credentials getTime now slot)\<rparr>"

text \<open>So the generated script carries the token from its minting until it expires and the three dots otherwise, with the tenant and the key of the last answers.\<close>

theorem rendered_credentials:
  assumes "getTime issuedAt = Some t" "slot = md_slot (mint_settled sub issuedAt (Inr (minted, tid)) m)"
    and "p = tenant_loaded (Inr tid) (vapid_key_loaded (Inr (Some k)) q)"
  shows "po_token (configured_options (rendered_form getTime now slot p)) = (if now \<le> t + mr_expiresIn minted * 1000 then mr_token minted else [0x2026]) \<and>
    po_tenantId (configured_options (rendered_form getTime now slot p)) = tid \<and>
    po_vapidPublicKey (configured_options (rendered_form getTime now slot p)) = k"
  using minted_until_expiry(1) [of getTime issuedAt t now sub minted tid m] assms
  by (simp add: rendered_form_def configured_options_def or_dots_def or_default_def tenant_loaded_def vapid_key_loaded_def)

section \<open>The generated React code\<close>

definition single_quoted :: "js_string \<Rightarrow> js_string" where
  "single_quoted v = [39] @ v @ [39]"

definition jsx_value :: "string \<Rightarrow> js_string \<Rightarrow> js_string" where
  "jsx_value name v = js_of name @ [61, 123] @ v @ [125]"

text \<open>\<open>.join(', ')\<close>.\<close>

fun join_list :: "js_string list \<Rightarrow> js_string" where
  "join_list [] = []"
| "join_list [s] = s"
| "join_list (s # t # ss) = s @ [44, 32] @ join_list (t # ss)"

definition channelList :: "embed_form \<Rightarrow> js_string list" where
  "channelList f = filter (\<lambda>c. c \<noteq> []) (map js_trim (js_split 44 (ef_channels f)))"

definition channels_literal :: "embed_form \<Rightarrow> js_string" where
  "channels_literal f =
     (let items = join_list (map single_quoted (channelList f)) in [91] @ (if items = [] then single_quoted (js_of ''*'') else items) @ [93])"

definition indented :: "js_string list \<Rightarrow> js_string list" where
  "indented = map (\<lambda>l. [32, 32] @ l)"

definition buttonReactCode :: "embed_form \<Rightarrow> js_string" where
  "buttonReactCode f = js_join 10 (
     [js_of ''import { PushPermissionButton } from '' @ single_quoted (js_of ''@mio/realtime-sdk-react''), [], js_of ''<PushPermissionButton''] @
     indented
      ([attribute ''apiBaseUrl'' (ef_apiUrl f), jsx_value ''token'' (js_of ''token''), attribute ''tenantId'' (or_dots (ef_tenantId f)),
        attribute ''vapidPublicKey'' (or_dots (ef_vapidPublicKey f)), jsx_value ''channels'' (channels_literal f), js_of ''style={{''] @
       indented [js_of ''background: '' @ single_quoted (ef_bgColor f) @ [44], js_of ''color: '' @ single_quoted (ef_textColor f) @ [44],
         js_of ''borderRadius: '' @ js_of_nat (ef_radius f) @ [44], js_of ''border: '' @ single_quoted (js_of ''none'') @ [44],
         js_of ''padding: '' @ single_quoted (js_of ''10px 20px'') @ [44], js_of ''fontWeight: 500,'', js_of ''cursor: '' @ single_quoted (js_of ''pointer'') @ [44]] @
       [js_of ''}}'']) @
     [[62]] @ indented [ef_buttonText f] @ [js_of ''</PushPermissionButton>''])"

definition popupReactCode :: "embed_form \<Rightarrow> js_string" where
  "popupReactCode f = js_join 10 (
     [js_of ''import { PushPermissionPopup } from '' @ single_quoted (js_of ''@mio/realtime-sdk-react''), [], js_of ''<PushPermissionPopup''] @
     indented
      [jsx_value ''apiBaseUrl'' (js_of ''apiUrl''), jsx_value ''token'' (js_of ''token''), attribute ''tenantId'' (or_dots (ef_tenantId f)),
       attribute ''vapidPublicKey'' (or_dots (ef_vapidPublicKey f)), jsx_value ''channels'' (channels_literal f), attribute ''title'' (ef_popupTitle f),
       attribute ''description'' (ef_popupDescription f), attribute ''confirmLabel'' (ef_popupConfirmLabel f), attribute ''accentColor'' (ef_bgColor f),
       attribute ''theme'' (ef_popupTheme f), attribute ''position'' (ef_popupPosition f), jsx_value ''repromptIntervalDays'' (js_of_nat (ef_repromptIntervalDays f))] @
     [js_of ''/>''])"

definition reactCode :: "embed_form \<Rightarrow> js_string" where
  "reactCode f = (if ef_mode f = Popup_Mode then popupReactCode f else buttonReactCode f)"

text \<open>The code of the popup has the variable's name where the one of the button has its value: the address of the server is nowhere in it.\<close>

theorem popup_code_lacks_address: "popupReactCode (f\<lparr>ef_apiUrl := a\<rparr>) = popupReactCode f"
  by (simp add: popupReactCode_def channels_literal_def channelList_def)

section \<open>How JavaScript reads the channels\<close>

text \<open>An array of string literals in single quotes. Escapes and line ends are outside of this reader.\<close>

definition plain_unit :: "code_unit \<Rightarrow> bool" where
  "plain_unit u \<longleftrightarrow> u \<notin> {39, 92, 10, 13}"

definition read_literal :: "js_string \<Rightarrow> (js_string \<times> js_string) option" where
  "read_literal s =
     (case s of
        [] \<Rightarrow> None
      | q # r \<Rightarrow> if q \<noteq> 39 then None
          else (case dropWhile plain_unit r of [] \<Rightarrow> None | q' # r' \<Rightarrow> if q' = 39 then Some (takeWhile plain_unit r, r') else None))"

lemma read_literal_shorter: "read_literal s = Some (v, r) \<Longrightarrow> length r < length s"
proof -
  assume a: "read_literal s = Some (v, r)"
  then obtain s' where s: "s = 39 # s'" "dropWhile plain_unit s' = 39 # r"
    by (auto simp: read_literal_def split: list.splits if_splits)
  have "length (39 # r) \<le> length s'" by (metis length_dropWhile_le s(2))
  then show ?thesis using s(1) by simp
qed

function read_items :: "js_string \<Rightarrow> js_string list option" where
  "read_items s =
     (case read_literal s of
        None \<Rightarrow> None
      | Some (v, r) \<Rightarrow>
          if r = [93] then Some [v]
          else if r \<noteq> [] \<and> hd r = 44 then map_option (Cons v) (read_items (dropWhile is_blank (tl r)))
          else None)"
  by pat_completeness auto
termination
proof (relation "measure length")
  fix s p v r
  assume a: "read_literal s = Some p" "(v, r) = p" "r \<noteq> [93]" "r \<noteq> [] \<and> hd r = 44"
  then have "length r < length s" using read_literal_shorter by metis
  moreover have "length (dropWhile is_blank (tl r)) \<le> length (tl r)" by (rule length_dropWhile_le)
  ultimately show "(dropWhile is_blank (tl r), s) \<in> measure length" by simp
qed simp

declare read_items.simps [simp del]

definition read_array :: "js_string \<Rightarrow> js_string list option" where
  "read_array s = (case s of [] \<Rightarrow> None | b # r \<Rightarrow> if b = 91 then read_items r else None)"

lemma read_single_quoted: "list_all plain_unit v \<Longrightarrow> read_literal (single_quoted v @ r) = Some (v, r)"
  by (simp add: read_literal_def single_quoted_def list_all_iff plain_unit_def)

lemma read_join_list:
  "vs \<noteq> [] \<Longrightarrow> list_all (list_all plain_unit) vs \<Longrightarrow> read_items (join_list (map single_quoted vs) @ [93]) = Some vs"
proof (induction vs rule: join_list.induct)
  case (2 v)
  then show ?case by (simp add: read_items.simps [of "single_quoted v @ [93]"] read_single_quoted)
next
  case (3 v w vs)
  let ?rest = "join_list (map single_quoted (w # vs)) @ [93]"
  have "is_blank 32" "\<not> is_blank 39" by code_simp+
  then have d: "dropWhile is_blank (32 # ?rest) = ?rest"
    by (cases vs) (simp_all add: single_quoted_def)
  have "read_literal (single_quoted v @ 44 # 32 # ?rest) = Some (v, 44 # 32 # ?rest)" using 3 by (simp add: read_single_quoted)
  then show ?case using 3 d by (simp add: read_items.simps [of "single_quoted v @ 44 # 32 # _"])
qed simp

lemma join_list_Nil: "join_list (map single_quoted vs) = [] \<longleftrightarrow> vs = []"
  by (cases "map single_quoted vs" rule: join_list.cases) (auto simp: single_quoted_def)

lemma channels_literal_read:
  assumes "list_all (list_all plain_unit) (channelList f)"
  shows "read_array (channels_literal f) = Some (if channelList f = [] then [js_of ''*''] else channelList f)"
proof -
  have "list_all plain_unit (js_of ''*'')" by code_simp
  then have "read_items (single_quoted (js_of ''*'') @ [93]) = Some [js_of ''*'']" using read_join_list [of "[js_of ''*'']"] by simp
  then show ?thesis
    using read_join_list [OF _ assms] by (auto simp: channels_literal_def read_array_def Let_def join_list_Nil simp del: js_of_simps)
qed

text \<open>
  When no entry between the commas of the field is blank or has a quote, a backslash or a line end, the page that uses the React code subscribes to exactly the channels to which a page with the
  script tag does, in the same order.
\<close>

theorem both_codes_same_channels:
  assumes "list_all (\<lambda>c. js_trim c \<noteq> [] \<and> list_all plain_unit (js_trim c)) (js_split 44 (channels_or_all f))"
  shows "read_array (channels_literal f) = Some (split_channels (Some (channels_or_all f)))"
proof (cases "ef_channels f = []")
  case True
  have "channelList f = []" unfolding channelList_def True by code_simp
  moreover have "split_channels (Some (js_of ''*'')) = [js_of ''*'']" by code_simp
  ultimately show ?thesis using channels_literal_read [of f] True by (simp add: channels_or_all_def del: js_of_simps)
next
  case False
  have "list_all (\<lambda>c. js_trim c \<noteq> [] \<and> list_all plain_unit (js_trim c)) (js_split 44 (ef_channels f))"
    using assms False by (simp add: channels_or_all_def)
  then have c: "channelList f = map js_trim (js_split 44 (ef_channels f))" "list_all (list_all plain_unit) (channelList f)"
    by (auto simp: channelList_def list_all_iff filter_id_conv)
  moreover have "split_channels (Some (ef_channels f)) = map js_trim (js_split 44 (ef_channels f))"
    using False by (simp add: split_channels_def or_undefined_def)
  moreover have "map js_trim (js_split 44 (ef_channels f)) \<noteq> []" using js_split_not_Nil by simp
  ultimately show ?thesis using channels_literal_read False by (simp add: channels_or_all_def)
qed

theorem both_codes_same_channels_witness:
  "read_array (channels_literal (sample_form\<lparr>ef_channels := js_of ''news, alerts''\<rparr>)) = Some [js_of ''news'', js_of ''alerts'']"
proof -
  have s: "channels_or_all (sample_form\<lparr>ef_channels := js_of ''news, alerts''\<rparr>) = js_of ''news, alerts''" by (simp add: channels_or_all_def)
  have "list_all (\<lambda>c. js_trim c \<noteq> [] \<and> list_all plain_unit (js_trim c)) (js_split 44 (js_of ''news, alerts''))" by code_simp
  moreover have "split_channels (Some (js_of ''news, alerts'')) = [js_of ''news'', js_of ''alerts'']" by code_simp
  ultimately show ?thesis using both_codes_same_channels [of "sample_form\<lparr>ef_channels := js_of ''news, alerts''\<rparr>"] unfolding s by simp
qed

text \<open>With a comma too many the two differ: the script subscribes to the channel without a name as well.\<close>

lemma trailing_comma_differs:
  "read_array (channels_literal (sample_form\<lparr>ef_channels := js_of ''news,''\<rparr>)) = Some [js_of ''news'']"
  "split_channels (Some (channels_or_all (sample_form\<lparr>ef_channels := js_of ''news,''\<rparr>))) = [js_of ''news'', []]"
proof -
  have "channelList (sample_form\<lparr>ef_channels := js_of ''news,''\<rparr>) = [js_of ''news'']" by (simp add: channelList_def del: js_of_simps) code_simp
  moreover have "list_all plain_unit (js_of ''news'')" by code_simp
  ultimately show "read_array (channels_literal (sample_form\<lparr>ef_channels := js_of ''news,''\<rparr>)) = Some [js_of ''news'']"
    using channels_literal_read [of "sample_form\<lparr>ef_channels := js_of ''news,''\<rparr>"] by (simp del: js_of_simps)
  show "split_channels (Some (channels_or_all (sample_form\<lparr>ef_channels := js_of ''news,''\<rparr>))) = [js_of ''news'', []]"
    by (simp add: channels_or_all_def del: js_of_simps) code_simp
qed

end
