(* ===== verification/Dashboard.thy ===== *)
theory Dashboard
  imports Metrics Live_Pages
begin

text \<open>
  The dashboard of the admin console (\<open>admin/src/modules/dashboard/pages/DashboardPage.tsx\<close>) over the poll of \<open>Live_Pages\<close>: every five seconds it asks for the health of the engine
  (\<open>actions/system/getHealth.action.ts\<close>) and for its metrics.
\<close>

definition DASHBOARD_POLL_MS :: nat where "DASHBOARD_POLL_MS = 5000"

definition getHealthAction :: "'e + js_string \<Rightarrow> 'e + bool" where
  "getHealthAction response = map_sum id (\<lambda>body. body = js_of ''ok'') response"

definition getMetricsAction :: "'e + js_string \<Rightarrow> 'e + metrics_snapshot" where
  "getMetricsAction response = map_sum id parsePrometheusMetrics response"

text \<open>Both requests of a poll have settled, the rejections replaced by \<open>false\<close> and \<open>null\<close>.\<close>

definition poll_outcome :: "'e + js_string \<Rightarrow> 'e + js_string \<Rightarrow> bool \<times> metrics_snapshot option" where
  "poll_outcome health metrics =
     (case getHealthAction health of Inr h \<Rightarrow> h | Inl _ \<Rightarrow> False, case getMetricsAction metrics of Inr s \<Rightarrow> Some s | Inl _ \<Rightarrow> None)"

text \<open>\<open>db_answers\<close> is the history of what was answered, with the address it was asked from.\<close>

record dashboard =
  db_healthy :: "bool option"
  db_metrics :: "metrics_snapshot option"
  db_poll :: "js_string poll"
  db_answers :: "(js_string \<times> bool \<times> metrics_snapshot option) list"

definition dashboard_mount :: "js_string \<Rightarrow> dashboard" where
  "dashboard_mount apiUrl = \<lparr>db_healthy = None, db_metrics = None, db_poll = poll_start apiUrl (poll_init apiUrl), db_answers = []\<rparr>"

text \<open>The effect depends on the address; its cleanup also runs when the page is left.\<close>

definition dashboard_url :: "js_string \<Rightarrow> dashboard \<Rightarrow> dashboard" where
  "dashboard_url apiUrl p =
     (if po_key (db_poll p) = apiUrl \<or> \<not> po_live (db_poll p) then p else p\<lparr>db_poll := poll_start apiUrl (poll_stop (db_poll p))\<rparr>)"

definition dashboard_tick :: "dashboard \<Rightarrow> dashboard" where
  "dashboard_tick p = p\<lparr>db_poll := poll_tick (db_poll p)\<rparr>"

definition dashboard_leave :: "dashboard \<Rightarrow> dashboard" where
  "dashboard_leave p = p\<lparr>db_poll := poll_stop (db_poll p)\<rparr>"

definition dashboard_settled :: "nat \<Rightarrow> 'e + js_string \<Rightarrow> 'e + js_string \<Rightarrow> dashboard \<Rightarrow> dashboard" where
  "dashboard_settled i health metrics p =
     (if i < length (po_open (db_poll p)) then
        (let (mine, q) = poll_settle i (db_poll p); (h, s) = poll_outcome health metrics;
             p1 = p\<lparr>db_poll := q, db_answers := db_answers p @ [(snd (po_open (db_poll p) ! i), h, s)]\<rparr> in
         if mine then p1\<lparr>db_healthy := Some h, db_metrics := s\<rparr> else p1)
      else p)"

datatype 'e dashboard_op = Db_Url js_string | Db_Tick | Db_Leave | Db_Settled nat "'e + js_string" "'e + js_string"

fun dashboard_step :: "'e dashboard_op \<Rightarrow> dashboard \<Rightarrow> dashboard" where
  "dashboard_step (Db_Url apiUrl) p = dashboard_url apiUrl p"
| "dashboard_step Db_Tick p = dashboard_tick p"
| "dashboard_step Db_Leave p = dashboard_leave p"
| "dashboard_step (Db_Settled i health metrics) p = dashboard_settled i health metrics p"

section \<open>What is shown\<close>

fun js_positive :: "js_number \<Rightarrow> bool" where
  "js_positive (Fin False n _) \<longleftrightarrow> 0 < n"
| "js_positive (Infinite False) \<longleftrightarrow> True"
| "js_positive _ \<longleftrightarrow> False"

fun js_is_one :: "js_number \<Rightarrow> bool" where
  "js_is_one (Fin False n d) \<longleftrightarrow> 0 < n \<and> n = d"
| "js_is_one _ \<longleftrightarrow> False"

text \<open>The four tiles, with a dash for what is unknown, and the notice of the rate limiter; \<open>fmt\<close> prints a number.\<close>

definition stat_tile :: "(js_number \<Rightarrow> js_string) \<Rightarrow> js_number option \<Rightarrow> js_string" where
  "stat_tile fmt v = (case v of Some n \<Rightarrow> fmt n | None \<Rightarrow> [0x2014])"

definition dashboard_tiles :: "(js_number \<Rightarrow> js_string) \<Rightarrow> dashboard \<Rightarrow> js_string list" where
  "dashboard_tiles fmt p = map (\<lambda>field. stat_tile fmt (Option.bind (db_metrics p) field))
     [mx_wsConnectionsActive, mx_tcpConnectionsActive, mx_messagesTotal, mx_pushFallbackTotal]"

definition rate_limit_notice :: "(js_number \<Rightarrow> js_string) \<Rightarrow> dashboard \<Rightarrow> js_string option" where
  "rate_limit_notice fmt p =
     (case Option.bind (db_metrics p) mx_rateLimitedTotal of
        None \<Rightarrow> None
      | Some n \<Rightarrow> if js_positive n
          then Some (fmt n @ js_of '' frame'' @ (if js_is_one n then [] else js_of ''s'') @ js_of '' rejected by the rate limiter since this instance started.'')
          else None)"

definition health_badge :: "dashboard \<Rightarrow> js_string option" where
  "health_badge p = map_option (\<lambda>h. if h then js_of ''Healthy'' else js_of ''Unreachable'') (db_healthy p)"

text \<open>
  In every history the badge and the tiles belong together: either nothing has been answered, and there is neither badge nor number, or both come from one poll.
\<close>

definition dashboard_ok :: "dashboard \<Rightarrow> bool" where
  "dashboard_ok p \<longleftrightarrow> poll_ok (db_poll p) \<and>
     (case db_healthy p of None \<Rightarrow> db_metrics p = None | Some h \<Rightarrow> \<exists>k. (k, h, db_metrics p) \<in> set (db_answers p))"

lemma dashboard_ok_settled: "dashboard_ok p \<Longrightarrow> dashboard_ok (dashboard_settled i health metrics p)"
  using poll_ok_steps(5) [of "db_poll p" i]
  by (cases "db_healthy p") (auto simp: dashboard_ok_def dashboard_settled_def Let_def case_prod_beta)

lemma dashboard_ok_step: "dashboard_ok p \<Longrightarrow> dashboard_ok (dashboard_step op p)"
proof (cases op)
  case (Db_Settled i health metrics)
  moreover assume "dashboard_ok p"
  ultimately show ?thesis by (simp add: dashboard_ok_settled)
qed (auto simp: dashboard_ok_def dashboard_url_def dashboard_tick_def dashboard_leave_def poll_ok_steps split: option.splits)

theorem dashboard_of_one_poll:
  fixes ops :: "'e dashboard_op list" and apiUrl
  defines "p \<equiv> fold dashboard_step ops (dashboard_mount apiUrl)"
  shows "case db_healthy p of
      None \<Rightarrow> health_badge p = None \<and> dashboard_tiles fmt p = replicate 4 [0x2014] \<and> rate_limit_notice fmt p = None
    | Some h \<Rightarrow> \<exists>k. (k, h, db_metrics p) \<in> set (db_answers p)"
proof -
  have "dashboard_ok (fold dashboard_step ops q)" if "dashboard_ok q" for q
    using that by (induction ops arbitrary: q) (auto intro: dashboard_ok_step)
  moreover have "dashboard_ok (dashboard_mount apiUrl)" by (simp add: dashboard_ok_def dashboard_mount_def poll_ok_steps)
  ultimately have "dashboard_ok p" by (simp add: p_def)
  then show ?thesis
    by (cases "db_healthy p")
      (simp_all add: dashboard_ok_def health_badge_def dashboard_tiles_def stat_tile_def rate_limit_notice_def numeral_eq_Suc)
qed

text \<open>An answer for another address than the present one, or after the page was left, changes nothing that is shown.\<close>

theorem late_answer_ignored:
  assumes "poll_ok (db_poll p)" "i < length (po_open (db_poll p))" "snd (po_open (db_poll p) ! i) \<noteq> po_key (db_poll p) \<or> \<not> po_live (db_poll p)"
  shows "db_healthy (dashboard_settled i health metrics p) = db_healthy p \<and> db_metrics (dashboard_settled i health metrics p) = db_metrics p"
proof -
  have "\<not> fst (poll_settle i (db_poll p))" using settle_key [OF assms(1), of i] assms(3) by auto
  then show ?thesis by (simp add: dashboard_settled_def Let_def case_prod_beta)
qed

text \<open>Only the answer \<open>ok\<close> is healthy; when a request for the metrics fails, the numbers go, and do not keep an old value.\<close>

theorem dashboard_answer:
  assumes "fst (poll_settle i (db_poll p))"
  shows "db_healthy (dashboard_settled i health metrics p) = Some (health = Inr (js_of ''ok''))"
    and "db_metrics (dashboard_settled i health metrics p) = (case metrics of Inr raw \<Rightarrow> Some (parsePrometheusMetrics raw) | Inl _ \<Rightarrow> None)"
proof -
  have i: "i < length (po_open (db_poll p))" using assms by (simp add: poll_settle_def)
  show "db_healthy (dashboard_settled i health metrics p) = Some (health = Inr (js_of ''ok''))"
    using assms i by (cases health) (simp_all add: dashboard_settled_def poll_outcome_def getHealthAction_def Let_def case_prod_beta)
  show "db_metrics (dashboard_settled i health metrics p) = (case metrics of Inr raw \<Rightarrow> Some (parsePrometheusMetrics raw) | Inl _ \<Rightarrow> None)"
    using assms i by (cases metrics) (simp_all add: dashboard_settled_def poll_outcome_def getMetricsAction_def Let_def case_prod_beta)
qed

end
