(* ===== verification/Portal_Shell.thy ===== *)
theory Portal_Shell
  imports Overview Tenant_Admin
begin

text \<open>
  What surrounds the pages of both portals: the stores of preferences (\<open>store/preferences.store.ts\<close>) and the effects that apply them (\<open>providers/PreferencesProvider.tsx\<close>), the developer's
  toolbar and panel (\<open>components/layouts/DevToolbar.tsx\<close>, \<open>WorkbenchPanel.tsx\<close>, \<open>lib/resourceCounts.ts\<close>), the card of the VAPID key (\<open>components/shared/VapidKeyCard.tsx\<close>), the
  search of the admin console (\<open>components/layouts/AdminTopBar.tsx\<close>) and the routes of the tenant portal (\<open>router/index.tsx\<close>).
\<close>

section \<open>Preferences\<close>

datatype theme_mode = Theme_Light | Theme_Dark | Theme_System

record admin_preferences =
  ap_theme :: theme_mode
  ap_overlayBlur :: bool
  ap_accentColor :: js_string

definition DEFAULT_PREFERENCES :: admin_preferences where
  "DEFAULT_PREFERENCES = \<lparr>ap_theme = Theme_System, ap_overlayBlur = True, ap_accentColor = js_of ''#6366f1''\<rparr>"

datatype admin_pref_op = Set_Theme theme_mode | Set_Overlay_Blur bool | Set_Accent_Color js_string | Reset_Preferences

fun admin_pref_step :: "admin_pref_op \<Rightarrow> admin_preferences \<Rightarrow> admin_preferences" where
  "admin_pref_step (Set_Theme t) p = p\<lparr>ap_theme := t\<rparr>"
| "admin_pref_step (Set_Overlay_Blur b) p = p\<lparr>ap_overlayBlur := b\<rparr>"
| "admin_pref_step (Set_Accent_Color hex) p = p\<lparr>ap_accentColor := hex\<rparr>"
| "admin_pref_step Reset_Preferences p = DEFAULT_PREFERENCES"

datatype language = English | French

record portal_preferences =
  pp_theme :: theme_mode
  pp_language :: language

definition portal_preferences_init :: portal_preferences where
  "portal_preferences_init = \<lparr>pp_theme = Theme_System, pp_language = English\<rparr>"

datatype portal_pref_op = Set_Portal_Theme theme_mode | Set_Language language

fun portal_pref_step :: "portal_pref_op \<Rightarrow> portal_preferences \<Rightarrow> portal_preferences" where
  "portal_pref_step (Set_Portal_Theme t) p = p\<lparr>pp_theme := t\<rparr>"
| "portal_pref_step (Set_Language l) p = p\<lparr>pp_language := l\<rparr>"

section \<open>The theme of the page\<close>

text \<open>\<open>classList\<close> is an ordered set; the effect runs when the page is loaded and when the theme of the store changes.\<close>

definition class_add :: "js_string \<Rightarrow> js_string list \<Rightarrow> js_string list" where
  "class_add c cs = (if c \<in> set cs then cs else cs @ [c])"

definition class_remove :: "js_string list \<Rightarrow> js_string list \<Rightarrow> js_string list" where
  "class_remove rs cs = filter (\<lambda>c. c \<notin> set rs) cs"

definition theme_effect :: "bool \<Rightarrow> theme_mode \<Rightarrow> js_string list \<Rightarrow> js_string list" where
  "theme_effect prefersDark theme cs =
     (let root = class_remove [js_of ''light'', js_of ''dark''] cs in
      case theme of
        Theme_System \<Rightarrow> class_add (if prefersDark then js_of ''dark'' else js_of ''light'') root
      | Theme_Light \<Rightarrow> class_add (js_of ''light'') root
      | Theme_Dark \<Rightarrow> class_add (js_of ''dark'') root)"

definition toolbar_isDark :: "bool \<Rightarrow> theme_mode \<Rightarrow> bool" where
  "toolbar_isDark prefersDark theme \<longleftrightarrow> theme = Theme_Dark \<or> theme = Theme_System \<and> prefersDark"

text \<open>The page: the theme of the store, the classes of \<open><html>\<close> and what the system prefers. A store that is set to what it has does not run the effect.\<close>

record themed =
  th_theme :: theme_mode
  th_classes :: "js_string list"
  th_prefersDark :: bool

definition themed_load :: "bool \<Rightarrow> theme_mode \<Rightarrow> js_string list \<Rightarrow> themed" where
  "themed_load prefersDark theme cs = \<lparr>th_theme = theme, th_classes = theme_effect prefersDark theme cs, th_prefersDark = prefersDark\<rparr>"

definition themed_set :: "theme_mode \<Rightarrow> themed \<Rightarrow> themed" where
  "themed_set t p = (if th_theme p = t then p else p\<lparr>th_theme := t, th_classes := theme_effect (th_prefersDark p) t (th_classes p)\<rparr>)"

definition toggle_theme :: "themed \<Rightarrow> themed" where
  "toggle_theme p = themed_set (if toolbar_isDark (th_prefersDark p) (th_theme p) then Theme_Light else Theme_Dark) p"

definition system_prefers :: "bool \<Rightarrow> themed \<Rightarrow> themed" where
  "system_prefers d p = p\<lparr>th_prefersDark := d\<rparr>"

definition useIsDarkMode :: "themed \<Rightarrow> bool" where
  "useIsDarkMode p \<longleftrightarrow> js_of ''dark'' \<in> set (th_classes p)"

lemma theme_names: "js_of ''light'' \<noteq> js_of ''dark''" by simp

lemma theme_effect_classes:
  "js_of ''dark'' \<in> set (theme_effect d t cs) \<longleftrightarrow> toolbar_isDark d t" "js_of ''light'' \<in> set (theme_effect d t cs) \<longleftrightarrow> \<not> toolbar_isDark d t"
  "set (theme_effect d t cs) - {js_of ''light'', js_of ''dark''} = set cs - {js_of ''light'', js_of ''dark''}"
proof -
  have n: "set (theme_effect d t cs) = insert (if toolbar_isDark d t then b else a) (set cs - {a, b})" if "a = js_of ''light''" "b = js_of ''dark''" for a b
    unfolding theme_effect_def that [symmetric] by (cases t) (auto simp: class_add_def class_remove_def toolbar_isDark_def Let_def)
  note eq = n [OF refl refl]
  show "js_of ''dark'' \<in> set (theme_effect d t cs) \<longleftrightarrow> toolbar_isDark d t" "js_of ''light'' \<in> set (theme_effect d t cs) \<longleftrightarrow> \<not> toolbar_isDark d t"
    using theme_names theme_names [symmetric] unfolding eq by (simp_all del: js_of_simps)
  show "set (theme_effect d t cs) - {js_of ''light'', js_of ''dark''} = set cs - {js_of ''light'', js_of ''dark''}"
    unfolding eq by (cases "toolbar_isDark d t") (simp_all add: insert_Diff_if del: js_of_simps)
qed

datatype theme_op = Theme_Set theme_mode | Theme_Toggle | System_Prefers bool

fun theme_step :: "theme_op \<Rightarrow> themed \<Rightarrow> themed" where
  "theme_step (Theme_Set t) p = themed_set t p"
| "theme_step Theme_Toggle p = toggle_theme p"
| "theme_step (System_Prefers d) p = system_prefers d p"

text \<open>
  In every history exactly one of the two classes is on the page and the other classes are those it had. While the stored theme is not that of the system, the class is that of the
  theme, and a click of the toggle changes it.
\<close>

definition themed_ok :: "js_string list \<Rightarrow> themed \<Rightarrow> bool" where
  "themed_ok cs p \<longleftrightarrow> (js_of ''dark'' \<in> set (th_classes p)) \<noteq> (js_of ''light'' \<in> set (th_classes p)) \<and>
     set (th_classes p) - {js_of ''light'', js_of ''dark''} = set cs - {js_of ''light'', js_of ''dark''} \<and>
     (th_theme p \<noteq> Theme_System \<longrightarrow> useIsDarkMode p = (th_theme p = Theme_Dark))"

lemma themed_ok_set: "themed_ok cs p \<Longrightarrow> themed_ok cs (themed_set t p)"
  by (cases "th_theme p = t")
    (simp_all add: themed_ok_def themed_set_def theme_effect_classes useIsDarkMode_def toolbar_isDark_def del: js_of_simps, auto)

lemma themed_ok_history: "themed_ok cs (fold theme_step ops (themed_load d t cs))"
proof -
  have "themed_ok cs (theme_step op p)" if "themed_ok cs p" for op p
  proof (cases op)
    case (System_Prefers e)
    then show ?thesis using that by (auto simp: themed_ok_def system_prefers_def useIsDarkMode_def simp del: js_of_simps)
  qed (use that themed_ok_set in \<open>simp_all add: toggle_theme_def\<close>)
  then have "themed_ok cs (fold theme_step ops p)" if "themed_ok cs p" for p
    using that by (induction ops arbitrary: p) auto
  moreover have "themed_ok cs (themed_load d t cs)"
    by (simp add: themed_ok_def themed_load_def theme_effect_classes useIsDarkMode_def toolbar_isDark_def del: js_of_simps)
  ultimately show ?thesis by blast
qed

theorem theme_toggle_changes:
  fixes ops d t cs
  defines "p \<equiv> fold theme_step ops (themed_load d t cs)"
  shows "(js_of ''dark'' \<in> set (th_classes p)) \<noteq> (js_of ''light'' \<in> set (th_classes p))"
    and "set (th_classes p) - {js_of ''light'', js_of ''dark''} = set cs - {js_of ''light'', js_of ''dark''}"
    and "th_theme p \<noteq> Theme_System \<Longrightarrow> useIsDarkMode (toggle_theme p) = (\<not> useIsDarkMode p)"
proof -
  have ok: "themed_ok cs p" unfolding p_def by (rule themed_ok_history)
  then show "(js_of ''dark'' \<in> set (th_classes p)) \<noteq> (js_of ''light'' \<in> set (th_classes p))"
    "set (th_classes p) - {js_of ''light'', js_of ''dark''} = set cs - {js_of ''light'', js_of ''dark''}"
    by (simp_all add: themed_ok_def del: js_of_simps)
  assume "th_theme p \<noteq> Theme_System"
  moreover from this have "th_theme (toggle_theme p) \<noteq> Theme_System" "(th_theme (toggle_theme p) = Theme_Dark) = (th_theme p \<noteq> Theme_Dark)"
    by (auto simp: toggle_theme_def themed_set_def toolbar_isDark_def)
  moreover have "themed_ok cs (toggle_theme p)" unfolding toggle_theme_def by (rule themed_ok_set [OF ok])
  ultimately show "useIsDarkMode (toggle_theme p) = (\<not> useIsDarkMode p)" using ok by (simp add: themed_ok_def)
qed

text \<open>
  With the theme of the system the page does not follow a change of the system's preference, but the toggle does: after one the page stays dark, and the first click sets the theme that is already shown.
\<close>

theorem system_change_confuses_toggle:
  "let p = system_prefers (\<not> d) (themed_load d Theme_System cs) in useIsDarkMode p = d \<and> useIsDarkMode (toggle_theme p) = d"
  by (cases d) (simp_all add: system_prefers_def themed_load_def toggle_theme_def themed_set_def useIsDarkMode_def theme_effect_classes toolbar_isDark_def Let_def del: js_of_simps)

section \<open>The developer's panel\<close>

record resource_count =
  rn_label :: js_string
  rn_value :: "int option"
  rn_to :: js_string

text \<open>Each of the three requests has a value, or was rejected and counts as absent.\<close>

definition fetchWorkspaceResourceCounts :: "overview option \<Rightarrow> channel_summary list option \<Rightarrow> template list option \<Rightarrow> resource_count list" where
  "fetchWorkspaceResourceCounts ov channels templates =
     [\<lparr>rn_label = js_of ''Active sessions'', rn_value = map_option ov_active_sessions ov, rn_to = js_of ''/overview''\<rparr>,
      \<lparr>rn_label = js_of ''Channels'', rn_value = map_option (\<lambda>cs. int (length cs)) channels, rn_to = js_of ''/channels''\<rparr>,
      \<lparr>rn_label = js_of ''Templates'', rn_value = map_option (\<lambda>ts. int (length ts)) templates, rn_to = js_of ''/templates''\<rparr>]"

text \<open>The secret is \<open>None\<close> while it is loading, \<open>Some None\<close> after a failure.\<close>

record workbench =
  wb_counts :: "resource_count list option"
  wb_secretKey :: "js_string option option"

definition workbench_open :: workbench where
  "workbench_open = \<lparr>wb_counts = None, wb_secretKey = None\<rparr>"

definition counts_loaded :: "resource_count list \<Rightarrow> workbench \<Rightarrow> workbench" where
  "counts_loaded cs b = b\<lparr>wb_counts := Some cs\<rparr>"

definition secret_loaded :: "'e + js_string \<Rightarrow> workbench \<Rightarrow> workbench" where
  "secret_loaded r b = b\<lparr>wb_secretKey := Some (case r of Inr k \<Rightarrow> Some k | Inl _ \<Rightarrow> None)\<rparr>"

definition secret_text :: "workbench \<Rightarrow> js_string" where
  "secret_text b = (case wb_secretKey b of None \<Rightarrow> js_of ''Loading'' @ [0x2026] | Some None \<Rightarrow> [0x2014] | Some (Some k) \<Rightarrow> maskKey k)"

text \<open>The panel's text of a long secret has its first twelve and last four characters only, although the button beside it copies all of it.\<close>

theorem workbench_masks_secret:
  assumes "16 < length k" "length k' > 16" "take 12 k = take 12 k'" "drop (length k - 4) k = drop (length k' - 4) k'"
  shows "secret_text (secret_loaded (Inr k) b) = secret_text (secret_loaded (Inr k') b')"
  using assms by (simp add: secret_text_def secret_loaded_def maskKey_def js_slice_def)

record dev_toolbar =
  dt_workbenchOpen :: bool
  dt_checking :: bool
  dt_results :: "bool list"

definition toggle_workbench :: "dev_toolbar \<Rightarrow> dev_toolbar" where
  "toggle_workbench s = s\<lparr>dt_workbenchOpen := \<not> dt_workbenchOpen s\<rparr>"

definition checkConnection :: "dev_toolbar \<Rightarrow> bool \<times> dev_toolbar" where
  "checkConnection s = (if dt_checking s then (False, s) else (True, s\<lparr>dt_checking := True\<rparr>))"

definition connection_checked :: "bool \<Rightarrow> dev_toolbar \<Rightarrow> dev_toolbar" where
  "connection_checked success s = s\<lparr>dt_results := dt_results s @ [success], dt_checking := False\<rparr>"

section \<open>The card of the VAPID key\<close>

record vapid_key_card =
  vk_vapidKey :: "js_string option"
  vk_loaded :: bool

definition vapid_card_init :: vapid_key_card where
  "vapid_card_init = \<lparr>vk_vapidKey = None, vk_loaded = False\<rparr>"

definition vapid_card_settled :: "'e + js_string option \<Rightarrow> vapid_key_card \<Rightarrow> vapid_key_card" where
  "vapid_card_settled r c = c\<lparr>vk_vapidKey := (case r of Inr k \<Rightarrow> k | Inl _ \<Rightarrow> None), vk_loaded := True\<rparr>"

datatype vapid_card_view = Card_Hidden | Card_Loading | Card_Key js_string

definition vapid_card_shown :: "vapid_key_card \<Rightarrow> vapid_card_view" where
  "vapid_card_shown c =
     (let key = or_default (vk_vapidKey c) [] in if vk_loaded c \<and> key = [] then Card_Hidden else if key \<noteq> [] then Card_Key key else Card_Loading)"

section \<open>The search of the console\<close>

definition search_matches :: "(js_string \<Rightarrow> js_string) \<Rightarrow> js_string \<Rightarrow> known_tenant list \<Rightarrow> known_tenant list" where
  "search_matches lower query tenants =
     (let q = lower (js_trim query) in
      if q = [] then [] else filter (\<lambda>t. js_includes (lower (kt_label t)) q \<or> js_includes (kt_tenantId t) q) tenants)"

record top_bar =
  tp_query :: js_string
  tp_open :: bool

definition top_bar_focus :: "top_bar \<Rightarrow> top_bar" where
  "top_bar_focus s = s\<lparr>tp_open := True\<rparr>"

definition top_bar_type :: "js_string \<Rightarrow> top_bar \<Rightarrow> top_bar" where
  "top_bar_type v s = s\<lparr>tp_query := v, tp_open := True\<rparr>"

definition top_bar_outside :: "top_bar \<Rightarrow> top_bar" where
  "top_bar_outside s = (if tp_open s then s\<lparr>tp_open := False\<rparr> else s)"

definition top_bar_pick :: "top_bar \<Rightarrow> top_bar" where
  "top_bar_pick s = s\<lparr>tp_open := False, tp_query := []\<rparr>"

text \<open>\<open>None\<close>: no list; otherwise the first eight matches.\<close>

definition top_bar_list :: "(js_string \<Rightarrow> js_string) \<Rightarrow> known_tenant list \<Rightarrow> top_bar \<Rightarrow> known_tenant list option" where
  "top_bar_list lower tenants s =
     (if tp_open s \<and> lower (js_trim (tp_query s)) \<noteq> [] then Some (take 8 (search_matches lower (tp_query s) tenants)) else None)"

text \<open>A tenant is found by its whole label, in any case; by its identifier only if the identifier has no capitals, for only the query is lower-cased.\<close>

theorem search_by_label:
  assumes "t \<in> set tenants" "js_trim (kt_label t) = kt_label t" "lower (kt_label t) \<noteq> []"
  shows "t \<in> set (search_matches lower (kt_label t) tenants)"
  using assms by (simp add: search_matches_def js_includes_def Let_def)

theorem capital_id_not_found:
  assumes "u \<in> set (lower (js_trim (kt_tenantId t)))" "u \<notin> set (kt_tenantId t)" "kt_label t = []" "lower [] = []"
  shows "t \<notin> set (search_matches lower (kt_tenantId t) tenants)"
  using assms by (auto simp: search_matches_def js_includes_def Let_def dest: set_mono_sublist)

section \<open>The routes of the tenant portal\<close>

datatype portal_page = Portal_Root | Register_Page | Join_Page | Portal_Login_Page | Docs_Page | App_Page js_string | Portal_Other

definition app_paths :: "js_string list" where
  "app_paths = map js_of [''/overview'', ''/channels'', ''/broadcasting'', ''/templates'', ''/keys'', ''/devices'', ''/embed'', ''/billing'', ''/subscriptions'', ''/checkout'', ''/reports'',
     ''/settings'']"

text \<open>The table of routes for an address without a trailing slash; React Router's matching of other spellings is outside.\<close>

definition portal_match :: "js_string \<Rightarrow> portal_page" where
  "portal_match path =
     (if path = js_of ''/'' then Portal_Root
      else if path = js_of ''/register'' then Register_Page
      else if path = js_of ''/join'' then Join_Page
      else if path = js_of ''/login'' then Portal_Login_Page
      else if path = js_of ''/docs'' then Docs_Page
      else if path \<in> set app_paths then App_Page path
      else Portal_Other)"

text \<open>The address to which a page redirects, if it does.\<close>

definition portal_redirect :: "bool \<Rightarrow> portal_page \<Rightarrow> js_string option" where
  "portal_redirect isAuthenticated page =
     (case page of
        Portal_Root \<Rightarrow> Some (js_of ''/overview'')
      | Portal_Other \<Rightarrow> Some (js_of ''/'')
      | App_Page _ \<Rightarrow> if \<not> isAuthenticated then Some (js_of ''/login'') else None
      | _ \<Rightarrow> None)"

text \<open>Redirections are followed; there are at most three in a row.\<close>

fun portal_follow :: "nat \<Rightarrow> bool \<Rightarrow> js_string \<Rightarrow> js_string option" where
  "portal_follow 0 auth path = None"
| "portal_follow (Suc n) auth path =
     (case portal_redirect auth (portal_match path) of None \<Rightarrow> Some path | Some path' \<Rightarrow> portal_follow n auth path')"

lemma portal_match_paths:
  "portal_match (js_of ''/'') = Portal_Root" "portal_match (js_of ''/login'') = Portal_Login_Page" "portal_match (js_of ''/overview'') = App_Page (js_of ''/overview'')"
  by code_simp+

text \<open>
  Every address leads to a page, without a loop: a page of the application is shown only with a session; without one it leads to the login page; an unknown address leads to the overview or to the login page.
\<close>

theorem portal_arrives:
  "portal_follow 4 auth path = Some
     (case portal_match path of
        App_Page _ \<Rightarrow> if auth then path else js_of ''/login''
      | Portal_Root \<Rightarrow> if auth then js_of ''/overview'' else js_of ''/login''
      | Portal_Other \<Rightarrow> if auth then js_of ''/overview'' else js_of ''/login''
      | _ \<Rightarrow> path)"
  by (cases "portal_match path"; cases auth) (simp_all add: numeral_eq_Suc portal_redirect_def portal_match_paths del: js_of_simps)

end
