(* ===== verification/Spec2Isabelle.thy ===== *)
theory Spec2Isabelle
  imports Reconnection Mio_Notifications Web_Stores Service_Worker React_SDK Data_Table Push_Actions React_Push Broadcasting Template_Editor Notification_Bell Embed_Generator Sandbox_Session Metrics Dialogs Portal_Tools Assistant_Window Overview Portal_Auth Settings Tenant_Admin Chat_Page Table_Pages Console_Access App_Update Embed_Page Dashboard Portal_Shell
begin

text \<open>
  A model of the client side of the real-time platform: the TypeScript SDK, the small JavaScript client and scripts that mirror it, the React bindings, the
  stores of the chat application, the service workers, and the shared logic of the tenant portal and the admin console.

  \<^bold>\<open>The program.\<close> Clients exchange messages over channels through a WebSocket server. Every message
  travels in frames of 256 bytes (\<open>src/sdk-typescript/src/protocol.ts\<close>); a longer payload is split
  into chunks with a text header (\<open>chunking.ts\<close>) that the receiver puts together again. \<open>RealtimeClient\<close>
  (\<open>client.ts\<close>) owns the socket: it authenticates, replays subscriptions, queues early sends, keeps
  a heartbeat, reconnects with exponential backoff and hands incoming messages to handlers by channel or glob
  pattern; \<open>TypedEmitter\<close> (\<open>event-emitter.ts\<close>) carries its life-cycle events, \<open>ChannelHandle\<close> (\<open>channel.ts\<close>) named events over a channel, and \<open>notifications.ts\<close> native
  notifications, Web Push and a permission popup. Sites without a build step use ports of these in plain JavaScript (\<open>src/sdk-wordpress/assets/js\<close>, \<open>src/vanilla-client/assets/mio-embed.js\<close>).
  React applications use \<open>src/sdk-react\<close> and \<open>src/sdk-react-native\<close>. The chat application \<open>src/web-client\<close> keeps its state in three stores over one client. The portals (\<open>src/tenant-portal\<close>,
  \<open>src/admin\<close>) talk to the server over HTTP, with a session token, and show their lists in one table component.

  \<^bold>\<open>The theories of the runtime.\<close>
  \<^item> \<open>JS_Prelude\<close>: strings as lists of 16-bit code units, \<open>Map\<close> and \<open>Set\<close> in insertion order, and the
    locales of the interfaces: \<open>js_map\<close>, \<open>codec\<close>, \<open>guarded_machine\<close> (a state with operations that keep
    an invariant) and \<open>transition_system\<close> (a step relation with its reachable states). Each
    is interpreted on definitions of the model.
  \<^item> \<open>JS_Text\<close>: \<open>TextEncoder\<close> and \<open>TextDecoder\<close> (UTF-16 to UTF-8 and back, with replacement characters and
    the byte-order mark). \<open>JS_Number\<close>: \<open>Number(s)\<close> with binary64 rounding, and decimal output. \<open>JS_Object\<close>: plain objects used as maps, with what they
    inherit. \<open>JSON\<close>: \<open>JSON.stringify\<close> and \<open>JSON.parse\<close>. \<open>Base64\<close>: \<open>btoa\<close>, \<open>atob\<close> and base64url. \<open>HTTP\<close>: requests and responses of \<open>fetch\<close>.

  \<^bold>\<open>The theories of the SDK.\<close>
  \<^item> \<open>Crc16\<close>: the checksum loop, its 16-bit register reference, and the detection of bursts.
  \<^item> \<open>Protocol\<close>: all of \<open>protocol.ts\<close>. Round trip, exact acceptance condition, error detection, truncation
    at code points, UUID text, globs as a language.
  \<^item> \<open>Chunking\<close>: \<open>encodeChunks\<close> and \<open>parseChunk\<close>. The binary search and both loops terminate (measures); pieces
    are maximal; chunks fit a frame; the only error below 649,935 bytes is the size error.
  \<^item> \<open>Reassembly\<close>: \<open>ChunkReassembler\<close>. Order and interleaving do not matter; its invariant.
  \<^item> \<open>Event_Emitter\<close>: \<open>TypedEmitter\<close>.
  \<^item> \<open>Realtime_Client\<close>: the class \<open>RealtimeClient\<close> as a record, one operation per method and per
    callback, and the step relation \<open>client_step\<close> whose inputs are the calls of the application and the events of the
    runtime. \<open>Client_Properties\<close>: the invariants, by rule induction. \<open>Client_Behaviour\<close>: what
    an application may rely on, and a history in which a late close of an old socket detaches the client. \<open>Reconnection\<close>: after a lost connection the client recovers.
  \<^item> \<open>Channel\<close>: \<open>ChannelHandle\<close> over the locale \<open>channel_transport\<close>, which the client is shown to provide, and \<open>publishTemplate\<close>.
  \<^item> \<open>Notifications\<close>: background notifications and Web Push as sequences of calls with a result. \<open>Popup\<close>: the permission popup, its element tree and its machine.
  \<^item> This theory: a long message, cut characters included, from one client's \<open>encodeChunks\<close> to another's \<open>message\<close> event.

  \<^bold>\<open>The theories of the ports.\<close>
  \<^item> \<open>Mio_Protocol\<close>: \<open>mio-protocol.js\<close>, equal to \<open>Protocol\<close> on every input. \<open>Mio_Client\<close>: \<open>mio-client.js\<close>; \<open>Mio_Refinement\<close>: a simulation by the SDK's client, of frames, events and handler calls;
    \<open>Mio_Feed\<close>: the embedded feed and the WordPress shortcode, and the properties of the small client; \<open>Mio_Notifications\<close>: its notifications. \<open>mio-embed.js\<close> repeats protocol and client
    inline, so it shares these models.
  \<^item> \<open>Vapid\<close> and \<open>Vapid_Popup\<close>: \<open>mio-vapid-subscription.js\<close> makes the calls and shows the popup of the SDK where the browser supports Web Push, and how it differs elsewhere.

  \<^bold>\<open>The theories of the applications.\<close>
  \<^item> \<open>React_SDK\<close>: provider and hooks as effects with cleanups, also those of React Native.
  \<^item> \<open>Web_Chat\<close>: the chat envelope and the notification store; \<open>Web_Stores\<close>: the connection and chat stores with the hooks over them.
  \<^item> \<open>Service_Worker\<close>: the handlers and the life cycle of both workers, and the offline shell.
  \<^item> \<open>Data_Table\<close>: loading, filtering, stable sorting, paging, selection and CSV export of the table.
  \<^item> \<open>Console\<close>: HTTP envelopes, sessions, known tenants, minted tokens and how the portal reads a token.
  \<^item> \<open>Push_Actions\<close>: the push actions of the web client and of the portal against the SDK functions, and the button of the web client.
  \<^item> \<open>React_Push\<close>: the ready-made push components of the React SDK; the popup as a refinement of the SDK popup.
  \<^item> \<open>Broadcasting\<close>: template variables, reach preview and composer of the portal's broadcasting page. \<open>Template_Editor\<close>: stored text and editor HTML, there and back.
    \<open>Notification_Bell\<close>: the notification feed, its badge, and the service worker that the portal generates. \<open>Embed_Generator\<close>: the HTML that the portal generates, read as a browser reads it, run by the model of \<open>Vapid\<close>.
  \<^item> \<open>Sandbox_Session\<close>: the console page that joins a live session with a client of its own. \<open>Metrics\<close>: the reader of the server's metrics. \<open>Dialogs\<close>: the stack of dialogs and the confirmation
    dialog as a step relation. \<open>Portal_Tools\<close>: helpers of the portal and its recommendations. \<open>Assistant_Window\<close>: the assistant of the React SDK, its state and its element tree.
  \<^item> \<open>URL_Query\<close>: \<open>URLSearchParams\<close>, written and read. \<open>Live_Pages\<close>: a poll that can be cancelled, the console's list of live sessions over it, and the address of a session. \<open>Overview\<close>: the overview of the
    portal with its history, bars and setup guide. \<open>Portal_Auth\<close>: the forms to sign in and the change of the password. \<open>Settings\<close>: the tabs of the portal's settings and the display
    preferences. \<open>Tenant_Admin\<close>: the console's list of tenants as a refinement of a ledger of what the server acknowledged.
  \<^item> \<open>Chat_Page\<close>: the pages of the chat application over its stores; a message that the composer lets through arrives whole. \<open>Key_Pages\<close>: the portal's page of API keys with its requests and
    the server's list as a step relation; when the table lists what the server has. \<open>Table_Pages\<close>: the pages of the devices and the channels. \<open>Console_Access\<close>: routes and guard of the admin
    console, the way through the login form, and the logout for inactivity.
  \<^item> \<open>App_Update\<close>: how open pages learn of a new version, as a step relation of pages and workers over the handlers of \<open>Service_Worker\<close>: no reload without a click, and no version missed but
    for one race. \<open>Embed_Page\<close>: the page around \<open>Embed_Generator\<close>, its React code, how JavaScript reads the channels in it, and the card that mints a token. \<open>Dashboard\<close>: the console's dashboard.
    \<open>Portal_Shell\<close>: preferences and theme, the developer's panel, the console's search and the routes of the tenant portal.

  \<^bold>\<open>Conventions.\<close> A method that throws returns its error as a value; \<open>Math.random\<close>, \<open>Date.now\<close>, the results of
  \<open>getToken\<close>, of the network and of the browser, and the events of sockets and timers are arguments. Loops are structural or have a termination proof; only \<open>JSON.parse\<close> takes fuel, twice the length of
  its text and two, which \<open>parse_fuel_enough\<close> shows to be enough. Delays are exact rationals, where the code rounds to binary64. The printing of numbers, lower-casing and \<open>localeCompare\<close> are arguments.

  \<^bold>\<open>Not modelled.\<close> Application callbacks that call the client again while it runs them; rendering, styling and memoisation by React, the markup of the pages and the translations; the persistence of
  the stores; the adapters for Firebase and PubNub, which only throw; actions that forward one request; the server. The classes \<open>URL\<close> and \<open>DOMParser\<close> and
  the matching of paths by React Router are arguments.
\<close>

section \<open>A long message end to end\<close>

text \<open>The messages announced by a log, as channel and payload.\<close>

definition received :: "effect list \<Rightarrow> (js_string \<times> js_string) list" where
  "received es = concat (map (\<lambda>e. case e of
     Emitted (Received m) _ \<Rightarrow> [(rm_channelId m, rm_payload m)] | _ \<Rightarrow> []) es)"

lemma received_append [simp]: "received (xs @ ys) = received xs @ received ys"
  by (simp add: received_def)

lemma received_handled [simp]: "received (map (\<lambda>h. Handled h m) hs) = []"
  by (induction hs) (simp_all add: received_def)

lemma received_simps [simp]:
  "received [] = []"
  "received (Emitted (Received m) ls # es) = (rm_channelId m, rm_payload m) # received es"
  by (simp_all add: received_def)

lemma dispatch_chunk:
  assumes "parseChunk (df_payload f) = Some h"
  shows "rc_reassembler (dispatch n1 n2 n3 f c) = fst (feed n1 n2 h (rc_reassembler c))"
    "received (rc_log (dispatch n1 n2 n3 f c)) = received (rc_log c) @
       (case snd (feed n1 n2 h (rc_reassembler c)) of None \<Rightarrow> [] | Some p \<Rightarrow> [(df_channelId f, p)])"
  using assms by (simp_all add: dispatch_def Let_def emit_def split: prod.split option.split)

text \<open>Frames arriving one after the other, each with the three clock readings of its handler.\<close>

definition receive_all :: "(int \<times> int \<times> int \<times> bytes) list \<Rightarrow> client \<Rightarrow> client" where
  "receive_all arrivals c = fold (\<lambda>(n1, n2, n3, raw). onmessage n1 n2 n3 (Array_Buffer raw)) arrivals c"

lemma receive_all_Cons:
  "receive_all ((n1, n2, n3, raw) # rest) c = receive_all rest (onmessage n1 n2 n3 (Array_Buffer raw) c)"
  by (simp add: receive_all_def)

lemma receive_all_chunks:
  assumes "\<And>n1 n2 n3 raw h. (n1, n2, n3, raw, h) \<in> set as \<Longrightarrow>
      \<exists>f. decodeFrame raw = Inr f \<and> df_channelId f = ch \<and> parseChunk (df_payload f) = Some h"
  shows "received (rc_log (receive_all (map (\<lambda>(n1, n2, n3, raw, h). (n1, n2, n3, raw)) as) c)) = received (rc_log c) @
    concat (map (\<lambda>r. case r of None \<Rightarrow> [] | Some p \<Rightarrow> [(ch, p)])
      (feed_all (map (\<lambda>(n1, n2, n3, raw, h). (n1, n2, h)) as) (rc_reassembler c)))"
  using assms
proof (induction as arbitrary: c)
  case (Cons a as)
  obtain n1 n2 n3 raw h where a: "a = (n1, n2, n3, raw, h)" by (cases a)
  obtain f where f: "decodeFrame raw = Inr f" "df_channelId f = ch" "parseChunk (df_payload f) = Some h"
    using Cons.prems [of n1 n2 n3 raw h] a by auto
  have IH: "received (rc_log (receive_all (map (\<lambda>(n1, n2, n3, raw, h). (n1, n2, n3, raw)) as) d)) = received (rc_log d) @
    concat (map (\<lambda>r. case r of None \<Rightarrow> [] | Some p \<Rightarrow> [(ch, p)])
      (feed_all (map (\<lambda>(n1, n2, n3, raw, h). (n1, n2, h)) as) (rc_reassembler d)))" for d
    by (rule Cons.IH, rule Cons.prems) auto
  have step: "onmessage n1 n2 n3 (Array_Buffer raw) c = dispatch n1 n2 n3 f c" by (simp add: onmessage_def f)
  obtain st out where fd: "feed n1 n2 h (rc_reassembler c) = (st, out)" by fastforce
  show ?case
    using IH [of "dispatch n1 n2 n3 f c"] dispatch_chunk [OF f(3), of n1 n2 n3 c]
    by (cases out) (simp_all add: a receive_all_Cons step fd f(2))
qed (simp add: receive_all_def)

text \<open>
  What a text field gives back of a text that is not too long: it ends before the first NUL, and a surrogate without its partner comes back as U+FFFD.
\<close>

definition wire_text :: "js_string \<Rightarrow> js_string" where
  "wire_text s = of_scalars (to_scalars (takeWhile (\<lambda>u. u \<noteq> 0) s))"

lemma text_encode_nul: "text_encode (0 # s) = 0 # text_encode s"
proof -
  have "\<not> cuts_pair [0] s" by (simp add: cuts_pair_def is_high_def)
  moreover have "text_encode [0] = [0]" by code_simp
  ultimately show ?thesis using text_encode_append [of "[0]" s] by simp
qed

lemma readTrimmed_written:
  assumes "length (text_encode s) \<le> n" "no_bom s"
  shows "readTrimmed (writePadded n s) = wire_text s"
proof -
  let ?a = "takeWhile (\<lambda>u. u \<noteq> 0) s"
  have nz: "0 \<notin> set (text_encode ?a)" by (rule text_encode_no_zero) (auto dest: set_takeWhileD)
  have "no_bom ?a" using assms(2) by (cases s) (auto simp: no_bom_def)
  then have dec: "text_decode (text_encode ?a) = wire_text s" by (simp add: text_decode_def utf8_decode_encode strip_bom_id wire_text_def)
  have "\<exists>z. writePadded n s = text_encode ?a @ z \<and> (z = [] \<or> hd z = 0)"
  proof (cases "0 \<in> set s")
    case True
    then obtain a b where s: "s = a @ 0 # b" "0 \<notin> set a" by (metis split_list_first)
    then have "?a = a" by (subst s(1), subst takeWhile_append2) auto
    then have b: "s = ?a @ 0 # b" using s(1) by simp
    have "\<not> cuts_pair ?a (0 # b)" by (simp add: cuts_pair_def is_low_def)
    then have "text_encode s = text_encode ?a @ 0 # text_encode b" using b text_encode_append [of ?a "0 # b"] text_encode_nul by metis
    then show ?thesis using assms(1) by (simp add: writePadded_fits)
  next
    case False
    then have t: "?a = s" unfolding takeWhile_eq_all_conv by blast
    show ?thesis unfolding t writePadded_fits [OF assms(1)]
      by (rule exI [of _ "replicate (n - length (text_encode s)) 0"]) (cases "n - length (text_encode s)"; simp)
  qed
  then obtain z where z: "writePadded n s = text_encode ?a @ z" "z = [] \<or> hd z = 0" by blast
  then show ?thesis using nz dec index_of_None [of 0 "text_encode ?a"] by (cases z) (auto simp: readTrimmed_def)
qed

lemma wire_text_head:
  assumes "\<And>u. u \<in> set h \<Longrightarrow> unat u < 0x80" "0 \<notin> set h"
  shows "wire_text (h @ p) = h @ wire_text p"
proof -
  have w: "well_formed h" by (rule bmp_only_well_formed, rule ascii_bmp_only, rule assms(1))
  have "takeWhile (\<lambda>u. u \<noteq> 0) (h @ p) = h @ takeWhile (\<lambda>u. u \<noteq> 0) p"
    using assms(2) by (intro takeWhile_append2) auto
  then show ?thesis using to_scalars_append [OF well_formed_no_cut [OF w]] of_scalars_to_scalars [OF w]
    by (simp add: wire_text_def of_scalars_def)
qed

lemma wire_text_id: "0 \<notin> set s \<Longrightarrow> well_formed s \<Longrightarrow> wire_text s = s"
proof -
  assume s: "0 \<notin> set s" "well_formed s"
  then have t: "takeWhile (\<lambda>u. u \<noteq> 0) s = s" unfolding takeWhile_eq_all_conv by blast
  show ?thesis using of_scalars_to_scalars [OF s(2)] by (simp only: wire_text_def t)
qed

text \<open>A chunk that went through a frame.\<close>

lemma bmp_only_subset: "bmp_only s \<Longrightarrow> set t \<subseteq> set s \<Longrightarrow> bmp_only t"
  by (auto simp: bmp_only_def)

definition chunk_frame :: "opcode \<Rightarrow> js_string \<Rightarrow> js_string \<Rightarrow> js_string \<Rightarrow> bytes" where
  "chunk_frame q tenant ch chunk = projr (encodeFrame
     \<lparr>ff_opcode = q, ff_tenantId = tenant, ff_channelId = Some ch, ff_payload = Some chunk\<rparr>)"

lemma chunk_frame_decodes:
  assumes "UUID_RE tenant" "fits LEN_CHANNEL ch" "length (text_encode chunk) \<le> LEN_PAYLOAD" "no_bom chunk"
  shows "\<exists>f. decodeFrame (chunk_frame q tenant ch chunk) = Inr f \<and> df_channelId f = ch \<and> df_payload f = wire_text chunk"
proof -
  let ?ff = "\<lparr>ff_opcode = q, ff_tenantId = tenant, ff_channelId = Some ch, ff_payload = Some chunk\<rparr>"
  have "\<exists>buf. encodeFrame ?ff = Inr buf" using assms(1) by (simp add: encodeFrame_total)
  then obtain buf where buf: "encodeFrame ?ff = Inr buf" ..
  then obtain t where t: "uuidToBytes (ff_tenantId ?ff) = Inr t" by (rule encodeFrame_Inr)
  then have len: "length t = 16" by (rule length_uuidToBytes)
  have "buf = frame_head q t ch chunk @ [hi_byte (reg 0xFFFF (frame_head q t ch chunk)), lo_byte (reg 0xFFFF (frame_head q t ch chunk))]"
    using encodeFrame_layout [OF t] buf by (simp add: or_empty_def)
  then show ?thesis using decodeFrame_head [OF len, of q ch chunk] buf assms(2-4)
    by (simp add: chunk_frame_def readTrimmed_writePadded readTrimmed_written LEN_CHANNEL_def LEN_PAYLOAD_def)
qed

text \<open>The receiver recognises it as the chunk it was, with what the field gives back of its piece.\<close>

lemma chunk_arrives:
  assumes "random_unit rnd" "encodeChunks rnd payload mx = Inr chunks" "LEN_PAYLOAD < utf8ByteLength payload"
    and "i < length chunks" "UUID_RE tenant" "fits LEN_CHANNEL ch"
  shows "\<exists>f. decodeFrame (chunk_frame q tenant ch (chunks ! i)) = Inr f \<and> df_channelId f = ch \<and>
    parseChunk (df_payload f) = Some (chunk_of (randomMsgId rnd) (map wire_text (splitByByteBudget payload DATA_BUDGET_PER_CHUNK)) i)"
  using assms(2)
proof (cases rule: encodeChunks_cases)
  case (split pieces)
  let ?h = "chunk_head (randomMsgId rnd) i (length pieces)"
  have i: "i < length pieces" "length pieces < 2 ^ 53" using assms(4) split by (simp_all add: chunk_consts)
  have c: "chunks ! i = ?h @ pieces ! i" using assms(4) split by (simp add: chunk_text_head)
  have ascii: "\<And>u. u \<in> set ?h \<Longrightarrow> unat u < 0x80" by (rule chunk_head_ascii [OF assms(1)])
  moreover have "0 \<notin> set ?h"
    using randomMsgId_chars [OF assms(1)] MSG_ID_CHARS_range [of 0] js_of_nat_digits [of 0]
    by (auto simp: chunk_head_def CHUNK_MARKER_def colon_def is_digit_def)
  ultimately have w: "wire_text (chunks ! i) = chunk_text (randomMsgId rnd) i (length pieces) (wire_text (pieces ! i))"
    by (simp add: c wire_text_head chunk_text_head)
  have "no_bom (chunks ! i)" by (simp add: c chunk_head_def no_bom_def CHUNK_MARKER_def)
  moreover have "length (text_encode (chunks ! i)) \<le> LEN_PAYLOAD"
    using chunk_within_frame [OF assms(1,2), of "chunks ! i"] assms(3,4) by (simp add: utf8ByteLength_def)
  ultimately obtain f where "decodeFrame (chunk_frame q tenant ch (chunks ! i)) = Inr f" "df_channelId f = ch" "df_payload f = wire_text (chunks ! i)"
    using chunk_frame_decodes [OF assms(5,6), of "chunks ! i" q] by blast
  then show ?thesis using parse_chunk_text [of "randomMsgId rnd" i "length pieces" "wire_text (pieces ! i)"] i split(3)
    by (auto simp: w chunk_of_def)
qed (use assms(3) in simp)

lemma length_feed_all: "length (feed_all calls st) = length calls"
  by (induction calls st rule: feed_all.induct) (simp_all split: prod.split)

lemma results_for_all:
  assumes "\<forall>(n1, n2, h) \<in> set calls. ch_msgId h = m"
  shows "results_for m calls st = feed_all calls st"
proof -
  have "filter (\<lambda>((_, _, h), _). ch_msgId h = m) (zip calls (feed_all calls st)) = zip calls (feed_all calls st)"
    using assms by (intro filter_True) (auto dest: set_zip_leftD)
  then show ?thesis by (simp add: results_for_def length_feed_all)
qed

lemma pieces_well_formed: "bmp_only payload \<Longrightarrow> p \<in> set (splitByByteBudget payload budget) \<Longrightarrow> well_formed p"
  using split_units [of p payload budget] bmp_only_well_formed bmp_only_subset by blast

lemma pieces_whole:
  assumes "0 \<notin> set payload" "\<forall>p \<in> set (splitByByteBudget payload budget). well_formed p"
  shows "concat (map wire_text (splitByByteBudget payload budget)) = payload"
proof -
  have "map wire_text (splitByByteBudget payload budget) = splitByByteBudget payload budget"
    using assms split_units [of _ payload budget] by (intro map_idI wire_text_id) auto
  then show ?thesis by (simp add: concat_split)
qed

text \<open>
  C5. A message too long for one frame arrives as one message: the frames of its chunks, received by another client in any order, each once, within 30 seconds of one another, while it is not
  assembling another message with the same random id, are decoded, recognised as chunks and reassembled, and that client announces exactly one message, on the same channel. Its payload is that of the
  sender if no piece of the splitting has half a surrogate pair and there is no NUL: so for every text within the Basic Multilingual Plane, and for others unless a pair is cut at the end of a chunk.
  In general it is what the fields of the frames give back of the pieces: each piece up to its first NUL, with U+FFFD for each half of a cut pair. (The channel has to fit its
  field, the tenant id to be well formed, and \<open>encodeChunks\<close> must not have rejected the message for its length.)
\<close>

theorem long_message_delivered:
  assumes rnd: "random_unit rnd" and enc: "encodeChunks rnd payload mx = Inr chunks"
    and long: "LEN_PAYLOAD < utf8ByteLength payload"
    and addr: "UUID_RE tenant" "fits LEN_CHANNEL ch"
    and order: "distinct order" "set order = {..<length chunks}"
    and clock: "\<And>i. t0 \<le> n2 i \<and> n1 i \<le> t0 + 30000"
    and client: "reassembler_ok (rc_reassembler c)" "jget (rc_reassembler c) (randomMsgId rnd) = None"
  shows "let pieces = splitByByteBudget payload DATA_BUDGET_PER_CHUNK; delivered = concat (map wire_text pieces) in
    received (rc_log (receive_all (map (\<lambda>i. (n1 i, n2 i, n3 i, chunk_frame q tenant ch (chunks ! i))) order) c)) =
      received (rc_log c) @ [(ch, delivered)] \<and>
    (0 \<notin> set payload \<and> (bmp_only payload \<or> (\<forall>p \<in> set pieces. well_formed p)) \<longrightarrow> delivered = payload)"
proof -
  let ?m = "randomMsgId rnd" and ?split = "splitByByteBudget payload DATA_BUDGET_PER_CHUNK"
  define pieces where "pieces = map wire_text ?split"
  have len: "length pieces = length chunks" using enc long by (cases rule: encodeChunks_cases) (simp_all add: pieces_def)
  let ?as = "map (\<lambda>i. (n1 i, n2 i, n3 i, chunk_frame q tenant ch (chunks ! i), chunk_of ?m pieces i)) order"
  let ?calls = "map (\<lambda>i. (n1 i, n2 i, chunk_of ?m pieces i)) order"
  have "payload \<noteq> []" using long by auto
  then have "?split \<noteq> []" using concat_split [of payload DATA_BUDGET_PER_CHUNK] by fastforce
  then have "0 \<in> set order" using len by (simp add: order(2) pieces_def flip: length_greater_0_conv)
  then have "order \<noteq> []" by (metis empty_iff list.set(1))
  then obtain js i where js: "order = js @ [i]" by (metis rev_exhaust)
  have "results_for ?m ?calls (rc_reassembler c) = replicate (length js) None @ [Some (concat pieces)]"
  proof (rule reassembly_from [where got = "{}"])
    show "holds_parts ((!) pieces) (length pieces) t0 {} (jget (rc_reassembler c) ?m)"
      using client(2) by (simp add: holds_parts_def)
    show "within_ttl t0 ?calls" using clock by (auto simp: within_ttl_def REASSEMBLY_TTL_MS_def)
    show "headers_for ?m ?calls = map (chunk_of ?m pieces) (js @ [i])"
      by (simp add: headers_for_def js comp_def chunk_of_def)
  qed (use client(1) order js len in auto)
  then have fed: "feed_all ?calls (rc_reassembler c) = replicate (length js) None @ [Some (concat pieces)]"
    using results_for_all [of ?calls ?m] by (auto simp: chunk_of_def)
  have "\<exists>f. decodeFrame raw = Inr f \<and> df_channelId f = ch \<and> parseChunk (df_payload f) = Some h"
    if arr: "(a, b, d, raw, h) \<in> set ?as" for a b d raw h
    using arr order(2) chunk_arrives [OF rnd enc long _ addr] by (auto simp: pieces_def)
  from receive_all_chunks [of ?as ch c, OF this] fed
  have "received (rc_log (receive_all (map (\<lambda>i. (n1 i, n2 i, n3 i, chunk_frame q tenant ch (chunks ! i))) order) c)) =
      received (rc_log c) @ [(ch, concat pieces)]" by (simp add: comp_def)
  then show ?thesis using pieces_whole [of payload] pieces_well_formed [of payload] unfolding Let_def pieces_def by blast
qed

theorem long_message_delivered_witness:
  "\<exists>chunks. encodeChunks (\<lambda>_. 0) (replicate 300 97) 1000 = Inr chunks \<and>
     received (rc_log (receive_all (map (\<lambda>i. (5, 5, 5, chunk_frame Message
       (js_of ''00000000-0000-0000-0000-00000000000A'') (js_of ''c'') (chunks ! i))) [1, 0]) (new_client sample_config))) =
     [(js_of ''c'', replicate 300 97)]"
proof -
  obtain chunks where c: "encodeChunks (\<lambda>_. 0) (replicate 300 97) 1000 = Inr chunks" "length chunks = 2"
    by (rule encodeChunks_sample)
  have rnd: "random_unit (\<lambda>_. 0)" by (simp add: random_unit_def)
  have long: "LEN_PAYLOAD < utf8ByteLength (replicate 300 97)" by (simp add: LEN_PAYLOAD_def utf8ByteLength_replicate)
  have plain: "bmp_only (replicate 300 97)" "0 \<notin> set (replicate 300 97 :: js_string)"
    by (auto simp: bmp_only_def is_high_def is_low_def)
  have ch: "fits LEN_CHANNEL (js_of ''c'')" by code_simp
  have order: "distinct [1, 0 :: nat]" "set [1, 0] = {..<length chunks}" using c(2) by auto
  have new: "rc_reassembler (new_client sample_config) = []" "rc_log (new_client sample_config) = []"
    by (simp_all add: new_client_def)
  have clock: "\<And>i :: nat. (0 :: int) \<le> 5 \<and> (5 :: int) \<le> 0 + 30000" by simp
  have ok: "reassembler_ok (rc_reassembler (new_client sample_config))" "jget (rc_reassembler (new_client sample_config)) (randomMsgId (\<lambda>_. 0)) = None"
    by (simp_all add: new reassembler_ok_def)
  note t = long_message_delivered [OF rnd c(1) long sample_tenant ch order clock ok, where q = Message and ?n3.0 = "\<lambda>_. 5", unfolded Let_def new append_Nil received_simps]
  show ?thesis using c(1) t plain by metis
qed

end
